(* ===== verification/Wifi_Prelude.thy ===== *)
theory Wifi_Prelude
  imports Main "HOL-Library.Word" "HOL-Library.Monad_Syntax"
begin

unbundle bit_operations_syntax

text \<open>
  Shared vocabulary of the development: machine integer types, byte memories with the
  little-endian accessors of \<^verbatim>\<open>source/common/wifi_shared.h\<close>, the alignment
  helper \<open>round_up_32\<close>, and the generic facts on words, memories and lists that the
  component theories use. A C array that is accessed by index is a function from byte
  offsets to bytes; an access past the end of the array is an access to the bytes that
  follow it, so that every in-bounds claim is a theorem and never an artefact of the model.
\<close>

section \<open>Types and collections\<close>

type_synonym u8 = "8 word"
type_synonym u16 = "16 word"
type_synonym u32 = "32 word"
type_synonym mem8 = "nat \<Rightarrow> u8"
type_synonym mac = "u8 list"

named_theorems mem_simps "reads over writes of byte memories"
named_theorems reg_simps "reads over writes of hardware registers"
named_theorems const_defs "numeric constants of the headers"

section \<open>Bits\<close>

definition BIT :: "nat \<Rightarrow> 'a::len word" where
  "BIT n = push_bit n 1"

lemma bit_BIT: "bit (BIT n :: 'a::len word) k \<longleftrightarrow> k = n \<and> n < LENGTH('a)"
  by (auto simp: BIT_def bit_simps simp del: push_bit_of_1)

lemma bit_or_BIT: "bit (w OR BIT n :: 'a::len word) k \<longleftrightarrow> bit w k \<or> (k = n \<and> n < LENGTH('a))"
  by (simp add: bit_or_iff bit_BIT)

lemma bit_clear_BIT:
  "bit (w AND NOT (BIT n) :: 'a::len word) k \<longleftrightarrow> bit w k \<and> k \<noteq> n"
  by (auto simp: bit_and_iff bit_not_iff bit_BIT dest: bit_imp_le_length)

lemma push_bit_fixed_point:
  fixes x :: "'a::len word"
  assumes "push_bit n x = x" "0 < n"
  shows "x = 0"
proof (rule ccontr)
  assume "x \<noteq> 0"
  then have ex: "\<exists>k. bit x k"
    by (metis bit_eq_iff bit_0_eq bot_apply bot_bool_def)
  define k where "k = (LEAST k. bit x k)"
  have k: "bit x k" using ex unfolding k_def by (metis LeastI)
  then have "bit (push_bit n x) k" using assms(1) by simp
  then have "n \<le> k" "bit x (k - n)" by (auto simp: bit_push_bit_iff)
  moreover from this assms(2) have "k - n < k" by simp
  ultimately show False unfolding k_def using not_less_Least by blast
qed

lemma drop_bit_fixed_point:
  fixes x :: "'a::len word"
  assumes "drop_bit n x = x" "0 < n"
  shows "x = 0"
proof -
  have "drop_bit (n * j) x = x" for j
    by (induction j) (simp_all add: assms(1) algebra_simps flip: drop_bit_drop_bit)
  then have "drop_bit (n * LENGTH('a)) x = x" .
  moreover have "LENGTH('a) \<le> n * LENGTH('a)" using assms(2) by simp
  then have "drop_bit (n * LENGTH('a)) x = 0"
    by (intro bit_word_eqI) (auto simp: bit_drop_bit_eq dest: bit_imp_le_length)
  ultimately show ?thesis by simp
qed

section \<open>Byte memories\<close>

text \<open>Little-endian 16 and 32 bit accesses at a byte offset, and block copies.\<close>

definition read_u16 :: "mem8 \<Rightarrow> nat \<Rightarrow> u16" where
  "read_u16 m i = ucast (m i) OR push_bit 8 (ucast (m (i + 1)))"

definition read_u32 :: "mem8 \<Rightarrow> nat \<Rightarrow> u32" where
  "read_u32 m i = ucast (m i) OR push_bit 8 (ucast (m (i + 1)))
     OR push_bit 16 (ucast (m (i + 2))) OR push_bit 24 (ucast (m (i + 3)))"

definition write_u32 :: "mem8 \<Rightarrow> nat \<Rightarrow> u32 \<Rightarrow> mem8" where
  "write_u32 m i v = m(i := ucast v, i + 1 := ucast (drop_bit 8 v),
     i + 2 := ucast (drop_bit 16 v), i + 3 := ucast (drop_bit 24 v))"

definition le16 :: "u16 \<Rightarrow> u8 list" where
  "le16 v = [ucast v, ucast (drop_bit 8 v)]"

definition le32 :: "u32 \<Rightarrow> u8 list" where
  "le32 v = [ucast v, ucast (drop_bit 8 v), ucast (drop_bit 16 v), ucast (drop_bit 24 v)]"

definition hword :: "u8 \<Rightarrow> u8 \<Rightarrow> u16" where
  "hword lo hi = ucast lo OR push_bit 8 (ucast hi)"

definition write_bytes :: "mem8 \<Rightarrow> nat \<Rightarrow> u8 list \<Rightarrow> mem8" where
  "write_bytes m off bs = (\<lambda>a. if off \<le> a \<and> a < off + length bs then bs ! (a - off) else m a)"

definition read_bytes :: "mem8 \<Rightarrow> nat \<Rightarrow> nat \<Rightarrow> u8 list" where
  "read_bytes m off n = map m [off..<off + n]"

definition agree_outside :: "nat \<Rightarrow> nat \<Rightarrow> mem8 \<Rightarrow> mem8 \<Rightarrow> bool" where
  "agree_outside lo hi m m' \<longleftrightarrow> (\<forall>a. a < lo \<or> hi \<le> a \<longrightarrow> m' a = m a)"

lemma read_write_u32 [simp, mem_simps]: "read_u32 (write_u32 m i v) i = v"
proof (rule bit_word_eqI)
  fix n assume "n < LENGTH(32)"
  then have "n < 32" by simp
  then consider "n < 8" | "8 \<le> n" "n < 16" | "16 \<le> n" "n < 24" | "24 \<le> n" "n < 32"
    by linarith
  then show "bit (read_u32 (write_u32 m i v) i) n = bit v n"
    by cases (auto simp add: read_u32_def write_u32_def bit_simps)
qed

lemma read_write_u32_other [mem_simps]:
  "i + 4 \<le> j \<or> j + 4 \<le> i \<Longrightarrow> read_u32 (write_u32 m i v) j = read_u32 m j"
  by (auto simp: read_u32_def write_u32_def)

lemma read_u32_cong: "(\<And>k. k < 4 \<Longrightarrow> m (i + k) = m' (i + k)) \<Longrightarrow> read_u32 m i = read_u32 m' i"
proof -
  assume "\<And>k. k < 4 \<Longrightarrow> m (i + k) = m' (i + k)"
  from this [of 0] this [of 1] this [of 2] this [of 3] show ?thesis
    by (simp add: read_u32_def)
qed

lemma length_read_bytes [simp]: "length (read_bytes m off n) = n"
  by (simp add: read_bytes_def)

lemma read_bytes_0 [simp]: "read_bytes m off 0 = []"
  by (simp add: read_bytes_def)

lemma read_bytes_add: "read_bytes m off (k + n) = read_bytes m off k @ read_bytes m (off + k) n"
proof -
  have "[off..<off + (k + n)] = [off..<off + k] @ [off + k..<off + k + n]"
    by (metis add.assoc le_add1 upt_add_eq_append)
  then show ?thesis by (simp add: read_bytes_def)
qed

lemma nth_read_bytes [simp]: "k < n \<Longrightarrow> read_bytes m off n ! k = m (off + k)"
  by (simp add: read_bytes_def)

lemma read_bytes_cong: "(\<And>k. k < n \<Longrightarrow> m (off + k) = m' (off + k)) \<Longrightarrow> read_bytes m off n = read_bytes m' off n"
  by (rule nth_equalityI) simp_all

lemma read_write_bytes [simp, mem_simps]: "read_bytes (write_bytes m off bs) off (length bs) = bs"
  by (rule nth_equalityI) (simp_all add: write_bytes_def)

lemma write_bytes_other [mem_simps]:
  "a < off \<or> off + length bs \<le> a \<Longrightarrow> write_bytes m off bs a = m a"
  by (auto simp: write_bytes_def)

lemma write_bytes_Nil [simp]: "write_bytes m off [] = m"
  by (rule ext) (auto simp: write_bytes_def)

lemma agree_outside_refl [simp, intro]: "agree_outside lo hi m m"
  by (simp add: agree_outside_def)

lemma agree_outside_write_bytes:
  "lo \<le> off \<Longrightarrow> off + length bs \<le> hi \<Longrightarrow> agree_outside lo hi m (write_bytes m off bs)"
  by (auto simp: agree_outside_def write_bytes_def)

lemma agree_outside_write_u32:
  "lo \<le> i \<Longrightarrow> i + 4 \<le> hi \<Longrightarrow> agree_outside lo hi m (write_u32 m i v)"
  by (auto simp: agree_outside_def write_u32_def)

lemma agree_outside_trans:
  "agree_outside lo hi m m' \<Longrightarrow> agree_outside lo hi m' m'' \<Longrightarrow> agree_outside lo hi m m''"
  by (simp add: agree_outside_def)

lemma agree_outside_mono:
  "agree_outside lo hi m m' \<Longrightarrow> lo' \<le> lo \<Longrightarrow> hi \<le> hi' \<Longrightarrow> agree_outside lo' hi' m m'"
  by (auto simp: agree_outside_def)

lemma read_u32_agree:
  "agree_outside lo hi m m' \<Longrightarrow> i + 4 \<le> lo \<or> hi \<le> i \<Longrightarrow> read_u32 m' i = read_u32 m i"
  by (rule read_u32_cong) (auto simp: agree_outside_def)

lemma read_bytes_agree:
  "agree_outside lo hi m m' \<Longrightarrow> off + n \<le> lo \<or> hi \<le> off \<Longrightarrow> read_bytes m' off n = read_bytes m off n"
  by (rule read_bytes_cong) (auto simp: agree_outside_def)

section \<open>Alignment\<close>

definition round_up_32 :: "u32 \<Rightarrow> u32" where
  "round_up_32 value = (value + 3) AND NOT 3"

definition align4 :: "nat \<Rightarrow> nat" where
  "align4 n = (n + 3) div 4 * 4"

lemma align4_bounds: "n \<le> align4 n" "align4 n \<le> n + 3" "align4 n mod 4 = 0"
  by (auto simp: align4_def)

lemma align4_add: "a mod 4 = 0 \<Longrightarrow> align4 (a + n) = a + align4 n"
  unfolding align4_def by presburger

lemma bit_numeral_3: "bit (3 :: 'a::len word) n \<longleftrightarrow> n < 2 \<and> n < LENGTH('a)"
proof -
  have "bit (mask 2 :: 'a word) n \<longleftrightarrow> n < 2 \<and> n < LENGTH('a)" by (auto simp: bit_mask_iff)
  then show ?thesis by (simp add: mask_numeral)
qed

lemma unat_and_not_3: "unat (w AND NOT 3 :: u32) = unat w div 4 * 4"
proof -
  have "w AND NOT 3 = push_bit 2 (drop_bit 2 w)"
    by (rule bit_word_eqI)
       (simp only: bit_simps bit_numeral_3, auto simp: Suc_diff_Suc numeral_2_eq_2 dest: bit_imp_le_length)
  moreover have "take_bit 32 (unat w) = unat w"
    using unsigned_less [of w, where ?'a = nat] by (simp add: take_bit_nat_eq_self_iff)
  ultimately have "unat (w AND NOT 3) = take_bit 32 (push_bit 2 (unat w div 4))"
    by (simp only: unsigned_push_bit_eq unsigned_drop_bit_eq) (simp add: drop_bit_eq_div)
  also have "\<dots> = unat w div 4 * 4"
  proof -
    have "unat w div 4 * 4 < 2 ^ 32" using unsigned_less [of w, where ?'a = nat] by simp
    then show ?thesis by (simp add: push_bit_eq_mult take_bit_eq_mod)
  qed
  finally show ?thesis .
qed

lemma unat_round_up_32:
  assumes "unat v + 3 < 2 ^ 32"
  shows "unat (round_up_32 v) = align4 (unat v)"
proof -
  have "unat (v + 3) = unat v + 3" using assms by (simp add: unat_word_ariths)
  then show ?thesis by (simp only: round_up_32_def unat_and_not_3 align4_def)
qed

lemma unat_add_small: "unat a + unat b < 2 ^ LENGTH('a) \<Longrightarrow> unat (a + b :: 'a::len word) = unat a + unat b"
  by (simp add: unat_word_ariths)

lemma word_and_3_eq_0: "(w :: u32) AND 3 = 0 \<longleftrightarrow> unat w mod 4 = 0"
proof -
  have "w AND 3 = take_bit 2 w"
    by (simp add: take_bit_eq_mask mask_numeral)
  then have "unat (w AND 3) = unat w mod 4"
    by (simp only: unsigned_take_bit_eq) (simp add: take_bit_eq_mod)
  then show ?thesis by (metis unat_0 unat_eq_zero)
qed

end
