(* ===== verification/Wifi_Shared.thy ===== *)
theory Wifi_Shared
  imports Wifi_Prelude
begin

text \<open>
  The data shared by the two processors: the constants of \<^verbatim>\<open>ieee_defs.h\<close>,
  \<^verbatim>\<open>common_ntr_defs.h\<close> and \<^verbatim>\<open>dswifi_common.h\<close>, and the structure
  \<^verbatim>\<open>Wifi_MainStruct\<close> of \<^verbatim>\<open>wifi_shared.h\<close> with the structures nested in
  it. C enumerations are datatypes, fixed-width integers are words, MAC addresses are lists of
  six bytes (the code compares and copies them with \<^verbatim>\<open>memcmp\<close> and
  \<^verbatim>\<open>memcpy\<close> of six bytes). The three fields of each circular buffer
  (\<^verbatim>\<open>txbufWrite\<close>, \<^verbatim>\<open>txbufRead\<close>, \<^verbatim>\<open>txbufData\<close> and the same
  for \<^verbatim>\<open>rxbuf\<close>) are grouped into one record, because the same code handles both.
\<close>

section \<open>Enumerations\<close>

datatype DSWifi_Mode = DSWIFI_INTERNET | DSWIFI_MULTIPLAYER_CLIENT | DSWIFI_MULTIPLAYER_HOST

datatype WIFI_MODE =
    WIFIMODE_DISABLED | WIFIMODE_INITIALIZING | WIFIMODE_NORMAL | WIFIMODE_SCAN
  | WIFIMODE_CONNECTING | WIFIMODE_CONNECTED | WIFIMODE_DISCONNECTING
  | WIFIMODE_CANNOTCONNECT | WIFIMODE_ACCESSPOINT

datatype WIFI_AUTHLEVEL =
    WIFI_AUTHLEVEL_DISCONNECTED | WIFI_AUTHLEVEL_AUTHENTICATED | WIFI_AUTHLEVEL_ASSOCIATED
  | WIFI_AUTHLEVEL_DEASSOCIATED | WIFI_AUTHLEVEL_ERROR

datatype Wifi_ApSecurityType = AP_SECURITY_OPEN | AP_SECURITY_WEP | AP_SECURITY_WPA | AP_SECURITY_WPA2

datatype Wifi_ApCryptType = AP_CRYPT_NONE | AP_CRYPT_WEP | AP_CRYPT_TKIP | AP_CRYPT_AES

text \<open>The last constructor stands for the values outside the enumeration, which the driver of the DSi card stores.\<close>

datatype Wifi_ApAuthType = AP_AUTH_NONE | AP_AUTH_8021X | AP_AUTH_PSK | AP_AUTH_OTHER u8

datatype Wifi_ConnectedClientState =
    WIFI_CLIENT_DISCONNECTED | WIFI_CLIENT_AUTHENTICATED | WIFI_CLIENT_ASSOCIATED

text \<open>The names shown to the user. The \<^verbatim>\<open>"Unk"\<close> default is for values outside the enumeration.\<close>

primrec Wifi_ApSecurityTypeString :: "Wifi_ApSecurityType \<Rightarrow> string" where
  "Wifi_ApSecurityTypeString AP_SECURITY_OPEN = ''Open''"
| "Wifi_ApSecurityTypeString AP_SECURITY_WEP = ''WEP''"
| "Wifi_ApSecurityTypeString AP_SECURITY_WPA = ''WPA''"
| "Wifi_ApSecurityTypeString AP_SECURITY_WPA2 = ''WPA2''"

primrec Wifi_ApCryptString :: "Wifi_ApCryptType \<Rightarrow> string" where
  "Wifi_ApCryptString AP_CRYPT_NONE = ''NONE''"
| "Wifi_ApCryptString AP_CRYPT_WEP = ''WEP''"
| "Wifi_ApCryptString AP_CRYPT_TKIP = ''TKIP''"
| "Wifi_ApCryptString AP_CRYPT_AES = ''AES''"

primrec Wifi_ApAuthTypeString :: "Wifi_ApAuthType \<Rightarrow> string" where
  "Wifi_ApAuthTypeString AP_AUTH_NONE = ''NONE''"
| "Wifi_ApAuthTypeString AP_AUTH_8021X = ''802.1X''"
| "Wifi_ApAuthTypeString AP_AUTH_PSK = ''PSK''"
| "Wifi_ApAuthTypeString (AP_AUTH_OTHER b) = ''Unk''"

section \<open>Numeric constants\<close>

definition WIFI_RXBUFFER_SIZE :: u32 where [simp]: "WIFI_RXBUFFER_SIZE = 12288"
definition WIFI_TXBUFFER_SIZE :: u32 where [simp]: "WIFI_TXBUFFER_SIZE = 24576"
definition WIFI_SIZE_WRAP :: u32 where [simp]: "WIFI_SIZE_WRAP = 0xFFFFFFFF"
definition WIFI_MAX_AP :: nat where [simp]: "WIFI_MAX_AP = 32"
definition WIFI_MAX_WFC :: nat where [simp]: "WIFI_MAX_WFC = 6"
definition WIFI_AP_TIMEOUT :: u32 where [simp]: "WIFI_AP_TIMEOUT = 27"
definition WIFI_MAX_MULTIPLAYER_CLIENTS :: nat where [simp]: "WIFI_MAX_MULTIPLAYER_CLIENTS = 15"
definition DSWIFI_BEACON_NAME_SIZE :: nat where [simp]: "DSWIFI_BEACON_NAME_SIZE = 20"

definition WFLAG_ARM7_ACTIVE :: u32 where [simp]: "WFLAG_ARM7_ACTIVE = 0x0001"
definition WFLAG_ARM7_RUNNING :: u32 where [simp]: "WFLAG_ARM7_RUNNING = 0x0002"

definition WFLAG_REQ_USELED :: u16 where [simp]: "WFLAG_REQ_USELED = 0x0001"
definition WFLAG_REQ_PROMISC :: u16 where [simp]: "WFLAG_REQ_PROMISC = 0x0010"
definition WFLAG_REQ_ALLOWCLIENTS :: u16 where [simp]: "WFLAG_REQ_ALLOWCLIENTS = 0x0040"
definition WFLAG_REQ_DSI_MODE :: u16 where [simp]: "WFLAG_REQ_DSI_MODE = 0x0080"
definition WFLAG_REQ_LOAD_WFC_KEY :: u16 where [simp]: "WFLAG_REQ_LOAD_WFC_KEY = 0x0100"

definition WFLAG_APDATA_WEP :: u16 where [simp]: "WFLAG_APDATA_WEP = 0x0002"
definition WFLAG_APDATA_WPA :: u16 where [simp]: "WFLAG_APDATA_WPA = 0x0004"
definition WFLAG_APDATA_COMPATIBLE :: u16 where [simp]: "WFLAG_APDATA_COMPATIBLE = 0x0008"
definition WFLAG_APDATA_NINTENDO_TAG :: u16 where [simp]: "WFLAG_APDATA_NINTENDO_TAG = 0x0040"
definition WFLAG_APDATA_CONFIG_IN_WFC :: u16 where [simp]: "WFLAG_APDATA_CONFIG_IN_WFC = 0x0080"
definition WFLAG_APDATA_ACTIVE :: u16 where [simp]: "WFLAG_APDATA_ACTIVE = 0x8000"

definition WFLAG_SEND_AS_DATA :: u32 where [simp]: "WFLAG_SEND_AS_DATA = 0x10000000"
definition WFLAG_SEND_AS_BEACON :: u32 where [simp]: "WFLAG_SEND_AS_BEACON = 0x20000000"
definition WFLAG_SEND_AS_REPLY :: u32 where [simp]: "WFLAG_SEND_AS_REPLY = 0x40000000"
definition WFLAG_SEND_AS_CMD :: u32 where [simp]: "WFLAG_SEND_AS_CMD = 0x80000000"
definition WFLAG_SEND_SIZE_MASK :: u32 where [simp]: "WFLAG_SEND_SIZE_MASK = 0x0FFFFFFF"

definition WIFI_TRANSFER_RATE_1MBPS :: u16 where [simp]: "WIFI_TRANSFER_RATE_1MBPS = 0x0A"
definition WIFI_TRANSFER_RATE_2MBPS :: u16 where [simp]: "WIFI_TRANSFER_RATE_2MBPS = 0x14"

definition WSTAT_RXQUEUEDPACKETS :: nat where [simp]: "WSTAT_RXQUEUEDPACKETS = 0"
definition WSTAT_TXQUEUEDPACKETS :: nat where [simp]: "WSTAT_TXQUEUEDPACKETS = 1"
definition WSTAT_RXQUEUEDBYTES :: nat where [simp]: "WSTAT_RXQUEUEDBYTES = 2"
definition WSTAT_TXQUEUEDBYTES :: nat where [simp]: "WSTAT_TXQUEUEDBYTES = 3"
definition WSTAT_RXQUEUEDLOST :: nat where [simp]: "WSTAT_RXQUEUEDLOST = 4"
definition WSTAT_TXQUEUEDREJECTED :: nat where [simp]: "WSTAT_TXQUEUEDREJECTED = 5"
definition WSTAT_RXPACKETS :: nat where [simp]: "WSTAT_RXPACKETS = 6"
definition WSTAT_RXBYTES :: nat where [simp]: "WSTAT_RXBYTES = 7"
definition WSTAT_RXDATABYTES :: nat where [simp]: "WSTAT_RXDATABYTES = 8"
definition WSTAT_TXPACKETS :: nat where [simp]: "WSTAT_TXPACKETS = 9"
definition WSTAT_TXBYTES :: nat where [simp]: "WSTAT_TXBYTES = 10"
definition WSTAT_TXDATABYTES :: nat where [simp]: "WSTAT_TXDATABYTES = 11"
definition WSTAT_ARM7_UPDATES :: nat where [simp]: "WSTAT_ARM7_UPDATES = 12"
definition WSTAT_DEBUG :: nat where [simp]: "WSTAT_DEBUG = 13"
definition WSTAT_HW_1B0 :: nat where [simp]: "WSTAT_HW_1B0 = 14"
definition NUM_WIFI_STATS :: nat where [simp]: "NUM_WIFI_STATS = 50"

section \<open>Structures\<close>

record Wifi_NintendoVendorInfo =
  players_max :: u8
  players_current :: u8
  allows_connections :: u8
  game_id :: u32
  name_len :: u8
  name :: "u16 list"

record Wifi_AccessPoint =
  ssid :: "u8 list"
  ssid_len :: u8
  bssid :: mac
  channel :: u8
  ap_rssi :: u16
  ap_flags :: u16
  nintendo :: Wifi_NintendoVendorInfo
  security_type :: Wifi_ApSecurityType
  group_crypt_type :: Wifi_ApCryptType
  pair_crypt_type :: Wifi_ApCryptType
  auth_type :: Wifi_ApAuthType
  timectr :: u32
  ap_spinlock :: u32

record Wifi_ConnectedClient =
  macaddr :: mac
  association_id :: u16
  client_state :: Wifi_ConnectedClientState

record Wifi_ClientsInfoIpc =
  client_list :: "Wifi_ConnectedClient list"
  aid_mask :: u16
  num_connected :: u8
  reqKickClientAIDMask :: u8
  curClientAID :: u8
  clients_spinlock :: u32

record Wifi_ApSecurity =
  pass_len :: u8
  pass :: "u8 list"
  pmk :: "u8 list"

record wfc_entry =
  wfc_ssid :: "u8 list"
  wfc_ssid_len :: u8
  wfc_ip :: u32
  wfc_gateway :: u32
  wfc_subnet_mask :: u32
  wfc_dns_primary :: u32
  wfc_dns_secondary :: u32
  wfc_security :: Wifi_ApSecurity

record circbuf =
  bufWrite :: u32
  bufRead :: u32
  bufData :: mem8

record Wifi_MainStruct =
  curMode :: WIFI_MODE
  reqMode :: WIFI_MODE
  curChannel :: u8
  reqChannel :: u8
  authlevel :: WIFI_AUTHLEVEL
  authctr :: u8
  flags7 :: u32
  reqFlags :: u16
  counter7 :: u32
  MacAddr :: mac
  curLibraryMode :: DSWifi_Mode
  reqLibraryMode :: DSWifi_Mode
  curAp :: Wifi_AccessPoint
  curApSecurity :: Wifi_ApSecurity
  maxrate7 :: u8
  realRates :: bool
  rssi :: u8
  aplist :: "Wifi_AccessPoint list"
  curApScanFlags :: u8
  reqApScanFlags :: u8
  wfc_number_of_configs :: u8
  wfc :: "wfc_entry list"
  rxbuf :: circbuf
  txbuf :: circbuf
  clients :: Wifi_ClientsInfoIpc
  curMaxClients :: u8
  reqMaxClients :: u8
  curCmdDataSize :: u16
  reqCmdDataSize :: u16
  curReplyDataSize :: u16
  reqReplyDataSize :: u16
  hostPlayerName :: "u16 list"
  hostPlayerNameLen :: u8
  stats :: "nat \<Rightarrow> u32"
  hardware_rng_seed :: u32
  random7 :: u32
  random9 :: u32

text \<open>The structure as \<^verbatim>\<open>Wifi_InitIPC\<close> clears it before anything else.\<close>

definition zero_vendor :: Wifi_NintendoVendorInfo where
  "zero_vendor = \<lparr>players_max = 0, players_current = 0, allows_connections = 0, game_id = 0,
     name_len = 0, name = replicate 10 0\<rparr>"

definition zero_ap :: Wifi_AccessPoint where
  "zero_ap = \<lparr>ssid = replicate 33 0, ssid_len = 0, bssid = replicate 6 0, channel = 0, ap_rssi = 0,
     ap_flags = 0, nintendo = zero_vendor, security_type = AP_SECURITY_OPEN,
     group_crypt_type = AP_CRYPT_NONE, pair_crypt_type = AP_CRYPT_NONE, auth_type = AP_AUTH_NONE,
     timectr = 0, ap_spinlock = 0\<rparr>"

definition zero_security :: Wifi_ApSecurity where
  "zero_security = \<lparr>pass_len = 0, pass = replicate 64 0, pmk = replicate 32 0\<rparr>"

definition zero_wfc :: wfc_entry where
  "zero_wfc = \<lparr>wfc_ssid = replicate 33 0, wfc_ssid_len = 0, wfc_ip = 0, wfc_gateway = 0,
     wfc_subnet_mask = 0, wfc_dns_primary = 0, wfc_dns_secondary = 0, wfc_security = zero_security\<rparr>"

definition zero_client :: Wifi_ConnectedClient where
  "zero_client = \<lparr>macaddr = replicate 6 0, association_id = 0, client_state = WIFI_CLIENT_DISCONNECTED\<rparr>"

definition zero_clients :: Wifi_ClientsInfoIpc where
  "zero_clients = \<lparr>client_list = replicate 15 zero_client, aid_mask = 0, num_connected = 0,
     reqKickClientAIDMask = 0, curClientAID = 0, clients_spinlock = 0\<rparr>"

definition zero_buf :: circbuf where
  "zero_buf = \<lparr>bufWrite = 0, bufRead = 0, bufData = \<lambda>_. 0\<rparr>"

definition zero_main :: Wifi_MainStruct where
  "zero_main = \<lparr>curMode = WIFIMODE_DISABLED, reqMode = WIFIMODE_DISABLED, curChannel = 0, reqChannel = 0,
     authlevel = WIFI_AUTHLEVEL_DISCONNECTED, authctr = 0, flags7 = 0, reqFlags = 0, counter7 = 0,
     MacAddr = replicate 6 0, curLibraryMode = DSWIFI_INTERNET, reqLibraryMode = DSWIFI_INTERNET,
     curAp = zero_ap, curApSecurity = zero_security, maxrate7 = 0, realRates = False, rssi = 0,
     aplist = replicate 32 zero_ap, curApScanFlags = 0, reqApScanFlags = 0, wfc_number_of_configs = 0,
     wfc = replicate 6 zero_wfc, rxbuf = zero_buf, txbuf = zero_buf, clients = zero_clients,
     curMaxClients = 0, reqMaxClients = 0, curCmdDataSize = 0, reqCmdDataSize = 0,
     curReplyDataSize = 0, reqReplyDataSize = 0, hostPlayerName = replicate 10 0,
     hostPlayerNameLen = 0, stats = \<lambda>_. 0, hardware_rng_seed = 0, random7 = 0, random9 = 0\<rparr>"

definition stat_add :: "nat \<Rightarrow> u32 \<Rightarrow> Wifi_MainStruct \<Rightarrow> Wifi_MainStruct" where
  "stat_add k n w = w\<lparr>stats := (stats w)(k := stats w k + n)\<rparr>"

section \<open>WEP key sizes\<close>

text \<open>The mode is read from flash as a raw byte, so it is a number; only the seven enumerators have a size.\<close>

definition WEPMODE_NONE :: nat where [simp]: "WEPMODE_NONE = 0"
definition WEPMODE_64BIT :: nat where [simp]: "WEPMODE_64BIT = 1"
definition WEPMODE_128BIT :: nat where [simp]: "WEPMODE_128BIT = 2"
definition WEPMODE_152BIT :: nat where [simp]: "WEPMODE_152BIT = 3"
definition WEPMODE_64BIT_ASCII :: nat where [simp]: "WEPMODE_64BIT_ASCII = 5"
definition WEPMODE_128BIT_ASCII :: nat where [simp]: "WEPMODE_128BIT_ASCII = 6"
definition WEPMODE_152BIT_ASCII :: nat where [simp]: "WEPMODE_152BIT_ASCII = 7"

definition Wifi_WepKeySizeFromMode :: "nat \<Rightarrow> nat" where
  "Wifi_WepKeySizeFromMode wepmode =
     (if wepmode = WEPMODE_NONE then 0
      else if wepmode = WEPMODE_64BIT \<or> wepmode = WEPMODE_64BIT_ASCII then 5
      else if wepmode = WEPMODE_128BIT \<or> wepmode = WEPMODE_128BIT_ASCII then 13
      else if wepmode = WEPMODE_152BIT \<or> wepmode = WEPMODE_152BIT_ASCII then 16
      else 0)"

definition Wifi_WepModeFromKeySize :: "nat \<Rightarrow> nat" where
  "Wifi_WepModeFromKeySize sz =
     (if sz = 5 then WEPMODE_64BIT
      else if sz = 13 then WEPMODE_128BIT
      else if sz = 16 then WEPMODE_152BIT
      else WEPMODE_NONE)"

lemma wep_key_size_le_16: "Wifi_WepKeySizeFromMode m \<le> 16"
  by (simp add: Wifi_WepKeySizeFromMode_def)

lemma wep_mode_of_size_of_mode:
  "Wifi_WepKeySizeFromMode (Wifi_WepModeFromKeySize (Wifi_WepKeySizeFromMode m)) = Wifi_WepKeySizeFromMode m"
  by (simp add: Wifi_WepKeySizeFromMode_def Wifi_WepModeFromKeySize_def)

section \<open>MAC addresses\<close>

definition mac_of_hwords :: "u16 \<Rightarrow> u16 \<Rightarrow> u16 \<Rightarrow> mac" where
  "mac_of_hwords a b c = le16 a @ le16 b @ le16 c"

definition wifi_broadcast_addr :: mac where
  "wifi_broadcast_addr = mac_of_hwords 0xFFFF 0xFFFF 0xFFFF"

definition wifi_cmd_mac :: mac where
  "wifi_cmd_mac = mac_of_hwords 0x0903 0x00BF 0x0000"

definition wifi_reply_mac :: mac where
  "wifi_reply_mac = mac_of_hwords 0x0903 0x00BF 0x1000"

definition wifi_ack_mac :: mac where
  "wifi_ack_mac = mac_of_hwords 0x0903 0x00BF 0x0300"

definition Wifi_CmpMacAddr :: "mac \<Rightarrow> mac \<Rightarrow> bool" where
  "Wifi_CmpMacAddr mac1 mac2 \<longleftrightarrow> take 6 mac1 = take 6 mac2"

definition Wifi_CopyMacAddr :: "mac \<Rightarrow> mac" where
  "Wifi_CopyMacAddr src = take 6 src"

lemma wifi_macs_bytes:
  "wifi_cmd_mac = [0x03, 0x09, 0xBF, 0x00, 0x00, 0x00]"
  "wifi_reply_mac = [0x03, 0x09, 0xBF, 0x00, 0x00, 0x10]"
  "wifi_ack_mac = [0x03, 0x09, 0xBF, 0x00, 0x00, 0x03]"
  by (simp_all add: wifi_cmd_mac_def wifi_reply_mac_def wifi_ack_mac_def mac_of_hwords_def le16_def)

end
