(* ===== verification/Ieee_Defs.thy ===== *)
theory Ieee_Defs
  imports Wifi_Shared
begin

text \<open>
  The frame layout shared by both processors: constants of \<^verbatim>\<open>common/ieee_defs.h\<close> and
  \<^verbatim>\<open>common/common_ntr_defs.h\<close>, and the headers as the byte sequences that the structures
  occupy in memory (little endian, fields in declaration order).
\<close>

section \<open>Constants\<close>

definition FC_TO_DS :: u16 where [simp]: "FC_TO_DS = 0x0100"
definition FC_FROM_DS :: u16 where [simp]: "FC_FROM_DS = 0x0200"
definition FC_PWR_MGT :: u16 where [simp]: "FC_PWR_MGT = 0x1000"
definition FC_PROTECTED_FRAME :: u16 where [simp]: "FC_PROTECTED_FRAME = 0x4000"
definition FC_TYPE_SUBTYPE_MASK :: u16 where [simp]: "FC_TYPE_SUBTYPE_MASK = 0x00FC"

definition TYPE_ASSOC_REQUEST :: u16 where [simp]: "TYPE_ASSOC_REQUEST = 0x00"
definition TYPE_ASSOC_RESPONSE :: u16 where [simp]: "TYPE_ASSOC_RESPONSE = 0x10"
definition TYPE_REASSOC_REQUEST :: u16 where [simp]: "TYPE_REASSOC_REQUEST = 0x20"
definition TYPE_REASSOC_RESPONSE :: u16 where [simp]: "TYPE_REASSOC_RESPONSE = 0x30"
definition TYPE_PROBE_REQUEST :: u16 where [simp]: "TYPE_PROBE_REQUEST = 0x40"
definition TYPE_PROBE_RESPONSE :: u16 where [simp]: "TYPE_PROBE_RESPONSE = 0x50"
definition TYPE_BEACON :: u16 where [simp]: "TYPE_BEACON = 0x80"
definition TYPE_ATIM :: u16 where [simp]: "TYPE_ATIM = 0x90"
definition TYPE_DISASSOCIATION :: u16 where [simp]: "TYPE_DISASSOCIATION = 0xA0"
definition TYPE_AUTHENTICATION :: u16 where [simp]: "TYPE_AUTHENTICATION = 0xB0"
definition TYPE_DEAUTHENTICATION :: u16 where [simp]: "TYPE_DEAUTHENTICATION = 0xC0"
definition TYPE_ACTION :: u16 where [simp]: "TYPE_ACTION = 0xD0"

definition TYPE_BLOCKACKREQ :: u16 where [simp]: "TYPE_BLOCKACKREQ = 0x84"
definition TYPE_BLOCKACK :: u16 where [simp]: "TYPE_BLOCKACK = 0x94"
definition TYPE_POWERSAVE_POLL :: u16 where [simp]: "TYPE_POWERSAVE_POLL = 0xA4"
definition TYPE_RTS :: u16 where [simp]: "TYPE_RTS = 0xB4"
definition TYPE_CTS :: u16 where [simp]: "TYPE_CTS = 0xC4"
definition TYPE_ACK :: u16 where [simp]: "TYPE_ACK = 0xD4"
definition TYPE_CF_END :: u16 where [simp]: "TYPE_CF_END = 0xE4"
definition TYPE_CF_END_CF_ACK :: u16 where [simp]: "TYPE_CF_END_CF_ACK = 0xF4"

definition TYPE_DATA :: u16 where [simp]: "TYPE_DATA = 0x08"
definition TYPE_DATA_CF_ACK :: u16 where [simp]: "TYPE_DATA_CF_ACK = 0x18"
definition TYPE_DATA_CF_POLL :: u16 where [simp]: "TYPE_DATA_CF_POLL = 0x28"
definition TYPE_DATA_CF_ACK_CF_POLL :: u16 where [simp]: "TYPE_DATA_CF_ACK_CF_POLL = 0x38"
definition TYPE_NULL_FUNCTION :: u16 where [simp]: "TYPE_NULL_FUNCTION = 0x48"
definition TYPE_CF_ACK :: u16 where [simp]: "TYPE_CF_ACK = 0x58"
definition TYPE_CF_POLL :: u16 where [simp]: "TYPE_CF_POLL = 0x68"
definition TYPE_CF_ACK_CF_POLL :: u16 where [simp]: "TYPE_CF_ACK_CF_POLL = 0x78"

definition AUTH_ALGO_OPEN_SYSTEM :: u16 where [simp]: "AUTH_ALGO_OPEN_SYSTEM = 0"
definition AUTH_ALGO_SHARED_KEY :: u16 where [simp]: "AUTH_ALGO_SHARED_KEY = 1"

definition MGT_FIE_ID_SSID :: u8 where [simp]: "MGT_FIE_ID_SSID = 0"
definition MGT_FIE_ID_SUPPORTED_RATES :: u8 where [simp]: "MGT_FIE_ID_SUPPORTED_RATES = 1"
definition MGT_FIE_ID_DS_PARAM_SET :: u8 where [simp]: "MGT_FIE_ID_DS_PARAM_SET = 3"
definition MGT_FIE_ID_TIM :: u8 where [simp]: "MGT_FIE_ID_TIM = 5"
definition MGT_FIE_ID_CHALLENGE_TEXT :: u8 where [simp]: "MGT_FIE_ID_CHALLENGE_TEXT = 16"
definition MGT_FIE_ID_RSN :: u8 where [simp]: "MGT_FIE_ID_RSN = 48"
definition MGT_FIE_ID_VENDOR :: u8 where [simp]: "MGT_FIE_ID_VENDOR = 221"

definition CAPS_ESS :: u16 where [simp]: "CAPS_ESS = 0x01"
definition CAPS_PRIVACY :: u16 where [simp]: "CAPS_PRIVACY = 0x10"
definition CAPS_SHORT_PREAMBLE :: u16 where [simp]: "CAPS_SHORT_PREAMBLE = 0x20"

definition RATE_MANDATORY :: u8 where [simp]: "RATE_MANDATORY = 0x80"
definition RATE_SPEED_MASK :: u8 where [simp]: "RATE_SPEED_MASK = 0x7F"
definition RATE_1_MBPS :: u8 where [simp]: "RATE_1_MBPS = 2"
definition RATE_2_MBPS :: u8 where [simp]: "RATE_2_MBPS = 4"

definition STATUS_SUCCESS :: u16 where [simp]: "STATUS_SUCCESS = 0"
definition STATUS_UNSPECIFIED :: u16 where [simp]: "STATUS_UNSPECIFIED = 1"
definition STATUS_ASSOC_DENIED :: u16 where [simp]: "STATUS_ASSOC_DENIED = 12"
definition STATUS_AUTH_BAD_ALGORITHM :: u16 where [simp]: "STATUS_AUTH_BAD_ALGORITHM = 13"
definition STATUS_AUTH_BAD_SEQ_NUMBER :: u16 where [simp]: "STATUS_AUTH_BAD_SEQ_NUMBER = 14"
definition STATUS_ASSOC_TOO_MANY_DEVICES :: u16 where [simp]: "STATUS_ASSOC_TOO_MANY_DEVICES = 17"
definition STATUS_ASSOC_BAD_RATES :: u16 where [simp]: "STATUS_ASSOC_BAD_RATES = 18"

definition REASON_THIS_STATION_LEFT_DEAUTH :: u16 where [simp]: "REASON_THIS_STATION_LEFT_DEAUTH = 3"
definition REASON_CANT_HANDLE_ALL_STATIONS :: u16 where [simp]: "REASON_CANT_HANDLE_ALL_STATIONS = 5"

definition HDR_TX_SIZE :: nat where [simp]: "HDR_TX_SIZE = 12"
definition HDR_RX_SIZE :: nat where [simp]: "HDR_RX_SIZE = 12"
definition HDR_MGT_MAC_SIZE :: nat where [simp]: "HDR_MGT_MAC_SIZE = 24"
definition HDR_DATA_MAC_SIZE :: nat where [simp]: "HDR_DATA_MAC_SIZE = 24"

definition WFLAG_PACKET_DATA :: u32 where [simp]: "WFLAG_PACKET_DATA = 1"
definition WFLAG_PACKET_MGT :: u32 where [simp]: "WFLAG_PACKET_MGT = 2"
definition WFLAG_PACKET_BEACON :: u32 where [simp]: "WFLAG_PACKET_BEACON = 4"
definition WFLAG_PACKET_CTRL :: u32 where [simp]: "WFLAG_PACKET_CTRL = 8"

section \<open>Headers as bytes\<close>

definition Wifi_TxHeader_bytes :: "u16 \<Rightarrow> u16 \<Rightarrow> u8 list" where
  "Wifi_TxHeader_bytes tx_rate tx_length = replicate 8 0 @ le16 tx_rate @ le16 tx_length"

definition IEEE_DataFrameHeader_bytes :: "u16 \<Rightarrow> u16 \<Rightarrow> mac \<Rightarrow> mac \<Rightarrow> mac \<Rightarrow> u16 \<Rightarrow> u8 list" where
  "IEEE_DataFrameHeader_bytes frame_control dur addr_1 addr_2 addr_3 seq_ctl =
     le16 frame_control @ le16 dur @ Wifi_CopyMacAddr addr_1 @ Wifi_CopyMacAddr addr_2 @
     Wifi_CopyMacAddr addr_3 @ le16 seq_ctl"

text \<open>Field accessors of a received frame at offset \<open>p\<close> of a memory.\<close>

definition frame_control_at :: "mem8 \<Rightarrow> nat \<Rightarrow> u16" where
  "frame_control_at m p = read_u16 m p"

definition addr_1_at :: "mem8 \<Rightarrow> nat \<Rightarrow> mac" where
  "addr_1_at m p = read_bytes m (p + 4) 6"

definition addr_2_at :: "mem8 \<Rightarrow> nat \<Rightarrow> mac" where
  "addr_2_at m p = read_bytes m (p + 10) 6"

definition addr_3_at :: "mem8 \<Rightarrow> nat \<Rightarrow> mac" where
  "addr_3_at m p = read_bytes m (p + 16) 6"

section \<open>Reading back what was written\<close>

lemma length_le16 [simp]: "length (le16 v) = 2"
  by (simp add: le16_def)

lemma length_tx_header [simp]: "length (Wifi_TxHeader_bytes r l) = 12"
  by (simp add: Wifi_TxHeader_bytes_def)

lemma length_ieee_header:
  "length a1 = 6 \<Longrightarrow> length a2 = 6 \<Longrightarrow> length a3 = 6 \<Longrightarrow>
   length (IEEE_DataFrameHeader_bytes fc d a1 a2 a3 sq) = 24"
  by (simp add: IEEE_DataFrameHeader_bytes_def Wifi_CopyMacAddr_def)

lemma hword_le16 [simp]: "hword (ucast v) (ucast (drop_bit 8 v)) = v"
proof (rule bit_word_eqI)
  fix n assume "n < LENGTH(16)"
  then show "bit (hword (ucast v) (ucast (drop_bit 8 v))) n = bit v n"
    by (cases "n < 8") (auto simp: hword_def bit_simps)
qed

lemma read_u16_hword: "read_u16 m i = hword (m i) (m (i + 1))"
  by (simp add: read_u16_def hword_def)

text \<open>\<open>holds_at m p bs\<close>: the memory holds the bytes \<open>bs\<close> from offset \<open>p\<close> on.\<close>

definition holds_at :: "mem8 \<Rightarrow> nat \<Rightarrow> u8 list \<Rightarrow> bool" where
  "holds_at m p bs \<longleftrightarrow> read_bytes m p (length bs) = bs"

lemma holds_at_Nil [simp]: "holds_at m p []"
  by (simp add: holds_at_def)

lemma holds_at_append: "holds_at m p (as @ bs) \<longleftrightarrow> holds_at m p as \<and> holds_at m (p + length as) bs"
  by (auto simp: holds_at_def read_bytes_add)

lemma holds_at_Cons: "holds_at m p (b # bs) \<longleftrightarrow> m p = b \<and> holds_at m (Suc p) bs"
  using holds_at_append [of m p "[b]" bs] by (simp add: holds_at_def read_bytes_def)

lemma holds_at_le16: "holds_at m p (le16 v) \<Longrightarrow> read_u16 m p = v"
  by (simp only: le16_def holds_at_Cons read_u16_hword) simp

lemma holds_at_read: "holds_at m p bs \<Longrightarrow> length bs = n \<Longrightarrow> read_bytes m p n = bs"
  by (auto simp: holds_at_def)

lemma holds_at_data_header:
  assumes "holds_at m p (IEEE_DataFrameHeader_bytes fc d a1 a2 a3 sq @ rest)"
    "length a1 = 6" "length a2 = 6" "length a3 = 6"
  shows "frame_control_at m p = fc" "addr_1_at m p = a1" "addr_2_at m p = a2" "addr_3_at m p = a3"
    "holds_at m (p + 24) rest"
  using assms
  by (auto simp: IEEE_DataFrameHeader_bytes_def holds_at_append Wifi_CopyMacAddr_def
    frame_control_at_def addr_1_at_def addr_2_at_def addr_3_at_def add.commute [of p]
    simp del: add_2_eq_Suc add_2_eq_Suc' intro: holds_at_le16 holds_at_read)

lemma holds_at_write_bytes: "holds_at (write_bytes m p bs) p bs"
  by (simp add: holds_at_def)

end
