(* ===== verification/Circ_Buffer.thy ===== *)
theory Circ_Buffer
  imports Wifi_Shared
begin

text \<open>
  The circular packet buffers of \<^verbatim>\<open>Wifi_MainStruct\<close>. Both directions use the same
  code: \<^verbatim>\<open>Wifi_TxBufferAllocBuffer\<close> (arm9/ipc.c) and
  \<^verbatim>\<open>Wifi_RxBufferAllocBuffer\<close> (arm7/ipc.c) reserve space, and every writer finishes
  with the same sequence: payload, stop marker after it, write index, size word last. The
  theory models that code, relates a buffer to the list of packets a reader will see
  (\<open>ring_inv\<close>), and proves that a write appends one packet and a read removes the first.
  The outer option of an operation is \<open>None\<close> when an assertion of the source fails.
\<close>

section \<open>Operations\<close>

definition BufferAllocBuffer :: "u32 \<Rightarrow> u32 \<Rightarrow> circbuf \<Rightarrow> (u32 option \<times> circbuf) option" where
  "BufferAllocBuffer bufsize total_size b =
     (let write_idx = bufWrite b; read_idx = bufRead b in
      if read_idx AND 3 \<noteq> 0 \<or> write_idx AND 3 \<noteq> 0 then None
      else if read_idx \<le> write_idx then
        (if bufsize \<le> write_idx + total_size then
           (if read_idx \<le> total_size then Some (None, b)
            else Some (Some 0,
              b\<lparr>bufData := write_u32 (write_u32 (bufData b) 0 0) (unat write_idx) WIFI_SIZE_WRAP\<rparr>))
         else Some (Some write_idx, b))
      else if read_idx \<le> write_idx + total_size then Some (None, b)
      else Some (Some write_idx, b))"

definition Wifi_TxBufferAllocBuffer ::
  "u32 \<Rightarrow> Wifi_MainStruct \<Rightarrow> (u32 option \<times> Wifi_MainStruct) option" where
  "Wifi_TxBufferAllocBuffer total_size w =
     (case BufferAllocBuffer WIFI_TXBUFFER_SIZE total_size (txbuf w) of
        None \<Rightarrow> None
      | Some (r, b) \<Rightarrow> Some (r, w\<lparr>txbuf := b\<rparr>))"

definition Wifi_RxBufferAllocBuffer ::
  "u32 \<Rightarrow> Wifi_MainStruct \<Rightarrow> (u32 option \<times> Wifi_MainStruct) option" where
  "Wifi_RxBufferAllocBuffer total_size w =
     (case BufferAllocBuffer WIFI_RXBUFFER_SIZE total_size (rxbuf w) of
        None \<Rightarrow> None
      | Some (r, b) \<Rightarrow> Some (r, w\<lparr>rxbuf := b\<rparr>))"

text \<open>
  The end of every writer, from the index returned by the allocation: skip the size word, let
  \<open>fill\<close> write the packet bytes, pad, write the stop marker, move the write index, and only
  then publish the packet by writing its size word.
\<close>

definition BufferPublish ::
  "u32 \<Rightarrow> u32 \<Rightarrow> u32 \<Rightarrow> (nat \<Rightarrow> mem8 \<Rightarrow> mem8) \<Rightarrow> u32 \<Rightarrow> circbuf \<Rightarrow> circbuf option" where
  "BufferPublish bufsize alloc_idx frame_size fill tag b =
     (let size_idx = alloc_idx;
          data1 = fill (unat (size_idx + 4)) (bufData b);
          write_idx = round_up_32 (size_idx + 4 + frame_size);
          data2 = write_u32 data1 (unat write_idx) 0
      in if write_idx \<le> bufsize - 4
         then Some (b\<lparr>bufWrite := write_idx, bufData := write_u32 data2 (unat size_idx) tag\<rparr>)
         else None)"

definition packet_total :: "u32 \<Rightarrow> u32" where
  "packet_total frame_size = 4 + round_up_32 frame_size + 4"

definition BufferPut ::
  "u32 \<Rightarrow> u32 \<Rightarrow> (nat \<Rightarrow> mem8 \<Rightarrow> mem8) \<Rightarrow> u32 \<Rightarrow> circbuf \<Rightarrow> (bool \<times> circbuf) option" where
  "BufferPut bufsize frame_size fill tag b =
     (case BufferAllocBuffer bufsize (packet_total frame_size) b of
        None \<Rightarrow> None
      | Some (None, b1) \<Rightarrow> Some (False, b1)
      | Some (Some alloc_idx, b1) \<Rightarrow>
          map_option (Pair True) (BufferPublish bufsize alloc_idx frame_size fill tag b1))"

section \<open>What a reader sees\<close>

type_synonym packet = "u32 \<times> u8 list"

text \<open>\<open>seg szf m i ps j\<close>: from byte \<open>i\<close> to byte \<open>j\<close> the memory holds exactly the packets
  \<open>ps\<close>, one after the other; \<open>szf\<close> extracts the packet size from the size word.\<close>

fun seg :: "(u32 \<Rightarrow> nat) \<Rightarrow> mem8 \<Rightarrow> nat \<Rightarrow> packet list \<Rightarrow> nat \<Rightarrow> bool" where
  "seg szf m i [] j \<longleftrightarrow> i = j"
| "seg szf m i ((tag, bs) # ps) j \<longleftrightarrow>
     tag \<noteq> 0 \<and> tag \<noteq> WIFI_SIZE_WRAP \<and> length bs = szf tag \<and> read_u32 m i = tag \<and>
     read_bytes m (i + 4) (length bs) = bs \<and> seg szf m (i + 4 + align4 (length bs)) ps j"

definition ring_inv :: "nat \<Rightarrow> (u32 \<Rightarrow> nat) \<Rightarrow> circbuf \<Rightarrow> packet list \<Rightarrow> bool" where
  "ring_inv SZ szf b ps \<longleftrightarrow>
     (let rd = unat (bufRead b); wr = unat (bufWrite b); m = bufData b in
      rd mod 4 = 0 \<and> wr mod 4 = 0 \<and> rd + 4 \<le> SZ \<and> wr + 4 \<le> SZ \<and> read_u32 m wr = 0 \<and>
      (rd \<le> wr \<and> seg szf m rd ps wr \<or>
       wr < rd \<and> (\<exists>k ps1 ps2. ps = ps1 @ ps2 \<and> seg szf m rd ps1 k \<and> k + 4 \<le> SZ \<and>
                    read_u32 m k = WIFI_SIZE_WRAP \<and> seg szf m 0 ps2 wr)))"

definition fits_between :: "(nat \<Rightarrow> mem8 \<Rightarrow> mem8) \<Rightarrow> nat \<Rightarrow> bool" where
  "fits_between fill n \<longleftrightarrow> (\<forall>a m. agree_outside a (a + n) m (fill a m))"

lemma seg_le: "seg szf m i ps j \<Longrightarrow> i \<le> j"
  by (induction szf m i ps j rule: seg.induct) auto

lemma seg_mod4: "seg szf m i ps j \<Longrightarrow> i mod 4 = 0 \<Longrightarrow> j mod 4 = 0"
proof (induction szf m i ps j rule: seg.induct)
  case (2 szf m i tag bs ps j)
  have "(i + 4 + align4 (length bs)) mod 4 = 0"
    using "2.prems"(2) align4_bounds(3) [of "length bs"] by presburger
  with 2 show ?case by auto
qed simp

lemma seg_append: "seg szf m i (ps @ qs) j \<longleftrightarrow> (\<exists>k. seg szf m i ps k \<and> seg szf m k qs j)"
  by (induction szf m i ps j rule: seg.induct) auto

lemma seg_agree:
  assumes "agree_outside lo hi m m'" "j \<le> lo \<or> hi \<le> i" "seg szf m i ps j"
  shows "seg szf m' i ps j"
  using assms(2,3)
proof (induction ps arbitrary: i)
  case (Cons p ps)
  obtain tag bs where p: "p = (tag, bs)" by (cases p)
  let ?n = "i + 4 + align4 (length bs)"
  from Cons.prems p have s: "seg szf m ?n ps j" by auto
  then have "?n \<le> j" by (rule seg_le)
  then have dis: "?n \<le> lo \<or> hi \<le> i" using Cons.prems(1) by auto
  have "read_u32 m' i = read_u32 m i"
    using dis by (intro read_u32_agree [OF assms(1)]) auto
  moreover have "read_bytes m' (i + 4) (length bs) = read_bytes m (i + 4) (length bs)"
    using dis align4_bounds(1) [of "length bs"] by (intro read_bytes_agree [OF assms(1)]) auto
  moreover have "seg szf m' ?n ps j" using Cons.IH [of ?n] s Cons.prems(1) by auto
  ultimately show ?case using Cons.prems(2) by (auto simp: p)
qed simp

section \<open>Writing appends a packet\<close>

definition size_ok :: "u32 \<Rightarrow> bool" where
  "size_ok sz \<longleftrightarrow> unat sz < 0x0FFFFFFF"

lemma unat_packet_total: "size_ok fs \<Longrightarrow> unat (packet_total fs) = 8 + align4 (unat fs)"
proof -
  assume ok: "size_ok fs"
  then have "unat (round_up_32 fs) = align4 (unat fs)"
    by (simp add: size_ok_def unat_round_up_32)
  moreover have "align4 (unat fs) < 0x10000004"
    using ok align4_bounds(2) [of "unat fs"] by (simp add: size_ok_def)
  ultimately show ?thesis
    by (simp add: packet_total_def unat_word_ariths)
qed

text \<open>The allocation in natural-number arithmetic: no wrap-around happens below \<open>2 ^ 31\<close>.\<close>

lemma alloc_cases:
  assumes inv: "ring_inv (unat SZ) szf b ps" and SZ: "unat SZ < 2 ^ 31"
    and T: "unat tot < 2 ^ 31"
  defines "rd \<equiv> unat (bufRead b)" and "wr \<equiv> unat (bufWrite b)"
  shows "BufferAllocBuffer SZ tot b =
    (if rd \<le> wr then
       if unat SZ \<le> wr + unat tot then
         if rd \<le> unat tot then Some (None, b)
         else Some (Some 0, b\<lparr>bufData := write_u32 (write_u32 (bufData b) 0 0) wr WIFI_SIZE_WRAP\<rparr>)
       else Some (Some (bufWrite b), b)
     else if rd \<le> wr + unat tot then Some (None, b) else Some (Some (bufWrite b), b))"
proof -
  have wr: "wr + 4 \<le> unat SZ" and al: "rd mod 4 = 0" "wr mod 4 = 0"
    using inv by (auto simp: ring_inv_def Let_def rd_def wr_def)
  have "wr + unat tot < 2 ^ 32" using wr SZ T by simp
  then have "unat (bufWrite b + tot) = wr + unat tot"
    by (simp add: wr_def unat_word_ariths)
  then show ?thesis
    using al by (simp add: BufferAllocBuffer_def Let_def word_and_3_eq_0 word_le_nat_alt rd_def wr_def)
qed

lemma publish_eq:
  assumes "i mod 4 = 0" "unat idx = i" "size_ok fs" "i + 8 + align4 (unat fs) \<le> unat SZ"
    "unat SZ < 2 ^ 31" "4 \<le> unat SZ"
  shows "\<exists>wi. unat wi = i + 4 + align4 (unat fs) \<and>
    BufferPublish SZ idx fs fill tag b = Some (b\<lparr>bufWrite := wi,
      bufData := write_u32 (write_u32 (fill (i + 4) (bufData b)) (i + 4 + align4 (unat fs)) 0) i tag\<rparr>)"
proof -
  have le: "unat fs \<le> align4 (unat fs)" by (rule align4_bounds)
  have i4: "unat (idx + 4) = i + 4" using assms le by (simp add: unat_word_ariths)
  have sum: "unat (idx + 4 + fs) = i + 4 + unat fs"
    using assms le i4 by (simp add: unat_word_ariths)
  have "unat (round_up_32 (idx + 4 + fs)) = align4 (i + 4 + unat fs)"
    using assms le sum by (simp add: unat_round_up_32)
  also have "\<dots> = i + 4 + align4 (unat fs)"
    using assms(1) by (intro align4_add) presburger
  finally have wi: "unat (round_up_32 (idx + 4 + fs)) = i + 4 + align4 (unat fs)" .
  have "unat (SZ - 4) = unat SZ - 4" using assms(6) by (simp add: unat_sub word_le_nat_alt)
  then have "round_up_32 (idx + 4 + fs) \<le> SZ - 4"
    using wi assms(4) by (simp add: word_le_nat_alt)
  then show ?thesis
    using wi i4 assms(2) by (intro exI [of _ "round_up_32 (idx + 4 + fs)"])
      (simp add: BufferPublish_def Let_def)
qed

text \<open>One published packet at \<open>i\<close>, seen by the reader of the resulting memory.\<close>

lemma publish_seg:
  fixes m :: mem8 and i :: nat
  assumes fill: "fits_between fill (align4 n)" and tag: "tag \<noteq> 0" "tag \<noteq> WIFI_SIZE_WRAP"
    and n: "szf tag = n"
  defines "m' \<equiv> write_u32 (write_u32 (fill (i + 4) m) (i + 4 + align4 n) 0) i tag"
  shows "agree_outside i (i + 8 + align4 n) m m'"
    and "read_u32 m' (i + 4 + align4 n) = 0"
    and "seg szf m' i [(tag, read_bytes (fill (i + 4) m) (i + 4) n)] (i + 4 + align4 n)"
proof -
  have le: "n \<le> align4 n" by (rule align4_bounds)
  have f: "agree_outside (i + 4) (i + 4 + align4 n) m (fill (i + 4) m)"
    using fill by (simp add: fits_between_def)
  show "agree_outside i (i + 8 + align4 n) m m'"
    unfolding m'_def using f
    by (auto simp: agree_outside_def write_u32_def)
  show "read_u32 m' (i + 4 + align4 n) = 0"
    unfolding m'_def by (simp add: read_write_u32_other)
  have "read_bytes m' (i + 4) n = read_bytes (fill (i + 4) m) (i + 4) n"
    unfolding m'_def using le by (intro read_bytes_cong) (auto simp: write_u32_def)
  then show "seg szf m' i [(tag, read_bytes (fill (i + 4) m) (i + 4) n)] (i + 4 + align4 n)"
    using tag n by (simp add: m'_def)
qed

lemma ring_appendI:
  assumes inv: "ring_inv SZ szf b ps"
    and at: "read_u32 (bufData b') (unat (bufWrite b')) = 0" "bufRead b' = bufRead b"
      "unat (bufWrite b') mod 4 = 0" "unat (bufWrite b') + 4 \<le> SZ"
    and agree: "agree_outside i (unat (bufWrite b') + 4) m (bufData b')"
    and new: "seg szf (bufData b') i [p] (unat (bufWrite b'))"
    and loc: "i = unat (bufWrite b) \<and> m = bufData b \<and>
        (unat (bufRead b) \<le> i \<or> unat (bufWrite b') + 4 \<le> unat (bufRead b)) \<or>
      i = 0 \<and> unat (bufRead b) \<le> unat (bufWrite b) \<and>
        unat (bufWrite b') + 4 \<le> unat (bufRead b) \<and>
        m = write_u32 (write_u32 (bufData b) 0 0) (unat (bufWrite b)) WIFI_SIZE_WRAP"
  shows "ring_inv SZ szf b' (ps @ [p])"
proof -
  let ?rd = "unat (bufRead b)" and ?wr = "unat (bufWrite b)" and ?wr' = "unat (bufWrite b')"
  let ?m = "bufData b" and ?m' = "bufData b'"
  have basic: "?rd mod 4 = 0" "?wr mod 4 = 0" "?rd + 4 \<le> SZ" "?wr + 4 \<le> SZ"
    using inv by (auto simp: ring_inv_def Let_def)
  have le': "i \<le> ?wr'" using new by (rule seg_le)
  from inv consider
      (flat) "?rd \<le> ?wr" "seg szf ?m ?rd ps ?wr"
    | (wrapped) k ps1 ps2 where "?wr < ?rd" "ps = ps1 @ ps2" "seg szf ?m ?rd ps1 k" "k + 4 \<le> SZ"
        "read_u32 ?m k = WIFI_SIZE_WRAP" "seg szf ?m 0 ps2 ?wr"
    by (auto simp: ring_inv_def Let_def)
  then show ?thesis
  proof cases
    case flat
    show ?thesis
    proof (cases "i = ?wr \<and> m = ?m")
      case True
      then have "i = ?wr" "m = ?m" "?rd \<le> i" using loc flat le' by auto
      then have "seg szf ?m' ?rd ps i"
        using flat seg_agree [OF agree, of i ?rd szf ps] by auto
      then show ?thesis
        using at basic new \<open>?rd \<le> i\<close> le'
        by (auto simp: ring_inv_def Let_def seg_append simp del: seg.simps)
    next
      case False
      then have i: "i = 0" "?wr' + 4 \<le> ?rd" and
        m: "m = write_u32 (write_u32 ?m 0 0) ?wr WIFI_SIZE_WRAP"
        using loc flat by auto
      have "agree_outside 0 4 ?m (write_u32 ?m 0 0)"
        and "agree_outside ?wr (?wr + 4) (write_u32 ?m 0 0) m"
        by (auto simp: m agree_outside_write_u32)
      then have "seg szf m ?rd ps ?wr"
        using flat i seg_agree [of 0 4 ?m "write_u32 ?m 0 0" ?wr ?rd szf ps]
          seg_agree [of ?wr "?wr + 4" "write_u32 ?m 0 0" m ?wr ?rd szf ps] by auto
      then have "seg szf ?m' ?rd ps ?wr"
        using seg_agree [OF agree, of ?wr ?rd] i by auto
      moreover have "read_u32 ?m' ?wr = WIFI_SIZE_WRAP"
        using read_u32_agree [OF agree, of ?wr] i flat by (simp add: m)
      ultimately show ?thesis
        using at basic new i unfolding ring_inv_def Let_def by fastforce
    qed
  next
    case wrapped
    then have i: "i = ?wr" "m = ?m" "?wr' + 4 \<le> ?rd" using loc le' by auto
    then have "seg szf ?m' ?rd ps1 k" "seg szf ?m' 0 ps2 i"
      using wrapped seg_agree [OF agree, of k ?rd szf ps1] seg_agree [OF agree, of i 0 szf ps2] by auto
    moreover have "read_u32 ?m' k = WIFI_SIZE_WRAP"
      using read_u32_agree [OF agree, of k] i wrapped seg_le [OF wrapped(3)] by simp
    ultimately show ?thesis
      using at basic new i wrapped unfolding ring_inv_def Let_def
      by (intro conjI disjI2 exI [of _ k] exI [of _ ps1] exI [of _ "ps2 @ [p]"])
         (auto simp: seg_append simp del: seg.simps)
  qed
qed

lemma put_at:
  assumes inv: "ring_inv (unat SZ) szf b ps" and SZ: "unat SZ < 2 ^ 31" and fs: "size_ok fs"
    and fill: "fits_between fill (align4 (unat fs))"
    and tag: "tag \<noteq> 0" "tag \<noteq> WIFI_SIZE_WRAP" "szf tag = unat fs"
    and i: "unat idx mod 4 = 0" "unat idx + 8 + align4 (unat fs) \<le> unat SZ"
    and b1: "bufRead b1 = bufRead b"
    and loc: "unat idx = unat (bufWrite b) \<and> bufData b1 = bufData b \<and>
        (unat (bufRead b) \<le> unat idx \<or> unat idx + 8 + align4 (unat fs) \<le> unat (bufRead b)) \<or>
      unat idx = 0 \<and> unat (bufRead b) \<le> unat (bufWrite b) \<and>
        8 + align4 (unat fs) \<le> unat (bufRead b) \<and>
        bufData b1 = write_u32 (write_u32 (bufData b) 0 0) (unat (bufWrite b)) WIFI_SIZE_WRAP"
  shows "\<exists>b' a m. BufferPublish SZ idx fs fill tag b1 = Some b' \<and> bufRead b' = bufRead b \<and>
    ring_inv (unat SZ) szf b' (ps @ [(tag, read_bytes (fill a m) a (unat fs))])"
proof -
  let ?i = "unat idx" and ?n = "align4 (unat fs)"
  let ?m' = "write_u32 (write_u32 (fill (?i + 4) (bufData b1)) (?i + 4 + ?n) 0) ?i tag"
  obtain wi where wi: "unat wi = ?i + 4 + ?n"
    and pub: "BufferPublish SZ idx fs fill tag b1 = Some (b1\<lparr>bufWrite := wi, bufData := ?m'\<rparr>)"
    using publish_eq [of ?i idx fs SZ fill tag b1] i fs SZ by auto
  note seg = publish_seg [where szf = szf, OF fill tag, of ?i "bufData b1"]
  have "ring_inv (unat SZ) szf (b1\<lparr>bufWrite := wi, bufData := ?m'\<rparr>)
      (ps @ [(tag, read_bytes (fill (?i + 4) (bufData b1)) (?i + 4) (unat fs))])"
  proof (rule ring_appendI [OF inv, where i = ?i and m = "bufData b1"])
    show "unat (bufWrite (b1\<lparr>bufWrite := wi, bufData := ?m'\<rparr>)) mod 4 = 0"
      using i(1) wi align4_bounds(3) [of "unat fs"] by (simp, presburger)
    show "agree_outside ?i (unat (bufWrite (b1\<lparr>bufWrite := wi, bufData := ?m'\<rparr>)) + 4) (bufData b1)
        (bufData (b1\<lparr>bufWrite := wi, bufData := ?m'\<rparr>))"
      using seg(1) wi by (simp add: add_ac numeral_Bit0)
  qed (use seg(2,3) wi b1 i loc in auto)
  with pub b1 show ?thesis by auto
qed

theorem put_refines_append:
  assumes inv: "ring_inv (unat SZ) szf b ps" and SZ: "unat SZ < 2 ^ 31" and fs: "size_ok fs"
    and fill: "fits_between fill (align4 (unat fs))"
    and tag: "tag \<noteq> 0" "tag \<noteq> WIFI_SIZE_WRAP" "szf tag = unat fs"
  shows "BufferPut SZ fs fill tag b = Some (False, b) \<or>
    (\<exists>b' a m. BufferPut SZ fs fill tag b = Some (True, b') \<and> bufRead b' = bufRead b \<and>
      ring_inv (unat SZ) szf b' (ps @ [(tag, read_bytes (fill a m) a (unat fs))]))"
proof -
  let ?rd = "unat (bufRead b)" and ?wr = "unat (bufWrite b)" and ?n = "align4 (unat fs)"
  have tot: "unat (packet_total fs) = 8 + ?n" using fs by (rule unat_packet_total)
  moreover have "?n < 0x10000004"
    using fs align4_bounds(2) [of "unat fs"] by (simp add: size_ok_def)
  ultimately have T: "unat (packet_total fs) < 2 ^ 31" by simp
  have basic: "?wr mod 4 = 0" "?rd + 4 \<le> unat SZ"
    using inv by (auto simp: ring_inv_def Let_def)
  note at = put_at [OF inv SZ fs fill tag]
  note alloc = alloc_cases [OF inv SZ T, unfolded tot]
  consider (full) "BufferAllocBuffer SZ (packet_total fs) b = Some (None, b)"
    | (here) "BufferAllocBuffer SZ (packet_total fs) b = Some (Some (bufWrite b), b)"
        "?rd \<le> ?wr \<and> ?wr + 8 + ?n \<le> unat SZ \<or> ?wr + 8 + ?n \<le> ?rd"
    | (wrap) "BufferAllocBuffer SZ (packet_total fs) b = Some (Some 0, b\<lparr>bufData :=
          write_u32 (write_u32 (bufData b) 0 0) ?wr WIFI_SIZE_WRAP\<rparr>)"
        "?rd \<le> ?wr" "8 + ?n \<le> ?rd"
    using alloc by (auto split: if_splits)
  then show ?thesis
  proof cases
    case full
    then show ?thesis by (simp add: BufferPut_def)
  next
    case here
    then show ?thesis
      using at [of "bufWrite b" b] basic by (fastforce simp: BufferPut_def)
  next
    case wrap
    then show ?thesis
      using at [of 0 "b\<lparr>bufData := write_u32 (write_u32 (bufData b) 0 0) ?wr WIFI_SIZE_WRAP\<rparr>"] basic
      by (fastforce simp: BufferPut_def)
  qed
qed

text \<open>Acceptance: a put is refused exactly when the packet has no contiguous room.\<close>

definition has_room :: "nat \<Rightarrow> circbuf \<Rightarrow> nat \<Rightarrow> bool" where
  "has_room SZ b n \<longleftrightarrow>
     (let rd = unat (bufRead b); wr = unat (bufWrite b); t = 8 + align4 n in
      if rd \<le> wr then wr + t < SZ \<or> t < rd else wr + t < rd)"

lemma put_accepts_iff:
  assumes inv: "ring_inv (unat SZ) szf b ps" and SZ: "unat SZ < 2 ^ 31" and fs: "size_ok fs"
    and fill: "fits_between fill (align4 (unat fs))"
    and tag: "tag \<noteq> 0" "tag \<noteq> WIFI_SIZE_WRAP" "szf tag = unat fs"
  shows "(\<exists>b'. BufferPut SZ fs fill tag b = Some (True, b')) \<longleftrightarrow> has_room (unat SZ) b (unat fs)"
proof -
  have tot: "unat (packet_total fs) = 8 + align4 (unat fs)" using fs by (rule unat_packet_total)
  then have T: "unat (packet_total fs) < 2 ^ 31"
    using fs align4_bounds(2) [of "unat fs"] by (simp add: size_ok_def)
  have "(\<exists>b'. BufferPut SZ fs fill tag b = Some (True, b')) \<longleftrightarrow>
      BufferAllocBuffer SZ (packet_total fs) b \<noteq> Some (None, b)"
    using put_refines_append [OF assms] alloc_cases [OF inv SZ T]
    by (auto simp: BufferPut_def split: if_splits)
  then show ?thesis
    using alloc_cases [OF inv SZ T] by (auto simp: has_room_def Let_def tot split: if_splits)
qed

section \<open>Reading removes the first packet\<close>

text \<open>
  The position of the next packet as every reader computes it: the size word at the read index,
  or, at a wrap marker, the size word at the start of the buffer. \<open>None\<close> when the word found is
  the stop marker.
\<close>

definition BufferNext :: "circbuf \<Rightarrow> (u32 \<times> u32) option" where
  "BufferNext b =
     (let size = read_u32 (bufData b) (unat (bufRead b)) in
      if size = 0 then None
      else if size = WIFI_SIZE_WRAP then
        (let size = read_u32 (bufData b) 0 in if size = 0 then None else Some (0, size))
      else Some (bufRead b, size))"

text \<open>Consuming a packet: \<open>szf\<close> as above; the assertion of the readers is the range check.\<close>

definition BufferAdvance :: "u32 \<Rightarrow> u32 \<Rightarrow> u32 \<Rightarrow> circbuf \<Rightarrow> circbuf option" where
  "BufferAdvance bufsize idx sz b =
     (let read_idx = idx + 4 + round_up_32 sz in
      if read_idx \<le> bufsize - 4 then Some (b\<lparr>bufRead := read_idx\<rparr>) else None)"

lemma ring_next_Nil:
  assumes "ring_inv SZ szf b []"
  shows "BufferNext b = None"
  using assms by (auto simp: ring_inv_def BufferNext_def Let_def)

definition next_packet :: "nat \<Rightarrow> (u32 \<Rightarrow> nat) \<Rightarrow> circbuf \<Rightarrow> u32 \<Rightarrow> packet \<Rightarrow> packet list \<Rightarrow> bool" where
  "next_packet SZ szf b idx p ps \<longleftrightarrow>
     BufferNext b = Some (idx, fst p) \<and> unat idx mod 4 = 0 \<and> length (snd p) = szf (fst p) \<and>
     fst p \<noteq> 0 \<and> fst p \<noteq> WIFI_SIZE_WRAP \<and>
     read_bytes (bufData b) (unat idx + 4) (length (snd p)) = snd p \<and>
     unat idx + 8 + align4 (length (snd p)) \<le> SZ \<and>
     idx = (if read_u32 (bufData b) (unat (bufRead b)) = WIFI_SIZE_WRAP then 0 else bufRead b) \<and>
     (\<forall>b'. bufData b' = bufData b \<longrightarrow> bufWrite b' = bufWrite b \<longrightarrow>
        unat (bufRead b') = unat idx + 4 + align4 (length (snd p)) \<longrightarrow> ring_inv SZ szf b' ps)"

lemma ring_next_Cons:
  assumes inv: "ring_inv SZ szf b ((tag, bs) # ps)"
  shows "\<exists>idx. next_packet SZ szf b idx (tag, bs) ps"
proof -
  let ?rd = "unat (bufRead b)" and ?wr = "unat (bufWrite b)" and ?m = "bufData b"
  have basic: "?rd mod 4 = 0" "?wr mod 4 = 0" "?wr + 4 \<le> SZ" "read_u32 ?m ?wr = 0"
    using inv by (auto simp: ring_inv_def Let_def)
  let ?n = "align4 (length bs)"
  have n4: "(i + 4 + ?n) mod 4 = 0" if "i mod 4 = 0" for i
    using that align4_bounds(3) [of "length bs"] by presburger
  from inv consider
      (flat) "?rd \<le> ?wr" "seg szf ?m ?rd ((tag, bs) # ps) ?wr"
    | (tail) k ps1 ps2 where "?wr < ?rd" "ps = ps1 @ ps2"
        "seg szf ?m ?rd ((tag, bs) # ps1) k" "k + 4 \<le> SZ"
        "read_u32 ?m k = WIFI_SIZE_WRAP" "seg szf ?m 0 ps2 ?wr"
    | (front) "?wr < ?rd" "read_u32 ?m ?rd = WIFI_SIZE_WRAP" "seg szf ?m 0 ((tag, bs) # ps) ?wr"
    by (auto simp: ring_inv_def Let_def Cons_eq_append_conv)
  then show ?thesis
  proof cases
    case flat
    then have le: "?rd + 4 + ?n \<le> ?wr" by (auto dest: seg_le)
    have "next_packet SZ szf b (bufRead b) (tag, bs) ps"
      using flat basic le n4 by (auto simp: next_packet_def BufferNext_def ring_inv_def Let_def)
    then show ?thesis ..
  next
    case tail
    then have le: "?rd + 4 + ?n \<le> k" by (auto dest: seg_le)
    have "ring_inv SZ szf b' ps"
      if "bufData b' = ?m" "bufWrite b' = bufWrite b" "unat (bufRead b') = ?rd + 4 + ?n" for b'
      using that tail basic le n4 unfolding ring_inv_def Let_def
      by (intro conjI disjI2 exI [of _ k] exI [of _ ps1] exI [of _ ps2]) auto
    then have "next_packet SZ szf b (bufRead b) (tag, bs) ps"
      using tail basic le by (auto simp: next_packet_def BufferNext_def Let_def)
    then show ?thesis ..
  next
    case front
    then have le: "4 + ?n \<le> ?wr" by (auto dest: seg_le)
    have "next_packet SZ szf b 0 (tag, bs) ps"
      using front basic le n4 [of 0] by (auto simp: next_packet_def BufferNext_def ring_inv_def Let_def)
    then show ?thesis ..
  qed
qed

lemma ring_rewind:
  assumes "ring_inv SZ szf b ps" "read_u32 (bufData b) (unat (bufRead b)) = WIFI_SIZE_WRAP"
  shows "ring_inv SZ szf (b\<lparr>bufRead := 0\<rparr>) ps"
proof -
  have "seg szf (bufData b) (unat (bufRead b)) qs k \<Longrightarrow> qs = [] \<and> k = unat (bufRead b)" for qs k
    using assms(2) by (cases qs) auto
  then show ?thesis
    using assms by (fastforce simp: ring_inv_def Let_def)
qed

lemma advance_ok:
  assumes "unat idx mod 4 = 0" "unat idx + 8 + align4 (unat sz) \<le> unat SZ" "unat SZ < 2 ^ 31"
  shows "\<exists>ri. BufferAdvance SZ idx sz b = Some (b\<lparr>bufRead := ri\<rparr>) \<and>
    unat ri = unat idx + 4 + align4 (unat sz)"
proof -
  have le: "unat sz \<le> align4 (unat sz)" by (rule align4_bounds)
  have r: "unat (round_up_32 sz) = align4 (unat sz)"
    using assms le by (intro unat_round_up_32) simp
  have "unat (idx + 4 + round_up_32 sz) = unat idx + 4 + align4 (unat sz)"
    using assms r by (simp add: unat_word_ariths)
  moreover have "unat (SZ - 4) = unat SZ - 4"
    using assms by (simp add: unat_sub word_le_nat_alt)
  ultimately show ?thesis
    using assms by (intro exI [of _ "idx + 4 + round_up_32 sz"])
      (auto simp: BufferAdvance_def Let_def word_le_nat_alt)
qed

definition BufferGet :: "(u32 \<Rightarrow> u32) \<Rightarrow> u32 \<Rightarrow> circbuf \<Rightarrow> (packet \<times> circbuf) option option" where
  "BufferGet sizef bufsize b =
     (case BufferNext b of
        None \<Rightarrow> Some None
      | Some (idx, tag) \<Rightarrow>
          map_option (\<lambda>b'. Some ((tag, read_bytes (bufData b) (unat (idx + 4)) (unat (sizef tag))), b'))
            (BufferAdvance bufsize idx (sizef tag) b))"

theorem get_refines_tl:
  assumes inv: "ring_inv (unat SZ) (\<lambda>t. unat (sizef t)) b ps" and SZ: "unat SZ < 2 ^ 31"
  shows "case ps of
      [] \<Rightarrow> BufferGet sizef SZ b = Some None
    | p # ps' \<Rightarrow> \<exists>b'. BufferGet sizef SZ b = Some (Some (p, b')) \<and>
        ring_inv (unat SZ) (\<lambda>t. unat (sizef t)) b' ps' \<and> bufWrite b' = bufWrite b"
proof (cases ps)
  case Nil
  then show ?thesis using inv by (simp add: BufferGet_def ring_next_Nil)
next
  case (Cons p ps')
  obtain tag bs where p: "p = (tag, bs)" by (cases p)
  obtain idx where "next_packet (unat SZ) (\<lambda>t. unat (sizef t)) b idx (tag, bs) ps'"
    using ring_next_Cons [OF inv [unfolded Cons p]] ..
  then have idx: "BufferNext b = Some (idx, tag)" "unat idx mod 4 = 0"
      "length bs = unat (sizef tag)" "read_bytes (bufData b) (unat idx + 4) (length bs) = bs"
      "unat idx + 8 + align4 (length bs) \<le> unat SZ"
    and pop: "\<And>b'. bufData b' = bufData b \<Longrightarrow> bufWrite b' = bufWrite b \<Longrightarrow>
        unat (bufRead b') = unat idx + 4 + align4 (length bs) \<Longrightarrow>
        ring_inv (unat SZ) (\<lambda>t. unat (sizef t)) b' ps'"
    unfolding next_packet_def fst_conv snd_conv by blast+
  obtain ri where ri: "BufferAdvance SZ idx (sizef tag) b = Some (b\<lparr>bufRead := ri\<rparr>)"
      "unat ri = unat idx + 4 + align4 (length bs)"
    using advance_ok [of idx "sizef tag" SZ b] idx SZ by auto
  have "unat (idx + 4) = unat idx + 4" using idx(5) SZ by (simp add: unat_word_ariths)
  with idx ri pop [of "b\<lparr>bufRead := ri\<rparr>"] Cons p show ?thesis
    by (simp add: BufferGet_def)
qed

text \<open>
  A reader may scribble over the packet it is consuming (the ARM9 builds an Ethernet header
  there): bytes that neither a pending packet nor a marker uses do not matter.
\<close>

lemma ring_scribble:
  assumes inv: "ring_inv SZ szf b ps" and agree: "agree_outside lo hi (bufData b) m'"
    and hi: "hi \<le> unat (bufRead b)"
    and lo: "unat (bufRead b) \<le> unat (bufWrite b) \<or> unat (bufWrite b) + 4 \<le> lo"
  shows "ring_inv SZ szf (b\<lparr>bufData := m'\<rparr>) ps"
proof -
  let ?rd = "unat (bufRead b)" and ?wr = "unat (bufWrite b)" and ?m = "bufData b"
  have stop: "read_u32 m' ?wr = read_u32 ?m ?wr"
    using hi lo by (intro read_u32_agree [OF agree]) auto
  have front: "seg szf ?m 0 qs ?wr \<Longrightarrow> ?wr < ?rd \<Longrightarrow> seg szf m' 0 qs ?wr" for qs
    using seg_agree [OF agree, of ?wr 0] lo by auto
  have tail: "seg szf ?m ?rd qs k \<Longrightarrow> seg szf m' ?rd qs k" for qs k
    using seg_agree [OF agree, of k ?rd] hi by auto
  have wrap: "read_u32 m' k = read_u32 ?m k" if "?rd \<le> k" for k
    using that hi by (intro read_u32_agree [OF agree]) auto
  from inv consider (flat) "?rd \<le> ?wr" "seg szf ?m ?rd ps ?wr"
    | (split) k ps1 ps2 where "?wr < ?rd" "ps = ps1 @ ps2" "seg szf ?m ?rd ps1 k" "k + 4 \<le> SZ"
        "read_u32 ?m k = WIFI_SIZE_WRAP" "seg szf ?m 0 ps2 ?wr"
    by (auto simp: ring_inv_def Let_def)
  then show ?thesis
  proof cases
    case flat
    then show ?thesis using inv stop tail by (simp add: ring_inv_def Let_def)
  next
    case split
    have "?rd \<le> k" using split(3) by (rule seg_le)
    then have "read_u32 m' k = WIFI_SIZE_WRAP" using wrap [of k] split(5) by simp
    then have "\<exists>k ps1 ps2. ps = ps1 @ ps2 \<and> seg szf m' ?rd ps1 k \<and> k + 4 \<le> SZ \<and>
        read_u32 m' k = WIFI_SIZE_WRAP \<and> seg szf m' 0 ps2 ?wr"
      using split(2,4) tail [OF split(3)] front [OF split(6,1)] by blast
    moreover have "?rd mod 4 = 0" "?wr mod 4 = 0" "?rd + 4 \<le> SZ" "?wr + 4 \<le> SZ" "read_u32 ?m ?wr = 0"
      using inv by (simp_all add: ring_inv_def Let_def)
    ultimately show ?thesis
      unfolding ring_inv_def Let_def using split(1) stop by simp
  qed
qed

lemma get_scribble:
  assumes inv: "ring_inv (unat SZ) (\<lambda>t. unat (sizef t)) b ((tag, bs) # ps)" and SZ: "unat SZ < 2 ^ 31"
  shows "\<exists>idx. BufferNext b = Some (idx, tag) \<and> length bs = unat (sizef tag) \<and>
    unat idx + 8 + align4 (length bs) \<le> unat SZ \<and>
    read_bytes (bufData b) (unat idx + 4) (length bs) = bs \<and> unat (idx + 4) = unat idx + 4 \<and>
    (\<forall>m'. agree_outside (unat idx + 4) (unat idx + 4 + align4 (length bs)) (bufData b) m' \<longrightarrow>
      (\<exists>ri. BufferAdvance SZ idx (sizef tag) (b\<lparr>bufData := m'\<rparr>) = Some (b\<lparr>bufData := m', bufRead := ri\<rparr>) \<and>
        ring_inv (unat SZ) (\<lambda>t. unat (sizef t)) (b\<lparr>bufData := m', bufRead := ri\<rparr>) ps))"
proof -
  let ?szf = "\<lambda>t. unat (sizef t)"
  obtain idx where next_p: "next_packet (unat SZ) ?szf b idx (tag, bs) ps"
    using ring_next_Cons [OF inv] ..
  then have idx: "BufferNext b = Some (idx, tag)" "unat idx mod 4 = 0" "length bs = unat (sizef tag)"
      "read_bytes (bufData b) (unat idx + 4) (length bs) = bs"
      "unat idx + 8 + align4 (length bs) \<le> unat SZ"
      "idx = (if read_u32 (bufData b) (unat (bufRead b)) = WIFI_SIZE_WRAP then 0 else bufRead b)"
    and pop: "\<And>b'. bufData b' = bufData b \<Longrightarrow> bufWrite b' = bufWrite b \<Longrightarrow>
        unat (bufRead b') = unat idx + 4 + align4 (length bs) \<Longrightarrow> ring_inv (unat SZ) ?szf b' ps"
    unfolding next_packet_def fst_conv snd_conv by blast+
  have at_idx: "ring_inv (unat SZ) ?szf (b\<lparr>bufRead := idx\<rparr>) ((tag, bs) # ps)"
  proof (cases "read_u32 (bufData b) (unat (bufRead b)) = WIFI_SIZE_WRAP")
    case True
    then have "idx = 0" using idx(6) by simp
    with ring_rewind [OF inv True] show ?thesis by (simp only:)
  next
    case False
    then have "b\<lparr>bufRead := idx\<rparr> = b" using idx(6) by simp
    with inv show ?thesis by (simp only:)
  qed
  let ?r' = "unat idx + 4 + align4 (length bs)" and ?wr = "unat (bufWrite b)"
  have lo: "?r' \<le> ?wr \<or> ?wr + 4 \<le> unat idx + 4"
  proof (cases "unat idx \<le> ?wr")
    case True
    then have "seg ?szf (bufData b) (unat idx) ((tag, bs) # ps) ?wr"
      using at_idx by (simp add: ring_inv_def Let_def del: seg.simps)
    then have "seg ?szf (bufData b) ?r' ps ?wr" unfolding seg.simps by blast
    then show ?thesis by (auto dest: seg_le)
  qed auto
  have "\<exists>ri. BufferAdvance SZ idx (sizef tag) (b\<lparr>bufData := m'\<rparr>) = Some (b\<lparr>bufData := m', bufRead := ri\<rparr>) \<and>
        ring_inv (unat SZ) ?szf (b\<lparr>bufData := m', bufRead := ri\<rparr>) ps"
    if "agree_outside (unat idx + 4) ?r' (bufData b) m'" for m'
  proof -
    obtain ri where ri: "BufferAdvance SZ idx (sizef tag) (b\<lparr>bufData := m'\<rparr>) = Some (b\<lparr>bufData := m', bufRead := ri\<rparr>)"
        "unat ri = ?r'"
      using advance_ok [of idx "sizef tag" SZ "b\<lparr>bufData := m'\<rparr>"] idx(2,3,5) SZ by auto
    have "ring_inv (unat SZ) ?szf (b\<lparr>bufRead := ri\<rparr>) ps" using pop [of "b\<lparr>bufRead := ri\<rparr>"] ri(2) by simp
    then have "ring_inv (unat SZ) ?szf (b\<lparr>bufRead := ri, bufData := m'\<rparr>) ps"
      using that lo ri(2) by (intro ring_scribble [of _ _ _ _ "unat idx + 4" ?r']) auto
    moreover have "b\<lparr>bufRead := ri, bufData := m'\<rparr> = b\<lparr>bufData := m', bufRead := ri\<rparr>" by simp
    ultimately show ?thesis using ri(1) by metis
  qed
  moreover have "unat (idx + 4) = unat idx + 4" using idx(5) SZ by (simp add: unat_word_ariths)
  ultimately show ?thesis using idx by blast
qed

section \<open>The interface: a FIFO of packets\<close>

datatype 'r qop = Put 'r | Get

text \<open>A run of writes and reads: the accepted requests and the delivered packets, in order.\<close>

fun fifo_run ::
  "('r \<Rightarrow> 'q \<Rightarrow> (bool \<times> 'q) option) \<Rightarrow> ('q \<Rightarrow> ('p \<times> 'q) option option) \<Rightarrow> 'r qop list \<Rightarrow> 'q
    \<Rightarrow> ('r list \<times> 'p list \<times> 'q) option" where
  "fifo_run put get [] q = Some ([], [], q)"
| "fifo_run put get (Put r # ops) q =
     (case put r q of
        None \<Rightarrow> None
      | Some (accepted, q1) \<Rightarrow>
          map_option (\<lambda>(rs, ds, q2). (if accepted then r # rs else rs, ds, q2)) (fifo_run put get ops q1))"
| "fifo_run put get (Get # ops) q =
     (case get q of
        None \<Rightarrow> None
      | Some None \<Rightarrow> fifo_run put get ops q
      | Some (Some (p, q1)) \<Rightarrow>
          map_option (\<lambda>(rs, ds, q2). (rs, p # ds, q2)) (fifo_run put get ops q1))"

locale packet_fifo =
  fixes invar :: "'q \<Rightarrow> 'p list \<Rightarrow> bool"
    and put :: "'r \<Rightarrow> 'q \<Rightarrow> (bool \<times> 'q) option"
    and get :: "'q \<Rightarrow> ('p \<times> 'q) option option"
    and ok :: "'r \<Rightarrow> bool"
    and carries :: "'r \<Rightarrow> 'p \<Rightarrow> bool"
  assumes put_law: "invar q ps \<Longrightarrow> ok r \<Longrightarrow>
      put r q = Some (False, q) \<or> (\<exists>q' p. put r q = Some (True, q') \<and> carries r p \<and> invar q' (ps @ [p]))"
    and get_nil: "invar q [] \<Longrightarrow> get q = Some None"
    and get_cons: "invar q (p # ps) \<Longrightarrow> \<exists>q'. get q = Some (Some (p, q')) \<and> invar q' ps"
begin

lemma run_fifo:
  assumes "invar q ps" "list_all2 carries rs0 ps" "\<forall>r. Put r \<in> set ops \<longrightarrow> ok r"
  shows "\<exists>rs ds q' ps'. fifo_run put get ops q = Some (rs, ds, q') \<and> invar q' ps' \<and>
    list_all2 carries (rs0 @ rs) (ds @ ps')"
  using assms
proof (induction ops arbitrary: q ps rs0)
  case Nil
  then show ?case by fastforce
next
  case (Cons op ops)
  have ok': "\<forall>r. Put r \<in> set ops \<longrightarrow> ok r" using Cons.prems(3) by simp
  show ?case
  proof (cases op)
    case (Put r)
    then have "ok r" using Cons.prems(3) by simp
    with put_law [OF Cons.prems(1)] consider
        (full) "put r q = Some (False, q)"
      | (added) q' p where "put r q = Some (True, q')" "carries r p" "invar q' (ps @ [p])"
      by blast
    then show ?thesis
    proof cases
      case full
      then show ?thesis using Cons.IH [OF Cons.prems(1,2) ok'] Put by auto
    next
      case added
      have "list_all2 carries (rs0 @ [r]) (ps @ [p])"
        using Cons.prems(2) added(2) by (simp add: list_all2_appendI)
      from Cons.IH [OF added(3) this ok'] show ?thesis
        using added(1) Put by fastforce
    qed
  next
    case Get
    show ?thesis
    proof (cases ps)
      case Nil
      then show ?thesis
        using Cons.IH [OF Cons.prems(1,2) ok'] Get get_nil Cons.prems(1) by simp
    next
      case (Cons p ps')
      then obtain q' where q': "get q = Some (Some (p, q'))" "invar q' ps'"
        using get_cons \<open>invar q ps\<close> by blast
      obtain r rs' where rs0: "rs0 = r # rs'" "carries r p" "list_all2 carries rs' ps'"
        using \<open>list_all2 carries rs0 ps\<close> Cons by (auto simp: list_all2_Cons2)
      from Cons.IH [OF q'(2) rs0(3) ok'] show ?thesis
        using q'(1) Get rs0 by fastforce
    qed
  qed
qed

text \<open>Nothing is lost, duplicated or reordered: the deliveries answer a prefix of the accepted requests.\<close>

lemma run_prefix:
  assumes "invar q []" "\<forall>r. Put r \<in> set ops \<longrightarrow> ok r"
  shows "\<exists>rs ds q'. fifo_run put get ops q = Some (rs, ds, q') \<and>
    length ds \<le> length rs \<and> list_all2 carries (take (length ds) rs) ds"
proof -
  obtain rs ds q' ps' where run: "fifo_run put get ops q = Some (rs, ds, q')"
    and all: "list_all2 carries rs (ds @ ps')"
    using run_fifo [OF assms(1) _ assms(2), of "[]"] by auto
  from all have "length rs = length ds + length ps'"
    by (auto dest: list_all2_lengthD)
  moreover have "list_all2 carries (take (length ds) rs) ds"
    using list_all2_takeI [OF all, of "length ds"] by simp
  ultimately show ?thesis using run by auto
qed

end

section \<open>The two buffers of the library implement the interface\<close>

type_synonym put_request = "u32 \<times> (nat \<Rightarrow> mem8 \<Rightarrow> mem8) \<times> u32"

definition tx_size :: "u32 \<Rightarrow> u32" where
  "tx_size tag = tag AND WFLAG_SEND_SIZE_MASK"

definition tx_inv :: "circbuf \<Rightarrow> packet list \<Rightarrow> bool" where
  "tx_inv = ring_inv 24576 (\<lambda>t. unat (tx_size t))"

definition rx_inv :: "circbuf \<Rightarrow> packet list \<Rightarrow> bool" where
  "rx_inv = ring_inv 12288 unat"

definition send_flag :: "u32 \<Rightarrow> bool" where
  "send_flag f \<longleftrightarrow> f \<in> {WFLAG_SEND_AS_DATA, WFLAG_SEND_AS_BEACON, WFLAG_SEND_AS_REPLY, WFLAG_SEND_AS_CMD}"

fun put_ok :: "put_request \<Rightarrow> bool" where
  "put_ok (fs, fill, _) \<longleftrightarrow> size_ok fs \<and> fits_between fill (align4 (unat fs))"

fun tx_put :: "put_request \<Rightarrow> circbuf \<Rightarrow> (bool \<times> circbuf) option" where
  "tx_put (fs, fill, flag) b = BufferPut WIFI_TXBUFFER_SIZE fs fill (fs OR flag) b"

fun rx_put :: "put_request \<Rightarrow> circbuf \<Rightarrow> (bool \<times> circbuf) option" where
  "rx_put (fs, fill, _) b = BufferPut WIFI_RXBUFFER_SIZE fs fill fs b"

fun tx_carries :: "put_request \<Rightarrow> packet \<Rightarrow> bool" where
  "tx_carries (fs, fill, flag) (tag, bs) \<longleftrightarrow>
     tag = fs OR flag \<and> (\<exists>a m. bs = read_bytes (fill a m) a (unat fs))"

fun rx_carries :: "put_request \<Rightarrow> packet \<Rightarrow> bool" where
  "rx_carries (fs, fill, _) (tag, bs) \<longleftrightarrow> tag = fs \<and> (\<exists>a m. bs = read_bytes (fill a m) a (unat fs))"

lemma send_size_mask: "WFLAG_SEND_SIZE_MASK = mask 28"
  by (simp add: mask_numeral)

lemma tx_size_tag: "size_ok fs \<Longrightarrow> send_flag flag \<Longrightarrow> tx_size (fs OR flag) = fs"
proof -
  assume ok: "size_ok fs" and flag: "send_flag flag"
  have "take_bit 28 flag = 0" using flag by (auto simp: send_flag_def)
  moreover have "take_bit 28 fs = fs"
  proof -
    have "unat (take_bit 28 fs) = take_bit 28 (unat fs)" by (simp only: unsigned_take_bit_eq)
    also have "\<dots> = unat fs" using ok by (simp add: size_ok_def take_bit_nat_eq_self_iff)
    finally show ?thesis by (simp only: word_unat_eq_iff)
  qed
  ultimately show ?thesis
    unfolding tx_size_def send_size_mask by (simp only: flip: take_bit_eq_mask) simp
qed

lemma tx_tag_valid:
  assumes "size_ok fs" "send_flag flag"
  shows "fs OR flag \<noteq> 0" "fs OR flag \<noteq> WIFI_SIZE_WRAP"
proof -
  have "flag \<noteq> 0" using assms(2) by (auto simp: send_flag_def)
  then show "fs OR flag \<noteq> 0" by (simp only: or_eq_0_iff) simp
  show "fs OR flag \<noteq> WIFI_SIZE_WRAP"
  proof
    assume "fs OR flag = WIFI_SIZE_WRAP"
    then have "fs = tx_size WIFI_SIZE_WRAP" using tx_size_tag [OF assms] by simp
    then show False using assms(1) by (simp add: tx_size_def size_ok_def)
  qed
qed

lemma empty_circbuf_inv: "ring_inv SZ szf \<lparr>bufWrite = 0, bufRead = 0, bufData = \<lambda>_. 0\<rparr> []" if "4 \<le> SZ"
  using that by (simp add: ring_inv_def read_u32_def)

interpretation txq: packet_fifo tx_inv tx_put "BufferGet tx_size WIFI_TXBUFFER_SIZE"
    "\<lambda>r. put_ok r \<and> send_flag (snd (snd r))" tx_carries
proof
  fix q ps r
  assume inv: "tx_inv q ps" and ok: "put_ok r \<and> send_flag (snd (snd r))"
  obtain fs fill flag where r: "r = (fs, fill, flag)" by (cases r) auto
  have fs: "size_ok fs" "fits_between fill (align4 (unat fs))" "send_flag flag" using ok r by auto
  show "tx_put r q = Some (False, q) \<or>
      (\<exists>q' p. tx_put r q = Some (True, q') \<and> tx_carries r p \<and> tx_inv q' (ps @ [p]))"
    using put_refines_append [of WIFI_TXBUFFER_SIZE "\<lambda>t. unat (tx_size t)" q ps fs fill "fs OR flag"]
      inv fs tx_tag_valid [OF fs(1,3)] tx_size_tag [OF fs(1,3)]
    by (fastforce simp: r tx_inv_def)
next
  fix q assume "tx_inv q []"
  then show "BufferGet tx_size WIFI_TXBUFFER_SIZE q = Some None"
    using get_refines_tl [of WIFI_TXBUFFER_SIZE tx_size q "[]"] by (simp add: tx_inv_def)
next
  fix q p ps assume "tx_inv q (p # ps)"
  then show "\<exists>q'. BufferGet tx_size WIFI_TXBUFFER_SIZE q = Some (Some (p, q')) \<and> tx_inv q' ps"
    using get_refines_tl [of WIFI_TXBUFFER_SIZE tx_size q "p # ps"] by (auto simp: tx_inv_def)
qed

interpretation rxq: packet_fifo rx_inv rx_put "BufferGet (\<lambda>t. t) WIFI_RXBUFFER_SIZE"
    "\<lambda>r. put_ok r \<and> fst r \<noteq> 0" rx_carries
proof
  fix q ps r
  assume inv: "rx_inv q ps" and ok: "put_ok r \<and> fst r \<noteq> 0"
  obtain fs fill flag where r: "r = (fs, fill, flag)" by (cases r) auto
  have fs: "size_ok fs" "fits_between fill (align4 (unat fs))" "fs \<noteq> 0" using ok r by auto
  have "fs \<noteq> WIFI_SIZE_WRAP" using fs(1) by (auto simp: size_ok_def)
  then show "rx_put r q = Some (False, q) \<or>
      (\<exists>q' p. rx_put r q = Some (True, q') \<and> rx_carries r p \<and> rx_inv q' (ps @ [p]))"
    using put_refines_append [of WIFI_RXBUFFER_SIZE unat q ps fs fill fs] inv fs
    by (fastforce simp: r rx_inv_def)
next
  fix q assume "rx_inv q []"
  then show "BufferGet (\<lambda>t. t) WIFI_RXBUFFER_SIZE q = Some None"
    using get_refines_tl [of WIFI_RXBUFFER_SIZE "\<lambda>t. t" q "[]"] by (simp add: rx_inv_def)
next
  fix q p ps assume "rx_inv q (p # ps)"
  then show "\<exists>q'. BufferGet (\<lambda>t. t) WIFI_RXBUFFER_SIZE q = Some (Some (p, q')) \<and> rx_inv q' ps"
    using get_refines_tl [of WIFI_RXBUFFER_SIZE "\<lambda>t. t" q "p # ps"] by (auto simp: rx_inv_def)
qed

section \<open>Properties\<close>

text \<open>C1: the TX buffer is a FIFO. Starting from an empty buffer, any sequence of writes of frames and
  reads runs without a failed assertion, and the packets read are the accepted frames, each
  with its size and flag and its bytes, in the order of their acceptance and none twice.\<close>

theorem tx_buffer_fifo:
  assumes "tx_inv b []" "\<forall>r. Put r \<in> set ops \<longrightarrow> put_ok r \<and> send_flag (snd (snd r))"
  shows "\<exists>rs ds b'. fifo_run tx_put (BufferGet tx_size WIFI_TXBUFFER_SIZE) ops b = Some (rs, ds, b') \<and>
    length ds \<le> length rs \<and> list_all2 tx_carries (take (length ds) rs) ds"
  using assms by (rule txq.run_prefix)

theorem tx_buffer_fifo_witness:
  "\<exists>rs ds b'. fifo_run tx_put (BufferGet tx_size WIFI_TXBUFFER_SIZE)
      [Put (5, \<lambda>a m. write_bytes m a [1, 2, 3, 4, 5], WFLAG_SEND_AS_DATA), Get, Get]
      \<lparr>bufWrite = 0, bufRead = 0, bufData = \<lambda>_. 0\<rparr> = Some (rs, ds, b') \<and> length ds \<le> length rs"
proof -
  have "tx_inv \<lparr>bufWrite = 0, bufRead = 0, bufData = \<lambda>_. 0\<rparr> []"
    using empty_circbuf_inv by (simp add: tx_inv_def)
  moreover have "fits_between (\<lambda>a m. write_bytes m a [1, 2, 3, 4, 5]) (align4 5)"
    by (auto simp: fits_between_def align4_def intro!: agree_outside_write_bytes)
  ultimately show ?thesis
    using tx_buffer_fifo [of "\<lparr>bufWrite = 0, bufRead = 0, bufData = \<lambda>_. 0\<rparr>"
      "[Put (5, \<lambda>a m. write_bytes m a [1, 2, 3, 4, 5], WFLAG_SEND_AS_DATA), Get, Get]"]
    by (auto simp: size_ok_def send_flag_def)
qed

text \<open>C2: the RX buffer is a FIFO in the same sense: packets the ARM7 stored come out on the ARM9 in
  order, complete and once.\<close>

theorem rx_buffer_fifo:
  assumes "rx_inv b []" "\<forall>r. Put r \<in> set ops \<longrightarrow> put_ok r \<and> fst r \<noteq> 0"
  shows "\<exists>rs ds b'. fifo_run rx_put (BufferGet (\<lambda>t. t) WIFI_RXBUFFER_SIZE) ops b = Some (rs, ds, b') \<and>
    length ds \<le> length rs \<and> list_all2 rx_carries (take (length ds) rs) ds"
  using assms by (rule rxq.run_prefix)

theorem rx_buffer_fifo_witness:
  "\<exists>rs ds b'. fifo_run rx_put (BufferGet (\<lambda>t. t) WIFI_RXBUFFER_SIZE)
      [Put (5, \<lambda>a m. write_bytes m a [1, 2, 3, 4, 5], 0), Get, Get]
      \<lparr>bufWrite = 0, bufRead = 0, bufData = \<lambda>_. 0\<rparr> = Some (rs, ds, b') \<and> length ds \<le> length rs"
proof -
  have "rx_inv \<lparr>bufWrite = 0, bufRead = 0, bufData = \<lambda>_. 0\<rparr> []"
    using empty_circbuf_inv by (simp add: rx_inv_def)
  moreover have "fits_between (\<lambda>a m. write_bytes m a [1, 2, 3, 4, 5]) (align4 5)"
    by (auto simp: fits_between_def align4_def intro!: agree_outside_write_bytes)
  ultimately show ?thesis
    using rx_buffer_fifo [of "\<lparr>bufWrite = 0, bufRead = 0, bufData = \<lambda>_. 0\<rparr>"
      "[Put (5, \<lambda>a m. write_bytes m a [1, 2, 3, 4, 5], 0), Get, Get]"]
    by (auto simp: size_ok_def)
qed

text \<open>a frame is refused exactly when there is no room: from the write index to the end of the
  buffer, or from its start to the read index, or between the two when the queue has wrapped.\<close>

theorem tx_refused_iff_full:
  assumes "tx_inv b ps" "size_ok fs" "fits_between fill (align4 (unat fs))" "send_flag flag"
  shows "tx_put (fs, fill, flag) b = Some (False, b) \<longleftrightarrow> \<not> has_room 24576 b (unat fs)"
proof -
  note tag = tx_tag_valid [OF assms(2,4)] tx_size_tag [OF assms(2,4)]
  have "(\<exists>b'. tx_put (fs, fill, flag) b = Some (True, b')) \<longleftrightarrow> has_room 24576 b (unat fs)"
    using put_accepts_iff [of WIFI_TXBUFFER_SIZE "\<lambda>t. unat (tx_size t)" b ps fs fill "fs OR flag"] assms tag
    by (simp add: tx_inv_def)
  moreover have "tx_put (fs, fill, flag) b = Some (False, b) \<or> (\<exists>b'. tx_put (fs, fill, flag) b = Some (True, b'))"
    using txq.put_law [OF assms(1), of "(fs, fill, flag)"] assms by auto
  ultimately show ?thesis by auto
qed

theorem tx_refused_iff_full_witness:
  "tx_put (24580, \<lambda>a m. m, WFLAG_SEND_AS_DATA) \<lparr>bufWrite = 0, bufRead = 0, bufData = \<lambda>_. 0\<rparr> =
   Some (False, \<lparr>bufWrite = 0, bufRead = 0, bufData = \<lambda>_. 0\<rparr>)"
proof -
  have "tx_inv \<lparr>bufWrite = 0, bufRead = 0, bufData = \<lambda>_. 0\<rparr> []"
    using empty_circbuf_inv by (simp add: tx_inv_def)
  from tx_refused_iff_full [OF this, of 24580 "\<lambda>a m. m" WFLAG_SEND_AS_DATA] show ?thesis
    by (simp add: size_ok_def fits_between_def send_flag_def has_room_def align4_def)
qed

end
