(* ===== verification/Wifi_Rng.thy ===== *)
theory Wifi_Rng
  imports Wifi_Shared
begin

text \<open>
  The random number generator of \<^verbatim>\<open>common/random.c\<close>: a hardware seed that collects
  entropy and one xorshift state per processor. The theory shows that neither state can become
  zero (the one state from which a xorshift generator never leaves) and that a step is a
  permutation of the states, so that no two seeds are merged. The C expression shifts right by
  \<open>32 - shift\<close>, which is 32 when \<open>shift\<close> is zero; on the ARM a register shift by
  32 gives zero, as does \<open>drop_bit 32\<close>.
\<close>

definition entropy_mix :: "u32 \<Rightarrow> u32 \<Rightarrow> u32" where
  "entropy_mix seed value =
     (let shift = unat ((seed + value) AND 31)
      in seed XOR (push_bit shift value OR drop_bit (32 - shift) value))"

definition entropy_xor :: "u32 \<Rightarrow> u32 \<Rightarrow> u32" where
  "entropy_xor seed r = (let r' = r XOR seed in if r' = 0 then r' - 1 else r')"

definition Wifi_RandomAddEntropy :: "u32 \<Rightarrow> Wifi_MainStruct \<Rightarrow> Wifi_MainStruct" where
  "Wifi_RandomAddEntropy value w =
     (let seed = entropy_mix (hardware_rng_seed w) value
      in w\<lparr>hardware_rng_seed := seed, random7 := entropy_xor seed (random7 w),
           random9 := entropy_xor seed (random9 w)\<rparr>)"

definition xorshift32 :: "u32 \<Rightarrow> u32" where
  "xorshift32 x =
     (let x1 = x XOR push_bit 13 x; x2 = x1 XOR drop_bit 17 x1 in x2 XOR push_bit 5 x2)"

definition Wifi_Random7 :: "Wifi_MainStruct \<Rightarrow> u32 \<times> Wifi_MainStruct" where
  "Wifi_Random7 w = (let x = xorshift32 (random7 w) in (x, w\<lparr>random7 := x\<rparr>))"

definition Wifi_Random9 :: "Wifi_MainStruct \<Rightarrow> u32 \<times> Wifi_MainStruct" where
  "Wifi_Random9 w = (let x = xorshift32 (random9 w) in (x, w\<lparr>random9 := x\<rparr>))"

definition rng_ok :: "Wifi_MainStruct \<Rightarrow> bool" where
  "rng_ok w \<longleftrightarrow> random7 w \<noteq> 0 \<and> random9 w \<noteq> 0"

section \<open>The xorshift step\<close>

lemma xor_eq_swap: "(a XOR b = c XOR d) \<longleftrightarrow> (a XOR c = b XOR d)" for a b c d :: "'a::len word"
  by (auto simp: bit_eq_iff bit_xor_iff)

lemma xor_eq_0: "x XOR y = 0 \<longleftrightarrow> x = y" for x y :: "'a::len word"
  by (auto simp: bit_eq_iff bit_xor_iff)

lemma inj_xor_push: "0 < n \<Longrightarrow> inj (\<lambda>x :: 'a::len word. x XOR push_bit n x)"
proof (rule injI)
  fix x y :: "'a word"
  assume n: "0 < n" and "x XOR push_bit n x = y XOR push_bit n y"
  then have "push_bit n (x XOR y) = x XOR y" by (metis push_bit_xor xor_eq_swap)
  then have "x XOR y = 0" using n by (rule push_bit_fixed_point)
  then show "x = y" by (simp only: xor_eq_0)
qed

lemma inj_xor_drop: "0 < n \<Longrightarrow> inj (\<lambda>x :: 'a::len word. x XOR drop_bit n x)"
proof (rule injI)
  fix x y :: "'a word"
  assume n: "0 < n" and "x XOR drop_bit n x = y XOR drop_bit n y"
  then have "drop_bit n (x XOR y) = x XOR y" by (metis drop_bit_xor xor_eq_swap)
  then have "x XOR y = 0" using n by (rule drop_bit_fixed_point)
  then show "x = y" by (simp only: xor_eq_0)
qed

lemma inj_xorshift32: "inj xorshift32"
proof -
  have "xorshift32 = (\<lambda>x. x XOR push_bit 5 x) \<circ> (\<lambda>x. x XOR drop_bit 17 x) \<circ> (\<lambda>x. x XOR push_bit 13 x)"
    by (simp add: fun_eq_iff xorshift32_def Let_def)
  moreover have "inj \<dots>" by (intro inj_compose inj_xor_push inj_xor_drop) simp_all
  ultimately show ?thesis by (simp only:)
qed

lemma xorshift32_nonzero: "x \<noteq> 0 \<Longrightarrow> xorshift32 x \<noteq> 0"
proof -
  have "xorshift32 0 = 0" by (simp add: xorshift32_def)
  then show "x \<noteq> 0 \<Longrightarrow> xorshift32 x \<noteq> 0"
    using inj_xorshift32 by (metis injD)
qed

lemma entropy_xor_nonzero [simp]: "entropy_xor seed r \<noteq> 0"
  by (simp add: entropy_xor_def Let_def)

lemma bij_xorshift32: "bij xorshift32"
  using inj_xorshift32 by (simp add: bij_def finite_UNIV_inj_surj)

section \<open>Properties\<close>

text \<open>Neither generator can reach the state zero, from which it would never leave: adding entropy
  makes both states nonzero whatever they were, and each processor's random number keeps its
  state nonzero.\<close>

theorem random_states_nonzero:
  "rng_ok (Wifi_RandomAddEntropy value w) \<and>
   (rng_ok w \<longrightarrow> rng_ok (snd (Wifi_Random7 w)) \<and> rng_ok (snd (Wifi_Random9 w)) \<and>
      fst (Wifi_Random7 w) \<noteq> 0 \<and> fst (Wifi_Random9 w) \<noteq> 0)"
  by (simp add: rng_ok_def Wifi_RandomAddEntropy_def Wifi_Random7_def Wifi_Random9_def Let_def xorshift32_nonzero)

theorem random_states_nonzero_witness:
  "rng_ok (snd (Wifi_Random7 (Wifi_RandomAddEntropy 7 zero_main)))"
  using random_states_nonzero [of 7 zero_main] random_states_nonzero [of 0 "Wifi_RandomAddEntropy 7 zero_main"]
  by simp

text \<open>A step of the generator is a permutation of its 32-bit states: two different states never
  produce the same number, so no randomness of the seed is lost.\<close>

theorem random_step_bijective:
  "bij xorshift32 \<and>
   (fst (Wifi_Random7 w) = fst (Wifi_Random7 w') \<longleftrightarrow> random7 w = random7 w')"
  using bij_xorshift32 by (auto simp: Wifi_Random7_def Let_def inj_eq [OF inj_xorshift32])

end
