(* ===== verification/Twl_Card.thy ===== *)
theory Twl_Card
  imports Wifi_Shared
begin

text \<open>
  The driver of the DSi wireless card up to its mailbox (\<^verbatim>\<open>arm7/twl/card.twl.c\<close>): access to
  the registers of the card with SDIO commands, the boot protocol, the initialisation of the card
  and the sending of packets. The SDIO controller itself (\<^verbatim>\<open>sdio.twl.c\<close>, \<^verbatim>\<open>ndma.twl.c\<close>)
  is outside the model: the commands given to it are recorded in order, and \<open>sdio_card\<close> says what the
  card answers to the last command of such a history, so that it can answer differently every time.
  A block transfer returns before it is finished and reports no error, as in
  \<^verbatim>\<open>wifi_sdio_send_command\<close>; the code waits for its end. The operands of an expression with two
  reads are evaluated from left to right. Logging is compiled out. A loop that waits for the card
  is a partial function: \<open>None\<close> when it waits for ever.
\<close>

section \<open>State\<close>

text \<open>A command without data, the three kinds of data transfers, and the other devices that the
  initialisation programs.\<close>

datatype card_op =
    SdioCommand nat u32
  | SdioRead u32 nat
  | SdioReadSingle u32 nat
  | SdioWrite u32 "u8 list"
  | SwitchDevice nat
  | GpioWifiModeTwl | RtcFout u8 u8 | I2cPowerManagement u8 u8 | ScfgWlOffb

record card_answer =
  ans_status :: u32
  ans_resp :: u32
  ans_data :: "u8 list"

record gtk_keyinfo =
  gtk_keytype :: "u8 list"
  gtk_keyidx :: u8
  gtk_unk :: u8
  gtk_key :: "u8 list"

record ptk_keyinfo =
  kck :: "u8 list"
  kek :: "u8 list"
  tk :: "u8 list"
  mic_tx :: "u8 list"
  mic_rx :: "u8 list"

text \<open>The static variables of \<^verbatim>\<open>card.twl.c\<close> and \<^verbatim>\<open>wmi.twl.c\<close>, the two interrupt sources that the
  driver sets up, the history of commands, and the card.\<close>

record twl =
  sdio_card :: "card_op list \<Rightarrow> card_answer"
  ops :: "card_op list"
  tmio_status :: u32
  tmio_resp :: u32
  tmio_address :: u16
  tmio_bus_width :: nat
  tmio_block_size :: u16
  card_irq_on :: bool
  twl_timer_on :: bool
  device_chip_id :: u32
  device_manufacturer :: u32
  device_host_interest_addr :: u32
  device_eeprom_addr :: u32
  device_eeprom_version :: u32
  wifi_card_bInitted :: bool
  mbox_out_buffer :: mem8
  mbox_buffer :: mem8
  mbox_has_lookahead :: bool
  mbox_lookahead :: u32
  device_num_channels :: u8
  device_cur_channel_idx :: u8
  channel_freqs :: mem8
  num_rounds_scanned :: u16
  wmi_idk :: u16
  wmi_bIsReady :: bool
  wmi_is_scanning :: bool
  ap_connected :: bool
  ap_connecting :: bool
  has_sent_hs2 :: bool
  has_sent_hs4 :: bool
  device_ap_nonce :: "u8 list"
  device_nonce :: "u8 list"
  device_ap_mic :: "u8 list"
  device_gtk_keyinfo :: gtk_keyinfo
  device_ptk :: ptk_keyinfo

section \<open>SDIO commands\<close>

definition card_reply :: "card_op \<Rightarrow> twl \<Rightarrow> card_answer" where
  "card_reply op t = sdio_card t (ops t @ [op])"

definition issue :: "card_op \<Rightarrow> twl \<Rightarrow> twl" where
  "issue op t = t\<lparr>ops := ops t @ [op], tmio_block_size := (if tmio_block_size t = 0 then 512 else tmio_block_size t)\<rparr>"

text \<open>A command without data waits for its response.\<close>

definition wifi_card_send_command :: "nat \<Rightarrow> u32 \<Rightarrow> twl \<Rightarrow> twl" where
  "wifi_card_send_command cmd args t =
     (let a = card_reply (SdioCommand cmd args) t
      in (issue (SdioCommand cmd args) t)\<lparr>tmio_status := ans_status a, tmio_resp := ans_resp a\<rparr>)"

definition failed :: "twl \<Rightarrow> bool" where
  "failed t \<longleftrightarrow> tmio_status t AND 4 \<noteq> 0"

definition device :: "card_op \<Rightarrow> twl \<Rightarrow> twl" where
  "device op t = t\<lparr>ops := ops t @ [op]\<rparr>"

definition wifi_card_switch_device :: "twl \<Rightarrow> twl" where
  "wifi_card_switch_device t = device (SwitchDevice (tmio_bus_width t)) t"

text \<open>The boolean of a write is true for the result 0 and false for -1.\<close>

definition wifi_card_write_func_byte :: "u32 \<Rightarrow> u32 \<Rightarrow> u8 \<Rightarrow> twl \<Rightarrow> bool \<times> twl" where
  "wifi_card_write_func_byte func addr val t =
     (let t = wifi_card_send_command 52 (BIT 31 OR push_bit 28 func OR push_bit 9 addr OR ucast val) t
      in (\<not> failed t, t))"

definition wifi_card_read_func_byte :: "u32 \<Rightarrow> u32 \<Rightarrow> twl \<Rightarrow> u8 \<times> twl" where
  "wifi_card_read_func_byte func addr t =
     (let t = wifi_card_send_command 52 (push_bit 28 func OR push_bit 9 (addr AND 0x1FFFF)) t
      in (if failed t then 0xFF else ucast (tmio_resp t), t))"

definition wifi_card_read_func1_32bit :: "u32 \<Rightarrow> nat \<Rightarrow> twl \<Rightarrow> u8 list \<times> twl" where
  "wifi_card_read_func1_32bit addr len t =
     (let op = SdioReadSingle (push_bit 28 1 OR BIT 26 OR push_bit 9 (addr AND 0x1FFFF) OR ucast (of_nat len :: u8)) len;
          a = card_reply op t
      in (take len (ans_data a), (issue op t)\<lparr>tmio_status := ans_status a, tmio_resp := ans_resp a\<rparr>))"

definition blkcnt :: "nat \<Rightarrow> twl \<Rightarrow> u8" where
  "blkcnt len t = of_nat (len div unat (tmio_block_size t))"

definition block_args :: "u32 \<Rightarrow> nat \<Rightarrow> twl \<Rightarrow> u32" where
  "block_args addr len t = push_bit 28 1 OR BIT 27 OR BIT 26 OR push_bit 9 (addr AND 0x1FFFF) OR ucast (blkcnt len t)"

text \<open>A block read fills a buffer of the caller at the returned bytes; the card gives as many as asked.\<close>

definition wifi_card_read_func1_block :: "u32 \<Rightarrow> nat \<Rightarrow> twl \<Rightarrow> u8 list \<times> twl" where
  "wifi_card_read_func1_block addr len t =
     (let op = SdioRead (block_args addr len t) len
      in (take len (ans_data (card_reply op t)), (issue op t)\<lparr>tmio_status := 0\<rparr>))"

definition wifi_card_write_func1_block :: "u32 \<Rightarrow> u8 list \<Rightarrow> twl \<Rightarrow> twl" where
  "wifi_card_write_func1_block addr data t =
     (issue (SdioWrite (BIT 31 OR block_args addr (length data) t) data) t)\<lparr>tmio_status := 0\<rparr>"

section \<open>Registers of the card\<close>

definition wifi_card_write_func0_u8 :: "u32 \<Rightarrow> u8 \<Rightarrow> twl \<Rightarrow> twl" where
  "wifi_card_write_func0_u8 addr val t = snd (wifi_card_write_func_byte 0 addr val t)"

definition wifi_card_read_func0_u8 :: "u32 \<Rightarrow> twl \<Rightarrow> u8 \<times> twl" where
  "wifi_card_read_func0_u8 addr t = wifi_card_read_func_byte 0 addr t"

definition wifi_card_read_func0_u16 :: "u32 \<Rightarrow> twl \<Rightarrow> u16 \<times> twl" where
  "wifi_card_read_func0_u16 addr t =
     (let (lo, t) = wifi_card_read_func0_u8 addr t; (hi, t) = wifi_card_read_func0_u8 (addr + 1) t
      in (hword lo hi, t))"

definition word32 :: "u16 \<Rightarrow> u16 \<Rightarrow> u32" where
  "word32 lo hi = ucast lo OR push_bit 16 (ucast hi)"

definition wifi_card_read_func0_u32 :: "u32 \<Rightarrow> twl \<Rightarrow> u32 \<times> twl" where
  "wifi_card_read_func0_u32 addr t =
     (let (lo, t) = wifi_card_read_func0_u16 addr t; (hi, t) = wifi_card_read_func0_u16 (addr + 2) t
      in (word32 lo hi, t))"

definition wifi_card_write_func1_u8 :: "u32 \<Rightarrow> u8 \<Rightarrow> twl \<Rightarrow> twl" where
  "wifi_card_write_func1_u8 addr val t = snd (wifi_card_write_func_byte 1 addr val t)"

definition wifi_card_read_func1_u8 :: "u32 \<Rightarrow> twl \<Rightarrow> u8 \<times> twl" where
  "wifi_card_read_func1_u8 addr t = wifi_card_read_func_byte 1 addr t"

definition wifi_card_read_func1_u16 :: "u32 \<Rightarrow> twl \<Rightarrow> u16 \<times> twl" where
  "wifi_card_read_func1_u16 addr t =
     (let (lo, t) = wifi_card_read_func1_u8 addr t; (hi, t) = wifi_card_read_func1_u8 (addr + 1) t
      in (hword lo hi, t))"

definition wifi_card_read_func1_u32 :: "u32 \<Rightarrow> twl \<Rightarrow> u32 \<times> twl" where
  "wifi_card_read_func1_u32 addr t =
     (let (lo, t) = wifi_card_read_func1_u16 addr t; (hi, t) = wifi_card_read_func1_u16 (addr + 2) t
      in (word32 lo hi, t))"

definition wifi_card_read_func1_u32_fast :: "u32 \<Rightarrow> twl \<Rightarrow> u32 \<times> twl" where
  "wifi_card_read_func1_u32_fast addr t =
     (let (bs, t) = wifi_card_read_func1_32bit addr 4 t in (read_u32 ((!) bs) 0, t))"

text \<open>From the most to the least significant byte.\<close>

definition wifi_card_write_func1_u16 :: "u32 \<Rightarrow> u16 \<Rightarrow> twl \<Rightarrow> twl" where
  "wifi_card_write_func1_u16 addr val t =
     wifi_card_write_func1_u8 addr (ucast val) (wifi_card_write_func1_u8 (addr + 1) (ucast (drop_bit 8 val)) t)"

definition wifi_card_write_func1_u32 :: "u32 \<Rightarrow> u32 \<Rightarrow> twl \<Rightarrow> twl" where
  "wifi_card_write_func1_u32 addr val t =
     wifi_card_write_func1_u16 addr (ucast val) (wifi_card_write_func1_u16 (addr + 2) (ucast (drop_bit 16 val)) t)"

definition wifi_card_read_intern_word :: "u32 \<Rightarrow> twl \<Rightarrow> u32 \<times> twl" where
  "wifi_card_read_intern_word addr t = wifi_card_read_func1_u32 0x474 (wifi_card_write_func1_u32 0x47C addr t)"

definition wifi_card_read_intern_word_fast :: "u32 \<Rightarrow> twl \<Rightarrow> u32 \<times> twl" where
  "wifi_card_read_intern_word_fast addr t = wifi_card_read_func1_u32_fast 0x474 (wifi_card_write_func1_u32 0x47C addr t)"

definition wifi_card_write_intern_word :: "u32 \<Rightarrow> u32 \<Rightarrow> twl \<Rightarrow> twl" where
  "wifi_card_write_intern_word addr data t = wifi_card_write_func1_u32 0x478 addr (wifi_card_write_func1_u32 0x474 data t)"

text \<open>Reading something of the card again and again until it has an expected value.\<close>

partial_function (option) poll :: "(twl \<Rightarrow> 'v \<times> twl) \<Rightarrow> ('v \<Rightarrow> bool) \<Rightarrow> twl \<Rightarrow> twl option" where
  "poll rd expected t = (let (v, t) = rd t in if expected v then Some t else poll rd expected t)"

definition F1_HOST_INT_STATUS :: u32 where [simp]: "F1_HOST_INT_STATUS = 0x400"
definition F1_RX_LOOKAHEAD_VALID :: u32 where [simp]: "F1_RX_LOOKAHEAD_VALID = 0x405"
definition F1_RX_LOOKAHEAD0 :: u32 where [simp]: "F1_RX_LOOKAHEAD0 = 0x408"
definition F1_INT_STATUS_ENABLE :: u32 where [simp]: "F1_INT_STATUS_ENABLE = 0x418"
definition F1_COUNT4 :: u32 where [simp]: "F1_COUNT4 = 0x450"

section \<open>Sending packets\<close>

text \<open>A packet is written to the end of the mailbox window, in whole blocks of 128 bytes; what follows the
  packet in its last block is what the buffer held before. The second parameter of the block write
  is an offset of sixteen bits.\<close>

definition MBOX_TMPBUF_SIZE :: nat where [simp]: "MBOX_TMPBUF_SIZE = 0x600"
definition MBOXPKT_HTC :: u8 where [simp]: "MBOXPKT_HTC = 0"
definition MBOXPKT_WMI :: u8 where [simp]: "MBOXPKT_WMI = 1"
definition MBOXPKT_DATA :: u8 where [simp]: "MBOXPKT_DATA = 2"
definition MBOXPKT_NOACK :: u8 where [simp]: "MBOXPKT_NOACK = 0"
definition MBOXPKT_REQACK :: u8 where [simp]: "MBOXPKT_REQACK = 1"

definition round_up_80 :: "nat \<Rightarrow> nat" where
  "round_up_80 n = (n + 0x7F) div 0x80 * 0x80"

definition wifi_card_mbox0_sendbytes :: "u8 list \<Rightarrow> twl \<Rightarrow> twl" where
  "wifi_card_mbox0_sendbytes data t =
     (let send_addr = 0x4000 - of_nat (length data) :: u16
      in snd (wifi_card_read_func1_u32 F1_HOST_INT_STATUS (wifi_card_write_func1_block (ucast send_addr) data t)))"

text \<open>The length field of the header is the length before the packet is truncated to the buffer.\<close>

definition wifi_card_mbox0_send_packet :: "u8 \<Rightarrow> u8 \<Rightarrow> u8 list \<Rightarrow> u16 \<Rightarrow> twl \<Rightarrow> twl" where
  "wifi_card_mbox0_send_packet type ack_type data idk t =
     (let len = of_nat (length data) :: u16;
          m = write_bytes (mbox_out_buffer t) 0 ([type, ack_type] @ le16 len @ le16 idk);
          n = min (unat len) (MBOX_TMPBUF_SIZE - 6);
          m = write_bytes m 6 (take n data)
      in wifi_card_mbox0_sendbytes (read_bytes m 0 (round_up_80 (n + 6))) (t\<lparr>mbox_out_buffer := m\<rparr>))"

definition data_send_pkt :: "u8 list \<Rightarrow> twl \<Rightarrow> twl" where
  "data_send_pkt pkt_data t = wifi_card_mbox0_send_packet 2 MBOXPKT_NOACK pkt_data 0 t"

definition data_send_pkt_idk :: "u8 list \<Rightarrow> twl \<Rightarrow> twl" where
  "data_send_pkt_idk pkt_data t = wifi_card_mbox0_send_packet 2 MBOXPKT_NOACK pkt_data 0x2008 t"

definition data_send_link :: "u8 list \<Rightarrow> twl \<Rightarrow> twl" where
  "data_send_link ip_data t = data_send_pkt_idk ip_data t"

definition wmi_send_pkt :: "u16 \<Rightarrow> u8 \<Rightarrow> u8 list \<Rightarrow> twl \<Rightarrow> twl" where
  "wmi_send_pkt wmi_type ack_type data t =
     (let len = of_nat (length data) :: u16;
          m = write_bytes (mbox_out_buffer t) 0 ([MBOXPKT_WMI, ack_type] @ le16 (len + 2) @ le16 (wmi_idk t) @ le16 wmi_type);
          n = min (unat len) (MBOX_TMPBUF_SIZE - 8);
          m = write_bytes m 8 (take n data)
      in wifi_card_mbox0_sendbytes (read_bytes m 0 (round_up_80 (n + 8))) (t\<lparr>mbox_out_buffer := m\<rparr>))"

definition htc_send_pkt :: "u16 \<Rightarrow> u8 \<Rightarrow> u8 list \<Rightarrow> twl \<Rightarrow> twl" where
  "htc_send_pkt htc_type ack_type data t =
     wifi_card_mbox0_send_packet MBOXPKT_HTC ack_type (le16 htc_type @ take (0x80 - 2) data) 0 t"

section \<open>The boot protocol\<close>

definition BMI_DONE :: u32 where [simp]: "BMI_DONE = 1"
definition BMI_READ_MEMORY :: u32 where [simp]: "BMI_READ_MEMORY = 2"
definition BMI_WRITE_MEMORY :: u32 where [simp]: "BMI_WRITE_MEMORY = 3"
definition BMI_EXECUTE :: u32 where [simp]: "BMI_EXECUTE = 4"
definition BMI_READ_SOC_REGISTER :: u32 where [simp]: "BMI_READ_SOC_REGISTER = 6"
definition BMI_WRITE_SOC_REGISTER :: u32 where [simp]: "BMI_WRITE_SOC_REGISTER = 7"
definition BMI_GET_TARGET_ID :: u32 where [simp]: "BMI_GET_TARGET_ID = 8"
definition BMI_LZ_STREAM_START :: u32 where [simp]: "BMI_LZ_STREAM_START = 0xD"
definition BMI_LZ_DATA :: u32 where [simp]: "BMI_LZ_DATA = 0xE"

definition write_mbox0_bytes :: "u8 list \<Rightarrow> twl \<Rightarrow> twl" where
  "write_mbox0_bytes bs t = fold (wifi_card_write_func1_u8 0xFF) bs t"

definition wifi_card_write_mbox0_u32 :: "u32 \<Rightarrow> twl \<Rightarrow> twl" where
  "wifi_card_write_mbox0_u32 val t = write_mbox0_bytes (le32 val) t"

fun read_mbox0_bytes :: "nat \<Rightarrow> twl \<Rightarrow> u8 list \<times> twl" where
  "read_mbox0_bytes 0 t = ([], t)"
| "read_mbox0_bytes (Suc n) t =
     (let (b, t) = wifi_card_read_func1_u8 0xFF t; (bs, t) = read_mbox0_bytes n t in (b # bs, t))"

definition wait_lookahead :: "twl \<Rightarrow> twl option" where
  "wait_lookahead t = poll (wifi_card_read_func1_u8 F1_RX_LOOKAHEAD_VALID) (\<lambda>v. v AND 1 \<noteq> 0) t"

definition wifi_card_bmi_wait_count4 :: "twl \<Rightarrow> twl option" where
  "wifi_card_bmi_wait_count4 t = poll (wifi_card_read_func1_u8 F1_COUNT4) (\<lambda>v. v \<noteq> 0) t"

definition read_mbox0_word :: "twl \<Rightarrow> u32 \<times> twl" where
  "read_mbox0_word t = (let (bs, t) = read_mbox0_bytes 4 t in (read_u32 ((!) bs) 0, t))"

definition wifi_card_read_mbox0_u32 :: "twl \<Rightarrow> (u32 \<times> twl) option" where
  "wifi_card_read_mbox0_u32 t = map_option read_mbox0_word (wait_lookahead t)"

fun wait_lookahead_timeout :: "nat \<Rightarrow> twl \<Rightarrow> twl" where
  "wait_lookahead_timeout 0 t = t"
| "wait_lookahead_timeout (Suc n) t =
     (let (v, t) = wifi_card_read_func1_u8 F1_RX_LOOKAHEAD_VALID t
      in if v AND 1 \<noteq> 0 then t else wait_lookahead_timeout n t)"

definition wifi_card_read_mbox0_u32_timeout :: "twl \<Rightarrow> u32 \<times> twl" where
  "wifi_card_read_mbox0_u32_timeout t =
     (let (v, t) = wifi_card_read_func1_u8 F1_RX_LOOKAHEAD_VALID (wait_lookahead_timeout 10 t)
      in if v AND 1 = 0 then (0xFFFFFFFF, t) else read_mbox0_word t)"

definition wifi_card_bmi_start_firmware :: "twl \<Rightarrow> twl" where
  "wifi_card_bmi_start_firmware t = wifi_card_write_mbox0_u32 BMI_DONE t"

definition wifi_card_bmi_cmd_read_memory :: "u32 \<Rightarrow> nat \<Rightarrow> twl \<Rightarrow> u8 list \<times> twl" where
  "wifi_card_bmi_cmd_read_memory addr len t =
     (if len = 4 then let (w, t) = wifi_card_read_intern_word_fast addr t in (le32 w, t)
      else let t = wifi_card_write_mbox0_u32 BMI_READ_MEMORY t;
               t = wifi_card_write_mbox0_u32 addr t;
               t = wifi_card_write_mbox0_u32 (of_nat (len + len mod 4)) t;
               (out, t) = read_mbox0_bytes len t
           in (out, snd (read_mbox0_bytes (len mod 4) t)))"

definition wifi_card_bmi_cmd_write_memory :: "u32 \<Rightarrow> u8 list \<Rightarrow> twl \<Rightarrow> twl" where
  "wifi_card_bmi_cmd_write_memory addr data t =
     (let len = length data
      in if len = 4 then wifi_card_write_intern_word addr (read_u32 ((!) data) 0) t
         else let t = wifi_card_write_mbox0_u32 BMI_WRITE_MEMORY t;
                  t = wifi_card_write_mbox0_u32 addr t;
                  t = wifi_card_write_mbox0_u32 (of_nat (len + len mod 4)) t
              in write_mbox0_bytes (replicate (len mod 4) 0) (write_mbox0_bytes data t))"

definition wifi_card_bmi_execute :: "u32 \<Rightarrow> u32 \<Rightarrow> twl \<Rightarrow> (u32 \<times> twl) option" where
  "wifi_card_bmi_execute addr arg t =
     wifi_card_read_mbox0_u32 (wifi_card_write_mbox0_u32 arg (wifi_card_write_mbox0_u32 addr
       (wifi_card_write_mbox0_u32 BMI_EXECUTE t)))"

definition wifi_card_bmi_read_register :: "u32 \<Rightarrow> twl \<Rightarrow> (u32 \<times> twl) option" where
  "wifi_card_bmi_read_register addr t =
     wifi_card_read_mbox0_u32 (wifi_card_write_mbox0_u32 addr (wifi_card_write_mbox0_u32 BMI_READ_SOC_REGISTER t))"

definition wifi_card_bmi_write_register :: "u32 \<Rightarrow> u32 \<Rightarrow> twl \<Rightarrow> twl" where
  "wifi_card_bmi_write_register addr val t =
     wifi_card_write_mbox0_u32 val (wifi_card_write_mbox0_u32 addr (wifi_card_write_mbox0_u32 BMI_WRITE_SOC_REGISTER t))"

fun read_words :: "nat \<Rightarrow> twl \<Rightarrow> twl option" where
  "read_words 0 t = Some t"
| "read_words (Suc n) t = do { (_, t) \<leftarrow> wifi_card_read_mbox0_u32 t; read_words n t }"

text \<open>The number of words left to read is computed in 32 bits.\<close>

definition wifi_card_bmi_get_version :: "twl \<Rightarrow> (u32 \<times> twl) option" where
  "wifi_card_bmi_get_version t =
     do { (ret, t) \<leftarrow> wifi_card_read_mbox0_u32 (wifi_card_write_mbox0_u32 BMI_GET_TARGET_ID t);
          if ret \<noteq> 0xFFFFFFFF then Some (ret, t)
          else do { (len, t) \<leftarrow> wifi_card_read_mbox0_u32 t;
                    if len = 0xFFFFFFFF then Some (ret, t)
                    else do { (ret, t) \<leftarrow> wifi_card_read_mbox0_u32 t;
                              t \<leftarrow> read_words (unat (len div 4 - 2)) t;
                              Some (ret, t) } } }"

definition wifi_card_bmi_lz_start :: "u32 \<Rightarrow> twl \<Rightarrow> twl" where
  "wifi_card_bmi_lz_start addr t = wifi_card_write_mbox0_u32 addr (wifi_card_write_mbox0_u32 BMI_LZ_STREAM_START t)"

definition wifi_card_bmi_lz_data :: "u8 list \<Rightarrow> twl \<Rightarrow> twl" where
  "wifi_card_bmi_lz_data data t =
     (let len = length data;
          t = wifi_card_write_mbox0_u32 BMI_LZ_DATA t;
          t = wifi_card_write_mbox0_u32 (of_nat (len + len mod 4)) t;
          len_bulk = len - len mod 0x80;
          t = wifi_card_mbox0_sendbytes (take len_bulk data) t
      in write_mbox0_bytes (replicate (len mod 4) 0) (write_mbox0_bytes (drop len_bulk data) t))"

text \<open>The fragments of at most \<open>chunk_size\<close> bytes, with the offset of each.\<close>

function fragments :: "nat \<Rightarrow> nat \<Rightarrow> u8 list \<Rightarrow> (nat \<times> u8 list) list" where
  "fragments chunk_size i data =
     (if data = [] \<or> chunk_size = 0 then []
      else (i, take chunk_size data) # fragments chunk_size (i + chunk_size) (drop chunk_size data))"
  by pat_completeness auto
termination by (relation "measure (\<lambda>(_, _, data). length data)") auto

definition wifi_card_bmi_write_memory :: "u32 \<Rightarrow> u8 list \<Rightarrow> twl \<Rightarrow> twl" where
  "wifi_card_bmi_write_memory addr data t =
     fold (\<lambda>(i, frag). wifi_card_bmi_cmd_write_memory (addr + of_nat i) frag) (fragments 0x1F0 0 data) t"

definition wifi_card_bmi_lz_upload :: "u32 \<Rightarrow> u8 list \<Rightarrow> twl \<Rightarrow> twl" where
  "wifi_card_bmi_lz_upload addr data t =
     fold (\<lambda>(i, frag). wifi_card_bmi_lz_data frag) (fragments 0x1F8 0 data) (wifi_card_bmi_lz_start addr t)"

section \<open>Initialisation of the card\<close>

definition CHIP_ID_AR6002 :: u32 where [simp]: "CHIP_ID_AR6002 = 0x02000001"
definition CHIP_ID_AR6013 :: u32 where [simp]: "CHIP_ID_AR6013 = 0x0D000000"
definition CHIP_ID_AR6014 :: u32 where [simp]: "CHIP_ID_AR6014 = 0x0D000001"
definition AR6002_HOST_INTEREST_ADDRESS :: u32 where [simp]: "AR6002_HOST_INTEREST_ADDRESS = 0x00500400"
definition AR601x_HOST_INTEREST_ADDRESS :: u32 where [simp]: "AR601x_HOST_INTEREST_ADDRESS = 0x00520000"
definition WRITE_FOUT_1 :: u8 where [simp]: "WRITE_FOUT_1 = 0x72"
definition WRITE_FOUT_2 :: u8 where [simp]: "WRITE_FOUT_2 = 0x74"

definition wifi_card_get_chip_str :: "twl \<Rightarrow> string" where
  "wifi_card_get_chip_str t =
     (if device_chip_id t = CHIP_ID_AR6013 then ''AR6013''
      else if device_chip_id t = CHIP_ID_AR6014 then ''AR6014''
      else if device_chip_id t = CHIP_ID_AR6002 then ''AR6002''
      else ''Unknown'')"

definition wifi_card_host_interest_addr :: "twl \<Rightarrow> u32" where
  "wifi_card_host_interest_addr t = device_host_interest_addr t"

text \<open>Command 5 until the card responds (\<open>True\<close>) or reports an error (\<open>False\<close>), repeated with the voltages
  of the response until the card says that it is ready.\<close>

partial_function (option) io_send_op_cond :: "u32 \<Rightarrow> twl \<Rightarrow> (bool \<times> twl) option" where
  "io_send_op_cond ocr t =
     (let t = wifi_card_send_command 5 ocr t
      in if failed t then Some (False, t)
         else if tmio_status t AND 1 \<noteq> 0 then Some (True, t)
         else io_send_op_cond ocr t)"

partial_function (option) op_cond :: "u32 \<Rightarrow> twl \<Rightarrow> (bool \<times> twl) option" where
  "op_cond ocr t =
     Option.bind (io_send_op_cond ocr t) (\<lambda>(responded, t).
       if \<not> responded then Some (False, t)
       else if tmio_resp t AND 0x80000000 \<noteq> 0 then Some (True, t)
       else op_cond (tmio_resp t AND 0xFFFFFF) t)"

text \<open>In what follows the boolean is false when the function returns -1.\<close>

definition select_card :: "twl \<Rightarrow> bool \<times> twl" where
  "select_card t =
     (let t = wifi_card_send_command 3 0 t
      in if failed t then (False, t)
         else let t = t\<lparr>tmio_address := ucast (drop_bit 16 (tmio_resp t))\<rparr>;
                  t = wifi_card_send_command 7 (push_bit 16 (ucast (tmio_address t))) t
              in (\<not> failed t, t))"

fun write_func0_checked :: "(u32 \<times> u8) list \<Rightarrow> twl \<Rightarrow> bool \<times> twl" where
  "write_func0_checked [] t = (True, t)"
| "write_func0_checked ((addr, val) # rest) t =
     (let t = wifi_card_write_func0_u8 addr val t in if failed t then (False, t) else write_func0_checked rest t)"

definition setup_bus :: "twl \<Rightarrow> bool \<times> twl" where
  "setup_bus t =
     (let t = wifi_card_write_func0_u8 2 0 t;
          t = wifi_card_write_func0_u8 2 2 t;
          t = wifi_card_send_command 52 (push_bit 9 7) t
      in if failed t then (False, t)
         else let t = wifi_card_write_func0_u8 7 (ucast (tmio_resp t) OR 0x82) t
              in if failed t then (False, t)
                 else let t = wifi_card_switch_device (t\<lparr>tmio_bus_width := 4\<rparr>);
                          lo = ucast (tmio_block_size t); hi = ucast (drop_bit 8 (tmio_block_size t))
                      in write_func0_checked [(0x12, 2), (0x110, lo), (0x111, hi), (0x10, lo), (0x11, hi)] t)"

definition sdio_reset :: "twl \<Rightarrow> (bool \<times> twl) option" where
  "sdio_reset t =
     do { (selectable, t) \<leftarrow> op_cond 0 t;
          let (ok, t) = (if selectable then select_card t else (True, t));
          Some (if ok then setup_bus t else (False, t)) }"

definition wait_function1 :: "twl \<Rightarrow> twl option" where
  "wait_function1 t = poll (wifi_card_read_func0_u8 3) (\<lambda>v. v = 2) t"

definition wait_firmware :: "twl \<Rightarrow> twl option" where
  "wait_firmware t =
     poll (wifi_card_read_intern_word (device_host_interest_addr t + 0x58)) (\<lambda>is_ready. is_ready = 1) t"

text \<open>The power-up of the card, and the fallback to one data line when the revision cannot be read.\<close>

definition power_up :: "twl \<Rightarrow> twl" where
  "power_up t =
     (let t = t\<lparr>tmio_address := 0, tmio_block_size := 128\<rparr>;
          t = device GpioWifiModeTwl t;
          t = device (RtcFout WRITE_FOUT_1 0x80) t;
          t = device (RtcFout WRITE_FOUT_2 0) t;
          t = device (I2cPowerManagement 0x30 0x13) t;
          t = device ScfgWlOffb t;
          t = wifi_card_switch_device (t\<lparr>tmio_bus_width := 4\<rparr>);
          (_, t) = wifi_card_read_func0_u8 0 t
      in if failed t then wifi_card_switch_device (t\<lparr>tmio_bus_width := 1\<rparr>) else t)"

definition identify_card :: "twl \<Rightarrow> twl" where
  "identify_card t =
     (let (m, t) = wifi_card_read_func0_u32 0x1007 t;
          (c, t) = wifi_card_read_intern_word 0x40EC t
      in t\<lparr>device_manufacturer := m, device_chip_id := c,
           device_host_interest_addr :=
             (if c = CHIP_ID_AR6002 then AR6002_HOST_INTEREST_ADDRESS else AR601x_HOST_INTEREST_ADDRESS)\<rparr>)"

text \<open>The reset into the boot loader, its commands, and the launch of the firmware.\<close>

definition boot_card :: "twl \<Rightarrow> twl option" where
  "boot_card t =
     (let h = device_host_interest_addr t;
          (_, t) = wifi_card_read_intern_word (h + 0x58) t;
          t = wifi_card_write_intern_word 0x4000 0x100 t;
          (_, t) = wifi_card_read_intern_word 0x40C0 t;
          t = wifi_card_bmi_cmd_write_memory h (le32 2) t
      in do { (scratch0, t) \<leftarrow> wifi_card_bmi_read_register 0x180C0 t;
              let t = wifi_card_bmi_write_register 0x180C0 (scratch0 OR 8) t;
              (wlan_system_sleep, t) \<leftarrow> wifi_card_bmi_read_register 0x40C4 t;
              let t = wifi_card_bmi_write_register 0x40C4 (wlan_system_sleep OR 1) t;
              let t = wifi_card_bmi_write_register 0x4028 5 t;
              let t = wifi_card_bmi_write_register 0x4020 0 t;
              let t = wifi_card_bmi_cmd_write_memory (h + 0x6C) (le32 0x80) t;
              let t = wifi_card_bmi_cmd_write_memory (h + 0x74) (le32 0x63) t;
              wait_firmware (wifi_card_bmi_start_firmware t) })"

definition start_card :: "twl \<Rightarrow> twl" where
  "start_card t =
     (let (e, t) = wifi_card_read_intern_word (device_host_interest_addr t + 0x54) t;
          (v, t) = wifi_card_read_intern_word (e + 0x10) (t\<lparr>device_eeprom_addr := e\<rparr>);
          t = t\<lparr>device_eeprom_version := v, wifi_card_bInitted := True, card_irq_on := True\<rparr>;
          t = wifi_card_write_func1_u32 F1_INT_STATUS_ENABLE 0x010300D1 t;
          t = wifi_card_write_func0_u8 4 3 t
      in t\<lparr>twl_timer_on := True\<rparr>)"

definition wifi_card_wlan_init :: "twl \<Rightarrow> (bool \<times> twl) option" where
  "wifi_card_wlan_init t =
     do { (ok, t) \<leftarrow> sdio_reset (power_up t);
          if \<not> ok then Some (False, t)
          else let (revision, t) = wifi_card_read_func0_u8 0 t
               in if failed t then Some (False, t)
                  else do { t \<leftarrow> wait_function1 (wifi_card_write_func0_u8 2 2 t);
                            t \<leftarrow> boot_card (identify_card t);
                            Some (True, start_card t) } }"

definition wifi_card_device_init :: "twl \<Rightarrow> (bool \<times> twl) option" where
  "wifi_card_device_init t =
     wifi_card_wlan_init (t\<lparr>tmio_status := 0, tmio_resp := 0, tmio_address := 0, tmio_bus_width := 1, tmio_block_size := 0\<rparr>)"

definition wmi_init :: "twl \<Rightarrow> twl" where
  "wmi_init t = t\<lparr>wmi_bIsReady := False, wmi_is_scanning := False, ap_connected := False, ap_connecting := False\<rparr>"

text \<open>The result of the initialisation of the device is not used.\<close>

definition wifi_card_init :: "twl \<Rightarrow> twl option" where
  "wifi_card_init t = map_option (\<lambda>(_, t). wmi_init t) (wifi_card_device_init t)"

definition wifi_card_deinit :: "twl \<Rightarrow> twl" where
  "wifi_card_deinit t =
     (let t = t\<lparr>card_irq_on := False, twl_timer_on := False\<rparr>;
          t = (if wifi_card_bInitted t
               then wifi_card_write_func0_u8 4 0 (wifi_card_write_func1_u32 F1_INT_STATUS_ENABLE 0 t) else t)
      in t\<lparr>wifi_card_bInitted := False\<rparr>)"

definition wmi_is_ready :: "twl \<Rightarrow> bool" where
  "wmi_is_ready t = wmi_bIsReady t"

definition wifi_card_initted :: "twl \<Rightarrow> bool" where
  "wifi_card_initted t \<longleftrightarrow> wifi_card_bInitted t \<and> wmi_is_ready t"

section \<open>A concrete state\<close>

text \<open>The static variables at the start of the program, with a card that answers every command without an
  error and with zeros.\<close>

definition twl_zero :: twl where
  "twl_zero =
     \<lparr>sdio_card = \<lambda>_. \<lparr>ans_status = 1, ans_resp = 0, ans_data = replicate 0x600 0\<rparr>, ops = [],
      tmio_status = 0, tmio_resp = 0, tmio_address = 0, tmio_bus_width = 0, tmio_block_size = 0,
      card_irq_on = False, twl_timer_on = False, device_chip_id = 0, device_manufacturer = 0,
      device_host_interest_addr = 0, device_eeprom_addr = 0, device_eeprom_version = 0,
      wifi_card_bInitted = False, mbox_out_buffer = \<lambda>_. 0, mbox_buffer = \<lambda>_. 0,
      mbox_has_lookahead = False, mbox_lookahead = 0, device_num_channels = 0, device_cur_channel_idx = 0,
      channel_freqs = \<lambda>_. 0, num_rounds_scanned = 0, wmi_idk = 0, wmi_bIsReady = False,
      wmi_is_scanning = False, ap_connected = False, ap_connecting = False, has_sent_hs2 = False,
      has_sent_hs4 = False, device_ap_nonce = replicate 32 0, device_nonce = replicate 32 0,
      device_ap_mic = replicate 16 0,
      device_gtk_keyinfo = \<lparr>gtk_keytype = replicate 4 0, gtk_keyidx = 0, gtk_unk = 0, gtk_key = replicate 32 0\<rparr>,
      device_ptk = \<lparr>kck = replicate 16 0, kek = replicate 16 0, tk = replicate 16 0,
        mic_tx = replicate 8 0, mic_rx = replicate 8 0\<rparr>\<rparr>"

section \<open>Waiting\<close>

text \<open>The state after a number of readings. A wait ends with the first reading that is as expected, and
  ends only then.\<close>

fun rereads :: "(twl \<Rightarrow> 'v \<times> twl) \<Rightarrow> nat \<Rightarrow> twl \<Rightarrow> twl" where
  "rereads rd 0 t = t"
| "rereads rd (Suc n) t = rereads rd n (snd (rd t))"

lemma poll_unfold: "poll rd expected t = (if expected (fst (rd t)) then Some (snd (rd t)) else poll rd expected (snd (rd t)))"
  by (subst poll.simps) (simp add: case_prod_beta)

lemma poll_ends: "expected (fst (rd (rereads rd n t))) \<Longrightarrow> \<exists>u. poll rd expected t = Some u"
proof (induction n arbitrary: t)
  case 0
  then show ?case by (simp add: poll_unfold [of rd expected t])
next
  case (Suc n)
  then obtain u where "poll rd expected (snd (rd t)) = Some u" by auto
  then show ?case by (cases "expected (fst (rd t))") (auto simp: poll_unfold [of rd expected t])
qed

lemma poll_Some:
  "poll rd expected t = Some u \<Longrightarrow> \<exists>n. u = rereads rd (Suc n) t \<and> expected (fst (rd (rereads rd n t)))"
proof (induction rule: poll.raw_induct [rotated, consumes 1, case_names step])
  case (step pl rd expected t u)
  show ?case
  proof (cases "expected (fst (rd t))")
    case True
    then have "u = rereads rd (Suc 0) t" using step(2) by (simp add: case_prod_beta)
    then show ?thesis using True by (intro exI [of _ 0]) simp
  next
    case False
    then have "pl rd expected (snd (rd t)) = Some u" using step(2) by (simp add: case_prod_beta)
    from step(1) [OF this] obtain n where "u = rereads rd (Suc n) (snd (rd t))"
      "expected (fst (rd (rereads rd n (snd (rd t)))))" by blast
    then show ?thesis by (intro exI [of _ "Suc n"]) simp
  qed
qed

section \<open>What talking to the card changes\<close>

text \<open>Everything except the history of commands, the result of the last one and the send buffer; and the
  blocks that were written to the mailbox.\<close>

definition core :: "twl \<Rightarrow> twl" where
  "core t = t\<lparr>ops := [], tmio_status := 0, tmio_resp := 0, tmio_block_size := 0, mbox_out_buffer := \<lambda>_. 0\<rparr>"

fun sent_blocks :: "card_op list \<Rightarrow> u8 list list" where
  "sent_blocks [] = []"
| "sent_blocks (op # rest) = (case op of SdioWrite args data \<Rightarrow> [data] | _ \<Rightarrow> []) @ sent_blocks rest"

lemma sent_blocks_append [simp]: "sent_blocks (xs @ ys) = sent_blocks xs @ sent_blocks ys"
  by (induction xs) simp_all

named_theorems card_simps "accesses to registers of the card"

lemma send_command_simps [card_simps]:
  "core (wifi_card_send_command cmd args t) = core t"
  "mbox_out_buffer (wifi_card_send_command cmd args t) = mbox_out_buffer t"
  "sent_blocks (ops (wifi_card_send_command cmd args t)) = sent_blocks (ops t)"
  by (simp_all add: wifi_card_send_command_def issue_def core_def Let_def)

lemma func_byte_simps [card_simps]:
  "core (snd (wifi_card_write_func_byte f a v t)) = core t"
  "core (snd (wifi_card_read_func_byte f a t)) = core t"
  "mbox_out_buffer (snd (wifi_card_write_func_byte f a v t)) = mbox_out_buffer t"
  "mbox_out_buffer (snd (wifi_card_read_func_byte f a t)) = mbox_out_buffer t"
  "sent_blocks (ops (snd (wifi_card_write_func_byte f a v t))) = sent_blocks (ops t)"
  "sent_blocks (ops (snd (wifi_card_read_func_byte f a t))) = sent_blocks (ops t)"
  by (simp_all add: wifi_card_write_func_byte_def wifi_card_read_func_byte_def card_simps Let_def)

lemma write_func1_simps [card_simps]:
  "core (wifi_card_write_func0_u8 a b t) = core t" "core (wifi_card_write_func1_u8 a b t) = core t"
  "core (wifi_card_write_func1_u16 a h t) = core t" "core (wifi_card_write_func1_u32 a w t) = core t"
  "core (wifi_card_write_intern_word a w t) = core t"
  "sent_blocks (ops (wifi_card_write_func0_u8 a b t)) = sent_blocks (ops t)"
  "sent_blocks (ops (wifi_card_write_func1_u8 a b t)) = sent_blocks (ops t)"
  "sent_blocks (ops (wifi_card_write_func1_u16 a h t)) = sent_blocks (ops t)"
  "sent_blocks (ops (wifi_card_write_func1_u32 a w t)) = sent_blocks (ops t)"
  "sent_blocks (ops (wifi_card_write_intern_word a w t)) = sent_blocks (ops t)"
  by (simp_all add: wifi_card_write_func0_u8_def wifi_card_write_func1_u8_def wifi_card_write_func1_u16_def
      wifi_card_write_func1_u32_def wifi_card_write_intern_word_def card_simps)

lemma read_func1_simps [card_simps]:
  "core (snd (wifi_card_read_func0_u8 a t)) = core t" "core (snd (wifi_card_read_func1_u8 a t)) = core t"
  "core (snd (wifi_card_read_func1_u16 a t)) = core t" "core (snd (wifi_card_read_func1_u32 a t)) = core t"
  "core (snd (wifi_card_read_intern_word a t)) = core t"
  "sent_blocks (ops (snd (wifi_card_read_func0_u8 a t))) = sent_blocks (ops t)"
  "sent_blocks (ops (snd (wifi_card_read_func1_u8 a t))) = sent_blocks (ops t)"
  "sent_blocks (ops (snd (wifi_card_read_func1_u16 a t))) = sent_blocks (ops t)"
  "sent_blocks (ops (snd (wifi_card_read_func1_u32 a t))) = sent_blocks (ops t)"
  "sent_blocks (ops (snd (wifi_card_read_intern_word a t))) = sent_blocks (ops t)"
  by (simp_all add: wifi_card_read_func0_u8_def wifi_card_read_func1_u8_def wifi_card_read_func1_u16_def
      wifi_card_read_func1_u32_def wifi_card_read_intern_word_def card_simps case_prod_beta Let_def)

section \<open>Packets in the mailbox\<close>

lemma sendbytes_simps [card_simps]:
  "core (wifi_card_mbox0_sendbytes data t) = core t"
  "sent_blocks (ops (wifi_card_mbox0_sendbytes data t)) = sent_blocks (ops t) @ [data]"
  by (simp_all add: wifi_card_mbox0_sendbytes_def wifi_card_write_func1_block_def card_simps Let_def)
    (simp_all add: issue_def core_def)

lemma core_send [card_simps]:
  "core (wifi_card_mbox0_send_packet ty ack data idk t) = core t" "core (wmi_send_pkt cmd ack data t) = core t"
  "core (data_send_pkt data t) = core t" "core (data_send_pkt_idk data t) = core t" "core (htc_send_pkt cmd ack data t) = core t"
proof -
  have c: "core (t\<lparr>mbox_out_buffer := m\<rparr>) = core t" for m by (simp add: core_def)
  have s: "core (wifi_card_mbox0_send_packet ty ack data idk t) = core t" for ty ack data idk
    by (simp add: wifi_card_mbox0_send_packet_def card_simps c Let_def)
  show "core (wifi_card_mbox0_send_packet ty ack data idk t) = core t" "core (wmi_send_pkt cmd ack data t) = core t"
    "core (data_send_pkt data t) = core t" "core (data_send_pkt_idk data t) = core t" "core (htc_send_pkt cmd ack data t) = core t"
    by (simp_all only: data_send_pkt_def data_send_pkt_idk_def htc_send_pkt_def s)
      (simp add: wmi_send_pkt_def card_simps c Let_def)
qed

text \<open>A block as the receiver of a mailbox reads it: type, kind of acknowledgement, the last two bytes of the
  header, and as many bytes as the length field says.\<close>

definition mbox_packet :: "u8 list \<Rightarrow> u8 \<times> u8 \<times> u16 \<times> u8 list" where
  "mbox_packet b = (b ! 0, b ! 1, hword (b ! 4) (b ! 5), take (unat (hword (b ! 2) (b ! 3))) (drop 6 b))"

lemma hword_le16_nth: "hword (le16 v ! 0) (le16 v ! 1) = v"
  by (rule bit_word_eqI) (auto simp: hword_def le16_def bit_simps)

lemma round_up_80_bounds: "n \<le> round_up_80 n" "round_up_80 n mod 0x80 = 0" "n \<le> 0x600 \<Longrightarrow> round_up_80 n \<le> 0x600"
  by (auto simp: round_up_80_def)

lemma mbox_packet_read:
  assumes "\<forall>k < 6 + length data. m k = ([ty, ack] @ le16 len @ le16 idk @ data) ! k"
    "6 + length data \<le> n" "unat len = length data \<or> length data \<le> unat len \<and> n = 6 + length data"
  shows "mbox_packet (read_bytes m 0 n) = (ty, ack, idk, data)"
proof -
  let ?h = "[ty, ack] @ le16 len @ le16 idk @ data"
  have b: "read_bytes m 0 n ! k = ?h ! k" if "k < 6 + length data" for k
    using that assms(1,2) by simp
  have h: "?h ! 0 = ty" "?h ! 1 = ack" "?h ! 2 = le16 len ! 0" "?h ! 3 = le16 len ! 1"
    "?h ! 4 = le16 idk ! 0" "?h ! 5 = le16 idk ! 1" and hd: "?h ! (6 + k) = data ! k" for k
    by (simp_all add: le16_def numeral_nat)
  have t: "take (unat len) (drop 6 (read_bytes m 0 n)) = data"
  proof (rule nth_equalityI)
    fix k assume "k < length (take (unat len) (drop 6 (read_bytes m 0 n)))"
    then have k: "k < length data" "k < unat len" using assms(3) by auto
    then show "take (unat len) (drop 6 (read_bytes m 0 n)) ! k = data ! k"
      using b [of "6 + k"] hd [of k] assms(2) by simp
  qed (use assms(2,3) in auto)
  have "read_bytes m 0 n ! 0 = ty" "read_bytes m 0 n ! 1 = ack"
    "hword (read_bytes m 0 n ! 2) (read_bytes m 0 n ! 3) = len"
    "hword (read_bytes m 0 n ! 4) (read_bytes m 0 n ! 5) = idk"
    using b [of 0] b [of 1] b [of 2] b [of 3] b [of 4] b [of 5] by (simp_all only: h hword_le16_nth)
  then show ?thesis by (simp only: mbox_packet_def t)
qed

lemma take_min_length [simp]: "take (min (length xs) n) xs = take n xs"
  by (simp add: min_def)

lemma two_writes: "k < length h + length d \<Longrightarrow> write_bytes (write_bytes m 0 h) (length h) d k = (h @ d) ! k"
  by (auto simp: write_bytes_def nth_append)

definition sent_as :: "u8 \<Rightarrow> u8 \<Rightarrow> u16 \<Rightarrow> u8 list \<Rightarrow> u8 list \<Rightarrow> bool" where
  "sent_as ty ack idk data b \<longleftrightarrow> mbox_packet b = (ty, ack, idk, data) \<and> length b mod 0x80 = 0 \<and> length b \<le> 0x600"

text \<open>The block built for a header of six bytes and a payload that was cut to \<open>0x5FA\<close> bytes.\<close>

lemma block_sent_as:
  assumes "\<forall>k < 6 + length d. m k = ([ty, ack] @ le16 len @ le16 idk @ d) ! k"
    "length d = min (unat len) 0x5FA"
  shows "sent_as ty ack idk d (read_bytes m 0 (round_up_80 (6 + length d)))"
proof -
  have le: "6 + length d \<le> 0x600" using assms(2) by simp
  have "unat len = length d \<or> length d \<le> unat len \<and> round_up_80 (6 + length d) = 6 + length d"
    using assms(2) by (cases "unat len \<le> 0x5FA") (auto simp: round_up_80_def)
  then have "mbox_packet (read_bytes m 0 (round_up_80 (6 + length d))) = (ty, ack, idk, d)"
    by (rule mbox_packet_read [OF assms(1) round_up_80_bounds(1)])
  then show ?thesis using round_up_80_bounds(2,3) [of "6 + length d"] le by (simp add: sent_as_def)
qed

lemma send_packet_sent:
  assumes "length data < 0x10000"
  shows "\<exists>b. sent_blocks (ops (wifi_card_mbox0_send_packet ty ack data idk t)) = sent_blocks (ops t) @ [b] \<and>
    sent_as ty ack idk (take 0x5FA data) b"
proof -
  let ?len = "of_nat (length data) :: u16" and ?d = "take 0x5FA data"
  let ?h = "[ty, ack] @ le16 ?len @ le16 idk"
  let ?m = "write_bytes (write_bytes (mbox_out_buffer t) 0 ?h) 6 ?d"
  have u: "unat ?len = length data" using assms by (simp add: unat_of_nat)
  have h6: "length ?h = 6" by (simp add: le16_def)
  have n: "take (min (unat ?len) (MBOX_TMPBUF_SIZE - 6)) data = ?d" "min (unat ?len) (MBOX_TMPBUF_SIZE - 6) = length ?d"
    by (simp_all add: u min.commute min_def)
  have "\<forall>k < 6 + length ?d. ?m k = ([ty, ack] @ le16 ?len @ le16 idk @ ?d) ! k"
    using two_writes [of _ ?h ?d "mbox_out_buffer t"] h6 by simp
  then have b: "sent_as ty ack idk ?d (read_bytes ?m 0 (round_up_80 (6 + length ?d)))"
    by (rule block_sent_as) (simp add: u min.commute)
  have "sent_blocks (ops (wifi_card_mbox0_send_packet ty ack data idk t)) =
      sent_blocks (ops t) @ [read_bytes ?m 0 (round_up_80 (6 + length ?d))]"
    unfolding wifi_card_mbox0_send_packet_def Let_def n by (simp add: card_simps add.commute)
  then show ?thesis using b by blast
qed

lemma wmi_send_sent:
  assumes "length data < 0xFFFE"
  shows "\<exists>b. sent_blocks (ops (wmi_send_pkt cmd ack data t)) = sent_blocks (ops t) @ [b] \<and>
    sent_as MBOXPKT_WMI ack (wmi_idk t) (le16 cmd @ take 0x5F8 data) b"
proof -
  let ?len = "of_nat (length data) :: u16" and ?d = "take 0x5F8 data"
  let ?h = "[MBOXPKT_WMI, ack] @ le16 (?len + 2) @ le16 (wmi_idk t) @ le16 cmd"
  let ?m = "write_bytes (write_bytes (mbox_out_buffer t) 0 ?h) 8 ?d"
  have u: "unat ?len = length data" "unat (?len + 2) = length data + 2"
    using assms by (simp_all add: unat_of_nat unat_word_ariths)
  have h8: "length ?h = 8" by (simp add: le16_def)
  have n: "take (min (unat ?len) (MBOX_TMPBUF_SIZE - 8)) data = ?d" "min (unat ?len) (MBOX_TMPBUF_SIZE - 8) = length ?d"
    by (simp_all add: u min.commute min_def)
  have l2: "length (le16 cmd @ ?d) = 2 + length ?d" by (simp add: le16_def)
  have "\<forall>k < 6 + length (le16 cmd @ ?d). ?m k = ([MBOXPKT_WMI, ack] @ le16 (?len + 2) @ le16 (wmi_idk t) @ (le16 cmd @ ?d)) ! k"
    using two_writes [of _ ?h ?d "mbox_out_buffer t"] h8 unfolding l2 by simp
  then have "sent_as MBOXPKT_WMI ack (wmi_idk t) (le16 cmd @ ?d) (read_bytes ?m 0 (round_up_80 (6 + length (le16 cmd @ ?d))))"
    by (rule block_sent_as) (simp only: l2 u, simp)
  moreover have "6 + length (le16 cmd @ ?d) = length ?d + 8" by (simp add: le16_def)
  ultimately have b: "sent_as MBOXPKT_WMI ack (wmi_idk t) (le16 cmd @ ?d) (read_bytes ?m 0 (round_up_80 (length ?d + 8)))"
    by (simp only:)
  have "sent_blocks (ops (wmi_send_pkt cmd ack data t)) = sent_blocks (ops t) @ [read_bytes ?m 0 (round_up_80 (length ?d + 8))]"
    unfolding wmi_send_pkt_def Let_def n by (simp add: card_simps)
  then show ?thesis using b by blast
qed

text \<open>C25: Every packet of less than 64 KB given to the mailbox reaches the card as exactly one block transfer of
  whole 128-byte blocks that fits the send buffer, and its receiver reads from it the type, the
  acknowledgement flag, the two extra bytes and the payload that were given; only a payload beyond
  1530 bytes is cut.\<close>

theorem mailbox_packet_roundtrip:
  assumes "length data < 0x10000"
  shows "\<exists>b. sent_blocks (ops (wifi_card_mbox0_send_packet ty ack data idk t)) = sent_blocks (ops t) @ [b] \<and>
    mbox_packet b = (ty, ack, idk, if length data \<le> 1530 then data else take 1530 data) \<and>
    length b mod 128 = 0 \<and> length b \<le> MBOX_TMPBUF_SIZE"
  using send_packet_sent [OF assms, of ty ack idk t] by (auto simp: sent_as_def)

theorem mailbox_packet_roundtrip_witness:
  "\<exists>b. sent_blocks (ops (wifi_card_mbox0_send_packet 2 0 [1, 2, 3] 0x2008 twl_zero)) = sent_blocks (ops twl_zero) @ [b] \<and>
    mbox_packet b = (2, 0, 0x2008, [1, 2, 3])"
  using mailbox_packet_roundtrip [of "[1, 2, 3]" 2 0 "0x2008" twl_zero] by auto

end
