(* ===== verification/Arm7_Hw.thy ===== *)
theory Arm7_Hw
  imports Ieee_Defs Circ_Buffer Wifi_Rng Twl_Card
begin

text \<open>
  The state of the ARM7 side and the lowest layer of its code: \<^verbatim>\<open>arm7/ntr/registers.h\<close>,
  \<^verbatim>\<open>mac.c\<close>, \<^verbatim>\<open>flash.c\<close> and \<^verbatim>\<open>baseband.c\<close>. The 16-bit registers of the
  MAC are a function from their offset to their value, which holds what the code wrote last or
  what the hardware has put there in the meantime; the three registers whose writes act at once
  in a way the code depends on (\<^verbatim>\<open>W_IF\<close>, \<^verbatim>\<open>W_RXCNT\<close> and the
  auto-incremented address registers) are written with functions of their own. MAC RAM is a
  function from even byte offsets to halfwords, as it can only be accessed in 16-bit units.
  Waiting for the baseband and radio chips is not modelled: a wait ends.
\<close>

section \<open>Registers and offsets\<close>

definition W_MODE_RST :: nat where [simp]: "W_MODE_RST = 0x8004"
definition W_MODE_WEP :: nat where [simp]: "W_MODE_WEP = 0x8006"
definition W_TXSTATCNT :: nat where [simp]: "W_TXSTATCNT = 0x8008"
definition W_X_00A :: nat where [simp]: "W_X_00A = 0x800A"
definition W_IF :: nat where [simp]: "W_IF = 0x8010"
definition W_IE :: nat where [simp]: "W_IE = 0x8012"
definition W_MACADDR :: nat where [simp]: "W_MACADDR = 0x8018"
definition W_BSSID :: nat where [simp]: "W_BSSID = 0x8020"
definition W_AID_LOW :: nat where [simp]: "W_AID_LOW = 0x8028"
definition W_AID_FULL :: nat where [simp]: "W_AID_FULL = 0x802A"
definition W_TX_RETRYLIMIT :: nat where [simp]: "W_TX_RETRYLIMIT = 0x802C"
definition W_RXCNT :: nat where [simp]: "W_RXCNT = 0x8030"
definition W_WEP_CNT :: nat where [simp]: "W_WEP_CNT = 0x8032"
definition W_POWER_US :: nat where [simp]: "W_POWER_US = 0x8036"
definition W_POWER_TX :: nat where [simp]: "W_POWER_TX = 0x8038"
definition W_POWERSTATE :: nat where [simp]: "W_POWERSTATE = 0x803C"
definition W_POWER_048 :: nat where [simp]: "W_POWER_048 = 0x8048"
definition W_RXBUF_BEGIN :: nat where [simp]: "W_RXBUF_BEGIN = 0x8050"
definition W_RXBUF_END :: nat where [simp]: "W_RXBUF_END = 0x8052"
definition W_RXBUF_WRCSR :: nat where [simp]: "W_RXBUF_WRCSR = 0x8054"
definition W_RXBUF_WR_ADDR :: nat where [simp]: "W_RXBUF_WR_ADDR = 0x8056"
definition W_RXBUF_RD_ADDR :: nat where [simp]: "W_RXBUF_RD_ADDR = 0x8058"
definition W_RXBUF_READCSR :: nat where [simp]: "W_RXBUF_READCSR = 0x805A"
definition W_RXBUF_GAPDISP :: nat where [simp]: "W_RXBUF_GAPDISP = 0x8064"
definition W_TXBUF_WR_ADDR :: nat where [simp]: "W_TXBUF_WR_ADDR = 0x8068"
definition W_TXBUF_GAPDISP :: nat where [simp]: "W_TXBUF_GAPDISP = 0x8076"
definition W_TXBUF_BEACON :: nat where [simp]: "W_TXBUF_BEACON = 0x8080"
definition W_TXBUF_TIM :: nat where [simp]: "W_TXBUF_TIM = 0x8084"
definition W_LISTENCOUNT :: nat where [simp]: "W_LISTENCOUNT = 0x8088"
definition W_BEACONINT :: nat where [simp]: "W_BEACONINT = 0x808C"
definition W_LISTENINT :: nat where [simp]: "W_LISTENINT = 0x808E"
definition W_TXBUF_CMD :: nat where [simp]: "W_TXBUF_CMD = 0x8090"
definition W_TXBUF_REPLY1 :: nat where [simp]: "W_TXBUF_REPLY1 = 0x8094"
definition W_TXBUF_REPLY2 :: nat where [simp]: "W_TXBUF_REPLY2 = 0x8098"
definition W_TXBUF_LOC3 :: nat where [simp]: "W_TXBUF_LOC3 = 0x80A8"
definition W_TXREQ_RESET :: nat where [simp]: "W_TXREQ_RESET = 0x80AC"
definition W_TXREQ_SET :: nat where [simp]: "W_TXREQ_SET = 0x80AE"
definition W_TXBUF_RESET :: nat where [simp]: "W_TXBUF_RESET = 0x80B4"
definition W_TXBUSY :: nat where [simp]: "W_TXBUSY = 0x80B6"
definition W_PREAMBLE :: nat where [simp]: "W_PREAMBLE = 0x80BC"
definition W_CMD_TOTALTIME :: nat where [simp]: "W_CMD_TOTALTIME = 0x80C0"
definition W_CMD_REPLYTIME :: nat where [simp]: "W_CMD_REPLYTIME = 0x80C4"
definition W_RXFILTER :: nat where [simp]: "W_RXFILTER = 0x80D0"
definition W_CONFIG_0D4 :: nat where [simp]: "W_CONFIG_0D4 = 0x80D4"
definition W_CONFIG_0D8 :: nat where [simp]: "W_CONFIG_0D8 = 0x80D8"
definition W_RX_LEN_CROP :: nat where [simp]: "W_RX_LEN_CROP = 0x80DA"
definition W_RXFILTER2 :: nat where [simp]: "W_RXFILTER2 = 0x80E0"
definition W_US_COUNTCNT :: nat where [simp]: "W_US_COUNTCNT = 0x80E8"
definition W_US_COMPARECNT :: nat where [simp]: "W_US_COMPARECNT = 0x80EA"
definition W_CONFIG_0EC :: nat where [simp]: "W_CONFIG_0EC = 0x80EC"
definition W_CMD_COUNTCNT :: nat where [simp]: "W_CMD_COUNTCNT = 0x80EE"
definition W_US_COUNT1 :: nat where [simp]: "W_US_COUNT1 = 0x80FA"
definition W_PRE_BEACON :: nat where [simp]: "W_PRE_BEACON = 0x8110"
definition W_CMD_COUNT :: nat where [simp]: "W_CMD_COUNT = 0x8118"
definition W_CONFIG_120 :: nat where [simp]: "W_CONFIG_120 = 0x8120"
definition W_CONFIG_122 :: nat where [simp]: "W_CONFIG_122 = 0x8122"
definition W_CONFIG_124 :: nat where [simp]: "W_CONFIG_124 = 0x8124"
definition W_CONFIG_128 :: nat where [simp]: "W_CONFIG_128 = 0x8128"
definition W_CONFIG_130 :: nat where [simp]: "W_CONFIG_130 = 0x8130"
definition W_CONFIG_132 :: nat where [simp]: "W_CONFIG_132 = 0x8132"
definition W_POST_BEACON :: nat where [simp]: "W_POST_BEACON = 0x8134"
definition W_CONFIG_140 :: nat where [simp]: "W_CONFIG_140 = 0x8140"
definition W_CONFIG_142 :: nat where [simp]: "W_CONFIG_142 = 0x8142"
definition W_CONFIG_144 :: nat where [simp]: "W_CONFIG_144 = 0x8144"
definition W_CONFIG_146 :: nat where [simp]: "W_CONFIG_146 = 0x8146"
definition W_CONFIG_148 :: nat where [simp]: "W_CONFIG_148 = 0x8148"
definition W_CONFIG_14A :: nat where [simp]: "W_CONFIG_14A = 0x814A"
definition W_CONFIG_14C :: nat where [simp]: "W_CONFIG_14C = 0x814C"
definition W_CONFIG_150 :: nat where [simp]: "W_CONFIG_150 = 0x8150"
definition W_CONFIG_154 :: nat where [simp]: "W_CONFIG_154 = 0x8154"
definition W_BB_CNT :: nat where [simp]: "W_BB_CNT = 0x8158"
definition W_BB_WRITE :: nat where [simp]: "W_BB_WRITE = 0x815A"
definition W_BB_MODE :: nat where [simp]: "W_BB_MODE = 0x8160"
definition W_BB_POWER :: nat where [simp]: "W_BB_POWER = 0x8168"
definition W_RF_DATA2 :: nat where [simp]: "W_RF_DATA2 = 0x817C"
definition W_RF_DATA1 :: nat where [simp]: "W_RF_DATA1 = 0x817E"
definition W_RF_CNT :: nat where [simp]: "W_RF_CNT = 0x8184"
definition W_X_1A0 :: nat where [simp]: "W_X_1A0 = 0x81A0"
definition W_X_1A2 :: nat where [simp]: "W_X_1A2 = 0x81A2"
definition W_RXSTAT_INC_IE :: nat where [simp]: "W_RXSTAT_INC_IE = 0x81AA"
definition W_RXSTAT_OVF_IE :: nat where [simp]: "W_RXSTAT_OVF_IE = 0x81AE"
definition W_CONFIG_254 :: nat where [simp]: "W_CONFIG_254 = 0x8254"
definition W_WEPKEY_0 :: nat where [simp]: "W_WEPKEY_0 = 0x1F80"
definition W_WEPKEY_1 :: nat where [simp]: "W_WEPKEY_1 = 0x1FA0"
definition W_WEPKEY_2 :: nat where [simp]: "W_WEPKEY_2 = 0x1FC0"
definition W_WEPKEY_3 :: nat where [simp]: "W_WEPKEY_3 = 0x1FE0"
definition MODE_WEP_SLEEP_OFF :: u16 where [simp]: "MODE_WEP_SLEEP_OFF = 2"
definition MODE_WEP_SLEEP_MASK :: u16 where [simp]: "MODE_WEP_SLEEP_MASK = 7"
definition MODE_WEP_KEYLEN_SHIFT :: nat where [simp]: "MODE_WEP_KEYLEN_SHIFT = 3"
definition MODE_WEP_KEYLEN_MASK :: u16 where [simp]: "MODE_WEP_KEYLEN_MASK = 0x0038"
definition TXSTATCNT_IRQ_MP_ACK :: u16 where [simp]: "TXSTATCNT_IRQ_MP_ACK = 0x2000"
definition IRQ_RX_COMPLETE :: u16 where [simp]: "IRQ_RX_COMPLETE = 1"
definition IRQ_TX_COMPLETE :: u16 where [simp]: "IRQ_TX_COMPLETE = 2"
definition IRQ_RX_EVENT_INCREMENT :: u16 where [simp]: "IRQ_RX_EVENT_INCREMENT = 4"
definition IRQ_TX_EVENT_INCREMENT :: u16 where [simp]: "IRQ_TX_EVENT_INCREMENT = 8"
definition IRQ_RX_EVENT_HALF_OVERFLOW :: u16 where [simp]: "IRQ_RX_EVENT_HALF_OVERFLOW = 0x0010"
definition IRQ_TX_ERROR_HALF_OVERFLOW :: u16 where [simp]: "IRQ_TX_ERROR_HALF_OVERFLOW = 0x0020"
definition IRQ_RX_START :: u16 where [simp]: "IRQ_RX_START = 0x0040"
definition IRQ_TX_START :: u16 where [simp]: "IRQ_TX_START = 0x0080"
definition IRQ_TXBUF_COUNT_END :: u16 where [simp]: "IRQ_TXBUF_COUNT_END = 0x0100"
definition IRQ_RXBUF_COUNT_END :: u16 where [simp]: "IRQ_RXBUF_COUNT_END = 0x0200"
definition IRQ_UNUSED :: u16 where [simp]: "IRQ_UNUSED = 0x0400"
definition IRQ_RF_WAKEUP :: u16 where [simp]: "IRQ_RF_WAKEUP = 0x0800"
definition IRQ_MULTIPLAY_CMD_DONE :: u16 where [simp]: "IRQ_MULTIPLAY_CMD_DONE = 0x1000"
definition IRQ_POST_BEACON_TIMESLOT :: u16 where [simp]: "IRQ_POST_BEACON_TIMESLOT = 0x2000"
definition IRQ_BEACON_TIMESLOT :: u16 where [simp]: "IRQ_BEACON_TIMESLOT = 0x4000"
definition IRQ_PRE_BEACON_TIMESLOT :: u16 where [simp]: "IRQ_PRE_BEACON_TIMESLOT = 0x8000"
definition IRQ_ALL_BITS :: u16 where [simp]: "IRQ_ALL_BITS = 0xFFFF"
definition RXCNT_EMPTY_RXBUF :: u16 where [simp]: "RXCNT_EMPTY_RXBUF = 1"
definition RXCNT_ENABLE_RX :: u16 where [simp]: "RXCNT_ENABLE_RX = 0x8000"
definition WEP_CNT_ENABLE :: u16 where [simp]: "WEP_CNT_ENABLE = 0x8000"
definition WEP_CNT_DISABLE :: u16 where [simp]: "WEP_CNT_DISABLE = 0"
definition TXBUF_BEACON_ENABLE :: u16 where [simp]: "TXBUF_BEACON_ENABLE = 0x8000"
definition TXBUF_BEACON_DISABLE :: u16 where [simp]: "TXBUF_BEACON_DISABLE = 0"
definition TXBUF_CMD_ENABLE :: u16 where [simp]: "TXBUF_CMD_ENABLE = 0x8000"
definition TXBUF_REPLY_ENABLE :: u16 where [simp]: "TXBUF_REPLY_ENABLE = 0x8000"
definition TXBUF_LOCN_ENABLE :: u16 where [simp]: "TXBUF_LOCN_ENABLE = 0x8000"
definition TXBIT_LOC1 :: u16 where [simp]: "TXBIT_LOC1 = 1"
definition TXBIT_CMD :: u16 where [simp]: "TXBIT_CMD = 2"
definition TXBIT_LOC2 :: u16 where [simp]: "TXBIT_LOC2 = 4"
definition TXBIT_LOC3 :: u16 where [simp]: "TXBIT_LOC3 = 8"
definition TXBIT_ALL :: u16 where [simp]: "TXBIT_ALL = 0xFFFF"
definition RXFILTER_MGMT_BEACON_OTHER_BSSID :: u16 where [simp]: "RXFILTER_MGMT_BEACON_OTHER_BSSID = 1"
definition RXFILTER2_IGNORE_STA_STA :: u16 where [simp]: "RXFILTER2_IGNORE_STA_STA = 1"
definition RXFILTER2_IGNORE_STA_DS :: u16 where [simp]: "RXFILTER2_IGNORE_STA_DS = 2"
definition RXFILTER2_IGNORE_DS_STA :: u16 where [simp]: "RXFILTER2_IGNORE_DS_STA = 4"
definition RXFILTER2_IGNORE_DS_DS :: u16 where [simp]: "RXFILTER2_IGNORE_DS_DS = 8"
definition OFF_RXSTAT_1B0 :: nat where [simp]: "OFF_RXSTAT_1B0 = 0x81B0"
definition OFF_RXSTAT_1B2 :: nat where [simp]: "OFF_RXSTAT_1B2 = 0x81B2"
definition OFF_RXSTAT_1B4 :: nat where [simp]: "OFF_RXSTAT_1B4 = 0x81B4"
definition OFF_RXSTAT_1B6 :: nat where [simp]: "OFF_RXSTAT_1B6 = 0x81B6"
definition OFF_RXSTAT_1B8 :: nat where [simp]: "OFF_RXSTAT_1B8 = 0x81B8"
definition OFF_RXSTAT_1BA :: nat where [simp]: "OFF_RXSTAT_1BA = 0x81BA"
definition OFF_RXSTAT_1BC :: nat where [simp]: "OFF_RXSTAT_1BC = 0x81BC"
definition OFF_RXSTAT_1BE :: nat where [simp]: "OFF_RXSTAT_1BE = 0x81BE"
definition OFF_TX_ERR_COUNT :: nat where [simp]: "OFF_TX_ERR_COUNT = 0x81C0"
definition OFF_RX_COUNT :: nat where [simp]: "OFF_RX_COUNT = 0x81C4"
definition OFF_CMD_STAT_1D0 :: nat where [simp]: "OFF_CMD_STAT_1D0 = 0x81D0"
definition OFF_CMD_STAT_1D2 :: nat where [simp]: "OFF_CMD_STAT_1D2 = 0x81D2"
definition OFF_CMD_STAT_1D4 :: nat where [simp]: "OFF_CMD_STAT_1D4 = 0x81D4"
definition OFF_CMD_STAT_1D6 :: nat where [simp]: "OFF_CMD_STAT_1D6 = 0x81D6"
definition OFF_CMD_STAT_1D8 :: nat where [simp]: "OFF_CMD_STAT_1D8 = 0x81D8"
definition OFF_CMD_STAT_1DA :: nat where [simp]: "OFF_CMD_STAT_1DA = 0x81DA"
definition OFF_CMD_STAT_1DC :: nat where [simp]: "OFF_CMD_STAT_1DC = 0x81DC"
definition OFF_CMD_STAT_1DE :: nat where [simp]: "OFF_CMD_STAT_1DE = 0x81DE"
definition HDR_TX_STATUS :: nat where [simp]: "HDR_TX_STATUS = 0"
definition HDR_TX_CLIENT_BITS :: nat where [simp]: "HDR_TX_CLIENT_BITS = 2"
definition HDR_TX_TRANSFER_RATE :: nat where [simp]: "HDR_TX_TRANSFER_RATE = 8"
definition HDR_TX_IEEE_FRAME_SIZE :: nat where [simp]: "HDR_TX_IEEE_FRAME_SIZE = 0xA"
definition HDR_RX_IEEE_FRAME_SIZE :: nat where [simp]: "HDR_RX_IEEE_FRAME_SIZE = 8"
definition MAC_TXBUF_START_OFFSET :: nat where [simp]: "MAC_TXBUF_START_OFFSET = 0"
definition MAC_TXBUF_END_OFFSET :: nat where [simp]: "MAC_TXBUF_END_OFFSET = 0xA00"
definition MAC_CLIENT_RX1_START_OFFSET :: nat where [simp]: "MAC_CLIENT_RX1_START_OFFSET = 0xA00"
definition MAC_CLIENT_RX1_END_OFFSET :: nat where [simp]: "MAC_CLIENT_RX1_END_OFFSET = 0xB00"
definition MAC_CLIENT_RX2_START_OFFSET :: nat where [simp]: "MAC_CLIENT_RX2_START_OFFSET = 0xB00"
definition MAC_CLIENT_RX2_END_OFFSET :: nat where [simp]: "MAC_CLIENT_RX2_END_OFFSET = 0xC00"
definition MAC_BEACON_START_OFFSET :: nat where [simp]: "MAC_BEACON_START_OFFSET = 0xA00"
definition MAC_BEACON_END_OFFSET :: nat where [simp]: "MAC_BEACON_END_OFFSET = 0xC00"
definition MAC_RXBUF_START_OFFSET :: nat where [simp]: "MAC_RXBUF_START_OFFSET = 0xC00"
definition MAC_RXBUF_START_ADDRESS :: nat where [simp]: "MAC_RXBUF_START_ADDRESS = 0x4C00"
definition MAC_RXBUF_END_ADDRESS :: nat where [simp]: "MAC_RXBUF_END_ADDRESS = 0x5F60"
definition HDR_MGT_DA :: nat where [simp]: "HDR_MGT_DA = 4"
definition HDR_MGT_SA :: nat where [simp]: "HDR_MGT_SA = 10"
definition HDR_MGT_BSSID :: nat where [simp]: "HDR_MGT_BSSID = 16"
definition HDR_DATA_FRAME_CONTROL :: nat where [simp]: "HDR_DATA_FRAME_CONTROL = 0"
definition HDR_DATA_DURATION :: nat where [simp]: "HDR_DATA_DURATION = 2"
definition F_MAC_ADDRESS :: nat where [simp]: "F_MAC_ADDRESS = 0x36"
definition F_RF_CHIP_TYPE :: nat where [simp]: "F_RF_CHIP_TYPE = 0x40"
definition F_RF_BITS_PER_ENTRY :: nat where [simp]: "F_RF_BITS_PER_ENTRY = 0x41"
definition F_RF_NUM_OF_ENTRIES :: nat where [simp]: "F_RF_NUM_OF_ENTRIES = 0x42"
definition F_WIFI_CFG_044 :: nat where [simp]: "F_WIFI_CFG_044 = 0x44"
definition F_WIFI_CFG_046 :: nat where [simp]: "F_WIFI_CFG_046 = 0x46"
definition F_WIFI_CFG_048 :: nat where [simp]: "F_WIFI_CFG_048 = 0x48"
definition F_WIFI_CFG_04A :: nat where [simp]: "F_WIFI_CFG_04A = 0x4A"
definition F_WIFI_CFG_04C :: nat where [simp]: "F_WIFI_CFG_04C = 0x4C"
definition F_WIFI_CFG_04E :: nat where [simp]: "F_WIFI_CFG_04E = 0x4E"
definition F_WIFI_CFG_050 :: nat where [simp]: "F_WIFI_CFG_050 = 0x50"
definition F_WIFI_CFG_052 :: nat where [simp]: "F_WIFI_CFG_052 = 0x52"
definition F_WIFI_CFG_054 :: nat where [simp]: "F_WIFI_CFG_054 = 0x54"
definition F_WIFI_CFG_056 :: nat where [simp]: "F_WIFI_CFG_056 = 0x56"
definition F_WIFI_CFG_058 :: nat where [simp]: "F_WIFI_CFG_058 = 0x58"
definition F_WIFI_CFG_05A :: nat where [simp]: "F_WIFI_CFG_05A = 0x5A"
definition F_WIFI_CFG_POWER_TX :: nat where [simp]: "F_WIFI_CFG_POWER_TX = 0x5C"
definition F_WIFI_CFG_05E :: nat where [simp]: "F_WIFI_CFG_05E = 0x5E"
definition F_WIFI_CFG_060 :: nat where [simp]: "F_WIFI_CFG_060 = 0x60"
definition F_WIFI_CFG_062 :: nat where [simp]: "F_WIFI_CFG_062 = 0x62"
definition F_BB_CFG :: nat where [simp]: "F_BB_CFG = 0x64"
definition F_T2_RF_CHANNEL_CFG1 :: nat where [simp]: "F_T2_RF_CHANNEL_CFG1 = 0xF2"
definition F_T2_BB_CHANNEL_CFG :: nat where [simp]: "F_T2_BB_CHANNEL_CFG = 0x146"
definition F_T2_RF_CHANNEL_CFG2 :: nat where [simp]: "F_T2_RF_CHANNEL_CFG2 = 0x154"
definition REG_MM3218_CCA :: nat where [simp]: "REG_MM3218_CCA = 0x13"
definition REG_MM3218_EXT_GAIN :: nat where [simp]: "REG_MM3218_EXT_GAIN = 0x1E"
definition REG_MM3218_ENERGY_DETECTION_THRESHOLD :: nat where [simp]: "REG_MM3218_ENERGY_DETECTION_THRESHOLD = 0x35"
definition W_RANDOM :: nat where [simp]: "W_RANDOM = 0x8044"
definition W_RXBUF_GAP :: nat where [simp]: "W_RXBUF_GAP = 0x8062"
definition W_RF_PINS :: nat where [simp]: "W_RF_PINS = 0x819C"
definition F_UNKNOWN_043 :: nat where [simp]: "F_UNKNOWN_043 = 0x43"

section \<open>State\<close>

text \<open>
  The static variables of the ARM7 files, the memories of the hardware, the structure shared with
  the ARM9 (\<open>WifiData\<close> is unset before \<^verbatim>\<open>Wifi_Init\<close>), the number of
  \<^verbatim>\<open>WIFI_SYNC\<close> messages sent to the ARM9, and \<open>stack7\<close>, the bytes that
  uninitialised local arrays happen to hold. The state of the driver of the DSi card is the record
  of \<^verbatim>\<open>Twl_Card\<close>.
\<close>

record arm7 =
  wd7 :: Wifi_MainStruct
  WifiData_set7 :: bool
  regs :: "nat \<Rightarrow> u16"
  macmem :: "nat \<Rightarrow> u16"
  WifiFlashData :: "nat \<Rightarrow> u8"
  bb_regs :: "nat \<Rightarrow> u8"
  rf_writes :: "u32 list"
  chdata_save5 :: u32
  beacon_channel_addr :: u16
  dswifi_information_addr :: u16
  wifi_tx_queue :: "nat \<Rightarrow> u16"
  wifi_tx_queue_len :: u16
  wifi_keepalive_time :: nat
  wifi_led_state :: nat
  led_blinks :: "nat list"
  wifi_scan_index :: nat
  sync_sent7 :: nat
  wifi_irq_enabled :: bool
  twl :: twl
  stack7 :: mem8

definition wd7_upd :: "(Wifi_MainStruct \<Rightarrow> Wifi_MainStruct) \<Rightarrow> arm7 \<Rightarrow> arm7" where
  "wd7_upd f s = s\<lparr>wd7 := f (wd7 s)\<rparr>"

definition set_reg :: "nat \<Rightarrow> u16 \<Rightarrow> arm7 \<Rightarrow> arm7" where
  "set_reg r v s = s\<lparr>regs := (regs s)(r := v)\<rparr>"

text \<open>Writing ones to \<^verbatim>\<open>W_IF\<close> acknowledges those interrupts.\<close>

definition ack_W_IF :: "u16 \<Rightarrow> arm7 \<Rightarrow> arm7" where
  "ack_W_IF v s = set_reg W_IF (regs s W_IF AND NOT v) s"

text \<open>Bit 0 of \<^verbatim>\<open>W_RXCNT\<close> empties the RX buffer: the write cursor is reloaded.\<close>

definition set_W_RXCNT :: "u16 \<Rightarrow> arm7 \<Rightarrow> arm7" where
  "set_W_RXCNT v s =
     (let s = set_reg W_RXCNT v s
      in if v AND RXCNT_EMPTY_RXBUF \<noteq> 0 then set_reg W_RXBUF_WRCSR (regs s W_RXBUF_WR_ADDR) s else s)"

definition set_mac :: "nat \<Rightarrow> u16 \<Rightarrow> arm7 \<Rightarrow> arm7" where
  "set_mac a v s = s\<lparr>macmem := (macmem s)(a := v)\<rparr>"

text \<open>Three consecutive registers take a MAC address.\<close>

definition set_reg_mac :: "nat \<Rightarrow> mac \<Rightarrow> arm7 \<Rightarrow> arm7" where
  "set_reg_mac r m s = set_reg (r + 4) (hword (m ! 4) (m ! 5))
     (set_reg (r + 2) (hword (m ! 2) (m ! 3)) (set_reg r (hword (m ! 0) (m ! 1)) s))"

section \<open>MAC RAM\<close>

text \<open>The bounds of the RX ring as the code reads them from the registers.\<close>

definition rx_end :: "arm7 \<Rightarrow> nat" where
  "rx_end s = unat (regs s W_RXBUF_END AND 0x1FFE)"

definition rx_begin :: "arm7 \<Rightarrow> nat" where
  "rx_begin s = unat (regs s W_RXBUF_BEGIN AND 0x1FFE)"

text \<open>
  The correction of an address at or past the end of the ring. The code subtracts the size of the
  ring; as the address is not below the end, that is the sum written here.
\<close>

definition rx_wrap :: "arm7 \<Rightarrow> nat \<Rightarrow> nat" where
  "rx_wrap s a = (if rx_end s \<le> a then a - rx_end s + rx_begin s else a)"

definition Wifi_MACReadHWord :: "nat \<Rightarrow> nat \<Rightarrow> arm7 \<Rightarrow> u16" where
  "Wifi_MACReadHWord MAC_Base MAC_Offset s = macmem s (rx_wrap s (MAC_Base + MAC_Offset))"

text \<open>
  Reading \<^verbatim>\<open>W_RXBUF_RD_DATA\<close> returns the halfword at \<^verbatim>\<open>W_RXBUF_RD_ADDR\<close> and
  advances that address, which restarts at \<^verbatim>\<open>W_RXBUF_BEGIN\<close> when it reaches
  \<^verbatim>\<open>W_RXBUF_END\<close>.
\<close>

definition rd_next :: "arm7 \<Rightarrow> nat \<Rightarrow> nat" where
  "rd_next s a = (if (a + 2) mod 0x2000 = rx_end s then rx_begin s else (a + 2) mod 0x2000)"

fun rd_data :: "arm7 \<Rightarrow> nat \<Rightarrow> nat \<Rightarrow> u16 list" where
  "rd_data s 0 a = []"
| "rd_data s (Suc n) a = macmem s a # rd_data s n (rd_next s a)"

definition halfwords :: "nat \<Rightarrow> nat" where
  "halfwords len = (len + 1) div 2"

definition Wifi_MACRead :: "nat \<Rightarrow> nat \<Rightarrow> nat \<Rightarrow> arm7 \<Rightarrow> u16 list \<times> arm7" where
  "Wifi_MACRead MAC_Base MAC_Offset len s =
     (let base = rx_wrap s (MAC_Base + MAC_Offset)
      in (rd_data s (halfwords len) base,
          set_reg W_RXBUF_RD_ADDR (of_nat ((rd_next s ^^ halfwords len) base)) s))"

text \<open>The bytes that a list of halfwords occupies in the destination.\<close>

definition hword_bytes :: "u16 list \<Rightarrow> u8 list" where
  "hword_bytes hs = concat (map le16 hs)"

fun wr_data :: "nat \<Rightarrow> u16 list \<Rightarrow> (nat \<Rightarrow> u16) \<Rightarrow> (nat \<Rightarrow> u16)" where
  "wr_data a [] m = m"
| "wr_data a (h # hs) m = wr_data (a + 2) hs (m(a := h))"

text \<open>The source is given as the function from index to halfword that the pointer denotes.\<close>

definition Wifi_MACWrite :: "(nat \<Rightarrow> u16) \<Rightarrow> nat \<Rightarrow> nat \<Rightarrow> arm7 \<Rightarrow> arm7" where
  "Wifi_MACWrite src MAC_Base len s =
     (if MAC_Base + len > 0x2000 then s
      else (set_reg W_TXBUF_WR_ADDR (of_nat (MAC_Base + 2 * halfwords len)) s)
             \<lparr>macmem := wr_data MAC_Base (map src [0..<halfwords len]) (macmem s)\<rparr>)"

definition Wifi_MacWriteByte :: "nat \<Rightarrow> u16 \<Rightarrow> arm7 \<Rightarrow> arm7" where
  "Wifi_MacWriteByte address x s =
     (let addr = address div 2 * 2
      in if odd address then set_mac addr ((macmem s addr AND 0x00FF) OR push_bit 8 x) s
         else set_mac addr ((macmem s addr AND 0xFF00) OR x) s)"

definition Wifi_MacReadByte :: "nat \<Rightarrow> arm7 \<Rightarrow> u16" where
  "Wifi_MacReadByte address s =
     (let addr = address div 2 * 2
      in if odd address then drop_bit 8 (macmem s addr) else macmem s addr AND 0xFF)"

section \<open>Firmware flash\<close>

definition Wifi_FlashInitData :: "(nat \<Rightarrow> u8) \<Rightarrow> arm7 \<Rightarrow> arm7" where
  "Wifi_FlashInitData firmware s = s\<lparr>WifiFlashData := \<lambda>i. if i < 512 then firmware i else WifiFlashData s i\<rparr>"

definition Wifi_FlashReadByte :: "nat \<Rightarrow> arm7 \<Rightarrow> u8" where
  "Wifi_FlashReadByte address s = (if address > 511 then 0 else WifiFlashData s address)"

text \<open>Shifting a 32-bit value by 32 or more is not defined in C; callers read at most four bytes.\<close>

fun flash_or :: "nat \<Rightarrow> nat \<Rightarrow> nat \<Rightarrow> arm7 \<Rightarrow> u32 \<Rightarrow> u32" where
  "flash_or 0 i address s dataout = dataout"
| "flash_or (Suc n) i address s dataout =
     flash_or n (i + 1) address s (dataout OR push_bit (i * 8) (ucast (Wifi_FlashReadByte (i + address) s)))"

definition Wifi_FlashReadBytes :: "nat \<Rightarrow> nat \<Rightarrow> arm7 \<Rightarrow> u32" where
  "Wifi_FlashReadBytes address numbytes s = flash_or numbytes 0 address s 0"

definition Wifi_FlashReadHWord :: "nat \<Rightarrow> arm7 \<Rightarrow> u16" where
  "Wifi_FlashReadHWord address s = ucast (Wifi_FlashReadBytes address 2 s)"

section \<open>Baseband chip\<close>

definition Wifi_BBRead :: "nat \<Rightarrow> arm7 \<Rightarrow> u8 \<times> arm7" where
  "Wifi_BBRead addr s = (bb_regs s addr, set_reg W_BB_CNT (of_nat addr OR 0x6000) s)"

definition Wifi_BBWrite :: "nat \<Rightarrow> u8 \<Rightarrow> arm7 \<Rightarrow> arm7" where
  "Wifi_BBWrite addr x s =
     (set_reg W_BB_CNT (of_nat addr OR 0x5000) (set_reg W_BB_WRITE (ucast x) s))
       \<lparr>bb_regs := (bb_regs s)(addr := x)\<rparr>"

definition Wifi_BBInit :: "arm7 \<Rightarrow> arm7" where
  "Wifi_BBInit s =
     fold (\<lambda>i s. Wifi_BBWrite i (Wifi_FlashReadByte (F_BB_CFG + i) s) s) [0..<0x69]
       (set_reg W_BB_MODE 0x0100 s)"

definition Wifi_BBPowerOn :: "arm7 \<Rightarrow> arm7" where
  "Wifi_BBPowerOn s = set_reg W_BB_POWER 0 s"

definition Wifi_BBPowerOff :: "arm7 \<Rightarrow> arm7" where
  "Wifi_BBPowerOff s = set_reg W_BB_POWER 0x800D s"

section \<open>Bytes of MAC RAM\<close>

text \<open>The byte view of MAC RAM that the hardware has when it sends or receives a frame.\<close>

definition mac_byte :: "arm7 \<Rightarrow> nat \<Rightarrow> u8" where
  "mac_byte s a = ucast (Wifi_MacReadByte a s)"

definition mac_bytes :: "arm7 \<Rightarrow> nat \<Rightarrow> nat \<Rightarrow> u8 list" where
  "mac_bytes s a n = map (mac_byte s) [a..<a + n]"

lemma unat_less_256: "unat (b :: u8) < 256"
  using unsigned_less [of b, where ?'a = nat] by simp

lemma bit_0xFF: "bit (0xFF :: int) n \<longleftrightarrow> n < 8"
proof -
  have "bit (mask 8 :: int) n \<longleftrightarrow> n < 8" by (auto simp: bit_mask_iff)
  then show ?thesis by (simp add: mask_numeral)
qed

lemma bit_0xFF00: "bit (0xFF00 :: int) n \<longleftrightarrow> 8 \<le> n \<and> n < 16"
proof -
  have "(0xFF00 :: int) = push_bit 8 0xFF" by (simp add: push_bit_eq_mult)
  then show ?thesis by (simp only: bit_push_bit_iff bit_0xFF) auto
qed

lemma bit_u8_high: "\<not> bit (w :: u8) (8 + n)"
  using bit_imp_le_length [of w "8 + n"] by auto

lemma bit_u16_high: "bit (w :: u16) (8 + n) \<Longrightarrow> n < 8"
  using bit_imp_le_length [of w "8 + n"] by auto

lemmas bit_ops = bit_and_iff bit_or_iff bit_unsigned_iff bit_drop_bit_eq bit_push_bit_iff bit_0xFF bit_0xFF00

lemma mac_read_byte_cases:
  "Wifi_MacReadByte (2 * i) s = macmem s (2 * i) AND 0xFF"
  "Wifi_MacReadByte (2 * i + 1) s = drop_bit 8 (macmem s (2 * i))"
proof -
  have "2 * i div 2 * 2 = 2 * i" "(2 * i + 1) div 2 * 2 = 2 * i" "even (2 * i)" "odd (2 * i + 1)" by simp_all
  then show "Wifi_MacReadByte (2 * i) s = macmem s (2 * i) AND 0xFF"
    "Wifi_MacReadByte (2 * i + 1) s = drop_bit 8 (macmem s (2 * i))"
    by (simp_all only: Wifi_MacReadByte_def Let_def if_True if_False not_True_eq_False not_False_eq_True)
qed

lemma mac_byte_hword:
  assumes "macmem s (2 * i) = hword lo hi"
  shows "mac_byte s (2 * i) = lo" "mac_byte s (2 * i + 1) = hi"
  by (simp_all only: mac_byte_def mac_read_byte_cases assms)
    (auto intro!: bit_word_eqI simp: hword_def bit_ops bit_u8_high)

lemma hword_mac_bytes: "macmem s (2 * i) = hword (mac_byte s (2 * i)) (mac_byte s (2 * i + 1))"
proof (rule bit_word_eqI)
  fix n assume "n < LENGTH(16)"
  then show "bit (macmem s (2 * i)) n = bit (hword (mac_byte s (2 * i)) (mac_byte s (2 * i + 1))) n"
    unfolding mac_byte_def mac_read_byte_cases hword_def
    by (cases "n < 8") (auto simp: bit_ops)
qed

lemma length_mac_bytes [simp]: "length (mac_bytes s a n) = n"
  by (simp add: mac_bytes_def)

lemma nth_mac_bytes [simp]: "k < n \<Longrightarrow> mac_bytes s a n ! k = mac_byte s (a + k)"
  by (simp add: mac_bytes_def)

lemma mac_byte_cong: "macmem s (a div 2 * 2) = macmem s' (a div 2 * 2) \<Longrightarrow> mac_byte s a = mac_byte s' a"
  unfolding mac_byte_def Wifi_MacReadByte_def Let_def by (simp only:)

subsection \<open>Copies to MAC RAM\<close>

lemma wr_data_other: "b < a \<or> a + 2 * length hs \<le> b \<Longrightarrow> wr_data a hs m b = m b"
  by (induction a hs m rule: wr_data.induct) auto

lemma wr_data_nth: "i < length hs \<Longrightarrow> wr_data a hs m (a + 2 * i) = hs ! i"
proof (induction a hs m arbitrary: i rule: wr_data.induct)
  case (2 a h hs m)
  show ?case
  proof (cases i)
    case 0
    then show ?thesis by (simp add: wr_data_other)
  next
    case (Suc j)
    then have "wr_data (a + 2) hs (m(a := h)) (a + 2 + 2 * j) = hs ! j" using "2.prems" by (intro "2.IH") simp
    then show ?thesis using Suc by simp
  qed
qed simp

lemma halfwords_bounds: "len \<le> 2 * halfwords len" "2 * halfwords len \<le> len + 1"
  by (simp_all add: halfwords_def)

lemma MACWrite_refuses: "0x2000 < MAC_Base + len \<Longrightarrow> Wifi_MACWrite src MAC_Base len s = s"
  by (simp add: Wifi_MACWrite_def)

lemma MACWrite_byte:
  assumes fits: "MAC_Base + len \<le> 0x2000" and base: "even MAC_Base" and k: "k < len"
    and src: "src (k div 2) = hword lo hi"
  shows "mac_byte (Wifi_MACWrite src MAC_Base len s) (MAC_Base + k) = (if even k then lo else hi)"
proof -
  define s' where "s' = Wifi_MACWrite src MAC_Base len s"
  define i where "i = k div 2"
  from base obtain b where b: "MAC_Base = 2 * b" by auto
  have i: "i < halfwords len" using k by (simp add: i_def halfwords_def)
  have "macmem s' (MAC_Base + 2 * i) = map src [0..<halfwords len] ! i"
    using fits i unfolding s'_def Wifi_MACWrite_def by (simp add: wr_data_nth)
  then have w: "macmem s' (2 * (b + i)) = hword lo hi"
    using i src by (simp add: b i_def [symmetric])
  show ?thesis
  proof (cases "even k")
    case True
    then have "k = 2 * i" by (simp add: i_def)
    then show ?thesis using mac_byte_hword(1) [OF w] b by (simp add: distrib_left s'_def)
  next
    case False
    then have "k = 2 * i + 1" by (simp add: i_def)
    then show ?thesis using mac_byte_hword(2) [OF w] b by (simp add: distrib_left s'_def)
  qed
qed

lemma MACWrite_bytes:
  assumes "MAC_Base + len \<le> 0x2000" "even MAC_Base" "\<And>i. src i = read_u16 m (off + 2 * i)"
  shows "mac_bytes (Wifi_MACWrite src MAC_Base len s) MAC_Base len = read_bytes m off len"
proof (rule nth_equalityI)
  fix k assume "k < length (mac_bytes (Wifi_MACWrite src MAC_Base len s) MAC_Base len)"
  then have k: "k < len" by simp
  have "src (k div 2) = hword (m (off + 2 * (k div 2))) (m (off + 2 * (k div 2) + 1))"
    by (simp add: assms(3) read_u16_hword)
  from MACWrite_byte [OF assms(1,2) k, of src, OF this, of s]
  show "mac_bytes (Wifi_MACWrite src MAC_Base len s) MAC_Base len ! k = read_bytes m off len ! k"
    using k by (cases "even k") (auto elim!: evenE oddE)
qed simp

lemma MACWrite_other:
  assumes "a < MAC_Base \<or> MAC_Base + 2 * halfwords len \<le> a" "even MAC_Base"
  shows "mac_byte (Wifi_MACWrite src MAC_Base len s) a = mac_byte s a"
proof (rule mac_byte_cong)
  have "a div 2 * 2 < MAC_Base \<or> MAC_Base + 2 * halfwords len \<le> a div 2 * 2" using assms by presburger
  then show "macmem (Wifi_MACWrite src MAC_Base len s) (a div 2 * 2) = macmem s (a div 2 * 2)"
    by (simp add: Wifi_MACWrite_def wr_data_other)
qed

lemma MACWrite_frame [simp]:
  "wd7 (Wifi_MACWrite src b n s) = wd7 s"
  "r \<noteq> W_TXBUF_WR_ADDR \<Longrightarrow> regs (Wifi_MACWrite src b n s) r = regs s r"
  by (simp_all add: Wifi_MACWrite_def set_reg_def)

subsection \<open>Single bytes\<close>

text \<open>Writing one byte of MAC RAM, which takes a read and a write of the halfword that holds it,
  changes that byte to the value and no other byte of the memory.\<close>

theorem mac_write_byte_spec:
  assumes "x \<le> 0xFF"
  shows "Wifi_MacReadByte a (Wifi_MacWriteByte b x s) = (if a = b then x else Wifi_MacReadByte a s)"
proof -
  have v: "n < 8" if "bit x n" for n
  proof -
    have "unat x < 2 ^ 8" using assms by (simp add: word_le_nat_alt)
    then show ?thesis using that by (metis bit_take_bit_iff take_bit_nat_eq_self unsigned_take_bit_eq
      word_unat_eq_iff)
  qed
  have low: "x AND 0xFF = x" by (rule bit_word_eqI) (auto simp: bit_ops dest: v bit_u16_high)
  consider (same) "a = b" | (pair) "a \<noteq> b" "a div 2 = b div 2" | (far) "a div 2 \<noteq> b div 2" by blast
  then show ?thesis
  proof cases
    case same
    then show ?thesis
      by (auto simp: Wifi_MacReadByte_def Wifi_MacWriteByte_def set_mac_def Let_def low
        intro!: bit_word_eqI simp: bit_ops dest: v bit_u16_high)
  next
    case pair
    then have "even a \<noteq> even b" by presburger
    then show ?thesis using pair
      by (auto simp: Wifi_MacReadByte_def Wifi_MacWriteByte_def set_mac_def Let_def
        intro!: bit_word_eqI simp: bit_ops dest: v bit_u16_high)
  next
    case far
    then show ?thesis
      by (auto simp: Wifi_MacReadByte_def Wifi_MacWriteByte_def set_mac_def Let_def)
  qed
qed

section \<open>The RX ring\<close>

text \<open>
  \<open>rx_ring\<close> states that the bounds of the ring are in order and aligned, as they are
  after \<^verbatim>\<open>Wifi_NTR_RxSetup\<close>; \<open>ring_pos\<close> is the place in the ring of an offset that
  counts on past its end.
\<close>

definition rx_ring :: "arm7 \<Rightarrow> bool" where
  "rx_ring s \<longleftrightarrow> rx_begin s < rx_end s \<and> even (rx_begin s) \<and> even (rx_end s)"

definition ring_pos :: "arm7 \<Rightarrow> nat \<Rightarrow> nat" where
  "ring_pos s p = rx_begin s + (p - rx_begin s) mod (rx_end s - rx_begin s)"

definition rx_ring_bytes :: "arm7 \<Rightarrow> nat \<Rightarrow> nat \<Rightarrow> u8 list" where
  "rx_ring_bytes s p n = map (\<lambda>k. mac_byte s (ring_pos s (p + k))) [0..<n]"

lemma rx_end_less: "rx_end s < 0x2000"
proof -
  have "regs s W_RXBUF_END AND 0x1FFE \<le> 0x1FFE" by (rule word_and_le1)
  then have "unat (regs s W_RXBUF_END AND 0x1FFE) \<le> unat (0x1FFE :: u16)" by (simp only: word_le_nat_alt)
  then show ?thesis by (simp add: rx_end_def)
qed

lemma ring_pos_bounds: "rx_ring s \<Longrightarrow> rx_begin s \<le> ring_pos s p \<and> ring_pos s p < rx_end s"
  using mod_less_divisor [of "rx_end s - rx_begin s" "p - rx_begin s"]
  unfolding rx_ring_def ring_pos_def by linarith

lemma ring_pos_id: "rx_begin s \<le> p \<Longrightarrow> p < rx_end s \<Longrightarrow> ring_pos s p = p"
  by (simp add: ring_pos_def)

lemma even_ring_pos: "rx_ring s \<Longrightarrow> rx_begin s \<le> p \<Longrightarrow> even (ring_pos s p) \<longleftrightarrow> even p"
  by (auto simp: rx_ring_def ring_pos_def dvd_mod_iff)

lemma rx_wrap_ring_pos:
  assumes "rx_ring s" "rx_begin s \<le> p" "p < rx_end s + (rx_end s - rx_begin s)"
  shows "rx_wrap s p = ring_pos s p"
proof (cases "rx_end s \<le> p")
  case True
  then have "p - rx_begin s - (rx_end s - rx_begin s) < rx_end s - rx_begin s"
    "rx_end s - rx_begin s \<le> p - rx_begin s" using assms by (auto simp: rx_ring_def)
  then have "(p - rx_begin s) mod (rx_end s - rx_begin s) = p - rx_end s"
    using assms True by (simp add: mod_if rx_ring_def)
  then show ?thesis using True by (simp add: rx_wrap_def ring_pos_def)
qed (use assms in \<open>simp add: rx_wrap_def ring_pos_id\<close>)

lemma rd_next_ring_pos:
  assumes ring: "rx_ring s" and p: "rx_begin s \<le> p" "even p"
  shows "rd_next s (ring_pos s p) = ring_pos s (p + 2)"
proof -
  define q where "q = ring_pos s p"
  have q: "rx_begin s \<le> q" "q < rx_end s" "even q"
    using ring_pos_bounds [OF ring, of p] even_ring_pos [OF ring p(1)] p(2) by (auto simp: q_def)
  then have q2: "q + 2 \<le> rx_end s" using ring unfolding rx_ring_def by presburger
  then have m: "(q + 2) mod 0x2000 = q + 2" using rx_end_less [of s] by simp
  have "ring_pos s (p + 2) = rx_begin s + ((p - rx_begin s) mod (rx_end s - rx_begin s) + 2) mod (rx_end s - rx_begin s)"
    using p(1) by (simp only: ring_pos_def mod_add_left_eq) (simp add: Suc_diff_le)
  also have "\<dots> = rx_begin s + (q + 2 - rx_begin s) mod (rx_end s - rx_begin s)"
    by (simp add: q_def ring_pos_def)
  also have "\<dots> = (if q + 2 = rx_end s then rx_begin s else q + 2)"
    using q q2 ring by (auto simp: rx_ring_def)
  finally show ?thesis using m by (simp add: rd_next_def q_def [symmetric] del: add_2_eq_Suc')
qed

lemma length_rd_data [simp]: "length (rd_data s n a) = n"
  by (induction n arbitrary: a) simp_all

lemma rd_data_nth:
  assumes "rx_ring s" "rx_begin s \<le> p" "even p" "i < n"
  shows "rd_data s n (ring_pos s p) ! i = macmem s (ring_pos s (p + 2 * i))"
  using assms
proof (induction n arbitrary: p i)
  case (Suc n)
  have step: "rd_next s (ring_pos s p) = ring_pos s (p + 2)" by (rule rd_next_ring_pos) (use Suc in auto)
  have IH: "rd_data s n (ring_pos s (p + 2)) ! j = macmem s (ring_pos s (p + 2 + 2 * j))" if "j < n" for j
    by (rule Suc.IH) (use Suc.prems that in auto)
  show ?case
  proof (cases i)
    case (Suc j)
    then show ?thesis using IH [of j] Suc.prems step by (simp del: add_2_eq_Suc' add: add.assoc)
  qed simp
qed simp

lemma length_hword_bytes: "length (hword_bytes hs) = 2 * length hs"
  by (induction hs) (simp_all add: hword_bytes_def)

lemma hword_bytes_nth:
  "i < length hs \<Longrightarrow> hword_bytes hs ! (2 * i) = ucast (hs ! i)"
  "i < length hs \<Longrightarrow> hword_bytes hs ! (2 * i + 1) = ucast (drop_bit 8 (hs ! i))"
proof (induction hs arbitrary: i)
  case (Cons h hs)
  { case 1 then show ?case using Cons(1) [of "i - 1"] by (cases i) (auto simp: hword_bytes_def le16_def) }
  { case 2 then show ?case using Cons(2) [of "i - 1"] by (cases i) (auto simp: hword_bytes_def le16_def) }
qed simp_all

lemma ring_pos_Suc:
  assumes "rx_ring s" "rx_begin s \<le> p" "even p"
  shows "ring_pos s (p + 1) = ring_pos s p + 1"
proof -
  have "ring_pos s p + 1 < rx_end s"
    using ring_pos_bounds [OF assms(1), of p] even_ring_pos [OF assms(1,2)] assms unfolding rx_ring_def by presburger
  then have "(p - rx_begin s) mod (rx_end s - rx_begin s) + 1 < rx_end s - rx_begin s"
    by (simp add: ring_pos_def)
  then have "((p - rx_begin s) mod (rx_end s - rx_begin s) + 1) mod (rx_end s - rx_begin s)
      = (p - rx_begin s) mod (rx_end s - rx_begin s) + 1" by simp
  then show ?thesis using assms(2) by (simp add: ring_pos_def mod_Suc_eq Suc_diff_le)
qed

lemma mac_byte_parts: "even a \<Longrightarrow> ucast (macmem s a) = mac_byte s a"
  "even a \<Longrightarrow> ucast (drop_bit 8 (macmem s a)) = mac_byte s (a + 1)"
proof -
  assume "even a"
  then obtain i where i: "a = 2 * i" by auto
  show "ucast (macmem s a) = mac_byte s a" "ucast (drop_bit 8 (macmem s a)) = mac_byte s (a + 1)"
    unfolding i mac_byte_def mac_read_byte_cases
    by (auto intro!: bit_word_eqI simp: bit_ops)
qed

text \<open>The bytes a ring read delivers.\<close>

lemma MACRead_bytes:
  assumes ring: "rx_ring s" and p: "rx_begin s \<le> p" "even p" and k: "k < 2 * n"
  shows "hword_bytes (rd_data s n (ring_pos s p)) ! k = mac_byte s (ring_pos s (p + k))"
proof -
  define i where "i = k div 2"
  have i: "i < n" using k by (simp add: i_def)
  have pos: "rx_begin s \<le> p + 2 * i" "even (p + 2 * i)" using p by auto
  have ev: "even (ring_pos s (p + 2 * i))" using even_ring_pos [OF ring pos(1)] pos(2) by simp
  note d = rd_data_nth [OF ring p i]
  show ?thesis
  proof (cases "even k")
    case True
    then have "k = 2 * i" by (simp add: i_def)
    then show ?thesis using hword_bytes_nth(1) [of i "rd_data s n (ring_pos s p)"] d i
      mac_byte_parts(1) [OF ev] by simp
  next
    case False
    then have "k = 2 * i + 1" by (simp add: i_def)
    then show ?thesis using hword_bytes_nth(2) [of i "rd_data s n (ring_pos s p)"] d i
      mac_byte_parts(2) [OF ev] ring_pos_Suc [OF ring pos] by (simp add: add.assoc [symmetric])
  qed
qed

lemma MACRead_frame:
  "snd (Wifi_MACRead b off n s) = set_reg W_RXBUF_RD_ADDR (regs (snd (Wifi_MACRead b off n s)) W_RXBUF_RD_ADDR) s"
  by (simp add: Wifi_MACRead_def Let_def set_reg_def)

text \<open>Reading \<open>len\<close> bytes of a received frame from the circular RX buffer of the MAC, at an offset that
  may lie up to one whole turn past the end of the buffer, delivers the bytes of the frame in order,
  going round at the end of the buffer, and the read changes nothing but the address register.\<close>

theorem mac_read_ring:
  assumes "rx_ring s" "rx_begin s \<le> base" "even (base + off)"
    "base + off < rx_end s + (rx_end s - rx_begin s)"
  shows "take len (hword_bytes (fst (Wifi_MACRead base off len s))) = rx_ring_bytes s (base + off) len \<and>
    (\<exists>v. snd (Wifi_MACRead base off len s) = set_reg W_RXBUF_RD_ADDR v s)"
proof (intro conjI)
  have w: "rx_wrap s (base + off) = ring_pos s (base + off)"
    by (rule rx_wrap_ring_pos) (use assms in auto)
  show "take len (hword_bytes (fst (Wifi_MACRead base off len s))) = rx_ring_bytes s (base + off) len"
  proof (rule nth_equalityI)
    fix k assume "k < length (take len (hword_bytes (fst (Wifi_MACRead base off len s))))"
    then have "k < len" by simp
    then show "take len (hword_bytes (fst (Wifi_MACRead base off len s))) ! k = rx_ring_bytes s (base + off) len ! k"
      using MACRead_bytes [OF assms(1) _ assms(3), of k "halfwords len"] assms(2) halfwords_bounds(1) [of len]
      by (simp add: Wifi_MACRead_def Let_def w rx_ring_bytes_def)
  qed (use halfwords_bounds(1) [of len] in \<open>simp add: Wifi_MACRead_def Let_def rx_ring_bytes_def length_hword_bytes\<close>)
  show "\<exists>v. snd (Wifi_MACRead base off len s) = set_reg W_RXBUF_RD_ADDR v s"
    by (metis MACRead_frame)
qed

section \<open>A concrete state\<close>

text \<open>The ARM7 before initialization, with all memories cleared.\<close>

definition arm7_zero :: arm7 where
  "arm7_zero = \<lparr>wd7 = zero_main, WifiData_set7 = False, regs = \<lambda>_. 0, macmem = \<lambda>_. 0,
     WifiFlashData = \<lambda>_. 0, bb_regs = \<lambda>_. 0, rf_writes = [], chdata_save5 = 0,
     beacon_channel_addr = 0, dswifi_information_addr = 0, wifi_tx_queue = \<lambda>_. 0,
     wifi_tx_queue_len = 0, wifi_keepalive_time = 0, wifi_led_state = 0, led_blinks = [],
     wifi_scan_index = 0, sync_sent7 = 0, wifi_irq_enabled = False, twl = twl_zero, stack7 = \<lambda>_. 0\<rparr>"

definition ring_ex :: arm7 where
  "ring_ex = set_reg W_RXBUF_BEGIN 0x4C00 (set_reg W_RXBUF_END 0x5F60 arm7_zero)"

lemma rx_ring_ex: "rx_begin ring_ex = 0xC00" "rx_end ring_ex = 0x1F60" "rx_ring ring_ex"
  by (simp_all add: ring_ex_def set_reg_def rx_begin_def rx_end_def rx_ring_def)

theorem mac_write_byte_spec_witness:
  "Wifi_MacReadByte 7 (Wifi_MacWriteByte 7 0x42 arm7_zero) = 0x42"
  using mac_write_byte_spec [of "0x42" 7 7 arm7_zero] by simp

theorem mac_read_ring_witness:
  "take 4 (hword_bytes (fst (Wifi_MACRead 0x1F50 12 4 (set_mac 0x1F5E 0x0201 (set_mac 0xC00 0x0403 ring_ex))))) = [0, 0, 1, 2]"
proof -
  let ?s = "set_mac 0x1F5E 0x0201 (set_mac 0xC00 0x0403 ring_ex)"
  have r: "rx_begin ?s = 0xC00" "rx_end ?s = 0x1F60" "rx_ring ?s"
    using rx_ring_ex by (simp_all add: rx_begin_def rx_end_def rx_ring_def set_mac_def)
  have "take 4 (hword_bytes (fst (Wifi_MACRead 0x1F50 12 4 ?s))) = rx_ring_bytes ?s (0x1F50 + 12) 4"
    by (rule mac_read_ring [THEN conjunct1]) (use r in simp_all)
  also have "\<dots> = [0, 0, 1, 2]"
    using r by (simp add: rx_ring_bytes_def ring_pos_def mac_byte_def Wifi_MacReadByte_def upt_rec
      set_mac_def ring_ex_def set_reg_def arm7_zero_def)
  finally show ?thesis .
qed

end
