(* ===== verification/Arm7_Setup.thy ===== *)
theory Arm7_Setup
  imports Arm7_Hw
begin

text \<open>
  Beacon frame upkeep (\<^verbatim>\<open>arm7/ntr/beacon.c\<close>), the radio chip (\<^verbatim>\<open>rf.c\<close>) and the
  configuration of the MAC (\<^verbatim>\<open>arm7/ntr/setup.c\<close>, \<^verbatim>\<open>arm7/setup.c\<close>,
  \<^verbatim>\<open>arm7/twl/setup.twl.c\<close> and \<^verbatim>\<open>Wifi_MacInit\<close>). A result \<open>None\<close> stands for a
  call to \<^verbatim>\<open>libndsCrash\<close> or an access outside a local array.
\<close>

section \<open>Beacon frames in MAC RAM\<close>

definition Wifi_BeaconStop :: "arm7 \<Rightarrow> arm7" where
  "Wifi_BeaconStop s =
     set_reg W_BEACONINT 0x64 (set_reg W_TXBUF_BEACON (regs s W_TXBUF_BEACON AND NOT TXBUF_BEACON_ENABLE) s)"

definition Wifi_SetBeaconChannel :: "u16 \<Rightarrow> arm7 \<Rightarrow> arm7" where
  "Wifi_SetBeaconChannel chan s =
     (if beacon_channel_addr s = 0 then s
      else if regs s W_TXBUF_BEACON AND TXBUF_BEACON_ENABLE \<noteq> 0
      then Wifi_MacWriteByte (unat (beacon_channel_addr s)) chan s
      else s)"

definition Wifi_SetBeaconCurrentPlayers :: "u16 \<Rightarrow> arm7 \<Rightarrow> arm7" where
  "Wifi_SetBeaconCurrentPlayers num s =
     (if dswifi_information_addr s = 0 then s
      else if regs s W_TXBUF_BEACON AND TXBUF_BEACON_ENABLE \<noteq> 0
      then Wifi_MacWriteByte (unat (dswifi_information_addr s) + 1) num s
      else s)"

definition Wifi_SetBeaconAllowsConnections :: "u16 \<Rightarrow> arm7 \<Rightarrow> arm7" where
  "Wifi_SetBeaconAllowsConnections allows s =
     (if dswifi_information_addr s = 0 then s
      else if regs s W_TXBUF_BEACON AND TXBUF_BEACON_ENABLE \<noteq> 0
      then Wifi_MacWriteByte (unat (dswifi_information_addr s) + 2) allows s
      else s)"

definition Wifi_GetBeaconAllowsConnections :: "arm7 \<Rightarrow> u16" where
  "Wifi_GetBeaconAllowsConnections s =
     (if dswifi_information_addr s = 0 then 0
      else if regs s W_TXBUF_BEACON AND TXBUF_BEACON_ENABLE \<noteq> 0
      then Wifi_MacReadByte (unat (dswifi_information_addr s) + 2) s
      else 0)"

definition Wifi_SetBeaconPeriod :: "nat \<Rightarrow> arm7 \<Rightarrow> arm7" where
  "Wifi_SetBeaconPeriod beacon_period s =
     (if beacon_period < 0x10 \<or> beacon_period > 0x3E7 then s
      else set_reg W_BEACONINT (of_nat beacon_period) s)"

text \<open>
  \<^verbatim>\<open>Wifi_BeaconSetup\<close> parses its own frame in a local array of 512 bytes. Elements that lie in
  the array but were not read from MAC RAM have the bytes of \<open>stack7\<close>.
\<close>

definition sizeof_beacon_data :: nat where [simp]:
  "sizeof_beacon_data = MAC_BEACON_END_OFFSET - MAC_BEACON_START_OFFSET"

definition local_at :: "nat \<Rightarrow> mem8 \<Rightarrow> nat \<Rightarrow> u8 option" where
  "local_at sz data i = (if i < sz then Some (data i) else None)"

fun local_match :: "nat \<Rightarrow> mem8 \<Rightarrow> nat \<Rightarrow> u8 list \<Rightarrow> bool option" where
  "local_match sz data i [] = Some True"
| "local_match sz data i (b # bs) =
     (do { v \<leftarrow> local_at sz data i;
           if v = b then local_match sz data (i + 1) bs else Some False })"

definition sizeof_FieVendorNintendo :: nat where [simp]: "sizeof_FieVendorNintendo = 48"
definition sizeof_DSWifiExtraData :: nat where [simp]: "sizeof_DSWifiExtraData = 24"

definition beacon_element :: "mem8 \<Rightarrow> nat \<Rightarrow> u8 \<Rightarrow> nat \<Rightarrow> arm7 \<Rightarrow> arm7 option" where
  "beacon_element data i type seglen s =
     (if type = MGT_FIE_ID_DS_PARAM_SET then
        Some (s\<lparr>beacon_channel_addr := of_nat (MAC_BEACON_START_OFFSET + i)\<rparr>)
      else if type = MGT_FIE_ID_TIM then
        do { v \<leftarrow> local_at sizeof_beacon_data data (i + 1);
             let s = set_reg W_TXBUF_TIM (of_nat (i - HDR_TX_SIZE - HDR_MGT_MAC_SIZE)) s;
                 s = set_reg W_LISTENINT (ucast v) s
             in Some (if regs s W_LISTENCOUNT \<ge> regs s W_LISTENINT then set_reg W_LISTENCOUNT 0 s else s) }
      else if type = MGT_FIE_ID_VENDOR then
        if seglen \<ge> sizeof_FieVendorNintendo then
          do { nintendo \<leftarrow> local_match sizeof_beacon_data data i [0x00, 0x09, 0xBF, 0x00];
               Some (if nintendo
                     then s\<lparr>dswifi_information_addr :=
                       of_nat (MAC_BEACON_START_OFFSET + i + (sizeof_FieVendorNintendo - sizeof_DSWifiExtraData))\<rparr>
                     else s) }
        else Some s
      else Some s)"

function beacon_elements :: "mem8 \<Rightarrow> nat \<Rightarrow> nat \<Rightarrow> arm7 \<Rightarrow> arm7 option" where
  "beacon_elements data len i s =
     (if i < len then
        do { type \<leftarrow> local_at sizeof_beacon_data data i;
             seglen \<leftarrow> local_at sizeof_beacon_data data (i + 1);
             s \<leftarrow> beacon_element data (i + 2) type (unat seglen) s;
             beacon_elements data len (i + 2 + unat seglen) s }
      else Some s)"
  by pat_completeness auto
termination by (relation "measure (\<lambda>(data, len, i, s). len - i)") auto

declare beacon_elements.simps [simp del]

definition Wifi_BeaconSetup :: "arm7 \<Rightarrow> arm7 option" where
  "Wifi_BeaconSetup s =
     (let packetlen = unat (Wifi_MACReadHWord MAC_BEACON_START_OFFSET HDR_TX_IEEE_FRAME_SIZE s);
          len = HDR_TX_SIZE + packetlen - 4;
          i = HDR_TX_SIZE + HDR_MGT_MAC_SIZE + 8 + 2 + 2
      in if len \<le> i then Some (Wifi_BeaconStop s)
         else if 2 * halfwords len > sizeof_beacon_data then None
         else
           let (hs, s) = Wifi_MACRead MAC_BEACON_START_OFFSET 0 len s;
               data = write_bytes (stack7 s) 0 (hword_bytes hs)
           in do { s \<leftarrow> beacon_elements data len i s;
                   let s = set_reg W_TXBUF_BEACON (TXBUF_BEACON_ENABLE OR of_nat (MAC_BEACON_START_OFFSET div 2)) s;
                       s = set_reg W_BEACONINT (read_u16 data (HDR_TX_SIZE + HDR_MGT_MAC_SIZE + 8)) s
                   in Some (Wifi_SetBeaconChannel (ucast (curChannel (wd7 s))) s) })"

section \<open>Radio chip\<close>

definition Wifi_RFWrite :: "u32 \<Rightarrow> arm7 \<Rightarrow> arm7" where
  "Wifi_RFWrite writedata s =
     (set_reg W_RF_DATA2 (ucast (drop_bit 16 writedata)) (set_reg W_RF_DATA1 (ucast writedata) s))
       \<lparr>rf_writes := rf_writes s @ [writedata]\<rparr>"

definition Wifi_RFWriteType2 :: "u32 \<Rightarrow> u32 \<Rightarrow> arm7 \<Rightarrow> arm7" where
  "Wifi_RFWriteType2 index x s = Wifi_RFWrite ((x AND 0x3FF) OR push_bit 18 (index AND 0x1F) OR push_bit 23 0) s"

definition Wifi_RFWriteType3 :: "u32 \<Rightarrow> u32 \<Rightarrow> arm7 \<Rightarrow> arm7" where
  "Wifi_RFWriteType3 index x s = Wifi_RFWrite ((x AND 0xFF) OR push_bit 8 (index AND 0xFF) OR push_bit 16 0x5) s"

definition rf_config :: "(nat \<times> nat) list" where
  "rf_config =
     [(W_CONFIG_146, F_WIFI_CFG_044), (W_CONFIG_148, F_WIFI_CFG_046), (W_CONFIG_14A, F_WIFI_CFG_048),
      (W_CONFIG_14C, F_WIFI_CFG_04A), (W_CONFIG_120, F_WIFI_CFG_04C), (W_CONFIG_122, F_WIFI_CFG_04E),
      (W_CONFIG_154, F_WIFI_CFG_050), (W_CONFIG_144, F_WIFI_CFG_052), (W_CONFIG_130, F_WIFI_CFG_054),
      (W_CONFIG_132, F_WIFI_CFG_056), (W_CONFIG_140, F_WIFI_CFG_058), (W_CONFIG_142, F_WIFI_CFG_05A),
      (W_POWER_TX, F_WIFI_CFG_POWER_TX), (W_CONFIG_124, F_WIFI_CFG_05E), (W_CONFIG_128, F_WIFI_CFG_060),
      (W_CONFIG_150, F_WIFI_CFG_062)]"

text \<open>The three loops over the initial radio settings in flash, from address \<open>j\<close> on.\<close>

fun rf_init3 :: "nat \<Rightarrow> nat \<Rightarrow> nat \<Rightarrow> arm7 \<Rightarrow> arm7" where
  "rf_init3 0 index j s = s"
| "rf_init3 (Suc n) index j s =
     rf_init3 n (index + 1) (j + 1) (Wifi_RFWriteType3 (of_nat index) (ucast (Wifi_FlashReadByte j s)) s)"

fun rf_init2 :: "nat \<Rightarrow> nat \<Rightarrow> nat \<Rightarrow> arm7 \<Rightarrow> arm7" where
  "rf_init2 0 bytes j s = s"
| "rf_init2 (Suc n) bytes j s =
     (let temp = Wifi_FlashReadBytes j bytes s;
          s = Wifi_RFWrite temp s;
          s = (if drop_bit 18 temp = 9 then s\<lparr>chdata_save5 := temp AND NOT 0x7C00\<rparr> else s)
      in rf_init2 n bytes (j + bytes) s)"

fun rf_init1 :: "nat \<Rightarrow> nat \<Rightarrow> nat \<Rightarrow> arm7 \<Rightarrow> arm7" where
  "rf_init1 0 bytes j s = s"
| "rf_init1 (Suc n) bytes j s = rf_init1 n bytes (j + bytes) (Wifi_RFWrite (Wifi_FlashReadBytes j bytes s) s)"

definition Wifi_RFInit :: "arm7 \<Rightarrow> arm7 option" where
  "Wifi_RFInit s =
     (let s = fold (\<lambda>(r, f) s. set_reg r (Wifi_FlashReadHWord f s) s) rf_config s;
          rf_num_entries = unat (Wifi_FlashReadByte F_RF_NUM_OF_ENTRIES s);
          rf_entry_bits = Wifi_FlashReadByte F_RF_BITS_PER_ENTRY s;
          rf_entry_bytes = (unat (rf_entry_bits AND 0x3F) + 7) div 8
      in if rf_entry_bytes > 4 then None
         else
           let s = set_reg W_RF_CNT (push_bit 8 (ucast (drop_bit 7 rf_entry_bits)) OR (ucast rf_entry_bits AND 0x7F)) s;
               rf_chip_type = Wifi_FlashReadByte F_RF_CHIP_TYPE s
           in Some (if rf_chip_type = 3 then rf_init3 rf_num_entries 0 0xCE s
                    else if rf_chip_type = 2 then rf_init2 rf_num_entries rf_entry_bytes 0xCE s
                    else rf_init1 rf_num_entries rf_entry_bytes 0xCE s))"

fun bb_channel :: "nat \<Rightarrow> nat \<Rightarrow> nat \<Rightarrow> arm7 \<Rightarrow> arm7" where
  "bb_channel 0 chan addr s = s"
| "bb_channel (Suc n) chan addr s =
     bb_channel n chan (addr + 15)
       (Wifi_BBWrite (unat (Wifi_FlashReadByte addr s)) (Wifi_FlashReadByte (addr + chan) s) s)"

fun rf_channel :: "nat \<Rightarrow> nat \<Rightarrow> nat \<Rightarrow> arm7 \<Rightarrow> arm7" where
  "rf_channel 0 chan addr s = s"
| "rf_channel (Suc n) chan addr s =
     rf_channel n chan (addr + 15)
       (Wifi_RFWriteType3 (ucast (Wifi_FlashReadByte addr s)) (ucast (Wifi_FlashReadByte (addr + chan) s)) s)"

definition set_channel_type2 :: "nat \<Rightarrow> arm7 \<Rightarrow> arm7" where
  "set_channel_type2 chan s =
     (let s = Wifi_RFWrite (Wifi_FlashReadBytes (F_T2_RF_CHANNEL_CFG1 + (chan - 1) * 6) 3 s) s;
          s = Wifi_RFWrite (Wifi_FlashReadBytes (F_T2_RF_CHANNEL_CFG1 + 3 + (chan - 1) * 6) 3 s) s
      in if \<not> bit (chdata_save5 s) 16 then
           Wifi_BBWrite REG_MM3218_EXT_GAIN (Wifi_FlashReadByte (F_T2_BB_CHANNEL_CFG + (chan - 1)) s) s
         else if \<not> bit (chdata_save5 s) 15 then
           let n = Wifi_FlashReadByte (F_T2_RF_CHANNEL_CFG2 + (chan - 1)) s AND 0x1F
           in Wifi_RFWrite (chdata_save5 s OR push_bit 10 (ucast n)) s
         else s)"

definition set_channel_type3 :: "nat \<Rightarrow> arm7 \<Rightarrow> arm7" where
  "set_channel_type3 chan s =
     (let addr = 0xCE + unat (Wifi_FlashReadByte F_RF_NUM_OF_ENTRIES s);
          num_bb_writes = unat (Wifi_FlashReadByte addr s);
          num_rf_writes = unat (Wifi_FlashReadByte F_UNKNOWN_043 s);
          s = bb_channel num_bb_writes chan (addr + 1) s
      in rf_channel num_rf_writes chan (addr + 1 + 15 * num_bb_writes) s)"

definition Wifi_SetChannel7 :: "nat \<Rightarrow> arm7 \<Rightarrow> arm7" where
  "Wifi_SetChannel7 chan s =
     (if chan < 1 \<or> chan > 13 then s
      else
        let s = Wifi_SetBeaconChannel (of_nat chan) s;
            chip = Wifi_FlashReadByte F_RF_CHIP_TYPE s;
            s = (if chip = 2 \<or> chip = 5 then set_channel_type2 chan s
                 else if chip = 3 then set_channel_type3 chan s
                 else s)
        in wd7_upd (curChannel_update (\<lambda>_. of_nat chan)) s)"

section \<open>MAC configuration\<close>

definition WEP_KEY_MAX_SIZE :: nat where [simp]: "WEP_KEY_MAX_SIZE = 32"

fun wep_hwords :: "u8 list \<Rightarrow> u16 list" where
  "wep_hwords [] = []"
| "wep_hwords [a] = [ucast a]"
| "wep_hwords (a # b # bs) = (ucast a OR push_bit 8 (ucast b)) # wep_hwords bs"

definition wep_slots :: "nat list" where
  "wep_slots = [W_WEPKEY_0, W_WEPKEY_1, W_WEPKEY_2, W_WEPKEY_3]"

definition wep_store :: "nat \<Rightarrow> u16 \<Rightarrow> arm7 \<Rightarrow> arm7" where
  "wep_store dest v s = fold (\<lambda>k. set_mac (k + 2 * dest) v) wep_slots s"

definition Wifi_NTR_SetWepKey :: "u8 list \<Rightarrow> nat \<Rightarrow> arm7 \<Rightarrow> arm7" where
  "Wifi_NTR_SetWepKey wepkey wepmode s =
     (if wepmode = WEPMODE_NONE then s
      else
        let len = Wifi_WepKeySizeFromMode wepmode;
            s = fold (\<lambda>i. wep_store i 0) [0..<WEP_KEY_MAX_SIZE div 2] s;
            hs = wep_hwords (take len wepkey)
        in fold (\<lambda>(dest, v). wep_store dest v) (enumerate 0 hs) s)"

definition Wifi_NTR_SetWepMode :: "nat \<Rightarrow> arm7 \<Rightarrow> arm7" where
  "Wifi_NTR_SetWepMode wepmode s =
     (if wepmode > 7 then s
      else
        let s = set_reg W_WEP_CNT (if wepmode = WEPMODE_NONE then WEP_CNT_DISABLE else WEP_CNT_ENABLE) s;
            wepmode = (if wepmode = WEPMODE_NONE then WEPMODE_64BIT
                       else if wepmode = WEPMODE_64BIT_ASCII then WEPMODE_64BIT
                       else if wepmode = WEPMODE_128BIT_ASCII then WEPMODE_128BIT
                       else if wepmode = WEPMODE_152BIT_ASCII then WEPMODE_152BIT
                       else wepmode)
        in set_reg W_MODE_WEP ((regs s W_MODE_WEP AND NOT MODE_WEP_KEYLEN_MASK) OR
             push_bit MODE_WEP_KEYLEN_SHIFT (of_nat wepmode)) s)"

definition Wifi_NTR_SetSleepMode :: "nat \<Rightarrow> arm7 \<Rightarrow> arm7" where
  "Wifi_NTR_SetSleepMode mode s =
     (if mode > 3 then s
      else set_reg W_MODE_WEP ((regs s W_MODE_WEP AND NOT MODE_WEP_SLEEP_MASK) OR of_nat mode) s)"

definition Wifi_NTR_SetAssociationID :: "u16 \<Rightarrow> arm7 \<Rightarrow> arm7" where
  "Wifi_NTR_SetAssociationID aid s =
     wd7_upd (\<lambda>w. w\<lparr>clients := (clients w)\<lparr>curClientAID := ucast (aid AND 0xF)\<rparr>\<rparr>)
       (set_reg W_AID_LOW (aid AND 0xF) (set_reg W_AID_FULL aid s))"

definition Wifi_NTR_DisableTempPowerSave :: "arm7 \<Rightarrow> arm7" where
  "Wifi_NTR_DisableTempPowerSave s =
     set_reg W_POWER_048 0 (set_reg W_POWER_TX (regs s W_POWER_TX AND NOT 2) s)"

definition Wifi_NTR_SetupTransferOptions :: "u16 \<Rightarrow> bool \<Rightarrow> arm7 \<Rightarrow> arm7" where
  "Wifi_NTR_SetupTransferOptions rate short_preamble s =
     (let s = set_reg W_PREAMBLE (if short_preamble then regs s W_PREAMBLE OR 6 else regs s W_PREAMBLE AND NOT 6) s;
          s = wd7_upd (maxrate7_update (\<lambda>_. ucast rate)) s;
          v = Wifi_FlashReadHWord F_WIFI_CFG_058 s + 0x202;
          v = (if rate = WIFI_TRANSFER_RATE_2MBPS
               then let v = v - 0x6161 in if short_preamble then v - 0x6060 else v
               else v)
      in set_reg W_CONFIG_140 v s)"

datatype Wifi_FilterMode =
    WIFI_FILTERMODE_IDLE | WIFI_FILTERMODE_SCAN | WIFI_FILTERMODE_INTERNET
  | WIFI_FILTERMODE_MULTIPLAYER_HOST | WIFI_FILTERMODE_MULTIPLAYER_CLIENT

definition Wifi_NTR_SetupFilterMode :: "Wifi_FilterMode \<Rightarrow> arm7 \<Rightarrow> arm7" where
  "Wifi_NTR_SetupFilterMode mode s =
     (case mode of
        WIFI_FILTERMODE_IDLE \<Rightarrow>
          set_reg W_RXFILTER2 (RXFILTER2_IGNORE_DS_DS OR RXFILTER2_IGNORE_STA_STA OR
            RXFILTER2_IGNORE_DS_STA OR RXFILTER2_IGNORE_DS_DS) (set_reg W_RXFILTER 0 s)
      | WIFI_FILTERMODE_SCAN \<Rightarrow>
          set_reg W_RXFILTER2 (RXFILTER2_IGNORE_DS_DS OR RXFILTER2_IGNORE_STA_STA OR
            RXFILTER2_IGNORE_STA_DS) (set_reg W_RXFILTER RXFILTER_MGMT_BEACON_OTHER_BSSID s)
      | WIFI_FILTERMODE_INTERNET \<Rightarrow>
          set_reg W_RXFILTER2 (RXFILTER2_IGNORE_DS_DS OR RXFILTER2_IGNORE_STA_STA OR
            RXFILTER2_IGNORE_STA_DS) (set_reg W_RXFILTER RXFILTER_MGMT_BEACON_OTHER_BSSID s)
      | WIFI_FILTERMODE_MULTIPLAYER_HOST \<Rightarrow>
          set_reg W_RXFILTER2 (RXFILTER2_IGNORE_DS_DS OR RXFILTER2_IGNORE_STA_STA OR
            RXFILTER2_IGNORE_DS_STA) (set_reg W_RXFILTER RXFILTER_MGMT_BEACON_OTHER_BSSID s)
      | WIFI_FILTERMODE_MULTIPLAYER_CLIENT \<Rightarrow>
          set_reg W_RXFILTER2 (RXFILTER2_IGNORE_DS_DS OR RXFILTER2_IGNORE_STA_STA OR
            RXFILTER2_IGNORE_STA_DS) (set_reg W_RXFILTER RXFILTER_MGMT_BEACON_OTHER_BSSID s))"

definition Wifi_NTR_WakeUp :: "arm7 \<Rightarrow> arm7 option" where
  "Wifi_NTR_WakeUp s =
     (let s = Wifi_BBPowerOn (set_reg W_POWER_US 0 s);
          (i, s) = Wifi_BBRead 1 s;
          s = Wifi_BBWrite 1 (i AND 0x7F) s;
          s = Wifi_BBWrite 1 i s
      in Wifi_RFInit s)"

definition Wifi_NTR_Shutdown :: "arm7 \<Rightarrow> arm7" where
  "Wifi_NTR_Shutdown s =
     (let s = (if Wifi_FlashReadByte F_RF_CHIP_TYPE s = 2 then Wifi_RFWrite 0xC008 s else s);
          (a, s) = Wifi_BBRead REG_MM3218_EXT_GAIN s;
          s = Wifi_BBWrite REG_MM3218_EXT_GAIN (a OR 0x3F) s
      in set_reg W_POWER_US 1 (Wifi_BBPowerOff s))"

definition Wifi_NTR_TxSetup :: "arm7 \<Rightarrow> arm7" where
  "Wifi_NTR_TxSetup s = set_reg W_TXREQ_SET (TXBIT_LOC3 OR TXBIT_LOC2 OR TXBIT_LOC1) s"

definition Wifi_NTR_RxSetup :: "arm7 \<Rightarrow> arm7" where
  "Wifi_NTR_RxSetup s =
     (let s = set_W_RXCNT RXCNT_ENABLE_RX s;
          s = set_reg W_RXBUF_BEGIN (of_nat MAC_RXBUF_START_ADDRESS) s;
          s = set_reg W_RXBUF_WR_ADDR (of_nat (MAC_RXBUF_START_OFFSET div 2)) s;
          s = set_reg W_RXBUF_END (of_nat MAC_RXBUF_END_ADDRESS) s;
          s = set_reg W_RXBUF_READCSR (drop_bit 1 (regs s W_RXBUF_BEGIN AND 0x3FFF)) s;
          s = set_reg W_RXBUF_GAP 0 s;
          s = set_reg W_RXBUF_GAPDISP 0 s
      in set_W_RXCNT (RXCNT_ENABLE_RX OR RXCNT_EMPTY_RXBUF) s)"

definition Wifi_NTR_Stop :: "arm7 \<Rightarrow> arm7" where
  "Wifi_NTR_Stop s =
     (let s = wd7_upd (\<lambda>w. w\<lparr>flags7 := flags7 w AND NOT WFLAG_ARM7_RUNNING\<rparr>) s;
          s = set_reg W_IE 0 s;
          s = set_reg W_MODE_RST 0 s;
          s = set_reg W_US_COMPARECNT 0 s;
          s = set_reg W_US_COUNTCNT 0 s;
          s = set_reg W_TXSTATCNT 0 s;
          s = set_reg W_X_00A 0 s;
          s = set_reg W_TXBUF_BEACON TXBUF_BEACON_DISABLE s;
          s = set_reg W_TXREQ_RESET TXBIT_ALL s
      in set_reg W_TXBUF_RESET TXBIT_ALL s)"

text \<open>The dispatch between the two drivers.\<close>

definition dsi_mode7 :: "arm7 \<Rightarrow> bool" where
  "dsi_mode7 s \<longleftrightarrow> reqFlags (wd7 s) AND WFLAG_REQ_DSI_MODE \<noteq> 0"

text \<open>Starting waits for the card, \<open>None\<close> if for ever.\<close>

definition Wifi_TWL_Start :: "arm7 \<Rightarrow> arm7 option" where
  "Wifi_TWL_Start s = map_option (\<lambda>t. s\<lparr>twl := t\<rparr>) (wifi_card_init (twl s))"

definition Wifi_TWL_Stop :: "arm7 \<Rightarrow> arm7" where
  "Wifi_TWL_Stop s = s\<lparr>twl := wifi_card_deinit (twl s)\<rparr>"

definition Wifi_TWL_Deinit :: "arm7 \<Rightarrow> arm7" where
  "Wifi_TWL_Deinit s = s"

definition Wifi_TWL_SetupFilterMode :: "Wifi_FilterMode \<Rightarrow> arm7 \<Rightarrow> arm7" where
  "Wifi_TWL_SetupFilterMode mode s = s"

definition Wifi_SetupFilterMode :: "Wifi_FilterMode \<Rightarrow> arm7 \<Rightarrow> arm7" where
  "Wifi_SetupFilterMode mode s =
     (if dsi_mode7 s then Wifi_TWL_SetupFilterMode mode s else Wifi_NTR_SetupFilterMode mode s)"

definition Wifi_Stop7 :: "arm7 \<Rightarrow> arm7" where
  "Wifi_Stop7 s = (if dsi_mode7 s then Wifi_TWL_Stop s else Wifi_NTR_Stop s)"

definition Wifi_NTR_Start :: "arm7 \<Rightarrow> arm7" where
  "Wifi_NTR_Start s =
     (let s = Wifi_Stop7 s;
          s = set_reg W_WEP_CNT WEP_CNT_ENABLE s;
          s = set_reg W_POST_BEACON 0xFFFF s;
          s = Wifi_NTR_SetAssociationID 0 s;
          s = set_reg W_US_COUNTCNT 1 s;
          s = set_reg W_POWER_TX 0 s;
          s = set_reg_mac W_BSSID [0, 0, 0, 0, 0, 0] s;
          s = Wifi_NTR_TxSetup s;
          s = Wifi_NTR_RxSetup s;
          s = set_W_RXCNT RXCNT_ENABLE_RX s;
          s = ack_W_IF IRQ_ALL_BITS s;
          s = set_reg W_IE 0x40B3 s;
          s = set_reg W_RXSTAT_OVF_IE 0x1FFF s;
          s = set_reg W_RXSTAT_INC_IE 0 s;
          s = Wifi_SetupFilterMode WIFI_FILTERMODE_IDLE s;
          s = set_reg W_TXSTATCNT 0 s;
          s = set_reg W_X_00A 0 s;
          s = set_reg W_MODE_RST 1 s;
          s = set_reg W_US_COUNTCNT 1 s;
          s = set_reg W_US_COMPARECNT 1 s;
          s = set_reg W_POWER_048 0 s;
          s = Wifi_NTR_DisableTempPowerSave s;
          s = set_reg W_POWERSTATE (regs s W_POWERSTATE OR 2) s;
          s = set_reg W_TXREQ_RESET TXBIT_ALL s
      in wd7_upd (\<lambda>w. w\<lparr>flags7 := flags7 w OR WFLAG_ARM7_RUNNING\<rparr>) s)"

definition Wifi_Start7 :: "arm7 \<Rightarrow> arm7 option" where
  "Wifi_Start7 s = (if dsi_mode7 s then Wifi_TWL_Start s else Some (Wifi_NTR_Start s))"

definition Wifi_NTR_Deinit :: "arm7 \<Rightarrow> arm7" where
  "Wifi_NTR_Deinit s = Wifi_NTR_Shutdown (Wifi_NTR_Stop (s\<lparr>wifi_irq_enabled := False\<rparr>))"

definition Wifi_Deinit7 :: "arm7 \<Rightarrow> arm7" where
  "Wifi_Deinit7 s =
     (let s = (if dsi_mode7 s then Wifi_TWL_Deinit s else Wifi_NTR_Deinit s);
          s = wd7_upd (\<lambda>w. w\<lparr>flags7 := flags7 w AND NOT WFLAG_ARM7_ACTIVE\<rparr>) s
      in s\<lparr>WifiData_set7 := False\<rparr>)"

definition Wifi_MacInit :: "arm7 \<Rightarrow> arm7" where
  "Wifi_MacInit s =
     (let s = set_reg W_MODE_RST 0 s;
          s = set_reg W_TXSTATCNT 0 s;
          s = set_reg W_X_00A 0 s;
          s = set_reg W_IE 0 s;
          s = ack_W_IF IRQ_ALL_BITS s;
          s = set_reg W_CONFIG_254 0 s;
          s = set_reg W_TXBUF_RESET TXBIT_ALL s;
          s = set_reg W_TXBUF_BEACON TXBUF_BEACON_DISABLE s;
          s = Wifi_NTR_SetAssociationID 0 s;
          s = set_reg W_US_COUNTCNT 0 s;
          s = set_reg W_US_COMPARECNT 0 s;
          s = set_reg W_CMD_COUNTCNT 1 s;
          s = set_reg W_CONFIG_0EC 0x3F03 s;
          s = set_reg W_X_1A2 1 s;
          s = set_reg W_X_1A0 0 s;
          s = set_reg W_PRE_BEACON 0x0800 s;
          s = set_reg W_PREAMBLE 1 s;
          s = Wifi_NTR_SetupTransferOptions WIFI_TRANSFER_RATE_1MBPS False s;
          s = set_reg W_CONFIG_0D4 3 s;
          s = set_reg W_CONFIG_0D8 4 s;
          s = set_reg W_RX_LEN_CROP 0x0602 s
      in set_reg W_TXBUF_GAPDISP 0 s)"

section \<open>Properties of the configuration\<close>

lemma set_reg_simps [simp, reg_simps]:
  "regs (set_reg r v s) = (regs s)(r := v)" "wd7 (set_reg r v s) = wd7 s"
  "macmem (set_reg r v s) = macmem s" "WifiFlashData (set_reg r v s) = WifiFlashData s"
  by (simp_all add: set_reg_def)

lemma wd7_upd_simps [simp, reg_simps]:
  "wd7 (wd7_upd f s) = f (wd7 s)" "regs (wd7_upd f s) = regs s" "macmem (wd7_upd f s) = macmem s"
  "WifiFlashData (wd7_upd f s) = WifiFlashData s"
  by (simp_all add: wd7_upd_def)

lemma set_mac_simps [simp, reg_simps]:
  "macmem (set_mac a v s) = (macmem s)(a := v)" "regs (set_mac a v s) = regs s" "wd7 (set_mac a v s) = wd7 s"
  by (simp_all add: set_mac_def)

lemma RxSetup_simps:
  "wd7 (Wifi_NTR_RxSetup s) = wd7 s"
  "regs (Wifi_NTR_RxSetup s) W_RXBUF_BEGIN = 0x4C00" "regs (Wifi_NTR_RxSetup s) W_RXBUF_END = 0x5F60"
  "regs (Wifi_NTR_RxSetup s) W_RXBUF_READCSR = 0x600" "regs (Wifi_NTR_RxSetup s) W_RXBUF_WRCSR = 0x600"
  by (simp_all add: Wifi_NTR_RxSetup_def set_W_RXCNT_def Let_def)

lemma neg_65536: "(- 65536 :: u16) = 0"
  by (rule word_uint_eqI) simp

text \<open>Starting the DS driver leaves the RX ring of the MAC empty (read and write cursor equal) with the
  bounds of the memory map, no interrupt pending, the interrupts of the driver enabled, beacons off,
  the own association identifier 0 and the running flag set.\<close>

theorem ntr_start_state:
  assumes "\<not> dsi_mode7 s"
  shows "rx_ring (Wifi_NTR_Start s) \<and> rx_begin (Wifi_NTR_Start s) = MAC_RXBUF_START_OFFSET \<and>
    regs (Wifi_NTR_Start s) W_RXBUF_READCSR = regs (Wifi_NTR_Start s) W_RXBUF_WRCSR \<and>
    regs (Wifi_NTR_Start s) W_IF = 0 \<and> regs (Wifi_NTR_Start s) W_IE = 0x40B3 \<and>
    regs (Wifi_NTR_Start s) W_TXBUF_BEACON = TXBUF_BEACON_DISABLE \<and>
    curClientAID (clients (wd7 (Wifi_NTR_Start s))) = 0 \<and>
    flags7 (wd7 (Wifi_NTR_Start s)) = flags7 (wd7 s) OR WFLAG_ARM7_RUNNING"
proof -
  let ?t = "Wifi_NTR_Start s"
  note defs = Wifi_NTR_Start_def Wifi_Stop7_def Wifi_NTR_Stop_def Wifi_NTR_SetAssociationID_def
    set_reg_mac_def Wifi_NTR_TxSetup_def ack_W_IF_def Wifi_SetupFilterMode_def dsi_mode7_def
    Wifi_NTR_SetupFilterMode_def Wifi_NTR_DisableTempPowerSave_def Wifi_TWL_SetupFilterMode_def
    Wifi_NTR_RxSetup_def set_W_RXCNT_def
  have nd: "reqFlags (wd7 s) AND WFLAG_REQ_DSI_MODE = 0" using assms by (simp only: dsi_mode7_def) simp
  have r: "regs ?t W_RXBUF_BEGIN = 0x4C00" "regs ?t W_RXBUF_END = 0x5F60"
    "regs ?t W_RXBUF_READCSR = 0x600" "regs ?t W_RXBUF_WRCSR = 0x600" "regs ?t W_IF = 0"
    "regs ?t W_IE = 0x40B3" "regs ?t W_TXBUF_BEACON = 0"
    using nd by (simp_all add: defs Let_def neg_65536)
  have w: "curClientAID (clients (wd7 ?t)) = 0"
    "flags7 (wd7 ?t) = (flags7 (wd7 s) AND NOT WFLAG_ARM7_RUNNING) OR WFLAG_ARM7_RUNNING"
    using nd by (simp_all add: defs Let_def)
  have "(x AND NOT 2) OR 2 = x OR 2" for x :: u32
    by (rule bit_word_eqI) (auto simp only: bit_and_iff bit_or_iff bit_not_iff possible_bit_word)
  then have f: "(x AND - 3) OR 2 = x OR 2" for x :: u32 by simp
  show ?thesis using r w by (simp add: rx_ring_def rx_begin_def rx_end_def f)
qed

theorem ntr_start_state_witness:
  "rx_ring (Wifi_NTR_Start arm7_zero) \<and> regs (Wifi_NTR_Start arm7_zero) W_IF = 0"
  using ntr_start_state [of arm7_zero] by (simp add: dsi_mode7_def arm7_zero_def zero_main_def)

definition drops :: "arm7 \<Rightarrow> u16 set" where
  "drops s = {d \<in> {RXFILTER2_IGNORE_STA_STA, RXFILTER2_IGNORE_STA_DS, RXFILTER2_IGNORE_DS_STA, RXFILTER2_IGNORE_DS_DS}.
     regs s W_RXFILTER2 AND d \<noteq> 0}"

text \<open>The directions of data frames that each filter mode makes the hardware drop: internet, scan and
  client modes keep only frames from a distribution system to a station, host mode keeps only frames
  from a station to a distribution system, and the idle mode, which is meant to drop all frames,
  keeps the frames from stations to a distribution system.\<close>

theorem filter_mode_directions:
  "drops (Wifi_NTR_SetupFilterMode mode s) =
     (case mode of
        WIFI_FILTERMODE_IDLE \<Rightarrow> {RXFILTER2_IGNORE_STA_STA, RXFILTER2_IGNORE_DS_STA, RXFILTER2_IGNORE_DS_DS}
      | WIFI_FILTERMODE_MULTIPLAYER_HOST \<Rightarrow> {RXFILTER2_IGNORE_STA_STA, RXFILTER2_IGNORE_DS_STA, RXFILTER2_IGNORE_DS_DS}
      | _ \<Rightarrow> {RXFILTER2_IGNORE_STA_STA, RXFILTER2_IGNORE_STA_DS, RXFILTER2_IGNORE_DS_DS}) \<and>
   (regs (Wifi_NTR_SetupFilterMode mode s) W_RXFILTER = 0 \<longleftrightarrow> mode = WIFI_FILTERMODE_IDLE)"
  by (cases mode) (auto simp: Wifi_NTR_SetupFilterMode_def drops_def)

definition byte_or_0 :: "u8 list \<Rightarrow> nat \<Rightarrow> u8" where
  "byte_or_0 bs k = (if k < length bs then bs ! k else 0)"

lemma hword_0 [simp]: "hword b 0 = ucast b"
  by (simp add: hword_def)

lemma length_wep_hwords: "length (wep_hwords bs) = halfwords (length bs)"
  by (induction bs rule: wep_hwords.induct) (simp_all add: halfwords_def)

lemma wep_hwords_nth:
  "j < length (wep_hwords bs) \<Longrightarrow> wep_hwords bs ! j = hword (byte_or_0 bs (2 * j)) (byte_or_0 bs (2 * j + 1))"
proof (induction bs arbitrary: j rule: wep_hwords.induct)
  case (3 a b bs)
  then show ?case by (cases j) (auto simp: byte_or_0_def hword_def)
qed (auto simp: byte_or_0_def)

lemma wep_store_macmem:
  assumes "slot \<in> set wep_slots" "j < 16" "d < 16"
  shows "macmem (wep_store d v s) (slot + 2 * j) = (if j = d then v else macmem s (slot + 2 * j))"
  using assms by (auto simp: wep_store_def wep_slots_def)

lemma wep_clear_macmem:
  assumes "slot \<in> set wep_slots" "j < 16" "n \<le> 16"
  shows "macmem (fold (\<lambda>i. wep_store i 0) [0..<n] s) (slot + 2 * j) = (if j < n then 0 else macmem s (slot + 2 * j))"
  using assms(3) by (induction n) (auto simp: wep_store_macmem [OF assms(1,2)])

lemma wep_copy_macmem:
  assumes "slot \<in> set wep_slots" "j < 16" "n + length hs \<le> 16"
  shows "macmem (fold (\<lambda>(dest, v). wep_store dest v) (enumerate n hs) s) (slot + 2 * j) =
    (if n \<le> j \<and> j < n + length hs then hs ! (j - n) else macmem s (slot + 2 * j))"
  using assms(3)
proof (induction hs arbitrary: n s)
  case (Cons h hs)
  then have "n < 16" by simp
  note st = wep_store_macmem [OF assms(1,2) this]
  have "macmem (fold (\<lambda>(dest, v). wep_store dest v) (enumerate (Suc n) hs) (wep_store n h s)) (slot + 2 * j) =
      (if Suc n \<le> j \<and> j < Suc n + length hs then hs ! (j - Suc n) else macmem (wep_store n h s) (slot + 2 * j))"
    by (rule Cons.IH) (use Cons.prems in simp)
  then show ?case unfolding st by (cases "j = n") (auto simp: nth_Cons')
qed auto

lemma SetWepKey_macmem:
  assumes "length wepkey = 64" "wepmode \<noteq> WEPMODE_NONE" "slot \<in> set wep_slots" "j < 16"
  shows "macmem (Wifi_NTR_SetWepKey wepkey wepmode s) (slot + 2 * j) =
    hword (byte_or_0 (take (Wifi_WepKeySizeFromMode wepmode) wepkey) (2 * j))
      (byte_or_0 (take (Wifi_WepKeySizeFromMode wepmode) wepkey) (2 * j + 1))"
proof -
  let ?key = "take (Wifi_WepKeySizeFromMode wepmode) wepkey"
  have len: "length (wep_hwords ?key) \<le> 16"
    using wep_key_size_le_16 [of wepmode] by (simp add: length_wep_hwords halfwords_def)
  have out: "hword (byte_or_0 ?key (2 * j)) (byte_or_0 ?key (2 * j + 1)) = 0" if "\<not> j < length (wep_hwords ?key)"
    using that by (auto simp: length_wep_hwords halfwords_def byte_or_0_def)
  show ?thesis
    using wep_copy_macmem [OF assms(3,4), of 0 "wep_hwords ?key"] len assms(2) out
      wep_clear_macmem [OF assms(3,4), of 16] wep_hwords_nth [of j ?key] assms(4)
    by (auto simp: Wifi_NTR_SetWepKey_def Let_def)
qed

text \<open>Setting a WEP key writes exactly the bytes of the key, followed by zeros, to each
  of the four key slots of MAC RAM.\<close>

theorem wep_key_stored:
  assumes "length wepkey = 64" "wepmode \<noteq> WEPMODE_NONE" "slot \<in> set wep_slots"
  shows "mac_bytes (Wifi_NTR_SetWepKey wepkey wepmode s) slot WEP_KEY_MAX_SIZE =
    take (Wifi_WepKeySizeFromMode wepmode) wepkey @ replicate (WEP_KEY_MAX_SIZE - Wifi_WepKeySizeFromMode wepmode) 0"
proof (rule nth_equalityI)
  let ?s = "Wifi_NTR_SetWepKey wepkey wepmode s" and ?key = "take (Wifi_WepKeySizeFromMode wepmode) wepkey"
  from assms(3) obtain b where b: "slot = 2 * b" by (auto simp: wep_slots_def)
  fix k assume "k < length (mac_bytes ?s slot WEP_KEY_MAX_SIZE)"
  then have k: "k < 32" by simp
  then have "macmem ?s (2 * (b + k div 2)) = hword (byte_or_0 ?key (2 * (k div 2))) (byte_or_0 ?key (2 * (k div 2) + 1))"
    using SetWepKey_macmem [OF assms, of "k div 2" s] by (simp add: b)
  from mac_byte_hword [OF this] have "mac_byte ?s (slot + k) = byte_or_0 ?key k"
    by (cases "even k") (auto simp: b elim!: evenE oddE)
  then show "mac_bytes ?s slot WEP_KEY_MAX_SIZE ! k = (?key @ replicate (WEP_KEY_MAX_SIZE - Wifi_WepKeySizeFromMode wepmode) 0) ! k"
    using k assms(1) wep_key_size_le_16 [of wepmode] by (auto simp: byte_or_0_def nth_append)
qed (use assms(1) wep_key_size_le_16 [of wepmode] in simp)

theorem wep_key_stored_witness:
  "mac_bytes (Wifi_NTR_SetWepKey (replicate 64 7) WEPMODE_64BIT arm7_zero) W_WEPKEY_2 WEP_KEY_MAX_SIZE =
     replicate 5 7 @ replicate 27 0"
  using wep_key_stored [of "replicate 64 7" WEPMODE_64BIT W_WEPKEY_2 arm7_zero]
  by (simp add: wep_slots_def Wifi_WepKeySizeFromMode_def)

end
