(* ===== verification/Arm7_Tx.thy ===== *)
theory Arm7_Tx
  imports Arm7_Setup
begin

text \<open>
  The transmission queues of the ARM7 (\<^verbatim>\<open>arm7/ntr/tx_queue.c\<close>): the queue of one
  management frame of the ARM7 itself, and the packets of the ARM9, which are taken from the shared
  TX buffer and copied to MAC RAM. A failed assertion and a write past the end of
  \<^verbatim>\<open>wifi_tx_queue\<close> give \<open>None\<close>.
\<close>

section \<open>The queue of the ARM7\<close>

definition Wifi_NTR_KeepaliveCountReset :: "arm7 \<Rightarrow> arm7" where
  "Wifi_NTR_KeepaliveCountReset s = s\<lparr>wifi_keepalive_time := 0\<rparr>"

definition Wifi_TxLoc3IsBusy :: "arm7 \<Rightarrow> bool" where
  "Wifi_TxLoc3IsBusy s \<longleftrightarrow> regs s W_TXBUSY AND TXBIT_LOC3 \<noteq> 0"

definition Wifi_TxCmdIsBusy :: "arm7 \<Rightarrow> bool" where
  "Wifi_TxCmdIsBusy s \<longleftrightarrow> regs s W_TXBUSY AND TXBIT_CMD \<noteq> 0"

definition start_loc3 :: "arm7 \<Rightarrow> arm7" where
  "start_loc3 s =
     (let s = set_reg W_TX_RETRYLIMIT 0x0707 s;
          s = set_reg W_TXREQ_RESET TXBIT_CMD s;
          s = set_reg W_TXBUF_LOC3 (TXBUF_LOCN_ENABLE OR of_nat (MAC_TXBUF_START_OFFSET div 2)) s
      in set_reg W_TXREQ_SET (TXBIT_LOC3 OR TXBIT_LOC2 OR TXBIT_LOC1) s)"

definition Wifi_TxRaw :: "(nat \<Rightarrow> u16) \<Rightarrow> u32 \<Rightarrow> arm7 \<Rightarrow> arm7" where
  "Wifi_TxRaw data datalen s =
     (let datalen = round_up_32 datalen;
          s = Wifi_MACWrite data MAC_TXBUF_START_OFFSET (unat datalen) s;
          s = start_loc3 s
      in wd7_upd (\<lambda>w. stat_add WSTAT_TXDATABYTES (datalen - of_nat HDR_TX_SIZE)
           (stat_add WSTAT_TXBYTES datalen (stat_add WSTAT_TXPACKETS 1 w))) s)"

definition Wifi_TxArm7QueueFlush :: "arm7 \<Rightarrow> arm7" where
  "Wifi_TxArm7QueueFlush s =
     (Wifi_TxRaw (wifi_tx_queue s) (ucast (wifi_tx_queue_len s)) s)\<lparr>wifi_tx_queue_len := 0\<rparr>"

definition Wifi_TxArm7QueueIsEmpty :: "arm7 \<Rightarrow> bool" where
  "Wifi_TxArm7QueueIsEmpty s \<longleftrightarrow> wifi_tx_queue_len s = 0"

text \<open>The array has 1024 halfwords; the code compares with its size in bytes.\<close>

definition wifi_tx_queue_size :: nat where [simp]: "wifi_tx_queue_size = 1024"

definition Wifi_TxArm7QueueSetEnqueuedData :: "(nat \<Rightarrow> u16) \<Rightarrow> u32 \<Rightarrow> arm7 \<Rightarrow> (bool \<times> arm7) option" where
  "Wifi_TxArm7QueueSetEnqueuedData data datalen s =
     (let hwords = unat (drop_bit 1 (datalen + 1))
      in if hwords > 2 * wifi_tx_queue_size then Some (False, s)
         else if hwords > wifi_tx_queue_size then None
         else Some (True, s\<lparr>wifi_tx_queue := \<lambda>i. if i < hwords then data i else wifi_tx_queue s i,
                            wifi_tx_queue_len := ucast datalen\<rparr>))"

definition Wifi_TxArm7QueueAdd :: "(nat \<Rightarrow> u16) \<Rightarrow> u32 \<Rightarrow> arm7 \<Rightarrow> (bool \<times> arm7) option" where
  "Wifi_TxArm7QueueAdd data datalen s =
     (if \<not> Wifi_TxLoc3IsBusy s then
        if Wifi_TxArm7QueueIsEmpty s then Some (True, Wifi_TxRaw data datalen s)
        else Wifi_TxArm7QueueSetEnqueuedData data datalen (Wifi_TxArm7QueueFlush s)
      else if Wifi_TxArm7QueueIsEmpty s then Wifi_TxArm7QueueSetEnqueuedData data datalen s
      else Some (False, s))"

section \<open>Packets of the ARM9\<close>

definition tx_data7 :: "arm7 \<Rightarrow> mem8" where
  "tx_data7 s = bufData (txbuf (wd7 s))"

definition set_tx_read :: "u32 \<Rightarrow> arm7 \<Rightarrow> arm7" where
  "set_tx_read i s = wd7_upd (\<lambda>w. w\<lparr>txbuf := (txbuf w)\<lparr>bufRead := i\<rparr>\<rparr>) s"

definition Wifi_TxArm9QueueCopyFirstData :: "nat \<Rightarrow> nat \<Rightarrow> arm7 \<Rightarrow> (u32 \<times> arm7) option" where
  "Wifi_TxArm9QueueCopyFirstData macbase buffer_end s =
     (let read_idx = bufRead (txbuf (wd7 s))
      in if read_idx AND 3 \<noteq> 0 then None
         else
           let sz = read_u32 (tx_data7 s) (unat read_idx) AND WFLAG_SEND_SIZE_MASK;
               read_idx = read_idx + 4;
               (ret, read_idx, s) =
                 (if unat sz \<le> buffer_end then
                    let s = Wifi_MACWrite (\<lambda>i. read_u16 (tx_data7 s) (unat read_idx + 2 * i)) macbase (unat sz) s;
                        s = wd7_upd (\<lambda>w. stat_add WSTAT_TXDATABYTES sz
                              (stat_add WSTAT_TXBYTES sz (stat_add WSTAT_TXPACKETS 1 w))) s
                    in (sz, read_idx + round_up_32 sz, s)
                  else (0, read_idx, wd7_upd (stat_add WSTAT_TXQUEUEDREJECTED 1) s))
           in if read_idx \<le> WIFI_TXBUFFER_SIZE - 4 then Some (ret, set_tx_read read_idx s) else None)"

definition Wifi_TxArm9QueueFlushByLoc3 :: "arm7 \<Rightarrow> arm7" where
  "Wifi_TxArm9QueueFlushByLoc3 s =
     (let tx_base = MAC_TXBUF_START_OFFSET;
          ieee_base = MAC_TXBUF_START_OFFSET + HDR_TX_SIZE;
          s = (if macmem s (tx_base + HDR_TX_TRANSFER_RATE) = 0
               then set_mac (tx_base + HDR_TX_TRANSFER_RATE) (ucast (maxrate7 (wd7 s))) s else s);
          s = (if macmem s (ieee_base + HDR_DATA_FRAME_CONTROL) AND FC_PROTECTED_FRAME \<noteq> 0 then
                 let iv_base = ieee_base + HDR_MGT_MAC_SIZE;
                     (v, w) = Wifi_Random7 (wd7 s);
                     s = s\<lparr>wd7 := w\<rparr>;
                     s = set_mac (iv_base + 0) (ucast (v AND 0xFFFF)) s
                 in set_mac (iv_base + 2) (ucast (drop_bit 16 v AND 0xFF) OR push_bit 14 0) s
               else s)
      in start_loc3 s)"

definition Wifi_TxArm9QueueFlushByCmd :: "arm7 \<Rightarrow> arm7" where
  "Wifi_TxArm9QueueFlushByCmd s =
     (let tx_base = MAC_TXBUF_START_OFFSET;
          ieee_base = MAC_TXBUF_START_OFFSET + HDR_TX_SIZE;
          host_bytes = curCmdDataSize (wd7 s);
          client_bytes = curReplyDataSize (wd7 s);
          num_clients = ucast (num_connected (clients (wd7 s))) :: u16;
          client_bits = aid_mask (clients (wd7 s));
          host_time = host_bytes * 4 + 0x60;
          client_time = client_bytes * 4 + 0xD2;
          all_client_time = 0xF0 + (client_time + 0xA) * num_clients;
          s = set_mac (tx_base + HDR_TX_CLIENT_BITS) client_bits s;
          s = set_mac (ieee_base + HDR_DATA_DURATION) all_client_time s;
          s = set_mac (ieee_base + HDR_DATA_MAC_SIZE + 0) client_time s;
          s = set_mac (ieee_base + HDR_DATA_MAC_SIZE + 2) client_bits s;
          s = set_reg W_CMD_TOTALTIME all_client_time s;
          s = set_reg W_CMD_REPLYTIME client_time s;
          count = ucast (drop_bit 3 (0x388 + ucast num_clients * ucast client_time + ucast host_time + 0x32 :: u32)) :: u16;
          s = set_reg W_CMD_COUNT (0x180 + count) s;
          s = set_reg W_TXREQ_RESET (TXBIT_LOC3 OR TXBIT_LOC2 OR TXBIT_LOC1) s;
          s = set_reg W_TXBUF_CMD (TXBUF_CMD_ENABLE OR of_nat (MAC_TXBUF_START_OFFSET div 2)) s
      in set_reg W_TXREQ_SET TXBIT_CMD s)"

definition Wifi_Intr_MultiplayCmdDone :: "arm7 \<Rightarrow> arm7" where
  "Wifi_Intr_MultiplayCmdDone s =
     (if macmem s (MAC_TXBUF_START_OFFSET + HDR_TX_STATUS) = 5 then
        let retries_left = ucast (regs s W_TX_RETRYLIMIT AND 0xFF) :: u8
        in if retries_left > 0 then
             let s = set_reg W_TX_RETRYLIMIT (regs s W_TX_RETRYLIMIT - 1) s;
                 s = set_mac (MAC_TXBUF_START_OFFSET + HDR_TX_STATUS) 0 s
             in Wifi_TxArm9QueueFlushByCmd s
           else s
      else s)"

definition reply_destination :: "arm7 \<Rightarrow> nat" where
  "reply_destination s =
     (let old_destination = unat (regs s W_TXBUF_REPLY2 AND NOT TXBUF_REPLY_ENABLE) * 2
      in if old_destination = MAC_CLIENT_RX1_START_OFFSET
         then MAC_CLIENT_RX2_START_OFFSET else MAC_CLIENT_RX1_START_OFFSET)"

definition Wifi_TxArm9QueueFlushByReply :: "arm7 \<Rightarrow> (bool \<times> arm7) option" where
  "Wifi_TxArm9QueueFlushByReply s =
     (let destination = reply_destination s;
          buffer_end = (if destination = MAC_CLIENT_RX1_START_OFFSET
                        then MAC_CLIENT_RX1_END_OFFSET else MAC_CLIENT_RX2_END_OFFSET)
      in do { (n, s) \<leftarrow> Wifi_TxArm9QueueCopyFirstData destination buffer_end s;
              if n = 0 then Some (False, s)
              else
                let s = Wifi_NTR_KeepaliveCountReset s;
                    s = set_reg W_TX_RETRYLIMIT 0x0707 s
                in Some (True, set_reg W_TXBUF_REPLY1 (TXBUF_REPLY_ENABLE OR of_nat (destination div 2)) s) })"

definition flush_beacon :: "arm7 \<Rightarrow> (bool \<times> arm7) option" where
  "flush_beacon s =
     do { (n, s) \<leftarrow> Wifi_TxArm9QueueCopyFirstData MAC_BEACON_START_OFFSET MAC_BEACON_END_OFFSET s;
          if n = 0 then Some (False, s)
          else do { s \<leftarrow> Wifi_BeaconSetup s; Some (True, s) } }"

definition flush_txbuf :: "u32 \<Rightarrow> arm7 \<Rightarrow> (bool \<times> arm7) option" where
  "flush_txbuf status s =
     do { (n, s) \<leftarrow> Wifi_TxArm9QueueCopyFirstData MAC_TXBUF_START_OFFSET MAC_TXBUF_END_OFFSET s;
          if n = 0 then Some (False, s)
          else
            let s = Wifi_NTR_KeepaliveCountReset s
            in if status AND WFLAG_SEND_AS_CMD \<noteq> 0
               then Some (True, Wifi_TxArm9QueueFlushByCmd (set_reg W_TX_RETRYLIMIT 0x0707 s))
               else Some (True, Wifi_TxArm9QueueFlushByLoc3 s) }"

definition flush_packet :: "u32 \<Rightarrow> arm7 \<Rightarrow> (bool \<times> arm7) option" where
  "flush_packet status s =
     (if status AND WFLAG_SEND_AS_REPLY \<noteq> 0 then Wifi_TxArm9QueueFlushByReply s
      else if status AND WFLAG_SEND_AS_BEACON \<noteq> 0 then flush_beacon s
      else flush_txbuf status s)"

definition Wifi_TxArm9QueueFlush :: "arm7 \<Rightarrow> (bool \<times> arm7) option" where
  "Wifi_TxArm9QueueFlush s =
     (let status = read_u32 (tx_data7 s) (unat (bufRead (txbuf (wd7 s))))
      in if status = 0 then Some (False, s)
         else if status = WIFI_SIZE_WRAP then
           let s = set_tx_read 0 s;
               status = read_u32 (tx_data7 s) 0
           in if status = 0 then Some (False, s) else flush_packet status s
         else flush_packet status s)"

definition Wifi_TxAllQueueFlush :: "arm7 \<Rightarrow> arm7 option" where
  "Wifi_TxAllQueueFlush s =
     (let s = wd7_upd (\<lambda>w. w\<lparr>stats := (stats w)(WSTAT_DEBUG :=
                ucast ((regs s W_TXBUF_LOC3 AND TXBUF_LOCN_ENABLE) OR (regs s W_TXBUSY AND 0x7FFF)))\<rparr>) s
      in if Wifi_TxLoc3IsBusy s \<or> Wifi_TxCmdIsBusy s then Some s
         else if \<not> Wifi_TxArm7QueueIsEmpty s then
           Some (Wifi_NTR_KeepaliveCountReset (Wifi_TxArm7QueueFlush s))
         else map_option snd (Wifi_TxArm9QueueFlush s))"

section \<open>Taking a packet from the TX buffer\<close>

lemma mac_byte_simps [simp]:
  "mac_byte (set_reg r v s) = mac_byte s" "mac_byte (wd7_upd f s) = mac_byte s"
  "mac_byte (set_tx_read i s) = mac_byte s" "mac_byte (Wifi_NTR_KeepaliveCountReset s) = mac_byte s"
  by (auto simp: fun_eq_iff set_tx_read_def Wifi_NTR_KeepaliveCountReset_def intro!: mac_byte_cong)

lemma mac_byte_set_mac:
  assumes "even a"
  shows "mac_byte (set_mac a v s) k =
    (if k = a then ucast v else if k = a + 1 then ucast (drop_bit 8 v) else mac_byte s k)"
proof -
  have "mac_byte (set_mac a v s) a = ucast v" "mac_byte (set_mac a v s) (a + 1) = ucast (drop_bit 8 v)"
    using mac_byte_parts [OF assms, of "set_mac a v s"] by (simp_all add: set_mac_def)
  moreover have "mac_byte (set_mac a v s) k = mac_byte s k" if "k \<noteq> a" "k \<noteq> a + 1"
  proof (rule mac_byte_cong)
    have "k div 2 * 2 \<noteq> a" using that assms by presburger
    then show "macmem (set_mac a v s) (k div 2 * 2) = macmem s (k div 2 * 2)" by (simp add: set_mac_def)
  qed
  ultimately show ?thesis by simp
qed

lemma set_tx_read_simps [simp]:
  "regs (set_tx_read i s) = regs s" "macmem (set_tx_read i s) = macmem s"
  "txbuf (wd7 (set_tx_read i s)) = (txbuf (wd7 s))\<lparr>bufRead := i\<rparr>" "tx_data7 (set_tx_read i s) = tx_data7 s"
  by (simp_all add: set_tx_read_def tx_data7_def)

lemma stat_add_simps [simp]: "txbuf (stat_add k n w) = txbuf w" "clients (stat_add k n w) = clients w"
  by (simp_all add: stat_add_def)

text \<open>The buffer holds packets and its read index is at the size word of the first one.\<close>

definition tx_head :: "arm7 \<Rightarrow> u32 \<Rightarrow> u8 list \<Rightarrow> packet list \<Rightarrow> bool" where
  "tx_head s tag bs ps \<longleftrightarrow> tx_inv (txbuf (wd7 s)) ((tag, bs) # ps) \<and>
     read_u32 (tx_data7 s) (unat (bufRead (txbuf (wd7 s)))) = tag"

lemma tx_head_next:
  assumes "tx_head s tag bs ps"
  shows "next_packet 24576 (\<lambda>t. unat (tx_size t)) (txbuf (wd7 s)) (bufRead (txbuf (wd7 s))) (tag, bs) ps"
proof -
  obtain idx where idx: "next_packet 24576 (\<lambda>t. unat (tx_size t)) (txbuf (wd7 s)) idx (tag, bs) ps"
    using ring_next_Cons assms unfolding tx_head_def tx_inv_def by blast
  moreover from idx have "tag \<noteq> WIFI_SIZE_WRAP" unfolding next_packet_def fst_conv by blast
  then have "idx = bufRead (txbuf (wd7 s))"
    using idx assms unfolding next_packet_def tx_head_def tx_data7_def by (simp only: if_False)
  ultimately show ?thesis by simp
qed

lemma copy_first_data:
  assumes head: "tx_head s tag bs ps" and fits: "length bs \<le> buffer_end" "macbase + length bs \<le> 0x2000" "even macbase"
  shows "\<exists>s'. Wifi_TxArm9QueueCopyFirstData macbase buffer_end s = Some (tx_size tag, s') \<and>
    tx_inv (txbuf (wd7 s')) ps \<and> mac_bytes s' macbase (length bs) = bs \<and>
    (\<forall>r. r \<noteq> W_TXBUF_WR_ADDR \<longrightarrow> regs s' r = regs s r) \<and> clients (wd7 s') = clients (wd7 s) \<and>
    (\<forall>a. a < macbase \<or> macbase + 2 * halfwords (length bs) \<le> a \<longrightarrow> mac_byte s' a = mac_byte s a)"
proof -
  let ?b = "txbuf (wd7 s)" and ?rd = "bufRead (txbuf (wd7 s))"
  from tx_head_next [OF head] have nx: "unat ?rd mod 4 = 0" "length bs = unat (tx_size tag)"
      "read_bytes (bufData ?b) (unat ?rd + 4) (length bs) = bs" "unat ?rd + 8 + align4 (length bs) \<le> 24576"
    and pop: "\<And>b'. bufData b' = bufData ?b \<Longrightarrow> bufWrite b' = bufWrite ?b \<Longrightarrow>
        unat (bufRead b') = unat ?rd + 4 + align4 (length bs) \<Longrightarrow> ring_inv 24576 (\<lambda>t. unat (tx_size t)) b' ps"
    unfolding next_packet_def fst_conv snd_conv by blast+
  have al: "?rd AND 3 = 0" using nx(1) by (simp only: word_and_3_eq_0)
  have r4: "unat (?rd + 4) = unat ?rd + 4" using nx(4) by (simp add: unat_word_ariths)
  obtain ri where ri: "BufferAdvance WIFI_TXBUFFER_SIZE ?rd (tx_size tag) ?b = Some (?b\<lparr>bufRead := ri\<rparr>)"
      "unat ri = unat ?rd + 4 + align4 (length bs)"
    using advance_ok [of ?rd "tx_size tag" WIFI_TXBUFFER_SIZE ?b] nx by auto
  have ri': "ri = ?rd + 4 + round_up_32 (tx_size tag)" "ri \<le> 24576 - 4"
    using ri(1) by (auto simp: BufferAdvance_def Let_def split: if_splits dest!: arg_cong [of _ _ bufRead])
  define src where "src = (\<lambda>i. read_u16 (tx_data7 s) (unat (?rd + 4) + 2 * i))"
  define s1 where "s1 = Wifi_MACWrite src macbase (length bs) s"
  define s2 where "s2 = wd7_upd (\<lambda>w. stat_add WSTAT_TXDATABYTES (tx_size tag)
      (stat_add WSTAT_TXBYTES (tx_size tag) (stat_add WSTAT_TXPACKETS 1 w))) s1"
  have tag: "read_u32 (tx_data7 s) (unat ?rd) AND WFLAG_SEND_SIZE_MASK = tx_size tag"
    using head by (simp only: tx_head_def tx_size_def)
  have "Wifi_TxArm9QueueCopyFirstData macbase buffer_end s = Some (tx_size tag, set_tx_read ri s2)"
    unfolding Wifi_TxArm9QueueCopyFirstData_def Let_def tag al
    using fits(1) nx(2) ri' by (simp add: s2_def s1_def src_def)
  moreover have "tx_inv (txbuf (wd7 (set_tx_read ri s2))) ps"
    unfolding tx_inv_def by (rule pop) (simp_all add: s2_def s1_def ri(2))
  moreover have "mac_bytes s1 macbase (length bs) = bs"
    unfolding s1_def using MACWrite_bytes [OF fits(2,3), of src "tx_data7 s" "unat ?rd + 4"] nx(3)
    by (simp add: src_def r4 tx_data7_def)
  then have "mac_bytes (set_tx_read ri s2) macbase (length bs) = bs"
    by (simp add: mac_bytes_def s2_def)
  moreover have "\<forall>r. r \<noteq> W_TXBUF_WR_ADDR \<longrightarrow> regs (set_tx_read ri s2) r = regs s r"
    by (simp add: s2_def s1_def)
  moreover have "clients (wd7 (set_tx_read ri s2)) = clients (wd7 s)"
    by (simp add: s2_def s1_def set_tx_read_def)
  moreover have "\<forall>a. a < macbase \<or> macbase + 2 * halfwords (length bs) \<le> a \<longrightarrow>
      mac_byte (set_tx_read ri s2) a = mac_byte s a"
    using MACWrite_other [OF _ fits(3), of _ "length bs" src s] by (simp add: s2_def s1_def)
  ultimately show ?thesis by blast
qed

lemma tx_inv_rewind:
  assumes "tx_inv (txbuf (wd7 s)) ps" "read_u32 (tx_data7 s) (unat (bufRead (txbuf (wd7 s)))) = WIFI_SIZE_WRAP"
  shows "tx_inv (txbuf (wd7 (set_tx_read 0 s))) ps"
  using ring_rewind [of 24576 "\<lambda>t. unat (tx_size t)" "txbuf (wd7 s)" ps] assms
  by (simp add: tx_inv_def tx_data7_def)

lemma flush_first:
  assumes inv: "tx_inv (txbuf (wd7 s)) ((tag, bs) # ps)"
  shows "\<exists>s0. Wifi_TxArm9QueueFlush s = flush_packet tag s0 \<and> tx_head s0 tag bs ps \<and>
    (s0 = s \<or> s0 = set_tx_read 0 s)"
proof -
  let ?b = "txbuf (wd7 s)"
  obtain idx where "next_packet 24576 (\<lambda>t. unat (tx_size t)) ?b idx (tag, bs) ps"
    using ring_next_Cons inv unfolding tx_inv_def by blast
  then have n: "BufferNext ?b = Some (idx, tag)" unfolding next_packet_def fst_conv by blast
  show ?thesis
  proof (cases "read_u32 (bufData ?b) (unat (bufRead ?b)) = WIFI_SIZE_WRAP")
    case True
    then have t: "read_u32 (bufData ?b) 0 = tag" "tag \<noteq> 0"
      using n by (auto simp: BufferNext_def Let_def split: if_splits)
    have "tx_head (set_tx_read 0 s) tag bs ps"
      using tx_inv_rewind [OF inv] True t by (simp add: tx_head_def tx_data7_def)
    moreover have "Wifi_TxArm9QueueFlush s = flush_packet tag (set_tx_read 0 s)"
      using True t by (simp add: Wifi_TxArm9QueueFlush_def tx_data7_def Let_def)
    ultimately show ?thesis by blast
  next
    case False
    then have t: "read_u32 (bufData ?b) (unat (bufRead ?b)) = tag" "tag \<noteq> 0"
      using n by (auto simp: BufferNext_def Let_def split: if_splits)
    have "tx_head s tag bs ps" using inv t by (simp add: tx_head_def tx_data7_def)
    moreover have "Wifi_TxArm9QueueFlush s = flush_packet tag s"
      using False t by (simp add: Wifi_TxArm9QueueFlush_def tx_data7_def Let_def)
    ultimately show ?thesis by blast
  qed
qed

section \<open>What is sent\<close>

text \<open>
  The ARM7 completes the frames of the ARM9 in MAC RAM: the transfer rate of data frames, their
  initialization vector when they are protected (bit 6 of the second byte of the frame control, which follows
  the 12 bytes of the hardware header), and the client bits and times of multiplayer command frames.
\<close>

definition tx_patched :: "bool \<Rightarrow> u8 list \<Rightarrow> nat set" where
  "tx_patched cmd bs =
     (if cmd then {2, 3, 14, 15, 36, 37, 38, 39}
      else {8, 9} \<union> (if bit (bs ! 13) 6 then {36, 37, 38, 39} else {}))"

definition tx_idle :: "arm7 \<Rightarrow> bool" where
  "tx_idle s \<longleftrightarrow> \<not> Wifi_TxLoc3IsBusy s \<and> \<not> Wifi_TxCmdIsBusy s \<and> Wifi_TxArm7QueueIsEmpty s"

lemma flush_cmd_bytes:
  "k \<notin> tx_patched True bs \<Longrightarrow> mac_byte (Wifi_TxArm9QueueFlushByCmd s) k = mac_byte s k"
  by (simp add: Wifi_TxArm9QueueFlushByCmd_def Let_def mac_byte_set_mac tx_patched_def)

lemma mac_byte_wd7 [simp]: "mac_byte (s\<lparr>wd7 := w\<rparr>) = mac_byte s"
  "mac_byte (s\<lparr>wifi_tx_queue_len := v\<rparr>) = mac_byte s"
  by (rule ext, rule mac_byte_cong, simp)+

lemma keepalive_simps [simp]:
  "wd7 (Wifi_NTR_KeepaliveCountReset s) = wd7 s" "regs (Wifi_NTR_KeepaliveCountReset s) = regs s"
  "macmem (Wifi_NTR_KeepaliveCountReset s) = macmem s"
  by (simp_all add: Wifi_NTR_KeepaliveCountReset_def)

lemma protected_bit: "macmem s 12 AND FC_PROTECTED_FRAME \<noteq> 0 \<longleftrightarrow> bit (mac_byte s 13) 6"
proof -
  have "FC_PROTECTED_FRAME = push_bit 14 1" by simp
  then have "macmem s 12 AND FC_PROTECTED_FRAME \<noteq> 0 \<longleftrightarrow> bit (macmem s 12) 14"
    by (simp only: bit_iff_and_push_bit_not_eq_0)
  also have "\<dots> \<longleftrightarrow> bit (ucast (drop_bit 8 (macmem s 12)) :: u8) 6" by (simp add: bit_simps)
  finally show ?thesis using mac_byte_parts(2) [of 12 s] by simp
qed

lemma flush_loc3_bytes:
  assumes "k \<notin> {8, 9}" "bit (mac_byte s 13) 6 \<Longrightarrow> k \<notin> {36, 37, 38, 39}"
  shows "mac_byte (Wifi_TxArm9QueueFlushByLoc3 s) k = mac_byte s k"
proof -
  define r where "r = (if macmem s 8 = 0 then set_mac 8 (ucast (maxrate7 (wd7 s))) s else s)"
  have r: "macmem r 12 = macmem s 12" "mac_byte r k = mac_byte s k"
    using assms(1) by (auto simp: r_def mac_byte_set_mac)
  show ?thesis
  proof (cases "bit (mac_byte s 13) 6")
    case True
    then show ?thesis
      using assms r(2) by (simp add: Wifi_TxArm9QueueFlushByLoc3_def start_loc3_def Let_def mac_byte_set_mac split: prod.splits)
  next
    case False
    then have "macmem s 12 AND FC_PROTECTED_FRAME = 0" using protected_bit [of s] by simp
    then show ?thesis
      using r by (simp add: Wifi_TxArm9QueueFlushByLoc3_def start_loc3_def Let_def) (auto simp: r_def split: if_splits)
  qed
qed

lemma flush_cmd_state:
  "wd7 (Wifi_TxArm9QueueFlushByCmd s) = wd7 s"
  "regs (Wifi_TxArm9QueueFlushByCmd s) W_TXREQ_SET = TXBIT_CMD"
  "regs (Wifi_TxArm9QueueFlushByCmd s) W_TXBUF_CMD = TXBUF_CMD_ENABLE"
  "macmem (Wifi_TxArm9QueueFlushByCmd s) 2 = aid_mask (clients (wd7 s))"
  "macmem (Wifi_TxArm9QueueFlushByCmd s) 38 = aid_mask (clients (wd7 s))"
  by (simp_all add: Wifi_TxArm9QueueFlushByCmd_def Let_def)

lemma flush_loc3_state:
  "txbuf (wd7 (Wifi_TxArm9QueueFlushByLoc3 s)) = txbuf (wd7 s)"
  "regs (Wifi_TxArm9QueueFlushByLoc3 s) W_TXREQ_SET = TXBIT_LOC3 OR TXBIT_LOC2 OR TXBIT_LOC1"
  "regs (Wifi_TxArm9QueueFlushByLoc3 s) W_TXBUF_LOC3 = TXBUF_LOCN_ENABLE"
  by (simp_all add: Wifi_TxArm9QueueFlushByLoc3_def start_loc3_def Let_def Wifi_Random7_def)

lemma flush_all_idle:
  assumes "tx_idle s"
  shows "\<exists>n. Wifi_TxAllQueueFlush s =
    map_option snd (Wifi_TxArm9QueueFlush (wd7_upd (\<lambda>w. w\<lparr>stats := (stats w)(WSTAT_DEBUG := n)\<rparr>) s))"
  using assms
  by (intro exI [of _ "ucast ((regs s W_TXBUF_LOC3 AND TXBUF_LOCN_ENABLE) OR (regs s W_TXBUSY AND 0x7FFF))"])
    (simp add: Wifi_TxAllQueueFlush_def tx_idle_def Wifi_TxLoc3IsBusy_def Wifi_TxCmdIsBusy_def
      Wifi_TxArm7QueueIsEmpty_def wd7_upd_def Let_def)

lemma flush_all_first:
  assumes "tx_idle s" "tx_inv (txbuf (wd7 s)) ((tag, bs) # ps)"
  shows "\<exists>s0. Wifi_TxAllQueueFlush s = map_option snd (flush_packet tag s0) \<and> tx_head s0 tag bs ps \<and>
    regs s0 = regs s \<and> macmem s0 = macmem s \<and> clients (wd7 s0) = clients (wd7 s)"
proof -
  obtain n where n: "Wifi_TxAllQueueFlush s =
      map_option snd (Wifi_TxArm9QueueFlush (wd7_upd (\<lambda>w. w\<lparr>stats := (stats w)(WSTAT_DEBUG := n)\<rparr>) s))"
    using flush_all_idle [OF assms(1)] ..
  define s1 where "s1 = wd7_upd (\<lambda>w. w\<lparr>stats := (stats w)(WSTAT_DEBUG := n)\<rparr>) s"
  have inv: "tx_inv (txbuf (wd7 s1)) ((tag, bs) # ps)" using assms(2) by (simp add: s1_def)
  obtain s0 where s0: "Wifi_TxArm9QueueFlush s1 = flush_packet tag s0" "tx_head s0 tag bs ps"
      "s0 = s1 \<or> s0 = set_tx_read 0 s1"
    using flush_first [OF inv] by blast
  then have "regs s0 = regs s" "macmem s0 = macmem s" "clients (wd7 s0) = clients (wd7 s)"
    by (auto simp: s1_def set_tx_read_def)
  then show ?thesis using n s0 by (auto simp: s1_def)
qed

lemma tx_size_0:
  assumes "tx_head s tag bs ps" "bs \<noteq> []"
  shows "tx_size tag \<noteq> 0"
proof -
  have "length bs = unat (tx_size tag)"
    using tx_head_next [OF assms(1)] unfolding next_packet_def by (simp only: fst_conv snd_conv)
  then show ?thesis using assms(2) by auto
qed

text \<open>C20: When the hardware is idle and the ARM7 has no frame of its own, one pass of the transmission code
  takes exactly the first packet of the ARM9 from the TX buffer, leaves the others in order, and MAC RAM
  then holds the bytes of that packet, apart from the fields the ARM7 fills in (the initialization vector
  only in a protected frame); a command frame is started as a command with the mask of the associated clients in its two client fields, any other
  frame on the normal channel.\<close>

theorem tx_flush_sends_first:
  assumes "tx_idle s" "tx_inv (txbuf (wd7 s)) ((tag, bs) # ps)" "bs \<noteq> []" "length bs \<le> MAC_TXBUF_END_OFFSET"
    "tag AND WFLAG_SEND_AS_REPLY = 0" "tag AND WFLAG_SEND_AS_BEACON = 0"
  shows "\<exists>s'. Wifi_TxAllQueueFlush s = Some s' \<and> tx_inv (txbuf (wd7 s')) ps \<and>
    (\<forall>k < length bs. k \<notin> tx_patched (tag AND WFLAG_SEND_AS_CMD \<noteq> 0) bs \<longrightarrow>
       mac_byte s' (MAC_TXBUF_START_OFFSET + k) = bs ! k) \<and>
    (if tag AND WFLAG_SEND_AS_CMD \<noteq> 0
     then regs s' W_TXREQ_SET = TXBIT_CMD \<and> macmem s' 2 = aid_mask (clients (wd7 s)) \<and>
       macmem s' 38 = aid_mask (clients (wd7 s))
     else regs s' W_TXREQ_SET = TXBIT_LOC3 OR TXBIT_LOC2 OR TXBIT_LOC1)"
proof -
  obtain s0 where s0: "Wifi_TxAllQueueFlush s = map_option snd (flush_packet tag s0)" "tx_head s0 tag bs ps"
      "regs s0 = regs s" "macmem s0 = macmem s" "clients (wd7 s0) = clients (wd7 s)"
    using flush_all_first [OF assms(1,2)] by blast
  obtain s1 where s1: "Wifi_TxArm9QueueCopyFirstData MAC_TXBUF_START_OFFSET MAC_TXBUF_END_OFFSET s0 = Some (tx_size tag, s1)"
      "tx_inv (txbuf (wd7 s1)) ps" "mac_bytes s1 MAC_TXBUF_START_OFFSET (length bs) = bs"
      "clients (wd7 s1) = clients (wd7 s0)"
    using copy_first_data [OF s0(2) assms(4), of MAC_TXBUF_START_OFFSET] assms(4) by auto
  have bytes: "mac_byte s1 k = bs ! k" if "k < length bs" for k
    using s1(3) that nth_mac_bytes [of k "length bs" s1 0] by simp
  note nz = tx_size_0 [OF s0(2) assms(3)]
  show ?thesis
  proof (cases "tag AND WFLAG_SEND_AS_CMD = 0")
    case True
    let ?s' = "Wifi_TxArm9QueueFlushByLoc3 (Wifi_NTR_KeepaliveCountReset s1)"
    have "Wifi_TxAllQueueFlush s = Some ?s'"
      using s0(1) s1(1) assms(5,6) True nz by (simp add: flush_packet_def flush_txbuf_def)
    moreover have "mac_byte ?s' k = bs ! k" if "k < length bs" "k \<notin> tx_patched False bs" for k
    proof -
      have "bit (mac_byte s1 13) 6 \<Longrightarrow> k \<notin> {36, 37, 38, 39}"
        using that bytes [of 13] by (auto simp: tx_patched_def split: if_splits)
      then show ?thesis using flush_loc3_bytes [of k "Wifi_NTR_KeepaliveCountReset s1"] bytes [OF that(1)] that(2)
        by (auto simp: tx_patched_def)
    qed
    ultimately show ?thesis using s1(2) True
      by (intro exI [of _ ?s']) (simp add: flush_loc3_state [simplified])
  next
    case False
    let ?s' = "Wifi_TxArm9QueueFlushByCmd (set_reg W_TX_RETRYLIMIT 0x0707 (Wifi_NTR_KeepaliveCountReset s1))"
    have "Wifi_TxAllQueueFlush s = Some ?s'"
      using s0(1) s1(1) assms(5,6) False nz by (simp add: flush_packet_def flush_txbuf_def)
    moreover have "mac_byte ?s' k = bs ! k" if "k < length bs" "k \<notin> tx_patched True bs" for k
      using flush_cmd_bytes [OF that(2)] bytes [OF that(1)] by simp
    ultimately show ?thesis using s1(2,4) s0(5) False
      by (intro exI [of _ ?s']) (simp add: flush_cmd_state [simplified])
  qed
qed

definition tx_buf_ex :: "u32 \<Rightarrow> circbuf" where
  "tx_buf_ex tag = \<lparr>bufWrite = 8, bufRead = 0, bufData = write_u32 (\<lambda>_. 0) 0 tag\<rparr>"

definition tx_ex :: "u32 \<Rightarrow> arm7" where
  "tx_ex tag = wd7_upd (txbuf_update (\<lambda>_. tx_buf_ex tag)) arm7_zero"

lemma tx_ex_inv:
  "tx_inv (txbuf (wd7 (tx_ex (4 OR WFLAG_SEND_AS_CMD)))) [(4 OR WFLAG_SEND_AS_CMD, [0, 0, 0, 0])]"
  "tx_inv (txbuf (wd7 (tx_ex (4 OR WFLAG_SEND_AS_REPLY)))) [(4 OR WFLAG_SEND_AS_REPLY, [0, 0, 0, 0])]"
  by (simp_all add: tx_ex_def tx_buf_ex_def tx_inv_def ring_inv_def tx_size_def align4_def read_bytes_def
    write_u32_def read_u32_def upt_rec)

lemma tx_ex_idle: "tx_idle (tx_ex tag)"
  by (simp add: tx_idle_def tx_ex_def Wifi_TxLoc3IsBusy_def Wifi_TxCmdIsBusy_def Wifi_TxArm7QueueIsEmpty_def
    arm7_zero_def wd7_upd_def)

theorem tx_flush_sends_first_witness:
  "\<exists>s'. Wifi_TxAllQueueFlush (tx_ex (4 OR WFLAG_SEND_AS_CMD)) = Some s' \<and> tx_inv (txbuf (wd7 s')) [] \<and>
     mac_byte s' 0 = 0 \<and> regs s' W_TXREQ_SET = TXBIT_CMD"
  using tx_flush_sends_first [OF tx_ex_idle tx_ex_inv(1)]
  by (auto simp: tx_patched_def dest: spec [of _ 0])

section \<open>Replies of a multiplayer client\<close>

lemma reply_destination_cases:
  "reply_destination s \<in> {MAC_CLIENT_RX1_START_OFFSET, MAC_CLIENT_RX2_START_OFFSET}"
  "regs s W_TXBUF_REPLY2 AND NOT TXBUF_REPLY_ENABLE = of_nat (reply_destination s div 2) \<Longrightarrow> False"
  by (auto simp: reply_destination_def Let_def split: if_splits)

text \<open>A reply of at most the 256 bytes of a reply buffer is copied to the buffer that the hardware is
  not sending from, becomes the next reply, and the bytes of the other buffer do not change.\<close>

theorem tx_flush_reply_double_buffer:
  assumes "tx_idle s" "tx_inv (txbuf (wd7 s)) ((tag, bs) # ps)" "bs \<noteq> []" "length bs \<le> 256"
    "tag AND WFLAG_SEND_AS_REPLY \<noteq> 0"
    and other: "other_buf \<in> {MAC_CLIENT_RX1_START_OFFSET, MAC_CLIENT_RX2_START_OFFSET}" "other_buf \<noteq> reply_destination s"
  shows "\<exists>s'. Wifi_TxAllQueueFlush s = Some s' \<and> tx_inv (txbuf (wd7 s')) ps \<and>
    mac_bytes s' (reply_destination s) (length bs) = bs \<and>
    mac_bytes s' other_buf 256 = mac_bytes s other_buf 256 \<and>
    regs s' W_TXBUF_REPLY1 = TXBUF_REPLY_ENABLE OR of_nat (reply_destination s div 2) \<and>
    regs s' W_TXBUF_REPLY2 = regs s W_TXBUF_REPLY2"
proof -
  obtain s0 where s0: "Wifi_TxAllQueueFlush s = map_option snd (flush_packet tag s0)" "tx_head s0 tag bs ps"
      "regs s0 = regs s" "macmem s0 = macmem s"
    using flush_all_first [OF assms(1,2)] by blast
  let ?d = "reply_destination s"
  let ?e = "if ?d = MAC_CLIENT_RX1_START_OFFSET then MAC_CLIENT_RX1_END_OFFSET else MAC_CLIENT_RX2_END_OFFSET"
  have d0: "reply_destination s0 = ?d" by (simp add: reply_destination_def s0(3))
  have d: "?d = 0xA00 \<or> ?d = 0xB00" using reply_destination_cases(1) [of s] by auto
  have fits: "length bs \<le> ?e" "?d + length bs \<le> 0x2000" "even ?d" using d assms(4) by auto
  obtain s1 where s1: "Wifi_TxArm9QueueCopyFirstData ?d ?e s0 = Some (tx_size tag, s1)"
      "tx_inv (txbuf (wd7 s1)) ps" "mac_bytes s1 ?d (length bs) = bs"
      "\<And>r. r \<noteq> W_TXBUF_WR_ADDR \<Longrightarrow> regs s1 r = regs s0 r"
      "\<And>a. a < ?d \<or> ?d + 2 * halfwords (length bs) \<le> a \<Longrightarrow> mac_byte s1 a = mac_byte s0 a"
    using copy_first_data [OF s0(2) fits] by blast
  let ?s' = "set_reg W_TXBUF_REPLY1 (TXBUF_REPLY_ENABLE OR of_nat (?d div 2))
      (set_reg W_TX_RETRYLIMIT 0x0707 (Wifi_NTR_KeepaliveCountReset s1))"
  have "Wifi_TxAllQueueFlush s = Some ?s'"
    using s0(1) s1(1) assms(5) tx_size_0 [OF s0(2) assms(3)]
    by (simp add: flush_packet_def Wifi_TxArm9QueueFlushByReply_def d0 Let_def)
  moreover have "mac_byte s1 a = mac_byte s a" if "other_buf \<le> a" "a < other_buf + 256" for a
  proof -
    have "2 * halfwords (length bs) \<le> 256" using assms(4) by (simp add: halfwords_def)
    then have "a < ?d \<or> ?d + 2 * halfwords (length bs) \<le> a" using that other d by auto
    then show ?thesis using s1(5) mac_byte_cong [of s0 a s] s0(4) by simp
  qed
  then have "mac_bytes ?s' other_buf 256 = mac_bytes s other_buf 256"
    by (auto simp: mac_bytes_def)
  moreover have "mac_bytes ?s' ?d (length bs) = bs" using s1(3) by (simp add: mac_bytes_def)
  ultimately show ?thesis using s1(2,4) s0(3) by (intro exI [of _ ?s']) simp
qed

theorem tx_flush_reply_double_buffer_witness:
  "\<exists>s'. Wifi_TxAllQueueFlush (tx_ex (4 OR WFLAG_SEND_AS_REPLY)) = Some s' \<and>
     regs s' W_TXBUF_REPLY1 = 0x8500"
  using tx_flush_reply_double_buffer [OF tx_ex_idle tx_ex_inv(2), of MAC_CLIENT_RX2_START_OFFSET]
  by (auto simp: reply_destination_def tx_ex_def arm7_zero_def wd7_upd_def)

section \<open>Packets that do not fit\<close>

text \<open>A packet that is larger than the end offset of its region is refused, but the read index only moves
  past its size word: the next pass takes the first bytes of the refused packet for a size word.\<close>

theorem tx_oversize_desync:
  assumes "tx_head s tag bs ps" "MAC_TXBUF_END_OFFSET < length bs"
    "tag AND WFLAG_SEND_AS_REPLY = 0" "tag AND WFLAG_SEND_AS_BEACON = 0"
  shows "\<exists>s'. Wifi_TxArm9QueueFlush s = Some (False, s') \<and> macmem s' = macmem s \<and> regs s' = regs s \<and>
    bufRead (txbuf (wd7 s')) = bufRead (txbuf (wd7 s)) + 4 \<and>
    stats (wd7 s') WSTAT_TXQUEUEDREJECTED = stats (wd7 s) WSTAT_TXQUEUEDREJECTED + 1"
proof -
  let ?b = "txbuf (wd7 s)" and ?rd = "bufRead (txbuf (wd7 s))"
  from tx_head_next [OF assms(1)] have nx: "unat ?rd mod 4 = 0" "length bs = unat (tx_size tag)"
      "unat ?rd + 8 + align4 (length bs) \<le> 24576" "tag \<noteq> 0" "tag \<noteq> WIFI_SIZE_WRAP"
    unfolding next_packet_def fst_conv snd_conv by blast+
  have al: "?rd AND 3 = 0" using nx(1) by (simp only: word_and_3_eq_0)
  have tag: "read_u32 (tx_data7 s) (unat ?rd) = tag" using assms(1) by (simp add: tx_head_def)
  have big: "\<not> unat (tag AND WFLAG_SEND_SIZE_MASK) \<le> MAC_TXBUF_END_OFFSET"
    using assms(2) nx(2) unfolding tx_size_def by linarith
  have le: "?rd + 4 \<le> WIFI_TXBUFFER_SIZE - 4" using nx(3) by (simp add: word_le_nat_alt unat_word_ariths)
  have "Wifi_TxArm9QueueFlush s = Some (False, set_tx_read (?rd + 4) (wd7_upd (stat_add WSTAT_TXQUEUEDREJECTED 1) s))"
    using nx(4,5) tag assms(3,4) al big le
    by (simp add: Wifi_TxArm9QueueFlush_def Let_def flush_packet_def flush_txbuf_def Wifi_TxArm9QueueCopyFirstData_def)
  then show ?thesis by (simp add: stat_add_def set_tx_read_def)
qed

section \<open>The queue of the ARM7\<close>

text \<open>While the hardware is sending and the queue is empty, a frame of \<open>n\<close> bytes is queued when it fits in
  the 2048 bytes of the queue and refused above 4096 bytes; between the two, the code writes past
  the end of the queue. A queued frame is what the next flush copies to MAC RAM.\<close>

theorem arm7_queue_cases:
  assumes "Wifi_TxLoc3IsBusy s" "Wifi_TxArm7QueueIsEmpty s" "n < 0x80000000"
    "\<And>i. data i = read_u16 m (2 * i)"
  shows "case Wifi_TxArm7QueueAdd data (of_nat n) s of
      None \<Rightarrow> 2048 < n \<and> n \<le> 4096
    | Some (ok, s') \<Rightarrow> (if ok then n \<le> 2048 \<and> mac_bytes (Wifi_TxArm7QueueFlush s') MAC_TXBUF_START_OFFSET n = read_bytes m 0 n
                        else 4096 < n \<and> s' = s)"
proof -
  have n: "unat (of_nat n + 1 :: u32) = n + 1" using assms(3) by (simp add: unat_word_ariths unat_of_nat)
  have h: "unat (drop_bit 1 (of_nat n + 1 :: u32)) = halfwords n"
    using assms(3) by (simp only: unsigned_drop_bit_eq n)
      (simp add: halfwords_def drop_bit_eq_div take_bit_nat_eq_self)
  show ?thesis
  proof (cases "n \<le> 2048")
    case True
    define s' where "s' = s\<lparr>wifi_tx_queue := \<lambda>i. if i < halfwords n then data i else wifi_tx_queue s i,
        wifi_tx_queue_len := of_nat n\<rparr>"
    have uc: "(ucast (of_nat n :: u32) :: u16) = of_nat n"
      using True by (simp add: word_unat_eq_iff unat_of_nat unsigned_ucast_eq take_bit_nat_eq_self)
    have hw: "\<not> 1024 < Suc n div 2" using True by linarith
    have add: "Wifi_TxArm7QueueAdd data (of_nat n) s = Some (True, s')"
      using assms(1,2) hw h uc
      by (simp add: Wifi_TxArm7QueueAdd_def Wifi_TxArm7QueueSetEnqueuedData_def Let_def s'_def halfwords_def)
    have len: "unat (round_up_32 (ucast (wifi_tx_queue_len s'))) = align4 n"
      using True by (subst unat_round_up_32) (simp_all add: s'_def unsigned_ucast_eq unat_of_nat take_bit_nat_eq_self)
    have "mac_byte (Wifi_TxArm7QueueFlush s') k = m k" if k: "k < n" for k
    proof -
      have "k div 2 < halfwords n" using k by (simp add: halfwords_def)
      then have src: "wifi_tx_queue s' (k div 2) = hword (m (2 * (k div 2))) (m (2 * (k div 2) + 1))"
        by (simp add: s'_def assms(4) read_u16_hword)
      have le: "0 + align4 n \<le> 0x2000" "k < align4 n" using True k align4_bounds(1,2) [of n] by linarith+
      show ?thesis using MACWrite_byte [OF le(1) _ le(2), of "wifi_tx_queue s'", OF _ src, of s']
        by (cases "even k") (auto simp: Wifi_TxArm7QueueFlush_def Wifi_TxRaw_def start_loc3_def Let_def len
          elim!: evenE oddE)
    qed
    then have "mac_bytes (Wifi_TxArm7QueueFlush s') MAC_TXBUF_START_OFFSET n = read_bytes m 0 n"
      by (simp add: mac_bytes_def read_bytes_def)
    then show ?thesis using add True by simp
  next
    case False
    then show ?thesis using assms(1,2) h
      by (simp add: Wifi_TxArm7QueueAdd_def Wifi_TxArm7QueueSetEnqueuedData_def Let_def halfwords_def) presburger
  qed
qed

theorem arm7_queue_cases_witness:
  "Wifi_TxArm7QueueAdd (\<lambda>_. 0) 3000 (set_reg W_TXBUSY TXBIT_LOC3 arm7_zero) = None"
proof -
  let ?s = "set_reg W_TXBUSY TXBIT_LOC3 arm7_zero"
  have "Wifi_TxLoc3IsBusy ?s" "Wifi_TxArm7QueueIsEmpty ?s"
    by (simp_all add: Wifi_TxLoc3IsBusy_def Wifi_TxArm7QueueIsEmpty_def set_reg_def arm7_zero_def)
  from arm7_queue_cases [OF this, of 3000 "\<lambda>_. 0" "\<lambda>_. 0"]
  show ?thesis by (auto simp: read_u16_def split: option.splits prod.splits if_splits)
qed

theorem tx_oversize_desync_witness:
  "\<exists>s'. Wifi_TxArm9QueueFlush (wd7_upd (txbuf_update (\<lambda>_. \<lparr>bufWrite = 3004, bufRead = 0,
       bufData = write_u32 (\<lambda>_. 0) 0 (3000 OR WFLAG_SEND_AS_DATA)\<rparr>)) arm7_zero) = Some (False, s') \<and>
     bufRead (txbuf (wd7 s')) = 4"
proof -
  let ?s = "wd7_upd (txbuf_update (\<lambda>_. \<lparr>bufWrite = 3004, bufRead = 0,
       bufData = write_u32 (\<lambda>_. 0) 0 (3000 OR WFLAG_SEND_AS_DATA)\<rparr>)) arm7_zero"
  have m: "read_bytes (write_u32 (\<lambda>_. 0) 0 (3000 OR WFLAG_SEND_AS_DATA)) 4 3000 = replicate 3000 0"
    by (rule nth_equalityI) (simp_all add: write_u32_def)
  have w: "read_u32 (write_u32 (\<lambda>_. 0) 0 (3000 OR WFLAG_SEND_AS_DATA)) 3004 = 0"
    by (subst read_write_u32_other) (simp_all add: read_u32_def)
  have "tx_head ?s (3000 OR WFLAG_SEND_AS_DATA) (replicate 3000 0) []"
    using m w by (simp add: tx_head_def tx_data7_def tx_inv_def ring_inv_def tx_size_def align4_def)
  from tx_oversize_desync [OF this] show ?thesis by auto
qed

end
