(* ===== verification/Arm7_Frames.thy ===== *)
theory Arm7_Frames
  imports Arm7_Tx
begin

text \<open>
  The frames that the ARM7 builds itself: the headers of \<^verbatim>\<open>ieee_802_11/header.c\<close>, the null
  frame of \<^verbatim>\<open>other.c\<close> and the senders of \<^verbatim>\<open>authentication.c\<close> and
  \<^verbatim>\<open>association.c\<close>. A frame is the list of bytes of the local structure; the copy to
  the hardware is rounded up and may read bytes that follow it on the stack.
\<close>

definition RATE_OPTIONAL :: u8 where [simp]: "RATE_OPTIONAL = 0"
definition RATE_5_5_MBPS :: u8 where [simp]: "RATE_5_5_MBPS = 11"
definition RATE_11_MBPS :: u8 where [simp]: "RATE_11_MBPS = 22"

section \<open>Headers\<close>

definition IEEE_MgtFrameHeader_bytes :: "u16 \<Rightarrow> mac \<Rightarrow> mac \<Rightarrow> mac \<Rightarrow> u8 list" where
  "IEEE_MgtFrameHeader_bytes frame_control da sa bss =
     le16 frame_control @ le16 0 @ Wifi_CopyMacAddr da @ Wifi_CopyMacAddr sa @ Wifi_CopyMacAddr bss @ le16 0"

text \<open>
  \<^verbatim>\<open>Wifi_GenMgtHeader\<close> writes the IEEE header and, for protected frames, four bytes with
  the initialization vector; the callers fill in the rate and the length of the hardware header.
  \<open>mgt_frame\<close> is the finished frame, \<open>extra\<close> the bytes that the hardware appends to it.
\<close>

definition Wifi_GenMgtHeader :: "u16 \<Rightarrow> arm7 \<Rightarrow> u8 list \<times> arm7" where
  "Wifi_GenMgtHeader headerflags s =
     (let ieee = IEEE_MgtFrameHeader_bytes headerflags (bssid (curAp (wd7 s))) (MacAddr (wd7 s)) (bssid (curAp (wd7 s)))
      in if headerflags AND FC_PROTECTED_FRAME \<noteq> 0 then
           let (v, w) = Wifi_Random7 (wd7 s)
           in (ieee @ le32 ((v AND 0x0FFF) OR push_bit 30 0), s\<lparr>wd7 := w\<rparr>)
         else (ieee, s))"

definition Wifi_MPHost_GenMgtHeader :: "u16 \<Rightarrow> mac \<Rightarrow> arm7 \<Rightarrow> u8 list" where
  "Wifi_MPHost_GenMgtHeader headerflags dest_mac s =
     IEEE_MgtFrameHeader_bytes headerflags dest_mac (MacAddr (wd7 s)) (MacAddr (wd7 s))"

definition mgt_frame :: "u8 list \<Rightarrow> u8 list \<Rightarrow> nat \<Rightarrow> u8 list" where
  "mgt_frame header body extra =
     Wifi_TxHeader_bytes WIFI_TRANSFER_RATE_1MBPS (of_nat (length header + length body + extra)) @ header @ body"

definition frame_src :: "u8 list \<Rightarrow> arm7 \<Rightarrow> nat \<Rightarrow> u16" where
  "frame_src frame s i = read_u16 (write_bytes (stack7 s) 0 frame) (2 * i)"

definition send_frame :: "u8 list \<Rightarrow> arm7 \<Rightarrow> (bool \<times> arm7) option" where
  "send_frame frame s = Wifi_TxArm7QueueAdd (frame_src frame s) (of_nat (length frame)) s"

section \<open>Senders of a station\<close>

text \<open>The field \<^verbatim>\<open>enable_flags\<close> of the null frame is not initialized.\<close>

definition Wifi_SendNullFrame :: "arm7 \<Rightarrow> (bool \<times> arm7) option" where
  "Wifi_SendNullFrame s =
     send_frame ([stack7 s 0, stack7 s 1] @ replicate 6 0 @ le16 (ucast (maxrate7 (wd7 s))) @ le16 (24 + 4) @
       IEEE_DataFrameHeader_bytes (TYPE_NULL_FUNCTION OR FC_TO_DS) 0 (bssid (curAp (wd7 s))) (MacAddr (wd7 s))
         (bssid (curAp (wd7 s))) 0) s"

definition auth_body :: "u16 \<Rightarrow> u16 \<Rightarrow> u16 \<Rightarrow> u8 list" where
  "auth_body auth_algorithm seq_number status_code = le16 auth_algorithm @ le16 seq_number @ le16 status_code"

definition Wifi_SendOpenSystemAuthPacket :: "arm7 \<Rightarrow> (bool \<times> arm7) option" where
  "Wifi_SendOpenSystemAuthPacket s =
     (let (hdr, s) = Wifi_GenMgtHeader TYPE_AUTHENTICATION s
      in send_frame (mgt_frame hdr (auth_body AUTH_ALGO_OPEN_SYSTEM 1 0) 4) s)"

definition Wifi_SendSharedKeyAuthPacket :: "arm7 \<Rightarrow> (bool \<times> arm7) option" where
  "Wifi_SendSharedKeyAuthPacket s =
     (let (hdr, s) = Wifi_GenMgtHeader TYPE_AUTHENTICATION s
      in send_frame (mgt_frame hdr (auth_body AUTH_ALGO_SHARED_KEY 1 0) 4) s)"

definition Wifi_SendSharedKeyAuthPacket2 :: "nat \<Rightarrow> u8 list \<Rightarrow> arm7 \<Rightarrow> (bool \<times> arm7) option" where
  "Wifi_SendSharedKeyAuthPacket2 challenge_length challenge_Text s =
     (if challenge_length > 253 then Some (False, s)
      else
        let (hdr, s) = Wifi_GenMgtHeader (TYPE_AUTHENTICATION OR FC_PROTECTED_FRAME) s;
            body = auth_body AUTH_ALGO_SHARED_KEY 3 0 @ [MGT_FIE_ID_CHALLENGE_TEXT, of_nat challenge_length] @
                     take challenge_length challenge_Text
        in send_frame (mgt_frame hdr body (4 + 4)) s)"

definition Wifi_SendDeauthentication :: "u16 \<Rightarrow> arm7 \<Rightarrow> (bool \<times> arm7) option" where
  "Wifi_SendDeauthentication reason_code s =
     (let (hdr, s) = Wifi_GenMgtHeader TYPE_DEAUTHENTICATION s
      in send_frame (mgt_frame hdr (le16 reason_code) 4) s)"

definition caps_info :: "arm7 \<Rightarrow> u16" where
  "caps_info s =
     (if security_type (curAp (wd7 s)) = AP_SECURITY_WEP then CAPS_ESS OR CAPS_PRIVACY OR CAPS_SHORT_PREAMBLE
      else CAPS_ESS OR CAPS_SHORT_PREAMBLE)"

definition real_rates :: "u8 list" where
  "real_rates = [MGT_FIE_ID_SUPPORTED_RATES, 2, RATE_1_MBPS OR RATE_MANDATORY, RATE_2_MBPS OR RATE_OPTIONAL]"

text \<open>The local array of the association request has 96 bytes, which 46 bytes and an SSID of 32 fit.\<close>

definition assoc_body :: "arm7 \<Rightarrow> u8 list" where
  "assoc_body s =
     le16 (caps_info s) @ le16 (regs s W_LISTENINT) @
     [MGT_FIE_ID_SSID, ssid_len (curAp (wd7 s))] @
     take (unat (ssid_len (curAp (wd7 s)))) (ssid (curAp (wd7 s))) @
     (if realRates (wd7 s) then real_rates
      else [MGT_FIE_ID_SUPPORTED_RATES, 4, RATE_1_MBPS OR RATE_MANDATORY, RATE_2_MBPS OR RATE_OPTIONAL,
            RATE_5_5_MBPS OR RATE_OPTIONAL, RATE_11_MBPS OR RATE_OPTIONAL])"

definition Wifi_SendAssocPacket :: "arm7 \<Rightarrow> (bool \<times> arm7) option" where
  "Wifi_SendAssocPacket s =
     (let (hdr, s) = Wifi_GenMgtHeader TYPE_ASSOC_REQUEST s;
          frame = mgt_frame hdr (assoc_body s) 4
      in if unat (ssid_len (curAp (wd7 s))) > length (ssid (curAp (wd7 s))) \<or> length frame > 96 then None
         else send_frame frame s)"

section \<open>Senders of a multiplayer host\<close>

definition Wifi_MPHost_SendOpenSystemAuthPacket :: "mac \<Rightarrow> u16 \<Rightarrow> arm7 \<Rightarrow> (bool \<times> arm7) option" where
  "Wifi_MPHost_SendOpenSystemAuthPacket client_mac status_code s =
     send_frame (mgt_frame (Wifi_MPHost_GenMgtHeader TYPE_AUTHENTICATION client_mac s)
       (auth_body AUTH_ALGO_OPEN_SYSTEM 2 status_code) 4) s"

definition Wifi_MPHost_SendDeauthentication :: "mac \<Rightarrow> u16 \<Rightarrow> arm7 \<Rightarrow> (bool \<times> arm7) option" where
  "Wifi_MPHost_SendDeauthentication dest_mac reason_code s =
     send_frame (mgt_frame (Wifi_MPHost_GenMgtHeader TYPE_DEAUTHENTICATION dest_mac s) (le16 reason_code) 4) s"

definition Wifi_MPHost_SendAssocResponsePacket :: "mac \<Rightarrow> u16 \<Rightarrow> u16 \<Rightarrow> arm7 \<Rightarrow> (bool \<times> arm7) option" where
  "Wifi_MPHost_SendAssocResponsePacket client_mac status_code aid s =
     send_frame (mgt_frame (Wifi_MPHost_GenMgtHeader TYPE_ASSOC_RESPONSE client_mac s)
       (le16 (caps_info s) @ le16 status_code @ le16 aid @ real_rates) 4) s"

section \<open>Sending never fails on small frames\<close>

text \<open>What a sender of a small frame can do: it hands the frame to the hardware or to the queue, or
  drops it; everything else of the state that the other components use stays.\<close>

definition kept_regs :: "nat list" where
  "kept_regs = [W_IE, W_IF, W_US_COUNT1, W_RXBUF_WRCSR, W_RXBUF_READCSR]"

definition sent7 :: "arm7 \<Rightarrow> arm7 \<Rightarrow> bool" where
  "sent7 s s' \<longleftrightarrow> clients (wd7 s') = clients (wd7 s) \<and> curMaxClients (wd7 s') = curMaxClients (wd7 s) \<and>
     reqFlags (wd7 s') = reqFlags (wd7 s) \<and> authlevel (wd7 s') = authlevel (wd7 s) \<and>
     authctr (wd7 s') = authctr (wd7 s) \<and> curMode (wd7 s') = curMode (wd7 s) \<and> reqMode (wd7 s') = reqMode (wd7 s) \<and>
     curLibraryMode (wd7 s') = curLibraryMode (wd7 s) \<and> reqLibraryMode (wd7 s') = reqLibraryMode (wd7 s) \<and>
     curAp (wd7 s') = curAp (wd7 s) \<and> realRates (wd7 s') = realRates (wd7 s) \<and> MacAddr (wd7 s') = MacAddr (wd7 s) \<and>
     aplist (wd7 s') = aplist (wd7 s) \<and> rxbuf (wd7 s') = rxbuf (wd7 s) \<and> txbuf (wd7 s') = txbuf (wd7 s) \<and>
     dswifi_information_addr s' = dswifi_information_addr s \<and> wifi_scan_index s' = wifi_scan_index s \<and>
     curChannel (wd7 s') = curChannel (wd7 s) \<and> reqChannel (wd7 s') = reqChannel (wd7 s) \<and>
     counter7 (wd7 s') = counter7 (wd7 s) \<and> flags7 (wd7 s') = flags7 (wd7 s) \<and>
     reqMaxClients (wd7 s') = reqMaxClients (wd7 s) \<and> wfc (wd7 s') = wfc (wd7 s) \<and>
     wfc_number_of_configs (wd7 s') = wfc_number_of_configs (wd7 s) \<and> WifiData_set7 s' = WifiData_set7 s \<and>
     map (regs s') kept_regs = map (regs s) kept_regs"

lemma sent7_refl [simp]: "sent7 s s"
  by (simp add: sent7_def)

lemma sent7_trans: "sent7 s s' \<Longrightarrow> sent7 s' s'' \<Longrightarrow> sent7 s s''"
  by (simp add: sent7_def)

lemma TxRaw_sent7 [simp]: "sent7 s (Wifi_TxRaw d n s)"
  by (simp add: sent7_def kept_regs_def Wifi_TxRaw_def Let_def start_loc3_def stat_add_def set_reg_def wd7_upd_def Wifi_MACWrite_def)

lemma TxArm7QueueFlush_sent7 [simp]: "sent7 s (Wifi_TxArm7QueueFlush s)"
  using TxRaw_sent7 [of s "wifi_tx_queue s" "ucast (wifi_tx_queue_len s)"]
  by (simp add: sent7_def Wifi_TxArm7QueueFlush_def)

lemma queue_add_small:
  assumes "unat n \<le> 2048"
  shows "\<exists>ok s'. Wifi_TxArm7QueueAdd d n s = Some (ok, s') \<and> sent7 s s'"
proof -
  have "unat (n + 1) = unat n + 1" using assms by (simp add: unat_word_ariths)
  then have "unat (drop_bit 1 (n + 1)) = (unat n + 1) div 2"
    using assms by (simp only: unsigned_drop_bit_eq) (simp add: drop_bit_eq_div take_bit_nat_eq_self)
  then have le: "unat (drop_bit 1 (n + 1)) \<le> 1024" using assms by simp
  have enq: "\<exists>s'. Wifi_TxArm7QueueSetEnqueuedData d n t = Some (True, s') \<and> sent7 t s'" for t
    using le by (simp add: Wifi_TxArm7QueueSetEnqueuedData_def Let_def sent7_def)
  show ?thesis
    using enq [of s] enq [of "Wifi_TxArm7QueueFlush s"]
    by (auto simp: Wifi_TxArm7QueueAdd_def intro: sent7_trans [OF TxArm7QueueFlush_sent7])
qed

lemma send_frame_ok:
  assumes "length frame \<le> 2048"
  shows "\<exists>ok s'. send_frame frame s = Some (ok, s') \<and> sent7 s s'"
proof -
  have "unat (of_nat (length frame) :: u32) = length frame"
    using assms by (simp add: unat_of_nat take_bit_nat_eq_self)
  then show ?thesis using queue_add_small assms unfolding send_frame_def by simp
qed

lemma length_IEEE_MgtFrameHeader_bytes: "length (IEEE_MgtFrameHeader_bytes fc a b c) \<le> 24"
  by (simp add: IEEE_MgtFrameHeader_bytes_def Wifi_CopyMacAddr_def)

lemma length_mgt_frame [simp]: "length (mgt_frame h b e) = 12 + length h + length b"
  by (simp add: mgt_frame_def)

lemma send_mphost_frame_ok:
  assumes "length body \<le> 1024"
  shows "\<exists>ok s'. send_frame (mgt_frame (Wifi_MPHost_GenMgtHeader fc m s) body e) s = Some (ok, s') \<and> sent7 s s'"
proof (rule send_frame_ok)
  show "length (mgt_frame (Wifi_MPHost_GenMgtHeader fc m s) body e) \<le> 2048"
    using assms length_IEEE_MgtFrameHeader_bytes [of fc m "MacAddr (wd7 s)" "MacAddr (wd7 s)"]
    by (simp add: Wifi_MPHost_GenMgtHeader_def)
qed

lemma length_auth_body [simp]: "length (auth_body a n st) = 6"
  by (simp add: auth_body_def)

lemma mphost_senders_ok:
  "\<exists>ok s'. Wifi_MPHost_SendOpenSystemAuthPacket m st s = Some (ok, s') \<and> sent7 s s'"
  "\<exists>ok s'. Wifi_MPHost_SendDeauthentication m rc s = Some (ok, s') \<and> sent7 s s'"
  "\<exists>ok s'. Wifi_MPHost_SendAssocResponsePacket m st aid s = Some (ok, s') \<and> sent7 s s'"
  using send_mphost_frame_ok [of "auth_body AUTH_ALGO_OPEN_SYSTEM 2 st"] send_mphost_frame_ok [of "le16 rc"]
    send_mphost_frame_ok [of "le16 (caps_info s) @ le16 st @ le16 aid @ real_rates"]
  by (simp_all add: Wifi_MPHost_SendOpenSystemAuthPacket_def Wifi_MPHost_SendDeauthentication_def
    Wifi_MPHost_SendAssocResponsePacket_def real_rates_def)

lemma GenMgtHeader_ok: "length (fst (Wifi_GenMgtHeader fc s)) \<le> 28" "sent7 s (snd (Wifi_GenMgtHeader fc s))"
  using length_IEEE_MgtFrameHeader_bytes [of fc "bssid (curAp (wd7 s))" "MacAddr (wd7 s)" "bssid (curAp (wd7 s))"]
  by (auto simp: Wifi_GenMgtHeader_def Let_def le32_def sent7_def Wifi_Random7_def split: prod.splits)

lemma send_station_frame_ok:
  assumes "\<And>t. length (body t) \<le> 1024"
  shows "\<exists>ok s'. (let (hdr, t) = Wifi_GenMgtHeader fc s in send_frame (mgt_frame hdr (body t) e) t) = Some (ok, s') \<and> sent7 s s'"
proof -
  obtain hdr t where h: "Wifi_GenMgtHeader fc s = (hdr, t)" by (cases "Wifi_GenMgtHeader fc s")
  then have "length (mgt_frame hdr (body t) e) \<le> 2048"
    using GenMgtHeader_ok(1) [of fc s] assms [of t] by simp
  then obtain ok s' where "send_frame (mgt_frame hdr (body t) e) t = Some (ok, s')" "sent7 t s'"
    using send_frame_ok by blast
  moreover have "sent7 s t" using GenMgtHeader_ok(2) [of s fc] h by simp
  ultimately show ?thesis using h sent7_trans by auto
qed

lemma station_senders_ok:
  "\<exists>ok s'. Wifi_SendOpenSystemAuthPacket s = Some (ok, s') \<and> sent7 s s'"
  "\<exists>ok s'. Wifi_SendSharedKeyAuthPacket s = Some (ok, s') \<and> sent7 s s'"
  "\<exists>ok s'. Wifi_SendDeauthentication rc s = Some (ok, s') \<and> sent7 s s'"
  unfolding Wifi_SendOpenSystemAuthPacket_def Wifi_SendSharedKeyAuthPacket_def Wifi_SendDeauthentication_def
  by (rule send_station_frame_ok, simp)+

lemma SendSharedKeyAuthPacket2_ok:
  "\<exists>ok s'. Wifi_SendSharedKeyAuthPacket2 n ch s = Some (ok, s') \<and> sent7 s s'"
proof (cases "253 < n")
  case False
  let ?body = "auth_body AUTH_ALGO_SHARED_KEY 3 0 @ [MGT_FIE_ID_CHALLENGE_TEXT, of_nat n] @ take n ch"
  have "length ?body \<le> 1024" using False by simp
  from send_station_frame_ok [of "\<lambda>_. ?body", OF this, of "TYPE_AUTHENTICATION OR FC_PROTECTED_FRAME" s "4 + 4"] False
  show ?thesis by (simp only: Wifi_SendSharedKeyAuthPacket2_def Let_def if_False)
qed (auto simp: Wifi_SendSharedKeyAuthPacket2_def)

end
