(* ===== verification/Wfc.thy ===== *)
theory Wfc
  imports Ieee_Defs
begin

text \<open>
  The access points saved in the firmware (\<^verbatim>\<open>arm7/wfc.c\<close>). The flash chip is read with
  \<^verbatim>\<open>readFirmware\<close> of libnds, which is a parameter: the function from addresses to bytes.
  A saved entry is the function from the offsets of its structure to bytes. \<open>None\<close> stands for
  a shift by a negative amount and for a write past the end of the table of six entries.
\<close>

section \<open>Checksum\<close>

text \<open>One step of the inner loop; \<^verbatim>\<open>crc\<close> is an \<^verbatim>\<open>int\<close>, a word here.\<close>

definition crc_shift :: "u32 \<Rightarrow> u32" where
  "crc_shift crc = (if crc AND 1 \<noteq> 0 then drop_bit 1 crc XOR 0xA001 else drop_bit 1 crc)"

definition crc_byte :: "u32 \<Rightarrow> u8 \<Rightarrow> u32" where
  "crc_byte crc b = (crc_shift ^^ 8) (crc XOR ucast b)"

definition wifi_crc16_slow :: "u8 list \<Rightarrow> u32" where
  "wifi_crc16_slow data = foldl crc_byte 0x0000 data AND 0xFFFF"

section \<open>Layout of the saved entries\<close>

definition F_USER_SETTINGS_OFFSET :: nat where [simp]: "F_USER_SETTINGS_OFFSET = 0x020"

definition cfg_ssid :: nat where [simp]: "cfg_ssid = 0x40"
definition cfg_wep_key1 :: nat where [simp]: "cfg_wep_key1 = 0x80"
definition cfg_ip :: nat where [simp]: "cfg_ip = 0xC0"
definition cfg_gateway :: nat where [simp]: "cfg_gateway = 0xC4"
definition cfg_primary_dns :: nat where [simp]: "cfg_primary_dns = 0xC8"
definition cfg_secondary_dns :: nat where [simp]: "cfg_secondary_dns = 0xCC"
definition cfg_subnet_mask :: nat where [simp]: "cfg_subnet_mask = 0xD0"
definition cfg_wep_mode :: nat where [simp]: "cfg_wep_mode = 0xE6"
definition ntr_cfg_status :: nat where [simp]: "ntr_cfg_status = 0xE7"
definition twl_cfg_wpa_mode :: nat where [simp]: "twl_cfg_wpa_mode = 0xE7"
definition twl_cfg_slot_idx :: nat where [simp]: "twl_cfg_slot_idx = 0xEF"
definition twl_cfg_pmk :: nat where [simp]: "twl_cfg_pmk = 0x100"
definition twl_cfg_pass :: nat where [simp]: "twl_cfg_pass = 0x120"
definition sizeof_nvram_cfg_ntr :: nat where [simp]: "sizeof_nvram_cfg_ntr = 0x100"
definition sizeof_nvram_cfg_twl :: nat where [simp]: "sizeof_nvram_cfg_twl = 0x200"

definition wfc_base :: "u32 \<Rightarrow> (nat \<Rightarrow> u8) \<Rightarrow> u32" where
  "wfc_base back firmware = ucast (read_u16 firmware F_USER_SETTINGS_OFFSET) * 8 - back"

definition read_cfg :: "(nat \<Rightarrow> u8) \<Rightarrow> u32 \<Rightarrow> nat \<Rightarrow> nat \<Rightarrow> mem8" where
  "read_cfg firmware base sz i = (\<lambda>k. firmware (unat (base + of_nat (i * sz)) + k))"

section \<open>Copying an entry\<close>

definition entry_is_zeroed :: "nat \<Rightarrow> mem8 \<Rightarrow> bool" where
  "entry_is_zeroed sz d \<longleftrightarrow> (\<forall>b \<in> set (read_bytes d 0 sz). b = 0)"

fun ssid_length :: "u8 list \<Rightarrow> nat" where
  "ssid_length [] = 0"
| "ssid_length (b # bs) = (if b = 0 then 0 else 1 + ssid_length bs)"

fun subnet_bits :: "nat \<Rightarrow> nat \<Rightarrow> u32 \<Rightarrow> u32 option" where
  "subnet_bits 0 n acc = Some acc"
| "subnet_bits (Suc k) n acc = (if n > 31 then None else subnet_bits k (n + 1) (acc OR push_bit (31 - n) 1))"

definition htonl :: "u32 \<Rightarrow> u32" where
  "htonl s = push_bit 24 s OR drop_bit 24 s OR push_bit 8 (s AND 0xFF00) OR drop_bit 8 (s AND 0xFF0000)"

definition set_key :: "nat \<Rightarrow> u8 list \<Rightarrow> Wifi_ApSecurity \<Rightarrow> Wifi_ApSecurity" where
  "set_key key_len key sec = sec\<lparr>pass := take key_len key @ drop key_len (pass sec), pass_len := of_nat key_len\<rparr>"

text \<open>The part that both formats share: name, addresses and subnet mask.\<close>

definition wfc_common :: "mem8 \<Rightarrow> wfc_entry \<Rightarrow> wfc_entry option" where
  "wfc_common d e =
     map_option (\<lambda>m.
       e\<lparr>wfc_ssid := read_bytes d cfg_ssid 32 @ drop 32 (wfc_ssid e),
         wfc_ssid_len := of_nat (ssid_length (read_bytes d cfg_ssid 32)),
         wfc_ip := read_u32 d cfg_ip, wfc_gateway := read_u32 d cfg_gateway,
         wfc_dns_primary := read_u32 d cfg_primary_dns, wfc_dns_secondary := read_u32 d cfg_secondary_dns,
         wfc_subnet_mask := htonl m\<rparr>)
       (subnet_bits (unat (d cfg_subnet_mask)) 0 0)"

definition ntr_entry :: "mem8 \<Rightarrow> wfc_entry \<Rightarrow> wfc_entry option" where
  "ntr_entry d e =
     (let key_len = Wifi_WepKeySizeFromMode (unat (d cfg_wep_mode))
      in wfc_common d (e\<lparr>wfc_security := set_key key_len (read_bytes d cfg_wep_key1 16) (wfc_security e)\<rparr>))"

definition twl_entry :: "mem8 \<Rightarrow> wfc_entry \<Rightarrow> wfc_entry option" where
  "twl_entry d e =
     (let wepmode = unat (d cfg_wep_mode);
          sec = wfc_security e;
          sec = (if wepmode \<noteq> WEPMODE_NONE
                 then set_key (Wifi_WepKeySizeFromMode wepmode) (read_bytes d cfg_wep_key1 16) sec else sec);
          sec = (if d twl_cfg_wpa_mode \<noteq> 0
                 then (set_key 64 (read_bytes d twl_cfg_pass 64) sec)\<lparr>pmk := read_bytes d twl_cfg_pmk 0x20\<rparr> else sec)
      in wfc_common d (e\<lparr>wfc_security := sec\<rparr>))"

definition ntr_valid :: "mem8 \<Rightarrow> bool" where
  "ntr_valid d \<longleftrightarrow> \<not> entry_is_zeroed sizeof_nvram_cfg_ntr d \<and> wifi_crc16_slow (read_bytes d 0 256) = 0 \<and>
     d ntr_cfg_status = 0x00 \<and> d cfg_wep_mode \<le> 7"

definition twl_valid :: "bool \<Rightarrow> mem8 \<Rightarrow> bool" where
  "twl_valid allow_wpa d \<longleftrightarrow> \<not> entry_is_zeroed sizeof_nvram_cfg_twl d \<and>
     wifi_crc16_slow (read_bytes d 0 256) = 0 \<and> wifi_crc16_slow (read_bytes d 256 256) = 0 \<and>
     d twl_cfg_slot_idx \<noteq> 0x00 \<and> d cfg_wep_mode \<le> 7 \<and> (d twl_cfg_wpa_mode = 0 \<or> allow_wpa)"

text \<open>The loops over the three entries; \<open>c\<close> is the slot written next.\<close>

fun wfc_load :: "(mem8 \<Rightarrow> bool) \<Rightarrow> (mem8 \<Rightarrow> wfc_entry \<Rightarrow> wfc_entry option) \<Rightarrow> mem8 list \<Rightarrow> nat \<Rightarrow> Wifi_MainStruct \<Rightarrow>
    (nat \<times> Wifi_MainStruct) option" where
  "wfc_load valid copy [] c w = Some (c, w)"
| "wfc_load valid copy (d # ds) c w =
     (if \<not> valid d then wfc_load valid copy ds c w
      else if c \<ge> length (wfc w) then None
      else do { e \<leftarrow> copy d (wfc w ! c);
                wfc_load valid copy ds (c + 1) (w\<lparr>wfc := (wfc w)[c := e]\<rparr>) })"

definition wfc_slots :: "(nat \<Rightarrow> u8) \<Rightarrow> u32 \<Rightarrow> nat \<Rightarrow> mem8 list" where
  "wfc_slots firmware back sz = map (read_cfg firmware (wfc_base back firmware) sz) [0..<3]"

definition Wifi_NTR_GetWfcSettings :: "(nat \<Rightarrow> u8) \<Rightarrow> Wifi_MainStruct \<Rightarrow> Wifi_MainStruct option" where
  "Wifi_NTR_GetWfcSettings firmware w =
     map_option (\<lambda>(c, w). w\<lparr>wfc_number_of_configs := of_nat c\<rparr>)
       (wfc_load ntr_valid ntr_entry (wfc_slots firmware 0x400 sizeof_nvram_cfg_ntr) 0 w)"

definition Wifi_TWL_GetWfcSettings :: "(nat \<Rightarrow> u8) \<Rightarrow> bool \<Rightarrow> Wifi_MainStruct \<Rightarrow> Wifi_MainStruct option" where
  "Wifi_TWL_GetWfcSettings firmware allow_wpa w =
     map_option (\<lambda>(c, w). w\<lparr>wfc_number_of_configs := of_nat c\<rparr>)
       (wfc_load (twl_valid allow_wpa) twl_entry (wfc_slots firmware 0xA00 sizeof_nvram_cfg_twl)
         (unat (wfc_number_of_configs w)) w)"

text \<open>The search by name; \<^verbatim>\<open>-1\<close> is \<open>None\<close>.\<close>

fun find_ssid :: "u8 list \<Rightarrow> nat \<Rightarrow> nat \<Rightarrow> wfc_entry list \<Rightarrow> nat option" where
  "find_ssid nm len i [] = None"
| "find_ssid nm len i (e # es) =
     (if len \<noteq> unat (wfc_ssid_len e) then find_ssid nm len (i + 1) es
      else if take len nm \<noteq> take len (wfc_ssid e) then find_ssid nm len (i + 1) es
      else Some i)"

definition Wifi_GetWfcAccessPointIndex :: "u8 list \<Rightarrow> nat \<Rightarrow> Wifi_MainStruct \<Rightarrow> nat option" where
  "Wifi_GetWfcAccessPointIndex nm len w = find_ssid nm len 0 (take (unat (wfc_number_of_configs w)) (wfc w))"

section \<open>The checksum accepts what it is stored with\<close>

lemma crc_shift_even: "\<not> bit x 0 \<Longrightarrow> crc_shift x = drop_bit 1 x"
  by (simp add: crc_shift_def and_one_eq odd_iff_mod_2_eq_one bit_0 flip: mod_2_eq_odd)

lemma crc_shift_high:
  assumes "\<And>i. i < n \<Longrightarrow> \<not> bit x i"
  shows "(crc_shift ^^ n) x = drop_bit n x"
  using assms
proof (induction n arbitrary: x)
  case (Suc n)
  have "\<not> bit x 0" using Suc.prems by blast
  then have s: "crc_shift x = drop_bit 1 x" by (rule crc_shift_even)
  have "(crc_shift ^^ n) (drop_bit 1 x) = drop_bit n (drop_bit 1 x)"
    by (rule Suc.IH) (use Suc.prems in \<open>simp add: bit_drop_bit_eq\<close>)
  then show ?case by (simp only: funpow_Suc_right comp_def s drop_bit_drop_bit) (simp add: add.commute)
qed simp

text \<open>A byte equal to the low byte of the state shifts the state right by eight bits.\<close>

lemma crc_byte_low: "crc_byte x (ucast x) = drop_bit 8 x"
proof -
  have low: "\<not> bit (x XOR ucast (ucast x :: u8)) i" if "i < 8" for i
    using that by (simp add: bit_xor_iff bit_unsigned_iff)
  have "crc_byte x (ucast x) = drop_bit 8 (x XOR ucast (ucast x :: u8))"
    unfolding crc_byte_def by (rule crc_shift_high) (rule low)
  also have "\<dots> = drop_bit 8 x"
    by (rule bit_word_eqI) (auto simp: bit_drop_bit_eq bit_xor_iff bit_unsigned_iff dest: bit_imp_le_length)
  finally show ?thesis .
qed

lemma lt_16_iff: "x < 0x10000 \<longleftrightarrow> (\<forall>i \<ge> 16. \<not> bit x i)" for x :: u32
proof -
  have "x < 0x10000 \<longleftrightarrow> unat (drop_bit 16 x) = 0"
    unfolding unat_drop_bit_eq word_less_nat_alt by (simp add: drop_bit_eq_div div_eq_0_iff)
  also have "\<dots> \<longleftrightarrow> drop_bit 16 x = 0" by (rule unat_eq_zero)
  also have "\<dots> \<longleftrightarrow> (\<forall>i. \<not> bit x (16 + i))"
    using bit_imp_le_length [of x] by (fastforce simp: bit_eq_iff bit_drop_bit_eq)
  also have "\<dots> \<longleftrightarrow> (\<forall>i \<ge> 16. \<not> bit x i)" by (metis le_add1 le_Suc_ex)
  finally show ?thesis .
qed

lemma bit_crc_shift:
  "bit (crc_shift x) i \<longleftrightarrow> (bit x (Suc i) \<noteq> (bit x 0 \<and> bit (0xA001 :: u32) i))"
  by (auto simp: crc_shift_def bit_xor_iff bit_drop_bit_eq and_one_eq odd_iff_mod_2_eq_one bit_0
      simp flip: mod_2_eq_odd)

lemma bit_A001: "i \<ge> 16 \<Longrightarrow> \<not> bit (0xA001 :: u32) i"
proof -
  have "(0xA001 :: u32) < 0x10000" by simp
  then have "\<forall>i \<ge> 16. \<not> bit (0xA001 :: u32) i" unfolding lt_16_iff .
  then show "i \<ge> 16 \<Longrightarrow> \<not> bit (0xA001 :: u32) i" by blast
qed

lemma crc_shift_16: "x < 0x10000 \<Longrightarrow> crc_shift x < 0x10000"
  unfolding lt_16_iff bit_crc_shift using bit_A001 by auto

text \<open>The step is injective on sixteen-bit states: the polynomial has bit 15, which no shifted state has.\<close>

lemma crc_shift_inj:
  assumes "x < 0x10000" "y < 0x10000" "crc_shift x = crc_shift y"
  shows "x = y"
proof -
  have hi: "\<not> bit x 16" "\<not> bit y 16" using assms(1,2) by (auto simp only: lt_16_iff)
  have e: "\<And>i. bit (crc_shift x) i = bit (crc_shift y) i" using assms(3) by simp
  have z: "bit x 0 = bit y 0" using e [of 15] hi by (simp add: bit_crc_shift)
  have "bit x i = bit y i" for i
    using e [of "i - 1"] z by (cases i) (auto simp: bit_crc_shift)
  then show ?thesis by (rule bit_eqI)
qed

lemma crc_shifts_16: "x < 0x10000 \<Longrightarrow> (crc_shift ^^ n) x < 0x10000"
  by (induction n) (simp_all add: crc_shift_16)

lemma crc_shifts_inj:
  "\<lbrakk>x < 0x10000; y < 0x10000; (crc_shift ^^ n) x = (crc_shift ^^ n) y\<rbrakk> \<Longrightarrow> x = y"
  by (induction n) (simp_all, metis crc_shift_inj crc_shifts_16)

lemma xor_byte_16: "x < 0x10000 \<Longrightarrow> x XOR ucast (b :: u8) < 0x10000" for x :: u32
  unfolding lt_16_iff by (auto simp: bit_xor_iff bit_unsigned_iff dest: bit_imp_le_length)

lemma crc_byte_16: "x < 0x10000 \<Longrightarrow> crc_byte x b < 0x10000"
  by (simp only: crc_byte_def crc_shifts_16 xor_byte_16)

lemma crc_bytes_16: "x < 0x10000 \<Longrightarrow> foldl crc_byte x data < 0x10000"
  by (induction data arbitrary: x) (simp_all add: crc_byte_16)

lemma crc_byte_inj:
  assumes "x < 0x10000" "y < 0x10000" "crc_byte x b = crc_byte y c"
  shows "x XOR ucast b = y XOR ucast c"
  by (rule crc_shifts_inj [OF xor_byte_16 [OF assms(1)] xor_byte_16 [OF assms(2)], of 8])
    (rule assms(3) [unfolded crc_byte_def])

lemma xor_right_inj: "x XOR z = y XOR z \<Longrightarrow> x = y" for x y z :: u32
  by (metis bit.xor_cancel_right xor.assoc xor_self_eq xor.right_neutral)

lemma crc_bytes_inj:
  "\<lbrakk>x < 0x10000; y < 0x10000; foldl crc_byte x data = foldl crc_byte y data\<rbrakk> \<Longrightarrow> x = y"
proof (induction data arbitrary: x y)
  case (Cons b data)
  have "crc_byte x b = crc_byte y b"
    by (rule Cons.IH) (use Cons.prems in \<open>simp_all add: crc_byte_16\<close>)
  then have "x XOR ucast b = y XOR ucast b" by (rule crc_byte_inj [OF Cons.prems(1,2)])
  then show ?case by (rule xor_right_inj)
qed simp

lemma crc16_fold: "wifi_crc16_slow data = foldl crc_byte 0 data"
proof -
  have "foldl crc_byte 0 data < 0x10000" by (rule crc_bytes_16) simp
  moreover have "bit (0xFFFF :: u32) i \<longleftrightarrow> i < 16" for i
    using bit_mask_iff [of 16 i, where 'a = u32] by (auto simp: mask_eq_exp_minus_1)
  ultimately show ?thesis
    unfolding wifi_crc16_slow_def lt_16_iff by (intro bit_eqI) (metis bit_and_iff linorder_not_le)
qed

text \<open>The checksum of any data followed by the two bytes of its own checksum, low byte first, is
  zero, which is the test that a saved entry has to pass.\<close>

theorem crc_accepts_own_checksum:
  "wifi_crc16_slow (data @ [ucast (wifi_crc16_slow data), ucast (drop_bit 8 (wifi_crc16_slow data))]) = 0"
proof -
  let ?c = "wifi_crc16_slow data"
  have c: "?c < 0x10000" unfolding crc16_fold by (rule crc_bytes_16) simp
  have z: "drop_bit 16 ?c = 0" using c unfolding lt_16_iff by (intro bit_eqI) (simp add: bit_drop_bit_eq)
  have "foldl crc_byte 0 (data @ [ucast ?c, ucast (drop_bit 8 ?c)]) = drop_bit 8 (drop_bit 8 ?c)"
    by (simp add: crc_byte_low flip: crc16_fold)
  then show ?thesis using z by (simp add: crc16_fold)
qed

lemma ucast_ucast_b: "(ucast (ucast b :: u32) :: u8) = b"
  by (rule bit_word_eqI) (simp add: bit_unsigned_iff)

text \<open>Changing one byte of a block always changes its checksum, so an entry of the firmware with one
  corrupted byte is never accepted in place of the valid one.\<close>

theorem crc_detects_byte_error:
  assumes "b \<noteq> b'"
  shows "wifi_crc16_slow (pre @ b # post) \<noteq> wifi_crc16_slow (pre @ b' # post)"
proof
  assume e: "wifi_crc16_slow (pre @ b # post) = wifi_crc16_slow (pre @ b' # post)"
  let ?x = "foldl crc_byte 0 pre"
  have x: "?x < 0x10000" by (rule crc_bytes_16) simp
  have "foldl crc_byte (crc_byte ?x b) post = foldl crc_byte (crc_byte ?x b') post"
    using e by (simp add: crc16_fold)
  then have "crc_byte ?x b = crc_byte ?x b'" by (rule crc_bytes_inj [OF crc_byte_16 [OF x] crc_byte_16 [OF x]])
  then have "?x XOR ucast b = ?x XOR ucast b'" by (rule crc_byte_inj [OF x x])
  then have "(ucast b :: u32) = ucast b'" by (metis xor_right_inj xor.commute)
  then have "(ucast (ucast b :: u32) :: u8) = ucast (ucast b' :: u32)" by simp
  then have "b = b'" by (simp only: ucast_ucast_b)
  then show False using assms by simp
qed

theorem crc_detects_byte_error_witness:
  "wifi_crc16_slow ([1] @ 2 # [3]) \<noteq> wifi_crc16_slow ([1] @ 3 # [3])"
  using crc_detects_byte_error [of 2 3 "[1]" "[3]"] by simp

section \<open>The subnet mask\<close>

lemma subnet_bits_None: "\<lbrakk>n \<le> 32; n + k > 32\<rbrakk> \<Longrightarrow> subnet_bits k n acc = None"
  by (induction k arbitrary: n acc) auto

lemma subnet_bits_Some:
  "n + k \<le> 32 \<Longrightarrow> \<exists>m. subnet_bits k n acc = Some m \<and>
     (\<forall>i < 32. bit m i \<longleftrightarrow> bit acc i \<or> (31 - i \<in> {n..<n + k}))"
proof (induction k arbitrary: n acc)
  case (Suc k)
  let ?a = "acc OR push_bit (31 - n) 1 :: u32"
  obtain m where m: "subnet_bits k (n + 1) ?a = Some m"
    and b: "\<forall>i < 32. bit m i \<longleftrightarrow> bit ?a i \<or> (31 - i \<in> {n + 1..<n + 1 + k})"
    using Suc.IH [of "n + 1" ?a] Suc.prems by auto
  have "bit ?a i \<longleftrightarrow> bit acc i \<or> 31 - i = n" if "i < 32" for i
    using that Suc.prems by (auto simp: bit_or_iff bit_exp_iff)
  then have "\<forall>i < 32. bit m i \<longleftrightarrow> bit acc i \<or> (31 - i \<in> {n..<n + Suc k})" using b by auto
  then show ?case using m Suc.prems by auto
qed simp

text \<open>A subnet mask length of at most 32 gives the mask with exactly that many leading one bits; a
  larger length, which no check excludes, shifts by a negative amount.\<close>

theorem subnet_mask_spec:
  "if k \<le> 32 then \<exists>m. subnet_bits k 0 0 = Some m \<and> (\<forall>i < 32. bit m i \<longleftrightarrow> 32 - k \<le> i)
   else subnet_bits k 0 0 = None"
proof (cases "k \<le> 32")
  case True
  then obtain m where "subnet_bits k 0 0 = Some m" "\<forall>i < 32. bit m i \<longleftrightarrow> (31 - i \<in> {0..<k})"
    using subnet_bits_Some [of 0 k 0] by auto
  moreover have "(31 - i \<in> {0..<k}) \<longleftrightarrow> 32 - k \<le> i" if "i < 32" for i using that by auto
  ultimately show ?thesis using True by auto
qed (simp add: subnet_bits_None)

theorem subnet_mask_spec_witness:
  "\<exists>m. subnet_bits 24 0 0 = Some m \<and> bit m 31 \<and> bit m 8 \<and> \<not> bit m 7"
  using subnet_mask_spec [of 24] by auto

section \<open>Loading the entries\<close>

lemma wfc_load_spec:
  assumes "c + length (filter valid ds) \<le> length (wfc w)"
    and "\<And>d e. d \<in> set ds \<Longrightarrow> valid d \<Longrightarrow> copy d e \<noteq> None"
  shows "\<exists>w'. wfc_load valid copy ds c w = Some (c + length (filter valid ds), w') \<and>
    (\<exists>es. w' = w\<lparr>wfc := take c (wfc w) @ es @ drop (c + length es) (wfc w)\<rparr> \<and>
      list_all2 (\<lambda>d e'. \<exists>e. copy d e = Some e') (filter valid ds) es)"
  using assms
proof (induction ds arbitrary: c w)
  case (Cons d ds)
  show ?case
  proof (cases "valid d")
    case True
    then have c: "c < length (wfc w)" using Cons.prems(1) by simp
    obtain e' where e': "copy d (wfc w ! c) = Some e'" using Cons.prems(2) True by fastforce
    let ?w = "w\<lparr>wfc := (wfc w)[c := e']\<rparr>"
    have p: "\<And>x e. x \<in> set ds \<Longrightarrow> valid x \<Longrightarrow> copy x e \<noteq> None" using Cons.prems(2) by simp
    have le: "c + 1 + length (filter valid ds) \<le> length (wfc ?w)" using Cons.prems(1) True by simp
    then obtain w' es where w': "wfc_load valid copy ds (c + 1) ?w = Some (c + 1 + length (filter valid ds), w')"
      and es: "w' = ?w\<lparr>wfc := take (c + 1) (wfc ?w) @ es @ drop (c + 1 + length es) (wfc ?w)\<rparr>"
        "list_all2 (\<lambda>d e'. \<exists>e. copy d e = Some e') (filter valid ds) es"
      using Cons.IH [OF le p] by blast
    have "w' = w\<lparr>wfc := take c (wfc w) @ (e' # es) @ drop (c + length (e' # es)) (wfc w)\<rparr>"
      using c by (simp add: es(1) take_Suc_conv_app_nth drop_update_cancel take_update_cancel)
    moreover have "list_all2 (\<lambda>d e'. \<exists>e. copy d e = Some e') (filter valid (d # ds)) (e' # es)"
      using True es(2) e' by auto
    ultimately have "\<exists>es. w' = w\<lparr>wfc := take c (wfc w) @ es @ drop (c + length es) (wfc w)\<rparr> \<and>
        list_all2 (\<lambda>d e'. \<exists>e. copy d e = Some e') (filter valid (d # ds)) es" by blast
    moreover have "wfc_load valid copy (d # ds) c w = Some (c + length (filter valid (d # ds)), w')"
      using True c e' w' by simp
    ultimately show ?thesis by blast
  next
    case False
    then show ?thesis using Cons.IH [of c w] Cons.prems by auto
  qed
qed (auto intro!: exI [of _ "[]"])

lemma wfc_copies:
  assumes "d cfg_subnet_mask \<le> 32"
  shows "ntr_entry d e \<noteq> None" "twl_entry d e \<noteq> None"
proof -
  have "unat (d cfg_subnet_mask) \<le> 32" using assms by (simp add: word_le_nat_alt)
  then have "subnet_bits (unat (d cfg_subnet_mask)) 0 0 \<noteq> None"
    using subnet_bits_Some [of 0 "unat (d cfg_subnet_mask)" 0] by auto
  then show "ntr_entry d e \<noteq> None" "twl_entry d e \<noteq> None"
    by (auto simp: ntr_entry_def twl_entry_def wfc_common_def Let_def)
qed

section \<open>Saved entries by their layout\<close>

text \<open>
  The checksum bit by bit: the division by the polynomial 0x8005 with the least significant bit of each byte
  first. Then the conditions on a saved entry and what the table holds for it, both in terms of the
  offsets of the firmware.
\<close>

definition crc16_step :: "u16 \<Rightarrow> bool \<Rightarrow> u16" where
  "crc16_step r b = (if bit r 0 \<noteq> b then drop_bit 1 r XOR 0xA001 else drop_bit 1 r)"

definition crc16_bits :: "u8 list \<Rightarrow> u16" where
  "crc16_bits bs = foldl crc16_step 0 (concat (map (\<lambda>b. map (bit b) [0..<8]) bs))"

definition saved_ntr :: "mem8 \<Rightarrow> bool" where
  "saved_ntr d \<longleftrightarrow> (\<exists>b \<in> set (read_bytes d 0 0x100). b \<noteq> 0) \<and> crc16_bits (read_bytes d 0 0x100) = 0 \<and>
     d 0xE7 = 0 \<and> d 0xE6 \<le> 7"

definition saved_twl :: "bool \<Rightarrow> mem8 \<Rightarrow> bool" where
  "saved_twl allow_wpa d \<longleftrightarrow> (\<exists>b \<in> set (read_bytes d 0 0x200). b \<noteq> 0) \<and> crc16_bits (read_bytes d 0 0x100) = 0 \<and>
     crc16_bits (read_bytes d 0x100 0x100) = 0 \<and> d 0xEF \<noteq> 0 \<and> d 0xE6 \<le> 7 \<and> (d 0xE7 \<noteq> 0 \<longrightarrow> allow_wpa)"

definition saved_as :: "mem8 \<Rightarrow> wfc_entry \<Rightarrow> bool" where
  "saved_as d e \<longleftrightarrow> take 32 (wfc_ssid e) = read_bytes d 0x40 32 \<and>
     unat (wfc_ssid_len e) = length (takeWhile (\<lambda>b. b \<noteq> 0) (read_bytes d 0x40 32)) \<and>
     wfc_ip e = read_u32 d 0xC0 \<and> wfc_gateway e = read_u32 d 0xC4 \<and>
     wfc_dns_primary e = read_u32 d 0xC8 \<and> wfc_dns_secondary e = read_u32 d 0xCC \<and>
     (\<forall>k < 32. bit (wfc_subnet_mask e) (8 * (k div 8) + (7 - k mod 8)) \<longleftrightarrow> k < unat (d 0xD0))"

lemma bit_crc16_step: "bit (crc16_step r v) i \<longleftrightarrow> (bit r (Suc i) \<noteq> ((bit r 0 \<noteq> v) \<and> bit (0xA001 :: u16) i))"
  by (simp add: crc16_step_def bit_xor_iff bit_drop_bit_eq)

lemma bit_ucast_32: "bit (ucast (c :: u8) :: u32) n = bit c n" "bit (ucast (r :: u16) :: u32) n = bit r n"
  by (auto simp: bit_unsigned_iff dest: bit_imp_le_length)

lemma crc_shift_step: "crc_shift (ucast r XOR ucast (c :: u8)) = ucast (crc16_step r (bit c 0)) XOR ucast (drop_bit 1 c)"
proof (rule bit_word_eqI)
  fix i
  have "(0xA001 :: u32) = ucast (0xA001 :: u16)" by simp
  then have a: "bit (0xA001 :: u32) i = bit (0xA001 :: u16) i" by (simp only: bit_ucast_32)
  have d: "bit (drop_bit 1 c) i = bit c (Suc i)" by (simp add: bit_drop_bit_eq)
  show "bit (crc_shift (ucast r XOR ucast c)) i = bit (ucast (crc16_step r (bit c 0)) XOR ucast (drop_bit 1 c) :: u32) i"
    unfolding bit_crc_shift a bit_xor_iff bit_ucast_32 bit_crc16_step d by blast
qed

lemma crc_byte_bits: "crc_byte (ucast r) b = ucast (foldl crc16_step r (map (bit b) [0..<8]))"
proof -
  have "(crc_shift ^^ k) (ucast r XOR ucast b) = ucast (foldl crc16_step r (map (bit b) [0..<k])) XOR ucast (drop_bit k b)" for k
  proof (induction k)
    case (Suc k)
    have "(crc_shift ^^ Suc k) (ucast r XOR ucast b) = ucast (crc16_step (foldl crc16_step r (map (bit b) [0..<k])) (bit (drop_bit k b) 0)) XOR
        ucast (drop_bit 1 (drop_bit k b))"
      by (simp only: funpow.simps comp_apply Suc.IH crc_shift_step)
    also have "drop_bit 1 (drop_bit k b) = drop_bit (Suc k) b" by (simp only: drop_bit_drop_bit plus_1_eq_Suc)
    also have "bit (drop_bit k b) 0 = bit b k" by (simp add: bit_drop_bit_eq)
    finally show ?case by (simp only: upt_Suc_append le0 map_append list.map foldl_append foldl_Cons foldl_Nil)
  qed simp
  from this [of 8] show ?thesis by (simp add: crc_byte_def)
qed

lemma crc16_bits: "wifi_crc16_slow bs = ucast (crc16_bits bs)"
proof -
  have "foldl crc_byte (ucast r) bs = ucast (foldl crc16_step r (concat (map (\<lambda>b. map (bit b) [0..<8]) bs)))" for r
    by (induction bs arbitrary: r) (simp_all only: foldl_Nil foldl_Cons list.map concat.simps foldl_append crc_byte_bits)
  from this [of 0] show ?thesis by (simp only: crc16_fold crc16_bits_def unsigned_0)
qed

lemma valid_saved: "ntr_valid = saved_ntr" "twl_valid allow_wpa = saved_twl allow_wpa"
proof -
  have "(ucast x :: u32) = 0 \<longleftrightarrow> x = 0" for x :: u16
    by (auto simp: bit_eq_iff bit_ucast_iff) (use bit_imp_le_length [of x] in fastforce)
  then have z: "wifi_crc16_slow bs = 0 \<longleftrightarrow> crc16_bits bs = 0" for bs by (simp only: crc16_bits)
  show "ntr_valid = saved_ntr" by (auto simp: fun_eq_iff ntr_valid_def saved_ntr_def entry_is_zeroed_def z)
  show "twl_valid allow_wpa = saved_twl allow_wpa" by (auto simp: fun_eq_iff twl_valid_def saved_twl_def entry_is_zeroed_def z)
qed

lemma ssid_length_takeWhile: "ssid_length bs = length (takeWhile (\<lambda>b. b \<noteq> 0) bs)"
  by (induction bs) simp_all

text \<open>The mask in network byte order: bit \<open>k\<close> from the left is bit \<open>7 - k mod 8\<close> of byte \<open>k div 8\<close>.\<close>

lemma htonl_bytes:
  assumes "j < 8"
  shows "bit (htonl m) j = bit m (24 + j)" "bit (htonl m) (8 + j) = bit m (16 + j)"
    "bit (htonl m) (16 + j) = bit m (8 + j)" "bit (htonl m) (24 + j) = bit m j"
proof -
  have e: "(0xFF00 :: u32) = push_bit 8 (mask 8)" "(0xFF0000 :: u32) = push_bit 16 (mask 8)" by (simp_all add: mask_eq_exp_minus_1)
  show "bit (htonl m) j = bit m (24 + j)" "bit (htonl m) (8 + j) = bit m (16 + j)"
    "bit (htonl m) (16 + j) = bit m (8 + j)" "bit (htonl m) (24 + j) = bit m j"
    using assms unfolding htonl_def e by (auto simp: bit_simps dest: bit_imp_le_length)
qed

lemma bit_htonl:
  assumes "k < 32"
  shows "bit (htonl m) (8 * (k div 8) + (7 - k mod 8)) = bit m (31 - k)"
proof -
  define j where "j = 7 - k mod 8"
  have "k mod 8 < 8" "8 * (k div 8) + k mod 8 = k" by simp_all
  then have j: "j < 8" "k + j = 8 * (k div 8) + 7" unfolding j_def by linarith+
  have "k div 8 = 0 \<or> k div 8 = 1 \<or> k div 8 = 2 \<or> k div 8 = 3" using assms by auto
  then have "8 * (k div 8) + j = j \<and> 31 - k = 24 + j \<or> 8 * (k div 8) + j = 8 + j \<and> 31 - k = 16 + j \<or>
      8 * (k div 8) + j = 16 + j \<and> 31 - k = 8 + j \<or> 8 * (k div 8) + j = 24 + j \<and> 31 - k = j"
    using j(2) assms by (elim disjE) linarith+
  then show ?thesis using htonl_bytes [OF j(1), of m] unfolding j_def [symmetric] by (elim disjE conjE) (simp_all only:)
qed

lemma common_saved:
  assumes "wfc_common d e = Some e'"
  shows "saved_as d e'"
proof -
  obtain m where m: "subnet_bits (unat (d 0xD0)) 0 0 = Some m" "wfc_subnet_mask e' = htonl m"
    using assms by (auto simp: wfc_common_def)
  have k: "unat (d 0xD0) \<le> 32" using m(1) subnet_bits_None [of 0 "unat (d 0xD0)" 0] by (cases "unat (d 0xD0) \<le> 32") auto
  then have b: "bit m i \<longleftrightarrow> 31 - i < unat (d 0xD0)" if "i < 32" for i
    using subnet_bits_Some [of 0 "unat (d 0xD0)" 0] m(1) that by auto
  have "bit (wfc_subnet_mask e') (8 * (i div 8) + (7 - i mod 8)) \<longleftrightarrow> i < unat (d 0xD0)" if "i < 32" for i
    using bit_htonl [OF that, of m] b [of "31 - i"] that by (simp add: m(2))
  moreover have "length (takeWhile (\<lambda>b. b \<noteq> 0) (read_bytes d 0x40 32)) \<le> 32"
    using length_takeWhile_le [of "\<lambda>b. b \<noteq> 0" "read_bytes d 0x40 32"] by simp
  ultimately show ?thesis
    using assms by (auto simp: saved_as_def wfc_common_def ssid_length_takeWhile unat_of_nat take_bit_eq_mod)
qed

lemma entry_saved: "ntr_entry d e = Some e' \<Longrightarrow> saved_as d e'" "twl_entry d e = Some e' \<Longrightarrow> saved_as d e'"
  by (auto simp: ntr_entry_def twl_entry_def Let_def intro: common_saved)

text \<open>C36: With subnet mask lengths of at most 32, loading the entries of both formats succeeds, counts
  exactly the valid entries (at most six, so that no write leaves the table) and stores them in
  order, the entries of the first format before those of the second. An entry is valid when it is not
  empty, its checksums are right and its mode is known, and it is stored with its name, addresses and mask.\<close>

theorem wfc_settings_loaded:
  assumes "length (wfc w) = 6"
    and "\<forall>d \<in> set (ds @ ds'). d cfg_subnet_mask \<le> 32"
    and "ds = wfc_slots firmware 0x400 sizeof_nvram_cfg_ntr" "ds' = wfc_slots firmware 0xA00 sizeof_nvram_cfg_twl"
  shows "\<exists>w1 w2. Wifi_NTR_GetWfcSettings firmware w = Some w1 \<and>
    Wifi_TWL_GetWfcSettings firmware allow_wpa w1 = Some w2 \<and>
    (let vs = filter saved_ntr ds; vs' = filter (saved_twl allow_wpa) ds'; n = length vs + length vs' in
      n \<le> 6 \<and> length (wfc w2) = 6 \<and> unat (wfc_number_of_configs w2) = n \<and>
      (\<forall>i < length vs. saved_as (vs ! i) (wfc w2 ! i) \<and> (\<exists>e. ntr_entry (vs ! i) e = Some (wfc w2 ! i))) \<and>
      (\<forall>i < length vs'. saved_as (vs' ! i) (wfc w2 ! (length vs + i)) \<and>
        (\<exists>e. twl_entry (vs' ! i) e = Some (wfc w2 ! (length vs + i)))))"
proof -
  define vs vs' where v: "vs = filter ntr_valid ds" "vs' = filter (twl_valid allow_wpa) ds'"
  have l: "length ds = 3" "length ds' = 3" using assms(3,4) by (simp_all add: wfc_slots_def)
  have n: "length vs \<le> 3" "length vs' \<le> 3"
    using length_filter_le [of ntr_valid ds] length_filter_le [of "twl_valid allow_wpa" ds'] l by (simp_all add: v)
  obtain w' es where w': "wfc_load ntr_valid ntr_entry ds 0 w = Some (length vs, w')"
    and e: "w' = w\<lparr>wfc := es @ drop (length es) (wfc w)\<rparr>"
      "list_all2 (\<lambda>d e'. \<exists>e. ntr_entry d e = Some e') vs es"
    using wfc_load_spec [of 0 ntr_valid ds w ntr_entry] wfc_copies assms(1,2) n by (auto simp flip: v)
  let ?w1 = "w'\<lparr>wfc_number_of_configs := of_nat (length vs)\<rparr>"
  have c: "unat (wfc_number_of_configs ?w1) = length vs" using n by (simp add: unat_of_nat)
  have le: "length es = length vs" using e(2) by (simp add: list_all2_lengthD)
  have l1: "length (wfc ?w1) = 6" using e(1) le n assms(1) by simp
  obtain w2 es' where w2: "wfc_load (twl_valid allow_wpa) twl_entry ds' (length vs) ?w1 =
      Some (length vs + length vs', w2)"
    and e': "w2 = ?w1\<lparr>wfc := take (length vs) (wfc ?w1) @ es' @ drop (length vs + length es') (wfc ?w1)\<rparr>"
      "list_all2 (\<lambda>d e'. \<exists>e. twl_entry d e = Some e') vs' es'"
    using wfc_load_spec [of "length vs" "twl_valid allow_wpa" ds' ?w1 twl_entry] wfc_copies assms(2) n l1
    by (auto simp flip: v)
  have le': "length es' = length vs'" using e'(2) by (simp add: list_all2_lengthD)
  have tab: "wfc w2 = es @ es' @ drop (length vs + length es') (wfc ?w1)" using e(1) le by (simp add: e'(1))
  have fst_part: "\<exists>e. ntr_entry (vs ! i) e = Some (wfc w2 ! i)" if "i < length vs" for i
    using list_all2_nthD [OF e(2) that] that le by (simp add: tab nth_append)
  have snd_part: "\<exists>e. twl_entry (vs' ! i) e = Some (wfc w2 ! (length vs + i))" if "i < length vs'" for i
    using list_all2_nthD [OF e'(2) that] that le le' by (simp add: tab nth_append)
  have fst_saved: "saved_as (vs ! i) (wfc w2 ! i)" if "i < length vs" for i using fst_part [OF that] entry_saved(1) by blast
  have snd_saved: "saved_as (vs' ! i) (wfc w2 ! (length vs + i))" if "i < length vs'" for i using snd_part [OF that] entry_saved(2) by blast
  let ?w2 = "w2\<lparr>wfc_number_of_configs := of_nat (length vs + length vs')\<rparr>"
  have n2: "unat (wfc_number_of_configs ?w2) = length vs + length vs'"
    using n by (simp add: unat_of_nat flip: of_nat_add)
  have l2: "length (wfc w2) = 6" using l1 le' n by (simp add: e'(1))
  have ntr: "Wifi_NTR_GetWfcSettings firmware w = Some ?w1"
    unfolding Wifi_NTR_GetWfcSettings_def assms(3) [symmetric] w' by simp
  have twl: "Wifi_TWL_GetWfcSettings firmware allow_wpa ?w1 = Some ?w2"
    unfolding Wifi_TWL_GetWfcSettings_def assms(4) [symmetric] c w2 by simp
  show ?thesis
    unfolding Let_def valid_saved [symmetric] v [symmetric] using ntr twl n n2 l2 fst_part snd_part fst_saved snd_saved
    by - (rule exI [of _ ?w1], rule exI [of _ ?w2], simp)
qed

text \<open>A firmware whose first entry of the first format is an open network named \<open>A\<close> with a mask of 24 bits,
  and its checksum in the last two bytes.\<close>

definition wfc_fw_ex :: "nat \<Rightarrow> u8" where
  "wfc_fw_ex a = (if a = 0x21 then 2 else if a = 0xC00 + 0x40 then 65 else if a = 0xC00 + 0xD0 then 24
     else if a = 0xC00 + 0xFE then 0x4e else if a = 0xC00 + 0xFF then 0x2d else 0)"

lemma wfc_fw_ex_masks:
  "\<forall>d \<in> set (wfc_slots wfc_fw_ex 0x400 sizeof_nvram_cfg_ntr @ wfc_slots wfc_fw_ex 0xA00 sizeof_nvram_cfg_twl). d cfg_subnet_mask \<le> 32"
  by code_simp

theorem wfc_settings_loaded_witness:
  "\<exists>w1 w2. Wifi_NTR_GetWfcSettings wfc_fw_ex zero_main = Some w1 \<and>
    Wifi_TWL_GetWfcSettings wfc_fw_ex True w1 = Some w2 \<and> unat (wfc_number_of_configs w2) \<le> 6"
proof -
  let ?ds = "wfc_slots wfc_fw_ex 0x400 sizeof_nvram_cfg_ntr"
  let ?ds' = "wfc_slots wfc_fw_ex 0xA00 sizeof_nvram_cfg_twl"
  have l: "length (wfc zero_main) = 6" by (simp add: zero_main_def)
  have m: "\<forall>d \<in> set (?ds @ ?ds'). d cfg_subnet_mask \<le> 32"
    by (rule wfc_fw_ex_masks)
  show ?thesis
    using wfc_settings_loaded [OF l m refl refl, of True] unfolding Let_def
    by (elim exE conjE) (intro exI conjI, assumption+, linarith)
qed

end
