(* ===== verification/Spinlock.thy ===== *)
theory Spinlock
  imports Wifi_Shared
begin

text \<open>
  The spinlock of \<^verbatim>\<open>common/spinlock.s\<close>, shared by the two processors. The two
  routines are modelled twice: as whole calls on the lock word (what a caller sees when the
  other processor does not touch the lock during the call), and one memory access at a time,
  with the other processor's accesses in between. On the second model the theory shows that the
  two processors are never in the critical section together, and that a release that collides
  with a failed attempt leaves the lock word set for ever: the release returns
  \<open>SPINLOCK_ERROR\<close>, which no caller looks at.
\<close>

section \<open>Whole calls\<close>

definition SPINLOCK_OWNER_NOBODY :: u32 where [simp]: "SPINLOCK_OWNER_NOBODY = 0"
definition SPINLOCK_OWNER_ARM7 :: u32 where [simp]: "SPINLOCK_OWNER_ARM7 = 1"
definition SPINLOCK_OWNER_ARM9 :: u32 where [simp]: "SPINLOCK_OWNER_ARM9 = 2"

datatype spinlock_result = SPINLOCK_OK | SPINLOCK_INUSE | SPINLOCK_ERROR

definition SLasm_Acquire :: "u32 \<Rightarrow> u32 \<Rightarrow> spinlock_result \<times> u32" where
  "SLasm_Acquire lockvalue lock =
     (if lock \<noteq> SPINLOCK_OWNER_NOBODY then (SPINLOCK_INUSE, lock)
      else let r2 = lock; lock1 = lockvalue in
        if r2 = SPINLOCK_OWNER_NOBODY \<or> r2 = lockvalue then (SPINLOCK_OK, lock1)
        else (SPINLOCK_INUSE, r2))"

definition SLasm_Release :: "u32 \<Rightarrow> u32 \<Rightarrow> spinlock_result \<times> u32" where
  "SLasm_Release lockvalue lock =
     (if lock \<noteq> lockvalue then (SPINLOCK_ERROR, lock)
      else let r2 = lock; lock1 = SPINLOCK_OWNER_NOBODY in
        (if r2 = lockvalue then SPINLOCK_OK else SPINLOCK_ERROR, lock1))"

text \<open>
  The callers wait with \<open>while (Spinlock_Acquire(...) != SPINLOCK_OK);\<close>. Without the other
  processor the loop either ends at once or never; \<open>None\<close> is the call that does not return.
\<close>

definition spin_acquire :: "u32 \<Rightarrow> u32 \<Rightarrow> u32 option" where
  "spin_acquire lockvalue lock =
     (case SLasm_Acquire lockvalue lock of (SPINLOCK_OK, lock1) \<Rightarrow> Some lock1 | _ \<Rightarrow> None)"

definition spin_release :: "u32 \<Rightarrow> u32 \<Rightarrow> u32" where
  "spin_release lockvalue lock = snd (SLasm_Release lockvalue lock)"

lemma spin_acquire_simps [simp]:
  "spin_acquire v 0 = Some v"
  "lock \<noteq> 0 \<Longrightarrow> spin_acquire v lock = None"
  by (simp_all add: spin_acquire_def SLasm_Acquire_def)

lemma spin_release_simps [simp]:
  "spin_release v v = 0"
  "lock \<noteq> v \<Longrightarrow> spin_release v lock = lock"
  by (simp_all add: spin_release_def SLasm_Release_def)

section \<open>One access at a time\<close>

datatype cpu = ARM7 | ARM9

primrec lock_value :: "cpu \<Rightarrow> u32" where
  "lock_value ARM7 = SPINLOCK_OWNER_ARM7"
| "lock_value ARM9 = SPINLOCK_OWNER_ARM9"

text \<open>The program point of a processor, named after the access it performs next, with \<open>r2\<close>.\<close>

datatype spin_pc =
    AcqLoad          \<comment> \<open>before the \<open>ldr\<close> of the acquire loop\<close>
  | AcqSwap          \<comment> \<open>before the first \<open>swp\<close>: the load saw nobody\<close>
  | AcqRestore u32   \<comment> \<open>before the second \<open>swp\<close>: the swap returned the other owner\<close>
  | Critical         \<comment> \<open>the acquire returned \<open>SPINLOCK_OK\<close>\<close>
  | RelSwap          \<comment> \<open>before the \<open>swp\<close> of the release: its load saw the own value\<close>
  | Finished spinlock_result  \<comment> \<open>the release returned\<close>

definition spin_step :: "cpu \<Rightarrow> u32 \<Rightarrow> spin_pc \<Rightarrow> u32 \<times> spin_pc" where
  "spin_step c lock pc =
     (case pc of
        AcqLoad \<Rightarrow> if lock \<noteq> SPINLOCK_OWNER_NOBODY then (lock, AcqLoad) else (lock, AcqSwap)
      | AcqSwap \<Rightarrow>
          if lock = SPINLOCK_OWNER_NOBODY \<or> lock = lock_value c then (lock_value c, Critical)
          else (lock_value c, AcqRestore lock)
      | AcqRestore r2 \<Rightarrow> (r2, AcqLoad)
      | Critical \<Rightarrow>
          if lock \<noteq> lock_value c then (lock, Finished SPINLOCK_ERROR) else (lock, RelSwap)
      | RelSwap \<Rightarrow>
          (SPINLOCK_OWNER_NOBODY,
           Finished (if lock = lock_value c then SPINLOCK_OK else SPINLOCK_ERROR))
      | Finished r \<Rightarrow> (lock, AcqLoad))"

record spin_state =
  lock_word :: u32
  pc :: "cpu \<Rightarrow> spin_pc"

definition spin_do :: "cpu \<Rightarrow> spin_state \<Rightarrow> spin_state" where
  "spin_do c s = (case spin_step c (lock_word s) (pc s c) of
      (l, p) \<Rightarrow> \<lparr>lock_word = l, pc = (pc s)(c := p)\<rparr>)"

definition spin_init :: spin_state where
  "spin_init = \<lparr>lock_word = 0, pc = \<lambda>_. AcqLoad\<rparr>"

inductive spin_reachable :: "spin_state \<Rightarrow> bool" where
  init: "spin_reachable spin_init"
| step: "spin_reachable s \<Longrightarrow> spin_reachable (spin_do c s)"

definition spin_exec :: "cpu list \<Rightarrow> spin_state \<Rightarrow> spin_state" where
  "spin_exec cs s = fold spin_do cs s"

lemma spin_reachable_exec: "spin_reachable s \<Longrightarrow> spin_reachable (spin_exec cs s)"
  unfolding spin_exec_def by (induction cs arbitrary: s) (auto intro: spin_reachable.step)

section \<open>Mutual exclusion\<close>

primrec other :: "cpu \<Rightarrow> cpu" where
  "other ARM7 = ARM9" | "other ARM9 = ARM7"

lemma other_neq [simp]: "other c \<noteq> c" "c \<noteq> other c" "other (other c) = c"
  by (cases c; simp)+

lemma lock_value_simps [simp]:
  "lock_value c \<noteq> 0" "lock_value (other c) \<noteq> lock_value c" "lock_value c \<noteq> lock_value (other c)"
  by (cases c; simp)+

text \<open>
  While one processor is between its successful swap and its release, the lock word is its own
  value, or the other processor has just put its own value there and is about to undo it.
\<close>

definition owns :: "spin_pc \<Rightarrow> bool" where
  "owns p \<longleftrightarrow> p = Critical \<or> p = RelSwap"

definition cpu_inv :: "spin_state \<Rightarrow> cpu \<Rightarrow> bool" where
  "cpu_inv s c \<longleftrightarrow>
     (case pc s c of AcqRestore r \<Rightarrow> r = lock_value (other c) | _ \<Rightarrow> True) \<and>
     (owns (pc s c) \<longrightarrow> lock_word s = lock_value c \<or>
        lock_word s = lock_value (other c) \<and> pc s (other c) = AcqRestore (lock_value c)) \<and>
     (lock_word s = 0 \<or> lock_word s = lock_value c \<or> lock_word s = lock_value (other c))"

definition spin_inv :: "spin_state \<Rightarrow> bool" where
  "spin_inv s \<longleftrightarrow> (\<forall>c. cpu_inv s c)"

lemma spin_inv_init: "spin_inv spin_init"
  by (simp add: spin_inv_def cpu_inv_def spin_init_def owns_def)

lemma spin_inv_step: "spin_inv s \<Longrightarrow> spin_inv (spin_do c s)"
proof -
  assume "spin_inv s"
  then have inv: "cpu_inv s ARM7" "cpu_inv s ARM9" by (simp_all add: spin_inv_def)
  show "spin_inv (spin_do c s)"
    unfolding spin_inv_def
  proof
    fix d
    show "cpu_inv (spin_do c s) d"
      using inv by (cases c; cases d; cases "pc s c")
        (auto simp: cpu_inv_def spin_do_def spin_step_def owns_def)
  qed
qed

lemma spin_inv_reachable: "spin_reachable s \<Longrightarrow> spin_inv s"
  by (induction rule: spin_reachable.induct) (auto intro: spin_inv_init spin_inv_step)

lemma owns_exclusive:
  assumes "spin_inv s" "owns (pc s c)"
  shows "\<not> owns (pc s (other c))"
proof -
  have "cpu_inv s c" "cpu_inv s (other c)" using assms(1) by (simp_all add: spin_inv_def)
  with assms(2) show ?thesis by (auto simp: cpu_inv_def owns_def)
qed

section \<open>A lock word that stays set\<close>

text \<open>Nobody owns the lock and nobody is inside a call, but the lock word is not free.\<close>

definition stuck :: "spin_state \<Rightarrow> bool" where
  "stuck s \<longleftrightarrow> lock_word s \<noteq> 0 \<and> pc s ARM7 = AcqLoad \<and> pc s ARM9 = AcqLoad"

lemma stuck_step: "stuck s \<Longrightarrow> spin_do c s = s"
  by (cases c) (auto simp: stuck_def spin_do_def spin_step_def fun_upd_idem)

lemma stuck_exec: "stuck s \<Longrightarrow> spin_exec cs s = s"
  unfolding spin_exec_def by (induction cs) (simp_all add: stuck_step)

text \<open>The ARM9 loads a free lock; the ARM7 takes it; the ARM9's swap hits the ARM7's release.\<close>

definition collision :: "cpu list" where
  "collision = [ARM9, ARM7, ARM7, ARM9, ARM7, ARM9, ARM7]"

section \<open>Properties\<close>

text \<open>C8: whatever the interleaving of the memory accesses of the two processors, they are never
  both inside the section protected by the spinlock.\<close>

theorem spinlock_mutual_exclusion:
  assumes "spin_reachable s"
  shows "\<not> (pc s ARM7 = Critical \<and> pc s ARM9 = Critical)"
  using owns_exclusive [OF spin_inv_reachable [OF assms], of ARM7] by (auto simp: owns_def)

theorem spinlock_mutual_exclusion_witness:
  "pc (spin_exec [ARM7, ARM9, ARM7, ARM9] spin_init) ARM7 = Critical \<and>
   pc (spin_exec [ARM7, ARM9, ARM7, ARM9] spin_init) ARM9 \<noteq> Critical"
  using spinlock_mutual_exclusion [OF spin_reachable_exec [OF spin_reachable.init, of "[ARM7, ARM9, ARM7, ARM9]"]]
  by (simp add: spin_exec_def spin_do_def spin_step_def spin_init_def)

text \<open>a release that collides with a failed attempt of the other processor can leave the lock set
  with nobody holding it: there is an interleaving after which neither processor is inside, the
  release has reported an error, and no further sequence of steps changes anything.\<close>

theorem spinlock_can_stick:
  "let s = spin_exec collision spin_init in
   spin_reachable s \<and> stuck s \<and> (\<forall>cs. spin_exec cs s = s)"
proof -
  have "stuck (spin_exec collision spin_init)"
    by (simp add: collision_def spin_exec_def spin_do_def spin_step_def spin_init_def stuck_def)
  then show ?thesis
    using stuck_exec spin_reachable_exec [OF spin_reachable.init] by (simp add: Let_def)
qed

text \<open>Used without a collision the lock works: acquiring a free lock and releasing it succeeds and
  frees it, a lock that is held cannot be acquired, and only the owner can release it.\<close>

theorem spinlock_calls:
  "SLasm_Acquire v 0 = (SPINLOCK_OK, v) \<and> SLasm_Release v v = (SPINLOCK_OK, 0) \<and>
   (l \<noteq> 0 \<longrightarrow> SLasm_Acquire v l = (SPINLOCK_INUSE, l)) \<and>
   (l \<noteq> v \<longrightarrow> SLasm_Release v l = (SPINLOCK_ERROR, l))"
  by (simp add: SLasm_Acquire_def SLasm_Release_def)

theorem spinlock_calls_witness:
  "SLasm_Acquire 1 2 = (SPINLOCK_INUSE, 2) \<and> SLasm_Release 1 2 = (SPINLOCK_ERROR, 2)"
  using spinlock_calls [of 1 2] by simp

end
