(* ===== verification/Ap_List.thy ===== *)
theory Ap_List
  imports Wfc Wifi_Rng Spinlock
begin

text \<open>
  The table of access points in range (\<^verbatim>\<open>arm7/access_point.c\<close>). Pointers to bytes of a frame
  are functions from offsets, so that a read past an address is a value of the memory behind it.
  The clearing of the table waits for the lock of each entry (\<open>None\<close> if one is never released);
  an addition gives up at once when the lock of its entry is taken. The theory shows that two
  active entries never have the same address, which is what a comment of the code relies on, that an addition leaves the access
  point in the table, and which entry it replaces.
\<close>

section \<open>Operations\<close>

definition ap_in_use :: "Wifi_AccessPoint \<Rightarrow> bool" where
  "ap_in_use ap \<longleftrightarrow> ap_flags ap AND WFLAG_APDATA_ACTIVE \<noteq> 0"

definition ap_clear :: "Wifi_AccessPoint \<Rightarrow> Wifi_AccessPoint option" where
  "ap_clear ap =
     map_option (\<lambda>l. ap\<lparr>ap_flags := 0, bssid := (bssid ap)[0 := 0, 1 := 0, 2 := 0],
                        ap_spinlock := spin_release SPINLOCK_OWNER_ARM7 l\<rparr>)
       (spin_acquire SPINLOCK_OWNER_ARM7 (ap_spinlock ap))"

fun ap_clear_list :: "Wifi_AccessPoint list \<Rightarrow> Wifi_AccessPoint list option" where
  "ap_clear_list [] = Some []"
| "ap_clear_list (ap # aps) = do { ap \<leftarrow> ap_clear ap; aps \<leftarrow> ap_clear_list aps; Some (ap # aps) }"

definition Wifi_AccessPointClearAll :: "Wifi_MainStruct \<Rightarrow> Wifi_MainStruct option" where
  "Wifi_AccessPointClearAll w = map_option (\<lambda>aps. w\<lparr>aplist := aps\<rparr>) (ap_clear_list (aplist w))"

text \<open>The search: the entry of the address, or else the first unused one that was passed.\<close>

fun ap_search :: "mac \<Rightarrow> nat \<Rightarrow> nat option \<Rightarrow> Wifi_AccessPoint list \<Rightarrow> bool \<times> nat option" where
  "ap_search m i chosen [] = (False, chosen)"
| "ap_search m i chosen (ap # aps) =
     (if \<not> Wifi_CmpMacAddr (bssid ap) m
      then ap_search m (i + 1) (if \<not> ap_in_use ap \<and> chosen = None then Some i else chosen) aps
      else (True, Some i))"

fun ap_oldest :: "nat \<Rightarrow> u32 \<Rightarrow> nat \<Rightarrow> Wifi_AccessPoint list \<Rightarrow> nat" where
  "ap_oldest i max_timectr chosen [] = chosen"
| "ap_oldest i max_timectr chosen (ap # aps) =
     (if timectr ap > max_timectr then ap_oldest (i + 1) (timectr ap) i aps
      else ap_oldest (i + 1) max_timectr chosen aps)"

definition ap_slot :: "mac \<Rightarrow> Wifi_AccessPoint list \<Rightarrow> bool \<times> nat" where
  "ap_slot m aps =
     (case ap_search m 0 None aps of
        (in_aplist, Some i) \<Rightarrow> (in_aplist, i)
      | (in_aplist, None) \<Rightarrow> (in_aplist, ap_oldest 0 0 0 aps))"

definition INT_MIN :: u32 where [simp]: "INT_MIN = 0x80000000"

definition ap_set_ssid :: "Wifi_MainStruct \<Rightarrow> (mem8 \<times> nat) option \<Rightarrow> Wifi_AccessPoint \<Rightarrow> Wifi_AccessPoint" where
  "ap_set_ssid w nm ap =
     (case nm of None \<Rightarrow> ap
      | Some (ptr, len) \<Rightarrow>
          let len8 = (of_nat len :: u8);
              len8 = (if len8 > 32 then 32 else len8);
              n = unat len8;
              ap = ap\<lparr>ssid_len := len8, ssid := read_bytes ptr 0 n @ [0] @ drop (n + 1) (ssid ap)\<rparr>
          in if Wifi_GetWfcAccessPointIndex (ssid ap) n w \<noteq> None
             then ap\<lparr>ap_flags := ap_flags ap OR WFLAG_APDATA_CONFIG_IN_WFC\<rparr> else ap)"

definition ap_base_flags :: "Wifi_ApSecurityType \<Rightarrow> bool \<Rightarrow> Wifi_NintendoVendorInfo option \<Rightarrow> u16" where
  "ap_base_flags sec compatible info =
     WFLAG_APDATA_ACTIVE OR (if info \<noteq> None then WFLAG_APDATA_NINTENDO_TAG else 0)
       OR (if compatible then WFLAG_APDATA_COMPATIBLE else 0)
       OR (if sec = AP_SECURITY_WEP then WFLAG_APDATA_WEP
           else if sec = AP_SECURITY_WPA \<or> sec = AP_SECURITY_WPA2 then WFLAG_APDATA_WPA else 0)"

definition Wifi_AccessPointAdd :: "mem8 \<Rightarrow> mac \<Rightarrow> (mem8 \<times> nat) option \<Rightarrow> u32 \<Rightarrow> u32 \<Rightarrow>
    Wifi_ApSecurityType \<Rightarrow> Wifi_ApCryptType \<Rightarrow> Wifi_ApCryptType \<Rightarrow> Wifi_ApAuthType \<Rightarrow> bool \<Rightarrow>
    Wifi_NintendoVendorInfo option \<Rightarrow> Wifi_MainStruct \<Rightarrow> Wifi_MainStruct" where
  "Wifi_AccessPointAdd bss sa nm chan rssi_v sec group_crypt pair_crypt auth compatible info w =
     (let seed = ucast (bss 3) OR push_bit 8 (ucast (bss 5)) OR push_bit 16 (ucast (bss 6)) OR push_bit 24 rssi_v;
          w = Wifi_RandomAddEntropy seed w;
          m = read_bytes bss 0 6;
          (in_aplist, i) = ap_slot m (aplist w);
          ap = aplist w ! i
      in case SLasm_Acquire SPINLOCK_OWNER_ARM7 (ap_spinlock ap) of
           (SPINLOCK_OK, l) \<Rightarrow>
             let ap = (if in_aplist then ap else ap\<lparr>bssid := Wifi_CopyMacAddr m\<rparr>);
                 ap = ap\<lparr>timectr := 0, ap_flags := ap_base_flags sec compatible info,
                        nintendo := (case info of None \<Rightarrow> nintendo ap | Some v \<Rightarrow> v),
                        security_type := sec, group_crypt_type := group_crypt,
                        pair_crypt_type := pair_crypt, auth_type := auth\<rparr>;
                 ap = ap_set_ssid w nm ap;
                 ap = ap\<lparr>channel := ucast chan,
                        ap_rssi := (if rssi_v \<noteq> INT_MIN then ucast rssi_v
                                    else if in_aplist then ap_rssi ap else 0)\<rparr>;
                 w = (if Wifi_CmpMacAddr (bssid (curAp w)) sa then w\<lparr>rssi := ucast (ap_rssi ap)\<rparr> else w)
             in w\<lparr>aplist := (aplist w)[i := ap\<lparr>ap_spinlock := spin_release SPINLOCK_OWNER_ARM7 l\<rparr>]\<rparr>
         | (_, l) \<Rightarrow> w\<lparr>aplist := (aplist w)[i := ap\<lparr>ap_spinlock := l\<rparr>]\<rparr>)"

definition ap_tick :: "u32 \<Rightarrow> Wifi_AccessPoint \<Rightarrow> Wifi_AccessPoint" where
  "ap_tick timeout ap =
     (if ap_in_use ap
      then let ap = ap\<lparr>timectr := timectr ap + 1\<rparr>
           in if timectr ap > timeout then ap\<lparr>ap_flags := 0\<rparr> else ap
      else ap)"

definition Wifi_AccessPointTick :: "Wifi_MainStruct \<Rightarrow> Wifi_MainStruct" where
  "Wifi_AccessPointTick w =
     (let timeout = (if reqFlags w AND WFLAG_REQ_DSI_MODE \<noteq> 0 then WIFI_AP_TIMEOUT * 10 else WIFI_AP_TIMEOUT)
      in w\<lparr>aplist := map (ap_tick timeout) (aplist w)\<rparr>)"

section \<open>The table\<close>

text \<open>Of two entries with the same address, only the first can be in use; the addresses have six bytes.\<close>

definition aps_ok :: "Wifi_AccessPoint list \<Rightarrow> bool" where
  "aps_ok aps \<longleftrightarrow> length aps = WIFI_MAX_AP \<and> (\<forall>ap \<in> set aps. length (bssid ap) = 6 \<and> length (ssid ap) = 33) \<and>
     (\<forall>j < length aps. \<forall>i < j. bssid (aps ! i) = bssid (aps ! j) \<longrightarrow> \<not> ap_in_use (aps ! j))"

lemma aps_ok_ne: "aps_ok aps \<Longrightarrow> aps \<noteq> []"
  by (auto simp: aps_ok_def)

lemma ap_search_None:
  "ap_search m i c aps = (b, None) \<Longrightarrow> c = None \<and> \<not> b \<and> (\<forall>ap \<in> set aps. \<not> Wifi_CmpMacAddr (bssid ap) m \<and> ap_in_use ap)"
  by (induction aps arbitrary: i c) (auto split: if_splits)

lemma ap_search_found:
  "ap_search m i c aps = (True, Some k) \<Longrightarrow>
     i \<le> k \<and> k < i + length aps \<and> Wifi_CmpMacAddr (bssid (aps ! (k - i))) m \<and>
     (\<forall>j < k - i. \<not> Wifi_CmpMacAddr (bssid (aps ! j)) m)"
proof (induction aps arbitrary: i c)
  case (Cons ap aps)
  show ?case
  proof (cases "Wifi_CmpMacAddr (bssid ap) m")
    case False
    then have h: "Suc i \<le> k \<and> k < Suc i + length aps \<and> Wifi_CmpMacAddr (bssid (aps ! (k - Suc i))) m \<and>
        (\<forall>j < k - Suc i. \<not> Wifi_CmpMacAddr (bssid (aps ! j)) m)"
      using Cons.IH [of "Suc i"] Cons.prems by (auto split: if_splits)
    then have "k - i = Suc (k - Suc i)" by linarith
    then show ?thesis using h False by (auto simp: nth_Cons split: nat.splits)
  qed (use Cons.prems in auto)
qed simp

lemma ap_search_free:
  "ap_search m i c aps = (False, Some k) \<Longrightarrow>
     (\<forall>ap \<in> set aps. \<not> Wifi_CmpMacAddr (bssid ap) m) \<and>
     (case c of Some k' \<Rightarrow> k = k'
      | None \<Rightarrow> i \<le> k \<and> k < i + length aps \<and> \<not> ap_in_use (aps ! (k - i)) \<and> (\<forall>j < k - i. ap_in_use (aps ! j)))"
proof (induction aps arbitrary: i c)
  case (Cons ap aps)
  then have no: "\<not> Wifi_CmpMacAddr (bssid ap) m" by (auto split: if_splits)
  note ih = Cons.IH [of "Suc i" "if \<not> ap_in_use ap \<and> c = None then Some i else c"]
  show ?case
  proof (cases "c = None \<and> ap_in_use ap")
    case True
    then have h: "Suc i \<le> k \<and> k < Suc i + length aps \<and> \<not> ap_in_use (aps ! (k - Suc i)) \<and> (\<forall>j < k - Suc i. ap_in_use (aps ! j))"
      and a: "\<forall>ap \<in> set aps. \<not> Wifi_CmpMacAddr (bssid ap) m"
      using ih Cons.prems no by auto
    then have "k - i = Suc (k - Suc i)" by linarith
    then show ?thesis using h a True no by (auto simp: nth_Cons split: nat.splits)
  qed (use ih Cons.prems no in \<open>auto split: option.splits if_splits\<close>)
qed simp

lemma ap_oldest_le:
  assumes "\<forall>ap \<in> set aps. timectr ap \<le> mx"
  shows "ap_oldest i mx c aps = c"
  using assms by (induction aps arbitrary: i) (auto simp: linorder_not_less)

lemma ap_oldest_gt:
  assumes "\<exists>ap \<in> set aps. timectr ap > mx"
  shows "i \<le> ap_oldest i mx c aps \<and> ap_oldest i mx c aps < i + length aps \<and>
    (\<forall>ap \<in> set aps. timectr ap \<le> timectr (aps ! (ap_oldest i mx c aps - i)))"
  using assms
proof (induction aps arbitrary: i mx c)
  case (Cons ap aps)
  define mx' c' where d: "mx' = max mx (timectr ap)" "c' = (if timectr ap > mx then i else c)"
  have step: "ap_oldest i mx c (ap # aps) = ap_oldest (Suc i) mx' c' aps" by (auto simp: d max_def)
  show ?case
  proof (cases "\<exists>a \<in> set aps. timectr a > mx'")
    case True
    let ?k = "ap_oldest (Suc i) mx' c' aps"
    have k: "Suc i \<le> ?k \<and> ?k < Suc i + length aps \<and> (\<forall>a \<in> set aps. timectr a \<le> timectr (aps ! (?k - Suc i)))"
      using Cons.IH [OF True] .
    then have "?k - i = Suc (?k - Suc i)" by linarith
    moreover have "timectr ap \<le> timectr (aps ! (?k - Suc i))"
      using True k by (auto simp: d intro: order_trans less_imp_le)
    ultimately show ?thesis using k unfolding step by auto
  next
    case False
    then have "ap_oldest (Suc i) mx' c' aps = c'" by (intro ap_oldest_le) (auto simp: linorder_not_less)
    moreover have "timectr ap > mx" using False Cons.prems by (auto simp: d linorder_not_less dest: leD)
    ultimately show ?thesis using False unfolding step by (auto simp: d max_def linorder_not_less split: if_splits)
  qed
qed simp

lemma ap_oldest_spec:
  assumes "aps \<noteq> []"
  shows "ap_oldest 0 0 0 aps < length aps \<and> (\<forall>ap \<in> set aps. timectr ap \<le> timectr (aps ! ap_oldest 0 0 0 aps))"
proof (cases "\<exists>ap \<in> set aps. timectr ap > 0")
  case True
  then show ?thesis using ap_oldest_gt [OF True, of 0 0] by simp
next
  case False
  then have "ap_oldest 0 0 0 aps = 0" by (intro ap_oldest_le) (auto simp: linorder_not_less)
  then show ?thesis using False assms by (auto simp: linorder_not_less intro: order_trans)
qed

text \<open>The entry an addition goes to.\<close>

lemma ap_slot_cases:
  assumes "aps \<noteq> []" "ap_slot m aps = (b, i)"
  shows "i < length aps \<and>
    (if b then Wifi_CmpMacAddr (bssid (aps ! i)) m \<and> (\<forall>j < i. \<not> Wifi_CmpMacAddr (bssid (aps ! j)) m)
     else (\<forall>ap \<in> set aps. \<not> Wifi_CmpMacAddr (bssid ap) m) \<and>
       (\<not> ap_in_use (aps ! i) \<and> (\<forall>j < i. ap_in_use (aps ! j)) \<or>
        (\<forall>ap \<in> set aps. ap_in_use ap \<and> timectr ap \<le> timectr (aps ! i))))"
proof -
  obtain b' c where r: "ap_search m 0 None aps = (b', c)" by fastforce
  show ?thesis
  proof (cases c)
    case None
    then show ?thesis using ap_search_None [of m 0 None aps b'] ap_oldest_spec [OF assms(1)] r assms(2)
      by (auto simp: ap_slot_def)
  next
    case (Some k)
    then have "b' = b" "k = i" using r assms(2) by (auto simp: ap_slot_def)
    then show ?thesis using r Some ap_search_found [of m 0 None aps i] ap_search_free [of m 0 None aps i]
      by (cases b) auto
  qed
qed

section \<open>Addition\<close>

lemma ap_base_flags_active: "bit (ap_base_flags sec compatible info) 15"
  by (simp add: ap_base_flags_def bit_or_iff)

lemma ap_in_use_bit: "ap_in_use ap \<longleftrightarrow> bit (ap_flags ap) 15"
  using and_exp_eq_0_iff_not_bit [of "ap_flags ap" 15] by (simp add: ap_in_use_def)

lemma ap_set_ssid_fields [simp]:
  "bssid (ap_set_ssid w nm ap) = bssid ap" "timectr (ap_set_ssid w nm ap) = timectr ap"
  "ap_rssi (ap_set_ssid w nm ap) = ap_rssi ap" "ap_spinlock (ap_set_ssid w nm ap) = ap_spinlock ap"
  "security_type (ap_set_ssid w nm ap) = security_type ap" "nintendo (ap_set_ssid w nm ap) = nintendo ap"
  "group_crypt_type (ap_set_ssid w nm ap) = group_crypt_type ap"
  "pair_crypt_type (ap_set_ssid w nm ap) = pair_crypt_type ap" "auth_type (ap_set_ssid w nm ap) = auth_type ap"
  by (auto simp: ap_set_ssid_def Let_def split: option.splits)

lemma ap_set_ssid_active [simp]: "bit (ap_flags (ap_set_ssid w nm ap)) 15 = bit (ap_flags ap) 15"
  by (auto simp: ap_set_ssid_def Let_def bit_or_iff split: option.splits)

lemma ap_set_ssid_length:
  "length (ssid ap) = 33 \<Longrightarrow> length (ssid (ap_set_ssid w nm ap)) = 33"
  by (auto simp: ap_set_ssid_def Let_def word_le_nat_alt linorder_not_less split: option.splits)

lemma RandomAddEntropy_other [simp]:
  "aplist (Wifi_RandomAddEntropy v w) = aplist w" "curAp (Wifi_RandomAddEntropy v w) = curAp w"
  "wfc (Wifi_RandomAddEntropy v w) = wfc w"
  by (simp_all add: Wifi_RandomAddEntropy_def Let_def)

text \<open>What an addition stores in the entry when its lock is free.\<close>

definition ssid_stored :: "(mem8 \<times> nat) option \<Rightarrow> Wifi_AccessPoint \<Rightarrow> bool" where
  "ssid_stored nm ap =
     (case nm of None \<Rightarrow> True
      | Some (ptr, len) \<Rightarrow> len \<ge> 256 \<or>
          ssid_len ap = of_nat (min 32 len) \<and> take (min 32 len) (ssid ap) = read_bytes ptr 0 (min 32 len))"

definition ap_entry_of :: "mac \<Rightarrow> (mem8 \<times> nat) option \<Rightarrow> u32 \<Rightarrow> Wifi_ApSecurityType \<Rightarrow> Wifi_ApCryptType \<Rightarrow> Wifi_ApCryptType \<Rightarrow>
    Wifi_ApAuthType \<Rightarrow> Wifi_NintendoVendorInfo option \<Rightarrow> Wifi_AccessPoint \<Rightarrow> bool" where
  "ap_entry_of m nm chan sec gcr pcr auth info ap \<longleftrightarrow>
     bssid ap = m \<and> ap_in_use ap \<and> timectr ap = 0 \<and> channel ap = ucast chan \<and> security_type ap = sec \<and>
     group_crypt_type ap = gcr \<and> pair_crypt_type ap = pcr \<and> auth_type ap = auth \<and> ap_spinlock ap = 0 \<and>
     ssid_stored nm ap \<and> (case info of None \<Rightarrow> True | Some v \<Rightarrow> nintendo ap = v)"

lemma ap_set_ssid_stored: "ssid_stored nm (ap_set_ssid w nm ap)"
proof (cases nm)
  case (Some x)
  obtain ptr len where x: "x = (ptr, len)" by fastforce
  show ?thesis
  proof (cases "len < 256")
    case True
    then have u: "unat (of_nat len :: u8) = len" by (simp add: unat_of_nat)
    then have "(of_nat len > (32 :: u8)) \<longleftrightarrow> len > 32" by (simp add: word_less_nat_alt)
    then show ?thesis using u by (auto simp: Some x ssid_stored_def ap_set_ssid_def Let_def min_def)
  qed (simp add: Some x ssid_stored_def)
qed (simp add: ssid_stored_def)

lemma ssid_stored_upd [simp]:
  "ssid_stored nm (ap\<lparr>channel := c\<rparr>) = ssid_stored nm ap" "ssid_stored nm (ap\<lparr>ap_rssi := r\<rparr>) = ssid_stored nm ap"
  "ssid_stored nm (ap\<lparr>ap_spinlock := l\<rparr>) = ssid_stored nm ap"
  by (simp_all add: ssid_stored_def split: option.splits)

lemma AccessPointAdd_locked:
  assumes "ap_slot (read_bytes bss 0 6) (aplist w) = (b, i)" "ap_spinlock (aplist w ! i) \<noteq> 0"
  shows "aplist (Wifi_AccessPointAdd bss sa nm chan r sec gcr pcr auth compatible info w) = aplist w"
  using assms by (simp add: Wifi_AccessPointAdd_def Let_def SLasm_Acquire_def)

lemma AccessPointAdd_free:
  assumes "ap_slot (read_bytes bss 0 6) (aplist w) = (b, i)" "ap_spinlock (aplist w ! i) = 0"
    and "aps_ok (aplist w)"
  shows "\<exists>ap. aplist (Wifi_AccessPointAdd bss sa nm chan r sec gcr pcr auth compatible info w) = (aplist w)[i := ap] \<and>
    ap_entry_of (read_bytes bss 0 6) nm chan sec gcr pcr auth info ap \<and> length (ssid ap) = 33"
proof -
  let ?m = "read_bytes bss 0 6"
  have i: "i < length (aplist w)" and b: "b \<Longrightarrow> Wifi_CmpMacAddr (bssid (aplist w ! i)) ?m"
    using ap_slot_cases [OF aps_ok_ne [OF assms(3)] assms(1)] by simp_all
  have e: "length (bssid (aplist w ! i)) = 6" "length (ssid (aplist w ! i)) = 33"
    using assms(3) i by (auto simp: aps_ok_def)
  have "bssid (aplist w ! i) = ?m" if b using b [OF that] e by (simp add: Wifi_CmpMacAddr_def)
  then show ?thesis
    using assms(1,2) e
    by (auto simp: Wifi_AccessPointAdd_def Let_def SLasm_Acquire_def ap_entry_of_def ap_in_use_bit
        ap_base_flags_active Wifi_CopyMacAddr_def ap_set_ssid_length ap_set_ssid_stored split: option.splits)
qed

text \<open>C23: With the lock of the entry free, an addition changes one entry, which then describes the access
  point: the entry that already had its address; failing that, the first unused entry; failing
  that, an entry that has gone the longest without a beacon.\<close>

theorem access_point_added:
  assumes "aps_ok (aplist w)" "\<forall>ap \<in> set (aplist w). ap_spinlock ap = 0"
  shows "\<exists>i ap. i < WIFI_MAX_AP \<and>
    aplist (Wifi_AccessPointAdd bss sa nm chan r sec gcr pcr auth compatible info w) = (aplist w)[i := ap] \<and>
    ap_entry_of (read_bytes bss 0 6) nm chan sec gcr pcr auth info ap \<and>
    (bssid (aplist w ! i) = read_bytes bss 0 6 \<or>
     read_bytes bss 0 6 \<notin> bssid ` set (aplist w) \<and>
       (\<not> ap_in_use (aplist w ! i) \<and> (\<forall>j < i. ap_in_use (aplist w ! j)) \<or>
        (\<forall>ap \<in> set (aplist w). ap_in_use ap \<and> timectr ap \<le> timectr (aplist w ! i))))"
proof -
  let ?m = "read_bytes bss 0 6"
  obtain b i where s: "ap_slot ?m (aplist w) = (b, i)" by fastforce
  note c = ap_slot_cases [OF aps_ok_ne [OF assms(1)] s]
  have i: "i < length (aplist w)" using c by simp
  have eq: "Wifi_CmpMacAddr (bssid ap) ?m \<longleftrightarrow> bssid ap = ?m" if "ap \<in> set (aplist w)" for ap
    using that assms(1) by (simp add: aps_ok_def Wifi_CmpMacAddr_def)
  obtain ap where ap: "aplist (Wifi_AccessPointAdd bss sa nm chan r sec gcr pcr auth compatible info w) = (aplist w)[i := ap]"
      "ap_entry_of ?m nm chan sec gcr pcr auth info ap"
    using AccessPointAdd_free [OF s _ assms(1)] assms(2) i by (metis nth_mem)
  have "bssid (aplist w ! i) = ?m \<or> ?m \<notin> bssid ` set (aplist w) \<and>
       (\<not> ap_in_use (aplist w ! i) \<and> (\<forall>j < i. ap_in_use (aplist w ! j)) \<or>
        (\<forall>ap \<in> set (aplist w). ap_in_use ap \<and> timectr ap \<le> timectr (aplist w ! i)))"
    using c eq i by (cases b) auto
  then show ?thesis using ap i assms(1) by (auto simp: aps_ok_def)
qed

text \<open>An empty table, and an access point with the address 1:2:3:4:5:6 on channel 7.\<close>

definition ap_add_ex :: "Wifi_MainStruct \<Rightarrow> Wifi_MainStruct" where
  "ap_add_ex w = Wifi_AccessPointAdd (\<lambda>k. of_nat (k + 1)) [1, 2, 3, 4, 5, 6] None 7 100 AP_SECURITY_OPEN
     AP_CRYPT_NONE AP_CRYPT_NONE AP_AUTH_NONE True None w"

lemma aps_ok_zero: "aps_ok (replicate 32 zero_ap)"
  by (auto simp: aps_ok_def zero_ap_def ap_in_use_def)

theorem access_point_added_witness:
  "\<exists>i ap. i < WIFI_MAX_AP \<and> aplist (ap_add_ex zero_main) = (aplist zero_main)[i := ap] \<and>
    ap_entry_of [1, 2, 3, 4, 5, 6] None 7 AP_SECURITY_OPEN AP_CRYPT_NONE AP_CRYPT_NONE AP_AUTH_NONE None ap"
proof -
  have z: "aplist zero_main = replicate 32 zero_ap" by (simp add: zero_main_def)
  have "aps_ok (aplist zero_main)" "\<forall>ap \<in> set (aplist zero_main). ap_spinlock ap = 0"
    using aps_ok_zero by (simp_all add: z zero_ap_def)
  moreover have "read_bytes (\<lambda>k. of_nat (k + 1)) 0 6 = [1, 2, 3, 4, 5, 6]" by code_simp
  ultimately show ?thesis
    using access_point_added [of zero_main "\<lambda>k. of_nat (k + 1)" "[1, 2, 3, 4, 5, 6]" None 7 100 AP_SECURITY_OPEN
        AP_CRYPT_NONE AP_CRYPT_NONE AP_AUTH_NONE True None]
    unfolding ap_add_ex_def by auto
qed

section \<open>The invariant\<close>

lemma aps_ok_update:
  assumes ok: "aps_ok aps" and i: "i < length aps" and ap: "length (bssid ap) = 6" "length (ssid ap) = 33"
    and first: "\<And>j. j < i \<Longrightarrow> bssid (aps ! j) \<noteq> bssid ap"
    and later: "\<And>j. i < j \<Longrightarrow> j < length aps \<Longrightarrow> bssid (aps ! j) = bssid ap \<Longrightarrow> \<not> ap_in_use (aps ! j)"
  shows "aps_ok (aps[i := ap])"
  using assms unfolding aps_ok_def
  by (auto simp: nth_list_update dest!: subsetD [OF set_update_subset_insert])

lemma AccessPointAdd_ok:
  assumes "aps_ok (aplist w)"
  shows "aps_ok (aplist (Wifi_AccessPointAdd bss sa nm chan r sec gcr pcr auth compatible info w))"
proof -
  let ?m = "read_bytes bss 0 6"
  obtain b i where s: "ap_slot ?m (aplist w) = (b, i)" by fastforce
  note c = ap_slot_cases [OF aps_ok_ne [OF assms] s]
  have six: "\<And>j. j < length (aplist w) \<Longrightarrow> length (bssid (aplist w ! j)) = 6" using assms by (auto simp: aps_ok_def)
  show ?thesis
  proof (cases "ap_spinlock (aplist w ! i) = 0")
    case True
    obtain ap where ap: "aplist (Wifi_AccessPointAdd bss sa nm chan r sec gcr pcr auth compatible info w) = (aplist w)[i := ap]"
        "bssid ap = ?m" "length (ssid ap) = 33"
      using AccessPointAdd_free [OF s True assms] unfolding ap_entry_of_def by blast
    have no: "bssid (aplist w ! j) \<noteq> ?m" if "\<not> b" "j < length (aplist w)" for j
      using c that by (metis Wifi_CmpMacAddr_def nth_mem)
    have "aps_ok ((aplist w)[i := ap])"
    proof (rule aps_ok_update [OF assms])
      show "i < length (aplist w)" "length (bssid ap) = 6" "length (ssid ap) = 33" using c ap by auto
      show "bssid (aplist w ! j) \<noteq> bssid ap" if "j < i" for j
        using c that ap(2) no [of j] by (cases b) (auto simp: Wifi_CmpMacAddr_def)
      show "\<not> ap_in_use (aplist w ! j)" if j: "i < j" "j < length (aplist w)" "bssid (aplist w ! j) = bssid ap" for j
      proof (cases b)
        case True
        then have "bssid (aplist w ! i) = bssid (aplist w ! j)"
          using c six [of i] ap(2) j by (auto simp: Wifi_CmpMacAddr_def)
        then show ?thesis using assms j by (auto simp: aps_ok_def)
      next
        case False
        then show ?thesis using no [of j] j ap(2) by simp
      qed
    qed
    then show ?thesis by (simp only: ap(1))
  next
    case False
    then show ?thesis using AccessPointAdd_locked [OF s False] assms by simp
  qed
qed

lemma ap_clear_list_Some:
  "ap_clear_list aps = Some aps' \<Longrightarrow> length aps' = length aps \<and>
     (\<forall>i < length aps. ap_flags (aps' ! i) = 0 \<and> length (bssid (aps' ! i)) = length (bssid (aps ! i)) \<and>
       length (ssid (aps' ! i)) = length (ssid (aps ! i)))"
proof (induction aps arbitrary: aps')
  case (Cons ap aps)
  then obtain a as where a: "ap_clear ap = Some a" "ap_clear_list aps = Some as" "aps' = a # as"
    by (auto split: bind_splits)
  show ?case using Cons.IH [OF a(2)] a(1,3)
    by (auto simp: ap_clear_def nth_Cons split: nat.splits)
qed simp

lemma AccessPointClearAll_ok:
  assumes "aps_ok (aplist w)" "Wifi_AccessPointClearAll w = Some w'"
  shows "aps_ok (aplist w')"
  using assms ap_clear_list_Some [of "aplist w"]
  by (auto simp: Wifi_AccessPointClearAll_def aps_ok_def ap_in_use_def all_set_conv_all_nth)

lemma ap_tick_fields [simp]: "bssid (ap_tick t ap) = bssid ap" "ssid (ap_tick t ap) = ssid ap"
  "ap_spinlock (ap_tick t ap) = ap_spinlock ap"
  by (simp_all add: ap_tick_def Let_def)

lemma ap_tick_in_use: "ap_in_use (ap_tick t ap) \<Longrightarrow> ap_in_use ap"
  by (auto simp: ap_tick_def Let_def ap_in_use_def split: if_splits)

lemma AccessPointTick_ok: "aps_ok (aplist w) \<Longrightarrow> aps_ok (aplist (Wifi_AccessPointTick w))"
  by (auto simp: Wifi_AccessPointTick_def Let_def aps_ok_def dest!: ap_tick_in_use)

text \<open>The states of the table: the ARM7 runs its three operations in any order, and in between the other
  fields change freely and the ARM9 takes and releases the locks.\<close>

inductive aps_reach :: "Wifi_MainStruct \<Rightarrow> bool" where
  start: "aplist w = replicate WIFI_MAX_AP zero_ap \<Longrightarrow> aps_reach w"
| clear: "\<lbrakk>aps_reach w; Wifi_AccessPointClearAll w = Some w'\<rbrakk> \<Longrightarrow> aps_reach w'"
| add: "aps_reach w \<Longrightarrow> aps_reach (Wifi_AccessPointAdd bss sa nm chan r sec gcr pcr auth compatible info w)"
| tick: "aps_reach w \<Longrightarrow> aps_reach (Wifi_AccessPointTick w)"
| other: "\<lbrakk>aps_reach w; map (ap_spinlock_update (\<lambda>_. 0)) (aplist w') = map (ap_spinlock_update (\<lambda>_. 0)) (aplist w)\<rbrakk> \<Longrightarrow>
    aps_reach w'"

lemma aps_ok_locks: "aps_ok (map (ap_spinlock_update (\<lambda>_. 0)) aps) = aps_ok aps"
  by (simp add: aps_ok_def ap_in_use_def)

lemma aps_reach_ok: "aps_reach w \<Longrightarrow> aps_ok (aplist w)"
proof (induction rule: aps_reach.induct)
  case (start w)
  then show ?case using aps_ok_zero by simp
next
  case (other w w')
  then show ?case by (metis aps_ok_locks)
qed (auto intro: AccessPointClearAll_ok AccessPointAdd_ok AccessPointTick_ok)

lemma distinct_map_filterI:
  "(\<And>i j. i < j \<Longrightarrow> j < length xs \<Longrightarrow> f (xs ! i) = f (xs ! j) \<Longrightarrow> \<not> P (xs ! j)) \<Longrightarrow> distinct (map f (filter P xs))"
proof (induction xs)
  case (Cons x xs)
  have "distinct (map f (filter P xs))" by (rule Cons.IH) (use Cons.prems [of "Suc _" "Suc _"] in auto)
  moreover have "f x \<notin> f ` set (filter P xs)"
    using Cons.prems [of 0 "Suc _"] by (force simp: in_set_conv_nth)
  ultimately show ?case by simp
qed simp

text \<open>C24: However beacons, timeouts and clearings follow each other, the table keeps its 32 entries and no two
  active entries describe the same address.\<close>

theorem access_points_distinct:
  assumes "aps_reach w"
  shows "length (aplist w) = WIFI_MAX_AP \<and> distinct (map bssid (filter ap_in_use (aplist w)))"
  using aps_reach_ok [OF assms] by (auto simp: aps_ok_def intro!: distinct_map_filterI)

theorem access_points_distinct_witness:
  "distinct (map bssid (filter ap_in_use (aplist (Wifi_AccessPointTick (ap_add_ex (ap_add_ex zero_main))))))"
proof -
  have "aps_reach zero_main" by (rule aps_reach.start) (simp add: zero_main_def)
  then have "aps_reach (Wifi_AccessPointTick (ap_add_ex (ap_add_ex zero_main)))"
    unfolding ap_add_ex_def by (intro aps_reach.tick aps_reach.add)
  then show ?thesis using access_points_distinct by blast
qed

end
