(* ===== verification/Arm9_Ipc.thy ===== *)
theory Arm9_Ipc
  imports Ieee_Defs Spinlock
begin

text \<open>
  The ARM9 side of the library, \<^verbatim>\<open>arm9/ipc.c\<close>: start and stop, the requests the
  application writes into the shared structure, and the variables of the network interface glue
  (\<^verbatim>\<open>arm9/lwip/netif.c\<close>) that the rest of the ARM9 code tests. The state of the ARM9
  is the record \<open>arm9\<close>. Messages sent through the inter-processor FIFO, packets handed to
  lwIP and calls of the application's packet handlers are logged in order, because the callees
  (libnds, lwIP, the application) are not part of the library. An operation whose result is
  \<open>None\<close> stops in an assertion or \<open>libndsCrash\<close>, writes outside an array, or does not return.
\<close>

section \<open>State\<close>

datatype fifo_msg = WIFI_SYNC | WIFI_DEINIT | WIFI_ADDRESS

datatype Wifi_MPPacketType = WIFI_MPTYPE_CMD | WIFI_MPTYPE_REPLY | WIFI_MPTYPE_DATA

datatype rx_event =
    LwipInput "u8 list"
  | RawHandler "u8 list"
  | FromClientHandler Wifi_MPPacketType nat "u8 list"
  | FromHostHandler Wifi_MPPacketType "u8 list"

datatype WIFI_CONNECT_STATE =
    WIFI_CONNECT_ERROR | WIFI_CONNECT_SEARCHING | WIFI_CONNECT_ASSOCIATING
  | WIFI_CONNECT_DHCPING | WIFI_CONNECT_DONE | WIFI_CONNECT_SEARCHING_WFC

record arm9 =
  wd9 :: Wifi_MainStruct
  WifiData_set :: bool
  WifiDataCached_set :: bool
  fifo9 :: "fifo_msg list"
  value32_handler9 :: bool
  ime9 :: bool
  wifi_lwip_enabled :: bool
  dswifi_link_is_up :: bool
  dswifi_use_dhcp :: bool
  netif_ip4 :: "u32 option"
  netif_gw :: "u32 option"
  netif_netmask :: "u32 option"
  netif_ip6_valid :: bool
  dns_server :: "nat \<Rightarrow> u32 option"
  wifi_connect_state :: WIFI_CONNECT_STATE
  wifi_connect_point :: Wifi_AccessPoint
  wifi_rawpackethandler :: bool
  wifi_from_host_packet_handler :: bool
  wifi_from_client_packet_handler :: bool
  rx_events :: "rx_event list"

definition wd9_upd :: "(Wifi_MainStruct \<Rightarrow> Wifi_MainStruct) \<Rightarrow> arm9 \<Rightarrow> arm9" where
  "wd9_upd f s = s\<lparr>wd9 := f (wd9 s)\<rparr>"

lemma wd9_upd_simps [simp]:
  "wd9 (wd9_upd f s) = f (wd9 s)"
  "WifiData_set (wd9_upd f s) = WifiData_set s"
  "fifo9 (wd9_upd f s) = fifo9 s"
  "ime9 (wd9_upd f s) = ime9 s"
  "rx_events (wd9_upd f s) = rx_events s"
  "wifi_connect_state (wd9_upd f s) = wifi_connect_state s"
  "wifi_lwip_enabled (wd9_upd f s) = wifi_lwip_enabled s"
  by (simp_all add: wd9_upd_def)

section \<open>Messages to the ARM7\<close>

definition Wifi_CallSyncHandler9 :: "arm9 \<Rightarrow> arm9" where
  "Wifi_CallSyncHandler9 s = s\<lparr>fifo9 := fifo9 s @ [WIFI_SYNC]\<rparr>"

section \<open>Network interface glue\<close>

definition INADDR_NONE :: u32 where [simp]: "INADDR_NONE = 0xFFFFFFFF"

definition wifi_set_automatic_ip :: "arm9 \<Rightarrow> arm9" where
  "wifi_set_automatic_ip s = s\<lparr>dswifi_use_dhcp := True\<rparr>"

definition wifi_set_manual_ip :: "u32 \<Rightarrow> u32 \<Rightarrow> u32 \<Rightarrow> arm9 \<Rightarrow> arm9" where
  "wifi_set_manual_ip ip_addr netmask gw s =
     (if \<not> wifi_lwip_enabled s then s
      else s\<lparr>netif_ip4 := Some ip_addr, netif_netmask := Some netmask, netif_gw := Some gw,
             dswifi_use_dhcp := False\<rparr>)"

definition wifi_set_dns :: "nat \<Rightarrow> u32 \<Rightarrow> arm9 \<Rightarrow> arm9" where
  "wifi_set_dns index addr s =
     (if \<not> wifi_lwip_enabled s then s else s\<lparr>dns_server := (dns_server s)(index := Some addr)\<rparr>)"

definition wifi_get_ip :: "arm9 \<Rightarrow> u32" where
  "wifi_get_ip s =
     (if \<not> wifi_lwip_enabled s then INADDR_NONE
      else case netif_ip4 s of None \<Rightarrow> INADDR_NONE | Some a \<Rightarrow> a)"

definition wifi_get_ip6 :: "arm9 \<Rightarrow> bool" where
  "wifi_get_ip6 s \<longleftrightarrow> wifi_lwip_enabled s \<and> netif_ip6_valid s"

definition wifi_get_gateway :: "arm9 \<Rightarrow> u32" where
  "wifi_get_gateway s =
     (if \<not> wifi_lwip_enabled s then INADDR_NONE
      else case netif_gw s of None \<Rightarrow> INADDR_NONE | Some a \<Rightarrow> a)"

definition wifi_get_netmask :: "arm9 \<Rightarrow> u32" where
  "wifi_get_netmask s =
     (if \<not> wifi_lwip_enabled s then INADDR_NONE
      else case netif_netmask s of None \<Rightarrow> INADDR_NONE | Some a \<Rightarrow> a)"

definition wifi_get_dns :: "nat \<Rightarrow> arm9 \<Rightarrow> u32" where
  "wifi_get_dns index s =
     (if \<not> wifi_lwip_enabled s then INADDR_NONE
      else case dns_server s index of None \<Rightarrow> INADDR_NONE | Some a \<Rightarrow> a)"

definition Wifi_GetIP :: "arm9 \<Rightarrow> u32" where
  "Wifi_GetIP s = (if \<not> wifi_lwip_enabled s then INADDR_NONE else wifi_get_ip s)"

text \<open>The result and the four values stored through the pointers, when they are stored.\<close>

definition Wifi_GetIPInfo :: "arm9 \<Rightarrow> u32 \<times> (u32 \<times> u32 \<times> u32 \<times> u32) option" where
  "Wifi_GetIPInfo s =
     (if \<not> wifi_lwip_enabled s then (INADDR_NONE, None)
      else (wifi_get_ip s,
            Some (wifi_get_gateway s, wifi_get_netmask s, wifi_get_dns 0 s, wifi_get_dns 1 s)))"

definition Wifi_SetIP :: "u32 \<Rightarrow> u32 \<Rightarrow> u32 \<Rightarrow> u32 \<Rightarrow> u32 \<Rightarrow> arm9 \<Rightarrow> arm9" where
  "Wifi_SetIP IPaddr gateway subnetmask dns1 dns2 s =
     (if \<not> wifi_lwip_enabled s then s
      else if IPaddr = 0 then wifi_set_automatic_ip s
      else wifi_set_dns 1 dns2 (wifi_set_dns 0 dns1 (wifi_set_manual_ip IPaddr subnetmask gateway s)))"

definition wifi_netif_is_up :: "arm9 \<Rightarrow> bool" where
  "wifi_netif_is_up s \<longleftrightarrow> dswifi_link_is_up s"

definition wifi_netif_set_up :: "arm9 \<Rightarrow> arm9" where
  "wifi_netif_set_up s = (if dswifi_link_is_up s then s else s\<lparr>dswifi_link_is_up := True\<rparr>)"

definition wifi_netif_set_down :: "arm9 \<Rightarrow> arm9" where
  "wifi_netif_set_down s = (if \<not> dswifi_link_is_up s then s else s\<lparr>dswifi_link_is_up := False\<rparr>)"

text \<open>
  \<open>netif_add_ok\<close> is the outcome of lwIP's \<^verbatim>\<open>netif_add\<close>; without initial addresses it
  gives the interface the IPv4 address, netmask and gateway 0.0.0.0 and no valid IPv6 address.
\<close>

definition wifi_lwip_init :: "bool \<Rightarrow> arm9 \<Rightarrow> int \<times> arm9" where
  "wifi_lwip_init netif_add_ok s =
     (if \<not> netif_add_ok then (-1, s)
      else let s1 = s\<lparr>netif_ip4 := Some 0, netif_netmask := Some 0, netif_gw := Some 0, netif_ip6_valid := False\<rparr>
           in (0, (wifi_set_automatic_ip (s1\<lparr>dswifi_link_is_up := False\<rparr>))\<lparr>wifi_lwip_enabled := True\<rparr>))"

section \<open>Start and stop\<close>

definition WFC_CONNECT :: u32 where [simp]: "WFC_CONNECT = 1"
definition WIFI_DISABLE_LED :: u32 where [simp]: "WIFI_DISABLE_LED = 2"
definition WIFI_LOCAL_ONLY :: u32 where [simp]: "WIFI_LOCAL_ONLY = 4"
definition WIFI_ATTEMPT_DSI_MODE :: u32 where [simp]: "WIFI_ATTEMPT_DSI_MODE = 8"

text \<open>
  The firmware's personal data: the length byte and the ten characters. The copy loop stores one
  halfword per character into an array of ten, so a longer name leaves the array.
\<close>

definition copy_player_name :: "u8 \<Rightarrow> u16 list \<Rightarrow> u16 list \<Rightarrow> u16 list option" where
  "copy_player_name len src dst =
     (if unat len \<le> length dst \<and> unat len \<le> length src
      then Some (take (unat len) src @ drop (unat len) dst) else None)"

definition InitIPC_requests :: "u32 \<Rightarrow> bool \<Rightarrow> u8 \<Rightarrow> u16 list \<Rightarrow> Wifi_MainStruct option" where
  "InitIPC_requests flags isDSiMode personal_len personal_name =
     (let w = zero_main\<lparr>reqLibraryMode :=
            (if flags AND WIFI_LOCAL_ONLY \<noteq> 0 then DSWIFI_MULTIPLAYER_CLIENT else DSWIFI_INTERNET),
            reqMode := WIFIMODE_DISABLED\<rparr>;
          w = (if flags AND WIFI_DISABLE_LED = 0 then w\<lparr>reqFlags := reqFlags w OR WFLAG_REQ_USELED\<rparr> else w);
          w = (if flags AND WIFI_ATTEMPT_DSI_MODE \<noteq> 0 \<and> isDSiMode
               then w\<lparr>reqFlags := reqFlags w OR WFLAG_REQ_DSI_MODE\<rparr> else w)
      in map_option (\<lambda>nm. w\<lparr>hostPlayerNameLen := personal_len, hostPlayerName := nm\<rparr>)
           (copy_player_name personal_len personal_name (hostPlayerName w)))"

text \<open>
  A wait on \<open>cothread_yield_irq(IRQ_VBLANK)\<close>: \<open>env\<close> is what the ARM7 does to the shared
  structure during one frame, and the fuel bounds the number of frames.
\<close>

fun wait_frames :: "nat \<Rightarrow> (Wifi_MainStruct \<Rightarrow> Wifi_MainStruct) \<Rightarrow> (Wifi_MainStruct \<Rightarrow> bool)
    \<Rightarrow> Wifi_MainStruct \<Rightarrow> Wifi_MainStruct option" where
  "wait_frames 0 env ready w = (if ready w then Some w else None)"
| "wait_frames (Suc n) env ready w = (if ready w then Some w else wait_frames n env ready (env w))"

definition Wifi_InitIPC ::
  "nat \<Rightarrow> (Wifi_MainStruct \<Rightarrow> Wifi_MainStruct) \<Rightarrow> bool \<Rightarrow> bool \<Rightarrow> u8 \<Rightarrow> u16 list \<Rightarrow> u32 \<Rightarrow> arm9
    \<Rightarrow> (bool \<times> arm9) option" where
  "Wifi_InitIPC fuel env alloc_ok isDSiMode personal_len personal_name flags s =
     (if WifiDataCached_set s then None
      else if \<not> alloc_ok then Some (False, s)
      else case InitIPC_requests flags isDSiMode personal_len personal_name of
        None \<Rightarrow> None
      | Some w \<Rightarrow>
          (case wait_frames fuel env (\<lambda>w. flags7 w AND WFLAG_ARM7_ACTIVE \<noteq> 0) w of
             None \<Rightarrow> None
           | Some w' \<Rightarrow> Some (True, s\<lparr>wd9 := w', WifiData_set := True, WifiDataCached_set := True,
                fifo9 := fifo9 s @ [WIFI_ADDRESS]\<rparr>)))"

definition Wifi_CheckInit :: "arm9 \<Rightarrow> int" where
  "Wifi_CheckInit s = (if \<not> WifiData_set s then 0 else 1)"

definition Wifi_Deinit9 ::
  "nat \<Rightarrow> (Wifi_MainStruct \<Rightarrow> Wifi_MainStruct) \<Rightarrow> arm9 \<Rightarrow> (bool \<times> arm9) option" where
  "Wifi_Deinit9 fuel env s =
     (if reqMode (wd9 s) \<noteq> WIFIMODE_DISABLED \<or> curMode (wd9 s) \<noteq> WIFIMODE_DISABLED then Some (False, s)
      else case wait_frames fuel env (\<lambda>w. flags7 w AND WFLAG_ARM7_ACTIVE = 0) (wd9 s) of
        None \<Rightarrow> None
      | Some w' \<Rightarrow>
          if wifi_lwip_enabled s then None
          else Some (True, s\<lparr>wd9 := w', value32_handler9 := False, fifo9 := fifo9 s @ [WIFI_DEINIT],
                             WifiDataCached_set := False\<rparr>))"

section \<open>Information and requests\<close>

definition MAX_WIFIGETDATA :: int where [simp]: "MAX_WIFIGETDATA = 3"

text \<open>The returned number and the bytes stored into the buffer, if any.\<close>

definition Wifi_GetData :: "int \<Rightarrow> int \<Rightarrow> bool \<Rightarrow> arm9 \<Rightarrow> int \<times> u8 list option" where
  "Wifi_GetData data_type bufferlen buffer_given s =
     (if data_type < 0 \<or> data_type \<ge> MAX_WIFIGETDATA then (-1, None)
      else if data_type = 0 then
        (if bufferlen < 6 \<or> \<not> buffer_given then (-1, None) else (6, Some (MacAddr (wd9 s))))
      else if data_type = 1 then (uint (wfc_number_of_configs (wd9 s)), None)
      else if data_type = 2 then (uint (rssi (wd9 s)), None)
      else (-1, None))"

definition Wifi_GetStats :: "int \<Rightarrow> arm9 \<Rightarrow> u32" where
  "Wifi_GetStats statnum s =
     (if statnum < 0 \<or> statnum \<ge> int NUM_WIFI_STATS then 0 else stats (wd9 s) (nat statnum))"

definition Wifi_DisableWifi :: "arm9 \<Rightarrow> arm9" where
  "Wifi_DisableWifi = wd9_upd (\<lambda>w. w\<lparr>reqMode := WIFIMODE_DISABLED\<rparr>)"

definition Wifi_EnableWifi :: "arm9 \<Rightarrow> arm9" where
  "Wifi_EnableWifi = wd9_upd (\<lambda>w. w\<lparr>reqMode := WIFIMODE_NORMAL\<rparr>)"

definition Wifi_SetPromiscuousMode :: "int \<Rightarrow> arm9 \<Rightarrow> arm9" where
  "Wifi_SetPromiscuousMode enable = wd9_upd (\<lambda>w.
     if enable \<noteq> 0 then w\<lparr>reqFlags := reqFlags w OR WFLAG_REQ_PROMISC\<rparr>
     else w\<lparr>reqFlags := reqFlags w AND NOT WFLAG_REQ_PROMISC\<rparr>)"

definition WSCAN_LIST_AP_COMPATIBLE :: u8 where [simp]: "WSCAN_LIST_AP_COMPATIBLE = 1"
definition WSCAN_LIST_AP_INCOMPATIBLE :: u8 where [simp]: "WSCAN_LIST_AP_INCOMPATIBLE = 2"
definition WSCAN_LIST_AP_ALL :: u8 where [simp]: "WSCAN_LIST_AP_ALL = 3"
definition WSCAN_LIST_NDS_HOSTS :: u8 where [simp]: "WSCAN_LIST_NDS_HOSTS = 4"

definition Wifi_ScanModeFilter :: "u8 \<Rightarrow> arm9 \<Rightarrow> arm9" where
  "Wifi_ScanModeFilter flags = wd9_upd (\<lambda>w. w\<lparr>reqApScanFlags := flags, reqMode := WIFIMODE_SCAN\<rparr>)"

definition Wifi_ScanMode :: "arm9 \<Rightarrow> arm9" where
  "Wifi_ScanMode s =
     (if curLibraryMode (wd9 s) = DSWIFI_MULTIPLAYER_CLIENT then Wifi_ScanModeFilter WSCAN_LIST_NDS_HOSTS s
      else if curLibraryMode (wd9 s) = DSWIFI_INTERNET then Wifi_ScanModeFilter WSCAN_LIST_AP_ALL s
      else s)"

definition Wifi_IdleMode :: "arm9 \<Rightarrow> arm9" where
  "Wifi_IdleMode = wd9_upd (\<lambda>w. w\<lparr>reqMode := WIFIMODE_NORMAL\<rparr>)"

definition Wifi_LibraryModeReady :: "arm9 \<Rightarrow> bool" where
  "Wifi_LibraryModeReady s \<longleftrightarrow> curLibraryMode (wd9 s) = reqLibraryMode (wd9 s)"

definition Wifi_InternetMode :: "arm9 \<Rightarrow> arm9" where
  "Wifi_InternetMode s =
     (if \<not> wifi_lwip_enabled s then s
      else wd9_upd (\<lambda>w. w\<lparr>reqLibraryMode := DSWIFI_INTERNET, reqMode := WIFIMODE_NORMAL\<rparr>) s)"

definition MAC_CLIENT_RX_SIZE :: nat where [simp]: "MAC_CLIENT_RX_SIZE = 0x100"

definition client_frame_size :: "u32 \<Rightarrow> u32" where
  "client_frame_size client_packet_size = of_nat HDR_DATA_MAC_SIZE + 1 + client_packet_size + 4"

definition host_frame_size :: "u32 \<Rightarrow> u32" where
  "host_frame_size host_packet_size = of_nat HDR_DATA_MAC_SIZE + 2 + 2 + host_packet_size + 4"

definition Wifi_MultiplayerClientMode :: "u32 \<Rightarrow> arm9 \<Rightarrow> int \<times> arm9" where
  "Wifi_MultiplayerClientMode client_packet_size s =
     (let client_size = client_frame_size client_packet_size in
      if client_size > of_nat MAC_CLIENT_RX_SIZE then (-1, s)
      else (0, wd9_upd (\<lambda>w. w\<lparr>reqLibraryMode := DSWIFI_MULTIPLAYER_CLIENT,
                  reqMode := WIFIMODE_NORMAL, reqReplyDataSize := ucast client_size\<rparr>) s))"

definition clamp_clients :: "int \<Rightarrow> int" where
  "clamp_clients max_clients =
     (let m = (if max_clients > int WIFI_MAX_MULTIPLAYER_CLIENTS then int WIFI_MAX_MULTIPLAYER_CLIENTS
               else max_clients)
      in if m < 1 then 1 else m)"

definition Wifi_MultiplayerHostMode :: "int \<Rightarrow> u32 \<Rightarrow> u32 \<Rightarrow> arm9 \<Rightarrow> int \<times> arm9" where
  "Wifi_MultiplayerHostMode max_clients host_packet_size client_packet_size s =
     (let max_clients = clamp_clients max_clients;
          host_size = host_frame_size host_packet_size;
          client_size = client_frame_size client_packet_size in
      if client_size > of_nat MAC_CLIENT_RX_SIZE then (-1, s)
      else (0, wd9_upd (\<lambda>w. w\<lparr>reqLibraryMode := DSWIFI_MULTIPLAYER_HOST,
                  reqMaxClients := of_int max_clients, reqCmdDataSize := ucast host_size,
                  reqReplyDataSize := ucast client_size, reqMode := WIFIMODE_ACCESSPOINT,
                  reqFlags := reqFlags w OR WFLAG_REQ_ALLOWCLIENTS\<rparr>) s))"

definition Wifi_MultiplayerAllowNewClients :: "bool \<Rightarrow> arm9 \<Rightarrow> arm9" where
  "Wifi_MultiplayerAllowNewClients allow = wd9_upd (\<lambda>w.
     if allow then w\<lparr>reqFlags := reqFlags w OR WFLAG_REQ_ALLOWCLIENTS\<rparr>
     else w\<lparr>reqFlags := reqFlags w AND NOT WFLAG_REQ_ALLOWCLIENTS\<rparr>)"

definition Wifi_MultiplayerHostName :: "mem8 \<Rightarrow> u8 \<Rightarrow> arm9 \<Rightarrow> arm9" where
  "Wifi_MultiplayerHostName buffer len = wd9_upd (\<lambda>w. w\<lparr>hostPlayerNameLen := len,
     hostPlayerName := map (\<lambda>i. read_u16 buffer (2 * i)) [0..<DSWIFI_BEACON_NAME_SIZE div 2]\<rparr>)"

definition Wifi_MultiplayerKickClientByAID :: "int \<Rightarrow> arm9 \<Rightarrow> arm9" where
  "Wifi_MultiplayerKickClientByAID aid s =
     (if aid < 1 \<or> aid > int WIFI_MAX_MULTIPLAYER_CLIENTS then s
      else wd9_upd (\<lambda>w. w\<lparr>clients := (clients w)\<lparr>reqKickClientAIDMask :=
             ucast (ucast (reqKickClientAIDMask (clients w)) OR (BIT (nat aid) :: u32))\<rparr>\<rparr>) s)"

definition Wifi_SetChannel :: "int \<Rightarrow> arm9 \<Rightarrow> arm9" where
  "Wifi_SetChannel chan s =
     (if chan < 1 \<or> chan > 13 then s
      else wd9_upd (\<lambda>w. w\<lparr>reqChannel := of_int chan\<rparr>) s)"

text \<open>
  The ARM9 before the library is started, with the values of the static initialisers; an address of lwIP that
  is all zeros is the IPv4 address 0.0.0.0, and \<open>None\<close> one that is not an IPv4 address.
\<close>

definition arm9_boot :: arm9 where
  "arm9_boot = \<lparr>wd9 = zero_main, WifiData_set = False, WifiDataCached_set = False, fifo9 = [],
     value32_handler9 = False, ime9 = True, wifi_lwip_enabled = False, dswifi_link_is_up = False,
     dswifi_use_dhcp = True, netif_ip4 = Some 0, netif_gw = Some 0, netif_netmask = Some 0,
     netif_ip6_valid = False, dns_server = \<lambda>_. Some 0, wifi_connect_state = WIFI_CONNECT_SEARCHING,
     wifi_connect_point = zero_ap, wifi_rawpackethandler = False,
     wifi_from_host_packet_handler = False, wifi_from_client_packet_handler = False, rx_events = []\<rparr>"

section \<open>Properties\<close>

lemma wait_frames_enough:
  "ready ((env ^^ k) w) \<Longrightarrow> k \<le> n \<Longrightarrow>
   \<exists>j\<le>k. wait_frames n env ready w = Some ((env ^^ j) w) \<and> ready ((env ^^ j) w)"
proof (induction n arbitrary: k w)
  case (Suc n)
  show ?case
  proof (cases "ready w")
    case False
    then obtain k' where k: "k = Suc k'" using Suc.prems by (cases k) auto
    then obtain j where "j \<le> k'" "wait_frames n env ready (env w) = Some ((env ^^ j) (env w))"
        "ready ((env ^^ j) (env w))"
      using Suc.IH [of k' "env w"] Suc.prems by (auto simp: funpow_swap1)
    with False k show ?thesis by (intro exI [of _ "Suc j"]) (simp add: funpow_swap1)
  qed (auto intro: exI [of _ 0])
qed simp

lemma clamp_clients_range: "1 \<le> clamp_clients n \<and> clamp_clients n \<le> 15"
  by (simp add: clamp_clients_def Let_def)

lemma unat_client_frame_size:
  "unat n < 2 ^ 32 - 29 \<Longrightarrow> unat (client_frame_size n) = unat n + 29"
  by (simp add: client_frame_size_def unat_word_ariths)

lemma copy_player_name_length:
  "copy_player_name len src dst = Some nm \<Longrightarrow> length nm = length dst"
  by (auto simp: copy_player_name_def split: if_splits)

text \<open>starting multiplayer host mode either refuses and leaves the state alone, exactly when the
  reply frame computed for the clients is larger than the 256 bytes reserved for it, or requests
  access point mode with a client limit between 1 and 15 and a reply size of at most 256 bytes
  that is the size of the application's data plus 29.\<close>

theorem host_mode_request:
  assumes "unat client_packet_size < 2 ^ 32 - 29"
    and "Wifi_MultiplayerHostMode max_clients host_packet_size client_packet_size s = (r, s')"
  shows "if 227 < unat client_packet_size then r = -1 \<and> s' = s
    else r = 0 \<and> reqMode (wd9 s') = WIFIMODE_ACCESSPOINT \<and>
      reqLibraryMode (wd9 s') = DSWIFI_MULTIPLAYER_HOST \<and>
      1 \<le> unat (reqMaxClients (wd9 s')) \<and> unat (reqMaxClients (wd9 s')) \<le> 15 \<and>
      unat (reqReplyDataSize (wd9 s')) = unat client_packet_size + 29 \<and>
      reqFlags (wd9 s') AND WFLAG_REQ_ALLOWCLIENTS \<noteq> 0"
proof -
  let ?c = "client_frame_size client_packet_size"
  have c: "unat ?c = unat client_packet_size + 29"
    using assms(1) by (rule unat_client_frame_size)
  then have le: "?c > 256 \<longleftrightarrow> 227 < unat client_packet_size"
    by (auto simp: word_less_nat_alt)
  have "uint (of_int (clamp_clients max_clients) :: u8) = clamp_clients max_clients"
    using clamp_clients_range [of max_clients]
    by (simp add: unsigned_of_int take_bit_int_eq_self_iff)
  then have m: "unat (of_int (clamp_clients max_clients) :: u8) = nat (clamp_clients max_clients)"
    by (metis nat_uint_eq)
  have "(x OR 64) AND 64 \<noteq> 0" for x :: u16
  proof
    assume "(x OR 64) AND 64 = 0"
    then have "\<not> bit ((x OR 64) AND 64) 6" by simp
    then show False by (simp add: bit_simps)
  qed
  moreover have "unat (ucast ?c :: u16) = unat client_packet_size + 29" if "\<not> 227 < unat client_packet_size"
    using that c by (simp add: unsigned_ucast_eq take_bit_nat_eq_self_iff)
  ultimately show ?thesis
    using le m clamp_clients_range [of max_clients] assms(2)
    by (auto simp: Wifi_MultiplayerHostMode_def Let_def split: if_splits)
qed

theorem host_mode_request_witness:
  "\<exists>s'. Wifi_MultiplayerHostMode 40 100 200 arm9_boot = (0, s') \<and>
     unat (reqMaxClients (wd9 s')) \<le> 15 \<and> unat (reqReplyDataSize (wd9 s')) = 229"
proof -
  obtain r s' where "Wifi_MultiplayerHostMode 40 100 200 arm9_boot = (r, s')" by fastforce
  with host_mode_request [of 200 40 100 arm9_boot r s'] show ?thesis by simp
qed

text \<open>a request to kick a client sets the bit of its association identifier in the request mask
  when the identifier is 1 to 7; for the identifiers 8 to 15, which the function also accepts,
  the eight-bit mask cannot hold the bit and the request is lost without a trace.\<close>

theorem kick_request_bits:
  assumes "1 \<le> aid" "aid \<le> 15"
  shows "(aid \<le> 7 \<longrightarrow> (\<forall>k. bit (reqKickClientAIDMask (clients (wd9 (Wifi_MultiplayerKickClientByAID aid s)))) k
            \<longleftrightarrow> k = nat aid \<or> bit (reqKickClientAIDMask (clients (wd9 s))) k)) \<and>
         (8 \<le> aid \<longrightarrow> Wifi_MultiplayerKickClientByAID aid s = s)"
proof (intro conjI impI allI)
  let ?m = "reqKickClientAIDMask (clients (wd9 s))"
  fix k assume "aid \<le> 7"
  then show "bit (reqKickClientAIDMask (clients (wd9 (Wifi_MultiplayerKickClientByAID aid s)))) k
      \<longleftrightarrow> k = nat aid \<or> bit ?m k"
    using assms by (auto simp: Wifi_MultiplayerKickClientByAID_def bit_ucast_iff bit_or_iff bit_BIT
      dest: bit_imp_le_length)
next
  let ?m = "reqKickClientAIDMask (clients (wd9 s))"
  assume aid: "8 \<le> aid"
  have "ucast (ucast ?m OR (BIT (nat aid) :: u32)) = ?m"
    using aid by (intro bit_word_eqI) (auto simp: bit_ucast_iff bit_or_iff bit_BIT)
  then show "Wifi_MultiplayerKickClientByAID aid s = s"
    by (simp add: Wifi_MultiplayerKickClientByAID_def wd9_upd_def)
qed

theorem kick_request_bits_witness: "Wifi_MultiplayerKickClientByAID 9 arm9_boot = arm9_boot"
  using kick_request_bits [of 9 arm9_boot] by simp

text \<open>After a successful stop of the library the flag that says whether it is initialised still
  says so: the pointer to the shared structure, which has been freed, is never cleared.\<close>

theorem deinit_check_init:
  assumes "Wifi_Deinit9 fuel env s = Some (True, s')" "Wifi_CheckInit s = 1"
  shows "Wifi_CheckInit s' = 1 \<and> \<not> WifiDataCached_set s'"
  using assms by (auto simp: Wifi_Deinit9_def Wifi_CheckInit_def split: if_splits option.splits)

theorem deinit_check_init_witness:
  "\<exists>s'. Wifi_Deinit9 0 id (arm9_boot\<lparr>WifiData_set := True, WifiDataCached_set := True\<rparr>) = Some (True, s') \<and>
     Wifi_CheckInit s' = 1 \<and> \<not> WifiDataCached_set s'"
proof -
  let ?s = "arm9_boot\<lparr>WifiData_set := True, WifiDataCached_set := True\<rparr>"
  obtain s' where "Wifi_Deinit9 0 id ?s = Some (True, s')"
    by (simp add: Wifi_Deinit9_def arm9_boot_def zero_main_def)
  moreover have "Wifi_CheckInit ?s = 1" by (simp add: Wifi_CheckInit_def)
  ultimately show ?thesis using deinit_check_init [of 0 id ?s s'] by blast
qed

end
