(* ===== verification/Arm9_Mp.thy ===== *)
theory Arm9_Mp
  imports Arm9_Ipc
begin

text \<open>
  \<^verbatim>\<open>arm9/ntr/multiplayer.c\<close>: what the application can ask about the clients of a
  multiplayer host, and the filters that decide which received frames reach its handlers.
  Reading the client list takes the spinlock of \<open>WifiData->clients\<close> with interrupts off.
\<close>

section \<open>Information on clients\<close>

definition Wifi_MultiplayerGetNumClients :: "arm9 \<Rightarrow> nat" where
  "Wifi_MultiplayerGetNumClients s =
     (if curLibraryMode (wd9 s) \<noteq> DSWIFI_MULTIPLAYER_HOST then 0
      else let m = aid_mask (clients (wd9 s)) in
        length (filter (\<lambda>i. m AND BIT (i + 1) \<noteq> 0) [0..<WIFI_MAX_MULTIPLAYER_CLIENTS]))"

definition Wifi_MultiplayerGetClientMask :: "arm9 \<Rightarrow> u16" where
  "Wifi_MultiplayerGetClientMask s =
     (if curLibraryMode (wd9 s) \<noteq> DSWIFI_MULTIPLAYER_HOST then 0 else aid_mask (clients (wd9 s)))"

fun copy_clients :: "int \<Rightarrow> int \<Rightarrow> Wifi_ConnectedClient list \<Rightarrow> Wifi_ConnectedClient list" where
  "copy_clients max_clients c [] = []"
| "copy_clients max_clients c (client # rest) =
     (let (c', out) = (if client_state client \<noteq> WIFI_CLIENT_DISCONNECTED then (c + 1, [client]) else (c, []))
      in if c' = max_clients then out else out @ copy_clients max_clients c' rest)"

definition clients_upd :: "(Wifi_ClientsInfoIpc \<Rightarrow> Wifi_ClientsInfoIpc) \<Rightarrow> arm9 \<Rightarrow> arm9" where
  "clients_upd f = wd9_upd (\<lambda>w. w\<lparr>clients := f (clients w)\<rparr>)"

text \<open>\<open>Spinlock_Acquire(WifiData->clients)\<close> in a loop, after \<open>enterCriticalSection\<close>.\<close>

definition lock_clients9 :: "arm9 \<Rightarrow> arm9 option" where
  "lock_clients9 s =
     map_option (\<lambda>l. (clients_upd (\<lambda>c. c\<lparr>clients_spinlock := l\<rparr>) s)\<lparr>ime9 := False\<rparr>)
       (spin_acquire SPINLOCK_OWNER_ARM9 (clients_spinlock (clients (wd9 s))))"

definition unlock_clients9 :: "bool \<Rightarrow> arm9 \<Rightarrow> arm9" where
  "unlock_clients9 oldIME s =
     (clients_upd (\<lambda>c. c\<lparr>clients_spinlock := spin_release SPINLOCK_OWNER_ARM9 (clients_spinlock c)\<rparr>) s)
       \<lparr>ime9 := oldIME\<rparr>"

definition Wifi_MultiplayerGetClients ::
  "int \<Rightarrow> bool \<Rightarrow> arm9 \<Rightarrow> (int \<times> Wifi_ConnectedClient list \<times> arm9) option" where
  "Wifi_MultiplayerGetClients max_clients client_data_given s =
     (if curLibraryMode (wd9 s) \<noteq> DSWIFI_MULTIPLAYER_HOST then Some (0, [], s)
      else if max_clients \<le> 0 \<or> \<not> client_data_given then Some (-1, [], s)
      else case lock_clients9 s of
        None \<Rightarrow> None
      | Some s1 \<Rightarrow>
          let out = copy_clients max_clients 0 (client_list (clients (wd9 s1)))
          in Some (int (length out), out, unlock_clients9 (ime9 s) s1))"

definition Wifi_MultiplayerClientGetMacFromAID ::
  "int \<Rightarrow> bool \<Rightarrow> arm9 \<Rightarrow> (mac option \<times> arm9) option" where
  "Wifi_MultiplayerClientGetMacFromAID aid dest_given s =
     (if \<not> dest_given then Some (None, s)
      else if aid < 1 then Some (None, s)
      else case lock_clients9 s of
        None \<Rightarrow> None
      | Some s1 \<Rightarrow>
          if aid > uint (curMaxClients (wd9 s1)) then Some (None, s1)
          else let index = nat (aid - 1); cl = client_list (clients (wd9 s1)) in
            if index \<ge> length cl then None
            else Some (if client_state (cl ! index) = WIFI_CLIENT_ASSOCIATED
                       then Some (Wifi_CopyMacAddr (macaddr (cl ! index))) else None,
                       unlock_clients9 (ime9 s) s1))"

definition Wifi_MultiplayerClientMatchesMacAndAID ::
  "int \<Rightarrow> mac option \<Rightarrow> arm9 \<Rightarrow> (bool \<times> arm9) option" where
  "Wifi_MultiplayerClientMatchesMacAndAID aid macaddr_ptr s =
     (case macaddr_ptr of
        None \<Rightarrow> Some (False, s)
      | Some ma \<Rightarrow>
          if aid < 1 then Some (False, s)
          else case lock_clients9 s of
            None \<Rightarrow> None
          | Some s1 \<Rightarrow>
              if aid > uint (curMaxClients (wd9 s1)) then Some (False, s1)
              else let index = nat (aid - 1); cl = client_list (clients (wd9 s1)) in
                if index \<ge> length cl then None
                else Some (client_state (cl ! index) = WIFI_CLIENT_ASSOCIATED \<and>
                           Wifi_CmpMacAddr ma (macaddr (cl ! index)),
                           unlock_clients9 (ime9 s) s1))"

section \<open>Packet handlers\<close>

definition Wifi_MultiplayerFromHostSetPacketHandler :: "bool \<Rightarrow> arm9 \<Rightarrow> arm9" where
  "Wifi_MultiplayerFromHostSetPacketHandler func s = s\<lparr>wifi_from_host_packet_handler := func\<rparr>"

definition Wifi_MultiplayerFromClientSetPacketHandler :: "bool \<Rightarrow> arm9 \<Rightarrow> arm9" where
  "Wifi_MultiplayerFromClientSetPacketHandler func s = s\<lparr>wifi_from_client_packet_handler := func\<rparr>"

text \<open>
  Sizes of the structures of \<^verbatim>\<open>arm9/ntr/multiplayer.h\<close>. They hold 16-bit fields, so the
  client header, 24 bytes and one byte of identifier, is padded to 26.
\<close>

definition sizeof_MultiplayerHostIeeeDataFrame :: u32 where [simp]: "sizeof_MultiplayerHostIeeeDataFrame = 28"
definition sizeof_MultiplayerClientIeeeDataFrame :: u32 where [simp]: "sizeof_MultiplayerClientIeeeDataFrame = 26"
definition sizeof_IEEE_DataFrameHeader :: u32 where [simp]: "sizeof_IEEE_DataFrameHeader = 24"

definition mp_mask :: u16 where [simp]: "mp_mask = FC_TO_DS OR FC_FROM_DS OR FC_TYPE_SUBTYPE_MASK"

definition client_packet_type :: "u16 \<Rightarrow> Wifi_MPPacketType option" where
  "client_packet_type frame_control =
     (if frame_control AND mp_mask = TYPE_DATA_CF_ACK OR FC_TO_DS then Some WIFI_MPTYPE_REPLY
      else if frame_control AND mp_mask = TYPE_DATA OR FC_TO_DS then Some WIFI_MPTYPE_DATA
      else None)"

definition host_packet_type :: "u16 \<Rightarrow> Wifi_MPPacketType option" where
  "host_packet_type frame_control =
     (if frame_control AND mp_mask = TYPE_DATA_CF_POLL OR FC_FROM_DS then Some WIFI_MPTYPE_CMD
      else if frame_control AND mp_mask = TYPE_DATA OR FC_FROM_DS then Some WIFI_MPTYPE_DATA
      else None)"

definition log_event :: "rx_event \<Rightarrow> arm9 \<Rightarrow> arm9" where
  "log_event e s = s\<lparr>rx_events := rx_events s @ [e]\<rparr>"

definition Wifi_MultiplayerHandlePacketFromClient :: "mem8 \<Rightarrow> nat \<Rightarrow> u32 \<Rightarrow> arm9 \<Rightarrow> arm9 option" where
  "Wifi_MultiplayerHandlePacketFromClient m packet sz s =
     (if \<not> wifi_from_client_packet_handler s then Some s
      else if sz < sizeof_MultiplayerClientIeeeDataFrame then Some s
      else case client_packet_type (frame_control_at m packet) of
        None \<Rightarrow> Some s
      | Some ty \<Rightarrow>
          if \<not> Wifi_CmpMacAddr (addr_3_at m packet)
                 (if ty = WIFI_MPTYPE_REPLY then wifi_reply_mac else MacAddr (wd9 s)) then Some s
          else
            let header_size = sizeof_MultiplayerClientIeeeDataFrame; aid = m (packet + 24) in
            case Wifi_MultiplayerClientMatchesMacAndAID (uint aid) (Some (addr_2_at m packet)) s of
              None \<Rightarrow> None
            | Some (False, s1) \<Rightarrow> Some s1
            | Some (True, s1) \<Rightarrow>
                Some (log_event (FromClientHandler ty (unat aid)
                  (read_bytes m (packet + unat header_size) (unat (sz - header_size)))) s1))"

definition Wifi_MultiplayerHandlePacketFromHost :: "mem8 \<Rightarrow> nat \<Rightarrow> u32 \<Rightarrow> arm9 \<Rightarrow> arm9" where
  "Wifi_MultiplayerHandlePacketFromHost m packet sz s =
     (if \<not> wifi_from_host_packet_handler s then s
      else if sz < sizeof_MultiplayerHostIeeeDataFrame then s
      else case host_packet_type (frame_control_at m packet) of
        None \<Rightarrow> s
      | Some ty \<Rightarrow>
          let (header_size, dest) =
            (if ty = WIFI_MPTYPE_CMD then (sizeof_MultiplayerHostIeeeDataFrame, wifi_cmd_mac)
             else (sizeof_IEEE_DataFrameHeader, MacAddr (wd9 s))) in
          if \<not> Wifi_CmpMacAddr (addr_1_at m packet) dest then s
          else if \<not> Wifi_CmpMacAddr (addr_3_at m packet) (bssid (curAp (wd9 s))) then s
          else log_event (FromHostHandler ty
                 (read_bytes m (packet + unat header_size) (unat (sz - header_size)))) s)"

section \<open>Properties\<close>

lemma aid_bit: "m AND BIT k \<noteq> 0 \<longleftrightarrow> bit m k" for m :: "'a::len word"
proof
  assume "bit m k"
  then have "bit (m AND BIT k) k" by (auto simp: bit_and_iff bit_BIT dest: bit_imp_le_length)
  then show "m AND BIT k \<noteq> 0" by auto
qed (auto intro!: bit_word_eqI simp: bit_and_iff bit_BIT)

lemma num_clients_card:
  assumes "curLibraryMode (wd9 s) = DSWIFI_MULTIPLAYER_HOST"
  shows "Wifi_MultiplayerGetNumClients s = card {k \<in> {1..15}. bit (aid_mask (clients (wd9 s))) k}"
proof -
  let ?m = "aid_mask (clients (wd9 s))"
  have "Wifi_MultiplayerGetNumClients s = card {i. i < 15 \<and> bit ?m (Suc i)}"
    using assms by (simp only: Wifi_MultiplayerGetNumClients_def Let_def aid_bit)
      (simp add: length_filter_conv_card conj_commute cong: conj_cong)
  also have "\<dots> = card (Suc ` {i. i < 15 \<and> bit ?m (Suc i)})" by (simp add: card_image)
  also have "Suc ` {i. i < 15 \<and> bit ?m (Suc i)} = {k \<in> {1..15}. bit ?m k}"
    by (auto simp: image_iff) (metis Suc_le_D Suc_le_eq less_Suc_eq_le numeral_eq_Suc pred_numeral_simps(3) One_nat_def)
  finally show ?thesis .
qed

lemma copy_clients_filter:
  assumes "0 \<le> c" "c < max_clients"
  shows "copy_clients max_clients c cl =
    take (nat (max_clients - c)) (filter (\<lambda>x. client_state x \<noteq> WIFI_CLIENT_DISCONNECTED) cl)"
  using assms
proof (induction cl arbitrary: c)
  case (Cons x cl)
  have d: "nat (max_clients - c) = Suc (nat (max_clients - (c + 1)))" using Cons.prems by linarith
  show ?case
    using Cons.IH [of c] Cons.IH [of "c + 1"] Cons.prems d by (auto simp: Let_def)
qed simp

definition unlocked9 :: "arm9 \<Rightarrow> bool" where
  "unlocked9 s \<longleftrightarrow> clients_spinlock (clients (wd9 s)) = 0"

lemma lock_unlock:
  assumes "unlocked9 s"
  shows "\<exists>s1. lock_clients9 s = Some s1 \<and> unlock_clients9 (ime9 s) s1 = s \<and>
    curMaxClients (wd9 s1) = curMaxClients (wd9 s) \<and>
    client_list (clients (wd9 s1)) = client_list (clients (wd9 s)) \<and>
    clients_spinlock (clients (wd9 s1)) = SPINLOCK_OWNER_ARM9 \<and> ime9 s1 = False"
  using assms by (simp add: lock_clients9_def unlocked9_def unlock_clients9_def clients_upd_def wd9_upd_def)

lemma matches_mac_aid:
  assumes "unlocked9 s" "1 \<le> aid" "aid \<le> unat (curMaxClients (wd9 s))"
    "unat (curMaxClients (wd9 s)) \<le> length (client_list (clients (wd9 s)))"
    "client_state (client_list (clients (wd9 s)) ! (aid - 1)) = WIFI_CLIENT_ASSOCIATED"
  shows "Wifi_MultiplayerClientMatchesMacAndAID (int aid) (Some ma) s =
    Some (Wifi_CmpMacAddr ma (macaddr (client_list (clients (wd9 s)) ! (aid - 1))), s)"
proof -
  obtain s1 where s1: "lock_clients9 s = Some s1" "unlock_clients9 (ime9 s) s1 = s"
      "curMaxClients (wd9 s1) = curMaxClients (wd9 s)"
      "client_list (clients (wd9 s1)) = client_list (clients (wd9 s))"
    using lock_unlock [OF assms(1)] by blast
  have "\<not> uint (curMaxClients (wd9 s)) < int aid" using assms(3) by (simp add: le_nat_iff not_less flip: nat_uint_eq)
  moreover have "nat (int aid - 1) = aid - 1" "aid - 1 < length (client_list (clients (wd9 s)))"
    using assms(2-4) by linarith+
  ultimately show ?thesis
    using s1 assms(2,5) by (simp add: Wifi_MultiplayerClientMatchesMacAndAID_def Let_def)
qed

text \<open>asking for the clients of a host returns, in list order, the first connected clients up to
  the number asked for, and leaves the lock and the interrupt state as they were.\<close>

theorem get_clients_result:
  assumes "curLibraryMode (wd9 s) = DSWIFI_MULTIPLAYER_HOST" "0 < max_clients" "unlocked9 s"
  shows "\<exists>out. Wifi_MultiplayerGetClients max_clients True s = Some (int (length out), out, s) \<and>
    out = take (nat max_clients)
      (filter (\<lambda>x. client_state x \<noteq> WIFI_CLIENT_DISCONNECTED) (client_list (clients (wd9 s))))"
  using lock_unlock [OF assms(3)] assms(1,2) copy_clients_filter [of 0 max_clients]
  by (auto simp: Wifi_MultiplayerGetClients_def Let_def)

theorem get_clients_result_witness:
  "\<exists>out. Wifi_MultiplayerGetClients 3 True (arm9_boot\<lparr>wd9 := zero_main\<lparr>curLibraryMode := DSWIFI_MULTIPLAYER_HOST\<rparr>\<rparr>)
     = Some (0, out, arm9_boot\<lparr>wd9 := zero_main\<lparr>curLibraryMode := DSWIFI_MULTIPLAYER_HOST\<rparr>\<rparr>) \<and> out = []"
  using get_clients_result [of "arm9_boot\<lparr>wd9 := zero_main\<lparr>curLibraryMode := DSWIFI_MULTIPLAYER_HOST\<rparr>\<rparr>" 3]
  by (simp add: unlocked9_def zero_main_def zero_clients_def zero_client_def)

text \<open>C38: looking up the address of a client whose identifier is within the limit of the host returns
  the address of the associated client of that slot, or nothing, and restores the lock and the
  interrupt state; with an identifier above the limit the call returns with the lock held and
  interrupts disabled, and every later call that needs the lock does not return.\<close>

theorem get_mac_from_aid_lock:
  assumes "unlocked9 s" "1 \<le> aid" "unat (curMaxClients (wd9 s)) \<le> length (client_list (clients (wd9 s)))"
  shows "if aid \<le> uint (curMaxClients (wd9 s))
    then Wifi_MultiplayerClientGetMacFromAID aid True s =
      Some (let cl = client_list (clients (wd9 s)) ! nat (aid - 1) in
            if client_state cl = WIFI_CLIENT_ASSOCIATED then Some (take 6 (macaddr cl)) else None, s)
    else \<exists>s'. Wifi_MultiplayerClientGetMacFromAID aid True s = Some (None, s') \<and> ime9 s' = False \<and>
      (\<forall>aid' \<ge> 1. Wifi_MultiplayerClientGetMacFromAID aid' True s' = None)"
proof -
  obtain s1 where s1: "lock_clients9 s = Some s1" "unlock_clients9 (ime9 s) s1 = s"
      "curMaxClients (wd9 s1) = curMaxClients (wd9 s)"
      "client_list (clients (wd9 s1)) = client_list (clients (wd9 s))"
      "clients_spinlock (clients (wd9 s1)) = SPINLOCK_OWNER_ARM9" "ime9 s1 = False"
    using lock_unlock [OF assms(1)] by blast
  have stuck: "lock_clients9 s1 = None" using s1(5) by (simp add: lock_clients9_def)
  have "nat (aid - 1) < length (client_list (clients (wd9 s)))" if "aid \<le> uint (curMaxClients (wd9 s))"
    using that assms(2,3) by (simp add: nat_less_iff flip: nat_uint_eq)
  then show ?thesis
    using s1 stuck assms(2) by (auto simp: Wifi_MultiplayerClientGetMacFromAID_def Let_def Wifi_CopyMacAddr_def)
qed

theorem get_mac_from_aid_lock_witness:
  "\<exists>s'. Wifi_MultiplayerClientGetMacFromAID 1 True arm9_boot = Some (None, s') \<and> ime9 s' = False \<and>
     Wifi_MultiplayerClientGetMacFromAID 1 True s' = None"
  using get_mac_from_aid_lock [of arm9_boot 1]
  by (auto simp: unlocked9_def arm9_boot_def zero_main_def zero_clients_def)

end
