(* ===== verification/Arm9_Tx.thy ===== *)
theory Arm9_Tx
  imports Arm9_Mp Circ_Buffer
begin

text \<open>
  The frames the ARM9 puts into the TX circular buffer: \<^verbatim>\<open>arm9/ntr/rx_tx_queue.c\<close>,
  \<^verbatim>\<open>arm9/ntr/beacon.c\<close> and the transmit half of \<^verbatim>\<open>arm9/lwip/rx_tx.c\<close>. Each
  function has its own frame layout and flag, and the same enqueue sequence; the layout is the
  function \<open>fill\<close> given to \<open>BufferPut\<close>. The four bytes of the FCS and the padding are
  reserved and not written.
\<close>

section \<open>Enqueueing\<close>

definition fill_frame :: "u8 list \<Rightarrow> u8 list \<Rightarrow> nat \<Rightarrow> mem8 \<Rightarrow> mem8" where
  "fill_frame header data write_idx m =
     write_bytes (write_bytes m write_idx header) (write_idx + length header) data"

definition tx_rejected :: "arm9 \<Rightarrow> arm9" where
  "tx_rejected = wd9_upd (stat_add WSTAT_TXQUEUEDREJECTED 1)"

definition tx_queued :: "u32 \<Rightarrow> arm9 \<Rightarrow> arm9" where
  "tx_queued bytes s =
     Wifi_CallSyncHandler9 (wd9_upd (\<lambda>w. stat_add WSTAT_TXQUEUEDBYTES bytes (stat_add WSTAT_TXQUEUEDPACKETS 1 w)) s)"

definition TxEnqueue :: "u32 \<Rightarrow> (nat \<Rightarrow> mem8 \<Rightarrow> mem8) \<Rightarrow> u32 \<Rightarrow> u32 \<Rightarrow> arm9 \<Rightarrow> (int \<times> arm9) option" where
  "TxEnqueue frame_size fill flag stat_bytes s =
     (case BufferPut WIFI_TXBUFFER_SIZE frame_size fill (frame_size OR flag) (txbuf (wd9 s)) of
        None \<Rightarrow> None
      | Some (False, b) \<Rightarrow> Some (-1, tx_rejected (wd9_upd (\<lambda>w. w\<lparr>txbuf := b\<rparr>) s))
      | Some (True, b) \<Rightarrow> Some (0, tx_queued stat_bytes (wd9_upd (\<lambda>w. w\<lparr>txbuf := b\<rparr>) s)))"

text \<open>The bytes at the application's pointer \<open>data_src\<close>.\<close>

definition user_data :: "mem8 \<Rightarrow> u32 \<Rightarrow> u8 list" where
  "user_data data_src data_size = read_bytes data_src 0 (unat data_size)"

section \<open>Raw and multiplayer frames\<close>

definition Wifi_RawTxFrame :: "u32 \<Rightarrow> u16 \<Rightarrow> mem8 \<Rightarrow> arm9 \<Rightarrow> (int \<times> arm9) option" where
  "Wifi_RawTxFrame data_size rate data_src s =
     (let frame_size = 12 + data_size + 4;
          frame = Wifi_TxHeader_bytes rate (ucast (frame_size - 12))
      in TxEnqueue frame_size (fill_frame frame (user_data data_src data_size)) WFLAG_SEND_AS_DATA data_size s)"

definition cmd_frame :: "u32 \<Rightarrow> Wifi_MainStruct \<Rightarrow> u8 list" where
  "cmd_frame frame_size w =
     Wifi_TxHeader_bytes WIFI_TRANSFER_RATE_2MBPS (ucast (frame_size - 12)) @
     IEEE_DataFrameHeader_bytes (TYPE_DATA_CF_POLL OR FC_FROM_DS) 0 wifi_cmd_mac (MacAddr w) (MacAddr w) 0 @
     le16 0 @ le16 0"

definition Wifi_MultiplayerHostCmdTxFrame :: "mem8 \<Rightarrow> u32 \<Rightarrow> arm9 \<Rightarrow> (int \<times> arm9) option" where
  "Wifi_MultiplayerHostCmdTxFrame data_src data_size s =
     (let frame_size = 40 + data_size + 4
      in TxEnqueue frame_size (fill_frame (cmd_frame frame_size (wd9 s)) (user_data data_src data_size))
           WFLAG_SEND_AS_CMD data_size s)"

text \<open>The structure of client frames ends in one byte of padding, which the initialiser clears.\<close>

definition client_frame :: "u16 \<Rightarrow> mac \<Rightarrow> u32 \<Rightarrow> Wifi_MainStruct \<Rightarrow> u8 list" where
  "client_frame frame_control addr_3 frame_size w =
     Wifi_TxHeader_bytes WIFI_TRANSFER_RATE_2MBPS (ucast (frame_size - 12)) @
     IEEE_DataFrameHeader_bytes frame_control 0 (bssid (curAp w)) (MacAddr w) addr_3 0 @
     [curClientAID (clients w), 0]"

definition Wifi_MultiplayerClientReplyTxFrame :: "mem8 \<Rightarrow> u32 \<Rightarrow> arm9 \<Rightarrow> (int \<times> arm9) option" where
  "Wifi_MultiplayerClientReplyTxFrame data_src data_size s =
     (let frame_size = 38 + data_size + 4
      in TxEnqueue frame_size
           (fill_frame (client_frame (TYPE_DATA_CF_ACK OR FC_TO_DS) wifi_reply_mac frame_size (wd9 s))
              (user_data data_src data_size))
           WFLAG_SEND_AS_REPLY data_size s)"

definition host_data_frame :: "mac \<Rightarrow> u32 \<Rightarrow> Wifi_MainStruct \<Rightarrow> u8 list" where
  "host_data_frame client_macaddr frame_size w =
     Wifi_TxHeader_bytes WIFI_TRANSFER_RATE_2MBPS (ucast (frame_size - 12)) @
     IEEE_DataFrameHeader_bytes (TYPE_DATA OR FC_FROM_DS) 0 client_macaddr (MacAddr w) (MacAddr w) 0"

definition Wifi_MultiplayerHostToClientDataTxFrame :: "int \<Rightarrow> mem8 \<Rightarrow> u32 \<Rightarrow> arm9 \<Rightarrow> (int \<times> arm9) option" where
  "Wifi_MultiplayerHostToClientDataTxFrame aid data_src data_size s =
     (case Wifi_MultiplayerClientGetMacFromAID aid True s of
        None \<Rightarrow> None
      | Some (None, s1) \<Rightarrow> Some (-1, s1)
      | Some (Some client_macaddr, s1) \<Rightarrow>
          let frame_size = 36 + data_size + 4
          in TxEnqueue frame_size
               (fill_frame (host_data_frame client_macaddr frame_size (wd9 s1)) (user_data data_src data_size))
               WFLAG_SEND_AS_DATA data_size s1)"

definition Wifi_MultiplayerClientToHostDataTxFrame :: "mem8 \<Rightarrow> u32 \<Rightarrow> arm9 \<Rightarrow> (int \<times> arm9) option" where
  "Wifi_MultiplayerClientToHostDataTxFrame data_src data_size s =
     (let frame_size = 38 + data_size + 4
      in TxEnqueue frame_size
           (fill_frame (client_frame (TYPE_DATA OR FC_TO_DS) (bssid (curAp (wd9 s))) frame_size (wd9 s))
              (user_data data_src data_size))
           WFLAG_SEND_AS_DATA data_size s)"

text \<open>\<open>rxbuf\<close> is the address of the RX buffer; an address past its end fails the assertion.\<close>

definition Wifi_RxRawReadPacket :: "u32 \<Rightarrow> u32 \<Rightarrow> u32 \<Rightarrow> arm9 \<Rightarrow> u8 list option" where
  "Wifi_RxRawReadPacket rxbuf_base addr sz s =
     (let rxbufEnd = rxbuf_base + WIFI_RXBUFFER_SIZE in
      if addr + sz > rxbufEnd then None
      else Some (read_bytes (bufData (rxbuf (wd9 s))) (unat (addr - rxbuf_base)) (unat sz)))"

section \<open>Beacon frames\<close>

text \<open>\<open>strlen\<close> as far as the function looks at it: a string of more than 32 bytes is refused.\<close>

definition strlen33 :: "mem8 \<Rightarrow> nat" where
  "strlen33 str = length (takeWhile (\<lambda>i. str i \<noteq> 0) [0..<33])"

definition FieVendorNintendo_bytes :: "u32 \<Rightarrow> Wifi_MainStruct \<Rightarrow> u8 list" where
  "FieVendorNintendo_bytes game w =
     [0x00, 0x09, 0xBF, 0x00] @ [0, 0] @ [0, 0] @ [0, 0, 0, 0] @
     [ucast (drop_bit 24 game), ucast (drop_bit 16 game), ucast (drop_bit 8 game), ucast game] @
     [0, 0] @ [24] @ [1] @ le16 (curCmdDataSize w) @ le16 (curReplyDataSize w) @
     [curMaxClients w + 1, 1, (if reqFlags w AND WFLAG_REQ_ALLOWCLIENTS \<noteq> 0 then 1 else 0),
      hostPlayerNameLen w] @
     concat (map le16 (hostPlayerName w))"

definition beacon_body :: "u8 list \<Rightarrow> u32 \<Rightarrow> Wifi_MainStruct \<Rightarrow> u8 list" where
  "beacon_body ssid_bytes game w =
     replicate 8 0 @ le16 100 @ le16 (CAPS_ESS OR CAPS_SHORT_PREAMBLE) @
     (if ssid_bytes \<noteq> [] then [MGT_FIE_ID_SSID, of_nat (length ssid_bytes)] @ ssid_bytes else []) @
     [MGT_FIE_ID_SUPPORTED_RATES, 2, RATE_MANDATORY OR RATE_2_MBPS, RATE_MANDATORY OR RATE_1_MBPS] @
     [MGT_FIE_ID_DS_PARAM_SET, 1, reqChannel w] @
     [MGT_FIE_ID_TIM, 6] @ replicate 6 0 @
     [MGT_FIE_ID_VENDOR, 48] @ FieVendorNintendo_bytes game w"

definition beacon_frame :: "u8 list \<Rightarrow> u32 \<Rightarrow> Wifi_MainStruct \<Rightarrow> u8 list" where
  "beacon_frame ssid_bytes game w =
     (let body = beacon_body ssid_bytes game w;
          frame_size = 12 + 24 + length body + 4 in
      Wifi_TxHeader_bytes WIFI_TRANSFER_RATE_2MBPS (of_nat (frame_size - 12)) @
      IEEE_DataFrameHeader_bytes TYPE_BEACON 0 wifi_broadcast_addr (MacAddr w) (MacAddr w) 0 @ body)"

definition Wifi_BeaconStart :: "u8 \<Rightarrow> u16 list \<Rightarrow> mem8 option \<Rightarrow> u32 \<Rightarrow> arm9 \<Rightarrow> (int \<times> arm9) option" where
  "Wifi_BeaconStart personal_len personal_name ssid_ptr game s =
     (let len = (case ssid_ptr of None \<Rightarrow> 0 | Some str \<Rightarrow> strlen33 str) in
      if len > 32 then Some (-1, s)
      else case ssid_ptr of
        None \<Rightarrow> None
      | Some str \<Rightarrow>
          let w1 = (wd9 s)\<lparr>curAp := (curAp (wd9 s))\<lparr>ssid_len := of_nat len,
                       ssid := (map str [0..<33])[32 := 0]\<rparr>\<rparr>;
              frame = beacon_frame (map str [0..<len]) game w1
          in case copy_player_name personal_len personal_name (hostPlayerName w1) of
               None \<Rightarrow> None
             | Some nm \<Rightarrow>
                 let frame_size = of_nat (length frame + 4)
                 in TxEnqueue frame_size (fill_frame frame []) WFLAG_SEND_AS_BEACON frame_size
                      (s\<lparr>wd9 := w1\<lparr>hostPlayerName := nm\<rparr>\<rparr>))"

section \<open>Frames from lwIP\<close>

text \<open>\<open>src\<close> points to an Ethernet frame: destination, source, type and data.\<close>

definition eth_dest :: "mem8 \<Rightarrow> mac" where "eth_dest src = read_bytes src 0 6"
definition eth_src :: "mem8 \<Rightarrow> mac" where "eth_src src = read_bytes src 6 6"
definition eth_type :: "mem8 \<Rightarrow> u8 list" where "eth_type src = read_bytes src 12 2"

definition ntr_link_fill :: "mem8 \<Rightarrow> u32 \<Rightarrow> u32 \<Rightarrow> Wifi_MainStruct \<Rightarrow> nat \<Rightarrow> mem8 \<Rightarrow> mem8" where
  "ntr_link_fill src data_size frame_size w write_idx m =
     (let wep = security_type (curAp w) = AP_SECURITY_WEP;
          header = Wifi_TxHeader_bytes 0 (ucast (frame_size - 12)) @
            IEEE_DataFrameHeader_bytes ((FC_TO_DS OR TYPE_DATA) OR (if wep then FC_PROTECTED_FRAME else 0)) 0
              (bssid (curAp w)) (MacAddr w) (eth_dest src) 0;
          snap = [0xAA, 0xAA, 0x03, 0, 0, 0] @ eth_type src;
          snap_idx = write_idx + 36 + (if wep then 4 else 0)
      in write_bytes (write_bytes (write_bytes m write_idx header) snap_idx snap)
           (snap_idx + 8) (read_bytes src 14 (unat data_size)))"

definition Wifi_NTR_TransmitFunctionLink :: "mem8 \<Rightarrow> u32 \<Rightarrow> arm9 \<Rightarrow> (int \<times> arm9) option" where
  "Wifi_NTR_TransmitFunctionLink src sz s =
     (let data_size = sz - 14;
          wep = (if security_type (curAp (wd9 s)) = AP_SECURITY_WEP then 4 else 0);
          frame_size = 12 + 24 + wep + 8 + data_size + wep + 4
      in TxEnqueue frame_size (ntr_link_fill src data_size frame_size (wd9 s)) WFLAG_SEND_AS_DATA sz s)"

definition mbox_tx_header :: "mem8 \<Rightarrow> u32 \<Rightarrow> u8 list" where
  "mbox_tx_header src data_size =
     (let len_in_header = data_size + 6 + 2 in
      [0, 0] @ eth_dest src @ eth_src src @
      le16 (ucast (drop_bit 8 len_in_header OR push_bit 8 (len_in_header AND 0xFF))) @
      le16 0xAAAA @ le16 0x0003 @ le16 0x0000 @ eth_type src)"

definition Wifi_TWL_TransmitFunctionLink :: "mem8 \<Rightarrow> u32 \<Rightarrow> arm9 \<Rightarrow> (int \<times> arm9) option" where
  "Wifi_TWL_TransmitFunctionLink src sz s =
     (let data_size = sz - 14
      in TxEnqueue (24 + data_size)
           (fill_frame (mbox_tx_header src data_size) (read_bytes src 14 (unat data_size))) 0 sz s)"

definition Wifi_TransmitFunctionLink :: "mem8 \<Rightarrow> u32 \<Rightarrow> arm9 \<Rightarrow> (int \<times> arm9) option" where
  "Wifi_TransmitFunctionLink src sz s =
     (if reqFlags (wd9 s) AND WFLAG_REQ_DSI_MODE \<noteq> 0 then Wifi_TWL_TransmitFunctionLink src sz s
      else Wifi_NTR_TransmitFunctionLink src sz s)"

section \<open>What enqueueing does\<close>

lemma fits_between_fill_frame: "length h + length d \<le> n \<Longrightarrow> fits_between (fill_frame h d) n"
  by (auto simp: fits_between_def fill_frame_def agree_outside_def write_bytes_def)

lemma read_fill_frame:
  "read_bytes (fill_frame h d a m) a (length h + length d) = h @ d"
proof -
  have "read_bytes (fill_frame h d a m) a (length h) = h"
    by (rule nth_equalityI) (simp_all add: fill_frame_def write_bytes_def)
  moreover have "read_bytes (fill_frame h d a m) (a + length h) (length d) = d"
    by (simp add: fill_frame_def)
  ultimately show ?thesis by (simp add: read_bytes_add)
qed

lemma tx_enqueue_cases:
  assumes "tx_inv (txbuf (wd9 s)) ps" "size_ok fs" "fits_between fill (align4 (unat fs))" "send_flag flag"
  shows "TxEnqueue fs fill flag n s = Some (-1, tx_rejected s) \<or>
    (\<exists>b a m. TxEnqueue fs fill flag n s = Some (0, tx_queued n (wd9_upd (\<lambda>w. w\<lparr>txbuf := b\<rparr>) s)) \<and>
      tx_inv b (ps @ [(fs OR flag, read_bytes (fill a m) a (unat fs))]))"
proof -
  have same: "wd9_upd (\<lambda>w. w\<lparr>txbuf := txbuf (wd9 s)\<rparr>) s = s" by (simp add: wd9_upd_def)
  from txq.put_law [OF assms(1), of "(fs, fill, flag)"] assms(2-)
  consider "BufferPut WIFI_TXBUFFER_SIZE fs fill (fs OR flag) (txbuf (wd9 s)) = Some (False, txbuf (wd9 s))"
    | b p where "BufferPut WIFI_TXBUFFER_SIZE fs fill (fs OR flag) (txbuf (wd9 s)) = Some (True, b)"
        "tx_carries (fs, fill, flag) p" "tx_inv b (ps @ [p])"
    by (fastforce simp del: WIFI_TXBUFFER_SIZE_def)
  then show ?thesis
  proof cases
    case 1
    then show ?thesis using same by (simp add: TxEnqueue_def del: WIFI_TXBUFFER_SIZE_def)
  next
    case (2 b p)
    then show ?thesis by (cases p) (auto simp: TxEnqueue_def simp del: WIFI_TXBUFFER_SIZE_def)
  qed
qed

lemma tx_queued_simps [simp]:
  "txbuf (wd9 (tx_queued n s)) = txbuf (wd9 s)"
  "fifo9 (tx_queued n s) = fifo9 s @ [WIFI_SYNC]"
  by (simp_all add: tx_queued_def Wifi_CallSyncHandler9_def stat_add_def)

text \<open>A frame of a header, data and the FCS: the queue grows by a packet that starts with both.\<close>

lemma tx_frame_appended:
  assumes inv: "tx_inv (txbuf (wd9 s)) ps" and ok: "size_ok fs" and flag: "send_flag flag"
    and len: "unat fs = length h + length d + 4"
    and sent: "TxEnqueue fs (fill_frame h d) flag n s = Some (0, s')"
  shows "\<exists>bs. tx_inv (txbuf (wd9 s')) (ps @ [(fs OR flag, bs)]) \<and> length bs = unat fs \<and>
    take (length h + length d) bs = h @ d \<and> fifo9 s' = fifo9 s @ [WIFI_SYNC]"
proof -
  have "length h + length d \<le> align4 (unat fs)"
    using align4_bounds(1) [of "unat fs"] len by linarith
  then have "fits_between (fill_frame h d) (align4 (unat fs))" by (rule fits_between_fill_frame)
  then obtain b a m where *: "s' = tx_queued n (wd9_upd (\<lambda>w. w\<lparr>txbuf := b\<rparr>) s)"
      "tx_inv b (ps @ [(fs OR flag, read_bytes (fill_frame h d a m) a (unat fs))])"
    using tx_enqueue_cases [OF inv ok _ flag, of "fill_frame h d" n] sent by auto
  have "take (length h + length d) (read_bytes (fill_frame h d a m) a (unat fs)) = h @ d"
    by (simp only: len read_bytes_add [of _ _ "length h + length d" 4] read_fill_frame) simp
  with * show ?thesis by auto
qed

section \<open>Delivery to the other console\<close>

text \<open>
  \<open>received m p K bs\<close>: the memory holds a received frame that is \<open>bs\<close> except at the
  positions \<open>K\<close>, which the sender's ARM7 or hardware may have filled in.
\<close>

definition received :: "mem8 \<Rightarrow> nat \<Rightarrow> nat set \<Rightarrow> u8 list \<Rightarrow> bool" where
  "received m p K bs \<longleftrightarrow> (\<forall>k < length bs. k \<notin> K \<longrightarrow> m (p + k) = bs ! k)"

lemma received_read:
  assumes "received m p K bs" "i + n \<le> length bs" "K \<inter> {i..<i + n} = {}"
  shows "read_bytes m (p + i) n = take n (drop i bs)"
proof (rule nth_equalityI)
  fix k assume "k < length (read_bytes m (p + i) n)"
  then have "k < n" "i + k \<notin> K" using assms(3) by auto
  then show "read_bytes m (p + i) n ! k = take n (drop i bs) ! k"
    using assms(1,2) by (simp add: received_def add.assoc)
qed (use assms(2) in simp)

lemma received_control:
  assumes "received m p K (le16 fc @ rest)" "K \<inter> {0, 1} = {}"
  shows "frame_control_at m p = fc"
proof -
  have "K \<inter> {0..<0 + 2} = {}" using assms(2) by (auto simp: less_Suc_eq)
  then have "holds_at m p (le16 fc)"
    using received_read [OF assms(1), of 0 2] by (simp add: holds_at_def)
  then show ?thesis by (simp add: frame_control_at_def holds_at_le16)
qed

text \<open>The frame that leaves the antenna: without the hardware header, and without the FCS.\<close>

definition on_air :: "u8 list \<Rightarrow> u8 list" where
  "on_air bs = drop 12 (take (length bs - 4) bs)"

text \<open>A received frame made of an IEEE header and a body, some positions rewritten on the way.\<close>

lemma received_frame:
  assumes rec: "received m p K (on_air bs)"
    and bs: "take (length bs - 4) bs = Wifi_TxHeader_bytes r l @
        (IEEE_DataFrameHeader_bytes fc 0 a1 a2 a3 0 @ ext) @ d"
    and len: "length a1 = 6" "length a2 = 6" "length a3 = 6"
    and K: "K \<subseteq> {2, 3} \<union> {24..<24 + length ext}"
  shows "frame_control_at m p = fc" "addr_1_at m p = a1" "addr_2_at m p = a2" "addr_3_at m p = a3"
    "read_bytes m (p + (24 + length ext)) (length d) = d"
    "\<forall>k < length ext. 24 + k \<notin> K \<longrightarrow> m (p + (24 + k)) = ext ! k"
proof -
  let ?f = "le16 fc @ le16 0 @ a1 @ a2 @ a3 @ le16 0 @ ext @ d"
  have air: "on_air bs = ?f"
    using len by (simp add: on_air_def bs IEEE_DataFrameHeader_bytes_def Wifi_CopyMacAddr_def)
  have r: "received m p K ?f" using rec air by simp
  have dis: "K \<inter> {i..<i + n} = {}"
    if "i \<ge> 4" "i + n \<le> 24 \<or> 24 + length ext \<le> i" for i n
    using K that by auto
  show "frame_control_at m p = fc" using received_control [OF r] K by fastforce
  show "addr_1_at m p = a1"
    using received_read [OF r, of 4 6] dis [of 4 6] len by (simp add: addr_1_at_def)
  show "addr_2_at m p = a2"
    using received_read [OF r, of 10 6] dis [of 10 6] len by (simp add: addr_2_at_def)
  show "addr_3_at m p = a3"
    using received_read [OF r, of 16 6] dis [of 16 6] len by (simp add: addr_3_at_def)
  show "read_bytes m (p + (24 + length ext)) (length d) = d"
    using received_read [OF r, of "24 + length ext" "length d"] dis [of "24 + length ext" "length d"] len
    by simp
  show "\<forall>k < length ext. 24 + k \<notin> K \<longrightarrow> m (p + (24 + k)) = ext ! k"
  proof (intro allI impI)
    fix k assume "k < length ext" "24 + k \<notin> K"
    with r len show "m (p + (24 + k)) = ext ! k"
      unfolding received_def by (auto simp: nth_append dest!: spec [of _ "24 + k"])
  qed
qed

lemma wifi_mac_lengths [simp]:
  "length wifi_cmd_mac = 6" "length wifi_reply_mac = 6" "length wifi_broadcast_addr = 6"
  by (simp_all add: wifi_cmd_mac_def wifi_reply_mac_def wifi_broadcast_addr_def mac_of_hwords_def)

lemma length_user_data [simp]: "length (user_data src n) = unat n"
  by (simp add: user_data_def)

lemma frame_size_ok:
  fixes n k :: u32
  assumes "unat n < 0x0FFFFF00" "unat k < 0xF0"
  shows "size_ok (k + n + 4)" "unat (k + n + 4) = unat k + unat n + 4"
  using assms by (simp_all add: size_ok_def unat_word_ariths)

lemma CmpMac_refl [simp]: "Wifi_CmpMacAddr a a"
  by (simp add: Wifi_CmpMacAddr_def)

definition data_frame_at :: "mem8 \<Rightarrow> nat \<Rightarrow> nat set \<Rightarrow> u16 \<Rightarrow> mac \<Rightarrow> mac \<Rightarrow> mac \<Rightarrow> u8 list \<Rightarrow> u8 list \<Rightarrow> bool" where
  "data_frame_at m p K fc a1 a2 a3 ext d \<longleftrightarrow>
     frame_control_at m p = fc \<and> addr_1_at m p = a1 \<and> addr_2_at m p = a2 \<and> addr_3_at m p = a3 \<and>
     read_bytes m (p + (24 + length ext)) (length d) = d \<and>
     (\<forall>k < length ext. 24 + k \<notin> K \<longrightarrow> m (p + (24 + k)) = ext ! k)"

lemma sent_frame_received:
  assumes inv: "tx_inv (txbuf (wd9 s)) ps" and n: "unat n < 0x0FFFFF00" and flag: "send_flag flag"
    and len: "length a1 = 6" "length a2 = 6" "length a3 = 6"
    and k: "unat k = 36 + length ext" "unat k < 0xF0"
    and sent: "TxEnqueue (k + n + 4) (fill_frame (Wifi_TxHeader_bytes r l @
        IEEE_DataFrameHeader_bytes fc 0 a1 a2 a3 0 @ ext) (user_data src n)) flag n s = Some (0, s')"
  shows "\<exists>bs. tx_inv (txbuf (wd9 s')) (ps @ [((k + n + 4) OR flag, bs)]) \<and>
    length (on_air bs) = 24 + length ext + unat n \<and>
    (\<forall>m p K. received m p K (on_air bs) \<longrightarrow> K \<subseteq> {2, 3} \<union> {24..<24 + length ext} \<longrightarrow>
       data_frame_at m p K fc a1 a2 a3 ext (user_data src n))"
proof -
  let ?h = "Wifi_TxHeader_bytes r l @ IEEE_DataFrameHeader_bytes fc 0 a1 a2 a3 0 @ ext"
  let ?d = "user_data src n"
  note fs = frame_size_ok [OF n k(2)]
  have lh: "length ?h = unat k" using len k by (simp add: length_ieee_header)
  obtain bs where bs: "tx_inv (txbuf (wd9 s')) (ps @ [((k + n + 4) OR flag, bs)])"
      "length bs = unat (k + n + 4)" "take (length ?h + length ?d) bs = ?h @ ?d"
    using tx_frame_appended [OF inv fs(1) flag _ sent] fs(2) lh by auto
  have tb: "take (length bs - 4) bs =
      Wifi_TxHeader_bytes r l @ (IEEE_DataFrameHeader_bytes fc 0 a1 a2 a3 0 @ ext) @ ?d"
    using bs(2,3) fs(2) lh by (simp only: append_assoc length_user_data) simp
  have "length (on_air bs) = 24 + length ext + unat n" using bs(2) fs(2) k(1) by (simp add: on_air_def)
  moreover have "data_frame_at m p K fc a1 a2 a3 ext ?d"
    if "received m p K (on_air bs)" "K \<subseteq> {2, 3} \<union> {24..<24 + length ext}" for m p K
    using received_frame [OF that(1) tb len that(2)] by (simp add: data_frame_at_def)
  ultimately show ?thesis using bs(1) by blast
qed

lemma unat_frame_small: "unat n < 0x0FFFFF00 \<Longrightarrow> unat k < 0xF0 \<Longrightarrow> unat (k + n) = unat k + unat n" for k n :: u32
  by (simp add: unat_word_ariths)

text \<open>An empty buffer takes any frame that leaves room for the two size words.\<close>

lemma tx_inv_zero: "tx_inv zero_buf []"
  by (simp add: tx_inv_def zero_buf_def ring_inv_def read_u32_def)

lemma enqueue_empty:
  assumes "txbuf (wd9 s) = zero_buf" "unat fs < 24560" "fits_between fill (align4 (unat fs))" "send_flag flag"
  shows "\<exists>s'. TxEnqueue fs fill flag n s = Some (0, s')"
proof -
  have ok: "size_ok fs" using assms(2) by (simp add: size_ok_def)
  have "has_room 24576 zero_buf (unat fs)"
    using assms(2) align4_bounds(2) [of "unat fs"] by (simp add: has_room_def zero_buf_def Let_def)
  then have "\<exists>b'. BufferPut WIFI_TXBUFFER_SIZE fs fill (fs OR flag) zero_buf = Some (True, b')"
    using put_accepts_iff [of WIFI_TXBUFFER_SIZE "\<lambda>t. unat (tx_size t)" zero_buf "[]" fs fill "fs OR flag"]
      tx_inv_zero [unfolded tx_inv_def] ok assms(3) tx_tag_valid [OF ok assms(4)] tx_size_tag [OF ok assms(4)]
    by simp
  then show ?thesis using assms(1) by (auto simp: TxEnqueue_def simp del: WIFI_TXBUFFER_SIZE_def)
qed

lemma boot_mac [simp]: "length (MacAddr zero_main) = 6" "length (bssid (curAp zero_main)) = 6"
    "txbuf zero_main = zero_buf"
  by (simp_all add: zero_main_def zero_ap_def)

text \<open>C6: a command frame of a multiplayer host reaches the application of every client intact. When
  the host's call returns 0, the TX buffer holds one more packet with the command flag; and any
  client of that host that receives this frame, whatever the host's ARM7 wrote into the duration
  and the client time and bits, calls its handler once with the type CMD and exactly the data.\<close>

theorem cmd_frame_delivered:
  assumes inv: "tx_inv (txbuf (wd9 host)) ps" and n: "unat n < 0x0FFFFF00"
    and mac: "length (MacAddr (wd9 host)) = 6"
    and sent: "Wifi_MultiplayerHostCmdTxFrame src n host = Some (0, host')"
    and client: "wifi_from_host_packet_handler client" "bssid (curAp (wd9 client)) = MacAddr (wd9 host)"
  shows "\<exists>bs. tx_inv (txbuf (wd9 host')) (ps @ [((44 + n) OR WFLAG_SEND_AS_CMD, bs)]) \<and>
    length (on_air bs) = 28 + unat n \<and>
    (\<forall>m p. received m p ({2, 3} \<union> {24..<28}) (on_air bs) \<longrightarrow>
      Wifi_MultiplayerHandlePacketFromHost m p (28 + n) client =
      log_event (FromHostHandler WIFI_MPTYPE_CMD (user_data src n)) client)"
proof -
  note sent' = sent [unfolded Wifi_MultiplayerHostCmdTxFrame_def Let_def cmd_frame_def]
  obtain bs where bs: "tx_inv (txbuf (wd9 host')) (ps @ [((40 + n + 4) OR WFLAG_SEND_AS_CMD, bs)])"
      "length (on_air bs) = 28 + unat n"
    and rec: "\<And>m p. received m p ({2, 3} \<union> {24..<28}) (on_air bs) \<Longrightarrow>
       data_frame_at m p ({2, 3} \<union> {24..<28}) (TYPE_DATA_CF_POLL OR FC_FROM_DS) wifi_cmd_mac
         (MacAddr (wd9 host)) (MacAddr (wd9 host)) (le16 0 @ le16 0) (user_data src n)"
    using sent_frame_received [OF inv n _ _ mac mac _ _ sent'] by (auto simp: send_flag_def)
  have "\<not> 28 + n < 28" "unat (28 + n) = 28 + unat n"
    using unat_frame_small [OF n, of 28] by (simp_all add: word_less_nat_alt)
  then have "Wifi_MultiplayerHandlePacketFromHost m p (28 + n) client =
      log_event (FromHostHandler WIFI_MPTYPE_CMD (user_data src n)) client"
    if "received m p ({2, 3} \<union> {24..<28}) (on_air bs)" for m p
    using rec [OF that] client
    by (simp add: data_frame_at_def Wifi_MultiplayerHandlePacketFromHost_def host_packet_type_def)
  then show ?thesis using bs by (intro exI [of _ bs]) (simp add: add.commute)
qed

theorem cmd_frame_delivered_witness:
  "\<exists>host' bs. Wifi_MultiplayerHostCmdTxFrame (\<lambda>i. of_nat i) 4 arm9_boot = Some (0, host') \<and>
     tx_inv (txbuf (wd9 host')) [(48 OR WFLAG_SEND_AS_CMD, bs)] \<and>
     (\<forall>m p. received m p ({2, 3} \<union> {24..<28}) (on_air bs) \<longrightarrow>
       Wifi_MultiplayerHandlePacketFromHost m p 32 (arm9_boot\<lparr>wifi_from_host_packet_handler := True\<rparr>) =
       log_event (FromHostHandler WIFI_MPTYPE_CMD [0, 1, 2, 3]) (arm9_boot\<lparr>wifi_from_host_packet_handler := True\<rparr>))"
proof -
  let ?src = "\<lambda>i. of_nat i :: u8"
  have d: "user_data ?src 4 = [0, 1, 2, 3]" by (simp add: user_data_def read_bytes_def upt_rec)
  have wd: "wd9 arm9_boot = zero_main" by (simp add: arm9_boot_def)
  have "fits_between (fill_frame (cmd_frame 48 zero_main) (user_data ?src 4)) (align4 (unat (48 :: u32)))"
    by (rule fits_between_fill_frame) (simp add: cmd_frame_def length_ieee_header align4_def)
  from enqueue_empty [OF _ _ this, of arm9_boot WFLAG_SEND_AS_CMD 4]
  obtain host' where "Wifi_MultiplayerHostCmdTxFrame ?src 4 arm9_boot = Some (0, host')"
    using wd by (auto simp: Wifi_MultiplayerHostCmdTxFrame_def send_flag_def)
  moreover from this
  have "\<exists>bs. tx_inv (txbuf (wd9 host')) ([] @ [((44 + 4) OR WFLAG_SEND_AS_CMD, bs)]) \<and>
    length (on_air bs) = 28 + unat (4 :: u32) \<and>
    (\<forall>m p. received m p ({2, 3} \<union> {24..<28}) (on_air bs) \<longrightarrow>
      Wifi_MultiplayerHandlePacketFromHost m p (28 + 4) (arm9_boot\<lparr>wifi_from_host_packet_handler := True\<rparr>) =
      log_event (FromHostHandler WIFI_MPTYPE_CMD (user_data ?src 4)) (arm9_boot\<lparr>wifi_from_host_packet_handler := True\<rparr>))"
    by (intro cmd_frame_delivered [where host = arm9_boot])
      (simp_all add: wd tx_inv_zero, simp add: zero_main_def zero_ap_def)
  ultimately show ?thesis using d by auto
qed

text \<open>C7: a reply frame of a client reaches the application of the host intact. When the client's
  call returns 0, the TX buffer holds one more packet with the reply flag; and a host that
  receives the frame, on which the client is associated in the slot of its identifier, calls its
  handler once with the type REPLY, that identifier and exactly the data.\<close>

theorem reply_frame_delivered:
  assumes inv: "tx_inv (txbuf (wd9 client)) ps" and n: "unat n < 0x0FFFFF00"
    and mac: "length (MacAddr (wd9 client)) = 6" "length (bssid (curAp (wd9 client))) = 6"
    and sent: "Wifi_MultiplayerClientReplyTxFrame src n client = Some (0, client')"
    and aid: "aid = unat (curClientAID (clients (wd9 client)))" "1 \<le> aid" "aid \<le> unat (curMaxClients (wd9 host))"
    and host: "wifi_from_client_packet_handler host" "unlocked9 host"
      "unat (curMaxClients (wd9 host)) \<le> length (client_list (clients (wd9 host)))"
      "client_state (client_list (clients (wd9 host)) ! (aid - 1)) = WIFI_CLIENT_ASSOCIATED"
      "macaddr (client_list (clients (wd9 host)) ! (aid - 1)) = MacAddr (wd9 client)"
  shows "\<exists>bs. tx_inv (txbuf (wd9 client')) (ps @ [((42 + n) OR WFLAG_SEND_AS_REPLY, bs)]) \<and>
    length (on_air bs) = 26 + unat n \<and>
    (\<forall>m p. received m p {2, 3} (on_air bs) \<longrightarrow>
      Wifi_MultiplayerHandlePacketFromClient m p (26 + n) host =
      Some (log_event (FromClientHandler WIFI_MPTYPE_REPLY aid (user_data src n)) host))"
proof -
  note sent' = sent [unfolded Wifi_MultiplayerClientReplyTxFrame_def Let_def client_frame_def]
  let ?ext = "[curClientAID (clients (wd9 client)), 0]"
  obtain bs where bs: "tx_inv (txbuf (wd9 client')) (ps @ [((38 + n + 4) OR WFLAG_SEND_AS_REPLY, bs)])"
      "length (on_air bs) = 26 + unat n"
    and rec: "\<And>m p. received m p {2, 3} (on_air bs) \<Longrightarrow>
       data_frame_at m p {2, 3} (TYPE_DATA_CF_ACK OR FC_TO_DS) (bssid (curAp (wd9 client)))
         (MacAddr (wd9 client)) wifi_reply_mac ?ext (user_data src n)"
    using sent_frame_received [OF inv n _ mac(2,1) _ _ _ sent'] by (auto simp: send_flag_def)
  have sz: "\<not> 26 + n < 26" "unat (26 + n) = 26 + unat n"
    using unat_frame_small [OF n, of 26] by (simp_all add: word_less_nat_alt)
  have "Wifi_MultiplayerHandlePacketFromClient m p (26 + n) host =
      Some (log_event (FromClientHandler WIFI_MPTYPE_REPLY aid (user_data src n)) host)"
    if "received m p {2, 3} (on_air bs)" for m p
  proof -
    have f: "data_frame_at m p {2, 3} (TYPE_DATA_CF_ACK OR FC_TO_DS) (bssid (curAp (wd9 client)))
         (MacAddr (wd9 client)) wifi_reply_mac ?ext (user_data src n)" using rec [OF that] .
    then have id: "m (p + 24) = curClientAID (clients (wd9 client))"
      by (auto simp: data_frame_at_def)
    have "Wifi_MultiplayerClientMatchesMacAndAID (uint (m (p + 24))) (Some (addr_2_at m p)) host = Some (True, host)"
      using matches_mac_aid [OF host(2), of aid] aid host(3-) f id by (simp add: data_frame_at_def)
    with f id sz host(1) aid(1) show ?thesis
      by (simp add: data_frame_at_def Wifi_MultiplayerHandlePacketFromClient_def client_packet_type_def)
  qed
  then show ?thesis using bs by (intro exI [of _ bs]) (simp add: add.commute)
qed

text \<open>The client 1 of the witness and its host.\<close>

definition client_ex :: arm9 where
  "client_ex = arm9_boot\<lparr>wd9 := zero_main\<lparr>MacAddr := [2, 0, 0, 0, 0, 1],
     clients := zero_clients\<lparr>curClientAID := 1\<rparr>\<rparr>\<rparr>"

definition host_ex :: arm9 where
  "host_ex = arm9_boot\<lparr>wifi_from_client_packet_handler := True,
     wd9 := zero_main\<lparr>curMaxClients := 2, clients := zero_clients\<lparr>client_list :=
       [\<lparr>macaddr = [2, 0, 0, 0, 0, 1], association_id = 1, client_state = WIFI_CLIENT_ASSOCIATED\<rparr>, zero_client]\<rparr>\<rparr>\<rparr>"

theorem reply_frame_delivered_witness:
  "\<exists>client' bs. Wifi_MultiplayerClientReplyTxFrame (\<lambda>i. of_nat i) 2 client_ex = Some (0, client') \<and>
     tx_inv (txbuf (wd9 client')) [(44 OR WFLAG_SEND_AS_REPLY, bs)] \<and>
     (\<forall>m p. received m p {2, 3} (on_air bs) \<longrightarrow>
       Wifi_MultiplayerHandlePacketFromClient m p 28 host_ex =
       Some (log_event (FromClientHandler WIFI_MPTYPE_REPLY 1 [0, 1]) host_ex))"
proof -
  let ?src = "\<lambda>i. of_nat i :: u8"
  have d: "user_data ?src 2 = [0, 1]" by (simp add: user_data_def read_bytes_def upt_rec)
  let ?h = "client_frame (TYPE_DATA_CF_ACK OR FC_TO_DS) wifi_reply_mac 44 (wd9 client_ex)"
  have "fits_between (fill_frame ?h (user_data ?src 2)) (align4 (unat (44 :: u32)))"
    by (rule fits_between_fill_frame)
      (simp add: client_frame_def length_ieee_header align4_def client_ex_def)
  from enqueue_empty [OF _ _ this, of client_ex WFLAG_SEND_AS_REPLY 2]
  obtain client' where "Wifi_MultiplayerClientReplyTxFrame ?src 2 client_ex = Some (0, client')"
    by (auto simp: Wifi_MultiplayerClientReplyTxFrame_def send_flag_def client_ex_def)
  moreover from this
  have "\<exists>bs. tx_inv (txbuf (wd9 client')) ([] @ [((42 + 2) OR WFLAG_SEND_AS_REPLY, bs)]) \<and>
    length (on_air bs) = 26 + unat (2 :: u32) \<and>
    (\<forall>m p. received m p {2, 3} (on_air bs) \<longrightarrow>
      Wifi_MultiplayerHandlePacketFromClient m p (26 + 2) host_ex =
      Some (log_event (FromClientHandler WIFI_MPTYPE_REPLY 1 (user_data ?src 2)) host_ex))"
    by (intro reply_frame_delivered [where client = client_ex])
      (simp_all add: client_ex_def host_ex_def tx_inv_zero unlocked9_def zero_clients_def)
  ultimately show ?thesis using d by auto
qed

text \<open>a data frame from the host to one client reaches the application of that client when it
  carries at least four bytes. Frames with zero to three bytes of data, which the host sends
  without an error, are dropped by the client: the minimum size it checks is the size of the
  header of command frames, not of data frames.\<close>

theorem host_data_frame_delivered:
  assumes inv: "tx_inv (txbuf (wd9 host)) ps" and n: "unat n < 0x0FFFFF00"
    and mac: "length (MacAddr (wd9 host)) = 6" "length (MacAddr (wd9 client)) = 6"
    and found: "Wifi_MultiplayerClientGetMacFromAID aid True host = Some (Some (MacAddr (wd9 client)), host)"
    and sent: "Wifi_MultiplayerHostToClientDataTxFrame aid src n host = Some (0, host')"
    and client: "wifi_from_host_packet_handler client" "bssid (curAp (wd9 client)) = MacAddr (wd9 host)"
  shows "\<exists>bs. tx_inv (txbuf (wd9 host')) (ps @ [((40 + n) OR WFLAG_SEND_AS_DATA, bs)]) \<and>
    length (on_air bs) = 24 + unat n \<and>
    (\<forall>m p. received m p {2, 3} (on_air bs) \<longrightarrow>
      Wifi_MultiplayerHandlePacketFromHost m p (24 + n) client =
      (if unat n < 4 then client
       else log_event (FromHostHandler WIFI_MPTYPE_DATA (user_data src n)) client))"
proof -
  have sent': "TxEnqueue (36 + n + 4) (fill_frame (Wifi_TxHeader_bytes WIFI_TRANSFER_RATE_2MBPS (ucast (36 + n + 4 - 12)) @
      IEEE_DataFrameHeader_bytes (TYPE_DATA OR FC_FROM_DS) 0 (MacAddr (wd9 client)) (MacAddr (wd9 host))
        (MacAddr (wd9 host)) 0 @ []) (user_data src n)) WFLAG_SEND_AS_DATA n host = Some (0, host')"
    using sent found by (simp add: Wifi_MultiplayerHostToClientDataTxFrame_def Let_def host_data_frame_def)
  obtain bs where bs: "tx_inv (txbuf (wd9 host')) (ps @ [((36 + n + 4) OR WFLAG_SEND_AS_DATA, bs)])"
      "length (on_air bs) = 24 + unat n"
    and rec: "\<And>m p. received m p {2, 3} (on_air bs) \<Longrightarrow>
       data_frame_at m p {2, 3} (TYPE_DATA OR FC_FROM_DS) (MacAddr (wd9 client))
         (MacAddr (wd9 host)) (MacAddr (wd9 host)) [] (user_data src n)"
    using sent_frame_received [OF inv n _ mac(2) mac(1) mac(1) _ _ sent'] by (auto simp: send_flag_def)
  have "24 + n < 28 \<longleftrightarrow> unat n < 4" "unat (24 + n) = 24 + unat n"
    using unat_frame_small [OF n, of 24] by (simp_all add: word_less_nat_alt)
  then have "Wifi_MultiplayerHandlePacketFromHost m p (24 + n) client =
      (if unat n < 4 then client
       else log_event (FromHostHandler WIFI_MPTYPE_DATA (user_data src n)) client)"
    if "received m p {2, 3} (on_air bs)" for m p
    using rec [OF that] client
    by (simp add: data_frame_at_def Wifi_MultiplayerHandlePacketFromHost_def host_packet_type_def)
  then show ?thesis using bs by (intro exI [of _ bs]) (simp add: add.commute)
qed

theorem host_data_frame_delivered_witness:
  "\<exists>host' bs. Wifi_MultiplayerHostToClientDataTxFrame 1 (\<lambda>i. of_nat i) 2 host_ex = Some (0, host') \<and>
     (\<forall>m p. received m p {2, 3} (on_air bs) \<longrightarrow>
       Wifi_MultiplayerHandlePacketFromHost m p 26 (client_ex\<lparr>wifi_from_host_packet_handler := True\<rparr>) =
       client_ex\<lparr>wifi_from_host_packet_handler := True\<rparr>)"
proof -
  let ?src = "\<lambda>i. of_nat i :: u8" and ?c = "client_ex\<lparr>wifi_from_host_packet_handler := True\<rparr>"
  have found: "Wifi_MultiplayerClientGetMacFromAID 1 True host_ex = Some (Some (MacAddr (wd9 ?c)), host_ex)"
    by (simp add: Wifi_MultiplayerClientGetMacFromAID_def host_ex_def client_ex_def zero_clients_def
      lock_clients9_def unlock_clients9_def clients_upd_def wd9_upd_def Wifi_CopyMacAddr_def arm9_boot_def)
  let ?h = "host_data_frame (MacAddr (wd9 ?c)) 42 (wd9 host_ex)"
  have "fits_between (fill_frame ?h (user_data ?src 2)) (align4 (unat (42 :: u32)))"
    by (rule fits_between_fill_frame)
      (simp add: host_data_frame_def length_ieee_header align4_def client_ex_def host_ex_def)
  from enqueue_empty [OF _ _ this, of host_ex WFLAG_SEND_AS_DATA 2]
  obtain host' where sent: "Wifi_MultiplayerHostToClientDataTxFrame 1 ?src 2 host_ex = Some (0, host')"
    using found by (auto simp: Wifi_MultiplayerHostToClientDataTxFrame_def send_flag_def host_ex_def)
  have "\<exists>bs. tx_inv (txbuf (wd9 host')) ([] @ [((40 + 2) OR WFLAG_SEND_AS_DATA, bs)]) \<and>
    length (on_air bs) = 24 + unat (2 :: u32) \<and>
    (\<forall>m p. received m p {2, 3} (on_air bs) \<longrightarrow>
      Wifi_MultiplayerHandlePacketFromHost m p (24 + 2) ?c =
      (if unat (2 :: u32) < 4 then ?c
       else log_event (FromHostHandler WIFI_MPTYPE_DATA (user_data ?src 2)) ?c))"
    by (rule host_data_frame_delivered [OF _ _ _ _ found sent])
      (simp_all add: client_ex_def host_ex_def tx_inv_zero, simp_all add: zero_main_def zero_ap_def)
  with sent show ?thesis by auto
qed

end
