(* ===== verification/Ieee_Beacon.thy ===== *)
theory Ieee_Beacon
  imports Arm7_Frames Ap_List Arm9_Tx
begin

text \<open>
  The analysis of beacons and probe responses (\<^verbatim>\<open>arm7/ntr/ieee_802_11/beacon.c\<close>). The frame is
  copied to a local array of 512 bytes; the bytes of it that the frame does not fill are those of
  \<open>stack7\<close>, and a read outside the array is \<open>None\<close>. The theory shows that the beacons of a
  multiplayer host, as the ARM9 of the host builds them, are understood by the ARM7 of another
  console: the table of access points then has an entry with the address, name, channel and
  vendor information of the host.
\<close>

section \<open>Parsing\<close>

record Wifi_RxHeader =
  rx_a :: u16
  rx_b :: u16
  rx_c :: u16
  rx_d :: u16
  byteLength :: u16
  rx_rssi :: u16

definition sizeof_mgt_data :: nat where [simp]: "sizeof_mgt_data = 512"

abbreviation data_at :: "mem8 \<Rightarrow> nat \<Rightarrow> u8 option" where
  "data_at \<equiv> local_at sizeof_mgt_data"

abbreviation data_match :: "mem8 \<Rightarrow> nat \<Rightarrow> u8 list \<Rightarrow> bool option" where
  "data_match \<equiv> local_match sizeof_mgt_data"

definition Wifi_IsVendorMicrosoft :: "mem8 \<Rightarrow> nat \<Rightarrow> nat \<Rightarrow> bool option" where
  "Wifi_IsVendorMicrosoft data p len =
     (if len \<ge> 14 then data_match data p [0x00, 0x50, 0xF2, 0x01, 0x01, 0x00] else Some False)"

definition Wifi_IsVendorNintendo :: "mem8 \<Rightarrow> nat \<Rightarrow> nat \<Rightarrow> bool option" where
  "Wifi_IsVendorNintendo data p len =
     (if len \<ge> sizeof_FieVendorNintendo then data_match data p [0x00, 0x09, 0xBF, 0x00] else Some False)"

text \<open>
  The loop over the cipher suites, which both kinds of element have: \<open>n\<close> is the counter
  \<^verbatim>\<open>num_uni_ciphers\<close>, \<open>limit\<close> the last position at which a suite can start. A suite
  with another identifier is not skipped, so the same position is looked at again.
\<close>

definition cipher_security :: "u8 \<Rightarrow> Wifi_ApSecurityType \<Rightarrow> Wifi_ApSecurityType" where
  "cipher_security c sec =
     (if c \<in> {2, 3, 4} then AP_SECURITY_WPA else if c \<in> {1, 5} then AP_SECURITY_WEP else sec)"

fun cipher_suites :: "mem8 \<Rightarrow> u8 list \<Rightarrow> nat \<Rightarrow> nat \<Rightarrow> nat \<Rightarrow> Wifi_ApSecurityType \<Rightarrow> Wifi_ApSecurityType option" where
  "cipher_suites data oui limit 0 j sec = Some sec"
| "cipher_suites data oui limit (Suc n) j sec =
     (if j > limit then Some sec
      else do { magic \<leftarrow> data_match data j oui;
                if magic
                then do { c \<leftarrow> data_at data (j + 3);
                          cipher_suites data oui limit n (j + 4) (cipher_security c sec) }
                else cipher_suites data oui limit n j sec })"

definition uni_ciphers :: "mem8 \<Rightarrow> nat \<Rightarrow> nat option" where
  "uni_ciphers data j = do { lo \<leftarrow> data_at data j; hi \<leftarrow> data_at data (j + 1); Some (unat lo + unat hi * 256) }"

definition vendor_info :: "mem8 \<Rightarrow> nat \<Rightarrow> Wifi_NintendoVendorInfo" where
  "vendor_info data p =
     \<lparr>players_max = data (p + 24), players_current = data (p + 25), allows_connections = data (p + 26),
      game_id = push_bit 24 (ucast (data (p + 12))) OR push_bit 16 (ucast (data (p + 13)))
        OR push_bit 8 (ucast (data (p + 14))) OR push_bit 0 (ucast (data (p + 15))),
      name_len = data (p + 27), name = map (\<lambda>i. read_u16 data (p + 28 + 2 * i)) [0..<10]\<rparr>"

definition Wifi_ProcessVendorTag :: "mem8 \<Rightarrow> nat \<Rightarrow> nat \<Rightarrow> Wifi_ApSecurityType \<times> Wifi_NintendoVendorInfo option \<Rightarrow>
    (Wifi_ApSecurityType \<times> Wifi_NintendoVendorInfo option) option" where
  "Wifi_ProcessVendorTag data p len st =
     (case st of (sec, info) \<Rightarrow>
      do { microsoft \<leftarrow> Wifi_IsVendorMicrosoft data p len;
           if microsoft
           then do { n \<leftarrow> uni_ciphers data (p + 10);
                     sec \<leftarrow> cipher_suites data [0x00, 0x50, 0xF2] (p + len - 4) n (p + 12) sec;
                     Some (sec, info) }
           else do { nint \<leftarrow> Wifi_IsVendorNintendo data p len;
                     if nint
                     then if p + sizeof_FieVendorNintendo > sizeof_mgt_data then None
                          else Some (sec, Some (vendor_info data p))
                     else Some (sec, info) } })"

fun beacon_rates :: "mem8 \<Rightarrow> nat \<Rightarrow> nat \<Rightarrow> bool \<Rightarrow> bool option" where
  "beacon_rates data i 0 compatible = Some compatible"
| "beacon_rates data i (Suc n) compatible =
     do { thisrate \<leftarrow> data_at data i;
          if thisrate \<in> {RATE_MANDATORY OR RATE_1_MBPS, RATE_MANDATORY OR RATE_2_MBPS}
          then beacon_rates data (i + 1) n True
          else if thisrate \<in> {RATE_MANDATORY OR RATE_5_5_MBPS, RATE_MANDATORY OR RATE_11_MBPS}
          then beacon_rates data (i + 1) n True
          else if thisrate AND RATE_MANDATORY \<noteq> 0 then Some False
          else beacon_rates data (i + 1) n compatible }"

definition rsn_element :: "mem8 \<Rightarrow> nat \<Rightarrow> nat \<Rightarrow> Wifi_ApSecurityType \<Rightarrow> Wifi_ApSecurityType option" where
  "rsn_element data p seglen sec =
     (if seglen \<ge> 10
      then do { v \<leftarrow> data_match data p [0x01, 0x00];
                if v then do { n \<leftarrow> uni_ciphers data (p + 6);
                               cipher_suites data [0x00, 0x0F, 0xAC] (p + seglen - 4) n (p + 8) sec }
                else Some sec }
      else Some sec)"

text \<open>What the loop over the elements collects; \<open>bp_ssid\<close> is \<^verbatim>\<open>ptr_ssid\<close>.\<close>

record beacon_parse =
  bp_sec :: Wifi_ApSecurityType
  bp_info :: "Wifi_NintendoVendorInfo option"
  bp_ssid :: nat
  bp_channel :: u8
  bp_compatible :: bool

definition parse_element :: "mem8 \<Rightarrow> u8 \<Rightarrow> nat \<Rightarrow> nat \<Rightarrow> beacon_parse \<Rightarrow> beacon_parse option" where
  "parse_element data segtype p seglen b =
     (if segtype = MGT_FIE_ID_SSID then Some (b\<lparr>bp_ssid := p - 2\<rparr>)
      else if segtype = MGT_FIE_ID_SUPPORTED_RATES
      then map_option (\<lambda>c. b\<lparr>bp_compatible := c\<rparr>) (beacon_rates data p seglen False)
      else if segtype = MGT_FIE_ID_DS_PARAM_SET then map_option (\<lambda>c. b\<lparr>bp_channel := c\<rparr>) (data_at data p)
      else if segtype = MGT_FIE_ID_RSN
      then map_option (\<lambda>sec. b\<lparr>bp_sec := sec\<rparr>) (rsn_element data p seglen (bp_sec b))
      else if segtype = MGT_FIE_ID_VENDOR
      then map_option (\<lambda>(sec, info). b\<lparr>bp_sec := sec, bp_info := info\<rparr>)
             (Wifi_ProcessVendorTag data p seglen (bp_sec b, bp_info b))
      else Some b)"

function parse_elements :: "mem8 \<Rightarrow> nat \<Rightarrow> nat \<Rightarrow> beacon_parse \<Rightarrow> beacon_parse option" where
  "parse_elements data datalen curloc b =
     (if curloc \<ge> datalen then Some b
      else do { segtype \<leftarrow> data_at data curloc;
                seglen \<leftarrow> data_at data (curloc + 1);
                b \<leftarrow> parse_element data segtype (curloc + 2) (unat seglen) b;
                parse_elements data datalen (curloc + 2 + unat seglen) b })"
  by pat_completeness auto
termination by (relation "measure (\<lambda>(data, datalen, curloc, b). datalen - curloc)") auto

declare parse_elements.simps [simp del]

definition keep_ap :: "u8 \<Rightarrow> bool \<Rightarrow> bool \<Rightarrow> bool" where
  "keep_ap scan compatible has_nintendo_info =
     (if has_nintendo_info then scan AND WSCAN_LIST_NDS_HOSTS \<noteq> 0
      else if compatible then scan AND WSCAN_LIST_AP_COMPATIBLE \<noteq> 0
      else scan AND WSCAN_LIST_AP_INCOMPATIBLE \<noteq> 0)"

definition ssid_arg :: "mem8 \<Rightarrow> nat \<Rightarrow> (mem8 \<times> nat) option option" where
  "ssid_arg data p =
     (if p = 0 then Some None
      else do { len \<leftarrow> data_at data (p + 1);
                if p + 2 + min 32 (unat len) > sizeof_mgt_data then None
                else Some (Some (\<lambda>k. data (p + 2 + k), unat len)) })"

definition mgt_frame_read :: "nat \<Rightarrow> nat \<Rightarrow> arm7 \<Rightarrow> mem8 \<times> arm7" where
  "mgt_frame_read macbase datalen s =
     (let (hs, s) = Wifi_MACRead macbase HDR_RX_SIZE (2 * ((datalen + 1) div 2)) s
      in (write_bytes (stack7 s) 0 (hword_bytes hs), s))"

text \<open>The part after the loop: the filters and the addition to the table.\<close>

definition beacon_add :: "Wifi_RxHeader \<Rightarrow> mem8 \<Rightarrow> beacon_parse \<Rightarrow> arm7 \<Rightarrow> arm7 option" where
  "beacon_add packetheader data b s =
     (let wep = (bp_sec b = AP_SECURITY_WEP);
          wpa = (bp_sec b = AP_SECURITY_WPA \<or> bp_sec b = AP_SECURITY_WPA2);
          crypt = (if wep then AP_CRYPT_WEP else AP_CRYPT_NONE);
          compatible = (bp_compatible b \<and> \<not> wpa)
      in if \<not> keep_ap (curApScanFlags (wd7 s)) compatible (bp_info b \<noteq> None) then Some s
         else do {
           nm \<leftarrow> ssid_arg data (bp_ssid b);
           let rssi_v = (if curChannel (wd7 s) = bp_channel b then ucast (rx_rssi packetheader AND 255) else INT_MIN)
           in Some (wd7_upd (Wifi_AccessPointAdd (\<lambda>k. data (HDR_MGT_BSSID + k)) (read_bytes data HDR_MGT_SA 6) nm
                (ucast (bp_channel b)) rssi_v (bp_sec b) crypt crypt AP_AUTH_NONE compatible (bp_info b)) s) })"

definition Wifi_ProcessBeaconOrProbeResponse :: "Wifi_RxHeader \<Rightarrow> nat \<Rightarrow> arm7 \<Rightarrow> arm7 option" where
  "Wifi_ProcessBeaconOrProbeResponse packetheader macbase s =
     (let datalen = min 512 (unat (byteLength packetheader));
          (data, s) = mgt_frame_read macbase datalen s;
          caps_index = HDR_MGT_MAC_SIZE + 8 + 2;
          sec = (if read_u16 data caps_index AND CAPS_PRIVACY \<noteq> 0 then AP_SECURITY_WEP else AP_SECURITY_OPEN)
      in do {
        b \<leftarrow> parse_elements data datalen (caps_index + 2)
          \<lparr>bp_sec = sec, bp_info = None, bp_ssid = 0, bp_channel = curChannel (wd7 s), bp_compatible = True\<rparr>;
        beacon_add packetheader data b s })"

section \<open>Beacons of a host\<close>

lemma read_bytes_shift: "read_bytes (\<lambda>k. m (p + k)) 0 n = read_bytes m p n"
  by (rule nth_equalityI) simp_all

lemma halfwords_double [simp]: "halfwords (2 * n) = n"
  by (simp add: halfwords_def)

text \<open>The frame \<open>f\<close> is in the RX ring, after the hardware header at \<open>macbase\<close>; it has been received with the
  header \<open>h\<close>.\<close>

definition in_ring :: "u8 list \<Rightarrow> nat \<Rightarrow> arm7 \<Rightarrow> bool" where
  "in_ring f macbase s \<longleftrightarrow> rx_ring s \<and> rx_begin s \<le> macbase \<and> even macbase \<and>
     macbase + 12 < rx_end s + (rx_end s - rx_begin s) \<and> rx_ring_bytes s (macbase + 12) (length f) = f"

definition received :: "u8 list \<Rightarrow> Wifi_RxHeader \<Rightarrow> nat \<Rightarrow> arm7 \<Rightarrow> bool" where
  "received f h macbase s \<longleftrightarrow> in_ring f macbase s \<and> unat (byteLength h) = length f"

lemma mgt_frame_read_holds:
  assumes f: "received f h macbase s" and n: "n \<le> length f"
  shows "\<exists>data v. mgt_frame_read macbase n s = (data, set_reg W_RXBUF_RD_ADDR v s) \<and> holds_at data 0 (take n f)"
proof -
  let ?h = "(n + 1) div 2" and ?data = "fst (mgt_frame_read macbase n s)"
  have ring: "rx_ring s" "rx_begin s \<le> macbase + 12" "even (macbase + 12)"
    and bytes: "rx_ring_bytes s (macbase + 12) (length f) = f" using f by (auto simp: received_def in_ring_def)
  have w: "rx_wrap s (macbase + 12) = ring_pos s (macbase + 12)"
    by (rule rx_wrap_ring_pos) (use f in \<open>auto simp: received_def in_ring_def\<close>)
  have "?data k = f ! k" if k: "k < n" for k
  proof -
    have k2: "k < 2 * ?h" using k by linarith
    then have "hword_bytes (rd_data s ?h (ring_pos s (macbase + 12))) ! k = mac_byte s (ring_pos s (macbase + 12 + k))"
      by (intro MACRead_bytes ring)
    moreover have "f ! k = mac_byte s (ring_pos s (macbase + 12 + k))"
      using k n by (subst bytes [symmetric]) (simp add: rx_ring_bytes_def)
    ultimately show ?thesis using k2
      by (simp add: mgt_frame_read_def Wifi_MACRead_def Let_def w write_bytes_def length_hword_bytes)
  qed
  then have "holds_at ?data 0 (take n f)"
    using n by (auto simp: holds_at_def intro: nth_equalityI)
  moreover have "\<exists>v. mgt_frame_read macbase n s = (?data, set_reg W_RXBUF_RD_ADDR v s)"
    by (auto simp: mgt_frame_read_def Wifi_MACRead_def Let_def)
  ultimately show ?thesis by blast
qed

lemma parse_step:
  assumes "holds_at data p ([t, of_nat (length bs)] @ bs @ rest)" "length bs < 256" "p < datalen" "p + 1 < 512"
    and "parse_element data t (p + 2) (length bs) b = Some b'"
  shows "parse_elements data datalen p b = parse_elements data datalen (p + 2 + length bs) b'"
  using assms by (subst parse_elements.simps) (simp add: local_at_def holds_at_Cons unat_of_nat)

lemma holds_at_element: "holds_at data p ([t, l] @ bs @ rest) \<Longrightarrow> holds_at data (p + 2) bs \<and> holds_at data (p + 2 + length bs) rest"
  by (simp add: holds_at_append holds_at_Cons)

lemma holds_at_nth: "holds_at m p bs \<Longrightarrow> k < length bs \<Longrightarrow> m (p + k) = bs ! k"
  by (metis holds_at_def nth_read_bytes)

lemma holds_at_le16s:
  "holds_at m p (concat (map le16 hs)) \<Longrightarrow> map (\<lambda>i. read_u16 m (p + 2 * i)) [0..<length hs] = hs"
proof (induction hs arbitrary: p)
  case (Cons h hs)
  then have "read_u16 m p = h" by (auto simp: holds_at_append intro: holds_at_le16)
  moreover have "map (\<lambda>i. read_u16 m (p + 2 + 2 * i)) [0..<length hs] = hs"
    by (rule Cons.IH) (use Cons.prems in \<open>simp add: holds_at_append\<close>)
  moreover have "[0..<length (h # hs)] = 0 # map Suc [0..<length hs]" by (subst upt_conv_Cons) (simp_all add: map_Suc_upt)
  ultimately show ?case by (simp add: comp_def)
qed simp

lemma game_id_bytes:
  "push_bit 24 (ucast (ucast (drop_bit 24 g) :: u8)) OR push_bit 16 (ucast (ucast (drop_bit 16 g) :: u8))
     OR push_bit 8 (ucast (ucast (drop_bit 8 g) :: u8)) OR push_bit 0 (ucast (ucast g :: u8)) = g" for g :: u32
proof (rule bit_word_eqI)
  fix n assume "n < LENGTH(32)"
  then consider "n < 8" | "8 \<le> n" "n < 16" | "16 \<le> n" "n < 24" | "24 \<le> n" "n < 32" by fastforce
  then show "bit (push_bit 24 (ucast (ucast (drop_bit 24 g) :: u8)) OR push_bit 16 (ucast (ucast (drop_bit 16 g) :: u8))
     OR push_bit 8 (ucast (ucast (drop_bit 8 g) :: u8)) OR push_bit 0 (ucast (ucast g :: u8)) :: u32) n = bit g n"
    by cases (auto simp: bit_simps)
qed

text \<open>The information in the vendor element of a host.\<close>

definition host_info :: "u32 \<Rightarrow> Wifi_MainStruct \<Rightarrow> Wifi_NintendoVendorInfo" where
  "host_info game w =
     \<lparr>players_max = curMaxClients w + 1, players_current = 1,
      allows_connections = (if reqFlags w AND WFLAG_REQ_ALLOWCLIENTS \<noteq> 0 then 1 else 0),
      game_id = game, name_len = hostPlayerNameLen w, name = hostPlayerName w\<rparr>"

lemma length_FieVendorNintendo_bytes:
  assumes "length (hostPlayerName w) = 10"
  shows "length (FieVendorNintendo_bytes game w) = 48"
proof -
  have "length (concat (map le16 hs)) = 2 * length hs" for hs by (induction hs) simp_all
  then show ?thesis using assms by (simp add: FieVendorNintendo_bytes_def)
qed

lemma vendor_info_host:
  assumes "holds_at data p (FieVendorNintendo_bytes game w)" "length (hostPlayerName w) = 10"
  shows "vendor_info data p = host_info game w"
proof -
  let ?bs = "FieVendorNintendo_bytes game w"
  have c: "?bs = take 28 ?bs @ concat (map le16 (hostPlayerName w))" "length (take 28 ?bs) = 28"
    by (simp_all add: FieVendorNintendo_bytes_def le16_def)
  have "holds_at data p (take 28 ?bs @ concat (map le16 (hostPlayerName w)))" using assms(1) c(1) by metis
  then have "holds_at data (p + 28) (concat (map le16 (hostPlayerName w)))"
    unfolding holds_at_append c(2) by blast
  then have "map (\<lambda>i. read_u16 data (p + 28 + 2 * i)) [0..<10] = hostPlayerName w"
    using holds_at_le16s assms(2) by metis
  moreover have "data (p + 24) = curMaxClients w + 1" "data (p + 25) = 1"
      "data (p + 26) = (if reqFlags w AND WFLAG_REQ_ALLOWCLIENTS \<noteq> 0 then 1 else 0)" "data (p + 27) = hostPlayerNameLen w"
      "data (p + 12) = ucast (drop_bit 24 game)" "data (p + 13) = ucast (drop_bit 16 game)"
      "data (p + 14) = ucast (drop_bit 8 game)" "data (p + 15) = ucast game"
    using length_FieVendorNintendo_bytes [OF assms(2), of game]
    by (simp_all add: holds_at_nth [OF assms(1)]) (simp_all add: FieVendorNintendo_bytes_def le16_def)
  ultimately show ?thesis by (simp only: vendor_info_def host_info_def game_id_bytes)
qed

lemma parse_vendor_host:
  assumes h: "holds_at data p (FieVendorNintendo_bytes game w)" and n: "length (hostPlayerName w) = 10" and p: "p \<le> 400"
  shows "parse_element data MGT_FIE_ID_VENDOR p 48 b = Some (b\<lparr>bp_info := Some (host_info game w)\<rparr>)"
proof -
  have d: "data p = 0x00" "data (p + 1) = 0x09" "data (p + 2) = 0xBF" "data (p + 3) = 0x00"
    using holds_at_nth [OF h, of 0] holds_at_nth [OF h, of 1] holds_at_nth [OF h, of 2] holds_at_nth [OF h, of 3]
      length_FieVendorNintendo_bytes [OF n, of game]
    by (simp_all add: FieVendorNintendo_bytes_def)
  have "Wifi_IsVendorMicrosoft data p 48 = Some False"
    using d p by (simp add: Wifi_IsVendorMicrosoft_def local_at_def)
  moreover have "Wifi_IsVendorNintendo data p 48 = Some True"
    using d p by (simp add: Wifi_IsVendorNintendo_def local_at_def numeral_3_eq_3)
  ultimately show ?thesis
    using p vendor_info_host [OF h n] by (simp add: parse_element_def Wifi_ProcessVendorTag_def)
qed

definition host_elements :: "u8 list \<Rightarrow> u32 \<Rightarrow> Wifi_MainStruct \<Rightarrow> u8 list" where
  "host_elements nm game w =
     [MGT_FIE_ID_SSID, of_nat (length nm)] @ nm @
     [MGT_FIE_ID_SUPPORTED_RATES, of_nat (length [0x84, 0x82 :: u8])] @ [0x84, 0x82] @
     [MGT_FIE_ID_DS_PARAM_SET, of_nat (length [reqChannel w])] @ [reqChannel w] @
     [MGT_FIE_ID_TIM, of_nat (length (replicate 6 (0 :: u8)))] @ replicate 6 0 @
     [MGT_FIE_ID_VENDOR, of_nat (length (FieVendorNintendo_bytes game w))] @ FieVendorNintendo_bytes game w @ []"

lemma parse_host_elements:
  assumes h: "holds_at data p (host_elements nm game w)" and nm: "length nm \<le> 32"
    and n: "length (hostPlayerName w) = 10" and p: "0 < p" "p \<le> 100"
  shows "parse_elements data (p + length nm + 67) p b =
    Some (b\<lparr>bp_ssid := p, bp_compatible := True, bp_channel := reqChannel w, bp_info := Some (host_info game w)\<rparr>)"
proof -
  let ?stop = "p + length nm + 67"
  have v: "length (FieVendorNintendo_bytes game w) = 48" by (rule length_FieVendorNintendo_bytes [OF n])
  note h1 = h [unfolded host_elements_def]
  note h2 = conjunct2 [OF holds_at_element [OF h1]]
  note h3 = conjunct2 [OF holds_at_element [OF h2]]
  note h4 = conjunct2 [OF holds_at_element [OF h3]]
  note h5 = conjunct2 [OF holds_at_element [OF h4]]
  have "parse_elements data ?stop p b = parse_elements data ?stop (p + 2 + length nm) (b\<lparr>bp_ssid := p\<rparr>)"
    by (rule parse_step [OF h1]) (use nm p in \<open>auto simp: parse_element_def\<close>)
  also have "\<dots> = parse_elements data ?stop (p + 2 + length nm + 2 + length [0x84, 0x82 :: u8]) (b\<lparr>bp_ssid := p, bp_compatible := True\<rparr>)"
    by (rule parse_step [OF h2])
      (use nm p holds_at_element [OF h2] in
        \<open>auto simp: parse_element_def local_at_def holds_at_Cons numeral_2_eq_2\<close>)
  also have "\<dots> = parse_elements data ?stop (p + 2 + length nm + 2 + length [0x84, 0x82 :: u8] + 2 + length [reqChannel w])
      (b\<lparr>bp_ssid := p, bp_compatible := True, bp_channel := reqChannel w\<rparr>)"
    by (rule parse_step [OF h3])
      (use nm p holds_at_element [OF h3] in \<open>auto simp: parse_element_def local_at_def holds_at_Cons\<close>)
  also have "\<dots> = parse_elements data ?stop
      (p + 2 + length nm + 2 + length [0x84, 0x82 :: u8] + 2 + length [reqChannel w] + 2 + length (replicate 6 (0 :: u8)))
      (b\<lparr>bp_ssid := p, bp_compatible := True, bp_channel := reqChannel w\<rparr>)"
    by (rule parse_step [OF h4]) (use nm p in \<open>auto simp: parse_element_def\<close>)
  also have "\<dots> = parse_elements data ?stop
      (p + 2 + length nm + 2 + length [0x84, 0x82 :: u8] + 2 + length [reqChannel w] + 2 + length (replicate 6 (0 :: u8))
        + 2 + length (FieVendorNintendo_bytes game w))
      (b\<lparr>bp_ssid := p, bp_compatible := True, bp_channel := reqChannel w, bp_info := Some (host_info game w)\<rparr>)"
    by (rule parse_step [OF h5])
      (use nm p v parse_vendor_host [OF conjunct1 [OF holds_at_element [OF h5]] n] in auto)
  also have "\<dots> = Some (b\<lparr>bp_ssid := p, bp_compatible := True, bp_channel := reqChannel w, bp_info := Some (host_info game w)\<rparr>)"
    by (subst parse_elements.simps) (simp add: v)
  finally show ?thesis .
qed

text \<open>What is on the air after the hardware has removed its header.\<close>

definition host_beacon :: "u8 list \<Rightarrow> u32 \<Rightarrow> Wifi_MainStruct \<Rightarrow> u8 list" where
  "host_beacon nm game w = drop HDR_TX_SIZE (beacon_frame nm game w)"

lemma host_beacon_eq:
  assumes "nm \<noteq> []" "length (hostPlayerName w) = 10"
  shows "host_beacon nm game w =
    IEEE_DataFrameHeader_bytes TYPE_BEACON 0 wifi_broadcast_addr (MacAddr w) (MacAddr w) 0 @
      (replicate 8 0 @ le16 100) @ le16 0x21 @ host_elements nm game w"
  using assms length_FieVendorNintendo_bytes [OF assms(2), of game]
  by (simp add: host_beacon_def beacon_frame_def beacon_body_def host_elements_def Let_def)

lemma length_host_beacon:
  assumes "nm \<noteq> []" "length (hostPlayerName w) = 10" "length (MacAddr w) = 6"
  shows "length (host_beacon nm game w) = 36 + length nm + 67"
  using assms length_ieee_header [of wifi_broadcast_addr "MacAddr w" "MacAddr w" TYPE_BEACON 0 0]
    length_FieVendorNintendo_bytes [OF assms(2), of game]
  by (simp add: host_beacon_eq host_elements_def wifi_broadcast_addr_def mac_of_hwords_def)

lemma host_beacon_holds:
  assumes "holds_at data 0 (host_beacon nm game w)" "nm \<noteq> []" "length (hostPlayerName w) = 10" "length (MacAddr w) = 6"
  shows "read_bytes data 10 6 = MacAddr w" "read_bytes data 16 6 = MacAddr w" "read_u16 data 34 = 0x21"
    "holds_at data 36 (host_elements nm game w)"
proof -
  have "length wifi_broadcast_addr = 6" by (simp add: wifi_broadcast_addr_def mac_of_hwords_def)
  note h = holds_at_data_header [OF assms(1) [unfolded host_beacon_eq [OF assms(2,3)]] this assms(4,4)]
  show "read_bytes data 10 6 = MacAddr w" "read_bytes data 16 6 = MacAddr w"
    using h(3,4) by (simp_all add: addr_2_at_def addr_3_at_def)
  have l: "length (replicate 8 (0 :: u8) @ le16 100) = 10" by simp
  have "holds_at data (24 + 10) (le16 0x21 @ host_elements nm game w)"
    using h(5) unfolding holds_at_append [of _ _ "replicate 8 0 @ le16 100"] l by simp
  then have "holds_at data 34 (le16 0x21)" "holds_at data (34 + 2) (host_elements nm game w)"
    unfolding holds_at_append [of _ _ "le16 0x21"] length_le16 by simp_all
  then show "read_u16 data 34 = 0x21" "holds_at data 36 (host_elements nm game w)"
    by (simp_all add: holds_at_le16)
qed

text \<open>C14: A console that scans for hosts and receives the beacon that the ARM9 of a host has built enters the host
  into its table of access points: with the address, channel and name of the host, and the
  number of players, the permission to connect, the game and the player name of the host.\<close>

theorem host_beacon_seen:
  assumes frame: "received (host_beacon nm game w) h macbase s"
    and host: "0 < length nm" "length nm \<le> 32" "length (hostPlayerName w) = 10" "length (MacAddr w) = 6"
    and scan: "curApScanFlags (wd7 s) AND WSCAN_LIST_NDS_HOSTS \<noteq> 0"
    and table: "aps_ok (aplist (wd7 s))" "\<forall>ap \<in> set (aplist (wd7 s)). ap_spinlock ap = 0"
  shows "\<exists>s' i ap. Wifi_ProcessBeaconOrProbeResponse h macbase s = Some s' \<and> i < WIFI_MAX_AP \<and>
    aplist (wd7 s') = (aplist (wd7 s))[i := ap] \<and> bssid ap = MacAddr w \<and> ap_in_use ap \<and>
    channel ap = reqChannel w \<and> security_type ap = AP_SECURITY_OPEN \<and> unat (ssid_len ap) = length nm \<and>
    take (length nm) (ssid ap) = nm \<and> nintendo ap = host_info game w"
proof -
  let ?f = "host_beacon nm game w" and ?b = "bp_ssid_update (\<lambda>_. 36)"
  have ne: "nm \<noteq> []" using host(1) by auto
  have len: "length ?f = 36 + length nm + 67" by (rule length_host_beacon [OF ne host(3,4)])
  obtain data v where rd: "mgt_frame_read macbase (length ?f) s = (data, set_reg W_RXBUF_RD_ADDR v s)"
      and hd: "holds_at data 0 ?f"
    using mgt_frame_read_holds [OF frame, of "length ?f"] by auto
  note d = host_beacon_holds [OF hd ne host(3,4)]
  let ?b0 = "\<lparr>bp_sec = AP_SECURITY_OPEN, bp_info = None, bp_ssid = 0, bp_channel = curChannel (wd7 s), bp_compatible = True\<rparr>"
  have parse: "parse_elements data (length ?f) 36 ?b0 =
      Some (?b0\<lparr>bp_ssid := 36, bp_compatible := True, bp_channel := reqChannel w, bp_info := Some (host_info game w)\<rparr>)"
    unfolding len by (rule parse_host_elements [OF d(4) host(2,3)]) simp_all
  have nm: "data 37 = of_nat (length nm)" "read_bytes (\<lambda>k. data (38 + k)) 0 (length nm) = nm"
    using holds_at_nth [OF d(4), of 1] holds_at_element [OF d(4) [unfolded host_elements_def]]
    by (auto simp: host_elements_def holds_at_def read_bytes_shift)
  let ?nm = "Some (\<lambda>k. data (38 + k), length nm)"
  have arg: "ssid_arg data 36 = Some ?nm"
    using nm(1) host(2) by (simp add: ssid_arg_def local_at_def unat_of_nat)
  define r where "r = (if curChannel (wd7 s) = reqChannel w then ucast (rx_rssi h AND 255) else INT_MIN)"
  define w' where "w' = Wifi_AccessPointAdd (\<lambda>k. data (16 + k)) (MacAddr w) ?nm (ucast (reqChannel w)) r
    AP_SECURITY_OPEN AP_CRYPT_NONE AP_CRYPT_NONE AP_AUTH_NONE True (Some (host_info game w)) (wd7 s)"
  have datalen: "min 512 (unat (byteLength h)) = length ?f" using frame len host(2) by (simp add: received_def in_ring_def)
  have run: "Wifi_ProcessBeaconOrProbeResponse h macbase s = Some (wd7_upd (\<lambda>_. w') (set_reg W_RXBUF_RD_ADDR v s))"
    using parse arg scan d(1,3) unfolding Wifi_ProcessBeaconOrProbeResponse_def datalen rd Let_def
    by (simp add: beacon_add_def keep_ap_def w'_def r_def Let_def wd7_upd_def)
  obtain b i where slot: "ap_slot (read_bytes (\<lambda>k. data (16 + k)) 0 6) (aplist (wd7 s)) = (b, i)" by fastforce
  have i: "i < length (aplist (wd7 s))" using ap_slot_cases [OF aps_ok_ne [OF table(1)] slot] by simp
  then have "ap_spinlock (aplist (wd7 s) ! i) = 0" using table(2) by simp
  then obtain ap where ap: "aplist w' = (aplist (wd7 s))[i := ap]"
      "ap_entry_of (read_bytes (\<lambda>k. data (16 + k)) 0 6) ?nm (ucast (reqChannel w)) AP_SECURITY_OPEN AP_CRYPT_NONE
        AP_CRYPT_NONE AP_AUTH_NONE (Some (host_info game w)) ap"
    using AccessPointAdd_free [OF slot _ table(1)] unfolding w'_def by blast
  have "min 32 (length nm) = length nm" using host(2) by simp
  then have "bssid ap = MacAddr w \<and> ap_in_use ap \<and> channel ap = reqChannel w \<and> security_type ap = AP_SECURITY_OPEN \<and>
      unat (ssid_len ap) = length nm \<and> take (length nm) (ssid ap) = nm \<and> nintendo ap = host_info game w"
    using ap(2) d(2) nm(2) host(2) by (simp add: ap_entry_of_def ssid_stored_def read_bytes_shift unat_of_nat ucast_ucast_b)
  then show ?thesis using run ap(1) i table(1)
    by (intro exI [of _ "wd7_upd (\<lambda>_. w') (set_reg W_RXBUF_RD_ADDR v s)"] exI [of _ i] exI [of _ ap])
      (simp add: aps_ok_def wd7_upd_def)
qed

text \<open>A console whose RX ring, from 0xC00 to 0x1F60, holds a beacon of a host named \<open>A\<close> after the RX header.\<close>

definition ring_with :: "u8 list \<Rightarrow> arm7" where
  "ring_with frame = ring_ex\<lparr>macmem := read_u16 (write_bytes (\<lambda>_. 0) 0xC0C frame)\<rparr>"

lemma mac_byte_read_u16: "macmem s = read_u16 m \<Longrightarrow> mac_byte s a = m a"
proof -
  assume m: "macmem s = read_u16 m"
  have hi: "\<not> bit (m x) (8 + n)" for x n using bit_imp_le_length [of "m x" "8 + n"] by auto
  have b: "ucast (read_u16 m x) = m x" "ucast (drop_bit 8 (read_u16 m x)) = m (x + 1)" for x
    by (auto intro!: bit_word_eqI simp: read_u16_def bit_simps hi)
  show ?thesis
  proof (cases "even a")
    case True
    then show ?thesis using mac_byte_parts(1) [of a s] b m by simp
  next
    case False
    then have "even (a - 1)" "a - 1 + 1 = a" by (auto simp: odd_pos)
    then show ?thesis using mac_byte_parts(2) [of "a - 1" s] b(2) [of "a - 1"] m by simp
  qed
qed

lemma ring_with_in_ring:
  assumes "length f \<le> 0x1000" "rx_begin s = 0xC00" "rx_end s = 0x1F60"
    and "\<And>a. 0xC0C \<le> a \<Longrightarrow> mac_byte s a = mac_byte (ring_with f) a"
  shows "in_ring f 0xC00 s"
proof -
  have r: "rx_ring s" using assms(2,3) by (simp add: rx_ring_def)
  have "mac_byte s (ring_pos s (0xC0C + k)) = f ! k" if "k < length f" for k
  proof -
    have "ring_pos s (0xC0C + k) = 0xC0C + k" by (rule ring_pos_id) (use assms that in simp_all)
    then show ?thesis using that assms(4)
      by (simp add: mac_byte_read_u16 [of _ "write_bytes (\<lambda>_. 0) 0xC0C f"] ring_with_def write_bytes_def)
  qed
  then have "rx_ring_bytes s (0xC00 + 12) (length f) = f"
    by (auto simp: rx_ring_bytes_def intro!: nth_equalityI)
  then show ?thesis using r assms(2,3) by (simp add: in_ring_def)
qed

lemma ring_with_received:
  assumes "length f \<le> 0x1000" "unat (byteLength h) = length f" "regs s = regs (ring_with f)" "macmem s = macmem (ring_with f)"
  shows "received f h 0xC00 s"
proof -
  have "rx_begin s = 0xC00" "rx_end s = 0x1F60"
    using rx_ring_ex assms(3) by (simp_all add: ring_with_def rx_begin_def rx_end_def)
  moreover have "mac_byte s a = mac_byte (ring_with f) a" for a
    by (simp only: mac_byte_def Wifi_MacReadByte_def assms(4))
  ultimately show ?thesis using ring_with_in_ring [OF assms(1)] assms(2) by (simp add: received_def)
qed

definition beacon_host_ex :: Wifi_MainStruct where
  "beacon_host_ex = zero_main\<lparr>MacAddr := [0, 9, 0xBF, 1, 2, 3], reqChannel := 7, curMaxClients := 3\<rparr>"

definition beacon_rx_ex :: arm7 where
  "beacon_rx_ex = wd7_upd (\<lambda>_. zero_main\<lparr>curApScanFlags := WSCAN_LIST_NDS_HOSTS\<rparr>)
     (ring_with (host_beacon [65] 0x1234 beacon_host_ex))"

definition rx_header_ex :: "nat \<Rightarrow> Wifi_RxHeader" where
  "rx_header_ex n = \<lparr>rx_a = 0, rx_b = 0, rx_c = 0, rx_d = 0, byteLength = of_nat n, rx_rssi = 50\<rparr>"

theorem host_beacon_seen_witness:
  "\<exists>s' i ap. Wifi_ProcessBeaconOrProbeResponse (rx_header_ex 104) 0xC00 beacon_rx_ex = Some s' \<and>
    i < WIFI_MAX_AP \<and> aplist (wd7 s') = (aplist (wd7 beacon_rx_ex))[i := ap] \<and>
    bssid ap = [0, 9, 0xBF, 1, 2, 3] \<and> channel ap = 7 \<and> take 1 (ssid ap) = [65] \<and> players_max (nintendo ap) = 4"
proof -
  let ?f = "host_beacon [65] 0x1234 beacon_host_ex" and ?w = "beacon_host_ex"
  have w: "MacAddr ?w = [0, 9, 0xBF, 1, 2, 3]" "reqChannel ?w = 7" "curMaxClients ?w = 3" "length (hostPlayerName ?w) = 10"
    by (simp_all add: beacon_host_ex_def zero_main_def)
  have len: "length ?f = 104" using length_host_beacon [of "[65]" ?w] w by simp
  have f: "received ?f (rx_header_ex 104) 0xC00 beacon_rx_ex"
    by (rule ring_with_received) (simp_all add: len rx_header_ex_def beacon_rx_ex_def wd7_upd_def)
  have t: "aps_ok (aplist (wd7 beacon_rx_ex))" "\<forall>ap \<in> set (aplist (wd7 beacon_rx_ex)). ap_spinlock ap = 0"
    using aps_ok_zero by (simp_all add: beacon_rx_ex_def wd7_upd_def zero_main_def zero_ap_def)
  obtain s' i ap where "Wifi_ProcessBeaconOrProbeResponse (rx_header_ex 104) 0xC00 beacon_rx_ex = Some s'"
      "i < WIFI_MAX_AP" "aplist (wd7 s') = (aplist (wd7 beacon_rx_ex))[i := ap]"
      "bssid ap = [0, 9, 0xBF, 1, 2, 3]" "channel ap = 7" "take 1 (ssid ap) = [65]" "nintendo ap = host_info 0x1234 ?w"
    using host_beacon_seen [OF f] t w by (auto simp: beacon_rx_ex_def wd7_upd_def)
  moreover have "players_max (host_info 0x1234 ?w) = 4" using w by (simp add: host_info_def)
  ultimately show ?thesis by metis
qed

end
