(* ===== verification/Arm7_Mp.thy ===== *)
theory Arm7_Mp
  imports Arm7_Frames Spinlock
begin

text \<open>
  The table of clients of a multiplayer host (\<^verbatim>\<open>arm7/ntr/multiplayer.c\<close>). The functions
  that take the spinlock return \<open>None\<close> if it is held, as they then wait for ever when the ARM9
  does not release it. Results \<^verbatim>\<open>-1\<close> of the code are \<open>None\<close> inside the result.
  The invariant of the table says what identifiers and the mask of identifiers mean.
\<close>

section \<open>Operations\<close>

definition clients_upd7 :: "(Wifi_ClientsInfoIpc \<Rightarrow> Wifi_ClientsInfoIpc) \<Rightarrow> arm7 \<Rightarrow> arm7" where
  "clients_upd7 f = wd7_upd (\<lambda>w. w\<lparr>clients := f (clients w)\<rparr>)"

definition lock_clients7 :: "arm7 \<Rightarrow> arm7 option" where
  "lock_clients7 s =
     map_option (\<lambda>l. clients_upd7 (\<lambda>c. c\<lparr>clients_spinlock := l\<rparr>) s)
       (spin_acquire SPINLOCK_OWNER_ARM7 (clients_spinlock (clients (wd7 s))))"

definition unlock_clients7 :: "arm7 \<Rightarrow> arm7" where
  "unlock_clients7 s =
     clients_upd7 (\<lambda>c. c\<lparr>clients_spinlock := spin_release SPINLOCK_OWNER_ARM7 (clients_spinlock c)\<rparr>) s"

definition client7 :: "arm7 \<Rightarrow> nat \<Rightarrow> Wifi_ConnectedClient" where
  "client7 s i = client_list (clients (wd7 s)) ! i"

definition set_client7 :: "nat \<Rightarrow> (Wifi_ConnectedClient \<Rightarrow> Wifi_ConnectedClient) \<Rightarrow> arm7 \<Rightarrow> arm7" where
  "set_client7 i f = clients_upd7 (\<lambda>c. c\<lparr>client_list := (client_list c)[i := f (client_list c ! i)]\<rparr>)"

definition aid_mask_clear :: "nat \<Rightarrow> arm7 \<Rightarrow> arm7" where
  "aid_mask_clear aid = clients_upd7 (\<lambda>c. c\<lparr>aid_mask := aid_mask c AND NOT (BIT aid)\<rparr>)"

definition players_changed :: "arm7 \<Rightarrow> arm7" where
  "players_changed s = Wifi_SetBeaconCurrentPlayers (ucast (num_connected (clients (wd7 s))) + 1) s"

definition Wifi_MPHost_ResetClients :: "arm7 \<Rightarrow> arm7 option" where
  "Wifi_MPHost_ResetClients s =
     do { s \<leftarrow> lock_clients7 s;
          let s = clients_upd7 (\<lambda>c. c\<lparr>client_list := replicate WIFI_MAX_MULTIPLAYER_CLIENTS zero_client,
                                      num_connected := 0, aid_mask := BIT 0\<rparr>) s
          in Some (unlock_clients7 (players_changed s)) }"

fun find_mac :: "mac \<Rightarrow> nat \<Rightarrow> Wifi_ConnectedClient list \<Rightarrow> nat option" where
  "find_mac m i [] = None"
| "find_mac m i (c # cs) =
     (if client_state c = WIFI_CLIENT_DISCONNECTED then find_mac m (i + 1) cs
      else if Wifi_CmpMacAddr m (macaddr c) then Some i
      else find_mac m (i + 1) cs)"

fun find_free :: "nat \<Rightarrow> Wifi_ConnectedClient list \<Rightarrow> nat option" where
  "find_free i [] = None"
| "find_free i (c # cs) =
     (if client_state c = WIFI_CLIENT_DISCONNECTED then Some i else find_free (i + 1) cs)"

text \<open>The loops run over the first \<^verbatim>\<open>curMaxClients\<close> entries, at most the 15 of the table.\<close>

definition used_clients :: "arm7 \<Rightarrow> Wifi_ConnectedClient list" where
  "used_clients s = take (unat (curMaxClients (wd7 s))) (client_list (clients (wd7 s)))"

definition Wifi_MPHost_ClientGetByMacAddr :: "mac \<Rightarrow> arm7 \<Rightarrow> nat option" where
  "Wifi_MPHost_ClientGetByMacAddr m s = find_mac m 0 (used_clients s)"

definition Wifi_MPHost_ClientGetByAID :: "u16 \<Rightarrow> arm7 \<Rightarrow> nat option" where
  "Wifi_MPHost_ClientGetByAID aid s =
     (if aid = 0 then None
      else let index = unat aid - 1
           in if index \<ge> unat (curMaxClients (wd7 s)) then None
              else if client_state (client7 s index) \<noteq> WIFI_CLIENT_DISCONNECTED then Some index
              else None)"

definition Wifi_MPHost_ClientAuthenticate :: "mac \<Rightarrow> arm7 \<Rightarrow> (nat option \<times> arm7) option" where
  "Wifi_MPHost_ClientAuthenticate m s =
     (if reqFlags (wd7 s) AND WFLAG_REQ_ALLOWCLIENTS = 0 then Some (None, s)
      else do {
        s \<leftarrow> lock_clients7 s;
        case Wifi_MPHost_ClientGetByMacAddr m s of
          Some index \<Rightarrow>
            let s = set_client7 index (client_state_update (\<lambda>_. WIFI_CLIENT_AUTHENTICATED)) s;
                aid = unat (association_id (client7 s index))
            in Some (Some index, unlock_clients7 (aid_mask_clear aid s))
        | None \<Rightarrow>
            (case find_free 0 (used_clients s) of
               Some i \<Rightarrow>
                 let s = set_client7 i (\<lambda>c. c\<lparr>client_state := WIFI_CLIENT_AUTHENTICATED,
                                             macaddr := Wifi_CopyMacAddr m\<rparr>) s;
                     s = clients_upd7 (\<lambda>c. c\<lparr>num_connected := num_connected c + 1\<rparr>) s
                 in Some (Some i, unlock_clients7 (players_changed s))
             | None \<Rightarrow> Some (None, unlock_clients7 s)) })"

definition Wifi_MPHost_ClientAssociate :: "mac \<Rightarrow> arm7 \<Rightarrow> (u16 option \<times> arm7) option" where
  "Wifi_MPHost_ClientAssociate m s =
     (if reqFlags (wd7 s) AND WFLAG_REQ_ALLOWCLIENTS = 0 then Some (None, s)
      else do {
        s \<leftarrow> lock_clients7 s;
        case Wifi_MPHost_ClientGetByMacAddr m s of
          None \<Rightarrow> Some (None, unlock_clients7 s)
        | Some index \<Rightarrow>
            if client_state (client7 s index) = WIFI_CLIENT_ASSOCIATED
            then Some (Some (association_id (client7 s index)), unlock_clients7 s)
            else if client_state (client7 s index) = WIFI_CLIENT_AUTHENTICATED then
              let aid = of_nat (index + 1);
                  s = set_client7 index (\<lambda>c. c\<lparr>association_id := aid, client_state := WIFI_CLIENT_ASSOCIATED\<rparr>) s;
                  s = clients_upd7 (\<lambda>c. c\<lparr>aid_mask := aid_mask c OR BIT (unat aid)\<rparr>) s
              in Some (Some aid, unlock_clients7 s)
            else Some (None, unlock_clients7 s) })"

definition Wifi_MPHost_ClientDisconnect :: "mac \<Rightarrow> arm7 \<Rightarrow> (bool \<times> arm7) option" where
  "Wifi_MPHost_ClientDisconnect m s =
     do { s \<leftarrow> lock_clients7 s;
          case Wifi_MPHost_ClientGetByMacAddr m s of
            None \<Rightarrow> Some (False, unlock_clients7 s)
          | Some index \<Rightarrow>
              let s = set_client7 index (client_state_update (\<lambda>_. WIFI_CLIENT_DISCONNECTED)) s;
                  s = aid_mask_clear (unat (association_id (client7 s index))) s;
                  s = clients_upd7 (\<lambda>c. c\<lparr>num_connected := num_connected c - 1\<rparr>) s
              in Some (True, unlock_clients7 (players_changed s)) }"

definition Wifi_MPHost_KickByAID :: "nat \<Rightarrow> arm7 \<Rightarrow> arm7 option" where
  "Wifi_MPHost_KickByAID aid s =
     (if aid = 0 then Some s
      else let index = aid - 1
           in if index \<ge> unat (curMaxClients (wd7 s)) then Some s
              else if client_state (client7 s index) \<noteq> WIFI_CLIENT_DISCONNECTED then
                do { (_, s) \<leftarrow> Wifi_MPHost_SendDeauthentication (macaddr (client7 s index)) REASON_CANT_HANDLE_ALL_STATIONS s;
                     let s = set_client7 index (client_state_update (\<lambda>_. WIFI_CLIENT_DISCONNECTED)) s;
                         s = aid_mask_clear aid s;
                         s = clients_upd7 (\<lambda>c. c\<lparr>num_connected := num_connected c - 1\<rparr>) s
                     in Some (players_changed s) }
              else Some s)"

fun kick_not_associated :: "nat list \<Rightarrow> arm7 \<Rightarrow> arm7 option" where
  "kick_not_associated [] s = Some s"
| "kick_not_associated (i # is) s =
     (if client_state (client7 s i) = WIFI_CLIENT_AUTHENTICATED then
        do { (_, s) \<leftarrow> Wifi_MPHost_SendDeauthentication (macaddr (client7 s i)) REASON_CANT_HANDLE_ALL_STATIONS s;
             let s = set_client7 i (client_state_update (\<lambda>_. WIFI_CLIENT_DISCONNECTED)) s;
                 s = aid_mask_clear (i + 1) s;
                 s = clients_upd7 (\<lambda>c. c\<lparr>num_connected := num_connected c - 1\<rparr>) s
             in kick_not_associated is s }
      else kick_not_associated is s)"

definition Wifi_MPHost_KickNotAssociatedClients :: "arm7 \<Rightarrow> arm7 option" where
  "Wifi_MPHost_KickNotAssociatedClients s =
     do { s \<leftarrow> lock_clients7 s;
          s \<leftarrow> kick_not_associated [0..<length (used_clients s)] s;
          Some (unlock_clients7 (players_changed s)) }"

definition Wifi_MPHost_ClientKickAll :: "arm7 \<Rightarrow> arm7 option" where
  "Wifi_MPHost_ClientKickAll s =
     do { s \<leftarrow> Wifi_MPHost_ResetClients s;
          (_, s) \<leftarrow> Wifi_MPHost_SendDeauthentication wifi_broadcast_addr REASON_THIS_STATION_LEFT_DEAUTH s;
          Some s }"

section \<open>The invariant of the table\<close>

definition connected7 :: "Wifi_ConnectedClient \<Rightarrow> bool" where
  "connected7 e \<longleftrightarrow> client_state e \<noteq> WIFI_CLIENT_DISCONNECTED"

definition entry_ok :: "nat \<Rightarrow> u16 \<Rightarrow> nat \<Rightarrow> Wifi_ConnectedClient \<Rightarrow> bool" where
  "entry_ok mx am i e \<longleftrightarrow> (connected7 e \<longrightarrow> i < mx) \<and> unat (association_id e) \<in> {0, i + 1} \<and>
     (client_state e = WIFI_CLIENT_ASSOCIATED \<longrightarrow> unat (association_id e) = i + 1) \<and>
     (bit am (i + 1) \<longleftrightarrow> client_state e = WIFI_CLIENT_ASSOCIATED) \<and> length (macaddr e) = 6"

definition mp_ok :: "Wifi_ClientsInfoIpc \<Rightarrow> nat \<Rightarrow> bool" where
  "mp_ok c mx \<longleftrightarrow> length (client_list c) = 15 \<and> mx \<le> 15 \<and>
     unat (num_connected c) = length (filter connected7 (client_list c)) \<and>
     (\<forall>i<15. entry_ok mx (aid_mask c) i (client_list c ! i)) \<and>
     (\<forall>i<15. \<forall>j<15. connected7 (client_list c ! i) \<and> connected7 (client_list c ! j) \<and>
        macaddr (client_list c ! i) = macaddr (client_list c ! j) \<longrightarrow> i = j)"

text \<open>The operations run while the lock of the table has the value \<open>l\<close>; between them it is free.\<close>

definition mp_inv_at :: "u32 \<Rightarrow> arm7 \<Rightarrow> bool" where
  "mp_inv_at l s \<longleftrightarrow> mp_ok (clients (wd7 s)) (unat (curMaxClients (wd7 s))) \<and> clients_spinlock (clients (wd7 s)) = l"

abbreviation mp_inv :: "arm7 \<Rightarrow> bool" where
  "mp_inv \<equiv> mp_inv_at 0"

lemma filter_update:
  "i < length xs \<Longrightarrow> length (filter P (xs[i := y])) + (if P (xs ! i) then 1 else 0) =
     length (filter P xs) + (if P y then 1 else 0)"
proof (induction xs arbitrary: i)
  case (Cons x xs)
  then show ?case by (cases i) auto
qed simp

lemma mp_ok_update:
  assumes ok: "mp_ok c mx" and i: "i < 15"
    and e: "entry_ok mx am i e'"
    and mask: "\<And>j. j < 15 \<Longrightarrow> j \<noteq> i \<Longrightarrow> bit am (j + 1) = bit (aid_mask c) (j + 1)"
    and new: "\<And>j. connected7 e' \<Longrightarrow> j < 15 \<Longrightarrow> j \<noteq> i \<Longrightarrow> connected7 (client_list c ! j) \<Longrightarrow> macaddr (client_list c ! j) \<noteq> macaddr e'"
    and num: "unat num' + (if connected7 (client_list c ! i) then 1 else 0) =
      unat (num_connected c) + (if connected7 e' then 1 else 0)"
  shows "mp_ok (c\<lparr>client_list := (client_list c)[i := e'], aid_mask := am, num_connected := num'\<rparr>) mx"
proof -
  let ?L = "client_list c"
  have len: "length ?L = 15" "mx \<le> 15" and cnt: "unat (num_connected c) = length (filter connected7 ?L)"
    and ent: "\<And>j. j < 15 \<Longrightarrow> entry_ok mx (aid_mask c) j (?L ! j)"
    and dist: "\<And>j k. j < 15 \<Longrightarrow> k < 15 \<Longrightarrow> connected7 (?L ! j) \<Longrightarrow> connected7 (?L ! k) \<Longrightarrow>
        macaddr (?L ! j) = macaddr (?L ! k) \<Longrightarrow> j = k"
    using ok unfolding mp_ok_def by blast+
  have nth: "?L[i := e'] ! j = (if j = i then e' else ?L ! j)" if "j < 15" for j
    using that len(1) by (simp add: nth_list_update)
  have "entry_ok mx am j (?L ! j)" if "j < 15" "j \<noteq> i" for j
    using ent [OF that(1)] mask [OF that] by (simp add: entry_ok_def)
  then have "\<forall>j<15. entry_ok mx am j (?L[i := e'] ! j)" using e nth by simp
  moreover have "unat num' = length (filter connected7 (?L[i := e']))"
    using filter_update [of i ?L connected7 e'] num cnt i len(1) by (simp split: if_splits)
  moreover have "j = k" if "j < 15" "k < 15" "connected7 (?L[i := e'] ! j)" "connected7 (?L[i := e'] ! k)"
      "macaddr (?L[i := e'] ! j) = macaddr (?L[i := e'] ! k)" for j k
    using that nth dist [of j k] new [of j] new [of k] by (metis (full_types))
  ultimately show ?thesis using len by (simp add: mp_ok_def)
qed

lemma find_mac_Some:
  "find_mac m k cs = Some i \<Longrightarrow> k \<le> i \<and> i < k + length cs \<and> connected7 (cs ! (i - k)) \<and> Wifi_CmpMacAddr m (macaddr (cs ! (i - k)))"
proof (induction m k cs rule: find_mac.induct)
  case (2 m k c cs)
  then show ?case by (auto simp: connected7_def split: if_splits)
qed simp

lemma find_mac_None:
  "find_mac m k cs = None \<Longrightarrow> j < length cs \<Longrightarrow> connected7 (cs ! j) \<Longrightarrow> \<not> Wifi_CmpMacAddr m (macaddr (cs ! j))"
proof (induction m k cs arbitrary: j rule: find_mac.induct)
  case (2 m k c cs)
  then show ?case by (cases j) (auto simp: connected7_def split: if_splits)
qed simp

lemma find_free_Some:
  "find_free k cs = Some i \<Longrightarrow> k \<le> i \<and> i < k + length cs \<and> \<not> connected7 (cs ! (i - k))"
proof (induction k cs rule: find_free.induct)
  case (2 k c cs)
  then show ?case by (auto simp: connected7_def split: if_splits)
qed simp

lemma find_free_None: "find_free k cs = None \<Longrightarrow> j < length cs \<Longrightarrow> connected7 (cs ! j)"
proof (induction k cs arbitrary: j rule: find_free.induct)
  case (2 k c cs)
  then show ?case by (cases j) (auto simp: connected7_def split: if_splits)
qed simp

section \<open>Effect of the operations on the table\<close>

lemma clients_upd7_simps [simp]:
  "clients (wd7 (clients_upd7 f s)) = f (clients (wd7 s))"
  "curMaxClients (wd7 (clients_upd7 f s)) = curMaxClients (wd7 s)"
  "reqFlags (wd7 (clients_upd7 f s)) = reqFlags (wd7 s)"
  "regs (clients_upd7 f s) = regs s" "mac_byte (clients_upd7 f s) = mac_byte s"
  "dswifi_information_addr (clients_upd7 f s) = dswifi_information_addr s"
  by (simp_all add: clients_upd7_def) (simp add: wd7_upd_def)

lemma players_changed_simps [simp]:
  "wd7 (players_changed s) = wd7 s"
  by (simp add: players_changed_def Wifi_SetBeaconCurrentPlayers_def Wifi_MacWriteByte_def set_mac_def Let_def)

lemmas table_defs = lock_clients7_def unlock_clients7_def set_client7_def aid_mask_clear_def client7_def
  used_clients_def Wifi_MPHost_ClientGetByMacAddr_def

lemma mp_inv_sent7: "sent7 s s' \<Longrightarrow> mp_inv_at l s \<Longrightarrow> mp_inv_at l s'"
  by (simp add: sent7_def mp_inv_at_def)

lemma used_clients_nth:
  "mp_inv_at l s \<Longrightarrow> i < length (used_clients s) \<Longrightarrow> i < 15 \<and> i < unat (curMaxClients (wd7 s)) \<and> used_clients s ! i = client7 s i"
  by (auto simp: used_clients_def mp_inv_at_def mp_ok_def client7_def)

lemma length_used_clients: "mp_inv_at l s \<Longrightarrow> length (used_clients s) = unat (curMaxClients (wd7 s))"
  by (auto simp: used_clients_def mp_inv_at_def mp_ok_def)

lemma lock_clients7_ok:
  "mp_inv s \<Longrightarrow> lock_clients7 s = Some (clients_upd7 (\<lambda>c. c\<lparr>clients_spinlock := SPINLOCK_OWNER_ARM7\<rparr>) s)"
  by (simp add: lock_clients7_def mp_inv_at_def)

lemma get_by_mac_lock [simp]:
  "Wifi_MPHost_ClientGetByMacAddr m (clients_upd7 (\<lambda>c. c\<lparr>clients_spinlock := l\<rparr>) s) = Wifi_MPHost_ClientGetByMacAddr m s"
  "used_clients (clients_upd7 (\<lambda>c. c\<lparr>clients_spinlock := l\<rparr>) s) = used_clients s"
  "client7 (clients_upd7 (\<lambda>c. c\<lparr>clients_spinlock := l\<rparr>) s) = client7 s"
  by (simp_all add: Wifi_MPHost_ClientGetByMacAddr_def used_clients_def client7_def fun_eq_iff)

lemma entry_client7: "mp_inv_at l s \<Longrightarrow> i < 15 \<Longrightarrow>
    entry_ok (unat (curMaxClients (wd7 s))) (aid_mask (clients (wd7 s))) i (client7 s i)"
  by (simp add: mp_inv_at_def mp_ok_def client7_def)

lemma get_by_mac_Some:
  assumes inv: "mp_inv_at l s" and m: "length m = 6" and f: "Wifi_MPHost_ClientGetByMacAddr m s = Some i"
  shows "i < 15" "i < unat (curMaxClients (wd7 s))" "connected7 (client7 s i)" "macaddr (client7 s i) = m"
proof -
  have *: "i < length (used_clients s)" "connected7 (used_clients s ! i)" "Wifi_CmpMacAddr m (macaddr (used_clients s ! i))"
    using find_mac_Some [of m 0 "used_clients s" i] f by (auto simp: Wifi_MPHost_ClientGetByMacAddr_def)
  note n = used_clients_nth [OF inv *(1)]
  then show "i < 15" "i < unat (curMaxClients (wd7 s))" "connected7 (client7 s i)" using * by auto
  show "macaddr (client7 s i) = m"
    using *(3) n m entry_client7 [OF inv, of i] by (auto simp: Wifi_CmpMacAddr_def entry_ok_def)
qed

lemma get_by_mac_None:
  assumes inv: "mp_inv_at l s" and m: "length m = 6" and f: "Wifi_MPHost_ClientGetByMacAddr m s = None"
    and i: "i < 15" "connected7 (client7 s i)"
  shows "macaddr (client7 s i) \<noteq> m"
proof -
  have "i < length (used_clients s)"
    using entry_client7 [OF inv i(1)] i(2) length_used_clients [OF inv] by (simp add: entry_ok_def)
  then show ?thesis
    using find_mac_None [of m 0 "used_clients s" i] f used_clients_nth [OF inv, of i] i(2)
    by (auto simp: Wifi_MPHost_ClientGetByMacAddr_def Wifi_CmpMacAddr_def)
qed

text \<open>Replacing one entry of the table, with the mask and the counter that go with it.\<close>

definition table_set :: "nat \<Rightarrow> Wifi_ConnectedClient \<Rightarrow> u16 \<Rightarrow> u8 \<Rightarrow> arm7 \<Rightarrow> arm7 \<Rightarrow> bool" where
  "table_set i e am n s s' \<longleftrightarrow>
     clients (wd7 s') = (clients (wd7 s))\<lparr>client_list := (client_list (clients (wd7 s)))[i := e], aid_mask := am, num_connected := n\<rparr> \<and>
     curMaxClients (wd7 s') = curMaxClients (wd7 s)"

lemma table_set_inv:
  assumes inv: "mp_inv_at l s" and i: "i < 15" and set: "table_set i e am n s s'"
    and e: "entry_ok (unat (curMaxClients (wd7 s))) am i e"
    and am: "\<And>j. j < 15 \<Longrightarrow> j \<noteq> i \<Longrightarrow> bit am (j + 1) = bit (aid_mask (clients (wd7 s))) (j + 1)"
    and new: "\<And>j. connected7 e \<Longrightarrow> j < 15 \<Longrightarrow> j \<noteq> i \<Longrightarrow> connected7 (client7 s j) \<Longrightarrow> macaddr (client7 s j) \<noteq> macaddr e"
    and num: "unat n + (if connected7 (client7 s i) then 1 else 0) =
      unat (num_connected (clients (wd7 s))) + (if connected7 e then 1 else 0)"
  shows "mp_inv_at l s'"
proof -
  have ok: "mp_ok (clients (wd7 s)) (unat (curMaxClients (wd7 s)))" "clients_spinlock (clients (wd7 s)) = l"
    using inv by (auto simp: mp_inv_at_def)
  have "mp_ok ((clients (wd7 s))\<lparr>client_list := (client_list (clients (wd7 s)))[i := e], aid_mask := am, num_connected := n\<rparr>)
      (unat (curMaxClients (wd7 s)))"
    by (rule mp_ok_update [OF ok(1) i e])
       (use am new num in \<open>simp_all add: client7_def\<close>)
  then show ?thesis using set ok(2) by (simp add: table_set_def mp_inv_at_def)
qed

lemma table_set_client7:
  assumes "mp_inv_at l s" "table_set i e am n s s'" "i < 15"
  shows "client7 s' j = (if j = i then e else client7 s j)"
  using assms by (simp add: table_set_def client7_def mp_inv_at_def mp_ok_def nth_list_update)

lemma num_bound: "mp_inv_at l s \<Longrightarrow> unat (num_connected (clients (wd7 s))) \<le> 15"
  using length_filter_le [of connected7 "client_list (clients (wd7 s))"] by (simp add: mp_inv_at_def mp_ok_def)

lemma num_positive:
  assumes "mp_inv_at l s" "i < 15" "connected7 (client7 s i)"
  shows "0 < unat (num_connected (clients (wd7 s)))"
proof -
  have "client7 s i \<in> set (filter connected7 (client_list (clients (wd7 s))))"
    using assms by (auto simp: client7_def mp_inv_at_def mp_ok_def)
  then have "filter connected7 (client_list (clients (wd7 s))) \<noteq> []" by (metis empty_iff list.set(1))
  then show ?thesis using assms(1) by (simp add: mp_inv_at_def mp_ok_def)
qed

lemma unat_num_minus:
  assumes "mp_inv_at l s" "i < 15" "connected7 (client7 s i)"
  shows "unat (num_connected (clients (wd7 s)) - 1) + 1 = unat (num_connected (clients (wd7 s)))"
proof -
  have "num_connected (clients (wd7 s)) \<noteq> 0" using num_positive [OF assms] by auto
  then show ?thesis using num_positive [OF assms] by (simp add: unat_minus_one)
qed

lemma unat_num_plus: "mp_inv_at l s \<Longrightarrow> unat (num_connected (clients (wd7 s)) + 1) = unat (num_connected (clients (wd7 s))) + 1"
  using num_bound [of l s] by (simp add: unat_word_ariths)

lemma client_entry_bits:
  assumes "mp_inv_at l s" "i < 15"
  shows "unat (association_id (client7 s i)) \<in> {0, i + 1}"
    "bit (aid_mask (clients (wd7 s))) (i + 1) \<longleftrightarrow> client_state (client7 s i) = WIFI_CLIENT_ASSOCIATED"
    "client_state (client7 s i) = WIFI_CLIENT_ASSOCIATED \<longrightarrow> unat (association_id (client7 s i)) = i + 1"
    "length (macaddr (client7 s i)) = 6"
  using entry_client7 [OF assms] by (auto simp: entry_ok_def)

lemma mac_unique:
  assumes "mp_inv_at l s" "i < 15" "j < 15" "connected7 (client7 s i)" "connected7 (client7 s j)" "i \<noteq> j"
  shows "macaddr (client7 s j) \<noteq> macaddr (client7 s i)"
  using assms by (auto simp: mp_inv_at_def mp_ok_def client7_def)

text \<open>A client leaves the associated state or the table: its identifier is taken out of the mask.\<close>

lemma leave_inv:
  assumes inv: "mp_inv_at l s" and i: "i < 15" "i < unat (curMaxClients (wd7 s))" "connected7 (client7 s i)"
    and st: "st \<noteq> WIFI_CLIENT_ASSOCIATED"
    and aid: "aid = unat (association_id (client7 s i)) \<or> aid = i + 1"
    and set: "table_set i ((client7 s i)\<lparr>client_state := st\<rparr>) (aid_mask (clients (wd7 s)) AND NOT (BIT aid)) n s s'"
    and n: "n = (if st = WIFI_CLIENT_DISCONNECTED then num_connected (clients (wd7 s)) - 1 else num_connected (clients (wd7 s)))"
  shows "mp_inv_at l s'"
proof (rule table_set_inv [OF inv i(1) set])
  note b = client_entry_bits [OF inv i(1)]
  show "entry_ok (unat (curMaxClients (wd7 s))) (aid_mask (clients (wd7 s)) AND NOT (BIT aid)) i ((client7 s i)\<lparr>client_state := st\<rparr>)"
    using b aid st i(2) by (auto simp: entry_ok_def bit_clear_BIT connected7_def)
  show "bit (aid_mask (clients (wd7 s)) AND NOT (BIT aid)) (j + 1) = bit (aid_mask (clients (wd7 s))) (j + 1)"
    if "j < 15" "j \<noteq> i" for j
    using b(1) aid that by (auto simp: bit_clear_BIT)
  show "macaddr (client7 s j) \<noteq> macaddr ((client7 s i)\<lparr>client_state := st\<rparr>)"
    if "j < 15" "j \<noteq> i" "connected7 (client7 s j)" for j
    using mac_unique [OF inv i(1) that(1) i(3) that(3)] that(2) by simp
  show "unat n + (if connected7 (client7 s i) then 1 else 0) =
      unat (num_connected (clients (wd7 s))) + (if connected7 ((client7 s i)\<lparr>client_state := st\<rparr>) then 1 else 0)"
    using i(3) unat_num_minus [OF inv i(1,3)] n by (auto simp: connected7_def)
qed

lemma ResetClients_inv:
  assumes "clients_spinlock (clients (wd7 s)) = 0" "unat (curMaxClients (wd7 s)) \<le> 15"
  shows "\<exists>s'. Wifi_MPHost_ResetClients s = Some s' \<and> mp_inv s' \<and> aid_mask (clients (wd7 s')) = BIT 0 \<and>
    curMaxClients (wd7 s') = curMaxClients (wd7 s) \<and> num_connected (clients (wd7 s')) = 0"
proof -
  have "entry_ok mx (BIT 0) i zero_client" if "mx \<le> 15" "i < 15" for mx i
    using that by (simp add: entry_ok_def connected7_def zero_client_def bit_BIT)
  then have "mp_inv s'" if "clients (wd7 s') = (clients (wd7 s))\<lparr>client_list := replicate 15 zero_client,
      num_connected := 0, aid_mask := BIT 0\<rparr>" "curMaxClients (wd7 s') = curMaxClients (wd7 s)" for s'
    using that assms by (auto simp: mp_inv_at_def mp_ok_def connected7_def zero_client_def)
  then show ?thesis using assms(1)
    by (auto simp: Wifi_MPHost_ResetClients_def lock_clients7_def unlock_clients7_def Let_def)
qed

lemma ClientAuthenticate_spec:
  assumes inv: "mp_inv s" and m: "length m = 6"
  shows "\<exists>r s'. Wifi_MPHost_ClientAuthenticate m s = Some (r, s') \<and> mp_inv s' \<and>
    (case r of
       None \<Rightarrow> clients (wd7 s') = clients (wd7 s)
     | Some i \<Rightarrow> i < unat (curMaxClients (wd7 s)) \<and> client7 s' i = (client7 s i)\<lparr>client_state := WIFI_CLIENT_AUTHENTICATED, macaddr := m\<rparr> \<and>
         (\<forall>j. j \<noteq> i \<longrightarrow> client7 s' j = client7 s j))"
proof (cases "reqFlags (wd7 s) AND WFLAG_REQ_ALLOWCLIENTS = 0")
  case True
  then show ?thesis using inv by (simp add: Wifi_MPHost_ClientAuthenticate_def)
next
  case allow: False
  note lk = lock_clients7_ok [OF inv]
  have sl: "clients_spinlock (clients (wd7 s)) = 0" using inv by (simp add: mp_inv_at_def)
  show ?thesis
  proof (cases "Wifi_MPHost_ClientGetByMacAddr m s")
    case (Some i)
    note g = get_by_mac_Some [OF inv m Some]
    let ?e = "(client7 s i)\<lparr>client_state := WIFI_CLIENT_AUTHENTICATED\<rparr>"
    have li: "i < length (client_list (clients (wd7 s)))" using inv g(1) by (simp add: mp_inv_at_def mp_ok_def)
    obtain s' where s': "Wifi_MPHost_ClientAuthenticate m s = Some (Some i, s')"
        "table_set i ?e (aid_mask (clients (wd7 s)) AND NOT (BIT (unat (association_id (client7 s i)))))
           (num_connected (clients (wd7 s))) s s'"
      using allow lk Some sl li
      by (auto simp: Wifi_MPHost_ClientAuthenticate_def table_defs table_set_def Let_def)
    have "mp_inv s'" by (rule leave_inv [OF inv g(1-3) _ _ s'(2)]) simp_all
    moreover have "?e = (client7 s i)\<lparr>client_state := WIFI_CLIENT_AUTHENTICATED, macaddr := m\<rparr>" using g(4) by simp
    ultimately show ?thesis using s'(1) table_set_client7 [OF inv s'(2) g(1)] g(2) by simp
  next
    case None
    show ?thesis
    proof (cases "find_free 0 (used_clients s)")
      case (Some i)
      have f: "i < length (used_clients s)" "\<not> connected7 (used_clients s ! i)" using find_free_Some [OF Some] by auto
      then have i: "i < 15" "i < unat (curMaxClients (wd7 s))" "\<not> connected7 (client7 s i)"
        using used_clients_nth [OF inv f(1)] by auto
      let ?e = "(client7 s i)\<lparr>client_state := WIFI_CLIENT_AUTHENTICATED, macaddr := m\<rparr>"
      obtain s' where s': "Wifi_MPHost_ClientAuthenticate m s = Some (Some i, s')"
          "table_set i ?e (aid_mask (clients (wd7 s))) (num_connected (clients (wd7 s)) + 1) s s'"
        using allow lk None Some sl m
        by (auto simp: Wifi_MPHost_ClientAuthenticate_def table_defs table_set_def Let_def Wifi_CopyMacAddr_def)
      have "mp_inv s'"
        by (rule table_set_inv [OF inv i(1) s'(2)])
          (use client_entry_bits [OF inv i(1)] i m get_by_mac_None [OF inv m None] unat_num_plus [OF inv] in
            \<open>auto simp: entry_ok_def connected7_def\<close>)
      then show ?thesis using s'(1) table_set_client7 [OF inv s'(2) i(1)] i(2) by simp
    next
      case None': None
      then show ?thesis using allow lk None sl inv
        by (auto simp: Wifi_MPHost_ClientAuthenticate_def unlock_clients7_def mp_inv_at_def mp_ok_def)
    qed
  qed
qed

lemma ClientAssociate_spec:
  assumes inv: "mp_inv s" and m: "length m = 6"
  shows "\<exists>r s'. Wifi_MPHost_ClientAssociate m s = Some (r, s') \<and> mp_inv s' \<and>
    (case r of
       None \<Rightarrow> clients (wd7 s') = clients (wd7 s)
     | Some aid \<Rightarrow> \<exists>i. unat aid = i + 1 \<and> i < unat (curMaxClients (wd7 s)) \<and> macaddr (client7 s i) = m \<and>
         connected7 (client7 s i) \<and>
         client7 s' i = (client7 s i)\<lparr>association_id := aid, client_state := WIFI_CLIENT_ASSOCIATED\<rparr> \<and>
         (\<forall>j. j \<noteq> i \<longrightarrow> client7 s' j = client7 s j))"
proof (cases "reqFlags (wd7 s) AND WFLAG_REQ_ALLOWCLIENTS = 0")
  case True
  then show ?thesis using inv by (simp add: Wifi_MPHost_ClientAssociate_def)
next
  case allow: False
  note lk = lock_clients7_ok [OF inv]
  have sl: "clients_spinlock (clients (wd7 s)) = 0" using inv by (simp add: mp_inv_at_def)
  show ?thesis
  proof (cases "Wifi_MPHost_ClientGetByMacAddr m s")
    case None
    then show ?thesis using allow lk sl inv
      by (auto simp: Wifi_MPHost_ClientAssociate_def unlock_clients7_def mp_inv_at_def mp_ok_def)
  next
    case (Some i)
    note g = get_by_mac_Some [OF inv m Some] and b = client_entry_bits [OF inv get_by_mac_Some(1) [OF inv m Some]]
    show ?thesis
    proof (cases "client_state (client7 s i) = WIFI_CLIENT_ASSOCIATED")
      case True
      let ?s' = "unlock_clients7 (clients_upd7 (\<lambda>c. c\<lparr>clients_spinlock := SPINLOCK_OWNER_ARM7\<rparr>) s)"
      have "Wifi_MPHost_ClientAssociate m s = Some (Some (association_id (client7 s i)), ?s')"
        using allow lk Some True by (simp add: Wifi_MPHost_ClientAssociate_def)
      moreover have same: "clients (wd7 ?s') = clients (wd7 s)" "curMaxClients (wd7 ?s') = curMaxClients (wd7 s)"
        using sl by (auto simp: unlock_clients7_def)
      then have "client7 ?s' = client7 s" "mp_inv ?s'" using inv by (auto simp: client7_def mp_inv_at_def)
      moreover have "(client7 s i)\<lparr>association_id := association_id (client7 s i), client_state := WIFI_CLIENT_ASSOCIATED\<rparr> = client7 s i"
        using True by simp
      ultimately show ?thesis using g b(3) True by auto
    next
      case False
      then have auth: "client_state (client7 s i) = WIFI_CLIENT_AUTHENTICATED"
        using g(3) by (cases "client_state (client7 s i)") (auto simp: connected7_def)
      let ?aid = "of_nat (i + 1) :: u16"
      let ?e = "(client7 s i)\<lparr>association_id := ?aid, client_state := WIFI_CLIENT_ASSOCIATED\<rparr>"
      have ua: "unat ?aid = i + 1" using g(1) by (simp add: unat_of_nat take_bit_nat_eq_self del: of_nat_Suc)
      have li: "i < length (client_list (clients (wd7 s)))" using inv g(1) by (simp add: mp_inv_at_def mp_ok_def)
      obtain s' where s': "Wifi_MPHost_ClientAssociate m s = Some (Some ?aid, s')"
          "table_set i ?e (aid_mask (clients (wd7 s)) OR BIT (unat ?aid)) (num_connected (clients (wd7 s))) s s'"
        using allow lk Some sl li auth
        by (auto simp: Wifi_MPHost_ClientAssociate_def table_defs table_set_def Let_def simp del: of_nat_Suc of_nat_add)
      have "mp_inv s'"
        by (rule table_set_inv [OF inv g(1) s'(2)])
          (use b g ua mac_unique [OF inv g(1) _ g(3)] in
            \<open>auto simp: entry_ok_def connected7_def bit_or_BIT simp del: of_nat_Suc of_nat_add\<close>)
      then show ?thesis using s'(1) table_set_client7 [OF inv s'(2) g(1)] g ua by auto
    qed
  qed
qed

lemma ClientDisconnect_spec:
  assumes inv: "mp_inv s" and m: "length m = 6"
  shows "\<exists>ok s'. Wifi_MPHost_ClientDisconnect m s = Some (ok, s') \<and> mp_inv s' \<and>
    (\<forall>j<15. connected7 (client7 s' j) \<longrightarrow> macaddr (client7 s' j) \<noteq> m)"
proof -
  note lk = lock_clients7_ok [OF inv]
  have sl: "clients_spinlock (clients (wd7 s)) = 0" using inv by (simp add: mp_inv_at_def)
  show ?thesis
  proof (cases "Wifi_MPHost_ClientGetByMacAddr m s")
    case None
    let ?s' = "unlock_clients7 (clients_upd7 (\<lambda>c. c\<lparr>clients_spinlock := SPINLOCK_OWNER_ARM7\<rparr>) s)"
    have "clients (wd7 ?s') = clients (wd7 s)" "curMaxClients (wd7 ?s') = curMaxClients (wd7 s)"
      using sl by (auto simp: unlock_clients7_def)
    then have "mp_inv ?s'" "client7 ?s' = client7 s" using inv by (auto simp: mp_inv_at_def client7_def)
    then show ?thesis using lk None get_by_mac_None [OF inv m None] by (auto simp: Wifi_MPHost_ClientDisconnect_def)
  next
    case (Some i)
    note g = get_by_mac_Some [OF inv m Some]
    have li: "i < length (client_list (clients (wd7 s)))" using inv g(1) by (simp add: mp_inv_at_def mp_ok_def)
    obtain s' where s': "Wifi_MPHost_ClientDisconnect m s = Some (True, s')"
        "table_set i ((client7 s i)\<lparr>client_state := WIFI_CLIENT_DISCONNECTED\<rparr>)
           (aid_mask (clients (wd7 s)) AND NOT (BIT (unat (association_id (client7 s i)))))
           (num_connected (clients (wd7 s)) - 1) s s'"
      using lk Some sl li by (auto simp: Wifi_MPHost_ClientDisconnect_def table_defs table_set_def Let_def)
    have "mp_inv s'" by (rule leave_inv [OF inv g(1-3) _ _ s'(2)]) simp_all
    moreover have "macaddr (client7 s' j) \<noteq> m" if "j < 15" "connected7 (client7 s' j)" for j
      using that table_set_client7 [OF inv s'(2) g(1)] mac_unique [OF inv g(1) that(1) g(3)] g(4)
      by (auto simp: connected7_def split: if_splits)
    ultimately show ?thesis using s'(1) by blast
  qed
qed

text \<open>The two operations that kick clients send a frame first, which does not change the table.\<close>

definition kicked :: "nat \<Rightarrow> arm7 \<Rightarrow> arm7" where
  "kicked i s = clients_upd7 (\<lambda>c. c\<lparr>num_connected := num_connected c - 1\<rparr>)
     (aid_mask_clear (i + 1) (set_client7 i (client_state_update (\<lambda>_. WIFI_CLIENT_DISCONNECTED)) s))"

lemma kicked_inv:
  assumes inv: "mp_inv_at l s" and i: "i < unat (curMaxClients (wd7 s))" "connected7 (client7 s i)" and st: "sent7 s t"
  shows "mp_inv_at l (kicked i t)" "curMaxClients (wd7 (kicked i t)) = curMaxClients (wd7 s)"
    "client7 (kicked i t) = (client7 s)(i := (client7 s i)\<lparr>client_state := WIFI_CLIENT_DISCONNECTED\<rparr>)"
proof -
  have c: "clients (wd7 t) = clients (wd7 s)" "curMaxClients (wd7 t) = curMaxClients (wd7 s)"
    using st by (auto simp: sent7_def)
  have i15: "i < 15" using i(1) inv by (simp add: mp_inv_at_def mp_ok_def)
  then have li: "i < length (client_list (clients (wd7 s)))" using inv by (simp add: mp_inv_at_def mp_ok_def)
  have set: "table_set i ((client7 s i)\<lparr>client_state := WIFI_CLIENT_DISCONNECTED\<rparr>)
      (aid_mask (clients (wd7 s)) AND NOT (BIT (i + 1))) (num_connected (clients (wd7 s)) - 1) s (kicked i t)"
    using c by (simp add: kicked_def table_defs table_set_def)
  show "mp_inv_at l (kicked i t)" by (rule leave_inv [OF inv i15 i _ _ set]) simp_all
  show "curMaxClients (wd7 (kicked i t)) = curMaxClients (wd7 s)" using set by (simp add: table_set_def)
  show "client7 (kicked i t) = (client7 s)(i := (client7 s i)\<lparr>client_state := WIFI_CLIENT_DISCONNECTED\<rparr>)"
    using table_set_client7 [OF inv set i15] by auto
qed

lemma mp_inv_players_changed [simp]: "mp_inv_at l (players_changed s) = mp_inv_at l s"
  by (simp add: mp_inv_at_def)

lemma client7_players_changed [simp]: "client7 (players_changed s) = client7 s"
  by (simp add: client7_def fun_eq_iff)

lemma KickByAID_spec:
  assumes inv: "mp_inv s"
  shows "\<exists>s'. Wifi_MPHost_KickByAID aid s = Some s' \<and> mp_inv s' \<and>
    (1 \<le> aid \<and> aid \<le> unat (curMaxClients (wd7 s)) \<longrightarrow> \<not> connected7 (client7 s' (aid - 1)))"
proof (cases "aid = 0 \<or> unat (curMaxClients (wd7 s)) \<le> aid - 1 \<or> \<not> connected7 (client7 s (aid - 1))")
  case True
  then show ?thesis using inv by (auto simp: Wifi_MPHost_KickByAID_def Let_def connected7_def)
next
  case False
  then have i: "aid - 1 < unat (curMaxClients (wd7 s))" "connected7 (client7 s (aid - 1))" "aid = (aid - 1) + 1" by auto
  obtain ok t where t: "Wifi_MPHost_SendDeauthentication (macaddr (client7 s (aid - 1))) REASON_CANT_HANDLE_ALL_STATIONS s = Some (ok, t)"
      "sent7 s t"
    using mphost_senders_ok(2) by blast
  have "Wifi_MPHost_KickByAID aid s = Some (players_changed (kicked (aid - 1) t))"
    using False t(1) i(3) by (simp add: Wifi_MPHost_KickByAID_def kicked_def Let_def connected7_def)
  then show ?thesis using kicked_inv [OF inv i(1,2) t(2)] by (auto simp: connected7_def)
qed

lemma kick_not_associated_spec:
  assumes "mp_inv_at l s" "set is \<subseteq> {..<unat (curMaxClients (wd7 s))}"
  shows "\<exists>s'. kick_not_associated is s = Some s' \<and> mp_inv_at l s' \<and> curMaxClients (wd7 s') = curMaxClients (wd7 s) \<and>
    (\<forall>i. client7 s' i = (if i \<in> set is \<and> client_state (client7 s i) = WIFI_CLIENT_AUTHENTICATED
       then (client7 s i)\<lparr>client_state := WIFI_CLIENT_DISCONNECTED\<rparr> else client7 s i))"
  using assms
proof (induction "is" arbitrary: s)
  case (Cons i "is")
  show ?case
  proof (cases "client_state (client7 s i) = WIFI_CLIENT_AUTHENTICATED")
    case True
    obtain ok t where t: "Wifi_MPHost_SendDeauthentication (macaddr (client7 s i)) REASON_CANT_HANDLE_ALL_STATIONS s = Some (ok, t)"
        "sent7 s t"
      using mphost_senders_ok(2) by blast
    have i: "i < unat (curMaxClients (wd7 s))" "connected7 (client7 s i)"
      using Cons.prems(2) True by (auto simp: connected7_def)
    note k = kicked_inv [OF Cons.prems(1) i t(2)]
    have "kick_not_associated (i # is) s = kick_not_associated is (kicked i t)"
      using True t(1) by (simp add: kicked_def Let_def)
    moreover obtain s' where "kick_not_associated is (kicked i t) = Some s'" "mp_inv_at l s'"
        "curMaxClients (wd7 s') = curMaxClients (wd7 (kicked i t))"
        "\<forall>j. client7 s' j = (if j \<in> set is \<and> client_state (client7 (kicked i t) j) = WIFI_CLIENT_AUTHENTICATED
           then (client7 (kicked i t) j)\<lparr>client_state := WIFI_CLIENT_DISCONNECTED\<rparr> else client7 (kicked i t) j)"
      using Cons.IH [OF k(1)] Cons.prems(2) k(2) by auto
    ultimately show ?thesis using k True by (auto split: if_splits)
  next
    case False
    then show ?thesis using Cons.IH [OF Cons.prems(1)] Cons.prems(2) by auto
  qed
qed simp

lemma KickNotAssociatedClients_spec:
  assumes inv: "mp_inv s"
  shows "\<exists>s'. Wifi_MPHost_KickNotAssociatedClients s = Some s' \<and> mp_inv s' \<and>
    (\<forall>i<15. client_state (client7 s' i) = (if client_state (client7 s i) = WIFI_CLIENT_AUTHENTICATED
       then WIFI_CLIENT_DISCONNECTED else client_state (client7 s i)))"
proof -
  let ?t = "clients_upd7 (\<lambda>c. c\<lparr>clients_spinlock := SPINLOCK_OWNER_ARM7\<rparr>) s"
  have t: "mp_inv_at SPINLOCK_OWNER_ARM7 ?t" "client7 ?t = client7 s" "used_clients ?t = used_clients s"
    using inv by (auto simp: mp_inv_at_def mp_ok_def)
  have mx: "length (used_clients ?t) = unat (curMaxClients (wd7 s))" using length_used_clients [OF inv] t(3) by simp
  obtain s' where s': "kick_not_associated [0..<length (used_clients ?t)] ?t = Some s'"
      "mp_inv_at SPINLOCK_OWNER_ARM7 s'" "curMaxClients (wd7 s') = curMaxClients (wd7 s)"
      "\<And>i. client7 s' i = (if i < unat (curMaxClients (wd7 s)) \<and> client_state (client7 s i) = WIFI_CLIENT_AUTHENTICATED
         then (client7 s i)\<lparr>client_state := WIFI_CLIENT_DISCONNECTED\<rparr> else client7 s i)"
  proof -
    have "set [0..<length (used_clients ?t)] \<subseteq> {..<unat (curMaxClients (wd7 ?t))}" unfolding mx by auto
    from kick_not_associated_spec [OF t(1) this] show ?thesis
      using that unfolding t(2) mx by (auto simp del: get_by_mac_lock)
  qed
  let ?u = "unlock_clients7 (players_changed s')"
  have "Wifi_MPHost_KickNotAssociatedClients s = Some ?u"
    using lock_clients7_ok [OF inv] s'(1) by (simp add: Wifi_MPHost_KickNotAssociatedClients_def)
  moreover have "mp_inv ?u" "client7 ?u = client7 s'"
    using s'(2) by (auto simp: mp_inv_at_def mp_ok_def unlock_clients7_def client7_def)
  moreover have "i < unat (curMaxClients (wd7 s))"
    if "i < 15" "client_state (client7 s i) = WIFI_CLIENT_AUTHENTICATED" for i
    using entry_client7 [OF inv that(1)] that(2) by (auto simp: entry_ok_def connected7_def)
  ultimately show ?thesis using s'(4) by auto
qed

lemma ClientKickAll_spec:
  assumes "clients_spinlock (clients (wd7 s)) = 0" "unat (curMaxClients (wd7 s)) \<le> 15"
  shows "\<exists>s'. Wifi_MPHost_ClientKickAll s = Some s' \<and> mp_inv s' \<and> num_connected (clients (wd7 s')) = 0"
proof -
  obtain s1 where s1: "Wifi_MPHost_ResetClients s = Some s1" "mp_inv s1" "num_connected (clients (wd7 s1)) = 0"
    using ResetClients_inv [OF assms] by blast
  obtain ok s2 where s2: "Wifi_MPHost_SendDeauthentication wifi_broadcast_addr REASON_THIS_STATION_LEFT_DEAUTH s1 = Some (ok, s2)"
      "sent7 s1 s2"
    using mphost_senders_ok(2) by blast
  then show ?thesis using s1 mp_inv_sent7 [OF s2(2) s1(2)] by (auto simp: Wifi_MPHost_ClientKickAll_def sent7_def)
qed

section \<open>Reachable tables\<close>

text \<open>
  The states of the table during a host session: it starts with a reset, and then the functions of
  this file run in any order; other code of either processor may change everything but the table
  and the maximum number of clients.
\<close>

inductive mp_reach :: "arm7 \<Rightarrow> bool" where
  reset: "clients_spinlock (clients (wd7 s)) = 0 \<Longrightarrow> unat (curMaxClients (wd7 s)) \<le> WIFI_MAX_MULTIPLAYER_CLIENTS \<Longrightarrow>
    Wifi_MPHost_ResetClients s = Some s' \<Longrightarrow> mp_reach s'"
| authenticate: "mp_reach s \<Longrightarrow> length m = 6 \<Longrightarrow> Wifi_MPHost_ClientAuthenticate m s = Some (r, s') \<Longrightarrow> mp_reach s'"
| associate: "mp_reach s \<Longrightarrow> length m = 6 \<Longrightarrow> Wifi_MPHost_ClientAssociate m s = Some (a, s') \<Longrightarrow> mp_reach s'"
| disconnect: "mp_reach s \<Longrightarrow> length m = 6 \<Longrightarrow> Wifi_MPHost_ClientDisconnect m s = Some (ok, s') \<Longrightarrow> mp_reach s'"
| kick: "mp_reach s \<Longrightarrow> Wifi_MPHost_KickByAID aid s = Some s' \<Longrightarrow> mp_reach s'"
| kick_pending: "mp_reach s \<Longrightarrow> Wifi_MPHost_KickNotAssociatedClients s = Some s' \<Longrightarrow> mp_reach s'"
| kick_all: "mp_reach s \<Longrightarrow> Wifi_MPHost_ClientKickAll s = Some s' \<Longrightarrow> mp_reach s'"
| other: "mp_reach s \<Longrightarrow> clients (wd7 s') = clients (wd7 s) \<Longrightarrow> curMaxClients (wd7 s') = curMaxClients (wd7 s) \<Longrightarrow> mp_reach s'"

lemma mp_reach_inv: "mp_reach s \<Longrightarrow> mp_inv s"
proof (induction rule: mp_reach.induct)
  case (reset s s')
  then show ?case using ResetClients_inv [of s] by auto
next
  case (authenticate s m r s')
  then show ?case using ClientAuthenticate_spec [of s m] by auto
next
  case (associate s m a s')
  then show ?case using ClientAssociate_spec [of s m] by auto
next
  case (disconnect s m ok s')
  then show ?case using ClientDisconnect_spec [of s m] by auto
next
  case (kick s aid s')
  then show ?case using KickByAID_spec [of s aid] by auto
next
  case (kick_pending s s')
  then show ?case using KickNotAssociatedClients_spec [of s] by auto
next
  case (kick_all s s')
  then show ?case using ClientKickAll_spec [of s] by (auto simp: mp_inv_at_def mp_ok_def)
next
  case (other s s')
  then show ?case by (simp add: mp_inv_at_def)
qed

text \<open>C9: In every state a host session can reach, the counter of clients is the number of used entries of
  the table, no two used entries have the same address, only entries below the maximum are used, an
  associated client has the identifier of its place in the table (its index plus one), the mask of
  identifiers has exactly the bits of the associated clients, and the lock is free.\<close>

theorem mp_table_invariant: "mp_reach s \<Longrightarrow> mp_inv s"
  by (rule mp_reach_inv)

definition mp_reset_ex :: arm7 where
  "mp_reset_ex = wd7_upd (\<lambda>w. w\<lparr>curMaxClients := 2, reqFlags := WFLAG_REQ_ALLOWCLIENTS\<rparr>) arm7_zero"

lemma mp_reset_ex_ok: "\<exists>s. Wifi_MPHost_ResetClients mp_reset_ex = Some s \<and> mp_reach s \<and> mp_inv s"
proof -
  have "clients_spinlock (clients (wd7 mp_reset_ex)) = 0" "unat (curMaxClients (wd7 mp_reset_ex)) \<le> 15"
    by (simp_all add: mp_reset_ex_def wd7_upd_def arm7_zero_def zero_main_def zero_clients_def)
  then show ?thesis using ResetClients_inv [of mp_reset_ex] mp_reach.reset [of mp_reset_ex] by auto
qed

theorem mp_table_invariant_witness: "\<exists>s. Wifi_MPHost_ResetClients mp_reset_ex = Some s \<and> mp_inv s"
proof -
  obtain s where "Wifi_MPHost_ResetClients mp_reset_ex = Some s" "mp_reach s" using mp_reset_ex_ok by blast
  with mp_table_invariant [of s] show ?thesis by blast
qed

text \<open>Every function of the table returns from every state of a host session: the spinlock is always
  released again, so no call waits for ever and no assertion fails.\<close>

theorem mp_operations_return:
  assumes "mp_reach s" "length m = 6"
  shows "Wifi_MPHost_ClientAuthenticate m s \<noteq> None \<and> Wifi_MPHost_ClientAssociate m s \<noteq> None \<and>
    Wifi_MPHost_ClientDisconnect m s \<noteq> None \<and> Wifi_MPHost_KickByAID aid s \<noteq> None \<and>
    Wifi_MPHost_KickNotAssociatedClients s \<noteq> None \<and> Wifi_MPHost_ClientKickAll s \<noteq> None"
proof -
  note inv = mp_reach_inv [OF assms(1)]
  have "clients_spinlock (clients (wd7 s)) = 0" "unat (curMaxClients (wd7 s)) \<le> 15"
    using inv by (auto simp: mp_inv_at_def mp_ok_def)
  then show ?thesis
    using ClientAuthenticate_spec [OF inv assms(2)] ClientAssociate_spec [OF inv assms(2)]
      ClientDisconnect_spec [OF inv assms(2)] KickByAID_spec [OF inv, of aid] KickNotAssociatedClients_spec [OF inv]
      ClientKickAll_spec [of s]
    by auto
qed

theorem mp_operations_return_witness:
  "\<exists>s. Wifi_MPHost_ResetClients mp_reset_ex = Some s \<and> Wifi_MPHost_ClientAuthenticate wifi_cmd_mac s \<noteq> None"
proof -
  obtain s where s: "Wifi_MPHost_ResetClients mp_reset_ex = Some s" "mp_reach s" using mp_reset_ex_ok by blast
  have "length wifi_cmd_mac = 6" by (simp add: wifi_macs_bytes)
  with mp_operations_return [OF s(2), of wifi_cmd_mac 0] s(1) show ?thesis by blast
qed

text \<open>A successful association gives the client whose address is in the table the identifier of its
  entry, changes no other entry, and sets the bit of that identifier and no other bit of the mask.\<close>

theorem associate_gives_aid:
  assumes "mp_reach s" "length m = 6" "Wifi_MPHost_ClientAssociate m s = Some (Some aid, s')"
  shows "\<exists>i < unat (curMaxClients (wd7 s)). unat aid = i + 1 \<and> macaddr (client7 s i) = m \<and>
    client7 s' = (client7 s)(i := (client7 s i)\<lparr>association_id := aid, client_state := WIFI_CLIENT_ASSOCIATED\<rparr>) \<and>
    (\<forall>j<15. bit (aid_mask (clients (wd7 s'))) (j + 1) \<longleftrightarrow> j = i \<or> bit (aid_mask (clients (wd7 s))) (j + 1))"
proof -
  note inv = mp_reach_inv [OF assms(1)]
  obtain i where i: "unat aid = i + 1" "i < unat (curMaxClients (wd7 s))" "macaddr (client7 s i) = m"
      "client7 s' i = (client7 s i)\<lparr>association_id := aid, client_state := WIFI_CLIENT_ASSOCIATED\<rparr>"
      "\<And>j. j \<noteq> i \<Longrightarrow> client7 s' j = client7 s j" and inv': "mp_inv s'"
    using ClientAssociate_spec [OF inv assms(2)] assms(3) by auto
  have "bit (aid_mask (clients (wd7 s'))) (j + 1) \<longleftrightarrow> j = i \<or> bit (aid_mask (clients (wd7 s))) (j + 1)" if "j < 15" for j
    using client_entry_bits(2) [OF inv that] client_entry_bits(2) [OF inv' that] i(4) i(5) [of j] by (cases "j = i") auto
  moreover have "client7 s' = (client7 s)(i := (client7 s i)\<lparr>association_id := aid, client_state := WIFI_CLIENT_ASSOCIATED\<rparr>)"
    using i(4,5) by auto
  ultimately show ?thesis using i by blast
qed

text \<open>A client that authenticates twice before it has ever been associated makes the host clear bit 0 of
  the mask, the bit the reset sets for the host itself.\<close>

theorem reauthentication_clears_host_bit:
  assumes "mp_reach s" "length m = 6" "reqFlags (wd7 s) AND WFLAG_REQ_ALLOWCLIENTS \<noteq> 0"
    "Wifi_MPHost_ClientGetByMacAddr m s = Some i" "association_id (client7 s i) = 0"
  shows "\<exists>s'. Wifi_MPHost_ClientAuthenticate m s = Some (Some i, s') \<and> \<not> bit (aid_mask (clients (wd7 s'))) 0"
proof -
  note inv = mp_reach_inv [OF assms(1)]
  have "i < length (client_list (clients (wd7 s)))"
    using get_by_mac_Some(1) [OF inv assms(2,4)] inv by (simp add: mp_inv_at_def mp_ok_def)
  then show ?thesis
    using lock_clients7_ok [OF inv] assms(3-5)
    by (auto simp: Wifi_MPHost_ClientAuthenticate_def table_defs Let_def bit_clear_BIT)
qed

section \<open>A concrete session\<close>

definition mp_ex1 :: arm7 where
  "mp_ex1 = wd7_upd (\<lambda>w. w\<lparr>clients := zero_clients\<lparr>aid_mask := BIT 0, num_connected := 1,
     client_list := \<lparr>macaddr = wifi_cmd_mac, association_id = 0, client_state = WIFI_CLIENT_AUTHENTICATED\<rparr> # replicate 14 zero_client\<rparr>\<rparr>)
     mp_reset_ex"

lemma replicate_15: "replicate 15 x = x # replicate 14 x"
  by (simp add: numeral_eq_Suc)

lemma mp_ex1_reach: "mp_reach mp_ex1"
proof -
  obtain s0 where s0: "Wifi_MPHost_ResetClients mp_reset_ex = Some s0" "mp_reach s0" "mp_inv s0"
    using mp_reset_ex_ok by blast
  have r: "s0 = clients_upd7 (\<lambda>c. c\<lparr>client_list := replicate 15 zero_client, num_connected := 0, aid_mask := BIT 0\<rparr>) mp_reset_ex"
    using s0(1) by (auto simp: Wifi_MPHost_ResetClients_def lock_clients7_def unlock_clients7_def Let_def
      players_changed_def Wifi_SetBeaconCurrentPlayers_def mp_reset_ex_def clients_upd7_def wd7_upd_def arm7_zero_def
      zero_main_def zero_clients_def)
  have "Wifi_MPHost_ClientAuthenticate wifi_cmd_mac s0 = Some (Some 0, mp_ex1)"
    by (simp add: r Wifi_MPHost_ClientAuthenticate_def table_defs clients_upd7_def wd7_upd_def mp_reset_ex_def
      arm7_zero_def zero_main_def zero_clients_def zero_client_def mp_ex1_def players_changed_def
      Wifi_SetBeaconCurrentPlayers_def Wifi_CopyMacAddr_def wifi_macs_bytes Let_def replicate_15)
  from mp_reach.authenticate [OF s0(2) _ this] show ?thesis by (simp add: wifi_macs_bytes)
qed

theorem associate_gives_aid_witness:
  "\<exists>s'. Wifi_MPHost_ClientAssociate wifi_cmd_mac mp_ex1 = Some (Some 1, s') \<and> client_state (client7 s' 0) = WIFI_CLIENT_ASSOCIATED"
proof -
  obtain s' where s': "Wifi_MPHost_ClientAssociate wifi_cmd_mac mp_ex1 = Some (Some 1, s')"
    by (simp add: Wifi_MPHost_ClientAssociate_def table_defs clients_upd7_def wd7_upd_def mp_reset_ex_def
      arm7_zero_def zero_main_def zero_clients_def zero_client_def mp_ex1_def Wifi_CmpMacAddr_def Let_def)
  with associate_gives_aid [OF mp_ex1_reach _ s'] show ?thesis by (auto simp: wifi_macs_bytes)
qed

theorem reauthentication_clears_host_bit_witness:
  "\<exists>s'. Wifi_MPHost_ClientAuthenticate wifi_cmd_mac mp_ex1 = Some (Some 0, s') \<and> \<not> bit (aid_mask (clients (wd7 s'))) 0"
  by (rule reauthentication_clears_host_bit [OF mp_ex1_reach])
    (simp_all add: wifi_macs_bytes table_defs wd7_upd_def mp_reset_ex_def arm7_zero_def zero_main_def
      zero_clients_def zero_client_def mp_ex1_def Wifi_CmpMacAddr_def)

end
