(* ===== verification/Ieee_Process.thy ===== *)
theory Ieee_Process
  imports Ieee_Beacon Arm7_Mp
begin

text \<open>
  The processing of received management frames: \<^verbatim>\<open>Wifi_Process*\<close> and
  \<^verbatim>\<open>Wifi_MPHost_Process*\<close> of \<^verbatim>\<open>ieee_802_11/authentication.c\<close> and
  \<^verbatim>\<open>association.c\<close>, and the dispatcher of \<^verbatim>\<open>process.c\<close>. Frames are copied to
  local arrays as in the beacon analysis; \<open>None\<close> is a read outside such an array or a lock that
  is never released. The theory shows that frames of other networks do not touch the state of the
  connection, and that the two sides of a multiplayer connection understand each other: the request
  of the client enters it into the table of the host, and the answers of the host take the client
  to the associated state with the identifier that the host has given it.
\<close>

section \<open>Frames of a station\<close>

definition STATUS_UNSUPPORTED_CAPABILITIES :: u16 where [simp]: "STATUS_UNSUPPORTED_CAPABILITIES = 10"
definition REASON_THIS_STATION_LEFT_DISASSOC :: u16 where [simp]: "REASON_THIS_STATION_LEFT_DISASSOC = 8"

text \<open>The results of the senders are not looked at.\<close>

abbreviation ignore_result :: "(bool \<times> arm7) option \<Rightarrow> arm7 option" where
  "ignore_result \<equiv> map_option snd"

definition set_authlevel :: "WIFI_AUTHLEVEL \<Rightarrow> arm7 \<Rightarrow> arm7" where
  "set_authlevel l = wd7_upd (\<lambda>w. w\<lparr>authlevel := l\<rparr>)"

definition authenticated :: "arm7 \<Rightarrow> arm7 option" where
  "authenticated s =
     (if authlevel (wd7 s) = WIFI_AUTHLEVEL_DISCONNECTED
      then ignore_result (Wifi_SendAssocPacket
             (wd7_upd (\<lambda>w. w\<lparr>authlevel := WIFI_AUTHLEVEL_AUTHENTICATED, authctr := 0\<rparr>) s))
      else Some s)"

definition for_station :: "mem8 \<Rightarrow> arm7 \<Rightarrow> bool" where
  "for_station data s \<longleftrightarrow> Wifi_CmpMacAddr (read_bytes data HDR_MGT_DA 6) (MacAddr (wd7 s)) \<and>
     Wifi_CmpMacAddr (read_bytes data HDR_MGT_BSSID 6) (bssid (curAp (wd7 s)))"

definition open_auth :: "u16 \<Rightarrow> u16 \<Rightarrow> arm7 \<Rightarrow> arm7 option" where
  "open_auth seq status s =
     (if seq = 2 then
        if status = 0 then authenticated s
        else if status = STATUS_ASSOC_TOO_MANY_DEVICES then Some (set_authlevel WIFI_AUTHLEVEL_ERROR s)
        else ignore_result (Wifi_SendSharedKeyAuthPacket s)
      else Some s)"

definition shared_key_auth :: "mem8 \<Rightarrow> u16 \<Rightarrow> u16 \<Rightarrow> arm7 \<Rightarrow> arm7 option" where
  "shared_key_auth data seq status s =
     (if seq = 2 then
        if status = 0 then
          if data (HDR_MGT_MAC_SIZE + 6) = MGT_FIE_ID_CHALLENGE_TEXT
          then let n = unat (data (HDR_MGT_MAC_SIZE + 7))
               in ignore_result (Wifi_SendSharedKeyAuthPacket2 n (read_bytes data (HDR_MGT_MAC_SIZE + 8) n) s)
          else Some s
        else Some (set_authlevel WIFI_AUTHLEVEL_ERROR s)
      else if seq = 4 then
        if status = 0 then authenticated s else Some (set_authlevel WIFI_AUTHLEVEL_ERROR s)
      else Some s)"

definition Wifi_ProcessAuthentication :: "Wifi_RxHeader \<Rightarrow> nat \<Rightarrow> arm7 \<Rightarrow> arm7 option" where
  "Wifi_ProcessAuthentication packetheader macbase s =
     (let (data, s) = mgt_frame_read macbase (min 384 (unat (byteLength packetheader))) s
      in if \<not> for_station data s then Some s
         else let algo = read_u16 data HDR_MGT_MAC_SIZE;
                  seq = read_u16 data (HDR_MGT_MAC_SIZE + 2);
                  status = read_u16 data (HDR_MGT_MAC_SIZE + 4)
              in if algo = AUTH_ALGO_OPEN_SYSTEM then open_auth seq status s
                 else if algo = AUTH_ALGO_SHARED_KEY then shared_key_auth data seq status s
                 else Some s)"

definition sizeof_IeeeDeauthenticationFrame :: nat where [simp]: "sizeof_IeeeDeauthenticationFrame = 26"
definition sizeof_IeeeAuthenticationFrame :: nat where [simp]: "sizeof_IeeeAuthenticationFrame = 30"

definition Wifi_ProcessDeauthentication :: "Wifi_RxHeader \<Rightarrow> nat \<Rightarrow> arm7 \<Rightarrow> arm7 option" where
  "Wifi_ProcessDeauthentication packetheader macbase s =
     (if unat (byteLength packetheader) < sizeof_IeeeDeauthenticationFrame then Some s
      else let (frame, s) = mgt_frame_read macbase sizeof_IeeeDeauthenticationFrame s;
               da = read_bytes frame HDR_MGT_DA 6;
               reason_code = read_u16 frame HDR_MGT_MAC_SIZE
           in if \<not> (Wifi_CmpMacAddr da (MacAddr (wd7 s)) \<or> Wifi_CmpMacAddr da wifi_broadcast_addr) then Some s
              else if \<not> Wifi_CmpMacAddr (read_bytes frame HDR_MGT_BSSID 6) (bssid (curAp (wd7 s))) then Some s
              else map_option (Wifi_NTR_SetAssociationID 0)
                (if reason_code \<in> {REASON_THIS_STATION_LEFT_DEAUTH, REASON_THIS_STATION_LEFT_DISASSOC, REASON_CANT_HANDLE_ALL_STATIONS}
                 then Some (set_reg_mac W_BSSID [0, 0, 0, 0, 0, 0] (set_authlevel WIFI_AUTHLEVEL_ERROR s))
                 else ignore_result (Wifi_SendOpenSystemAuthPacket (set_authlevel WIFI_AUTHLEVEL_DISCONNECTED s))))"

text \<open>The search for the rate of 2 Mbit/s in the local array of 64 bytes.\<close>

fun has_2mbps :: "mem8 \<Rightarrow> nat \<Rightarrow> nat \<Rightarrow> bool option" where
  "has_2mbps data i 0 = Some False"
| "has_2mbps data i (Suc n) =
     do { v \<leftarrow> local_at 64 data i;
          if v AND RATE_SPEED_MASK = RATE_2_MBPS then Some True else has_2mbps data (i + 1) n }"

definition response_rate :: "mem8 \<Rightarrow> u16 option" where
  "response_rate data =
     (if data (HDR_MGT_MAC_SIZE + 6) = MGT_FIE_ID_SUPPORTED_RATES
      then map_option (\<lambda>b. if b then WIFI_TRANSFER_RATE_2MBPS else WIFI_TRANSFER_RATE_1MBPS)
             (has_2mbps data (HDR_MGT_MAC_SIZE + 8) (unat (data (HDR_MGT_MAC_SIZE + 7))))
      else Some WIFI_TRANSFER_RATE_1MBPS)"

definition Wifi_ProcessAssocResponse :: "Wifi_RxHeader \<Rightarrow> nat \<Rightarrow> arm7 \<Rightarrow> arm7 option" where
  "Wifi_ProcessAssocResponse packetheader macbase s =
     (let (data, s) = mgt_frame_read macbase (min 64 (unat (byteLength packetheader))) s
      in if \<not> for_station data s then Some s
         else if read_u16 data (HDR_MGT_MAC_SIZE + 2) = STATUS_SUCCESS then
           let s = Wifi_NTR_SetAssociationID (read_u16 data (HDR_MGT_MAC_SIZE + 4)) s
           in do { rate \<leftarrow> response_rate data;
                   let s = Wifi_NTR_SetupTransferOptions rate False s
                   in Some (if authlevel (wd7 s) = WIFI_AUTHLEVEL_AUTHENTICATED \<or> authlevel (wd7 s) = WIFI_AUTHLEVEL_DEASSOCIATED
                            then wd7_upd (\<lambda>w. w\<lparr>authlevel := WIFI_AUTHLEVEL_ASSOCIATED, authctr := 0\<rparr>) s
                            else s) }
         else if realRates (wd7 s)
         then ignore_result (Wifi_SendOpenSystemAuthPacket
                (wd7_upd (\<lambda>w. w\<lparr>realRates := False, authlevel := WIFI_AUTHLEVEL_DISCONNECTED\<rparr>) s))
         else Some (set_authlevel WIFI_AUTHLEVEL_ERROR s))"

section \<open>Frames of a multiplayer host\<close>

definition mp_open_auth :: "mac \<Rightarrow> u16 \<Rightarrow> u16 \<Rightarrow> arm7 \<Rightarrow> arm7 option" where
  "mp_open_auth client_mac seq status s =
     (if seq = 1 then
        if status = STATUS_SUCCESS then
          do { (index, s) \<leftarrow> Wifi_MPHost_ClientAuthenticate client_mac s;
               ignore_result (Wifi_MPHost_SendOpenSystemAuthPacket client_mac
                 (if index \<noteq> None then STATUS_SUCCESS else STATUS_ASSOC_TOO_MANY_DEVICES) s) }
        else ignore_result (Wifi_MPHost_SendOpenSystemAuthPacket client_mac STATUS_UNSPECIFIED s)
      else ignore_result (Wifi_MPHost_SendOpenSystemAuthPacket client_mac STATUS_AUTH_BAD_SEQ_NUMBER s))"

definition Wifi_MPHost_ProcessAuthentication :: "Wifi_RxHeader \<Rightarrow> nat \<Rightarrow> arm7 \<Rightarrow> arm7 option" where
  "Wifi_MPHost_ProcessAuthentication packetheader macbase s =
     (if unat (byteLength packetheader) < sizeof_IeeeAuthenticationFrame then Some s
      else let (frame, s) = mgt_frame_read macbase sizeof_IeeeAuthenticationFrame s;
               client_mac = read_bytes frame HDR_MGT_SA 6
           in if \<not> Wifi_CmpMacAddr (read_bytes frame HDR_MGT_DA 6) (MacAddr (wd7 s)) then Some s
              else if read_u16 frame HDR_MGT_MAC_SIZE = AUTH_ALGO_OPEN_SYSTEM
              then mp_open_auth client_mac (read_u16 frame (HDR_MGT_MAC_SIZE + 2)) (read_u16 frame (HDR_MGT_MAC_SIZE + 4)) s
              else ignore_result (Wifi_MPHost_SendOpenSystemAuthPacket client_mac STATUS_AUTH_BAD_ALGORITHM s))"

definition Wifi_MPHost_ProcessDeauthentication :: "Wifi_RxHeader \<Rightarrow> nat \<Rightarrow> arm7 \<Rightarrow> arm7 option" where
  "Wifi_MPHost_ProcessDeauthentication packetheader macbase s =
     (if unat (byteLength packetheader) < sizeof_IeeeDeauthenticationFrame then Some s
      else let (frame, s) = mgt_frame_read macbase sizeof_IeeeDeauthenticationFrame s
           in if \<not> Wifi_CmpMacAddr (read_bytes frame HDR_MGT_DA 6) (MacAddr (wd7 s)) then Some s
              else do { (_, s) \<leftarrow> Wifi_MPHost_ClientDisconnect (read_bytes frame HDR_MGT_SA 6) s;
                        Some (Wifi_NTR_SetAssociationID 0 s) })"

text \<open>
  The elements of a request, in a local array of 128 bytes. The number of rates is read from the
  byte after the length, which is already the first rate.
\<close>

fun rates_ok :: "mem8 \<Rightarrow> nat \<Rightarrow> nat \<Rightarrow> bool option" where
  "rates_ok data i 0 = Some False"
| "rates_ok data i (Suc n) =
     do { v \<leftarrow> local_at 128 data i;
          if v AND RATE_SPEED_MASK \<in> {RATE_1_MBPS, RATE_2_MBPS} then Some True else rates_ok data (i + 1) n }"

function request_elements :: "mem8 \<Rightarrow> nat \<Rightarrow> nat \<Rightarrow> bool option" where
  "request_elements data datalen i =
     (if i < datalen then
        do { type \<leftarrow> local_at 128 data i;
             seglen \<leftarrow> local_at 128 data (i + 1);
             ok \<leftarrow> (if type = MGT_FIE_ID_SUPPORTED_RATES
                   then do { num_rates \<leftarrow> local_at 128 data (i + 2); rates_ok data (i + 3) (unat num_rates) }
                   else Some True);
             if ok then request_elements data datalen (i + 2 + unat seglen) else Some False }
      else Some True)"
  by pat_completeness auto
termination by (relation "measure (\<lambda>(data, datalen, i). datalen - i)") auto

declare request_elements.simps [simp del]

definition mp_associate :: "mac \<Rightarrow> arm7 \<Rightarrow> arm7 option" where
  "mp_associate client_mac s =
     do { (aid, s) \<leftarrow> Wifi_MPHost_ClientAssociate client_mac s;
          ignore_result (case aid of
            None \<Rightarrow> Wifi_MPHost_SendAssocResponsePacket client_mac STATUS_ASSOC_DENIED 0 s
          | Some aid \<Rightarrow> Wifi_MPHost_SendAssocResponsePacket client_mac STATUS_SUCCESS aid s) }"

definition Wifi_MPHost_ProcessAssocRequest :: "Wifi_RxHeader \<Rightarrow> nat \<Rightarrow> arm7 \<Rightarrow> arm7 option" where
  "Wifi_MPHost_ProcessAssocRequest packetheader macbase s =
     (let datalen = min 128 (unat (byteLength packetheader));
          (data, s) = mgt_frame_read macbase datalen s;
          client_mac = read_bytes data HDR_MGT_SA 6
      in if \<not> Wifi_CmpMacAddr (read_bytes data HDR_MGT_DA 6) (MacAddr (wd7 s)) then Some s
         else do {
           s \<leftarrow> (if Wifi_MPHost_ClientGetByMacAddr client_mac s = None
                then ignore_result (Wifi_MPHost_SendAssocResponsePacket client_mac STATUS_ASSOC_DENIED 0 s)
                else Some s);
           if read_u16 data HDR_MGT_MAC_SIZE AND 0x00FF \<noteq> CAPS_ESS OR CAPS_SHORT_PREAMBLE
           then ignore_result (Wifi_MPHost_SendAssocResponsePacket client_mac STATUS_UNSUPPORTED_CAPABILITIES 0 s)
           else do { ok \<leftarrow> request_elements data datalen (HDR_TX_SIZE + HDR_MGT_MAC_SIZE + 4);
                     if \<not> ok then ignore_result (Wifi_MPHost_SendAssocResponsePacket client_mac STATUS_ASSOC_BAD_RATES 0 s)
                     else mp_associate client_mac s } })"

section \<open>Dispatch\<close>

definition rx_header :: "u16 list \<Rightarrow> Wifi_RxHeader" where
  "rx_header hs = \<lparr>rx_a = hs ! 0, rx_b = hs ! 1, rx_c = hs ! 2, rx_d = hs ! 3, byteLength = hs ! 4, rx_rssi = hs ! 5\<rparr>"

definition Wifi_ProcessReceivedFrame :: "nat \<Rightarrow> arm7 \<Rightarrow> (u32 \<times> arm7) option" where
  "Wifi_ProcessReceivedFrame macbase s =
     (let (hs, s) = Wifi_MACRead macbase 0 HDR_RX_SIZE s;
          packetheader = rx_header hs;
          type = Wifi_MACReadHWord macbase (HDR_RX_SIZE + 0) s AND FC_TYPE_SUBTYPE_MASK;
          host = (curMode (wd7 s) = WIFIMODE_ACCESSPOINT)
      in if type = TYPE_BEACON \<or> type = TYPE_PROBE_RESPONSE then
           map_option (Pair (if type = TYPE_PROBE_RESPONSE then WFLAG_PACKET_MGT else WFLAG_PACKET_BEACON))
             (Wifi_ProcessBeaconOrProbeResponse packetheader macbase s)
         else if type = TYPE_ASSOC_RESPONSE \<or> type = TYPE_REASSOC_RESPONSE then
           map_option (Pair WFLAG_PACKET_MGT) (Wifi_ProcessAssocResponse packetheader macbase s)
         else if type = TYPE_ASSOC_REQUEST \<or> type = TYPE_REASSOC_REQUEST then
           map_option (Pair WFLAG_PACKET_MGT)
             (if host then Wifi_MPHost_ProcessAssocRequest packetheader macbase s else Some s)
         else if type = TYPE_PROBE_REQUEST \<or> type = TYPE_ATIM \<or> type = TYPE_DISASSOCIATION then Some (WFLAG_PACKET_MGT, s)
         else if type = TYPE_AUTHENTICATION then
           map_option (Pair WFLAG_PACKET_MGT)
             (if host then Wifi_MPHost_ProcessAuthentication packetheader macbase s
              else Wifi_ProcessAuthentication packetheader macbase s)
         else if type = TYPE_DEAUTHENTICATION then
           map_option (Pair WFLAG_PACKET_MGT)
             (if host then Wifi_MPHost_ProcessDeauthentication packetheader macbase s
              else Wifi_ProcessDeauthentication packetheader macbase s)
         else if type \<in> {TYPE_POWERSAVE_POLL, TYPE_RTS, TYPE_CTS, TYPE_ACK, TYPE_CF_END, TYPE_CF_END_CF_ACK}
         then Some (WFLAG_PACKET_CTRL, s)
         else if type \<in> {TYPE_DATA, TYPE_DATA_CF_ACK, TYPE_DATA_CF_POLL, TYPE_DATA_CF_ACK_CF_POLL,
                         TYPE_NULL_FUNCTION, TYPE_CF_ACK, TYPE_CF_POLL, TYPE_CF_ACK_CF_POLL}
         then Some (WFLAG_PACKET_DATA, s)
         else Some (0, s))"

section \<open>Reading management frames\<close>

lemma mgt_header_as_data: "IEEE_MgtFrameHeader_bytes fc da sa bss = IEEE_DataFrameHeader_bytes fc 0 da sa bss 0"
  by (simp add: IEEE_MgtFrameHeader_bytes_def IEEE_DataFrameHeader_bytes_def)

lemma holds_at_mgt_header:
  assumes "holds_at m 0 (IEEE_MgtFrameHeader_bytes fc da sa bss @ body)" "length da = 6" "length sa = 6" "length bss = 6"
  shows "read_bytes m 4 6 = da" "read_bytes m 10 6 = sa" "read_bytes m 16 6 = bss" "holds_at m 24 body"
  using holds_at_data_header [OF assms(1) [unfolded mgt_header_as_data] assms(2-4)]
  by (simp_all add: addr_1_at_def addr_2_at_def addr_3_at_def)

lemma length_mgt_header [simp]:
  "length da = 6 \<Longrightarrow> length sa = 6 \<Longrightarrow> length bss = 6 \<Longrightarrow> length (IEEE_MgtFrameHeader_bytes fc da sa bss) = 24"
  by (simp add: IEEE_MgtFrameHeader_bytes_def Wifi_CopyMacAddr_def)

lemma holds_at_auth_body:
  assumes "holds_at m 24 (auth_body a n st @ rest)"
  shows "read_u16 m 24 = a" "read_u16 m 26 = n" "read_u16 m 28 = st"
  using assms by (auto simp: auth_body_def holds_at_append intro: holds_at_le16)

text \<open>The frames on the air, without the hardware header.\<close>

definition client_auth :: "Wifi_MainStruct \<Rightarrow> u8 list" where
  "client_auth c = IEEE_MgtFrameHeader_bytes TYPE_AUTHENTICATION (bssid (curAp c)) (MacAddr c) (bssid (curAp c)) @
     auth_body AUTH_ALGO_OPEN_SYSTEM 1 0"

definition host_auth :: "mac \<Rightarrow> u16 \<Rightarrow> Wifi_MainStruct \<Rightarrow> u8 list" where
  "host_auth m status w = IEEE_MgtFrameHeader_bytes TYPE_AUTHENTICATION m (MacAddr w) (MacAddr w) @
     auth_body AUTH_ALGO_OPEN_SYSTEM 2 status"

definition host_assoc :: "mac \<Rightarrow> u16 \<Rightarrow> u16 \<Rightarrow> arm7 \<Rightarrow> u8 list" where
  "host_assoc m status aid s = IEEE_MgtFrameHeader_bytes TYPE_ASSOC_RESPONSE m (MacAddr (wd7 s)) (MacAddr (wd7 s)) @
     le16 (caps_info s) @ le16 status @ le16 aid @ real_rates"

definition client_assoc :: "arm7 \<Rightarrow> u8 list" where
  "client_assoc c = IEEE_MgtFrameHeader_bytes TYPE_ASSOC_REQUEST (bssid (curAp (wd7 c))) (MacAddr (wd7 c)) (bssid (curAp (wd7 c))) @
     assoc_body c"

lemma frames_sent:
  "Wifi_SendOpenSystemAuthPacket c = send_frame (Wifi_TxHeader_bytes WIFI_TRANSFER_RATE_1MBPS
     (of_nat (length (client_auth (wd7 c)) + 4)) @ client_auth (wd7 c)) c"
  "Wifi_MPHost_SendOpenSystemAuthPacket m st s = send_frame (Wifi_TxHeader_bytes WIFI_TRANSFER_RATE_1MBPS
     (of_nat (length (host_auth m st (wd7 s)) + 4)) @ host_auth m st (wd7 s)) s"
  "Wifi_MPHost_SendAssocResponsePacket m st aid s = send_frame (Wifi_TxHeader_bytes WIFI_TRANSFER_RATE_1MBPS
     (of_nat (length (host_assoc m st aid s) + 4)) @ host_assoc m st aid s) s"
  by (simp_all add: Wifi_SendOpenSystemAuthPacket_def Wifi_GenMgtHeader_def client_auth_def mgt_frame_def
    Wifi_MPHost_SendOpenSystemAuthPacket_def Wifi_MPHost_GenMgtHeader_def host_auth_def
    Wifi_MPHost_SendAssocResponsePacket_def host_assoc_def Let_def)

section \<open>The host\<close>

lemma find_free_None_set: "find_free k cs = None \<Longrightarrow> c \<in> set cs \<Longrightarrow> connected7 c"
  by (induction cs arbitrary: k) (auto simp: connected7_def split: if_splits)

lemma used_clients_lock: "lock_clients7 s = Some t \<Longrightarrow> used_clients t = used_clients s"
  by (auto simp: lock_clients7_def used_clients_def clients_upd7_def)

lemma ClientAuthenticate_room:
  assumes "reqFlags (wd7 s) AND WFLAG_REQ_ALLOWCLIENTS \<noteq> 0" "\<exists>c \<in> set (used_clients s). \<not> connected7 c"
    and "Wifi_MPHost_ClientAuthenticate m s = Some (r, s')"
  shows "r \<noteq> None"
proof -
  obtain t where t: "lock_clients7 s = Some t"
    using assms(1,3) by (auto simp: Wifi_MPHost_ClientAuthenticate_def split: bind_splits)
  obtain k where k: "find_free 0 (used_clients t) = Some k"
    using find_free_None_set [of 0 "used_clients t"] assms(2) used_clients_lock [OF t] by (metis not_None_eq)
  have e: "Wifi_MPHost_ClientAuthenticate m s \<noteq> Some (None, s')"
    using assms(1) t k by (cases "Wifi_MPHost_ClientGetByMacAddr m t") (simp_all add: Wifi_MPHost_ClientAuthenticate_def Let_def)
  then show ?thesis using assms(3) by auto
qed

lemma set_reg_wd7: "wd7 (set_reg r v s) = wd7 s" by simp

lemma mp_inv_set_reg: "mp_inv_at l (set_reg r v s) = mp_inv_at l s"
  by (simp add: mp_inv_at_def)

lemma sent7_clients:
  assumes "sent7 s s'"
  shows "mp_inv_at l s' = mp_inv_at l s" "client7 s' = client7 s" "used_clients s' = used_clients s"
  using assms by (simp_all add: sent7_def mp_inv_at_def client7_def used_clients_def fun_eq_iff)

lemma used_client7: "i < length (used_clients s) \<Longrightarrow> used_clients s ! i = client7 s i"
  by (simp add: used_clients_def client7_def)

text \<open>C21: A host that lets clients in and has a free entry answers the authentication request of a client with
  success: the client is in an entry of the table as authenticated, and the table stays consistent.\<close>

theorem host_authenticates_client:
  assumes f: "received (client_auth c) h macbase s"
    and mac: "bssid (curAp c) = MacAddr (wd7 s)" "length (MacAddr (wd7 s)) = 6" "length (MacAddr c) = 6"
    and inv: "mp_inv s" and allow: "reqFlags (wd7 s) AND WFLAG_REQ_ALLOWCLIENTS \<noteq> 0"
    and room: "\<exists>e \<in> set (used_clients s). \<not> connected7 e"
  shows "\<exists>i t ok s'. Wifi_MPHost_ProcessAuthentication h macbase s = Some s' \<and>
    Wifi_MPHost_SendOpenSystemAuthPacket (MacAddr c) STATUS_SUCCESS t = Some (ok, s') \<and> mp_inv s' \<and>
    i < unat (curMaxClients (wd7 s)) \<and>
    client7 s' i = (client7 s i)\<lparr>client_state := WIFI_CLIENT_AUTHENTICATED, macaddr := MacAddr c\<rparr> \<and>
    (\<forall>j. j \<noteq> i \<longrightarrow> client7 s' j = client7 s j)"
proof -
  have len: "length (client_auth c) = 30" using mac by (simp add: client_auth_def)
  obtain data v where rd: "mgt_frame_read macbase 30 s = (data, set_reg W_RXBUF_RD_ADDR v s)"
      and hd: "holds_at data 0 (client_auth c)"
    using mgt_frame_read_holds [OF f, of 30] len by auto
  let ?t = "set_reg W_RXBUF_RD_ADDR v s"
  have lb: "length (bssid (curAp c)) = 6" using mac by simp
  note d = holds_at_mgt_header [OF hd [unfolded client_auth_def] lb mac(3) lb]
  note b = holds_at_auth_body [of data AUTH_ALGO_OPEN_SYSTEM 1 0 "[]", simplified, OF d(4) [simplified]]
  obtain x t where x: "Wifi_MPHost_ClientAuthenticate (MacAddr c) ?t = Some (x, t)" "mp_inv t"
    "case x of None \<Rightarrow> clients (wd7 t) = clients (wd7 ?t)
     | Some i \<Rightarrow> i < unat (curMaxClients (wd7 ?t)) \<and>
         client7 t i = (client7 ?t i)\<lparr>client_state := WIFI_CLIENT_AUTHENTICATED, macaddr := MacAddr c\<rparr> \<and>
         (\<forall>j. j \<noteq> i \<longrightarrow> client7 t j = client7 ?t j)"
    using ClientAuthenticate_spec [of ?t "MacAddr c"] inv mac(3) by (auto simp: mp_inv_set_reg)
  have c7: "client7 ?t = client7 s" "used_clients ?t = used_clients s"
    by (simp_all add: client7_def used_clients_def fun_eq_iff)
  have "x \<noteq> None" by (rule ClientAuthenticate_room [OF _ _ x(1)]) (use allow room c7 in auto)
  then obtain i where i: "x = Some i" by blast
  obtain ok s' where s': "Wifi_MPHost_SendOpenSystemAuthPacket (MacAddr c) STATUS_SUCCESS t = Some (ok, s')" "sent7 t s'"
    using mphost_senders_ok(1) by blast
  have "Wifi_MPHost_ProcessAuthentication h macbase s = Some s'"
    using f rd d b mac x(1) i s'(1)
    by (simp add: Wifi_MPHost_ProcessAuthentication_def received_def len mp_open_auth_def Wifi_CmpMacAddr_def)
  then show ?thesis using s' x(2,3) i sent7_clients [OF s'(2)] c7 by auto
qed

text \<open>
  The host looks for the elements of the request twelve bytes too far. With a name of printable
  characters the walk over the elements nevertheless ends without an objection.
\<close>

definition all_rates :: "u8 list" where
  "all_rates = [MGT_FIE_ID_SUPPORTED_RATES, 4, RATE_1_MBPS OR RATE_MANDATORY, RATE_2_MBPS OR RATE_OPTIONAL,
     RATE_5_5_MBPS OR RATE_OPTIONAL, RATE_11_MBPS OR RATE_OPTIONAL]"

lemma request_step:
  "\<lbrakk>i < datalen; i + 1 < 128; data i \<noteq> 1\<rbrakk> \<Longrightarrow>
   request_elements data datalen i = request_elements data datalen (i + 2 + unat (data (i + 1)))"
  by (subst request_elements.simps) (simp add: local_at_def)

lemma request_end: "datalen \<le> i \<Longrightarrow> request_elements data datalen i = Some True"
  by (subst request_elements.simps) simp

lemma request_last:
  "\<lbrakk>i + 1 < 128; data i \<noteq> 1; datalen \<le> i + 2 + unat (data (i + 1))\<rbrakk> \<Longrightarrow> request_elements data datalen i = Some True"
  by (cases "i < datalen") (simp_all add: request_step request_end)

lemma request_rates:
  "\<lbrakk>data i = 1; i + 3 < 128; data (i + 2) = 0x82; data (i + 3) = 4; datalen \<le> i + 2 + unat (data (i + 1))\<rbrakk> \<Longrightarrow>
   request_elements data datalen i = Some True"
proof (cases "i < datalen")
  case True
  assume a: "data i = 1" "i + 3 < 128" "data (i + 2) = 0x82" "data (i + 3) = 4" "datalen \<le> i + 2 + unat (data (i + 1))"
  have "unat (0x82 :: u8) = Suc 129" by simp
  then have "rates_ok data (i + 3) (unat (data (i + 2))) = Some True"
    using a(2-4) by (simp only: rates_ok.simps) (simp add: local_at_def)
  then show ?thesis using True a request_end [of datalen "i + 2 + unat (data (i + 1))" data]
    by (subst request_elements.simps) (simp add: local_at_def)
qed (simp add: request_end)

text \<open>The host starts at offset 40; the rates are at \<open>30 + n\<close> when the name has \<open>n\<close> characters.\<close>

lemma request_short:
  assumes n: "n \<le> 11" and name: "n = 11 \<Longrightarrow> data 40 \<noteq> 1"
    and r: "data (30 + n) = 1" "data (31 + n) \<in> {2, 4}" "data (32 + n) = 0x82" "data (33 + n) = 4"
    and more: "len = 4 \<and> unat (data (31 + n)) = 2 \<or> len = 6 \<and> unat (data (31 + n)) = 4 \<and> data (34 + n) = 11 \<and> data (35 + n) = 22"
  shows "request_elements data (30 + n + len) 40 = Some True"
proof -
  consider "n \<le> 4" | "n = 5" | "n = 6" | "n = 7" | "n = 8" | "n = 9" | "n = 10" | "n = 11" using n by linarith
  then show ?thesis
  proof cases
    case 1
    then show ?thesis by (intro request_end) (use more in auto)
  next
    case 2
    then show ?thesis using more request_end [of "30 + n + len" 40 data] request_last [of 40 data "30 + n + len"]
      by (cases "len = 4") auto
  next
    case 3
    then show ?thesis using more request_end [of "30 + n + len" 40 data] request_last [of 40 data "30 + n + len"]
      by (cases "len = 4") auto
  next
    case 4
    then show ?thesis using more r by (intro request_last) auto
  next
    case 5
    then show ?thesis using more r by (intro request_last) auto
  next
    case 6
    then show ?thesis using more r by (intro request_last) auto
  next
    case 7
    then show ?thesis using more r by (intro request_rates) auto
  next
    case 8
    then have "request_elements data (30 + n + len) 40 = request_elements data (30 + n + len) 43"
      using r name request_step [of 40 "30 + n + len" data] more by auto
    also have "\<dots> = Some True" using 8 r more by (intro request_last) auto
    finally show ?thesis .
  qed
qed

lemma request_accepted:
  assumes h: "holds_at data 30 (nm @ R)" and R: "R = real_rates \<or> R = all_rates" and n: "length nm \<le> 32"
    and printable: "\<forall>b \<in> set nm. 32 \<le> b"
  shows "request_elements data (30 + length nm + length R) 40 = Some True"
proof -
  have name: "32 \<le> data (30 + k)" if "k < length nm" for k
    using holds_at_nth [OF h, of k] that printable by (simp add: nth_append)
  have rate: "data (30 + j + length nm) = R ! j" if "j < length R" for j
    using holds_at_nth [OF h, of "length nm + j"] that by (simp add: nth_append ac_simps)
  have R6: "length R \<le> 6" using R by (auto simp: real_rates_def all_rates_def)
  show ?thesis
  proof (cases "12 \<le> length nm")
    case True
    then have c: "32 \<le> data 40" "32 \<le> data (40 + 1)" using name [of 10] name [of 11] by simp_all
    then have "data 40 \<noteq> 1" "32 \<le> unat (data (40 + 1))" by (auto simp: word_le_nat_alt)
    then show ?thesis using n R6 by (intro request_last) auto
  next
    case False
    then have "data 40 \<noteq> 1" if "length nm = 11" using name [of 10] that by (auto simp: word_le_nat_alt)
    then show ?thesis
      using R rate [of 0] rate [of 1] rate [of 2] rate [of 3] rate [of 4] rate [of 5] False
      by (intro request_short) (auto simp: real_rates_def all_rates_def)
  qed
qed

lemma ClientAssociate_known:
  assumes "reqFlags (wd7 s) AND WFLAG_REQ_ALLOWCLIENTS \<noteq> 0" "Wifi_MPHost_ClientGetByMacAddr m s \<noteq> None"
    and "Wifi_MPHost_ClientAssociate m s = Some (r, s')"
  shows "r \<noteq> None"
proof -
  obtain t where t: "lock_clients7 s = Some t"
    using assms(1,3) by (auto simp: Wifi_MPHost_ClientAssociate_def split: bind_splits)
  obtain k where k: "Wifi_MPHost_ClientGetByMacAddr m t = Some k"
    using assms(2) used_clients_lock [OF t] by (auto simp: Wifi_MPHost_ClientGetByMacAddr_def)
  then have "k < length (used_clients t) \<and> connected7 (used_clients t ! k)"
    using find_mac_Some [of m 0 "used_clients t" k] by (simp add: Wifi_MPHost_ClientGetByMacAddr_def)
  then have "client_state (client7 t k) \<noteq> WIFI_CLIENT_DISCONNECTED" by (metis used_client7 connected7_def)
  then have "Wifi_MPHost_ClientAssociate m s \<noteq> Some (None, s')"
    using assms(1) t k by (cases "client_state (client7 t k)") (simp_all add: Wifi_MPHost_ClientAssociate_def Let_def)
  then show ?thesis using assms(3) by auto
qed

text \<open>A name that a request can carry: at most 32 printable characters.\<close>

definition printable_name :: "Wifi_AccessPoint \<Rightarrow> bool" where
  "printable_name ap \<longleftrightarrow> length (ssid ap) = 33 \<and> ssid_len ap \<le> 32 \<and> (\<forall>b \<in> set (take (unat (ssid_len ap)) (ssid ap)). 32 \<le> b)"

lemma assoc_body_holds:
  assumes h: "holds_at data 24 (assoc_body c)" and p: "printable_name (curAp (wd7 c))"
  shows "read_u16 data 24 = caps_info c" "request_elements data (24 + length (assoc_body c)) 40 = Some True"
    "length (assoc_body c) \<le> 44"
proof -
  let ?nm = "take (unat (ssid_len (curAp (wd7 c)))) (ssid (curAp (wd7 c)))"
  let ?R = "if realRates (wd7 c) then real_rates else all_rates"
  have b: "assoc_body c = le16 (caps_info c) @ (le16 (regs c W_LISTENINT) @ [0, ssid_len (curAp (wd7 c))]) @ ?nm @ ?R"
    by (simp add: assoc_body_def all_rates_def)
  have n: "length ?nm \<le> 32" using p by (simp add: printable_name_def word_le_nat_alt)
  have l: "length (assoc_body c) = 6 + length ?nm + length ?R" by (simp add: b)
  have R: "?R = real_rates \<or> ?R = all_rates" by simp
  then have "length ?R \<le> 6" by (auto simp: real_rates_def all_rates_def)
  then show "length (assoc_body c) \<le> 44" using l n by linarith
  show "read_u16 data 24 = caps_info c"
    using h unfolding b holds_at_append [of _ _ "le16 (caps_info c)"] by (auto intro: holds_at_le16)
  have "holds_at data 30 (?nm @ ?R)"
    using h unfolding b holds_at_append [of _ _ "le16 (caps_info c)"]
      holds_at_append [of _ _ "le16 (regs c W_LISTENINT) @ [0, ssid_len (curAp (wd7 c))]"] by simp
  then have "request_elements data (30 + length ?nm + length ?R) 40 = Some True"
    by (rule request_accepted [OF _ R n]) (use p in \<open>simp add: printable_name_def\<close>)
  then show "request_elements data (24 + length (assoc_body c)) 40 = Some True" by (simp only: l add.assoc [symmetric]) simp
qed

text \<open>C22: A host that lets clients in gives a known client that asks for it an identifier, one more than the
  index of its entry, enters it as associated and sends it the identifier; the client's request is
  accepted whatever its name of up to 32 printable characters is.\<close>

theorem host_associates_client:
  assumes f: "received (client_assoc c) h macbase s"
    and mac: "bssid (curAp (wd7 c)) = MacAddr (wd7 s)" "length (MacAddr (wd7 s)) = 6" "length (MacAddr (wd7 c)) = 6"
    and name: "printable_name (curAp (wd7 c))" and sec: "security_type (curAp (wd7 c)) \<noteq> AP_SECURITY_WEP"
    and inv: "mp_inv s" and allow: "reqFlags (wd7 s) AND WFLAG_REQ_ALLOWCLIENTS \<noteq> 0"
    and known: "Wifi_MPHost_ClientGetByMacAddr (MacAddr (wd7 c)) s \<noteq> None"
  shows "\<exists>i aid t ok s'. Wifi_MPHost_ProcessAssocRequest h macbase s = Some s' \<and>
    Wifi_MPHost_SendAssocResponsePacket (MacAddr (wd7 c)) STATUS_SUCCESS aid t = Some (ok, s') \<and> mp_inv s' \<and>
    unat aid = i + 1 \<and> i < unat (curMaxClients (wd7 s)) \<and> macaddr (client7 s i) = MacAddr (wd7 c) \<and>
    client7 s' i = (client7 s i)\<lparr>association_id := aid, client_state := WIFI_CLIENT_ASSOCIATED\<rparr> \<and>
    (\<forall>j. j \<noteq> i \<longrightarrow> client7 s' j = client7 s j)"
proof -
  let ?m = "MacAddr (wd7 c)" and ?n = "length (client_assoc c)"
  have lb: "length (bssid (curAp (wd7 c))) = 6" using mac by simp
  obtain data v where rd: "mgt_frame_read macbase ?n s = (data, set_reg W_RXBUF_RD_ADDR v s)"
      and hd: "holds_at data 0 (client_assoc c)"
    using mgt_frame_read_holds [OF f, of ?n] by auto
  let ?t = "set_reg W_RXBUF_RD_ADDR v s"
  note d = holds_at_mgt_header [OF hd [unfolded client_assoc_def] lb mac(3) lb]
  note b = assoc_body_holds [OF d(4) name]
  have n: "?n = 24 + length (assoc_body c)" "?n \<le> 128" "min 128 (unat (byteLength h)) = ?n"
    using b(3) mac f by (simp_all add: client_assoc_def received_def)
  have caps: "caps_info c AND 0xFF = 0x21" using sec by (simp add: caps_info_def)
  have same: "client7 ?t = client7 s" "Wifi_MPHost_ClientGetByMacAddr ?m ?t = Wifi_MPHost_ClientGetByMacAddr ?m s"
    by (simp_all add: client7_def used_clients_def Wifi_MPHost_ClientGetByMacAddr_def fun_eq_iff)
  obtain x t where x: "Wifi_MPHost_ClientAssociate ?m ?t = Some (x, t)" "mp_inv t"
    "case x of None \<Rightarrow> clients (wd7 t) = clients (wd7 ?t)
     | Some aid \<Rightarrow> \<exists>i. unat aid = i + 1 \<and> i < unat (curMaxClients (wd7 ?t)) \<and> macaddr (client7 ?t i) = ?m \<and>
         connected7 (client7 ?t i) \<and>
         client7 t i = (client7 ?t i)\<lparr>association_id := aid, client_state := WIFI_CLIENT_ASSOCIATED\<rparr> \<and>
         (\<forall>j. j \<noteq> i \<longrightarrow> client7 t j = client7 ?t j)"
    using ClientAssociate_spec [of ?t ?m] inv mac(3) by (auto simp: mp_inv_set_reg)
  have "x \<noteq> None" by (rule ClientAssociate_known [OF _ _ x(1)]) (use allow known same in auto)
  then obtain aid where aid: "x = Some aid" by blast
  obtain ok s' where s': "Wifi_MPHost_SendAssocResponsePacket ?m STATUS_SUCCESS aid t = Some (ok, s')" "sent7 t s'"
    using mphost_senders_ok(3) by blast
  obtain k where k: "Wifi_MPHost_ClientGetByMacAddr ?m ?t = Some k" using known same(2) by auto
  have "Wifi_MPHost_ProcessAssocRequest h macbase s = Some s'"
    using rd d(1,2) b(1,2) mac x(1) aid s'(1) caps k
    unfolding Wifi_MPHost_ProcessAssocRequest_def Let_def n(3)
    by (simp add: n(1) Wifi_CmpMacAddr_def mp_associate_def)
  then show ?thesis using s' x(2,3) aid sent7_clients [OF s'(2)] same by auto
qed

section \<open>The client\<close>

lemma SendAssocPacket_ok:
  assumes "printable_name (curAp (wd7 c))"
  shows "\<exists>ok c'. Wifi_SendAssocPacket c = Some (ok, c') \<and> sent7 c c'"
proof -
  let ?hdr = "IEEE_MgtFrameHeader_bytes TYPE_ASSOC_REQUEST (bssid (curAp (wd7 c))) (MacAddr (wd7 c)) (bssid (curAp (wd7 c)))"
  let ?frame = "mgt_frame ?hdr (assoc_body c) 4"
  have "holds_at (write_bytes (\<lambda>_. 0) 24 (assoc_body c)) 24 (assoc_body c)" by (rule holds_at_write_bytes)
  then have "length (assoc_body c) \<le> 44" by (rule assoc_body_holds(3) [OF _ assms])
  then have le: "length ?frame \<le> 96"
    using length_IEEE_MgtFrameHeader_bytes [of TYPE_ASSOC_REQUEST "bssid (curAp (wd7 c))" "MacAddr (wd7 c)" "bssid (curAp (wd7 c))"]
    by simp
  moreover have "unat (ssid_len (curAp (wd7 c))) \<le> length (ssid (curAp (wd7 c)))"
    using assms by (simp add: printable_name_def word_le_nat_alt)
  ultimately have "Wifi_SendAssocPacket c = send_frame ?frame c"
    by (simp add: Wifi_SendAssocPacket_def Wifi_GenMgtHeader_def Let_def)
  then show ?thesis using send_frame_ok [of ?frame c] le by auto
qed

lemma for_station_from:
  assumes "read_bytes data 4 6 = MacAddr (wd7 c)" "read_bytes data 16 6 = bssid (curAp (wd7 c))"
  shows "for_station data (set_reg r v c)"
  using assms by (simp add: for_station_def Wifi_CmpMacAddr_def)

text \<open>The answer of the host to the authentication request decides what a client does that is not yet
  connected: on success it is authenticated and sends its association request, and when the host
  is full or closed it gives up with an error.\<close>

theorem client_authentication:
  assumes f: "received (host_auth (MacAddr (wd7 c)) status w) h macbase c"
    and mac: "MacAddr w = bssid (curAp (wd7 c))" "length (MacAddr w) = 6" "length (MacAddr (wd7 c)) = 6"
    and level: "authlevel (wd7 c) = WIFI_AUTHLEVEL_DISCONNECTED" and name: "printable_name (curAp (wd7 c))"
    and status: "status = STATUS_SUCCESS \<or> status = STATUS_ASSOC_TOO_MANY_DEVICES"
  shows "\<exists>c'. Wifi_ProcessAuthentication h macbase c = Some c' \<and> curAp (wd7 c') = curAp (wd7 c) \<and>
    (if status = STATUS_SUCCESS
     then authlevel (wd7 c') = WIFI_AUTHLEVEL_AUTHENTICATED \<and> authctr (wd7 c') = 0 \<and>
       (\<exists>t ok. wd7 t = (wd7 c)\<lparr>authlevel := WIFI_AUTHLEVEL_AUTHENTICATED, authctr := 0\<rparr> \<and> Wifi_SendAssocPacket t = Some (ok, c'))
     else authlevel (wd7 c') = WIFI_AUTHLEVEL_ERROR)"
proof -
  let ?f = "host_auth (MacAddr (wd7 c)) status w"
  have len: "length ?f = 30" using mac by (simp add: host_auth_def)
  obtain data v where rd: "mgt_frame_read macbase 30 c = (data, set_reg W_RXBUF_RD_ADDR v c)" and hd: "holds_at data 0 ?f"
    using mgt_frame_read_holds [OF f, of 30] len by auto
  note d = holds_at_mgt_header [OF hd [unfolded host_auth_def] mac(3,2,2)]
  note b = holds_at_auth_body [of data AUTH_ALGO_OPEN_SYSTEM 2 status "[]", simplified, OF d(4) [simplified]]
  have n: "min 384 (unat (byteLength h)) = 30" using f len by (simp add: received_def)
  let ?c = "set_reg W_RXBUF_RD_ADDR v c"
  let ?t = "wd7_upd (\<lambda>w. w\<lparr>authlevel := WIFI_AUTHLEVEL_AUTHENTICATED, authctr := 0\<rparr>) ?c"
  have st: "for_station data ?c" by (rule for_station_from) (use d mac in simp_all)
  have run: "Wifi_ProcessAuthentication h macbase c = open_auth 2 status ?c"
    unfolding Wifi_ProcessAuthentication_def n rd using st b by simp
  show ?thesis
  proof (cases "status = STATUS_SUCCESS")
    case True
    have "printable_name (curAp (wd7 ?t))" using name by simp
    then obtain ok c' where c': "Wifi_SendAssocPacket ?t = Some (ok, c')" "sent7 ?t c'" using SendAssocPacket_ok by blast
    then have "Wifi_ProcessAuthentication h macbase c = Some c'"
      using True level run by (simp add: open_auth_def authenticated_def)
    moreover have "wd7 ?t = (wd7 c)\<lparr>authlevel := WIFI_AUTHLEVEL_AUTHENTICATED, authctr := 0\<rparr>" by simp
    moreover have "authlevel (wd7 c') = WIFI_AUTHLEVEL_AUTHENTICATED \<and> authctr (wd7 c') = 0 \<and> curAp (wd7 c') = curAp (wd7 c)"
      using c'(2) by (simp add: sent7_def)
    ultimately show ?thesis unfolding True if_P [OF refl] using c'(1) by blast
  next
    case False
    then show ?thesis using status run by (simp add: open_auth_def set_authlevel_def)
  qed
qed

text \<open>C15: When the host has accepted the association, the client is associated: it has the identifier that the
  host gave it, in the hardware and for the frames of the ARM9, and uses 2 Mbit/s.\<close>

theorem client_association:
  assumes f: "received (host_assoc (MacAddr (wd7 c)) STATUS_SUCCESS aid s) h macbase c"
    and mac: "MacAddr (wd7 s) = bssid (curAp (wd7 c))" "length (MacAddr (wd7 s)) = 6" "length (MacAddr (wd7 c)) = 6"
    and level: "authlevel (wd7 c) = WIFI_AUTHLEVEL_AUTHENTICATED"
  shows "\<exists>c'. Wifi_ProcessAssocResponse h macbase c = Some c' \<and> authlevel (wd7 c') = WIFI_AUTHLEVEL_ASSOCIATED \<and>
    regs c' W_AID_FULL = aid \<and> regs c' W_AID_LOW = aid AND 0xF \<and>
    curClientAID (clients (wd7 c')) = ucast (aid AND 0xF) \<and> maxrate7 (wd7 c') = ucast WIFI_TRANSFER_RATE_2MBPS"
proof -
  let ?f = "host_assoc (MacAddr (wd7 c)) STATUS_SUCCESS aid s"
  have len: "length ?f = 34" using mac by (simp add: host_assoc_def real_rates_def)
  obtain data v where rd: "mgt_frame_read macbase 34 c = (data, set_reg W_RXBUF_RD_ADDR v c)" and hd: "holds_at data 0 ?f"
    using mgt_frame_read_holds [OF f, of 34] len by auto
  note d = holds_at_mgt_header [OF hd [unfolded host_assoc_def] mac(3,2,2)]
  have b: "read_u16 data 26 = STATUS_SUCCESS" "read_u16 data 28 = aid" "holds_at data 30 real_rates"
    using d(4) by (auto simp: holds_at_append intro: holds_at_le16)
  have r: "data 30 = 1" "data 31 = 2" "data 32 = 0x82" "data 33 = 4"
    using holds_at_nth [OF b(3), of 0] holds_at_nth [OF b(3), of 1] holds_at_nth [OF b(3), of 2] holds_at_nth [OF b(3), of 3]
    by (simp_all add: real_rates_def)
  have n: "min 64 (unat (byteLength h)) = 34" using f len by (simp add: received_def)
  let ?c = "set_reg W_RXBUF_RD_ADDR v c"
  have st: "for_station data ?c" by (rule for_station_from) (use d mac in simp_all)
  have "has_2mbps data 32 (Suc (Suc 0)) = Some True" using r by (simp add: local_at_def)
  then have "has_2mbps data 32 2 = Some True" by (simp only: numeral_2_eq_2)
  then have "response_rate data = Some WIFI_TRANSFER_RATE_2MBPS" using r by (simp add: response_rate_def)
  then show ?thesis
    unfolding Wifi_ProcessAssocResponse_def n rd using st b level
    by (simp add: Let_def Wifi_NTR_SetAssociationID_def Wifi_NTR_SetupTransferOptions_def)
qed

section \<open>Frames of other networks\<close>

lemma frame_bssid:
  assumes "holds_at data 0 (take n f)" "22 \<le> n" "22 \<le> length f"
  shows "read_bytes data 16 6 = take 6 (drop 16 f)"
proof (rule nth_equalityI)
  fix k assume "k < length (read_bytes data 16 6)"
  then show "read_bytes data 16 6 ! k = take 6 (drop 16 f) ! k"
    using holds_at_nth [OF assms(1), of "16 + k"] assms(2,3) by simp
qed (use assms in simp)

lemma read_other_network:
  assumes f: "received f h macbase s" and n: "22 \<le> n" "n \<le> length f"
    and other: "take 6 (drop 16 f) \<noteq> bssid (curAp (wd7 s))" "length (bssid (curAp (wd7 s))) = 6"
  shows "\<exists>data v. mgt_frame_read macbase n s = (data, set_reg W_RXBUF_RD_ADDR v s) \<and>
    \<not> Wifi_CmpMacAddr (read_bytes data 16 6) (bssid (curAp (wd7 s)))"
proof -
  obtain data v where "mgt_frame_read macbase n s = (data, set_reg W_RXBUF_RD_ADDR v s)" "holds_at data 0 (take n f)"
    using mgt_frame_read_holds [OF f n(2)] by blast
  moreover from this n have "read_bytes data 16 6 = take 6 (drop 16 f)" by (intro frame_bssid) auto
  ultimately show ?thesis using other by (auto simp: Wifi_CmpMacAddr_def)
qed

text \<open>Authentication, deauthentication and association frames of another network than the one the console is
  connected or connecting to have no effect, apart from the read position of the MAC.\<close>

theorem other_network_ignored:
  assumes f: "received f h macbase s" and len: "26 \<le> length f"
    and other: "take 6 (drop 16 f) \<noteq> bssid (curAp (wd7 s))" "length (bssid (curAp (wd7 s))) = 6"
  shows "(\<exists>v. Wifi_ProcessAuthentication h macbase s = Some (set_reg W_RXBUF_RD_ADDR v s)) \<and>
    (\<exists>v. Wifi_ProcessDeauthentication h macbase s = Some (set_reg W_RXBUF_RD_ADDR v s)) \<and>
    (\<exists>v. Wifi_ProcessAssocResponse h macbase s = Some (set_reg W_RXBUF_RD_ADDR v s))"
proof -
  have b: "unat (byteLength h) = length f" using f by (simp add: received_def)
  show ?thesis
    using read_other_network [OF f _ _ other, of "min 384 (length f)"] read_other_network [OF f _ _ other, of 26]
      read_other_network [OF f _ _ other, of "min 64 (length f)"] len
    by (auto simp: Wifi_ProcessAuthentication_def Wifi_ProcessDeauthentication_def Wifi_ProcessAssocResponse_def
        for_station_def b)
qed

section \<open>Examples\<close>

definition host_mac_ex :: mac where [simp]: "host_mac_ex = [0, 9, 0xBF, 1, 2, 3]"
definition client_mac_ex :: mac where [simp]: "client_mac_ex = [0, 9, 0xBF, 4, 5, 6]"

definition client_wd_ex :: Wifi_MainStruct where
  "client_wd_ex = zero_main\<lparr>MacAddr := client_mac_ex,
     curAp := zero_ap\<lparr>bssid := host_mac_ex, ssid := 65 # replicate 32 0, ssid_len := 1\<rparr>\<rparr>"

definition host_wd_ex :: Wifi_MainStruct where
  "host_wd_ex = zero_main\<lparr>MacAddr := host_mac_ex, reqFlags := WFLAG_REQ_ALLOWCLIENTS, curMaxClients := 3\<rparr>"

text \<open>The same host once it has authenticated the client.\<close>

definition host_wd_ex1 :: Wifi_MainStruct where
  "host_wd_ex1 = host_wd_ex\<lparr>clients := zero_clients\<lparr>num_connected := 1, 
     client_list := zero_client\<lparr>macaddr := client_mac_ex, client_state := WIFI_CLIENT_AUTHENTICATED\<rparr> # replicate 14 zero_client\<rparr>\<rparr>"

definition with_frame :: "u8 list \<Rightarrow> Wifi_MainStruct \<Rightarrow> arm7" where
  "with_frame f w = wd7_upd (\<lambda>_. w) (ring_with f)"

lemma with_frame_simps [simp]: "wd7 (with_frame f w) = w" "stack7 (with_frame f w) = (\<lambda>_. 0)"
  by (simp_all add: with_frame_def wd7_upd_def ring_with_def ring_ex_def set_reg_def arm7_zero_def)

lemma with_frame_received:
  "length f \<le> 0x1000 \<Longrightarrow> received f (rx_header_ex (length f)) 0xC00 (with_frame f w)"
  by (rule ring_with_received) (simp_all add: with_frame_def wd7_upd_def rx_header_ex_def unat_of_nat)

lemma mp_inv_host_ex: "mp_inv (with_frame f host_wd_ex)"
  by (simp add: mp_inv_at_def mp_ok_def host_wd_ex_def zero_main_def zero_clients_def entry_ok_def zero_client_def connected7_def)

theorem host_authenticates_client_witness:
  "\<exists>i s'. Wifi_MPHost_ProcessAuthentication (rx_header_ex 30) 0xC00 (with_frame (client_auth client_wd_ex) host_wd_ex) = Some s' \<and>
    client_state (client7 s' i) = WIFI_CLIENT_AUTHENTICATED \<and> macaddr (client7 s' i) = client_mac_ex"
proof -
  let ?f = "client_auth client_wd_ex" and ?s = "with_frame (client_auth client_wd_ex) host_wd_ex"
  have len: "length ?f = 30" by (simp add: client_auth_def client_wd_ex_def)
  have f: "received ?f (rx_header_ex 30) 0xC00 ?s" using with_frame_received [of ?f host_wd_ex] len by simp
  have "\<exists>e \<in> set (used_clients ?s). \<not> connected7 e"
    by (simp add: used_clients_def host_wd_ex_def zero_main_def zero_clients_def connected7_def zero_client_def)
  then obtain i t ok s' where "Wifi_MPHost_ProcessAuthentication (rx_header_ex 30) 0xC00 ?s = Some s'"
      "client7 s' i = (client7 ?s i)\<lparr>client_state := WIFI_CLIENT_AUTHENTICATED, macaddr := MacAddr client_wd_ex\<rparr>"
    using host_authenticates_client [OF f _ _ _ mp_inv_host_ex]
    by (auto simp: client_wd_ex_def host_wd_ex_def)
  then show ?thesis by (intro exI [of _ i] exI [of _ s']) (simp add: client_wd_ex_def)
qed

lemma mp_inv_host_ex1: "mp_inv (with_frame f host_wd_ex1)"
proof -
  have l: "client_list (clients host_wd_ex1) =
      zero_client\<lparr>macaddr := client_mac_ex, client_state := WIFI_CLIENT_AUTHENTICATED\<rparr> # replicate 14 zero_client"
    by (simp add: host_wd_ex1_def)
  have nth: "client_list (clients host_wd_ex1) ! i = (if i = 0
      then zero_client\<lparr>macaddr := client_mac_ex, client_state := WIFI_CLIENT_AUTHENTICATED\<rparr> else zero_client)" if "i < 15" for i
    using that by (cases i) (simp_all add: l)
  have z: "\<not> connected7 zero_client" by (simp add: connected7_def zero_client_def)
  have o: "aid_mask (clients host_wd_ex1) = 0" "unat (num_connected (clients host_wd_ex1)) = 1"
      "clients_spinlock (clients host_wd_ex1) = 0" "unat (curMaxClients host_wd_ex1) = 3"
    by (simp_all add: host_wd_ex1_def host_wd_ex_def zero_clients_def)
  have ent: "entry_ok 3 (aid_mask (clients host_wd_ex1)) i (client_list (clients host_wd_ex1) ! i)" if "i < 15" for i
    using nth [OF that] o(1) by (cases "i = 0") (simp_all add: entry_ok_def connected7_def zero_client_def)
  have con: "connected7 (client_list (clients host_wd_ex1) ! i) \<longleftrightarrow> i = 0" if "i < 15" for i
    using nth [OF that] z by (simp add: connected7_def)
  have cnt: "length (client_list (clients host_wd_ex1)) = 15" "length (filter connected7 (client_list (clients host_wd_ex1))) = 1"
    unfolding l using z by (simp_all add: connected7_def)
  have "mp_ok (clients host_wd_ex1) 3"
    unfolding mp_ok_def using ent con cnt o(2) by auto
  then show ?thesis using o by (simp add: mp_inv_at_def)
qed

lemma client_ex: "bssid (curAp client_wd_ex) = host_mac_ex" "MacAddr client_wd_ex = client_mac_ex"
  "printable_name (curAp client_wd_ex)" "security_type (curAp client_wd_ex) = AP_SECURITY_OPEN"
  "authlevel client_wd_ex = WIFI_AUTHLEVEL_DISCONNECTED" "MacAddr host_wd_ex1 = host_mac_ex" "MacAddr host_wd_ex = host_mac_ex"
  "reqFlags host_wd_ex1 = WFLAG_REQ_ALLOWCLIENTS"
  by (simp_all add: client_wd_ex_def printable_name_def zero_main_def zero_ap_def host_wd_ex1_def host_wd_ex_def)

theorem host_associates_client_witness:
  "\<exists>i s'. Wifi_MPHost_ProcessAssocRequest (rx_header_ex (length (client_assoc (with_frame [] client_wd_ex)))) 0xC00
     (with_frame (client_assoc (with_frame [] client_wd_ex)) host_wd_ex1) = Some s' \<and>
    client_state (client7 s' i) = WIFI_CLIENT_ASSOCIATED \<and> association_id (client7 s' i) = of_nat (i + 1)"
proof -
  let ?c = "with_frame [] client_wd_ex"
  let ?f = "client_assoc ?c" and ?s = "with_frame (client_assoc (with_frame [] client_wd_ex)) host_wd_ex1"
  have "holds_at (write_bytes (\<lambda>_. 0) 24 (assoc_body ?c)) 24 (assoc_body ?c)" by (rule holds_at_write_bytes)
  then have "length (assoc_body ?c) \<le> 44" by (rule assoc_body_holds(3)) (simp add: client_ex)
  then have le: "length ?f \<le> 0x1000" by (simp add: client_assoc_def client_ex)
  note f = with_frame_received [OF le, of host_wd_ex1]
  have "client_list (clients host_wd_ex1) = zero_client\<lparr>macaddr := client_mac_ex, client_state := WIFI_CLIENT_AUTHENTICATED\<rparr> # replicate 14 zero_client"
    by (simp add: host_wd_ex1_def)
  then have known: "Wifi_MPHost_ClientGetByMacAddr (MacAddr (wd7 ?c)) ?s = Some 0"
    by (simp add: Wifi_MPHost_ClientGetByMacAddr_def used_clients_def client_ex Wifi_CmpMacAddr_def host_wd_ex1_def host_wd_ex_def)
  obtain i aid t ok s' where r: "Wifi_MPHost_ProcessAssocRequest (rx_header_ex (length ?f)) 0xC00 ?s = Some s'" "unat aid = i + 1"
      "client7 s' i = (client7 ?s i)\<lparr>association_id := aid, client_state := WIFI_CLIENT_ASSOCIATED\<rparr>"
    using host_associates_client [OF f _ _ _ _ _ mp_inv_host_ex1] known by (auto simp: client_ex)
  have "aid = of_nat (unat aid)" by simp
  then have "aid = of_nat (i + 1)" by (simp only: r(2))
  then show ?thesis using r by (intro exI [of _ i] exI [of _ s']) simp
qed

theorem client_authentication_witness:
  "\<exists>c'. Wifi_ProcessAuthentication (rx_header_ex 30) 0xC00
     (with_frame (host_auth client_mac_ex STATUS_SUCCESS host_wd_ex) client_wd_ex) = Some c' \<and>
    authlevel (wd7 c') = WIFI_AUTHLEVEL_AUTHENTICATED"
proof -
  let ?f = "host_auth client_mac_ex STATUS_SUCCESS host_wd_ex"
  have len: "length ?f = 30" by (simp add: host_auth_def client_ex)
  have f: "received ?f (rx_header_ex 30) 0xC00 (with_frame ?f client_wd_ex)"
    using with_frame_received [of ?f client_wd_ex] len by simp
  show ?thesis
    using client_authentication [of "with_frame ?f client_wd_ex" STATUS_SUCCESS host_wd_ex "rx_header_ex 30" "0xC00"] f
    by (auto simp: client_ex)
qed

theorem client_association_witness:
  "\<exists>c'. Wifi_ProcessAssocResponse (rx_header_ex 34) 0xC00
     (with_frame (host_assoc client_mac_ex STATUS_SUCCESS 1 (with_frame [] host_wd_ex))
       (client_wd_ex\<lparr>authlevel := WIFI_AUTHLEVEL_AUTHENTICATED\<rparr>)) = Some c' \<and>
    authlevel (wd7 c') = WIFI_AUTHLEVEL_ASSOCIATED \<and> curClientAID (clients (wd7 c')) = 1"
proof -
  let ?s = "with_frame [] host_wd_ex" and ?w = "client_wd_ex\<lparr>authlevel := WIFI_AUTHLEVEL_AUTHENTICATED\<rparr>"
  let ?f = "host_assoc client_mac_ex STATUS_SUCCESS 1 ?s"
  have len: "length ?f = 34" by (simp add: host_assoc_def client_ex real_rates_def)
  have f: "received ?f (rx_header_ex 34) 0xC00 (with_frame ?f ?w)"
    using with_frame_received [of ?f ?w] len by simp
  show ?thesis
    using client_association [of "with_frame ?f ?w" 1 ?s "rx_header_ex 34" "0xC00"] f by (auto simp: client_ex)
qed

theorem other_network_ignored_witness:
  "\<exists>v. Wifi_ProcessDeauthentication (rx_header_ex 30) 0xC00
     (with_frame (host_auth client_mac_ex 0 client_wd_ex) client_wd_ex) =
    Some (set_reg W_RXBUF_RD_ADDR v (with_frame (host_auth client_mac_ex 0 client_wd_ex) client_wd_ex))"
proof -
  let ?f = "host_auth client_mac_ex 0 client_wd_ex"
  have len: "length ?f = 30" by (simp add: host_auth_def client_ex)
  have f: "received ?f (rx_header_ex 30) 0xC00 (with_frame ?f client_wd_ex)"
    using with_frame_received [of ?f client_wd_ex] len by simp
  have b: "take 6 (drop 16 ?f) \<noteq> bssid (curAp (wd7 (with_frame ?f client_wd_ex)))"
    by (simp add: host_auth_def IEEE_MgtFrameHeader_bytes_def Wifi_CopyMacAddr_def le16_def client_ex)
  show ?thesis using other_network_ignored [OF f _ b] len by (simp add: client_ex)
qed

end
