(* ===== verification/Arm9_Rx.thy ===== *)
theory Arm9_Rx
  imports Arm9_Tx
begin

text \<open>
  The ARM9 consumer of the RX circular buffer: \<^verbatim>\<open>arm9/wifi_arm9.c\<close> and the receive
  half of \<^verbatim>\<open>arm9/lwip/rx_tx.c\<close>. The packet handed to lwIP is rebuilt in place: an
  Ethernet header is written over the end of the wireless header inside the buffer.
\<close>

section \<open>Handing packets to lwIP\<close>

definition rx_mem :: "arm9 \<Rightarrow> mem8" where
  "rx_mem s = bufData (rxbuf (wd9 s))"

definition rx_mem_upd :: "mem8 \<Rightarrow> arm9 \<Rightarrow> arm9" where
  "rx_mem_upd m = wd9_upd (\<lambda>w. w\<lparr>rxbuf := (rxbuf w)\<lparr>bufData := m\<rparr>\<rparr>)"

definition llc_snap_ok :: "mem8 \<Rightarrow> nat \<Rightarrow> bool" where
  "llc_snap_ok m p \<longleftrightarrow> read_bytes m (p + 24) 6 = [0xAA, 0xAA, 0x03, 0, 0, 0]"

definition lwip_accepts :: "mem8 \<Rightarrow> nat \<Rightarrow> mac \<Rightarrow> bool" where
  "lwip_accepts m p own_mac \<longleftrightarrow>
     frame_control_at m p AND (FC_TO_DS OR FC_TYPE_SUBTYPE_MASK) = TYPE_DATA \<and>
     (Wifi_CmpMacAddr (addr_1_at m p) own_mac \<or> m (p + 4) AND 1 \<noteq> 0) \<and> llc_snap_ok m p"

definition ntr_eth_header :: "mem8 \<Rightarrow> nat \<Rightarrow> u8 list" where
  "ntr_eth_header m p =
     addr_1_at m p @
     (if frame_control_at m p AND FC_FROM_DS \<noteq> 0 then addr_3_at m p else addr_2_at m p) @
     read_bytes m (p + 30) 2"

definition Wifi_NTR_SendPacketToLwip :: "nat \<Rightarrow> u32 \<Rightarrow> arm9 \<Rightarrow> arm9" where
  "Wifi_NTR_SendPacketToLwip packet sz s =
     (let m = rx_mem s in
      if \<not> lwip_accepts m packet (MacAddr (wd9 s)) then s
      else let lwip_buffer = packet + 24 + 8 - 14;
               lwip_buffer_size = 14 + (sz - 24 - 8);
               m' = write_bytes m lwip_buffer (ntr_eth_header m packet)
           in log_event (LwipInput (read_bytes m' lwip_buffer (unat lwip_buffer_size))) (rx_mem_upd m' s))"

definition Wifi_TWL_SendPacketToLwip :: "nat \<Rightarrow> u32 \<Rightarrow> arm9 \<Rightarrow> arm9" where
  "Wifi_TWL_SendPacketToLwip packet sz s =
     (let m = rx_mem s;
          eth_hdr = read_bytes m (packet + 2) 6 @ read_bytes m (packet + 8) 6 @ read_bytes m (packet + 22) 2;
          lwip_buffer = packet + 24 - 14;
          lwip_buffer_size = sz - 24 + 14;
          m' = write_bytes m lwip_buffer eth_hdr
      in log_event (LwipInput (read_bytes m' lwip_buffer (unat lwip_buffer_size))) (rx_mem_upd m' s))"

definition Wifi_SendPacketToLwip :: "nat \<Rightarrow> u32 \<Rightarrow> arm9 \<Rightarrow> arm9" where
  "Wifi_SendPacketToLwip packet sz s =
     (if reqFlags (wd9 s) AND WFLAG_REQ_DSI_MODE \<noteq> 0 then Wifi_TWL_SendPacketToLwip packet sz s
      else Wifi_NTR_SendPacketToLwip packet sz s)"

section \<open>The update loops\<close>

definition Wifi_RawSetPacketHandler :: "bool \<Rightarrow> arm9 \<Rightarrow> arm9" where
  "Wifi_RawSetPacketHandler wphfunc s = s\<lparr>wifi_rawpackethandler := wphfunc\<rparr>"

definition to_lwip :: "nat \<Rightarrow> u32 \<Rightarrow> arm9 \<Rightarrow> arm9" where
  "to_lwip packet sz s =
     (if wifi_lwip_enabled s \<and> curLibraryMode (wd9 s) = DSWIFI_INTERNET \<and> wifi_netif_is_up s
      then Wifi_SendPacketToLwip packet sz s else s)"

definition to_handlers :: "nat \<Rightarrow> u32 \<Rightarrow> arm9 \<Rightarrow> arm9 option" where
  "to_handlers packet sz s =
     (if curLibraryMode (wd9 s) = DSWIFI_MULTIPLAYER_HOST then
        Wifi_MultiplayerHandlePacketFromClient (rx_mem s) packet sz s
      else if curLibraryMode (wd9 s) = DSWIFI_MULTIPLAYER_CLIENT then
        Some (Wifi_MultiplayerHandlePacketFromHost (rx_mem s) packet sz s)
      else Some s)"

definition to_raw :: "nat \<Rightarrow> u32 \<Rightarrow> arm9 \<Rightarrow> arm9" where
  "to_raw packet sz s =
     (if wifi_rawpackethandler s then log_event (RawHandler (read_bytes (rx_mem s) packet (unat sz))) s
      else s)"

definition ntr_dispatch :: "nat \<Rightarrow> u32 \<Rightarrow> arm9 \<Rightarrow> arm9 option" where
  "ntr_dispatch packet sz s = map_option (to_raw packet sz) (to_handlers packet sz (to_lwip packet sz s))"

definition rx_consumed :: "u32 \<Rightarrow> arm9 \<Rightarrow> arm9" where
  "rx_consumed sz = wd9_upd (\<lambda>w. stat_add WSTAT_TXDATABYTES sz (stat_add WSTAT_TXBYTES sz (stat_add WSTAT_TXPACKETS 1 w)))"

text \<open>
  One iteration per packet; the loop is left after the packet for which \<open>cnt++ > 20\<close> holds,
  so that a call handles at most 22 packets. The number of packets still allowed is the first
  argument.
\<close>

fun rx_loop :: "(nat \<Rightarrow> u32 \<Rightarrow> arm9 \<Rightarrow> arm9 option) \<Rightarrow> nat \<Rightarrow> arm9 \<Rightarrow> arm9 option" where
  "rx_loop dispatch 0 s = Some s"
| "rx_loop dispatch (Suc left) s =
     (case BufferNext (rxbuf (wd9 s)) of
        None \<Rightarrow> Some s
      | Some (read_idx, sz) \<Rightarrow>
          (case dispatch (unat (read_idx + 4)) sz s of
             None \<Rightarrow> None
           | Some s1 \<Rightarrow>
               (case BufferAdvance WIFI_RXBUFFER_SIZE read_idx sz (rxbuf (wd9 s1)) of
                  None \<Rightarrow> None
                | Some b \<Rightarrow> rx_loop dispatch left (rx_consumed sz (wd9_upd (\<lambda>w. w\<lparr>rxbuf := b\<rparr>) s1)))))"

definition rx_packets_per_update :: nat where [simp]: "rx_packets_per_update = 22"

definition Wifi_NTR_Update9 :: "arm9 \<Rightarrow> arm9 option" where
  "Wifi_NTR_Update9 s =
     (if bufRead (rxbuf (wd9 s)) AND 3 \<noteq> 0 then None else rx_loop ntr_dispatch rx_packets_per_update s)"

definition Wifi_TWL_Update9 :: "arm9 \<Rightarrow> arm9 option" where
  "Wifi_TWL_Update9 s =
     (if bufRead (rxbuf (wd9 s)) AND 3 \<noteq> 0 then None
      else rx_loop (\<lambda>packet sz s. Some (to_lwip packet sz s)) rx_packets_per_update s)"

definition Wifi_Update9 :: "arm9 \<Rightarrow> arm9 option" where
  "Wifi_Update9 s =
     (if \<not> WifiData_set s then Some s
      else if reqFlags (wd9 s) AND WFLAG_REQ_DSI_MODE \<noteq> 0 then Wifi_TWL_Update9 s
      else Wifi_NTR_Update9 s)"

section \<open>The loop consumes packets in order\<close>

text \<open>
  A dispatch is harmless when it leaves the buffer indices alone and writes only inside the packet;
  \<open>deliver\<close> is the list of events it adds for a packet with the given bytes.
\<close>

definition harmless :: "(nat \<Rightarrow> u32 \<Rightarrow> arm9 \<Rightarrow> arm9 option) \<Rightarrow> (arm9 \<Rightarrow> bool) \<Rightarrow> (u8 list \<Rightarrow> bool)
    \<Rightarrow> (u8 list \<Rightarrow> rx_event list) \<Rightarrow> bool" where
  "harmless dispatch P good deliver \<longleftrightarrow>
     (\<forall>s packet sz. P s \<longrightarrow> good (read_bytes (rx_mem s) packet (unat sz)) \<longrightarrow>
       (\<exists>s' m'. dispatch packet sz s = Some s' \<and>
         rxbuf (wd9 s') = (rxbuf (wd9 s))\<lparr>bufData := m'\<rparr> \<and>
         agree_outside packet (packet + unat sz) (rx_mem s) m' \<and>
         rx_events s' = rx_events s @ deliver (read_bytes (rx_mem s) packet (unat sz)) \<and>
         (\<forall>b. P (rx_consumed sz (wd9_upd (\<lambda>w. w\<lparr>rxbuf := b\<rparr>) s')))))"

lemma rx_consumed_simps [simp]:
  "rxbuf (wd9 (rx_consumed sz s)) = rxbuf (wd9 s)" "rx_events (rx_consumed sz s) = rx_events s"
  by (simp_all add: rx_consumed_def stat_add_def)

lemma rx_loop_run:
  assumes h: "harmless dispatch P good deliver"
  shows "rx_inv (rxbuf (wd9 s)) ps \<Longrightarrow> P s \<Longrightarrow> \<forall>p \<in> set ps. good (snd p) \<Longrightarrow>
    \<exists>s'. rx_loop dispatch n s = Some s' \<and> rx_inv (rxbuf (wd9 s')) (drop n ps) \<and> P s' \<and>
      rx_events s' = rx_events s @ concat (map (\<lambda>p. deliver (snd p)) (take n ps))"
proof (induction n arbitrary: s ps)
  case (Suc n)
  show ?case
  proof (cases ps)
    case Nil
    then have "BufferNext (rxbuf (wd9 s)) = None"
      using Suc.prems(1) ring_next_Nil by (auto simp: rx_inv_def)
    then show ?thesis using Nil Suc.prems by simp
  next
    case (Cons p ps')
    obtain tag bs where p: "p = (tag, bs)" by (cases p)
    have inv: "ring_inv (unat WIFI_RXBUFFER_SIZE) (\<lambda>t. unat t) (rxbuf (wd9 s)) ((tag, bs) # ps')"
      using Suc.prems(1) Cons p by (simp add: rx_inv_def)
    obtain idx where idx: "BufferNext (rxbuf (wd9 s)) = Some (idx, tag)" "length bs = unat tag"
        "read_bytes (rx_mem s) (unat (idx + 4)) (unat tag) = bs" "unat (idx + 4) = unat idx + 4"
      and step: "\<And>m'. agree_outside (unat idx + 4) (unat idx + 4 + align4 (length bs)) (rx_mem s) m' \<Longrightarrow>
        \<exists>ri. BufferAdvance WIFI_RXBUFFER_SIZE idx tag ((rxbuf (wd9 s))\<lparr>bufData := m'\<rparr>) =
            Some ((rxbuf (wd9 s))\<lparr>bufData := m', bufRead := ri\<rparr>) \<and>
          ring_inv (unat WIFI_RXBUFFER_SIZE) (\<lambda>t. unat t) ((rxbuf (wd9 s))\<lparr>bufData := m', bufRead := ri\<rparr>) ps'"
      using get_scribble [of WIFI_RXBUFFER_SIZE "\<lambda>t. t", OF inv] unfolding rx_mem_def by auto
    have "good (read_bytes (rx_mem s) (unat (idx + 4)) (unat tag))" using Suc.prems(3) Cons p idx(3) by simp
    with h Suc.prems(2) obtain s1 m' where s1: "dispatch (unat (idx + 4)) tag s = Some s1"
        "rxbuf (wd9 s1) = (rxbuf (wd9 s))\<lparr>bufData := m'\<rparr>"
        "agree_outside (unat (idx + 4)) (unat (idx + 4) + unat tag) (rx_mem s) m'"
        "rx_events s1 = rx_events s @ deliver bs"
        "\<And>b. P (rx_consumed tag (wd9_upd (\<lambda>w. w\<lparr>rxbuf := b\<rparr>) s1))"
      unfolding harmless_def idx(3) [symmetric] by blast
    have "agree_outside (unat idx + 4) (unat idx + 4 + align4 (length bs)) (rx_mem s) m'"
      using s1(3) idx(2,4) align4_bounds(1) [of "length bs"] by (intro agree_outside_mono [OF s1(3)]) simp_all
    from step [OF this] obtain ri where
        ri: "BufferAdvance WIFI_RXBUFFER_SIZE idx tag (rxbuf (wd9 s1)) = Some ((rxbuf (wd9 s1))\<lparr>bufRead := ri\<rparr>)"
        "rx_inv ((rxbuf (wd9 s1))\<lparr>bufRead := ri\<rparr>) ps'"
      using s1(2) by (auto simp: rx_inv_def)
    let ?s2 = "rx_consumed tag (wd9_upd (\<lambda>w. w\<lparr>rxbuf := (rxbuf (wd9 s1))\<lparr>bufRead := ri\<rparr>\<rparr>) s1)"
    have "rx_loop dispatch (Suc n) s = rx_loop dispatch n ?s2"
      using idx(1) s1(1) ri(1) by (simp del: WIFI_RXBUFFER_SIZE_def)
    moreover obtain s' where "rx_loop dispatch n ?s2 = Some s'" "rx_inv (rxbuf (wd9 s')) (drop n ps')" "P s'"
        "rx_events s' = rx_events ?s2 @ concat (map (\<lambda>p. deliver (snd p)) (take n ps'))"
      using Suc.IH [of ?s2 ps'] ri(2) s1(5) Suc.prems(3) Cons by auto
    ultimately show ?thesis using Cons p s1(4) by simp
  qed
qed auto

section \<open>Internet mode\<close>

text \<open>
  What reaches lwIP of the bytes of a wireless frame, in the terms of IEEE 802.11 and 802.2 alone: a frame of
  type data and subtype 0 (the upper six bits of the first byte) that does not go to a distribution system
  (bit 0 of the second byte), that is addressed to this console or to a group (bit 0 of the first byte of the
  address) and that starts with an LLC/SNAP header becomes an Ethernet frame. Its source is address 3 if the
  frame comes from a distribution system (bit 1 of the second byte), and address 2 otherwise.
\<close>

definition lwip_deliver :: "mac \<Rightarrow> u8 list \<Rightarrow> rx_event list" where
  "lwip_deliver own_mac f =
     (if f ! 0 AND 0xFC = 0x08 \<and> \<not> bit (f ! 1) 0 \<and>
         (take 6 (drop 4 f) = take 6 own_mac \<or> bit (f ! 4) 0) \<and>
         take 6 (drop 24 f) = [0xAA, 0xAA, 0x03, 0, 0, 0]
      then [LwipInput (take 6 (drop 4 f) @ take 6 (drop (if bit (f ! 1) 1 then 16 else 10) f) @
        take 2 (drop 30 f) @ drop 32 f)]
      else [])"

lemma hword_and: "hword a b AND hword c d = hword (a AND c) (b AND d)"
  by (rule bit_word_eqI) (auto simp: hword_def bit_simps dest: bit_imp_le_length)

lemma hword_inject: "hword a b = hword c d \<longleftrightarrow> a = c \<and> b = d"
proof
  assume e: "hword a b = hword c d"
  have lo: "ucast (hword x y) = x" and hi: "ucast (drop_bit 8 (hword x y)) = y" for x y :: u8
    by (rule bit_word_eqI; auto simp: hword_def bit_simps dest: bit_imp_le_length)+
  show "a = c \<and> b = d" using lo [of a b] lo [of c d] hi [of a b] hi [of c d] unfolding e by simp
qed simp

lemma data_to_station_bits:
  "frame_control_at m p AND (FC_TO_DS OR FC_TYPE_SUBTYPE_MASK) = TYPE_DATA \<longleftrightarrow>
    m p AND 0xFC = 0x08 \<and> \<not> bit (m (p + 1)) 0"
proof -
  have c: "FC_TO_DS OR FC_TYPE_SUBTYPE_MASK = hword 0xFC 1" "TYPE_DATA = hword 0x08 0" by (simp_all add: hword_def)
  have "m (p + 1) AND 1 = 0 \<longleftrightarrow> \<not> bit (m (p + 1)) 0" by (simp add: and_one_eq bit_0 even_iff_mod_2_eq_zero)
  then show ?thesis by (simp only: c frame_control_at_def read_u16_hword hword_and hword_inject)
qed

lemma from_ds_bit: "frame_control_at m p AND FC_FROM_DS \<noteq> 0 \<longleftrightarrow> bit (m (p + 1)) 1"
proof -
  have "FC_FROM_DS = push_bit 9 1" by simp
  then have "read_u16 m p AND FC_FROM_DS \<noteq> 0 \<longleftrightarrow> bit (read_u16 m p) 9"
    by (simp only: bit_iff_and_push_bit_not_eq_0)
  also have "\<dots> \<longleftrightarrow> bit (m (p + 1)) 1"
    by (auto simp: read_u16_def bit_simps dest: bit_imp_le_length)
  finally show ?thesis by (simp only: frame_control_at_def)
qed

lemma group_bit: "m AND 1 \<noteq> 0 \<longleftrightarrow> bit (m :: u8) 0"
  by (simp add: and_one_eq bit_0 even_iff_mod_2_eq_zero)

lemma take_drop_read: "i + k \<le> n \<Longrightarrow> take k (drop i (read_bytes m p n)) = read_bytes m (p + i) k"
  by (intro nth_equalityI) (simp_all add: add.assoc)

lemma lwip_deliver_read:
  assumes "32 \<le> n"
  shows "lwip_deliver own_mac (read_bytes m p n) =
    (if lwip_accepts m p own_mac then [LwipInput (ntr_eth_header m p @ drop 32 (read_bytes m p n))] else [])"
proof -
  let ?f = "read_bytes m p n"
  have b: "?f ! 0 = m p" "?f ! 1 = m (p + 1)" "?f ! 4 = m (p + 4)" using assms by simp_all
  have t: "take 6 (drop 4 ?f) = addr_1_at m p" "take 6 (drop 10 ?f) = addr_2_at m p" "take 6 (drop 16 ?f) = addr_3_at m p"
    "take 6 (drop 24 ?f) = read_bytes m (p + 24) 6" "take 2 (drop 30 ?f) = read_bytes m (p + 30) 2"
    using assms by (simp_all add: take_drop_read addr_1_at_def addr_2_at_def addr_3_at_def)
  have c: "Wifi_CmpMacAddr (addr_1_at m p) own_mac \<longleftrightarrow> addr_1_at m p = take 6 own_mac"
    by (simp add: Wifi_CmpMacAddr_def addr_1_at_def)
  have "lwip_accepts m p own_mac \<longleftrightarrow> ?f ! 0 AND 0xFC = 0x08 \<and> \<not> bit (?f ! 1) 0 \<and>
      (take 6 (drop 4 ?f) = take 6 own_mac \<or> bit (?f ! 4) 0) \<and> take 6 (drop 24 ?f) = [0xAA, 0xAA, 0x03, 0, 0, 0]"
    by (simp only: lwip_accepts_def llc_snap_ok_def data_to_station_bits group_bit b t c conj_assoc)
  moreover have "ntr_eth_header m p = take 6 (drop 4 ?f) @ take 6 (drop (if bit (?f ! 1) 1 then 16 else 10) ?f) @ take 2 (drop 30 ?f)"
    by (cases "bit (m (p + 1)) 1") (simp_all only: ntr_eth_header_def from_ds_bit b t if_True if_False simp_thms)
  ultimately show ?thesis by (simp only: lwip_deliver_def append_assoc)
qed

lemma length_ntr_eth_header [simp]: "length (ntr_eth_header m p) = 14"
  by (simp add: ntr_eth_header_def addr_1_at_def addr_2_at_def addr_3_at_def)

lemma drop_read_bytes: "k \<le> n \<Longrightarrow> drop k (read_bytes m p n) = read_bytes m (p + k) (n - k)"
  by (intro nth_equalityI) (simp_all add: add.assoc)

lemma read_lwip_buffer:
  "read_bytes (write_bytes m (18 + p) (ntr_eth_header m p)) (18 + p) (14 + k) =
    ntr_eth_header m p @ drop 32 (read_bytes m p (32 + k))"
proof -
  let ?m' = "write_bytes m (p + 18) (ntr_eth_header m p)"
  have "read_bytes ?m' (p + 18) 14 = ntr_eth_header m p"
    using read_write_bytes [of m "p + 18" "ntr_eth_header m p"] by simp
  moreover have "read_bytes ?m' (p + 32) k = read_bytes m (p + 32) k"
    by (rule read_bytes_cong) (simp add: write_bytes_def)
  ultimately show ?thesis
    by (simp add: read_bytes_add [of _ _ 14] drop_read_bytes add.commute [of p])
qed

definition internet9 :: "mac \<Rightarrow> arm9 \<Rightarrow> bool" where
  "internet9 own_mac s \<longleftrightarrow> wifi_lwip_enabled s \<and> curLibraryMode (wd9 s) = DSWIFI_INTERNET \<and>
     dswifi_link_is_up s \<and> \<not> wifi_rawpackethandler s \<and> MacAddr (wd9 s) = own_mac \<and>
     reqFlags (wd9 s) AND WFLAG_REQ_DSI_MODE = 0"

lemma internet9_keep [simp]:
  "internet9 own_mac (rx_consumed sz s) = internet9 own_mac s"
  "internet9 own_mac (wd9_upd (\<lambda>w. w\<lparr>rxbuf := b\<rparr>) s) = internet9 own_mac s"
  "internet9 own_mac (log_event e s) = internet9 own_mac s"
  "internet9 own_mac (rx_mem_upd m s) = internet9 own_mac s"
  by (simp_all add: internet9_def rx_consumed_def wd9_upd_def stat_add_def log_event_def rx_mem_upd_def)

lemma harmless_lwip:
  "harmless ntr_dispatch (internet9 own_mac) (\<lambda>bs. 32 \<le> length bs) (lwip_deliver own_mac)"
  unfolding harmless_def
proof (intro allI impI)
  fix s packet and sz :: u32
  assume P: "internet9 own_mac s" and "32 \<le> length (read_bytes (rx_mem s) packet (unat sz))"
  then have n: "32 \<le> unat sz" by simp
  then obtain k where k: "unat sz = 32 + k" by (auto simp: le_iff_add)
  let ?m = "rx_mem s" and ?s' = "Wifi_NTR_SendPacketToLwip packet sz s"
  let ?m' = "if lwip_accepts ?m packet own_mac then write_bytes ?m (packet + 18) (ntr_eth_header ?m packet) else ?m"
  have "sz - 24 - 8 = sz - 32" by simp
  then have "unat (14 + (sz - 24 - 8)) = 14 + k"
    using n k unsigned_less [of sz, where ?'a = nat]
    by (simp add: unat_sub word_le_nat_alt unat_word_ariths)
  then have ev: "rx_events ?s' = rx_events s @ lwip_deliver own_mac (read_bytes ?m packet (unat sz))"
    using P by (simp add: k Wifi_NTR_SendPacketToLwip_def Let_def internet9_def
      lwip_deliver_read read_lwip_buffer add.commute [of packet] log_event_def rx_mem_upd_def)
  have d: "ntr_dispatch packet sz s = Some ?s'"
    using P by (simp add: internet9_def ntr_dispatch_def to_lwip_def wifi_netif_is_up_def to_handlers_def to_raw_def
      Wifi_SendPacketToLwip_def Wifi_NTR_SendPacketToLwip_def Let_def log_event_def rx_mem_upd_def wd9_upd_def)
  have "rxbuf (wd9 ?s') = (rxbuf (wd9 s))\<lparr>bufData := ?m'\<rparr>"
    using P by (simp add: Wifi_NTR_SendPacketToLwip_def Let_def internet9_def log_event_def rx_mem_upd_def rx_mem_def
      add.commute [of packet])
  moreover have "agree_outside packet (packet + unat sz) ?m ?m'"
    using n by (simp add: agree_outside_write_bytes)
  moreover have "\<forall>b. internet9 own_mac (rx_consumed sz (wd9_upd (\<lambda>w. w\<lparr>rxbuf := b\<rparr>) ?s'))"
    using P by (simp add: Wifi_NTR_SendPacketToLwip_def Let_def)
  ultimately show "\<exists>s' m'. ntr_dispatch packet sz s = Some s' \<and>
         rxbuf (wd9 s') = (rxbuf (wd9 s))\<lparr>bufData := m'\<rparr> \<and>
         agree_outside packet (packet + unat sz) ?m m' \<and>
         rx_events s' = rx_events s @ lwip_deliver own_mac (read_bytes ?m packet (unat sz)) \<and>
         (\<forall>b. internet9 own_mac (rx_consumed sz (wd9_upd (\<lambda>w. w\<lparr>rxbuf := b\<rparr>) s')))"
    using d ev by blast
qed

lemma internet_update_run:
  assumes "rx_inv (rxbuf (wd9 s)) ps" "internet9 own_mac s" "WifiData_set s" "\<forall>p \<in> set ps. 32 \<le> length (snd p)"
  shows "\<exists>s'. Wifi_Update9 s = Some s' \<and> rx_inv (rxbuf (wd9 s')) (drop 22 ps) \<and>
    rx_events s' = rx_events s @ concat (map (\<lambda>p. lwip_deliver own_mac (snd p)) (take 22 ps))"
proof -
  have "bufRead (rxbuf (wd9 s)) AND 3 = 0"
    using assms(1) by (simp only: rx_inv_def ring_inv_def Let_def word_and_3_eq_0)
  then have "Wifi_Update9 s = rx_loop ntr_dispatch 22 s"
    using assms(2,3) by (simp add: Wifi_Update9_def Wifi_NTR_Update9_def internet9_def)
  then show ?thesis using rx_loop_run [OF harmless_lwip assms(1,2,4), of 22] by auto
qed

text \<open>in Internet mode an update of the ARM9 never crashes, takes the first 22 packets of the RX
  buffer in order, hands every frame that is addressed to this console or to a group and carries
  LLC/SNAP data to lwIP as an Ethernet frame with the right addresses, type and payload, drops
  the others, and leaves the remaining packets queued unchanged.\<close>

theorem internet_update_delivers:
  assumes "rx_inv (rxbuf (wd9 s)) ps" "internet9 own_mac s" "WifiData_set s" "\<forall>p \<in> set ps. 32 \<le> length (snd p)"
  shows "\<exists>s'. Wifi_Update9 s = Some s' \<and> rx_inv (rxbuf (wd9 s')) (drop 22 ps) \<and>
    rx_events s' = rx_events s @ concat (map (\<lambda>p. lwip_deliver own_mac (snd p)) (take 22 ps))"
  using internet_update_run [OF assms] .

text \<open>A buffer with one packet, for the witnesses.\<close>

lemma rx_one_packet:
  assumes "length bs = unat n" "0 < unat n" "unat n < 1000"
  shows "\<exists>b. rx_inv b [(n, bs)]"
proof -
  let ?fill = "\<lambda>a m. write_bytes m a bs"
  have ok: "size_ok n" "n \<noteq> 0" "n \<noteq> WIFI_SIZE_WRAP" using assms by (auto simp: size_ok_def)
  have f: "fits_between ?fill (align4 (unat n))"
    using assms(1) align4_bounds(1) [of "unat n"] by (auto simp: fits_between_def intro!: agree_outside_write_bytes)
  have z: "rx_inv zero_buf []" by (simp add: rx_inv_def zero_buf_def ring_inv_def read_u32_def)
  have room: "has_room 12288 zero_buf (unat n)"
    using assms(3) align4_bounds(2) [of "unat n"] by (simp add: has_room_def zero_buf_def Let_def)
  have "\<exists>b'. BufferPut WIFI_RXBUFFER_SIZE n ?fill n zero_buf = Some (True, b')"
    using put_accepts_iff [of WIFI_RXBUFFER_SIZE unat zero_buf "[]" n ?fill n] z ok f room by (simp add: rx_inv_def)
  then show ?thesis
    using put_refines_append [of WIFI_RXBUFFER_SIZE unat zero_buf "[]" n ?fill n] z ok f
    by (auto simp: rx_inv_def read_write_bytes simp flip: assms(1))
qed

text \<open>A broadcast frame from a distribution system with no payload after the LLC header.\<close>

definition frame_ex :: "u8 list" where
  "frame_ex = IEEE_DataFrameHeader_bytes (TYPE_DATA OR FC_FROM_DS) 0 wifi_broadcast_addr (replicate 6 1)
     (replicate 6 2) 0 @ [0xAA, 0xAA, 0x03, 0, 0, 0, 8, 0]"

lemma frame_ex_bytes:
  "frame_ex = [8, 2, 0, 0] @ wifi_broadcast_addr @ replicate 6 1 @ replicate 6 2 @ [0, 0] @ [0xAA, 0xAA, 0x03, 0, 0, 0] @ [8, 0]"
  by (simp add: frame_ex_def IEEE_DataFrameHeader_bytes_def le16_def Wifi_CopyMacAddr_def wifi_broadcast_addr_def mac_of_hwords_def)

lemma frame_ex_delivered:
  "lwip_deliver (replicate 6 0) frame_ex = [LwipInput (wifi_broadcast_addr @ replicate 6 2 @ [8, 0])]"
proof -
  have b: "wifi_broadcast_addr = [255, 255, 255, 255, 255, 255]" by (simp add: wifi_broadcast_addr_def mac_of_hwords_def le16_def)
  have r: "replicate 6 x = [x, x, x, x, x, x]" for x :: u8 by (simp add: eval_nat_numeral)
  show ?thesis unfolding lwip_deliver_def frame_ex_bytes b r append.simps by simp
qed

theorem internet_update_delivers_witness:
  "\<exists>s s'. Wifi_Update9 s = Some s' \<and> rx_inv (rxbuf (wd9 s')) [] \<and>
     rx_events s' = [LwipInput (wifi_broadcast_addr @ replicate 6 2 @ [8, 0])]"
proof -
  have l: "length frame_ex = unat (32 :: u32)" by (simp add: frame_ex_def length_ieee_header)
  obtain b where b: "rx_inv b [(32, frame_ex)]" using rx_one_packet [OF l] by auto
  let ?s = "arm9_boot\<lparr>wd9 := zero_main\<lparr>rxbuf := b\<rparr>, WifiData_set := True, wifi_lwip_enabled := True,
    dswifi_link_is_up := True\<rparr>"
  have "internet9 (replicate 6 0) ?s" by (simp add: internet9_def arm9_boot_def zero_main_def)
  from internet_update_delivers [OF _ this, of "[(32, frame_ex)]"] b l obtain s' where
    s': "Wifi_Update9 ?s = Some s'" "rx_inv (rxbuf (wd9 s')) []"
      "rx_events s' = rx_events ?s @ lwip_deliver (replicate 6 0) frame_ex"
    by auto
  with frame_ex_delivered have "rx_events s' = [LwipInput (wifi_broadcast_addr @ replicate 6 2 @ [8, 0])]"
    by (simp add: arm9_boot_def)
  with s' show ?thesis by (intro exI [of _ ?s] exI [of _ s']) simp
qed

end
