(* ===== verification/Arm7_Rx.thy ===== *)
theory Arm7_Rx
  imports Ieee_Process Arm9_Rx
begin

text \<open>
  Reception on the ARM7: the loop over the RX ring of the MAC (\<^verbatim>\<open>ntr/rx_queue.c\<close>) and the
  interrupt handler (\<^verbatim>\<open>ntr/interrupts.c\<close>). The theory shows that a data frame in the ring
  reaches the RX buffer of the ARM9 complete, or is counted as lost when there is no room, and
  that the ring is left at the next frame.
\<close>

section \<open>The RX queue\<close>

definition Wifi_CallSyncHandler7 :: "arm7 \<Rightarrow> arm7" where
  "Wifi_CallSyncHandler7 s = s\<lparr>sync_sent7 := sync_sent7 s + 1\<rparr>"

text \<open>The data is read from MAC RAM only once the space is reserved; reading it does not depend on that.\<close>

definition Wifi_RxArm9QueueAdd :: "nat \<Rightarrow> u32 \<Rightarrow> arm7 \<Rightarrow> (bool \<times> arm7) option" where
  "Wifi_RxArm9QueueAdd base sz s =
     (let (hs, s1) = Wifi_MACRead base 0 (unat sz) s
      in case BufferPut WIFI_RXBUFFER_SIZE sz (\<lambda>write_idx m. write_bytes m write_idx (hword_bytes hs)) sz (rxbuf (wd7 s)) of
           None \<Rightarrow> None
         | Some (False, b) \<Rightarrow> Some (False, wd7_upd (\<lambda>w. stat_add WSTAT_RXQUEUEDLOST 1 (w\<lparr>rxbuf := b\<rparr>)) s)
         | Some (True, b) \<Rightarrow>
             Some (True, Wifi_CallSyncHandler7 (wd7_upd (\<lambda>w.
               stat_add WSTAT_RXQUEUEDBYTES sz (stat_add WSTAT_RXQUEUEDPACKETS 1 (w\<lparr>rxbuf := b\<rparr>))) s1)))"

definition rx_stats :: "u32 \<Rightarrow> arm7 \<Rightarrow> arm7" where
  "rx_stats full_packetlen =
     wd7_upd (\<lambda>w. stat_add WSTAT_RXDATABYTES (full_packetlen - of_nat HDR_RX_SIZE)
       (stat_add WSTAT_RXBYTES full_packetlen (stat_add WSTAT_RXPACKETS 1 w)))"

definition rx_forward :: "u32 \<Rightarrow> nat \<Rightarrow> u32 \<Rightarrow> arm7 \<Rightarrow> arm7 option" where
  "rx_forward type base packetlen s =
     (if type AND WFLAG_PACKET_DATA \<noteq> 0 \<or> reqFlags (wd7 s) AND WFLAG_REQ_PROMISC \<noteq> 0
      then map_option snd (Wifi_RxArm9QueueAdd (base + HDR_RX_SIZE) packetlen (Wifi_NTR_KeepaliveCountReset s))
      else Some s)"

definition rx_one :: "arm7 \<Rightarrow> arm7 option" where
  "rx_one s =
     (let base = 2 * unat (regs s W_RXBUF_READCSR);
          packetlen = ucast (Wifi_MACReadHWord base HDR_RX_IEEE_FRAME_SIZE s) :: u32;
          full_packetlen = of_nat HDR_RX_SIZE + round_up_32 packetlen;
          s = rx_stats full_packetlen s
      in do { (type, s) \<leftarrow> Wifi_ProcessReceivedFrame base s;
              s \<leftarrow> rx_forward type base packetlen s;
              Some (set_reg W_RXBUF_READCSR (of_nat (rx_wrap s (base + unat full_packetlen) div 2)) s) })"

text \<open>The argument counts the packets that may still be handled in this call.\<close>

fun rx_flush_loop :: "nat \<Rightarrow> arm7 \<Rightarrow> arm7 option" where
  "rx_flush_loop 0 s = Some s"
| "rx_flush_loop (Suc n) s =
     (if regs s W_RXBUF_WRCSR = regs s W_RXBUF_READCSR then Some s
      else do { s \<leftarrow> rx_one s; rx_flush_loop n s })"

definition WIFI_RX_PACKETS_PER_INTERRUPT :: nat where [simp]: "WIFI_RX_PACKETS_PER_INTERRUPT = 5"

text \<open>\<^verbatim>\<open>cut++ > WIFI_RX_PACKETS_PER_INTERRUPT\<close> lets two packets more than the constant through.\<close>

definition Wifi_RxQueueFlush :: "arm7 \<Rightarrow> arm7 option" where
  "Wifi_RxQueueFlush s = rx_flush_loop (WIFI_RX_PACKETS_PER_INTERRUPT + 2) s"

section \<open>Interrupts\<close>

definition Wifi_Intr_RxEnd :: "arm7 \<Rightarrow> arm7 option" where
  "Wifi_Intr_RxEnd = Wifi_RxQueueFlush"

definition Wifi_Intr_TxEnd :: "arm7 \<Rightarrow> arm7 option" where
  "Wifi_Intr_TxEnd = Wifi_TxAllQueueFlush"

definition count_ofs_list :: "nat list" where
  "count_ofs_list =
     [OFF_RXSTAT_1B0, OFF_RXSTAT_1B2, OFF_RXSTAT_1B4, OFF_RXSTAT_1B6, OFF_RXSTAT_1B8, OFF_RXSTAT_1BA,
      OFF_RXSTAT_1BC, OFF_RXSTAT_1BE, OFF_TX_ERR_COUNT, OFF_RX_COUNT, OFF_CMD_STAT_1D0, OFF_CMD_STAT_1D2,
      OFF_CMD_STAT_1D4, OFF_CMD_STAT_1D6, OFF_CMD_STAT_1D8, OFF_CMD_STAT_1DA, OFF_CMD_STAT_1DC, OFF_CMD_STAT_1DE]"

fun count_stats :: "nat \<Rightarrow> nat list \<Rightarrow> arm7 \<Rightarrow> arm7" where
  "count_stats k [] s = s"
| "count_stats k (ofs # rest) s =
     (let d = ucast (regs s ofs) :: u32
      in count_stats (k + 2) rest
           (wd7_upd (\<lambda>w. stat_add (k + 1) (drop_bit 8 d AND 0xFF) (stat_add k (d AND 0xFF) w)) s))"

definition Wifi_Intr_CntOverflow :: "arm7 \<Rightarrow> arm7" where
  "Wifi_Intr_CntOverflow s = count_stats WSTAT_HW_1B0 count_ofs_list s"

definition on_irq :: "u16 \<Rightarrow> u16 \<Rightarrow> (arm7 \<Rightarrow> arm7 option) \<Rightarrow> arm7 \<Rightarrow> arm7 option" where
  "on_irq wIF irq f s = (if wIF AND irq \<noteq> 0 then f s else Some s)"

definition ack :: "u16 \<Rightarrow> arm7 \<Rightarrow> arm7 option" where
  "ack irq s = Some (ack_W_IF irq s)"

text \<open>One pass of the loop over the pending interrupts.\<close>

definition interrupt_pass :: "u16 \<Rightarrow> arm7 \<Rightarrow> arm7 option" where
  "interrupt_pass wIF s =
     do { s \<leftarrow> on_irq wIF IRQ_MULTIPLAY_CMD_DONE (\<lambda>s. ack IRQ_MULTIPLAY_CMD_DONE (Wifi_Intr_MultiplayCmdDone s)) s;
          s \<leftarrow> on_irq wIF IRQ_RX_COMPLETE (\<lambda>s. Wifi_Intr_RxEnd (ack_W_IF IRQ_RX_COMPLETE s)) s;
          s \<leftarrow> on_irq wIF IRQ_TX_COMPLETE (\<lambda>s. Wifi_Intr_TxEnd (ack_W_IF IRQ_TX_COMPLETE s)) s;
          s \<leftarrow> on_irq wIF IRQ_RX_EVENT_INCREMENT (ack IRQ_RX_EVENT_INCREMENT) s;
          s \<leftarrow> on_irq wIF IRQ_TX_EVENT_INCREMENT (ack IRQ_TX_EVENT_INCREMENT) s;
          s \<leftarrow> on_irq wIF IRQ_RX_EVENT_HALF_OVERFLOW (\<lambda>s. ack IRQ_RX_EVENT_HALF_OVERFLOW (Wifi_Intr_CntOverflow s)) s;
          s \<leftarrow> on_irq wIF IRQ_TX_ERROR_HALF_OVERFLOW (\<lambda>s. ack IRQ_TX_ERROR_HALF_OVERFLOW (Wifi_Intr_CntOverflow s)) s;
          s \<leftarrow> on_irq wIF IRQ_RX_START (ack IRQ_RX_START) s;
          s \<leftarrow> on_irq wIF IRQ_TX_START (ack IRQ_TX_START) s;
          s \<leftarrow> on_irq wIF IRQ_TXBUF_COUNT_END (ack IRQ_TXBUF_COUNT_END) s;
          s \<leftarrow> on_irq wIF IRQ_RXBUF_COUNT_END (ack IRQ_RXBUF_COUNT_END) s;
          s \<leftarrow> on_irq wIF IRQ_UNUSED (ack IRQ_UNUSED) s;
          s \<leftarrow> on_irq wIF IRQ_RF_WAKEUP (ack IRQ_RF_WAKEUP) s;
          s \<leftarrow> on_irq wIF IRQ_POST_BEACON_TIMESLOT (ack IRQ_POST_BEACON_TIMESLOT) s;
          s \<leftarrow> on_irq wIF IRQ_BEACON_TIMESLOT (ack IRQ_BEACON_TIMESLOT) s;
          on_irq wIF IRQ_PRE_BEACON_TIMESLOT (ack IRQ_PRE_BEACON_TIMESLOT) s }"

text \<open>The loop, for at most \<open>fuel\<close> passes.\<close>

fun interrupt_loop :: "nat \<Rightarrow> arm7 \<Rightarrow> arm7 option" where
  "interrupt_loop 0 s = None"
| "interrupt_loop (Suc fuel) s =
     (let wIF = regs s W_IE AND regs s W_IF
      in if wIF = 0 then Some s else do { s \<leftarrow> interrupt_pass wIF s; interrupt_loop fuel s })"

definition Wifi_Interrupt :: "nat \<Rightarrow> arm7 \<Rightarrow> arm7 option" where
  "Wifi_Interrupt fuel s =
     (if \<not> WifiData_set7 s \<or> flags7 (wd7 s) AND WFLAG_ARM7_RUNNING = 0 then Some (ack_W_IF (regs s W_IF) s)
      else interrupt_loop fuel (wd7_upd (Wifi_RandomAddEntropy (ucast (regs s W_RANDOM))) s))"

section \<open>Data frames reach the ARM9\<close>

definition data_types :: "u16 set" where
  "data_types = {TYPE_DATA, TYPE_DATA_CF_ACK, TYPE_DATA_CF_POLL, TYPE_DATA_CF_ACK_CF_POLL,
     TYPE_NULL_FUNCTION, TYPE_CF_ACK, TYPE_CF_POLL, TYPE_CF_ACK_CF_POLL}"

definition data_frame :: "u8 list \<Rightarrow> bool" where
  "data_frame f \<longleftrightarrow> 2 \<le> length f \<and> length f < 0x10000 \<and> hword (f ! 0) (f ! 1) AND FC_TYPE_SUBTYPE_MASK \<in> data_types"

lemma macmem_hword: "even a \<Longrightarrow> macmem s a = hword (mac_byte s a) (mac_byte s (a + 1))"
  using mac_byte_parts [of a s] hword_le16 [of "macmem s a"] by metis

lemma in_ring_hword:
  assumes "in_ring f macbase s" "2 \<le> length f"
  shows "Wifi_MACReadHWord macbase HDR_RX_SIZE s = hword (f ! 0) (f ! 1)"
proof -
  let ?p = "macbase + 12"
  have ring: "rx_ring s" "rx_begin s \<le> ?p" "even ?p" and f: "rx_ring_bytes s ?p (length f) = f"
    using assms(1) by (auto simp: in_ring_def)
  have w: "rx_wrap s ?p = ring_pos s ?p" by (rule rx_wrap_ring_pos) (use assms(1) in \<open>auto simp: in_ring_def\<close>)
  have e: "even (ring_pos s ?p)" using even_ring_pos [OF ring(1,2)] ring(3) by simp
  have b: "f ! k = mac_byte s (ring_pos s (?p + k))" if "k < length f" for k
  proof -
    have "rx_ring_bytes s ?p (length f) ! k = mac_byte s (ring_pos s (?p + k))" using that by (simp add: rx_ring_bytes_def)
    then show ?thesis by (simp only: f)
  qed
  have l: "0 < length f" "1 < length f" using assms(2) by linarith+
  have "f ! 0 = mac_byte s (ring_pos s ?p)" "f ! 1 = mac_byte s (ring_pos s (?p + 1))"
    using b [of 0] b [of 1] by (simp_all only: add_0_right l)
  then show ?thesis using macmem_hword [OF e] ring_pos_Suc [OF ring] by (simp add: Wifi_MACReadHWord_def w)
qed

lemma in_ring_MACRead:
  assumes "in_ring f macbase s"
  shows "\<exists>hs v. Wifi_MACRead (macbase + HDR_RX_SIZE) 0 (length f) s = (hs, set_reg W_RXBUF_RD_ADDR v s) \<and>
    length (hword_bytes hs) = 2 * halfwords (length f) \<and> take (length f) (hword_bytes hs) = f"
proof -
  let ?p = "macbase + 12" and ?n = "halfwords (length f)"
  have ring: "rx_ring s" "rx_begin s \<le> ?p" "even ?p" and f: "rx_ring_bytes s ?p (length f) = f"
    using assms by (auto simp: in_ring_def)
  have w: "rx_wrap s ?p = ring_pos s ?p" by (rule rx_wrap_ring_pos) (use assms in \<open>auto simp: in_ring_def\<close>)
  let ?hs = "rd_data s ?n (ring_pos s ?p)"
  have l: "length (hword_bytes ?hs) = 2 * ?n" by (simp add: length_hword_bytes)
  have "take (length f) (hword_bytes ?hs) = rx_ring_bytes s ?p (length f)"
  proof (rule nth_equalityI)
    show "length (take (length f) (hword_bytes ?hs)) = length (rx_ring_bytes s ?p (length f))"
      unfolding length_take l by (simp add: rx_ring_bytes_def halfwords_def)
    fix k assume "k < length (take (length f) (hword_bytes ?hs))"
    then have k: "k < length f" by simp
    then have "k < 2 * ?n" by (simp add: halfwords_def)
    then show "take (length f) (hword_bytes ?hs) ! k = rx_ring_bytes s ?p (length f) ! k"
      using k MACRead_bytes [OF ring, of k ?n] by (simp add: rx_ring_bytes_def)
  qed
  then show ?thesis using f l by (auto simp: Wifi_MACRead_def Let_def w)
qed

lemma read_write_prefix:
  "n \<le> length bs \<Longrightarrow> read_bytes (write_bytes m a bs) a n = take n bs"
  by (rule nth_equalityI) (simp_all add: write_bytes_def)

text \<open>The shared structure apart from the RX buffer and the statistics.\<close>

definition apart_from_rx :: "Wifi_MainStruct \<Rightarrow> Wifi_MainStruct" where
  "apart_from_rx w = w\<lparr>rxbuf := zero_buf, stats := \<lambda>_. 0\<rparr>"

lemma RxArm9QueueAdd_spec:
  assumes f: "in_ring f macbase s" and inv: "rx_inv (rxbuf (wd7 s)) ps" and len: "0 < length f" "length f < 0x10000"
  shows "\<exists>s'. Wifi_RxArm9QueueAdd (macbase + HDR_RX_SIZE) (of_nat (length f)) s =
      Some (has_room 12288 (rxbuf (wd7 s)) (length f), s') \<and>
    (if has_room 12288 (rxbuf (wd7 s)) (length f)
     then rx_inv (rxbuf (wd7 s')) (ps @ [(of_nat (length f), f)]) \<and> sync_sent7 s' = sync_sent7 s + 1
     else rx_inv (rxbuf (wd7 s')) ps \<and>
       stats (wd7 s') WSTAT_RXQUEUEDLOST = stats (wd7 s) WSTAT_RXQUEUEDLOST + 1) \<and>
    (\<forall>r. r \<noteq> W_RXBUF_RD_ADDR \<longrightarrow> regs s' r = regs s r) \<and> apart_from_rx (wd7 s') = apart_from_rx (wd7 s)"
proof -
  let ?n = "of_nat (length f) :: u32"
  have n: "unat ?n = length f" using len by (simp add: unat_of_nat take_bit_nat_eq_self)
  obtain hs v where hs: "Wifi_MACRead (macbase + HDR_RX_SIZE) 0 (length f) s = (hs, set_reg W_RXBUF_RD_ADDR v s)"
      "length (hword_bytes hs) = 2 * halfwords (length f)" "take (length f) (hword_bytes hs) = f"
    using in_ring_MACRead [OF f] by blast
  let ?fill = "\<lambda>a m. write_bytes m a (hword_bytes hs)"
  have le: "length f \<le> length (hword_bytes hs)" "length (hword_bytes hs) \<le> align4 (length f)"
    unfolding hs(2) halfwords_def align4_def by presburger+
  have fill: "fits_between ?fill (align4 (unat ?n))"
    using le(2) n by (auto simp: fits_between_def intro!: agree_outside_write_bytes)
  have bytes: "read_bytes (?fill a m) a (unat ?n) = f" for a m
    using le(1) hs(3) n by (simp add: read_write_prefix)
  have ok: "size_ok ?n" "?n \<noteq> 0" "?n \<noteq> WIFI_SIZE_WRAP"
    using n len by (auto simp: size_ok_def)
  have iff: "(\<exists>b'. BufferPut WIFI_RXBUFFER_SIZE ?n ?fill ?n (rxbuf (wd7 s)) = Some (True, b')) \<longleftrightarrow>
      has_room 12288 (rxbuf (wd7 s)) (length f)"
    using put_accepts_iff [of WIFI_RXBUFFER_SIZE unat "rxbuf (wd7 s)" ps ?n ?fill ?n] inv ok fill n by (simp add: rx_inv_def)
  have put: "BufferPut WIFI_RXBUFFER_SIZE ?n ?fill ?n (rxbuf (wd7 s)) = Some (False, rxbuf (wd7 s)) \<or>
      (\<exists>b'. BufferPut WIFI_RXBUFFER_SIZE ?n ?fill ?n (rxbuf (wd7 s)) = Some (True, b') \<and> rx_inv b' (ps @ [(?n, f)]))"
    using put_refines_append [of WIFI_RXBUFFER_SIZE unat "rxbuf (wd7 s)" ps ?n ?fill ?n] inv ok fill
    unfolding bytes by (auto simp: rx_inv_def)
  show ?thesis
  proof (cases "has_room 12288 (rxbuf (wd7 s)) (length f)")
    case True
    then obtain b' where "BufferPut WIFI_RXBUFFER_SIZE ?n ?fill ?n (rxbuf (wd7 s)) = Some (True, b')" "rx_inv b' (ps @ [(?n, f)])"
      using put iff by auto
    then show ?thesis using True hs(1) n
      by (simp add: Wifi_RxArm9QueueAdd_def Wifi_CallSyncHandler7_def stat_add_def wd7_upd_def set_reg_def apart_from_rx_def)
  next
    case False
    then have "BufferPut WIFI_RXBUFFER_SIZE ?n ?fill ?n (rxbuf (wd7 s)) = Some (False, rxbuf (wd7 s))" using put iff by auto
    then show ?thesis using False hs(1) n inv
      by (simp add: Wifi_RxArm9QueueAdd_def stat_add_def wd7_upd_def apart_from_rx_def)
  qed
qed

lemma ring_same:
  assumes "\<And>r. r \<noteq> W_RXBUF_RD_ADDR \<Longrightarrow> regs s' r = regs s r" "macmem s' = macmem s"
  shows "in_ring f b s' = in_ring f b s" "rx_wrap s' = rx_wrap s" "Wifi_MACReadHWord b off s' = Wifi_MACReadHWord b off s"
proof -
  have "rx_begin s' = rx_begin s" "rx_end s' = rx_end s" using assms(1) by (simp_all add: rx_begin_def rx_end_def)
  moreover from this have "ring_pos s' = ring_pos s" "rx_ring s' = rx_ring s" by (auto simp: ring_pos_def rx_ring_def)
  moreover have "mac_byte s' = mac_byte s" by (intro ext) (simp only: mac_byte_def Wifi_MacReadByte_def assms(2))
  ultimately show "in_ring f b s' = in_ring f b s" "rx_wrap s' = rx_wrap s"
      "Wifi_MACReadHWord b off s' = Wifi_MACReadHWord b off s"
    using assms(2) by (auto simp: in_ring_def rx_ring_bytes_def rx_wrap_def Wifi_MACReadHWord_def)
qed

lemma ProcessReceivedFrame_data:
  assumes "in_ring f base s" "data_frame f"
  shows "\<exists>v. Wifi_ProcessReceivedFrame base s = Some (WFLAG_PACKET_DATA, set_reg W_RXBUF_RD_ADDR v s)"
proof -
  obtain v where v: "snd (Wifi_MACRead base 0 HDR_RX_SIZE s) = set_reg W_RXBUF_RD_ADDR v s"
    using MACRead_frame by metis
  have "Wifi_MACReadHWord base HDR_RX_SIZE (set_reg W_RXBUF_RD_ADDR v s) = hword (f ! 0) (f ! 1)"
    using in_ring_hword [OF assms(1)] assms(2) ring_same(3) [of "set_reg W_RXBUF_RD_ADDR v s" s base]
    by (simp add: data_frame_def set_reg_def)
  moreover obtain t where "hword (f ! 0) (f ! 1) AND FC_TYPE_SUBTYPE_MASK = t" "t \<in> data_types"
    using assms(2) by (simp add: data_frame_def)
  ultimately show ?thesis using v
    by (cases "Wifi_MACRead base 0 HDR_RX_SIZE s") (auto simp: Wifi_ProcessReceivedFrame_def Let_def data_types_def)
qed

lemma rx_flush_one:
  "\<lbrakk>regs s W_RXBUF_WRCSR \<noteq> regs s W_RXBUF_READCSR; rx_one s = Some s'; regs s' W_RXBUF_WRCSR = regs s' W_RXBUF_READCSR\<rbrakk> \<Longrightarrow>
   rx_flush_loop (Suc (Suc n)) s = Some s'"
  by simp

lemma rx_data_frame_run:
  assumes base: "base = 2 * unat (regs s W_RXBUF_READCSR)"
    and f: "in_ring f base s" "data_frame f" "unat (Wifi_MACReadHWord base HDR_RX_IEEE_FRAME_SIZE s) = length f"
    and nxt: "regs s W_RXBUF_WRCSR = of_nat (rx_wrap s (base + 12 + align4 (length f)) div 2)"
      "regs s W_RXBUF_WRCSR \<noteq> regs s W_RXBUF_READCSR"
    and inv: "rx_inv (rxbuf (wd7 s)) ps"
  shows "\<exists>s'. Wifi_RxQueueFlush s = Some s' \<and> regs s' W_RXBUF_READCSR = regs s W_RXBUF_WRCSR \<and>
    (if has_room 12288 (rxbuf (wd7 s)) (length f)
     then rx_inv (rxbuf (wd7 s')) (ps @ [(of_nat (length f), f)]) \<and> sync_sent7 s' = sync_sent7 s + 1
     else rx_inv (rxbuf (wd7 s')) ps \<and>
       stats (wd7 s') WSTAT_RXQUEUEDLOST = stats (wd7 s) WSTAT_RXQUEUEDLOST + 1) \<and>
    apart_from_rx (wd7 s') = apart_from_rx (wd7 s)"
proof -
  let ?n = "ucast (Wifi_MACReadHWord base HDR_RX_IEEE_FRAME_SIZE s) :: u32"
  let ?full = "of_nat HDR_RX_SIZE + round_up_32 ?n :: u32"
  have len: "0 < length f" "length f < 0x10000" using f(2) by (auto simp: data_frame_def)
  have un: "unat ?n = length f" using f(3) len by (simp add: unsigned_ucast_eq take_bit_nat_eq_self)
  have n: "?n = of_nat (length f)" by (simp only: un [symmetric] of_nat_unat ucast_id)
  have full: "unat ?full = 12 + align4 (length f)"
    using unat_round_up_32 [of ?n] un len align4_bounds(2) [of "length f"] by (simp add: unat_word_ariths)
  let ?s0 = "rx_stats ?full s"
  have s0: "in_ring f base ?s0" "rx_wrap ?s0 = rx_wrap s" "rxbuf (wd7 ?s0) = rxbuf (wd7 s)" "regs ?s0 = regs s"
      "sync_sent7 ?s0 = sync_sent7 s" "stats (wd7 ?s0) WSTAT_RXQUEUEDLOST = stats (wd7 s) WSTAT_RXQUEUEDLOST"
      "macmem ?s0 = macmem s" "apart_from_rx (wd7 ?s0) = apart_from_rx (wd7 s)"
    using f(1) ring_same(1,2) [of ?s0 s] by (auto simp: rx_stats_def wd7_upd_def stat_add_def apart_from_rx_def)
  obtain v where v: "Wifi_ProcessReceivedFrame base ?s0 = Some (WFLAG_PACKET_DATA, set_reg W_RXBUF_RD_ADDR v ?s0)"
    using ProcessReceivedFrame_data [OF s0(1) f(2)] by blast
  define s1 where d1: "s1 = Wifi_NTR_KeepaliveCountReset (set_reg W_RXBUF_RD_ADDR v ?s0)"
  have s1: "in_ring f base s1" "rx_wrap s1 = rx_wrap s" "rxbuf (wd7 s1) = rxbuf (wd7 s)" "sync_sent7 s1 = sync_sent7 s"
      "\<And>r. r \<noteq> W_RXBUF_RD_ADDR \<Longrightarrow> regs s1 r = regs s r"
      "stats (wd7 s1) WSTAT_RXQUEUEDLOST = stats (wd7 s) WSTAT_RXQUEUEDLOST" "wd7 s1 = wd7 ?s0"
    using s0 ring_same(1,2) [of s1 ?s0] by (auto simp: d1 Wifi_NTR_KeepaliveCountReset_def set_reg_def)
  have inv1: "rx_inv (rxbuf (wd7 s1)) ps" using inv s1(3) by simp
  obtain s2 where s2: "Wifi_RxArm9QueueAdd (base + HDR_RX_SIZE) ?n s1 = Some (has_room 12288 (rxbuf (wd7 s)) (length f), s2)"
      "if has_room 12288 (rxbuf (wd7 s)) (length f)
       then rx_inv (rxbuf (wd7 s2)) (ps @ [(of_nat (length f), f)]) \<and> sync_sent7 s2 = sync_sent7 s + 1
       else rx_inv (rxbuf (wd7 s2)) ps \<and> stats (wd7 s2) WSTAT_RXQUEUEDLOST = stats (wd7 s) WSTAT_RXQUEUEDLOST + 1"
      "\<forall>r. r \<noteq> W_RXBUF_RD_ADDR \<longrightarrow> regs s2 r = regs s1 r" "apart_from_rx (wd7 s2) = apart_from_rx (wd7 s1)"
    using RxArm9QueueAdd_spec [OF s1(1) inv1 len] unfolding s1(3,4,6) n by blast
  have w2: "rx_wrap s2 = rx_wrap s" using s2(3) s1(5) by (simp add: rx_wrap_def rx_begin_def rx_end_def fun_eq_iff)
  let ?s3 = "set_reg W_RXBUF_READCSR (regs s W_RXBUF_WRCSR) s2"
  have one: "rx_one s = Some ?s3"
    unfolding rx_one_def Let_def base [symmetric] using v s2(1) [unfolded d1] nxt(1) full w2
    by (simp add: rx_forward_def add.assoc)
  have "regs s2 W_RXBUF_WRCSR = regs s W_RXBUF_WRCSR" using s2(3) s1(5) by simp
  then have "rx_flush_loop (Suc (Suc 5)) s = Some ?s3"
    by (intro rx_flush_one one nxt(2)) (simp add: set_reg_def)
  moreover have "WIFI_RX_PACKETS_PER_INTERRUPT + 2 = Suc (Suc 5)" by simp
  ultimately have "Wifi_RxQueueFlush s = Some ?s3" by (simp only: Wifi_RxQueueFlush_def)
  moreover have "apart_from_rx (wd7 ?s3) = apart_from_rx (wd7 s)" using s0(8) s1(7) s2(4) by (simp add: set_reg_def)
  ultimately show ?thesis using s2(2) by (auto simp: set_reg_def)
qed

text \<open>When the RX ring of the MAC holds one data frame, the ARM7 moves the ring on past it; the frame is
  appended to the packets waiting for the ARM9, complete, and the ARM9 is notified. Only when the buffer
  has no room for it is the frame dropped, and then it is counted as lost.\<close>

theorem rx_data_frame_forwarded:
  assumes base: "base = 2 * unat (regs s W_RXBUF_READCSR)"
    and f: "in_ring f base s" "data_frame f" "unat (Wifi_MACReadHWord base HDR_RX_IEEE_FRAME_SIZE s) = length f"
    and nxt: "regs s W_RXBUF_WRCSR = of_nat (rx_wrap s (base + 12 + align4 (length f)) div 2)"
      "regs s W_RXBUF_WRCSR \<noteq> regs s W_RXBUF_READCSR"
    and inv: "rx_inv (rxbuf (wd7 s)) ps"
  shows "\<exists>s'. Wifi_RxQueueFlush s = Some s' \<and> regs s' W_RXBUF_READCSR = regs s W_RXBUF_WRCSR \<and>
    (if has_room 12288 (rxbuf (wd7 s)) (length f)
     then rx_inv (rxbuf (wd7 s')) (ps @ [(of_nat (length f), f)]) \<and> sync_sent7 s' = sync_sent7 s + 1
     else rx_inv (rxbuf (wd7 s')) ps \<and>
       stats (wd7 s') WSTAT_RXQUEUEDLOST = stats (wd7 s) WSTAT_RXQUEUEDLOST + 1)"
  using rx_data_frame_run [OF assms] by blast

text \<open>A ring that holds one broadcast data frame of 32 bytes.\<close>

definition rx_ring_state_ex :: arm7 where
  "rx_ring_state_ex = set_mac 0xC08 32 (set_reg W_RXBUF_WRCSR 0x616 (set_reg W_RXBUF_READCSR 0x600 (with_frame frame_ex zero_main)))"

lemma rx_ring_example:
  "length frame_ex = 32" "regs rx_ring_state_ex W_RXBUF_READCSR = 0x600" "regs rx_ring_state_ex W_RXBUF_WRCSR = 0x616"
  "in_ring frame_ex 0xC00 rx_ring_state_ex" "data_frame frame_ex" "rx_wrap rx_ring_state_ex (0xC00 + 12 + align4 32) = 0xC2C"
  "Wifi_MACReadHWord 0xC00 HDR_RX_IEEE_FRAME_SIZE rx_ring_state_ex = 32" "wd7 rx_ring_state_ex = zero_main"
  "rx_inv (rxbuf zero_main) []" "has_room 12288 (rxbuf zero_main) 32"
proof -
  let ?s = rx_ring_state_ex
  show len: "length frame_ex = 32" by (simp add: frame_ex_def length_ieee_header)
  have regs: "regs ?s W_RXBUF_READCSR = 0x600" "regs ?s W_RXBUF_WRCSR = 0x616" "rx_begin ?s = 0xC00" "rx_end ?s = 0x1F60"
    using rx_ring_ex by (simp_all add: rx_ring_state_ex_def with_frame_def wd7_upd_def ring_with_def rx_begin_def rx_end_def
      set_reg_def set_mac_def)
  then show "regs ?s W_RXBUF_READCSR = 0x600" "regs ?s W_RXBUF_WRCSR = 0x616" by simp_all
  have "mac_byte ?s a = mac_byte (ring_with frame_ex) a" if "0xC0C \<le> a" for a
    using that by (auto simp: mac_byte_def Wifi_MacReadByte_def Let_def rx_ring_state_ex_def set_mac_def set_reg_def
      with_frame_def wd7_upd_def)
  then show "in_ring frame_ex 0xC00 ?s" by (intro ring_with_in_ring regs) (simp_all add: len)
  show "data_frame frame_ex"
    using len by (simp add: data_frame_def frame_ex_def IEEE_DataFrameHeader_bytes_def le16_def hword_def data_types_def)
  show "rx_wrap ?s (0xC00 + 12 + align4 32) = 0xC2C" "Wifi_MACReadHWord 0xC00 HDR_RX_IEEE_FRAME_SIZE ?s = 32"
    using regs by (simp_all add: rx_wrap_def align4_def Wifi_MACReadHWord_def) (simp add: rx_ring_state_ex_def set_mac_def)
  show "wd7 ?s = zero_main" by (simp add: rx_ring_state_ex_def with_frame_def wd7_upd_def)
  show "rx_inv (rxbuf zero_main) []" by (simp add: zero_main_def rx_inv_def zero_buf_def ring_inv_def read_u32_def)
  show "has_room 12288 (rxbuf zero_main) 32" by (simp add: zero_main_def has_room_def zero_buf_def align4_def)
qed

theorem rx_data_frame_forwarded_witness:
  "\<exists>s'. Wifi_RxQueueFlush rx_ring_state_ex = Some s' \<and> rx_inv (rxbuf (wd7 s')) [(32, frame_ex)] \<and>
    regs s' W_RXBUF_READCSR = 0x616"
proof -
  note ex = rx_ring_example
  have inv: "rx_inv (rxbuf (wd7 rx_ring_state_ex)) []" using ex(8,9) by simp
  show ?thesis using rx_data_frame_forwarded [OF _ ex(4,5) _ _ _ inv] ex by auto
qed

lemma count_stats_spec:
  "stats (wd7 (count_stats k0 ofs s)) k =
     (if k0 \<le> k \<and> k < k0 + 2 * length ofs
      then stats (wd7 s) k + (let d = ucast (regs s (ofs ! ((k - k0) div 2))) in
             if even (k - k0) then d AND 0xFF else drop_bit 8 d AND 0xFF)
      else stats (wd7 s) k)"
proof (induction ofs arbitrary: k0 s)
  case (Cons a ofs)
  let ?d = "ucast (regs s a) :: u32"
  let ?s = "wd7_upd (\<lambda>w. stat_add (k0 + 1) (drop_bit 8 ?d AND 0xFF) (stat_add k0 (?d AND 0xFF) w)) s"
  have regs: "regs ?s = regs s" by simp
  have st: "stats (wd7 ?s) k = (if k = k0 then stats (wd7 s) k + (?d AND 0xFF)
      else if k = k0 + 1 then stats (wd7 s) k + (drop_bit 8 ?d AND 0xFF) else stats (wd7 s) k)"
    by (simp add: wd7_upd_def stat_add_def)
  have step: "count_stats k0 (a # ofs) s = count_stats (k0 + 2) ofs ?s" by (simp add: Let_def)
  consider "k < k0" | "k = k0" | "k = k0 + 1" | j where "k = k0 + 2 + j" by atomize_elim presburger
  then show ?case
    unfolding step Cons.IH regs st by cases (simp_all add: Let_def)
qed auto

text \<open>The counters of the hardware are added to the last 36 entries of the statistics, each register to its own
  two entries, so that no write leaves the array.\<close>

theorem cnt_overflow_stats:
  "stats (wd7 (Wifi_Intr_CntOverflow s)) k =
     (if WSTAT_HW_1B0 \<le> k \<and> k < NUM_WIFI_STATS
      then stats (wd7 s) k +
        (let d = ucast (regs s (count_ofs_list ! ((k - WSTAT_HW_1B0) div 2))) in
         if even (k - WSTAT_HW_1B0) then d AND 0xFF else drop_bit 8 d AND 0xFF)
      else stats (wd7 s) k)"
proof -
  have "length count_ofs_list = 18" by (simp add: count_ofs_list_def)
  then show ?thesis unfolding Wifi_Intr_CntOverflow_def count_stats_spec by simp
qed

end
