(* ===== verification/Mbed_Sha1.thy ===== *)
theory Mbed_Sha1
  imports Wifi_Prelude
begin

text \<open>
  SHA-1 as the DSi driver uses it (\<^verbatim>\<open>mbedtls/library/sha1.twl.c\<close>): the compression function with its
  unrolled rounds, in which the five variables change their roles, and its schedule of 16 words
  that is overwritten in a circle; the buffering of input that arrives in pieces; the padding. The
  theory states SHA-1 as the standard FIPS 180-4 does and shows that the code computes it, however
  the input is cut into pieces.
\<close>

section \<open>The compression function\<close>

definition MBEDTLS_GET_UINT32_BE :: "u8 list \<Rightarrow> nat \<Rightarrow> u32" where
  "MBEDTLS_GET_UINT32_BE d i =
     push_bit 24 (ucast (d ! i)) OR push_bit 16 (ucast (d ! (i + 1))) OR push_bit 8 (ucast (d ! (i + 2))) OR ucast (d ! (i + 3))"

definition put_uint32_be :: "u32 \<Rightarrow> u8 list" where
  "put_uint32_be n = [ucast (drop_bit 24 n), ucast (drop_bit 16 n), ucast (drop_bit 8 n), ucast n]"

definition bytes_put :: "nat \<Rightarrow> 'a list \<Rightarrow> 'a list \<Rightarrow> 'a list" where
  "bytes_put i bs buf = take i buf @ bs @ drop (i + length bs) buf"

record sha1_context =
  sha1_total0 :: u32
  sha1_total1 :: u32
  sha1_state :: "u32 list"
  sha1_buffer :: "u8 list"

definition sha1_S :: "u32 \<Rightarrow> nat \<Rightarrow> u32" where
  "sha1_S x n = push_bit n x OR drop_bit (32 - n) x"

text \<open>The word for step \<open>t\<close>: one of the block, then the macro \<^verbatim>\<open>R\<close>.\<close>

definition sha1_R :: "nat \<Rightarrow> u32 list \<Rightarrow> u32 \<times> u32 list" where
  "sha1_R t W =
     (if t < 16 then (W ! t, W)
      else let temp = W ! ((t - 3) mod 16) XOR W ! ((t - 8) mod 16) XOR W ! ((t - 14) mod 16) XOR W ! (t mod 16)
           in (sha1_S temp 1, W[t mod 16 := sha1_S temp 1]))"

text \<open>The macro \<^verbatim>\<open>P\<close> changes its second and its fifth variable.\<close>

definition sha1_P :: "(u32 \<Rightarrow> u32 \<Rightarrow> u32 \<Rightarrow> u32) \<Rightarrow> u32 \<Rightarrow> u32 \<Rightarrow> u32 \<Rightarrow> u32 \<Rightarrow> u32 \<Rightarrow> u32 \<Rightarrow> u32 \<Rightarrow> u32 \<times> u32" where
  "sha1_P F K a b c d e x = (sha1_S b 30, e + (sha1_S a 5 + F b c d + K + x))"

type_synonym sha1_local = "u32 list \<times> u32 \<times> u32 \<times> u32 \<times> u32 \<times> u32"

text \<open>Five steps, after which the variables have their first roles again; twenty steps share \<^verbatim>\<open>F\<close> and \<^verbatim>\<open>K\<close>.\<close>

definition sha1_five :: "(u32 \<Rightarrow> u32 \<Rightarrow> u32 \<Rightarrow> u32) \<Rightarrow> u32 \<Rightarrow> nat \<Rightarrow> sha1_local \<Rightarrow> sha1_local" where
  "sha1_five F K t = (\<lambda>(W, A, B, C, D, E).
     let (x, W) = sha1_R t W; (B, E) = sha1_P F K A B C D E x;
         (x, W) = sha1_R (t + 1) W; (A, D) = sha1_P F K E A B C D x;
         (x, W) = sha1_R (t + 2) W; (E, C) = sha1_P F K D E A B C x;
         (x, W) = sha1_R (t + 3) W; (D, B) = sha1_P F K C D E A B x;
         (x, W) = sha1_R (t + 4) W; (C, A) = sha1_P F K B C D E A x
     in (W, A, B, C, D, E))"

definition sha1_twenty :: "(u32 \<Rightarrow> u32 \<Rightarrow> u32 \<Rightarrow> u32) \<Rightarrow> u32 \<Rightarrow> nat \<Rightarrow> sha1_local \<Rightarrow> sha1_local" where
  "sha1_twenty F K t l = sha1_five F K (t + 15) (sha1_five F K (t + 10) (sha1_five F K (t + 5) (sha1_five F K t l)))"

definition sha1_F0 :: "u32 \<Rightarrow> u32 \<Rightarrow> u32 \<Rightarrow> u32" where
  "sha1_F0 x y z = z XOR (x AND (y XOR z))"

definition sha1_F20 :: "u32 \<Rightarrow> u32 \<Rightarrow> u32 \<Rightarrow> u32" where
  "sha1_F20 x y z = x XOR y XOR z"

definition sha1_F40 :: "u32 \<Rightarrow> u32 \<Rightarrow> u32 \<Rightarrow> u32" where
  "sha1_F40 x y z = (x AND y) OR (z AND (x OR y))"

definition sha1_process :: "u32 list \<Rightarrow> u8 list \<Rightarrow> u32 list" where
  "sha1_process st data =
     (let W = map (\<lambda>i. MBEDTLS_GET_UINT32_BE data (4 * i)) [0..<16];
          l = (W, st ! 0, st ! 1, st ! 2, st ! 3, st ! 4);
          l = sha1_twenty sha1_F0 0x5A827999 0 l;
          l = sha1_twenty sha1_F20 0x6ED9EBA1 20 l;
          l = sha1_twenty sha1_F40 0x8F1BBCDC 40 l;
          (W, A, B, C, D, E) = sha1_twenty sha1_F20 0xCA62C1D6 60 l
      in [st ! 0 + A, st ! 1 + B, st ! 2 + C, st ! 3 + D, st ! 4 + E])"

definition mbedtls_internal_sha1_process :: "u8 list \<Rightarrow> sha1_context \<Rightarrow> sha1_context" where
  "mbedtls_internal_sha1_process data c = c\<lparr>sha1_state := sha1_process (sha1_state c) data\<rparr>"

section \<open>Input in pieces\<close>

definition mbedtls_sha1_init :: sha1_context where
  "mbedtls_sha1_init = \<lparr>sha1_total0 = 0, sha1_total1 = 0, sha1_state = replicate 5 0, sha1_buffer = replicate 64 0\<rparr>"

definition mbedtls_sha1_free :: "sha1_context \<Rightarrow> sha1_context" where
  "mbedtls_sha1_free c = mbedtls_sha1_init"

definition mbedtls_sha1_starts :: "sha1_context \<Rightarrow> sha1_context" where
  "mbedtls_sha1_starts c = c\<lparr>sha1_total0 := 0, sha1_total1 := 0,
     sha1_state := [0x67452301, 0xEFCDAB89, 0x98BADCFE, 0x10325476, 0xC3D2E1F0]\<rparr>"

function sha1_blocks :: "u8 list \<Rightarrow> sha1_context \<Rightarrow> u8 list \<times> sha1_context" where
  "sha1_blocks input c =
     (if length input \<ge> 64 then sha1_blocks (drop 64 input) (mbedtls_internal_sha1_process (take 64 input) c)
      else (input, c))"
  by pat_completeness auto
termination by (relation "measure (\<lambda>(input, _). length input)") auto

declare sha1_blocks.simps [simp del]

text \<open>The length of the input is a \<^verbatim>\<open>size_t\<close> of 32 bits.\<close>

definition mbedtls_sha1_update :: "u8 list \<Rightarrow> sha1_context \<Rightarrow> sha1_context" where
  "mbedtls_sha1_update input c =
     (let ilen = of_nat (length input) :: u32
      in if ilen = 0 then c
         else let left = unat (sha1_total0 c AND 0x3F);
                  fill = 64 - left;
                  c = c\<lparr>sha1_total0 := sha1_total0 c + ilen\<rparr>;
                  c = (if sha1_total0 c < ilen then c\<lparr>sha1_total1 := sha1_total1 c + 1\<rparr> else c);
                  (left, input, c) =
                    (if left \<noteq> 0 \<and> fill \<le> length input
                     then let c = c\<lparr>sha1_buffer := bytes_put left (take fill input) (sha1_buffer c)\<rparr>
                          in (0, drop fill input, mbedtls_internal_sha1_process (sha1_buffer c) c)
                     else (left, input, c));
                  (input, c) = sha1_blocks input c
              in c\<lparr>sha1_buffer := bytes_put left input (sha1_buffer c)\<rparr>)"

definition mbedtls_sha1_finish :: "sha1_context \<Rightarrow> u8 list \<times> sha1_context" where
  "mbedtls_sha1_finish c =
     (let used = unat (sha1_total0 c AND 0x3F);
          buf = bytes_put used [0x80] (sha1_buffer c);
          used = used + 1;
          c = (if used \<le> 56 then c\<lparr>sha1_buffer := bytes_put used (replicate (56 - used) 0) buf\<rparr>
               else let c = c\<lparr>sha1_buffer := bytes_put used (replicate (64 - used) 0) buf\<rparr>;
                        c = mbedtls_internal_sha1_process (sha1_buffer c) c
                    in c\<lparr>sha1_buffer := bytes_put 0 (replicate 56 0) (sha1_buffer c)\<rparr>);
          high = drop_bit 29 (sha1_total0 c) OR push_bit 3 (sha1_total1 c);
          low = push_bit 3 (sha1_total0 c);
          c = c\<lparr>sha1_buffer := bytes_put 60 (put_uint32_be low) (bytes_put 56 (put_uint32_be high) (sha1_buffer c))\<rparr>;
          c = mbedtls_internal_sha1_process (sha1_buffer c) c
      in (concat (map put_uint32_be (sha1_state c)), mbedtls_sha1_free c))"

definition mbedtls_sha1 :: "u8 list \<Rightarrow> u8 list" where
  "mbedtls_sha1 input = fst (mbedtls_sha1_finish (mbedtls_sha1_update input (mbedtls_sha1_starts mbedtls_sha1_init)))"

text \<open>A digest has 20 bytes, whatever the context.\<close>

lemma length_sha1_finish [simp]: "length (fst (mbedtls_sha1_finish c)) = 20"
proof -
  have "length (sha1_process st d) = 5" for st d by (simp add: sha1_process_def Let_def split_def)
  moreover have "length (concat (map put_uint32_be ws)) = 4 * length ws" for ws
    by (induction ws) (simp_all add: put_uint32_be_def)
  ultimately show ?thesis by (simp add: mbedtls_sha1_finish_def mbedtls_internal_sha1_process_def Let_def)
qed

section \<open>The standard\<close>

text \<open>FIPS 180-4, sections 4.1.1, 4.2.1, 5.1.1, 5.3.1 and 6.1.2: the functions and constants, the schedule of 80
  words, one step, the compression of a block, the padding, and the digest.\<close>

definition fips_f :: "nat \<Rightarrow> u32 \<Rightarrow> u32 \<Rightarrow> u32 \<Rightarrow> u32" where
  "fips_f t x y z =
     (if t < 20 then (x AND y) XOR (NOT x AND z)
      else if t < 40 then x XOR y XOR z
      else if t < 60 then (x AND y) XOR (x AND z) XOR (y AND z)
      else x XOR y XOR z)"

definition fips_K :: "nat \<Rightarrow> u32" where
  "fips_K t = (if t < 20 then 0x5A827999 else if t < 40 then 0x6ED9EBA1 else if t < 60 then 0x8F1BBCDC else 0xCA62C1D6)"

fun fips_W :: "u8 list \<Rightarrow> nat \<Rightarrow> u32" where
  "fips_W M t =
     (if t < 16 then MBEDTLS_GET_UINT32_BE M (4 * t)
      else word_rotl 1 (fips_W M (t - 3) XOR fips_W M (t - 8) XOR fips_W M (t - 14) XOR fips_W M (t - 16)))"

declare fips_W.simps [simp del]

fun fips_step :: "u8 list \<Rightarrow> nat \<Rightarrow> u32 \<times> u32 \<times> u32 \<times> u32 \<times> u32 \<Rightarrow> u32 \<times> u32 \<times> u32 \<times> u32 \<times> u32" where
  "fips_step M t (a, b, c, d, e) = (word_rotl 5 a + fips_f t b c d + e + fips_K t + fips_W M t, a, word_rotl 30 b, c, d)"

definition fips_compress :: "u32 list \<Rightarrow> u8 list \<Rightarrow> u32 list" where
  "fips_compress H M =
     (case fold (fips_step M) [0..<80] (H ! 0, H ! 1, H ! 2, H ! 3, H ! 4) of
        (a, b, c, d, e) \<Rightarrow> [a + H ! 0, b + H ! 1, c + H ! 2, d + H ! 3, e + H ! 4])"

definition fips_pad :: "u8 list \<Rightarrow> u8 list" where
  "fips_pad m =
     (let l = of_nat (8 * length m) :: 64 word
      in m @ [0x80] @ replicate ((119 - length m mod 64) mod 64) 0 @
         put_uint32_be (ucast (drop_bit 32 l)) @ put_uint32_be (ucast l))"

function fips_blocks :: "u32 list \<Rightarrow> u8 list \<Rightarrow> u32 list" where
  "fips_blocks H m = (if length m \<ge> 64 then fips_blocks (fips_compress H (take 64 m)) (drop 64 m) else H)"
  by pat_completeness auto
termination by (relation "measure (\<lambda>(_, m). length m)") auto

declare fips_blocks.simps [simp del]

definition fips_H0 :: "u32 list" where
  "fips_H0 = [0x67452301, 0xEFCDAB89, 0x98BADCFE, 0x10325476, 0xC3D2E1F0]"

definition fips_sha1 :: "u8 list \<Rightarrow> u8 list" where
  "fips_sha1 m = concat (map put_uint32_be (fips_blocks fips_H0 (fips_pad m)))"

section \<open>The compression function is that of the standard\<close>

lemma sha1_S_rotl:
  assumes "0 < n" "n < 32"
  shows "sha1_S x n = word_rotl n x"
proof (rule bit_word_eqI)
  fix k assume k: "k < LENGTH(32)"
  show "bit (sha1_S x n) k = bit (word_rotl n x) k"
  proof (cases "n \<le> k")
    case True
    then have "k + 32 - n = (k - n) + 32" by simp
    then have "(k + 32 - n) mod 32 = k - n" using k by (simp only: mod_add_self2) simp
    then show ?thesis using True k assms by (auto simp: sha1_S_def bit_simps bit_word_rotl_iff dest: bit_imp_le_length)
  next
    case False
    then show ?thesis using k assms by (auto simp: sha1_S_def bit_simps bit_word_rotl_iff add.commute [of 32 k])
  qed
qed

lemma sha1_F_fips:
  "t < 20 \<Longrightarrow> sha1_F0 x y z = fips_f t x y z"
  "20 \<le> t \<Longrightarrow> t < 40 \<Longrightarrow> sha1_F20 x y z = fips_f t x y z"
  "40 \<le> t \<Longrightarrow> t < 60 \<Longrightarrow> sha1_F40 x y z = fips_f t x y z"
  "60 \<le> t \<Longrightarrow> sha1_F20 x y z = fips_f t x y z"
  by (auto simp: sha1_F0_def sha1_F20_def sha1_F40_def fips_f_def intro!: bit_word_eqI simp: bit_simps)

text \<open>Before step \<open>t\<close> the circle holds the last 16 words of the schedule.\<close>

definition sha1_sched :: "u8 list \<Rightarrow> nat \<Rightarrow> u32 list \<Rightarrow> bool" where
  "sha1_sched M t W \<longleftrightarrow> length W = 16 \<and> (\<forall>s. s < max 16 t \<and> max 16 t \<le> s + 16 \<longrightarrow> W ! (s mod 16) = fips_W M s)"

lemma sha1_R_sched:
  assumes "sha1_sched M t W"
  shows "fst (sha1_R t W) = fips_W M t" "sha1_sched M (t + 1) (snd (sha1_R t W))"
proof -
  have len: "length W = 16" and W: "W ! (s mod 16) = fips_W M s" if "s < max 16 t" "max 16 t \<le> s + 16" for s
    using assms that by (auto simp: sha1_sched_def)
  have new: "sha1_S (W ! ((t - 3) mod 16) XOR W ! ((t - 8) mod 16) XOR W ! ((t - 14) mod 16) XOR W ! (t mod 16)) 1 = fips_W M t"
    if t: "16 \<le> t"
  proof -
    have "W ! (t mod 16) = fips_W M (t - 16)" using W [of "t - 16"] t by (simp add: mod_if)
    then show ?thesis using t W [of "t - 3"] W [of "t - 8"] W [of "t - 14"]
      by (simp add: sha1_S_rotl fips_W.simps [of M t])
  qed
  show "fst (sha1_R t W) = fips_W M t"
    using W [of t] new by (cases "t < 16") (auto simp: sha1_R_def Let_def)
  show "sha1_sched M (t + 1) (snd (sha1_R t W))"
  proof (cases "t < 16")
    case True
    then show ?thesis using assms by (simp add: sha1_R_def sha1_sched_def max_def)
  next
    case False
    have "W[t mod 16 := fips_W M t] ! (s mod 16) = fips_W M s" if "s < t + 1" "t + 1 \<le> s + 16" for s
    proof (cases "s = t")
      case True then show ?thesis using assms by (simp add: sha1_sched_def)
    next
      case ne: False
      then have "s mod 16 \<noteq> t mod 16"
        using that by (metis dvd_imp_le le_diff_conv less_Suc_eq Suc_eq_plus1 less_add_Suc2 mod_eq_dvd_iff_nat less_imp_le not_less zero_less_diff add.commute le_add_diff_inverse2)
      then show ?thesis using W [of s] that ne False by simp
    qed
    then show ?thesis using False new assms by (simp add: sha1_R_def sha1_sched_def Let_def)
  qed
qed

lemma sha1_R_step:
  assumes "sha1_sched M t W" "t' = t + 1"
  shows "sha1_R t W = (fips_W M t, snd (sha1_R t W))" "sha1_sched M t' (snd (sha1_R t W))"
  using sha1_R_sched [OF assms(1)] assms(2) by (simp_all add: prod_eq_iff)

lemma sha1_P_step:
  assumes "sha1_P F K a b c d e (fips_W M t) = (b', e')" "fips_f t = F" "fips_K t = K"
  shows "fips_step M t (a, b, c, d, e) = (e', a, b', c, d)"
  using assms by (auto simp: sha1_P_def sha1_S_rotl ac_simps)

lemma sha1_five_fips:
  assumes "sha1_sched M t W" "\<And>i x y z. i \<in> {t..<t + 5} \<Longrightarrow> F x y z = fips_f i x y z" "\<And>i. i \<in> {t..<t + 5} \<Longrightarrow> K = fips_K i"
  shows "\<exists>W'. sha1_sched M (t + 5) W' \<and> sha1_five F K t (W, v) = (W', fold (fips_step M) [t..<t + 5] v)"
proof -
  define W1 where "W1 = snd (sha1_R t W)"
  define W2 where "W2 = snd (sha1_R (t + 1) W1)"
  define W3 where "W3 = snd (sha1_R (t + 2) W2)"
  define W4 where "W4 = snd (sha1_R (t + 3) W3)"
  define W5 where "W5 = snd (sha1_R (t + 4) W4)"
  have 1: "sha1_R t W = (fips_W M t, W1)" "sha1_sched M (t + 1) W1"
    unfolding W1_def by (rule sha1_R_step [OF assms(1)], simp)+
  have 2: "sha1_R (t + 1) W1 = (fips_W M (t + 1), W2)" "sha1_sched M (t + 2) W2"
    unfolding W2_def by (rule sha1_R_step [OF 1(2)], simp)+
  have 3: "sha1_R (t + 2) W2 = (fips_W M (t + 2), W3)" "sha1_sched M (t + 3) W3"
    unfolding W3_def by (rule sha1_R_step [OF 2(2)], simp)+
  have 4: "sha1_R (t + 3) W3 = (fips_W M (t + 3), W4)" "sha1_sched M (t + 4) W4"
    unfolding W4_def by (rule sha1_R_step [OF 3(2)], simp)+
  have 5: "sha1_R (t + 4) W4 = (fips_W M (t + 4), W5)" "sha1_sched M (t + 5) W5"
    unfolding W5_def by (rule sha1_R_step [OF 4(2)], simp)+
  obtain a b c d e where v: "v = (a, b, c, d, e)" by (cases v)
  have r: "[t..<t + 5] = [t, t + 1, t + 2, t + 3, t + 4]"
    by (simp add: upt_rec numeral_eq_Suc)
  have f: "fips_f i = F" if "t \<le> i" "i < t + 5" for i
    using assms(2) [of i] that by (intro ext) simp
  have k: "fips_K i = K" if "t \<le> i" "i < t + 5" for i
    using assms(3) [of i] that by simp
  note step = sha1_P_step [where F = F and K = K and M = M]
  obtain b1 e1 where p1: "sha1_P F K a b c d e (fips_W M t) = (b1, e1)" by (meson surj_pair)
  have s1: "fips_step M t (a, b, c, d, e) = (e1, a, b1, c, d)" by (rule step [OF p1 f k]) simp_all
  obtain a1 d1 where p2: "sha1_P F K e1 a b1 c d (fips_W M (t + 1)) = (a1, d1)" by (meson surj_pair)
  have s2: "fips_step M (t + 1) (e1, a, b1, c, d) = (d1, e1, a1, b1, c)" by (rule step [OF p2 f k]) simp_all
  obtain e2 c1 where p3: "sha1_P F K d1 e1 a1 b1 c (fips_W M (t + 2)) = (e2, c1)" by (meson surj_pair)
  have s3: "fips_step M (t + 2) (d1, e1, a1, b1, c) = (c1, d1, e2, a1, b1)" by (rule step [OF p3 f k]) simp_all
  obtain d2 b2 where p4: "sha1_P F K c1 d1 e2 a1 b1 (fips_W M (t + 3)) = (d2, b2)" by (meson surj_pair)
  have s4: "fips_step M (t + 3) (c1, d1, e2, a1, b1) = (b2, c1, d2, e2, a1)" by (rule step [OF p4 f k]) simp_all
  obtain c2 a2 where p5: "sha1_P F K b2 c1 d2 e2 a1 (fips_W M (t + 4)) = (c2, a2)" by (meson surj_pair)
  have s5: "fips_step M (t + 4) (b2, c1, d2, e2, a1) = (a2, b2, c2, d2, e2)" by (rule step [OF p5 f k]) simp_all
  have "sha1_five F K t (W, v) = (W5, a2, b2, c2, d2, e2)"
    by (simp only: v sha1_five_def Let_def prod.case 1(1) 2(1) 3(1) 4(1) 5(1) p1 p2 p3 p4 p5)
  also have "(a2, b2, c2, d2, e2) = fold (fips_step M) [t..<t + 5] v"
    by (simp only: v r fold_simps s1 s2 s3 s4 s5)
  finally have "sha1_five F K t (W, v) = (W5, fold (fips_step M) [t..<t + 5] v)" .
  then show ?thesis using 5(2) by blast
qed

lemma upt_split: "i \<le> j \<Longrightarrow> j \<le> k \<Longrightarrow> [i..<k] = [i..<j] @ [j..<k]"
  using upt_add_eq_append [of i j "k - j"] by simp

lemma sha1_twenty_fips:
  assumes "sha1_sched M t W" "\<And>i x y z. i \<in> {t..<t + 20} \<Longrightarrow> F x y z = fips_f i x y z" "\<And>i. i \<in> {t..<t + 20} \<Longrightarrow> K = fips_K i"
  shows "\<exists>W'. sha1_sched M (t + 20) W' \<and> sha1_twenty F K t (W, v) = (W', fold (fips_step M) [t..<t + 20] v)"
proof -
  have five: "\<exists>W'. sha1_sched M u' W' \<and> sha1_five F K u (W, v) = (W', fold (fips_step M) [u..<u'] v)"
    if "sha1_sched M u W" "t \<le> u" "u \<le> t + 15" "u' = u + 5" for u u' W v
    unfolding that(4) by (rule sha1_five_fips [OF that(1)]) (use assms(2,3) that in simp_all)
  define v1 where "v1 = fold (fips_step M) [t..<t + 5] v"
  define v2 where "v2 = fold (fips_step M) [t + 5..<t + 10] v1"
  define v3 where "v3 = fold (fips_step M) [t + 10..<t + 15] v2"
  define v4 where "v4 = fold (fips_step M) [t + 15..<t + 20] v3"
  obtain W1 where 1: "sha1_sched M (t + 5) W1" "sha1_five F K t (W, v) = (W1, v1)"
    using five [OF assms(1), of "t + 5" v] by (auto simp: v1_def)
  obtain W2 where 2: "sha1_sched M (t + 10) W2" "sha1_five F K (t + 5) (W1, v1) = (W2, v2)"
    using five [OF 1(1), of "t + 10" v1] by (auto simp: v2_def)
  obtain W3 where 3: "sha1_sched M (t + 15) W3" "sha1_five F K (t + 10) (W2, v2) = (W3, v3)"
    using five [OF 2(1), of "t + 15" v2] by (auto simp: v3_def)
  obtain W4 where 4: "sha1_sched M (t + 20) W4" "sha1_five F K (t + 15) (W3, v3) = (W4, v4)"
    using five [OF 3(1), of "t + 20" v3] by (auto simp: v4_def)
  have "[t..<t + 20] = [t..<t + 5] @ [t + 5..<t + 10] @ [t + 10..<t + 15] @ [t + 15..<t + 20]"
    using upt_split [of t "t + 5" "t + 20"] upt_split [of "t + 5" "t + 10" "t + 20"] upt_split [of "t + 10" "t + 15" "t + 20"] by simp
  then have "fold (fips_step M) [t..<t + 20] v = v4"
    by (simp only: fold_append o_apply v1_def v2_def v3_def v4_def)
  then show ?thesis using 4(1) by (simp only: sha1_twenty_def 1(2) 2(2) 3(2) 4(2)) blast
qed

lemma sha1_process_fips: "sha1_process H M = fips_compress H M"
proof -
  define W where "W = map (\<lambda>i. MBEDTLS_GET_UINT32_BE M (4 * i)) [0..<16]"
  define v where "v = (H ! 0, H ! 1, H ! 2, H ! 3, H ! 4)"
  have 0: "sha1_sched M 0 W"
    by (auto simp: sha1_sched_def W_def fips_W.simps)
  obtain W1 where 1: "sha1_sched M 20 W1" "sha1_twenty sha1_F0 0x5A827999 0 (W, v) = (W1, fold (fips_step M) [0..<20] v)"
    using sha1_twenty_fips [OF 0, of sha1_F0 "0x5A827999" v] by (auto simp: sha1_F_fips fips_K_def)
  define v1 where "v1 = fold (fips_step M) [0..<20] v"
  obtain W2 where 2: "sha1_sched M 40 W2" "sha1_twenty sha1_F20 0x6ED9EBA1 20 (W1, v1) = (W2, fold (fips_step M) [20..<40] v1)"
    using sha1_twenty_fips [OF 1(1), of sha1_F20 "0x6ED9EBA1" v1] by (auto simp: sha1_F_fips fips_K_def)
  define v2 where "v2 = fold (fips_step M) [20..<40] v1"
  obtain W3 where 3: "sha1_sched M 60 W3" "sha1_twenty sha1_F40 0x8F1BBCDC 40 (W2, v2) = (W3, fold (fips_step M) [40..<60] v2)"
    using sha1_twenty_fips [OF 2(1), of sha1_F40 "0x8F1BBCDC" v2] by (auto simp: sha1_F_fips fips_K_def)
  define v3 where "v3 = fold (fips_step M) [40..<60] v2"
  obtain W4 where 4: "sha1_sched M 80 W4" "sha1_twenty sha1_F20 0xCA62C1D6 60 (W3, v3) = (W4, fold (fips_step M) [60..<80] v3)"
    using sha1_twenty_fips [OF 3(1), of sha1_F20 "0xCA62C1D6" v3] by (auto simp: sha1_F_fips fips_K_def)
  have r: "[0..<80] = [0..<20] @ [20..<40] @ [40..<60] @ [60..<80]"
    using upt_split [of 0 20 80] upt_split [of 20 40 80] upt_split [of 40 60 80] by simp
  have v4: "fold (fips_step M) [60..<80] v3 = fold (fips_step M) [0..<80] v"
    by (simp only: r fold_append o_apply v1_def v2_def v3_def)
  show ?thesis
    unfolding sha1_process_def fips_compress_def Let_def W_def [symmetric] v_def [symmetric] 1(2) v1_def [symmetric] 2(2)
      v2_def [symmetric] 3(2) v3_def [symmetric] 4(2) v4
    by (simp add: add.commute split: prod.split)
qed

section \<open>Input in pieces\<close>

lemma fips_blocks_short: "length m < 64 \<Longrightarrow> fips_blocks H m = H"
  by (simp add: fips_blocks.simps)

lemma fips_blocks_append: "length a mod 64 = 0 \<Longrightarrow> fips_blocks H (a @ b) = fips_blocks (fips_blocks H a) b"
proof (induction H a rule: fips_blocks.induct)
  case (1 H m)
  show ?case
  proof (cases "64 \<le> length m")
    case True
    then have "length (drop 64 m) mod 64 = 0" using "1.prems" by (simp add: mod_if)
    then have "fips_blocks (fips_compress H (take 64 m)) (drop 64 m @ b) = fips_blocks (fips_blocks (fips_compress H (take 64 m)) (drop 64 m)) b"
      using "1.IH" True by simp
    then show ?thesis using True by (simp add: fips_blocks.simps [of H])
  next
    case False
    then have "m = []" using "1.prems" by simp
    then show ?thesis by (simp add: fips_blocks_short)
  qed
qed

lemma fips_blocks_one: "length a = 64 \<Longrightarrow> fips_blocks H a = fips_compress H a"
  by (simp add: fips_blocks.simps [of H] fips_blocks_short)

lemma sha1_blocks_fips:
  "sha1_blocks input c = (drop (64 * (length input div 64)) input, c\<lparr>sha1_state := fips_blocks (sha1_state c) input\<rparr>)"
proof (induction input c rule: sha1_blocks.induct)
  case (1 input c)
  show ?case
  proof (cases "64 \<le> length input")
    case True
    then have "length input div 64 = Suc ((length input - 64) div 64)" by (simp add: le_div_geq)
    with True 1 show ?thesis
      by (simp add: sha1_blocks.simps [of input] fips_blocks.simps [of "sha1_state c" input] mbedtls_internal_sha1_process_def sha1_process_fips add.commute)
  next
    case False
    then show ?thesis by (simp add: sha1_blocks.simps [of input] fips_blocks_short)
  qed
qed

text \<open>A context that has taken the input \<open>m\<close>: the whole blocks \<open>a\<close> are in its state, the rest \<open>r\<close> is in its buffer.\<close>

definition sha1_at :: "u8 list \<Rightarrow> sha1_context \<Rightarrow> bool" where
  "sha1_at m c \<longleftrightarrow> (\<exists>a r. m = a @ r \<and> length a mod 64 = 0 \<and> length r < 64 \<and> sha1_state c = fips_blocks fips_H0 a \<and>
     take (length r) (sha1_buffer c) = r \<and> length (sha1_buffer c) = 64 \<and>
     sha1_total0 c = of_nat (length m) \<and> sha1_total1 c = of_nat (length m div 2 ^ 32))"

lemma bytes_put_prefix: "take i buf = p \<Longrightarrow> bytes_put i bs buf = p @ bs @ drop (i + length bs) buf"
  by (simp add: bytes_put_def)

lemma length_bytes_put [simp]: "i + length bs \<le> length buf \<Longrightarrow> length (bytes_put i bs buf) = length buf"
  by (simp add: bytes_put_def)

lemma sha1_starts_at: "length (sha1_buffer c) = 64 \<Longrightarrow> sha1_at [] (mbedtls_sha1_starts c)"
  by (simp add: sha1_at_def mbedtls_sha1_starts_def fips_H0_def fips_blocks_short)

lemma and_63: "unat (of_nat n AND 0x3F :: u32) = n mod 64"
proof -
  have "(of_nat n :: u32) AND 0x3F = take_bit 6 (of_nat n)"
    by (simp add: take_bit_eq_mask mask_eq_exp_minus_1)
  then have "unat (of_nat n AND 0x3F :: u32) = unat (of_nat n :: u32) mod 64"
    by (simp only: unsigned_take_bit_eq) (simp add: take_bit_eq_mod)
  then show ?thesis by (simp add: unat_of_nat take_bit_eq_mod mod_mod_cancel)
qed

text \<open>The two words of the length count like one word of 64 bits.\<close>

lemma carry:
  fixes n k N :: nat
  assumes "k < N"
  shows "(n + k) mod N = (if N \<le> n mod N + k then n mod N + k - N else n mod N + k)"
    "(n + k) div N = n div N + (if N \<le> n mod N + k then 1 else 0)"
proof -
  define q r where "q = n div N" and "r = n mod N"
  have n: "n + k = N * q + (r + k)" and r: "r < N" using assms by (simp_all add: q_def r_def)
  have "(r + k) mod N = (if N \<le> r + k then r + k - N else r + k)" "(r + k) div N = (if N \<le> r + k then 1 else 0)"
    using assms r by (auto simp: le_div_geq le_mod_geq)
  then have "(n + k) mod N = (if N \<le> r + k then r + k - N else r + k)" "(n + k) div N = q + (if N \<le> r + k then 1 else 0)"
    unfolding n using r by simp_all
  then show "(n + k) mod N = (if N \<le> n mod N + k then n mod N + k - N else n mod N + k)"
    "(n + k) div N = n div N + (if N \<le> n mod N + k then 1 else 0)"
    by (simp_all only: q_def r_def)
qed

lemma total_carry:
  assumes "k < 2 ^ 32"
  shows "(of_nat n + of_nat k :: u32) < of_nat k \<longleftrightarrow> 2 ^ 32 \<le> n mod 2 ^ 32 + k"
proof -
  have "(of_nat (n + k) :: u32) < of_nat k \<longleftrightarrow> (n + k) mod 2 ^ 32 < k"
    unfolding word_less_nat_alt unat_of_nat take_bit_eq_mod using assms by simp
  also have "\<dots> \<longleftrightarrow> 2 ^ 32 \<le> n mod 2 ^ 32 + k"
    using carry(1) [OF assms, of n] mod_less_divisor [of "2 ^ 32" n] assms by (auto split: if_splits)
  finally show ?thesis by simp
qed

lemma sha1_update_at:
  assumes "sha1_at m c" "length x < 2 ^ 32"
  shows "sha1_at (m @ x) (mbedtls_sha1_update x c)"
proof (cases "x = []")
  case True
  then show ?thesis using assms by (simp add: mbedtls_sha1_update_def)
next
  case False
  obtain a r where m: "m = a @ r" and a: "length a mod 64 = 0" and r: "length r < 64"
    and st: "sha1_state c = fips_blocks fips_H0 a" and buf: "take (length r) (sha1_buffer c) = r" "length (sha1_buffer c) = 64"
    and tot: "sha1_total0 c = of_nat (length m)" "sha1_total1 c = of_nat (length m div 2 ^ 32)"
    using assms(1) by (auto simp: sha1_at_def)
  have ne: "(of_nat (length x) :: u32) \<noteq> 0"
    using False assms(2) by (auto simp: word_unat_eq_iff unat_of_nat take_bit_eq_mod)
  have "length m mod 64 = length r" using a r by (simp add: m mod_add_left_eq [symmetric])
  then have left: "unat (sha1_total0 c AND 0x3F) = length r" by (simp only: tot and_63)
  define c1 where "c1 = (let c = c\<lparr>sha1_total0 := sha1_total0 c + of_nat (length x)\<rparr>
    in if sha1_total0 c < of_nat (length x) then c\<lparr>sha1_total1 := sha1_total1 c + 1\<rparr> else c)"
  have c1: "sha1_state c1 = sha1_state c" "sha1_buffer c1 = sha1_buffer c"
    "sha1_total0 c1 = of_nat (length (m @ x))" "sha1_total1 c1 = of_nat (length (m @ x) div 2 ^ 32)"
    using total_carry [OF assms(2), of "length m"] carry(2) [OF assms(2), of "length m"]
    by (auto simp: c1_def Let_def tot split: if_splits)
  show ?thesis
  proof (cases "length r \<noteq> 0 \<and> 64 - length r \<le> length x")
    case True
    define y where "y = drop (64 - length r) x"
    define b where "b = r @ take (64 - length r) x"
    have b: "length b = 64" "bytes_put (length r) (take (64 - length r) x) (sha1_buffer c) = b"
      using True r buf by (simp_all add: b_def bytes_put_prefix [OF buf(1)])
    define n where "n = 64 * (length y div 64)"
    have upd: "mbedtls_sha1_update x c = c1\<lparr>sha1_buffer := bytes_put 0 (drop n y) b, sha1_state := fips_blocks (fips_compress (fips_blocks fips_H0 a) b) y\<rparr>"
      using ne True unfolding mbedtls_sha1_update_def Let_def left
      by (simp add: c1_def Let_def b sha1_blocks_fips mbedtls_internal_sha1_process_def sha1_process_fips st y_def [symmetric] n_def)
    have mx: "m @ x = (a @ b @ take n y) @ drop n y" by (simp add: m b_def y_def del: drop_drop)
    have ty: "length (take n y) = n" "n mod 64 = 0" "length (drop n y) < 64" by (simp_all add: n_def minus_mult_div_eq_mod)
    have "fips_blocks fips_H0 (a @ b @ take n y) = fips_blocks (fips_compress (fips_blocks fips_H0 a) b) (take n y)"
      using a b(1) by (simp add: fips_blocks_append fips_blocks_one)
    also have "\<dots> = fips_blocks (fips_compress (fips_blocks fips_H0 a) b) (take n y @ drop n y)"
      using ty by (subst fips_blocks_append) (simp_all add: fips_blocks_short)
    finally have s: "fips_blocks fips_H0 (a @ b @ take n y) = fips_blocks (fips_compress (fips_blocks fips_H0 a) b) y" by simp
    show ?thesis
      unfolding sha1_at_def
    proof (intro exI conjI)
      show "m @ x = (a @ b @ take n y) @ drop n y" by (rule mx)
      show "length (a @ b @ take n y) mod 64 = 0" using a b(1) ty by (simp add: mod_add_left_eq [symmetric] mod_simps)
    qed (use ty b(1) in \<open>simp_all add: upd s c1 bytes_put_def\<close>)
  next
    case F: False
    define n where "n = 64 * (length x div 64)"
    have upd: "mbedtls_sha1_update x c = c1\<lparr>sha1_buffer := bytes_put (length r) (drop n x) (sha1_buffer c), sha1_state := fips_blocks (fips_blocks fips_H0 a) x\<rparr>"
      using ne F unfolding mbedtls_sha1_update_def Let_def left
      by (auto simp add: c1_def Let_def sha1_blocks_fips st n_def)
    have ty: "length (take n x) = n" "n mod 64 = 0" "length (drop n x) < 64" by (simp_all add: n_def minus_mult_div_eq_mod)
    show ?thesis
    proof (cases "r = []")
      case True
      have "fips_blocks fips_H0 (a @ take n x) = fips_blocks (fips_blocks fips_H0 a) (take n x @ drop n x)"
        using a ty by (simp add: fips_blocks_append fips_blocks_short del: append_take_drop_id)
      then have s: "fips_blocks fips_H0 (a @ take n x) = fips_blocks (fips_blocks fips_H0 a) x" by simp
      show ?thesis
        unfolding sha1_at_def
      proof (intro exI conjI)
        show "m @ x = (a @ take n x) @ drop n x" by (simp add: m True)
        show "length (a @ take n x) mod 64 = 0" using a ty by (simp add: mod_add_left_eq [symmetric] mod_simps)
      qed (use ty buf in \<open>simp_all add: upd s c1 True bytes_put_def\<close>)
    next
      case ne: False
      then have x: "length x < 64 - length r" using F by simp
      then have "n = 0" by (simp add: n_def)
      show ?thesis
        unfolding sha1_at_def
      proof (intro exI conjI)
        show "m @ x = a @ (r @ x)" by (simp add: m)
        show "sha1_state (mbedtls_sha1_update x c) = fips_blocks fips_H0 a" using x by (simp add: upd fips_blocks_short)
      qed (use a x buf \<open>n = 0\<close> in \<open>simp_all add: upd c1 bytes_put_prefix [OF buf(1)]\<close>)
    qed
  qed
qed

lemma length_put_uint32_be [simp]: "length (put_uint32_be n) = 4"
  by (simp add: put_uint32_be_def)

text \<open>The number of bits, as the code computes it from the two words of the number of bytes.\<close>

lemma sha1_bit_count:
  fixes n :: nat
  shows "drop_bit 29 (of_nat n :: u32) OR push_bit 3 (of_nat (n div 2 ^ 32)) = ucast (drop_bit 32 (of_nat (8 * n) :: 64 word))"
    "push_bit 3 (of_nat n :: u32) = ucast (of_nat (8 * n) :: 64 word)"
proof -
  have "8 * n = push_bit 3 n" by (simp add: push_bit_eq_mult)
  then have l: "bit (8 * n) k \<longleftrightarrow> 3 \<le> k \<and> bit n (k - 3)" for k
    by (simp only: bit_push_bit_iff_nat)
  have h: "bit (n div 2 ^ 32) k \<longleftrightarrow> bit n (k + 32)" for k
    by (simp only: drop_bit_eq_div [symmetric] bit_drop_bit_eq o_apply add.commute [of 32 k])
  then have h: "bit (n div 4294967296) k \<longleftrightarrow> bit n (k + 32)" for k by simp
  show "drop_bit 29 (of_nat n :: u32) OR push_bit 3 (of_nat (n div 2 ^ 32)) = ucast (drop_bit 32 (of_nat (8 * n) :: 64 word))"
  proof (rule bit_word_eqI)
    fix k assume k: "k < LENGTH(32)"
    have "29 + k < 32 \<and> bit n (29 + k) \<or> 3 \<le> k \<and> bit n (k - 3 + 32) \<longleftrightarrow> bit n (29 + k)"
      by (cases "3 \<le> k") (simp_all add: add.commute)
    then show "bit (drop_bit 29 (of_nat n :: u32) OR push_bit 3 (of_nat (n div 2 ^ 32))) k =
        bit (ucast (drop_bit 32 (of_nat (8 * n) :: 64 word)) :: u32) k"
      using k by (auto simp add: bit_simps l h simp del: of_nat_div of_nat_mult)
  qed
  show "push_bit 3 (of_nat n :: u32) = ucast (of_nat (8 * n) :: 64 word)"
    by (rule bit_word_eqI) (auto simp add: bit_simps l simp del: of_nat_mult)
qed

lemma bytes_put_at: "length p = i \<Longrightarrow> length bs = length q \<Longrightarrow> bytes_put i bs (p @ q @ s) = p @ bs @ s"
  by (simp add: bytes_put_def)

lemma sha1_finish_fips:
  assumes "sha1_at m c"
  shows "mbedtls_sha1_finish c = (fips_sha1 m, mbedtls_sha1_init)"
proof -
  obtain a r where m: "m = a @ r" and a: "length a mod 64 = 0" and r: "length r < 64"
    and st: "sha1_state c = fips_blocks fips_H0 a" and buf: "take (length r) (sha1_buffer c) = r" "length (sha1_buffer c) = 64"
    and tot: "sha1_total0 c = of_nat (length m)" "sha1_total1 c = of_nat (length m div 2 ^ 32)"
    using assms by (auto simp: sha1_at_def)
  have lr: "length m mod 64 = length r" using a r by (simp add: m mod_add_left_eq [symmetric])
  then have used: "unat (sha1_total0 c AND 0x3F) = length r" by (simp only: tot and_63)
  define u where "u = length r"
  define len where "len = put_uint32_be (ucast (drop_bit 32 (of_nat (8 * length m) :: 64 word))) @ put_uint32_be (ucast (of_nat (8 * length m) :: 64 word))"
  have len: "put_uint32_be (drop_bit 29 (of_nat (length m)) OR push_bit 3 (of_nat (length m div 2 ^ 32))) @ put_uint32_be (push_bit 3 (of_nat (length m))) = len"
    "length len = 8"
    by (simp only: sha1_bit_count(1), simp only: sha1_bit_count(2) len_def) (simp add: len_def)
  have pad: "fips_pad m = a @ r @ [0x80] @ replicate ((119 - u) mod 64) 0 @ len"
    by (simp add: fips_pad_def Let_def m lr [unfolded m, simplified] u_def len_def)
  define hi lo where "hi = put_uint32_be (drop_bit 29 (sha1_total0 c) OR push_bit 3 (sha1_total1 c))"
    and "lo = put_uint32_be (push_bit 3 (sha1_total0 c))"
  have hilo: "hi @ lo = len" "length hi = 4" "length lo = 4" using len by (simp_all add: hi_def lo_def tot)
  obtain s where s: "sha1_buffer c = r @ s" "length s = 64 - u"
    using buf r by (metis append_take_drop_id length_drop u_def)
  have b0: "bytes_put u [0x80] (sha1_buffer c) = (r @ [0x80]) @ drop 1 s"
    by (simp add: bytes_put_def s u_def)
  have last: "bytes_put 60 lo (bytes_put 56 hi (p @ q)) = p @ len" if "length p = 56" "length q = 8" for p q
    using that hilo by (simp add: bytes_put_def flip: hilo(1))
  show ?thesis
  proof (cases "u + 1 \<le> 56")
    case True
    define b where "b = r @ [0x80] @ replicate (55 - u) 0 @ len"
    have "bytes_put (u + 1) (replicate (56 - (u + 1)) 0) (bytes_put u [0x80] (sha1_buffer c)) =
        (r @ [0x80] @ replicate (55 - u) 0) @ drop (56 - u) s"
      using True Suc_diff_le [of u 55] s by (simp add: b0 bytes_put_def u_def)
    then have "bytes_put 60 lo (bytes_put 56 hi (bytes_put (u + 1) (replicate (56 - (u + 1)) 0) (bytes_put u [0x80] (sha1_buffer c)))) = b"
      using True s last [of "r @ [0x80] @ replicate (55 - u) 0" "drop (56 - u) s"] by (simp add: b_def u_def)
    then have "mbedtls_sha1_finish c = (concat (map put_uint32_be (fips_compress (fips_blocks fips_H0 a) b)), mbedtls_sha1_init)"
      using True unfolding mbedtls_sha1_finish_def Let_def used u_def [symmetric]
      by (simp add: hi_def [symmetric] lo_def [symmetric] mbedtls_internal_sha1_process_def sha1_process_fips mbedtls_sha1_free_def st)
    moreover have "length b = 64" using True r len by (simp add: b_def u_def)
    moreover have "fips_pad m = a @ b" using True by (simp add: pad b_def mod_if)
    ultimately show ?thesis by (simp add: fips_sha1_def fips_blocks_append [OF a] fips_blocks_one)
  next
    case False
    define b1 where "b1 = r @ [0x80] @ replicate (63 - u) (0 :: u8)"
    define b2 where "b2 = replicate 56 0 @ len"
    have 1: "bytes_put (u + 1) (replicate (64 - (u + 1)) 0) (bytes_put u [0x80] (sha1_buffer c)) = b1"
      using r s by (simp add: b0 bytes_put_def u_def b1_def)
    have lb: "length b1 = 64" "length b2 = 64" using r len by (simp_all add: b1_def b2_def u_def)
    have 2: "bytes_put 60 lo (bytes_put 56 hi (bytes_put 0 (replicate 56 0) b1)) = b2"
      using last [of "replicate 56 0" "drop 56 b1"] lb by (simp add: bytes_put_def [of 0] b2_def)
    have "mbedtls_sha1_finish c = (concat (map put_uint32_be (fips_compress (fips_compress (fips_blocks fips_H0 a) b1) b2)), mbedtls_sha1_init)"
      using False 2 unfolding mbedtls_sha1_finish_def Let_def used u_def [symmetric] 1
      by (simp add: hi_def [symmetric] lo_def [symmetric] mbedtls_internal_sha1_process_def sha1_process_fips mbedtls_sha1_free_def st)
    moreover have "fips_pad m = a @ b1 @ b2"
    proof -
      have "(119 - u) mod 64 = (63 - u) + 56" using False r by (simp add: u_def mod_if)
      then show ?thesis by (simp only: pad b1_def b2_def replicate_add append_assoc)
    qed
    ultimately show ?thesis using lb by (simp add: fips_sha1_def fips_blocks_append [OF a] fips_blocks_append fips_blocks_one)
  qed
qed

lemma sha1_updates_at:
  assumes "sha1_at m c" "\<forall>p \<in> set ps. length p < 2 ^ 32"
  shows "sha1_at (m @ concat ps) (fold mbedtls_sha1_update ps c)"
  using assms
proof (induction ps arbitrary: m c)
  case (Cons p ps)
  then have "sha1_at ((m @ p) @ concat ps) (fold mbedtls_sha1_update ps (mbedtls_sha1_update p c))"
    by (intro Cons.IH sha1_update_at) auto
  then show ?case by simp
qed simp

lemma sha1_start_at: "sha1_at [] (mbedtls_sha1_starts mbedtls_sha1_init)"
  by (rule sha1_starts_at) (simp add: mbedtls_sha1_init_def)

lemma mbedtls_sha1_fips: "length m < 2 ^ 32 \<Longrightarrow> mbedtls_sha1 m = fips_sha1 m"
  using sha1_finish_fips [OF sha1_update_at [OF sha1_start_at, of m]] by (simp add: mbedtls_sha1_def)

lemma length_fips_sha1 [simp]: "length (fips_sha1 m) = 20"
proof -
  have "length (fips_blocks H m) = 5" if "length H = 5" for H m
    using that by (induction H m rule: fips_blocks.induct) (simp add: fips_blocks.simps fips_compress_def split: prod.split)
  then have "length (fips_blocks fips_H0 (fips_pad m)) = 5" by (simp add: fips_H0_def)
  then show ?thesis by (simp add: fips_sha1_def length_concat comp_def sum_list_triv)
qed

text \<open>C32: However a message is cut into pieces, the digest that the code computes is that of the standard, and
  the context is cleared.\<close>

theorem sha1_is_fips:
  assumes "\<forall>p \<in> set ps. length p < 2 ^ 32"
  shows "mbedtls_sha1_finish (fold mbedtls_sha1_update ps (mbedtls_sha1_starts mbedtls_sha1_init)) = (fips_sha1 (concat ps), mbedtls_sha1_init)"
  using sha1_finish_fips [OF sha1_updates_at [OF sha1_start_at assms]] by simp

theorem sha1_is_fips_witness:
  "mbedtls_sha1_finish (fold mbedtls_sha1_update [replicate 60 1, [], replicate 70 2] (mbedtls_sha1_starts mbedtls_sha1_init)) =
   (fips_sha1 (replicate 60 1 @ replicate 70 2), mbedtls_sha1_init)"
  using sha1_is_fips [of "[replicate 60 1, [], replicate 70 2]"] by simp

end
