(* ===== verification/Mbed_Md.thy ===== *)
theory Mbed_Md
  imports Mbed_Sha1
begin

text \<open>
  HMAC-SHA-1 and the derivation of a key from a password, PBKDF2 (\<^verbatim>\<open>md.twl.c\<close> and
  \<^verbatim>\<open>pkcs5.twl.c\<close> of \<^verbatim>\<open>mbedtls/library\<close>). SHA-1 is the only digest of the build, so that every switch over
  digests has one case; no function of it fails once the context is set up. The theory shows that
  the code computes what RFC 2104 and RFC 8018 define.
\<close>

section \<open>HMAC\<close>

text \<open>The context: that of SHA-1 and the two padded keys of 64 bytes, one behind the other.\<close>

record md_context =
  md_ctx :: sha1_context
  hmac_ctx :: "u8 list"

definition md_block_size :: nat where [simp]: "md_block_size = 64"
definition md_size :: nat where [simp]: "md_size = 20"

definition mbedtls_md_setup :: md_context where
  "mbedtls_md_setup = \<lparr>md_ctx = mbedtls_sha1_init, hmac_ctx = replicate (2 * md_block_size) 0\<rparr>"

definition mbedtls_md_starts :: "md_context \<Rightarrow> md_context" where
  "mbedtls_md_starts c = c\<lparr>md_ctx := mbedtls_sha1_starts (md_ctx c)\<rparr>"

definition mbedtls_md_update :: "u8 list \<Rightarrow> md_context \<Rightarrow> md_context" where
  "mbedtls_md_update input c = c\<lparr>md_ctx := mbedtls_sha1_update input (md_ctx c)\<rparr>"

definition mbedtls_md_finish :: "md_context \<Rightarrow> u8 list \<times> md_context" where
  "mbedtls_md_finish c = (let (output, s) = mbedtls_sha1_finish (md_ctx c) in (output, c\<lparr>md_ctx := s\<rparr>))"

definition mbedtls_xor :: "u8 list \<Rightarrow> u8 list \<Rightarrow> u8 list" where
  "mbedtls_xor a b = map2 (XOR) a b @ drop (length b) a"

definition mbedtls_md_hmac_starts :: "u8 list \<Rightarrow> md_context \<Rightarrow> md_context" where
  "mbedtls_md_hmac_starts key c =
     (let (key, c) = (if length key > md_block_size
                      then mbedtls_md_finish (mbedtls_md_update key (mbedtls_md_starts c)) else (key, c));
          ipad = mbedtls_xor (replicate md_block_size 0x36) key;
          opad = mbedtls_xor (replicate md_block_size 0x5C) key;
          c = c\<lparr>hmac_ctx := ipad @ opad\<rparr>
      in mbedtls_md_update ipad (mbedtls_md_starts c))"

definition mbedtls_md_hmac_update :: "u8 list \<Rightarrow> md_context \<Rightarrow> md_context" where
  "mbedtls_md_hmac_update input c = mbedtls_md_update input c"

definition mbedtls_md_hmac_finish :: "md_context \<Rightarrow> u8 list \<times> md_context" where
  "mbedtls_md_hmac_finish c =
     (let opad = take md_block_size (drop md_block_size (hmac_ctx c));
          (tmp, c) = mbedtls_md_finish c;
          c = mbedtls_md_update opad (mbedtls_md_starts c);
          c = mbedtls_md_update (take md_size tmp) c
      in mbedtls_md_finish c)"

definition mbedtls_md_hmac_reset :: "md_context \<Rightarrow> md_context" where
  "mbedtls_md_hmac_reset c = mbedtls_md_update (take md_block_size (hmac_ctx c)) (mbedtls_md_starts c)"

definition mbedtls_md_hmac :: "u8 list \<Rightarrow> u8 list \<Rightarrow> u8 list" where
  "mbedtls_md_hmac key input =
     fst (mbedtls_md_hmac_finish (mbedtls_md_hmac_update input (mbedtls_md_hmac_starts key mbedtls_md_setup)))"

lemma length_mbedtls_md_hmac [simp]: "length (mbedtls_md_hmac key input) = 20"
  by (simp add: mbedtls_md_hmac_def mbedtls_md_hmac_finish_def mbedtls_md_finish_def Let_def split_def)

section \<open>PBKDF2\<close>

text \<open>The counter is incremented from its last byte on, as long as a byte becomes zero.\<close>

fun count_up :: "u8 list \<Rightarrow> u8 list" where
  "count_up [] = []"
| "count_up (x # xs) = (if x + 1 \<noteq> 0 then (x + 1) # xs else 0 # count_up xs)"

fun pbkdf2_rounds :: "nat \<Rightarrow> u8 list \<Rightarrow> u8 list \<Rightarrow> md_context \<Rightarrow> u8 list \<times> md_context" where
  "pbkdf2_rounds 0 md1 work c = (work, c)"
| "pbkdf2_rounds (Suc n) md1 work c =
     (let (md1, c) = mbedtls_md_hmac_finish (mbedtls_md_hmac_update md1 c);
          c = mbedtls_md_hmac_reset c
      in pbkdf2_rounds n md1 (mbedtls_xor work md1) c)"

function pbkdf2_blocks :: "u8 list \<Rightarrow> nat \<Rightarrow> nat \<Rightarrow> u8 list \<Rightarrow> md_context \<Rightarrow> u8 list" where
  "pbkdf2_blocks salt iteration_count key_length counter c =
     (if key_length = 0 then []
      else let (work, c) = mbedtls_md_hmac_finish (mbedtls_md_hmac_update counter (mbedtls_md_hmac_update salt c));
               (work, c) = pbkdf2_rounds (iteration_count - 1) work work (mbedtls_md_hmac_reset c);
               use_len = min key_length md_size
           in take use_len work @ pbkdf2_blocks salt iteration_count (key_length - use_len) (rev (count_up (rev counter))) c)"
  by pat_completeness auto
termination by (relation "measure (\<lambda>(_, _, n, _, _). n)") auto

declare pbkdf2_blocks.simps [simp del]

definition pkcs5_pbkdf2_hmac :: "u8 list \<Rightarrow> u8 list \<Rightarrow> nat \<Rightarrow> nat \<Rightarrow> md_context \<Rightarrow> u8 list" where
  "pkcs5_pbkdf2_hmac password salt iteration_count key_length c =
     pbkdf2_blocks salt iteration_count key_length [0, 0, 0, 1] (mbedtls_md_hmac_starts password c)"

definition mbedtls_pkcs5_pbkdf2_hmac :: "u8 list \<Rightarrow> u8 list \<Rightarrow> nat \<Rightarrow> nat \<Rightarrow> u8 list" where
  "mbedtls_pkcs5_pbkdf2_hmac password salt iteration_count key_length =
     pkcs5_pbkdf2_hmac password salt iteration_count key_length mbedtls_md_setup"

section \<open>The standards\<close>

text \<open>RFC 2104: the key, hashed when it is longer than a block, is filled up with zeros.\<close>

definition rfc2104_key :: "u8 list \<Rightarrow> u8 list" where
  "rfc2104_key K = (let K = (if length K > 64 then fips_sha1 K else K) in K @ replicate (64 - length K) 0)"

definition rfc2104_hmac :: "u8 list \<Rightarrow> u8 list \<Rightarrow> u8 list" where
  "rfc2104_hmac K m =
     fips_sha1 (map (\<lambda>k. k XOR 0x5C) (rfc2104_key K) @ fips_sha1 (map (\<lambda>k. k XOR 0x36) (rfc2104_key K) @ m))"

text \<open>RFC 8018, section 5.2: the chain of each block, the exclusive or of the chain, and the derived key.\<close>

fun rfc8018_U :: "u8 list \<Rightarrow> u8 list \<Rightarrow> nat \<Rightarrow> nat \<Rightarrow> u8 list" where
  "rfc8018_U P S i 0 = rfc2104_hmac P (S @ put_uint32_be (of_nat i))"
| "rfc8018_U P S i (Suc j) = rfc2104_hmac P (rfc8018_U P S i j)"

definition rfc8018_F :: "u8 list \<Rightarrow> u8 list \<Rightarrow> nat \<Rightarrow> nat \<Rightarrow> u8 list" where
  "rfc8018_F P S c i = fold (\<lambda>j w. map2 (XOR) w (rfc8018_U P S i j)) [1..<c] (rfc8018_U P S i 0)"

definition rfc8018_pbkdf2 :: "u8 list \<Rightarrow> u8 list \<Rightarrow> nat \<Rightarrow> nat \<Rightarrow> u8 list" where
  "rfc8018_pbkdf2 P S c dkLen = take dkLen (concat (map (rfc8018_F P S c) [1..<(dkLen + 19) div 20 + 1]))"

section \<open>The code computes HMAC\<close>

lemma xor_pad:
  assumes "length K \<le> 64"
  shows "mbedtls_xor (replicate 64 p) K = map (\<lambda>k. k XOR p) (K @ replicate (64 - length K) 0)"
  using assms by (intro nth_equalityI) (auto simp: mbedtls_xor_def nth_append xor.commute)

text \<open>A context with the key \<open>K\<close> that has taken the input \<open>m\<close>.\<close>

definition hmac_pad :: "u8 list \<Rightarrow> u8 \<Rightarrow> u8 list" where
  "hmac_pad K p = map (\<lambda>k. k XOR p) (rfc2104_key K)"

definition hmac_at :: "u8 list \<Rightarrow> u8 list \<Rightarrow> md_context \<Rightarrow> bool" where
  "hmac_at K m c \<longleftrightarrow> hmac_ctx c = hmac_pad K 0x36 @ hmac_pad K 0x5C \<and> sha1_at (hmac_pad K 0x36 @ m) (md_ctx c)"

lemma length_hmac_pad [simp]: "length (hmac_pad K p) = 64"
  by (simp add: hmac_pad_def rfc2104_key_def Let_def)

lemma sha1_init_buffer [simp]: "length (sha1_buffer mbedtls_sha1_init) = 64"
  by (simp add: mbedtls_sha1_init_def)

lemma md_starts_at: "length (sha1_buffer (md_ctx c)) = 64 \<Longrightarrow> sha1_at [] (md_ctx (mbedtls_md_starts c))"
  by (simp add: mbedtls_md_starts_def sha1_starts_at)

lemma md_update_at: "sha1_at m (md_ctx c) \<Longrightarrow> length x < 2 ^ 32 \<Longrightarrow> sha1_at (m @ x) (md_ctx (mbedtls_md_update x c))"
  by (simp add: mbedtls_md_update_def sha1_update_at)

lemma md_finish_at: "sha1_at m (md_ctx c) \<Longrightarrow> mbedtls_md_finish c = (fips_sha1 m, c\<lparr>md_ctx := mbedtls_sha1_init\<rparr>)"
  by (simp add: mbedtls_md_finish_def sha1_finish_fips)

lemma md_frame [simp]: "hmac_ctx (mbedtls_md_starts c) = hmac_ctx c" "hmac_ctx (mbedtls_md_update x c) = hmac_ctx c"
  by (simp_all add: mbedtls_md_starts_def mbedtls_md_update_def)

lemma hmac_starts_at:
  assumes "length (sha1_buffer (md_ctx c)) = 64" "length K < 2 ^ 32"
  shows "hmac_at K [] (mbedtls_md_hmac_starts K c)"
proof -
  define K' where "K' = (if 64 < length K then fips_sha1 K else K)"
  define c' where "c' = (if 64 < length K then (mbedtls_md_update K (mbedtls_md_starts c))\<lparr>md_ctx := mbedtls_sha1_init\<rparr> else c)"
  have "(if 64 < length K then mbedtls_md_finish (mbedtls_md_update K (mbedtls_md_starts c)) else (K, c)) = (K', c')"
    using md_finish_at [OF md_update_at [OF md_starts_at [OF assms(1)] assms(2)]] by (simp add: K'_def c'_def)
  moreover have "length (sha1_buffer (md_ctx c')) = 64" using assms(1) by (simp add: c'_def)
  moreover have "mbedtls_xor (replicate 64 p) K' = hmac_pad K p" for p
    by (subst xor_pad) (auto simp: K'_def hmac_pad_def rfc2104_key_def Let_def)
  ultimately show ?thesis
    using md_update_at [OF md_starts_at, of "c'\<lparr>hmac_ctx := hmac_pad K 0x36 @ hmac_pad K 0x5C\<rparr>" "hmac_pad K 0x36"]
    by (simp add: mbedtls_md_hmac_starts_def hmac_at_def Let_def)
qed

lemma hmac_update_at: "hmac_at K m c \<Longrightarrow> length x < 2 ^ 32 \<Longrightarrow> hmac_at K (m @ x) (mbedtls_md_hmac_update x c)"
  using md_update_at [of "hmac_pad K 0x36 @ m" c x] by (simp add: hmac_at_def mbedtls_md_hmac_update_def)

lemma hmac_finish_at:
  assumes "hmac_at K m c"
  obtains c' where "mbedtls_md_hmac_finish c = (rfc2104_hmac K m, c')" "hmac_ctx c' = hmac_ctx c" "md_ctx c' = mbedtls_sha1_init"
proof -
  define c1 where "c1 = c\<lparr>md_ctx := mbedtls_sha1_init\<rparr>"
  define tmp where "tmp = fips_sha1 (hmac_pad K 0x36 @ m)"
  define c2 where "c2 = mbedtls_md_update tmp (mbedtls_md_update (hmac_pad K 0x5C) (mbedtls_md_starts c1))"
  have 1: "mbedtls_md_finish c = (tmp, c1)" using assms by (simp add: hmac_at_def md_finish_at tmp_def c1_def)
  have "sha1_at (hmac_pad K 0x5C @ tmp) (md_ctx c2)"
    unfolding c2_def using md_update_at [OF md_update_at [OF md_starts_at], of c1 "hmac_pad K 0x5C" tmp] by (simp add: c1_def tmp_def)
  then have 2: "mbedtls_md_finish c2 = (rfc2104_hmac K m, c2\<lparr>md_ctx := mbedtls_sha1_init\<rparr>)"
    by (simp add: md_finish_at rfc2104_hmac_def tmp_def hmac_pad_def)
  have "take 64 (drop 64 (hmac_ctx c)) = hmac_pad K 0x5C" "length tmp = 20" using assms by (simp_all add: hmac_at_def tmp_def)
  then have "mbedtls_md_hmac_finish c = (rfc2104_hmac K m, c2\<lparr>md_ctx := mbedtls_sha1_init\<rparr>)"
    by (simp add: mbedtls_md_hmac_finish_def Let_def 1 2 c2_def [symmetric])
  moreover have "hmac_ctx c2 = hmac_ctx c" by (simp add: c2_def c1_def)
  ultimately show ?thesis using that [of "c2\<lparr>md_ctx := mbedtls_sha1_init\<rparr>"] by simp
qed

lemma hmac_reset_at:
  assumes "hmac_ctx c = hmac_pad K 0x36 @ hmac_pad K 0x5C" "length (sha1_buffer (md_ctx c)) = 64"
  shows "hmac_at K [] (mbedtls_md_hmac_reset c)"
  using md_update_at [OF md_starts_at [OF assms(2)], of "hmac_pad K 0x36"] assms(1)
  by (simp add: mbedtls_md_hmac_reset_def hmac_at_def)

lemma md_setup_buffer [simp]: "length (sha1_buffer (md_ctx mbedtls_md_setup)) = 64"
  by (simp add: mbedtls_md_setup_def)

lemma mbedtls_md_hmac_rfc:
  assumes "length key < 2 ^ 32" "length input < 2 ^ 32"
  shows "mbedtls_md_hmac key input = rfc2104_hmac key input"
  using hmac_finish_at [OF hmac_update_at [OF hmac_starts_at [OF md_setup_buffer assms(1)] assms(2)]]
  by (metis append_Nil fst_conv mbedtls_md_hmac_def)

lemma length_rfc2104 [simp]: "length (rfc2104_hmac K m) = 20"
  by (simp add: rfc2104_hmac_def)

section \<open>The code computes PBKDF2\<close>

text \<open>The counter holds the digits of a number to the base 256.\<close>

fun le_digits :: "nat \<Rightarrow> nat \<Rightarrow> u8 list" where
  "le_digits 0 n = []"
| "le_digits (Suc k) n = of_nat n # le_digits k (n div 256)"

lemma count_up_digits: "count_up (le_digits k n) = le_digits k (n + 1)"
proof (induction k arbitrary: n)
  case (Suc k)
  have z: "of_nat m = (0 :: u8) \<longleftrightarrow> 256 dvd m" for m
    using word_of_nat_eq_0_iff [where 'a = 8, of m] by simp
  have e: "of_nat n + 1 = (of_nat (n + 1) :: u8)" by simp
  have "of_nat n + 1 = (0 :: u8) \<longleftrightarrow> 256 dvd (n + 1)" unfolding e z ..
  moreover have "256 dvd (n + 1) \<Longrightarrow> (n + 1) div 256 = n div 256 + 1" "\<not> 256 dvd (n + 1) \<Longrightarrow> (n + 1) div 256 = n div 256"
    using carry [of 1 256 n] mod_less_divisor [of 256 n] by (auto simp: dvd_eq_mod_eq_0 split: if_splits)
  moreover have "256 dvd (n + 1) \<Longrightarrow> of_nat (n + 1) = (0 :: u8)" by (simp only: z)
  ultimately show ?case using e Suc.IH [of "n div 256"] by (cases "256 dvd (n + 1)") (simp_all only: count_up.simps le_digits.simps if_True if_False not_True_eq_False not_False_eq_True)
qed simp

lemma put_uint32_be_digits: "put_uint32_be (of_nat n) = rev (le_digits 4 n)"
proof -
  have b: "ucast (drop_bit j (of_nat n :: u32)) = (of_nat (n div 2 ^ j) :: u8)" if "j \<le> 24" for j
  proof (rule bit_word_eqI)
    fix k assume "k < LENGTH(8)"
    moreover have "bit (n div 2 ^ j) k \<longleftrightarrow> bit n (j + k)"
      by (simp only: drop_bit_eq_div [symmetric] bit_drop_bit_eq o_apply)
    ultimately show "bit (ucast (drop_bit j (of_nat n :: u32)) :: u8) k = bit (of_nat (n div 2 ^ j) :: u8) k"
      using that by (simp only: bit_unsigned_iff bit_drop_bit_eq o_apply bit_of_nat_iff possible_bit_word) auto
  qed
  have "4 = Suc (Suc (Suc (Suc 0)))" by simp
  then have "le_digits 4 n = [of_nat n, of_nat (n div 256), of_nat (n div 256 div 256), of_nat (n div 256 div 256 div 256)]"
    by (simp only: le_digits.simps)
  then show ?thesis using b [of 8] b [of 16] b [of 24] b [of 0] by (simp add: put_uint32_be_def div_mult2_eq [symmetric])
qed

lemma count_up_be: "rev (count_up (rev (put_uint32_be (of_nat n)))) = put_uint32_be (of_nat (n + 1))"
  by (simp only: put_uint32_be_digits rev_rev_ident count_up_digits)

lemma length_rfc8018_U [simp]: "length (rfc8018_U P S i j) = 20"
  by (cases j) simp_all

lemma pbkdf2_rounds_at:
  assumes "hmac_at P [] c" "length w = 20"
  obtains c' where "pbkdf2_rounds n (rfc8018_U P S i k) w c = (fold (\<lambda>j w. map2 (XOR) w (rfc8018_U P S i j)) [Suc k..<Suc k + n] w, c')" "hmac_at P [] c'"
  using assms
proof (induction n arbitrary: k w c thesis)
  case (Suc n)
  define u where "u = rfc8018_U P S i (Suc k)"
  have "length (rfc8018_U P S i k) < 2 ^ 32" by simp
  from hmac_finish_at [OF hmac_update_at [OF Suc.prems(2) this]] obtain c1 where
    c1: "mbedtls_md_hmac_finish (mbedtls_md_hmac_update (rfc8018_U P S i k) c) = (u, c1)"
      "hmac_ctx c1 = hmac_ctx (mbedtls_md_hmac_update (rfc8018_U P S i k) c)" "md_ctx c1 = mbedtls_sha1_init"
    by (auto simp: u_def)
  have "hmac_ctx c1 = hmac_pad P 0x36 @ hmac_pad P 0x5C"
    using Suc.prems(2) c1(2) by (simp add: hmac_at_def mbedtls_md_hmac_update_def)
  then have c2: "hmac_at P [] (mbedtls_md_hmac_reset c1)" by (rule hmac_reset_at) (simp add: c1(3))
  have x: "mbedtls_xor w u = map2 (XOR) w u" using Suc.prems(3) by (simp add: mbedtls_xor_def u_def)
  have "length (map2 (XOR) w u) = 20" using Suc.prems(3) by (simp add: u_def)
  from Suc.IH [OF _ c2 this, of "Suc k"] obtain c' where
    "pbkdf2_rounds n u (map2 (XOR) w u) (mbedtls_md_hmac_reset c1) = (fold (\<lambda>j w. map2 (XOR) w (rfc8018_U P S i j)) [Suc (Suc k)..<Suc (Suc k) + n] (map2 (XOR) w u), c')"
    "hmac_at P [] c'" unfolding u_def by blast
  then show ?case using Suc.prems(1) c1(1) x by (simp add: upt_conv_Cons u_def del: upt_Suc)
qed simp

lemma length_rfc8018_F [simp]: "length (rfc8018_F P S c i) = 20"
proof -
  have "length (fold (\<lambda>j w. map2 (XOR) w (rfc8018_U P S i j)) js w) = 20" if "length w = 20" for js w
    using that by (induction js arbitrary: w) simp_all
  then show ?thesis by (simp add: rfc8018_F_def)
qed

lemma pbkdf2_blocks_rfc:
  assumes "hmac_at P [] c" "length S < 2 ^ 32"
  shows "pbkdf2_blocks S cnt n (put_uint32_be (of_nat i)) c = take n (concat (map (rfc8018_F P S cnt) [i..<i + (n + 19) div 20]))"
  using assms(1)
proof (induction n arbitrary: i c rule: less_induct)
  case (less n)
  show ?case
  proof (cases "n = 0")
    case True
    then show ?thesis by (simp add: pbkdf2_blocks.simps)
  next
    case False
    have "hmac_at P (S @ put_uint32_be (of_nat i)) (mbedtls_md_hmac_update (put_uint32_be (of_nat i)) (mbedtls_md_hmac_update S c))"
      using hmac_update_at [OF hmac_update_at [OF less.prems assms(2)], of "put_uint32_be (of_nat i)"] by simp
    from hmac_finish_at [OF this] obtain c1 where
      c1: "mbedtls_md_hmac_finish (mbedtls_md_hmac_update (put_uint32_be (of_nat i)) (mbedtls_md_hmac_update S c)) = (rfc8018_U P S i 0, c1)"
        "hmac_ctx c1 = hmac_ctx (mbedtls_md_hmac_update (put_uint32_be (of_nat i)) (mbedtls_md_hmac_update S c))" "md_ctx c1 = mbedtls_sha1_init"
      by auto
    have "hmac_ctx c1 = hmac_pad P 0x36 @ hmac_pad P 0x5C"
      using less.prems c1(2) by (simp add: hmac_at_def mbedtls_md_hmac_update_def)
    then have c2: "hmac_at P [] (mbedtls_md_hmac_reset c1)" by (rule hmac_reset_at) (simp add: c1(3))
    obtain c3 where c3: "pbkdf2_rounds (cnt - 1) (rfc8018_U P S i 0) (rfc8018_U P S i 0) (mbedtls_md_hmac_reset c1) =
        (fold (\<lambda>j w. map2 (XOR) w (rfc8018_U P S i j)) [Suc 0..<Suc 0 + (cnt - 1)] (rfc8018_U P S i 0), c3)" "hmac_at P [] c3"
      by (rule pbkdf2_rounds_at [OF c2 length_rfc8018_U])
    have "[Suc 0..<Suc 0 + (cnt - 1)] = [1..<cnt]" by (cases cnt) simp_all
    then have F: "pbkdf2_rounds (cnt - 1) (rfc8018_U P S i 0) (rfc8018_U P S i 0) (mbedtls_md_hmac_reset c1) = (rfc8018_F P S cnt i, c3)"
      using c3(1) by (simp only: rfc8018_F_def)
    define u where "u = min n 20"
    have IH: "pbkdf2_blocks S cnt (n - u) (put_uint32_be (of_nat (i + 1))) c3 =
        take (n - u) (concat (map (rfc8018_F P S cnt) [i + 1..<i + 1 + (n - u + 19) div 20]))"
      using False less.IH [OF _ c3(2), of "n - u" "i + 1"] by (simp add: u_def)
    have "(n + 19) div 20 = Suc ((n - u + 19) div 20)"
    proof (cases "n \<le> 20")
      case True
      then have "(n + 19) div 20 = 1" using False by (intro div_nat_eqI) simp_all
      then show ?thesis using True by (simp add: u_def)
    next
      case F: False
      then have "n + 19 = (n - u + 19) + 20" by (simp add: u_def)
      then show ?thesis by (simp only: div_add_self2 zero_neq_numeral not_False_eq_True)
    qed
    then have r: "[i..<i + (n + 19) div 20] = i # [i + 1..<i + 1 + (n - u + 19) div 20]"
      by (simp add: upt_conv_Cons del: upt_Suc)
    have "pbkdf2_blocks S cnt n (put_uint32_be (of_nat i)) c =
        take u (rfc8018_F P S cnt i) @ pbkdf2_blocks S cnt (n - u) (put_uint32_be (of_nat (i + 1))) c3"
      using False by (simp only: pbkdf2_blocks.simps [of S cnt n] c1(1) F Let_def prod.case md_size_def u_def [symmetric] count_up_be if_False)
    also have "\<dots> = take n (rfc8018_F P S cnt i @ concat (map (rfc8018_F P S cnt) [i + 1..<i + 1 + (n - u + 19) div 20]))"
      using False by (simp only: IH) (auto simp: u_def min_def)
    finally show ?thesis by (simp only: r list.map concat.simps)
  qed
qed

lemma pbkdf2_rfc:
  assumes "length P < 2 ^ 32" "length S < 2 ^ 32"
  shows "mbedtls_pkcs5_pbkdf2_hmac P S c n = rfc8018_pbkdf2 P S c n"
proof -
  have "[0, 0, 0, 1] = put_uint32_be (of_nat 1)" by (simp add: put_uint32_be_def)
  then have "mbedtls_pkcs5_pbkdf2_hmac P S c n = pbkdf2_blocks S c n (put_uint32_be (of_nat 1)) (mbedtls_md_hmac_starts P mbedtls_md_setup)"
    by (simp only: mbedtls_pkcs5_pbkdf2_hmac_def pkcs5_pbkdf2_hmac_def)
  also have "\<dots> = take n (concat (map (rfc8018_F P S c) [1..<1 + (n + 19) div 20]))"
    by (rule pbkdf2_blocks_rfc [OF hmac_starts_at [OF md_setup_buffer assms(1)] assms(2)])
  also have "\<dots> = rfc8018_pbkdf2 P S c n"
    unfolding rfc8018_pbkdf2_def add.commute [of 1 "(n + 19) div 20"] ..
  finally show ?thesis .
qed

lemma length_rfc8018_pbkdf2 [simp]: "length (rfc8018_pbkdf2 P S c n) = n"
proof -
  have "n \<le> 20 * ((n + 19) div 20)" by presburger
  then show ?thesis by (simp add: rfc8018_pbkdf2_def length_concat comp_def sum_list_triv mult.commute)
qed

text \<open>C33: The code computes the authentication code of RFC 2104 and derives the key of RFC 8018 from a
  password, for every number of iterations and every length of the key.\<close>

theorem pbkdf2_is_rfc8018:
  assumes "length P < 2 ^ 32" "length S < 2 ^ 32"
  shows "mbedtls_md_hmac P S = rfc2104_hmac P S \<and> mbedtls_pkcs5_pbkdf2_hmac P S c n = rfc8018_pbkdf2 P S c n \<and>
    length (mbedtls_pkcs5_pbkdf2_hmac P S c n) = n"
  using mbedtls_md_hmac_rfc [OF assms] pbkdf2_rfc [OF assms] by simp

theorem pbkdf2_is_rfc8018_witness:
  "mbedtls_pkcs5_pbkdf2_hmac [0x70, 0x77] [0x61, 0x70] 4096 32 = rfc8018_pbkdf2 [0x70, 0x77] [0x61, 0x70] 4096 32 \<and>
   length (mbedtls_pkcs5_pbkdf2_hmac [0x70, 0x77] [0x61, 0x70] 4096 32) = 32"
  using pbkdf2_is_rfc8018 [of "[0x70, 0x77]" "[0x61, 0x70]" 4096 32] by simp

end
