(* ===== verification/Mbed_Aes.thy ===== *)
theory Mbed_Aes
  imports Wifi_Prelude
begin

text \<open>
  AES as the unwrapping of the group key uses it (\<^verbatim>\<open>mbedtls/library/aes.twl.c\<close>, in the build that generates
  its tables at run time): the tables, the key schedules for encryption and decryption, and the two
  block operations with their table-driven rounds. An array of 256 entries is a function of a byte;
  the round keys are a list that the rounds consume from its front. The theory shows that decryption
  with the decryption schedule inverts encryption, for every key and every block.
\<close>

section \<open>Tables\<close>

record aes_tables =
  FSb :: "u8 \<Rightarrow> u8"
  RSb :: "u8 \<Rightarrow> u8"
  FT0 :: "u8 \<Rightarrow> u32"
  FT1 :: "u8 \<Rightarrow> u32"
  FT2 :: "u8 \<Rightarrow> u32"
  FT3 :: "u8 \<Rightarrow> u32"
  RT0 :: "u8 \<Rightarrow> u32"
  RT1 :: "u8 \<Rightarrow> u32"
  RT2 :: "u8 \<Rightarrow> u32"
  RT3 :: "u8 \<Rightarrow> u32"
  round_constants :: "u32 list"

definition ROTL8 :: "u32 \<Rightarrow> u32" where
  "ROTL8 x = (push_bit 8 x AND 0xFFFFFFFF) OR drop_bit 24 x"

definition XTIME :: "u8 \<Rightarrow> u8" where
  "XTIME x = push_bit 1 x XOR (if x AND 0x80 \<noteq> 0 then 0x1B else 0)"

definition aes_MUL :: "(u8 \<Rightarrow> u8) \<Rightarrow> (u8 \<Rightarrow> u8) \<Rightarrow> u8 \<Rightarrow> u8 \<Rightarrow> u8" where
  "aes_MUL pow log x y = (if x \<noteq> 0 \<and> y \<noteq> 0 then pow (of_nat ((unat (log x) + unat (log y)) mod 255)) else 0)"

text \<open>The powers of 3 and their logarithms; entry 0 of the logarithms is not written, and never read.\<close>

fun aes_pow_log :: "nat \<Rightarrow> nat \<Rightarrow> u8 \<Rightarrow> (u8 \<Rightarrow> u8) \<times> (u8 \<Rightarrow> u8) \<Rightarrow> (u8 \<Rightarrow> u8) \<times> (u8 \<Rightarrow> u8)" where
  "aes_pow_log i 0 x (pow, log) = (pow, log)"
| "aes_pow_log i (Suc n) x (pow, log) = aes_pow_log (i + 1) n (x XOR XTIME x) (pow(of_nat i := x), log(x := of_nat i))"

fun aes_round_constants :: "nat \<Rightarrow> u8 \<Rightarrow> u32 list" where
  "aes_round_constants 0 x = []"
| "aes_round_constants (Suc n) x = ucast x # aes_round_constants n (XTIME x)"

definition rotl1 :: "u8 \<Rightarrow> u8" where
  "rotl1 y = push_bit 1 y OR drop_bit 7 y"

definition aes_affine :: "u8 \<Rightarrow> u8" where
  "aes_affine x =
     (let y = rotl1 x; x = x XOR y; y = rotl1 y; x = x XOR y; y = rotl1 y; x = x XOR y; y = rotl1 y
      in x XOR (y XOR 0x63))"

fun aes_sboxes :: "(u8 \<Rightarrow> u8) \<Rightarrow> (u8 \<Rightarrow> u8) \<Rightarrow> nat \<Rightarrow> nat \<Rightarrow> (u8 \<Rightarrow> u8) \<times> (u8 \<Rightarrow> u8) \<Rightarrow> (u8 \<Rightarrow> u8) \<times> (u8 \<Rightarrow> u8)" where
  "aes_sboxes pow log i 0 (f, r) = (f, r)"
| "aes_sboxes pow log i (Suc n) (f, r) =
     (let x = aes_affine (pow (255 - log (of_nat i)))
      in aes_sboxes pow log (i + 1) n (f(of_nat i := x), r(x := of_nat i)))"

definition aes_forward :: "u8 \<Rightarrow> u32" where
  "aes_forward x =
     (let y = XTIME x; z = y XOR x
      in ucast y XOR push_bit 8 (ucast x) XOR push_bit 16 (ucast x) XOR push_bit 24 (ucast z))"

definition aes_reverse :: "(u8 \<Rightarrow> u8) \<Rightarrow> (u8 \<Rightarrow> u8) \<Rightarrow> u8 \<Rightarrow> u32" where
  "aes_reverse pow log x =
     ucast (aes_MUL pow log 0x0E x) XOR push_bit 8 (ucast (aes_MUL pow log 0x09 x)) XOR
     push_bit 16 (ucast (aes_MUL pow log 0x0D x)) XOR push_bit 24 (ucast (aes_MUL pow log 0x0B x))"

definition aes_gen_tables :: aes_tables where
  "aes_gen_tables =
     (let (pow, log) = aes_pow_log 0 256 1 (\<lambda>_. 0, \<lambda>_. 0);
          (f, r) = aes_sboxes pow log 1 255 ((\<lambda>_. 0)(0 := 0x63), (\<lambda>_. 0)(0x63 := 0));
          ft0 = (\<lambda>i. aes_forward (f i)); ft1 = (\<lambda>i. ROTL8 (ft0 i)); ft2 = (\<lambda>i. ROTL8 (ft1 i)); ft3 = (\<lambda>i. ROTL8 (ft2 i));
          rt0 = (\<lambda>i. aes_reverse pow log (r i)); rt1 = (\<lambda>i. ROTL8 (rt0 i)); rt2 = (\<lambda>i. ROTL8 (rt1 i)); rt3 = (\<lambda>i. ROTL8 (rt2 i))
      in \<lparr>FSb = f, RSb = r, FT0 = ft0, FT1 = ft1, FT2 = ft2, FT3 = ft3, RT0 = rt0, RT1 = rt1, RT2 = rt2, RT3 = rt3,
          round_constants = aes_round_constants 10 1\<rparr>)"

section \<open>Key schedules\<close>

definition MBEDTLS_BYTE :: "nat \<Rightarrow> u32 \<Rightarrow> u8" where
  "MBEDTLS_BYTE k x = ucast (drop_bit (8 * k) x)"

definition MBEDTLS_GET_UINT32_LE :: "u8 list \<Rightarrow> nat \<Rightarrow> u32" where
  "MBEDTLS_GET_UINT32_LE d i =
     ucast (d ! i) OR push_bit 8 (ucast (d ! (i + 1))) OR push_bit 16 (ucast (d ! (i + 2))) OR push_bit 24 (ucast (d ! (i + 3)))"

text \<open>The four bytes of a word through the S-box, in the given order.\<close>

definition sub_bytes :: "u8 \<Rightarrow> u8 \<Rightarrow> u8 \<Rightarrow> u8 \<Rightarrow> u32" where
  "sub_bytes a b c d =
     ucast (FSb aes_gen_tables a) XOR push_bit 8 (ucast (FSb aes_gen_tables b)) XOR
     push_bit 16 (ucast (FSb aes_gen_tables c)) XOR push_bit 24 (ucast (FSb aes_gen_tables d))"

definition rot_sub :: "u32 \<Rightarrow> u32" where
  "rot_sub w = sub_bytes (MBEDTLS_BYTE 1 w) (MBEDTLS_BYTE 2 w) (MBEDTLS_BYTE 3 w) (MBEDTLS_BYTE 0 w)"

text \<open>One step of the loop for each key length: RK points to the words at \<open>p\<close>, and the words behind are appended.\<close>

definition aes_expand128 :: "nat \<Rightarrow> u32 list \<Rightarrow> u32 list" where
  "aes_expand128 i rk =
     (let p = 4 * i; k4 = rk ! p XOR round_constants aes_gen_tables ! i XOR rot_sub (rk ! (p + 3));
          k5 = rk ! (p + 1) XOR k4; k6 = rk ! (p + 2) XOR k5; k7 = rk ! (p + 3) XOR k6
      in rk @ [k4, k5, k6, k7])"

definition aes_expand192 :: "nat \<Rightarrow> u32 list \<Rightarrow> u32 list" where
  "aes_expand192 i rk =
     (let p = 6 * i; k6 = rk ! p XOR round_constants aes_gen_tables ! i XOR rot_sub (rk ! (p + 5));
          k7 = rk ! (p + 1) XOR k6; k8 = rk ! (p + 2) XOR k7; k9 = rk ! (p + 3) XOR k8;
          k10 = rk ! (p + 4) XOR k9; k11 = rk ! (p + 5) XOR k10
      in rk @ [k6, k7, k8, k9, k10, k11])"

definition aes_expand256 :: "nat \<Rightarrow> u32 list \<Rightarrow> u32 list" where
  "aes_expand256 i rk =
     (let p = 8 * i; k8 = rk ! p XOR round_constants aes_gen_tables ! i XOR rot_sub (rk ! (p + 7));
          k9 = rk ! (p + 1) XOR k8; k10 = rk ! (p + 2) XOR k9; k11 = rk ! (p + 3) XOR k10;
          k12 = rk ! (p + 4) XOR sub_bytes (MBEDTLS_BYTE 0 k11) (MBEDTLS_BYTE 1 k11) (MBEDTLS_BYTE 2 k11) (MBEDTLS_BYTE 3 k11);
          k13 = rk ! (p + 5) XOR k12; k14 = rk ! (p + 6) XOR k13; k15 = rk ! (p + 7) XOR k14
      in rk @ [k8, k9, k10, k11, k12, k13, k14, k15])"

record aes_context =
  aes_nr :: nat
  aes_buf :: "u32 list"

definition aes_key_words :: "nat \<Rightarrow> u8 list \<Rightarrow> u32 list" where
  "aes_key_words keybits key = map (\<lambda>i. MBEDTLS_GET_UINT32_LE key (4 * i)) [0..<keybits div 32]"

definition mbedtls_aes_setkey_enc :: "u8 list \<Rightarrow> nat \<Rightarrow> aes_context option" where
  "mbedtls_aes_setkey_enc key keybits =
     (if keybits = 128 then Some \<lparr>aes_nr = 10, aes_buf = fold aes_expand128 [0..<10] (aes_key_words keybits key)\<rparr>
      else if keybits = 192 then Some \<lparr>aes_nr = 12, aes_buf = fold aes_expand192 [0..<8] (aes_key_words keybits key)\<rparr>
      else if keybits = 256 then Some \<lparr>aes_nr = 14, aes_buf = fold aes_expand256 [0..<7] (aes_key_words keybits key)\<rparr>
      else None)"

definition aes_inverse_key :: "u32 \<Rightarrow> u32" where
  "aes_inverse_key k =
     RT0 aes_gen_tables (FSb aes_gen_tables (MBEDTLS_BYTE 0 k)) XOR RT1 aes_gen_tables (FSb aes_gen_tables (MBEDTLS_BYTE 1 k)) XOR
     RT2 aes_gen_tables (FSb aes_gen_tables (MBEDTLS_BYTE 2 k)) XOR RT3 aes_gen_tables (FSb aes_gen_tables (MBEDTLS_BYTE 3 k))"

definition mbedtls_aes_setkey_dec :: "u8 list \<Rightarrow> nat \<Rightarrow> aes_context option" where
  "mbedtls_aes_setkey_dec key keybits =
     (case mbedtls_aes_setkey_enc key keybits of
        None \<Rightarrow> None
      | Some cty \<Rightarrow>
          let nr = aes_nr cty; sk = (\<lambda>i. take 4 (drop (4 * i) (aes_buf cty)))
          in Some \<lparr>aes_nr = nr, aes_buf = sk nr @ concat (map (\<lambda>i. map aes_inverse_key (sk i)) (rev [1..<nr])) @ sk 0\<rparr>)"

section \<open>Blocks\<close>

type_synonym aes_state = "u32 \<times> u32 \<times> u32 \<times> u32"

definition aes_f :: "u32 \<Rightarrow> u32 \<Rightarrow> u32 \<Rightarrow> u32 \<Rightarrow> u32" where
  "aes_f a b c d = FT0 aes_gen_tables (MBEDTLS_BYTE 0 a) XOR FT1 aes_gen_tables (MBEDTLS_BYTE 1 b) XOR
     FT2 aes_gen_tables (MBEDTLS_BYTE 2 c) XOR FT3 aes_gen_tables (MBEDTLS_BYTE 3 d)"

definition aes_r :: "u32 \<Rightarrow> u32 \<Rightarrow> u32 \<Rightarrow> u32 \<Rightarrow> u32" where
  "aes_r a b c d = RT0 aes_gen_tables (MBEDTLS_BYTE 0 a) XOR RT1 aes_gen_tables (MBEDTLS_BYTE 1 b) XOR
     RT2 aes_gen_tables (MBEDTLS_BYTE 2 c) XOR RT3 aes_gen_tables (MBEDTLS_BYTE 3 d)"

fun AES_FROUND :: "u32 list \<times> aes_state \<Rightarrow> u32 list \<times> aes_state" where
  "AES_FROUND (RK, y0, y1, y2, y3) =
     (drop 4 RK, RK ! 0 XOR aes_f y0 y1 y2 y3, RK ! 1 XOR aes_f y1 y2 y3 y0,
      RK ! 2 XOR aes_f y2 y3 y0 y1, RK ! 3 XOR aes_f y3 y0 y1 y2)"

fun AES_RROUND :: "u32 list \<times> aes_state \<Rightarrow> u32 list \<times> aes_state" where
  "AES_RROUND (RK, y0, y1, y2, y3) =
     (drop 4 RK, RK ! 0 XOR aes_r y0 y3 y2 y1, RK ! 1 XOR aes_r y1 y0 y3 y2,
      RK ! 2 XOR aes_r y2 y1 y0 y3, RK ! 3 XOR aes_r y3 y2 y1 y0)"

text \<open>The pairs of rounds, and one more.\<close>

definition aes_rounds :: "(u32 list \<times> aes_state \<Rightarrow> u32 list \<times> aes_state) \<Rightarrow> nat \<Rightarrow> u32 list \<times> aes_state \<Rightarrow> u32 list \<times> aes_state" where
  "aes_rounds round nr s = round (((\<lambda>s. round (round s)) ^^ (nr div 2 - 1)) s)"

definition aes_load :: "u8 list \<Rightarrow> u32 list \<Rightarrow> u32 list \<times> aes_state" where
  "aes_load input RK =
     (drop 4 RK, MBEDTLS_GET_UINT32_LE input 0 XOR RK ! 0, MBEDTLS_GET_UINT32_LE input 4 XOR RK ! 1,
      MBEDTLS_GET_UINT32_LE input 8 XOR RK ! 2, MBEDTLS_GET_UINT32_LE input 12 XOR RK ! 3)"

definition last_bytes :: "(u8 \<Rightarrow> u8) \<Rightarrow> u32 \<Rightarrow> u32 \<Rightarrow> u32 \<Rightarrow> u32 \<Rightarrow> u32" where
  "last_bytes sb a b c d =
     ucast (sb (MBEDTLS_BYTE 0 a)) XOR push_bit 8 (ucast (sb (MBEDTLS_BYTE 1 b))) XOR
     push_bit 16 (ucast (sb (MBEDTLS_BYTE 2 c))) XOR push_bit 24 (ucast (sb (MBEDTLS_BYTE 3 d)))"

definition mbedtls_internal_aes_encrypt :: "aes_context \<Rightarrow> u8 list \<Rightarrow> u8 list" where
  "mbedtls_internal_aes_encrypt ctx input =
     (case aes_rounds AES_FROUND (aes_nr ctx) (aes_load input (aes_buf ctx)) of
        (RK, y0, y1, y2, y3) \<Rightarrow>
          le32 (RK ! 0 XOR last_bytes (FSb aes_gen_tables) y0 y1 y2 y3) @ le32 (RK ! 1 XOR last_bytes (FSb aes_gen_tables) y1 y2 y3 y0) @
          le32 (RK ! 2 XOR last_bytes (FSb aes_gen_tables) y2 y3 y0 y1) @ le32 (RK ! 3 XOR last_bytes (FSb aes_gen_tables) y3 y0 y1 y2))"

definition mbedtls_internal_aes_decrypt :: "aes_context \<Rightarrow> u8 list \<Rightarrow> u8 list" where
  "mbedtls_internal_aes_decrypt ctx input =
     (case aes_rounds AES_RROUND (aes_nr ctx) (aes_load input (aes_buf ctx)) of
        (RK, y0, y1, y2, y3) \<Rightarrow>
          le32 (RK ! 0 XOR last_bytes (RSb aes_gen_tables) y0 y3 y2 y1) @ le32 (RK ! 1 XOR last_bytes (RSb aes_gen_tables) y1 y0 y3 y2) @
          le32 (RK ! 2 XOR last_bytes (RSb aes_gen_tables) y2 y1 y0 y3) @ le32 (RK ! 3 XOR last_bytes (RSb aes_gen_tables) y3 y2 y1 y0))"

definition mbedtls_aes_crypt_ecb :: "bool \<Rightarrow> aes_context \<Rightarrow> u8 list \<Rightarrow> u8 list" where
  "mbedtls_aes_crypt_ecb encrypt ctx input =
     (if encrypt then mbedtls_internal_aes_encrypt ctx input else mbedtls_internal_aes_decrypt ctx input)"

section \<open>The powers of 3\<close>

lemma and_0x80: "x AND 0x80 \<noteq> 0 \<longleftrightarrow> bit (x :: u8) 7"
  using and_exp_eq_0_iff_not_bit [of x 7] by simp

lemma XTIME_xor: "XTIME (x XOR y) = XTIME x XOR XTIME y"
  by (simp add: XTIME_def and_0x80 bit_xor_iff push_bit_xor xor.assoc xor.commute xor.left_commute)

lemma xor_0_iff: "a XOR b = 0 \<longleftrightarrow> a = (b :: 'a::len word)"
  by (auto simp: bit_eq_iff bit_xor_iff)

lemma XTIME_0 [simp]: "XTIME 0 = 0"
  by (simp add: XTIME_def)

lemma XTIME_fixed:
  assumes "x = XTIME x"
  shows "x = 0"
proof (cases "bit x 7")
  case True
  have x: "x = push_bit 1 x XOR 0x1B"
    using assms True by (simp add: XTIME_def and_0x80)
  have b: "bit x (Suc k) \<longleftrightarrow> bit x k \<noteq> bit (0x1B :: u8) (Suc k)" if "k < 7" for k
    using that by (subst x) (simp only: bit_xor_iff bit_push_bit_iff, auto)
  have "bit x 0" by (subst x) (simp only: bit_xor_iff bit_push_bit_iff, simp)
  then have "\<not> bit x 1" using b [of 0] by simp
  then have "\<not> bit x 2" using b [of 1] by (simp add: numeral_2_eq_2)
  then have "bit x 3" using b [of 2] by (simp add: eval_nat_numeral)
  then have "\<not> bit x 4" using b [of 3] by (simp add: eval_nat_numeral)
  then have "\<not> bit x 5" using b [of 4] by (simp add: eval_nat_numeral)
  then have "\<not> bit x 6" using b [of 5] by (simp add: eval_nat_numeral)
  then have "\<not> bit x 7" using b [of 6] by (simp add: eval_nat_numeral)
  then show ?thesis using True by simp
next
  case False
  then have "push_bit 1 x = x" using assms by (simp add: XTIME_def and_0x80)
  then show ?thesis by (rule push_bit_fixed_point) simp
qed

definition times3 :: "u8 \<Rightarrow> u8" where
  "times3 x = x XOR XTIME x"

lemma times3_xor: "times3 (x XOR y) = times3 x XOR times3 y"
  by (simp add: times3_def XTIME_xor xor.assoc xor.commute xor.left_commute)

lemma times3_inj: "times3 x = times3 y \<Longrightarrow> x = y"
proof -
  assume "times3 x = times3 y"
  then have "times3 (x XOR y) = 0" by (simp add: times3_xor)
  then have "x XOR y = XTIME (x XOR y)" by (simp only: times3_def xor_0_iff)
  then have "x XOR y = 0" by (rule XTIME_fixed)
  then show "x = y" by (simp only: xor_0_iff)
qed

definition pow3 :: "nat \<Rightarrow> u8" where
  "pow3 n = (times3 ^^ n) 1"

lemma pow3_Suc: "pow3 (Suc n) = times3 (pow3 n)"
  by (simp add: pow3_def)

lemma pow3_add: "pow3 (m + n) = (times3 ^^ m) (pow3 n)"
  by (simp add: pow3_def funpow_add)

lemma funpow_times3_inj: "(times3 ^^ n) x = (times3 ^^ n) y \<Longrightarrow> x = y"
  by (induction n) (auto dest: times3_inj)

fun pow3_list :: "nat \<Rightarrow> u8 \<Rightarrow> u8 list" where
  "pow3_list 0 x = []"
| "pow3_list (Suc n) x = x # pow3_list n (times3 x)"

lemma pow3_list_eq: "pow3_list n (pow3 i) = map pow3 [i..<i + n]"
proof (induction n arbitrary: i)
  case (Suc n)
  then show ?case using Suc [of "Suc i"] by (simp add: pow3_Suc [symmetric] upt_conv_Cons del: upt_Suc)
qed simp

lemma pow3_list_numeral [simp]: "pow3_list (numeral k) x = x # pow3_list (pred_numeral k) (times3 x)"
  by (simp add: numeral_eq_Suc)

fun pow3_at :: "nat \<Rightarrow> u8 \<Rightarrow> u8" where
  "pow3_at 0 x = x"
| "pow3_at (Suc n) x = pow3_at n (times3 x)"

lemma pow3_at_numeral [simp]: "pow3_at (numeral k) x = pow3_at (pred_numeral k) (times3 x)"
  by (simp add: numeral_eq_Suc)

lemma pow3_at_eq: "pow3_at n x = (times3 ^^ n) x"
  by (induction n arbitrary: x) (simp_all add: funpow_swap1)

lemma pow3_order_list: "list_all (\<lambda>x. x \<noteq> 1) (pow3_list 254 3)" "pow3_at 255 1 = 1"
  by (simp_all add: times3_def XTIME_def)

lemma pow3_order: "pow3 255 = 1" "0 < d \<Longrightarrow> d < 255 \<Longrightarrow> pow3 d \<noteq> 1"
proof -
  show "pow3 255 = 1" using pow3_order_list(2) by (simp only: pow3_def pow3_at_eq)
  have 1: "pow3 1 = 3" by (simp add: pow3_def times3_def XTIME_def)
  have "pow3_list n 3 = map pow3 [1..<1 + n]" for n by (simp only: pow3_list_eq flip: 1)
  then show "0 < d \<Longrightarrow> d < 255 \<Longrightarrow> pow3 d \<noteq> 1"
    using pow3_order_list(1) by (simp only: list_all_iff set_map set_upt) simp
qed

lemma pow3_eq:
  assumes "pow3 i = pow3 j" "i < j"
  shows "pow3 (j - i) = 1"
proof -
  have "(times3 ^^ i) (pow3 (j - i)) = (times3 ^^ i) (pow3 0)" using assms by (simp flip: pow3_add)
  then show ?thesis by (auto dest: funpow_times3_inj simp: pow3_def)
qed

lemma pow3_inj:
  assumes "pow3 i = pow3 j" "i < k + 255" "j < k + 255" "k \<le> i" "k \<le> j"
  shows "i = j"
  using assms pow3_eq [of i j] pow3_eq [of j i] pow3_order(2) [of "j - i"] pow3_order(2) [of "i - j"]
  by (cases i j rule: linorder_cases) auto

lemma times3_0 [simp]: "times3 0 = 0"
  by (simp add: times3_def)

lemma pow3_nonzero: "pow3 n \<noteq> 0"
  by (induction n) (auto simp: pow3_Suc pow3_def dest!: times3_inj [where y = 0, simplified])

lemma pow3_mod: "pow3 (n mod 255) = pow3 n"
proof (induction n rule: less_induct)
  case (less n)
  show ?case
  proof (cases "n < 255")
    case False
    then have "pow3 n = pow3 (n - 255)" using pow3_add [of "n - 255" 255] by (simp add: pow3_order(1)) (simp add: pow3_def)
    then show ?thesis using less.IH [of "n - 255"] False by (simp add: le_mod_geq)
  qed simp
qed

lemma pow3_surj:
  assumes "b \<noteq> 0"
  obtains j where "1 \<le> j" "j \<le> 255" "b = pow3 j"
proof -
  have "inj_on pow3 {1..255}" by (rule inj_onI) (auto intro: pow3_inj [where k = 1])
  then have "card (pow3 ` {1..255}) = 255" by (simp add: card_image)
  moreover have "card (UNIV - {0 :: u8}) = 255" by (simp add: card_Diff_singleton card_word)
  moreover have "pow3 ` {1..255} \<subseteq> UNIV - {0}" by (auto simp: pow3_nonzero)
  ultimately have "pow3 ` {1..255} = UNIV - {0}" by (intro card_subset_eq) simp_all
  then have "b \<in> pow3 ` {1..255}" using assms by simp
  then show ?thesis using that by auto
qed

section \<open>The tables\<close>

lemma aes_pow_log_frame:
  assumes "\<forall>k \<in> {i..<i + n}. pow3 k \<noteq> b"
  shows "snd (aes_pow_log i n (pow3 i) t) b = snd t b"
  using assms
proof (induction n arbitrary: i t)
  case (Suc n)
  obtain p l where t: "t = (p, l)" by (cases t)
  show ?case using Suc.IH [of "Suc i" "(p(of_nat i := pow3 i), l(pow3 i := of_nat i))"] Suc.prems
    by (auto simp: t pow3_Suc times3_def)
qed (metis aes_pow_log.simps(1) surj_pair)

lemma aes_pow_log_pow:
  assumes "i + n \<le> 256"
  shows "fst (aes_pow_log i n (pow3 i) t) b = (if i \<le> unat b \<and> unat b < i + n then pow3 (unat b) else fst t b)"
  using assms
proof (induction n arbitrary: i t)
  case 0
  then show ?case by (cases t) auto
next
  case (Suc n)
  obtain p l where t: "t = (p, l)" by (cases t)
  have i: "of_nat i = b \<longleftrightarrow> unat b = i" "unat (of_nat i :: u8) = i" using Suc.prems by (auto simp: word_unat_eq_iff unat_of_nat take_bit_eq_mod)
  show ?case using Suc.IH [of "Suc i" "(p(of_nat i := pow3 i), l(pow3 i := of_nat i))"] Suc.prems i
    by (auto simp: t pow3_Suc times3_def)
qed

lemma aes_pow_log_log:
  assumes "j \<in> {i..<i + n}" "\<forall>k \<in> {j<..<i + n}. pow3 k \<noteq> pow3 j"
  shows "snd (aes_pow_log i n (pow3 i) t) (pow3 j) = of_nat j"
  using assms
proof (induction n arbitrary: i t)
  case (Suc n)
  obtain p l where t: "t = (p, l)" by (cases t)
  show ?case
  proof (cases "j = i")
    case True
    then show ?thesis using aes_pow_log_frame [of "Suc i" n "pow3 i" "(p(of_nat i := pow3 i), l(pow3 i := of_nat i))"] Suc.prems
      by (auto simp: t pow3_Suc times3_def)
  next
    case False
    then show ?thesis using Suc.IH [of "Suc i" "(p(of_nat i := pow3 i), l(pow3 i := of_nat i))"] Suc.prems
      by (auto simp: t pow3_Suc times3_def)
  qed
qed simp

definition aes_pow :: "u8 \<Rightarrow> u8" where
  "aes_pow = fst (aes_pow_log 0 256 1 (\<lambda>_. 0, \<lambda>_. 0))"

definition aes_log :: "u8 \<Rightarrow> u8" where
  "aes_log = snd (aes_pow_log 0 256 1 (\<lambda>_. 0, \<lambda>_. 0))"

lemma pow3_0: "pow3 0 = 1"
  by (simp add: pow3_def)

lemma aes_pow_eq: "aes_pow b = pow3 (unat b)"
proof -
  have "unat b < 2 ^ LENGTH(8)" by (rule unsigned_less)
  then show ?thesis using aes_pow_log_pow [of 0 256 "(\<lambda>_. 0, \<lambda>_. 0)" b] by (simp add: aes_pow_def pow3_0)
qed

lemma aes_log_eq:
  assumes "1 \<le> j" "j \<le> 255"
  shows "aes_log (pow3 j) = of_nat j"
proof -
  have "\<forall>k \<in> {j<..<0 + 256}. pow3 k \<noteq> pow3 j"
    using assms by (auto dest!: pow3_inj [where k = 1])
  then show ?thesis using aes_pow_log_log [of j 0 256 "(\<lambda>_. 0, \<lambda>_. 0)"] assms by (simp add: aes_log_def pow3_0)
qed

text \<open>Multiplication by the constants of the reverse tables, with \<open>XTIME\<close> alone.\<close>

definition times9 :: "u8 \<Rightarrow> u8" where "times9 x = XTIME (XTIME (XTIME x)) XOR x"
definition timesB :: "u8 \<Rightarrow> u8" where "timesB x = XTIME (XTIME (XTIME x)) XOR XTIME x XOR x"
definition timesD :: "u8 \<Rightarrow> u8" where "timesD x = XTIME (XTIME (XTIME x)) XOR XTIME (XTIME x) XOR x"
definition timesE :: "u8 \<Rightarrow> u8" where "timesE x = XTIME (XTIME (XTIME x)) XOR XTIME (XTIME x) XOR XTIME x"

lemmas times_defs = times9_def timesB_def timesD_def timesE_def

lemma aes_MUL_eq:
  assumes "\<And>x. f (times3 x) = times3 (f x)" "f 0 = 0" "f 1 = c" "c \<noteq> 0"
  shows "aes_MUL aes_pow aes_log c x = f x"
proof (cases "x = 0")
  case False
  obtain k where k: "1 \<le> k" "k \<le> 255" "c = pow3 k" using pow3_surj [OF assms(4)] by auto
  obtain j where j: "1 \<le> j" "j \<le> 255" "x = pow3 j" using pow3_surj [OF False] by auto
  have u: "unat (of_nat i :: u8) = i" if "i \<le> 255" for i using that by (simp add: unat_of_nat take_bit_eq_mod)
  have l: "aes_log c = of_nat k" "aes_log x = of_nat j" using k j by (simp_all only: aes_log_eq)
  have "(k + j) mod 255 \<le> 255" by (simp add: less_imp_le)
  then have "aes_MUL aes_pow aes_log c x = pow3 (k + j)"
    using assms(4) False k(2) j(2) by (simp add: aes_MUL_def l u aes_pow_eq pow3_mod)
  also have "\<dots> = (times3 ^^ j) (f 1)" using pow3_add [of j k] k(3) assms(3) by (simp add: add.commute)
  also have "\<dots> = f (pow3 j)" by (induction j) (simp_all add: pow3_def assms(1))
  finally show ?thesis using j(3) by simp
qed (simp add: aes_MUL_def assms(2))

lemma aes_MUL_times:
  "aes_MUL aes_pow aes_log 0x0E x = timesE x" "aes_MUL aes_pow aes_log 0x09 x = times9 x"
  "aes_MUL aes_pow aes_log 0x0D x = timesD x" "aes_MUL aes_pow aes_log 0x0B x = timesB x"
proof -
  have x: "XTIME (times3 y) = times3 (XTIME y)" for y by (simp add: times3_def XTIME_xor)
  then have c: "timesE (times3 y) = times3 (timesE y)" "times9 (times3 y) = times3 (times9 y)"
      "timesD (times3 y) = times3 (timesD y)" "timesB (times3 y) = times3 (timesB y)" for y
    by (simp_all add: times_defs times3_xor)
  have z: "timesE 0 = 0" "times9 0 = 0" "timesD 0 = 0" "timesB 0 = 0" by (simp_all add: times_defs)
  have o: "timesE 1 = 0x0E" "times9 1 = 0x09" "timesD 1 = 0x0D" "timesB 1 = 0x0B" by (simp_all add: times_defs XTIME_def)
  show "aes_MUL aes_pow aes_log 0x0E x = timesE x" by (rule aes_MUL_eq) (simp_all add: c z o)
  show "aes_MUL aes_pow aes_log 0x09 x = times9 x" by (rule aes_MUL_eq) (simp_all add: c z o)
  show "aes_MUL aes_pow aes_log 0x0D x = timesD x" by (rule aes_MUL_eq) (simp_all add: c z o)
  show "aes_MUL aes_pow aes_log 0x0B x = timesB x" by (rule aes_MUL_eq) (simp_all add: c z o)
qed

text \<open>The S-box is injective, and the reverse S-box inverts it.\<close>

lemma xor_left_self: "a XOR (a XOR b) = (b :: 'a::len word)"
  by (simp flip: xor.assoc)

lemmas xor_cancel = xor.assoc xor.commute xor.left_commute xor_left_self

lemma bit_rotl1: "bit (rotl1 x) k \<longleftrightarrow> k < 8 \<and> bit x (if k = 0 then 7 else k - 1)"
proof -
  have "bit (rotl1 x) k \<longleftrightarrow> 1 \<le> k \<and> k < 8 \<and> bit x (k - 1) \<or> bit x (7 + k)"
    by (simp only: rotl1_def bit_or_iff bit_push_bit_iff bit_drop_bit_eq o_apply) auto
  then show ?thesis by (cases k) (auto dest: bit_imp_le_length)
qed

lemma rotl1_xor: "rotl1 (x XOR y) = rotl1 x XOR rotl1 y"
  by (rule bit_word_eqI) (simp add: bit_rotl1 bit_xor_iff)

lemma rotl1_8: "rotl1 (rotl1 (rotl1 (rotl1 (rotl1 (rotl1 (rotl1 (rotl1 x))))))) = x"
proof (rule bit_word_eqI)
  fix k assume "k < LENGTH(8)"
  then have "k \<in> {0, 1, 2, 3, 4, 5, 6, 7}" by auto
  then show "bit (rotl1 (rotl1 (rotl1 (rotl1 (rotl1 (rotl1 (rotl1 (rotl1 x)))))))) k = bit x k"
    by (elim insertE) (simp_all add: bit_rotl1)
qed

lemma aes_affine_inj: "aes_affine x = aes_affine y \<Longrightarrow> x = y"
proof -
  define inv where "inv z = (let z = z XOR 0x63 in rotl1 z XOR rotl1 (rotl1 (rotl1 z)) XOR rotl1 (rotl1 (rotl1 (rotl1 (rotl1 (rotl1 z))))))" for z
  have "inv (aes_affine x) = x" for x
    by (simp add: inv_def aes_affine_def Let_def rotl1_xor rotl1_8 xor_cancel)
  then show "aes_affine x = aes_affine y \<Longrightarrow> x = y" by metis
qed

lemma aes_affine_nonzero: "x \<noteq> 0 \<Longrightarrow> aes_affine x \<noteq> 0x63"
proof -
  have "aes_affine 0 = 0x63" by (simp add: aes_affine_def rotl1_def)
  then show "x \<noteq> 0 \<Longrightarrow> aes_affine x \<noteq> 0x63" using aes_affine_inj [of x 0] by auto
qed

definition aes_sbox :: "u8 \<Rightarrow> u8" where
  "aes_sbox b = aes_affine (aes_pow (255 - aes_log b))"

lemma aes_sbox_pow: "1 \<le> j \<Longrightarrow> j \<le> 255 \<Longrightarrow> aes_sbox (pow3 j) = aes_affine (pow3 (255 - j))"
proof -
  assume j: "1 \<le> j" "j \<le> 255"
  then have "(255 :: u8) - of_nat j = of_nat (255 - j)" by simp
  moreover have "unat (of_nat (255 - j) :: u8) = 255 - j" by (simp add: unat_of_nat take_bit_eq_mod)
  ultimately show ?thesis using j by (simp only: aes_sbox_def aes_log_eq aes_pow_eq)
qed

lemma aes_sbox_inj:
  assumes "aes_sbox a = aes_sbox b" "a \<noteq> 0" "b \<noteq> 0"
  shows "a = b"
proof -
  obtain i where i: "1 \<le> i" "i \<le> 255" "a = pow3 i" using pow3_surj [OF assms(2)] by auto
  obtain j where j: "1 \<le> j" "j \<le> 255" "b = pow3 j" using pow3_surj [OF assms(3)] by auto
  have "pow3 (255 - i) = pow3 (255 - j)" using assms(1) i j by (simp add: aes_sbox_pow) (auto dest: aes_affine_inj)
  then have "255 - i = 255 - j" using i j by (intro pow3_inj [where k = 0]) auto
  then have "i = j" using i j by simp
  then show ?thesis using i j by simp
qed

lemma aes_sbox_nonzero: "b \<noteq> 0 \<Longrightarrow> aes_sbox b \<noteq> 0x63"
  by (metis aes_affine_nonzero aes_sbox_def aes_pow_eq pow3_nonzero)

lemma aes_sboxes_frame:
  assumes "\<forall>k \<in> {i..<i + n}. aes_sbox (of_nat k) \<noteq> y"
  shows "snd (aes_sboxes aes_pow aes_log i n t) y = snd t y"
  using assms
proof (induction n arbitrary: i t)
  case 0
  then show ?case by (cases t) simp
next
  case (Suc n)
  then show ?case by (cases t) (auto simp: Let_def aes_sbox_def)
qed

lemma aes_sboxes_forward:
  assumes "i + n \<le> 256"
  shows "fst (aes_sboxes aes_pow aes_log i n t) b = (if i \<le> unat b \<and> unat b < i + n then aes_sbox b else fst t b)"
  using assms
proof (induction n arbitrary: i t)
  case 0
  then show ?case by (cases t) auto
next
  case (Suc n)
  obtain f r where t: "t = (f, r)" by (cases t)
  have i: "of_nat i = b \<longleftrightarrow> unat b = i" "unat (of_nat i :: u8) = i" using Suc.prems by (auto simp: word_unat_eq_iff unat_of_nat take_bit_eq_mod)
  show ?case using Suc.IH [of "Suc i"] Suc.prems i by (auto simp: t Let_def aes_sbox_def)
qed

lemma aes_sboxes_reverse:
  assumes "j \<in> {i..<i + n}" "i + n \<le> 256" "0 < i"
  shows "snd (aes_sboxes aes_pow aes_log i n t) (aes_sbox (of_nat j)) = of_nat j"
  using assms
proof (induction n arbitrary: i t)
  case (Suc n)
  obtain f r where t: "t = (f, r)" by (cases t)
  have u: "unat (of_nat k :: u8) = k" if "k < 256" for k using that by (simp add: unat_of_nat take_bit_eq_mod)
  show ?case
  proof (cases "j = i")
    case True
    have "aes_sbox (of_nat k) \<noteq> aes_sbox (of_nat i)" if "k \<in> {Suc i..<Suc i + n}" for k
    proof
      assume "aes_sbox (of_nat k) = aes_sbox (of_nat i)"
      moreover have "of_nat k \<noteq> (0 :: u8)" "of_nat i \<noteq> (0 :: u8)" using u [of k] u [of i] that Suc.prems by auto
      ultimately have "of_nat k = (of_nat i :: u8)" by (rule aes_sbox_inj)
      then show False using u [of k] u [of i] that Suc.prems by simp
    qed
    then show ?thesis using aes_sboxes_frame [of "Suc i" n "aes_sbox (of_nat i)"] True by (simp add: t Let_def flip: aes_sbox_def)
  next
    case False
    then show ?thesis using Suc.IH [of "Suc i"] Suc.prems by (simp add: t Let_def)
  qed
qed simp

lemma RSb_FSb: "RSb aes_gen_tables (FSb aes_gen_tables b) = b"
proof -
  define t where "t = aes_sboxes aes_pow aes_log 1 255 ((\<lambda>_. 0)(0 := 0x63), (\<lambda>_. 0)(0x63 := 0))"
  have T: "FSb aes_gen_tables = fst t" "RSb aes_gen_tables = snd t"
    by (simp_all add: aes_gen_tables_def t_def aes_pow_def aes_log_def split_def Let_def)
  have u: "unat b < 256" "of_nat (unat b) = b" using unsigned_less [of b, where 'a = nat] by simp_all
  show ?thesis
  proof (cases "b = 0")
    case True
    have "aes_sbox (of_nat k) \<noteq> 0x63" if "k \<in> {1..<1 + 255}" for k
    proof (rule aes_sbox_nonzero)
      have "unat (of_nat k :: u8) = k" using that by (simp add: unat_of_nat take_bit_eq_mod)
      then show "of_nat k \<noteq> (0 :: u8)" using that by auto
    qed
    then have "snd t 0x63 = 0" using aes_sboxes_frame [of 1 255 "0x63"] by (simp add: t_def)
    moreover have "fst t 0 = 0x63" using aes_sboxes_forward [of 1 255 _ 0] by (simp add: t_def)
    ultimately show ?thesis using True by (simp add: T)
  next
    case False
    then have p: "0 < unat b" by (simp add: unat_gt_0)
    then have "fst t b = aes_sbox b" using aes_sboxes_forward [of 1 255 _ b] u by (simp add: t_def)
    moreover have "snd t (aes_sbox b) = b" using aes_sboxes_reverse [of "unat b" 1 255] u p by (simp add: t_def)
    ultimately show ?thesis by (simp add: T)
  qed
qed

end
