(* ===== verification/Mbed_Aes_Rounds.thy ===== *)
theory Mbed_Aes_Rounds
  imports Mbed_Aes
begin

text \<open>
  Decryption inverts encryption. A word is its four bytes (\<open>w4\<close>); the forward tables are the S-box
  followed by the mixing of a column, the reverse tables the reverse S-box followed by its inverse, and
  the key schedule for decryption applies that inverse to the inner round keys. The states of the two
  operations then mirror each other round by round.
\<close>

section \<open>Words and bytes\<close>

definition w4 :: "u8 \<Rightarrow> u8 \<Rightarrow> u8 \<Rightarrow> u8 \<Rightarrow> u32" where
  "w4 a b c d = ucast a XOR push_bit 8 (ucast b) XOR push_bit 16 (ucast c) XOR push_bit 24 (ucast d)"

lemma bit_w4:
  "bit (w4 a b c d) k \<longleftrightarrow>
     (if k < 8 then bit a k else if k < 16 then bit b (k - 8) else if k < 24 then bit c (k - 16) else k < 32 \<and> bit d (k - 24))"
  unfolding w4_def bit_xor_iff bit_push_bit_iff bit_ucast_iff
  by (auto dest: bit_imp_le_length)

lemma bit_MBEDTLS_BYTE: "bit (MBEDTLS_BYTE k w) i \<longleftrightarrow> i < 8 \<and> bit w (8 * k + i)"
  by (auto simp: MBEDTLS_BYTE_def bit_ucast_iff bit_drop_bit_eq add.commute)

lemma MBEDTLS_BYTE_w4 [simp]:
  "MBEDTLS_BYTE 0 (w4 a b c d) = a" "MBEDTLS_BYTE (Suc 0) (w4 a b c d) = b"
  "MBEDTLS_BYTE 2 (w4 a b c d) = c" "MBEDTLS_BYTE 3 (w4 a b c d) = d"
  by (rule bit_word_eqI; simp add: bit_MBEDTLS_BYTE bit_w4)+

lemma w4_MBEDTLS_BYTE: "w4 (MBEDTLS_BYTE 0 w) (MBEDTLS_BYTE 1 w) (MBEDTLS_BYTE 2 w) (MBEDTLS_BYTE 3 w) = w"
  by (rule bit_word_eqI) (auto simp: bit_MBEDTLS_BYTE bit_w4)

lemma w4_cases [cases type]:
  obtains a b c d where "w = w4 a b c d"
  using w4_MBEDTLS_BYTE [of w] by metis

lemma w4_xor: "w4 a b c d XOR w4 a' b' c' d' = w4 (a XOR a') (b XOR b') (c XOR c') (d XOR d')"
  by (rule bit_word_eqI) (simp add: bit_w4 bit_xor_iff)

lemma ROTL8_w4: "ROTL8 (w4 a b c d) = w4 d a b c"
proof (rule bit_word_eqI)
  fix k assume "k < LENGTH(32)"
  have m: "(0xFFFFFFFF :: u32) = - 1" by simp
  show "bit (ROTL8 (w4 a b c d)) k = bit (w4 d a b c) k"
    unfolding ROTL8_def m and.right_neutral bit_or_iff bit_push_bit_iff bit_drop_bit_eq o_apply bit_w4
    using \<open>k < LENGTH(32)\<close> by auto
qed

lemma last_bytes_w4:
  "last_bytes f a b c d = w4 (f (MBEDTLS_BYTE 0 a)) (f (MBEDTLS_BYTE 1 b)) (f (MBEDTLS_BYTE 2 c)) (f (MBEDTLS_BYTE 3 d))"
  by (simp add: last_bytes_def w4_def)

lemma GET_LE_w4: "MBEDTLS_GET_UINT32_LE d i = w4 (d ! i) (d ! (i + 1)) (d ! (i + 2)) (d ! (i + 3))"
proof (rule bit_word_eqI)
  fix k assume "k < LENGTH(32)"
  then show "bit (MBEDTLS_GET_UINT32_LE d i) k = bit (w4 (d ! i) (d ! (i + 1)) (d ! (i + 2)) (d ! (i + 3))) k"
    unfolding MBEDTLS_GET_UINT32_LE_def bit_or_iff bit_push_bit_iff bit_ucast_iff bit_w4
    by (auto dest: bit_imp_le_length)
qed

lemma le32_w4: "le32 (w4 a b c d) = [a, b, c, d]"
proof -
  have "le32 w = [MBEDTLS_BYTE 0 w, MBEDTLS_BYTE 1 w, MBEDTLS_BYTE 2 w, MBEDTLS_BYTE 3 w]" for w
    by (simp add: le32_def MBEDTLS_BYTE_def)
  then show ?thesis by simp
qed

lemma GET_LE_le32:
  "MBEDTLS_GET_UINT32_LE (le32 a @ le32 b @ le32 c @ le32 d) 0 = a"
  "MBEDTLS_GET_UINT32_LE (le32 a @ le32 b @ le32 c @ le32 d) 4 = b"
  "MBEDTLS_GET_UINT32_LE (le32 a @ le32 b @ le32 c @ le32 d) 8 = c"
  "MBEDTLS_GET_UINT32_LE (le32 a @ le32 b @ le32 c @ le32 d) 12 = d"
  by (cases a rule: w4_cases; cases b rule: w4_cases; cases c rule: w4_cases; cases d rule: w4_cases;
      simp add: GET_LE_w4 le32_w4)+

section \<open>Columns\<close>

definition mix_column :: "u32 \<Rightarrow> u32" where
  "mix_column w =
     (let a = MBEDTLS_BYTE 0 w; b = MBEDTLS_BYTE 1 w; c = MBEDTLS_BYTE 2 w; d = MBEDTLS_BYTE 3 w
      in w4 (XTIME a XOR times3 b XOR c XOR d) (a XOR XTIME b XOR times3 c XOR d)
            (a XOR b XOR XTIME c XOR times3 d) (times3 a XOR b XOR c XOR XTIME d))"

definition inv_mix_column :: "u32 \<Rightarrow> u32" where
  "inv_mix_column w =
     (let a = MBEDTLS_BYTE 0 w; b = MBEDTLS_BYTE 1 w; c = MBEDTLS_BYTE 2 w; d = MBEDTLS_BYTE 3 w
      in w4 (timesE a XOR timesB b XOR timesD c XOR times9 d) (times9 a XOR timesE b XOR timesB c XOR timesD d)
            (timesD a XOR times9 b XOR timesE c XOR timesB d) (timesB a XOR timesD b XOR times9 c XOR timesE d))"

lemma inv_mix_column_xor: "inv_mix_column (v XOR w) = inv_mix_column v XOR inv_mix_column w"
  by (cases v rule: w4_cases; cases w rule: w4_cases)
    (simp add: w4_xor inv_mix_column_def Let_def times_defs XTIME_xor xor_cancel)

lemma inv_mix_column_mix: "inv_mix_column (mix_column w) = w"
  by (cases w rule: w4_cases)
    (simp add: mix_column_def inv_mix_column_def Let_def times_defs times3_def XTIME_xor xor_cancel)

lemma aes_forward_w4: "aes_forward x = w4 (XTIME x) x x (times3 x)"
  by (simp add: aes_forward_def w4_def times3_def Let_def xor.commute)

lemma aes_reverse_w4: "aes_reverse aes_pow aes_log x = w4 (timesE x) (times9 x) (timesD x) (timesB x)"
  by (simp add: aes_reverse_def w4_def aes_MUL_times)

lemma forward_tables:
  "FT0 aes_gen_tables x = (let s = FSb aes_gen_tables x in w4 (XTIME s) s s (times3 s))"
  "FT1 aes_gen_tables x = (let s = FSb aes_gen_tables x in w4 (times3 s) (XTIME s) s s)"
  "FT2 aes_gen_tables x = (let s = FSb aes_gen_tables x in w4 s (times3 s) (XTIME s) s)"
  "FT3 aes_gen_tables x = (let s = FSb aes_gen_tables x in w4 s s (times3 s) (XTIME s))"
  by (simp_all add: aes_gen_tables_def split_def Let_def aes_forward_w4 ROTL8_w4)

lemma reverse_tables:
  "RT0 aes_gen_tables x = (let s = RSb aes_gen_tables x in w4 (timesE s) (times9 s) (timesD s) (timesB s))"
  "RT1 aes_gen_tables x = (let s = RSb aes_gen_tables x in w4 (timesB s) (timesE s) (times9 s) (timesD s))"
  "RT2 aes_gen_tables x = (let s = RSb aes_gen_tables x in w4 (timesD s) (timesB s) (timesE s) (times9 s))"
  "RT3 aes_gen_tables x = (let s = RSb aes_gen_tables x in w4 (times9 s) (timesD s) (timesB s) (timesE s))"
  by (simp_all add: aes_gen_tables_def split_def Let_def ROTL8_w4 aes_reverse_w4 flip: aes_pow_def aes_log_def)

lemma aes_f_mix: "aes_f a b c d = mix_column (last_bytes (FSb aes_gen_tables) a b c d)"
  by (simp add: aes_f_def forward_tables mix_column_def last_bytes_w4 Let_def w4_xor)

lemma aes_r_mix: "aes_r a b c d = inv_mix_column (last_bytes (RSb aes_gen_tables) a b c d)"
  by (simp add: aes_r_def reverse_tables inv_mix_column_def last_bytes_w4 Let_def w4_xor)

lemma aes_inverse_key_mix: "aes_inverse_key k = inv_mix_column k"
  by (cases k rule: w4_cases)
    (simp add: aes_inverse_key_def reverse_tables RSb_FSb inv_mix_column_def Let_def w4_xor)

section \<open>Rounds\<close>

definition sub_shift :: "aes_state \<Rightarrow> aes_state" where
  "sub_shift = (\<lambda>(y0, y1, y2, y3).
     (last_bytes (FSb aes_gen_tables) y0 y1 y2 y3, last_bytes (FSb aes_gen_tables) y1 y2 y3 y0,
      last_bytes (FSb aes_gen_tables) y2 y3 y0 y1, last_bytes (FSb aes_gen_tables) y3 y0 y1 y2))"

definition inv_sub_shift :: "aes_state \<Rightarrow> aes_state" where
  "inv_sub_shift = (\<lambda>(y0, y1, y2, y3).
     (last_bytes (RSb aes_gen_tables) y0 y3 y2 y1, last_bytes (RSb aes_gen_tables) y1 y0 y3 y2,
      last_bytes (RSb aes_gen_tables) y2 y1 y0 y3, last_bytes (RSb aes_gen_tables) y3 y2 y1 y0))"

definition columns :: "(u32 \<Rightarrow> u32) \<Rightarrow> aes_state \<Rightarrow> aes_state" where
  "columns f = (\<lambda>(y0, y1, y2, y3). (f y0, f y1, f y2, f y3))"

text \<open>Round key \<open>i\<close> of a schedule, and its addition.\<close>

definition round_key :: "u32 list \<Rightarrow> nat \<Rightarrow> aes_state" where
  "round_key rk i = (rk ! (4 * i), rk ! (4 * i + 1), rk ! (4 * i + 2), rk ! (4 * i + 3))"

definition add_key :: "aes_state \<Rightarrow> aes_state \<Rightarrow> aes_state" where
  "add_key = (\<lambda>(a, b, c, d) (y0, y1, y2, y3). (a XOR y0, b XOR y1, c XOR y2, d XOR y3))"

lemma inv_sub_shift_sub_shift: "inv_sub_shift (sub_shift y) = y"
  by (cases y) (simp add: sub_shift_def inv_sub_shift_def last_bytes_w4 RSb_FSb w4_MBEDTLS_BYTE [unfolded One_nat_def])

lemma add_key_cancel: "add_key k (add_key k y) = y"
  by (cases k; cases y) (simp add: add_key_def xor_left_self)

lemma columns_inv_mix_add:
  "columns inv_mix_column (add_key k (columns mix_column y)) = add_key (columns inv_mix_column k) y"
  by (cases k; cases y) (simp add: columns_def add_key_def inv_mix_column_xor inv_mix_column_mix)

lemma AES_FROUND_eq: "AES_FROUND (RK, y) = (drop 4 RK, add_key (round_key RK 0) (columns mix_column (sub_shift y)))"
  by (cases y) (simp add: round_key_def add_key_def columns_def sub_shift_def aes_f_mix numeral_2_eq_2 numeral_3_eq_3)

lemma AES_RROUND_eq: "AES_RROUND (RK, y) = (drop 4 RK, add_key (round_key RK 0) (columns inv_mix_column (inv_sub_shift y)))"
  by (cases y) (simp add: round_key_def add_key_def columns_def inv_sub_shift_def aes_r_mix numeral_2_eq_2 numeral_3_eq_3)

text \<open>The rounds in pairs are the rounds in sequence, for an even number of them.\<close>

lemma aes_rounds_funpow:
  assumes "even nr" "2 \<le> nr"
  shows "aes_rounds round nr s = (round ^^ (nr - 1)) s"
proof -
  obtain m where m: "nr = 2 * Suc m" using assms by (metis dvdE le_zero_eq mult_0_right not0_implies_Suc numeral_2_eq_2 nat.distinct(1))
  have "((\<lambda>s. round (round s)) ^^ m) s = (round ^^ (2 * m)) s" by (induction m) (simp_all add: funpow_swap1)
  then show ?thesis by (simp add: aes_rounds_def m)
qed

text \<open>A round that consumes four words of the schedule, repeated.\<close>

fun key_rounds :: "(aes_state \<Rightarrow> aes_state) \<Rightarrow> u32 list \<Rightarrow> nat \<Rightarrow> aes_state \<Rightarrow> aes_state" where
  "key_rounds f rk 0 y = y"
| "key_rounds f rk (Suc n) y = add_key (round_key rk (Suc n)) (f (key_rounds f rk n y))"

lemma round_key_drop: "4 * n \<le> length rk \<Longrightarrow> round_key (drop (4 * n) rk) 0 = round_key rk n"
  by (simp add: round_key_def)

lemma key_rounds_funpow:
  assumes "\<And>RK y. round (RK, y) = (drop 4 RK, add_key (round_key RK 0) (f y))" "4 * n + 4 \<le> length rk"
  shows "(round ^^ n) (drop 4 rk, y) = (drop (4 * Suc n) rk, key_rounds f rk n y)"
  using assms(2)
proof (induction n)
  case (Suc n)
  then show ?case using round_key_drop [of "Suc n" rk] by (simp add: assms(1))
qed simp

text \<open>The blocks.\<close>

definition load_state :: "u8 list \<Rightarrow> aes_state" where
  "load_state b = (MBEDTLS_GET_UINT32_LE b 0, MBEDTLS_GET_UINT32_LE b 4, MBEDTLS_GET_UINT32_LE b 8, MBEDTLS_GET_UINT32_LE b 12)"

definition store_state :: "aes_state \<Rightarrow> u8 list" where
  "store_state = (\<lambda>(a, b, c, d). le32 a @ le32 b @ le32 c @ le32 d)"

lemma load_store: "load_state (store_state y) = y"
  by (cases y) (simp add: load_state_def store_state_def GET_LE_le32)

lemma store_load:
  assumes "length b = 16"
  shows "store_state (load_state b) = b"
proof -
  have "store_state (load_state b) = map ((!) b) [0..<16]"
    by (simp add: load_state_def store_state_def GET_LE_w4 le32_w4 upt_rec) (simp add: numeral_eq_Suc)
  also have "\<dots> = b" by (metis assms map_nth)
  finally show ?thesis .
qed

lemma aes_load_eq: "aes_load b rk = (drop 4 rk, add_key (round_key rk 0) (load_state b))"
  by (simp add: aes_load_def add_key_def round_key_def load_state_def xor.commute numeral_2_eq_2 numeral_3_eq_3)

lemma mbedtls_internal_aes_encrypt_eq:
  assumes "even nr" "2 \<le> nr" "4 * Suc nr \<le> length rk"
  shows "mbedtls_internal_aes_encrypt \<lparr>aes_nr = nr, aes_buf = rk\<rparr> b =
    store_state (add_key (round_key rk nr) (sub_shift (key_rounds (\<lambda>y. columns mix_column (sub_shift y)) rk (nr - 1)
      (add_key (round_key rk 0) (load_state b)))))"
proof -
  have "aes_rounds AES_FROUND nr (aes_load b rk) =
      (drop (4 * nr) rk, key_rounds (\<lambda>y. columns mix_column (sub_shift y)) rk (nr - 1) (add_key (round_key rk 0) (load_state b)))"
    using assms by (simp add: aes_rounds_funpow aes_load_eq key_rounds_funpow [of AES_FROUND, OF AES_FROUND_eq])
  then show ?thesis using assms
    by (simp add: mbedtls_internal_aes_encrypt_def sub_shift_def store_state_def add_key_def round_key_def split_def)
qed

lemma mbedtls_internal_aes_decrypt_eq:
  assumes "even nr" "2 \<le> nr" "4 * Suc nr \<le> length rk"
  shows "mbedtls_internal_aes_decrypt \<lparr>aes_nr = nr, aes_buf = rk\<rparr> b =
    store_state (add_key (round_key rk nr) (inv_sub_shift (key_rounds (\<lambda>y. columns inv_mix_column (inv_sub_shift y)) rk (nr - 1)
      (add_key (round_key rk 0) (load_state b)))))"
proof -
  have "aes_rounds AES_RROUND nr (aes_load b rk) =
      (drop (4 * nr) rk, key_rounds (\<lambda>y. columns inv_mix_column (inv_sub_shift y)) rk (nr - 1) (add_key (round_key rk 0) (load_state b)))"
    using assms by (simp add: aes_rounds_funpow aes_load_eq key_rounds_funpow [of AES_RROUND, OF AES_RROUND_eq])
  then show ?thesis using assms
    by (simp add: mbedtls_internal_aes_decrypt_def inv_sub_shift_def store_state_def add_key_def round_key_def split_def)
qed

section \<open>The two schedules\<close>

text \<open>The schedule \<open>d\<close> mirrors the schedule \<open>e\<close> of \<open>nr\<close> rounds.\<close>

definition mirrors :: "nat \<Rightarrow> u32 list \<Rightarrow> u32 list \<Rightarrow> bool" where
  "mirrors nr e d \<longleftrightarrow> round_key d 0 = round_key e nr \<and> round_key d nr = round_key e 0 \<and>
     (\<forall>i. 0 < i \<and> i < nr \<longrightarrow> round_key d i = columns inv_mix_column (round_key e (nr - i)))"

lemma mirrored_rounds:
  assumes "mirrors nr e d" "n < nr" "0 < nr"
  defines "X \<equiv> \<lambda>y n. key_rounds (\<lambda>y. columns mix_column (sub_shift y)) e n y"
  shows "key_rounds (\<lambda>y. columns inv_mix_column (inv_sub_shift y)) d n (sub_shift (X y (nr - 1))) = sub_shift (X y (nr - 1 - n))"
  using assms(2)
proof (induction n)
  case (Suc n)
  obtain k where k: "nr - 1 - n = Suc k" "nr - Suc n = Suc k" "nr - 1 - Suc n = k" "nr - Suc (Suc n) = k"
    using Suc.prems by (metis Suc_diff_Suc diff_Suc_eq_diff_pred less_imp_Suc_add diff_add_inverse One_nat_def add_Suc_right add_Suc)
  have "round_key d (Suc n) = columns inv_mix_column (round_key e (nr - Suc n))"
    using assms(1) Suc.prems unfolding mirrors_def by blast
  then show ?case using Suc
    by (simp add: k inv_sub_shift_sub_shift) (simp add: X_def columns_inv_mix_add add_key_cancel)
qed simp

lemma mirrored_decrypt:
  assumes "mirrors nr e d" "even nr" "2 \<le> nr" "4 * Suc nr \<le> length e" "4 * Suc nr \<le> length d" "length b = 16"
  shows "mbedtls_internal_aes_decrypt \<lparr>aes_nr = nr, aes_buf = d\<rparr> (mbedtls_internal_aes_encrypt \<lparr>aes_nr = nr, aes_buf = e\<rparr> b) = b"
proof -
  have m: "round_key d 0 = round_key e nr" "round_key d nr = round_key e 0" using assms(1) by (simp_all add: mirrors_def)
  show ?thesis using assms mirrored_rounds [OF assms(1), of "nr - 1"]
    by (simp add: mbedtls_internal_aes_encrypt_eq mbedtls_internal_aes_decrypt_eq load_store m add_key_cancel inv_sub_shift_sub_shift store_load)
qed

text \<open>Both schedules have the length of their rounds.\<close>

lemma length_aes_expand:
  "length (fold aes_expand128 is rk) = length rk + 4 * length is"
  "length (fold aes_expand192 is rk) = length rk + 6 * length is"
  "length (fold aes_expand256 is rk) = length rk + 8 * length is"
  by (induction "is" arbitrary: rk) (simp_all add: aes_expand128_def aes_expand192_def aes_expand256_def Let_def)

lemma setkey_enc_schedule:
  assumes "mbedtls_aes_setkey_enc key keybits = Some e"
  shows "even (aes_nr e)" "2 \<le> aes_nr e" "4 * Suc (aes_nr e) \<le> length (aes_buf e)"
  using assms
  by (auto simp: mbedtls_aes_setkey_enc_def length_aes_expand aes_key_words_def split: if_splits)

definition words4 :: "u32 list \<Rightarrow> nat \<Rightarrow> u32 list" where
  "words4 rk i = take 4 (drop (4 * i) rk)"

lemma length_words4: "4 * Suc i \<le> length rk \<Longrightarrow> length (words4 rk i) = 4"
  by (simp add: words4_def)

lemma round_key_words4:
  assumes "4 * Suc i \<le> length rk"
  shows "round_key (words4 rk i) 0 = round_key rk i" "round_key (map f (words4 rk i)) 0 = columns f (round_key rk i)"
  using assms by (simp_all add: round_key_def words4_def columns_def)

lemma round_key_append:
  "4 * i + 4 \<le> length xs \<Longrightarrow> round_key (xs @ ys) i = round_key xs i"
  "length xs = 4 * n \<Longrightarrow> round_key (xs @ ys) (n + i) = round_key ys i"
  by (simp_all add: round_key_def nth_append)

lemma length_concat_const: "(\<And>i. i \<in> set is \<Longrightarrow> length (f i) = c) \<Longrightarrow> length (concat (map f is)) = c * length is"
  by (induction "is") simp_all

lemma round_key_concat:
  assumes "\<forall>i < n. length (f i) = 4" "i < n"
  shows "round_key (concat (map f [0..<n]) @ ys) i = round_key (f i) 0"
  using assms
proof (induction n arbitrary: ys)
  case (Suc n)
  have l: "length (concat (map f [0..<n])) = 4 * n" using Suc.prems(1) length_concat_const [of "[0..<n]" f 4] by simp
  show ?case
  proof (cases "i = n")
    case True
    then show ?thesis using Suc.prems round_key_append(2) [OF l, of _ 0] round_key_append(1) [of 0 "f n" ys] by simp
  next
    case False
    then show ?thesis using Suc.IH [of "f n @ ys"] Suc.prems by simp
  qed
qed simp

lemma rev_upt_map: "map f (rev [1..<n]) = map (\<lambda>i. f (n - 1 - i)) [0..<n - 1]"
  by (intro nth_equalityI) (auto simp: rev_nth Suc_diff_Suc)

lemma setkey_dec_mirrors:
  assumes "mbedtls_aes_setkey_enc key keybits = Some e" "mbedtls_aes_setkey_dec key keybits = Some d"
  shows "aes_nr d = aes_nr e" "mirrors (aes_nr e) (aes_buf e) (aes_buf d)" "4 * Suc (aes_nr e) \<le> length (aes_buf d)"
proof -
  define nr rk g where "nr = aes_nr e" "rk = aes_buf e" "g = (\<lambda>i. map inv_mix_column (words4 rk (nr - 1 - i)))"
  note s = setkey_enc_schedule [OF assms(1), folded nr_rk_g_def]
  have k: "aes_inverse_key = inv_mix_column" by (rule ext) (rule aes_inverse_key_mix)
  have b: "aes_buf d = words4 rk nr @ concat (map g [0..<nr - 1]) @ words4 rk 0"
    using assms by (simp add: mbedtls_aes_setkey_dec_def Let_def nr_rk_g_def words4_def k) (auto simp: words4_def rev_upt_map [unfolded One_nat_def])
  have l: "length (words4 rk i) = 4" if "i \<le> nr" for i using that s by (intro length_words4) auto
  have lg: "\<forall>i < nr - 1. length (g i) = 4" using l by (simp add: nr_rk_g_def)
  then have lc: "length (concat (map g [0..<nr - 1])) = 4 * (nr - 1)"
    using length_concat_const [of "[0..<nr - 1]" g 4] by simp
  show "aes_nr d = aes_nr e" using assms by (auto simp: mbedtls_aes_setkey_dec_def Let_def)
  show "4 * Suc (aes_nr e) \<le> length (aes_buf d)" using s lc l by (simp add: b flip: nr_rk_g_def)
  have "round_key (aes_buf d) 0 = round_key rk nr"
    using s round_key_append(1) [of 0 "words4 rk nr"] by (simp add: b l round_key_words4)
  moreover have "round_key (aes_buf d) nr = round_key rk 0"
    using s lc l [of nr] l [of 0] round_key_append(2) [of "words4 rk nr @ concat (map g [0..<nr - 1])" nr "words4 rk 0" 0]
    by (simp add: b round_key_words4)
  moreover have "round_key (aes_buf d) i = columns inv_mix_column (round_key rk (nr - i))" if "0 < i" "i < nr" for i
  proof -
    have "round_key (aes_buf d) (1 + (i - 1)) = round_key (concat (map g [0..<nr - 1]) @ words4 rk 0) (i - 1)"
      unfolding b by (rule round_key_append(2)) (simp add: l)
    also have "\<dots> = round_key (g (i - 1)) 0" using that lg by (intro round_key_concat) auto
    finally have "round_key (aes_buf d) i = round_key (g (i - 1)) 0" using that by simp
    then show ?thesis using that s by (simp add: nr_rk_g_def round_key_words4)
  qed
  ultimately show "mirrors (aes_nr e) (aes_buf e) (aes_buf d)" by (simp add: mirrors_def flip: nr_rk_g_def)
qed

lemma aes_decrypt_encrypt:
  assumes "mbedtls_aes_setkey_enc key keybits = Some e" "mbedtls_aes_setkey_dec key keybits = Some d" "length b = 16"
  shows "mbedtls_internal_aes_decrypt d (mbedtls_internal_aes_encrypt e b) = b"
proof -
  note s = setkey_enc_schedule [OF assms(1)] setkey_dec_mirrors [OF assms(1,2)]
  have "mbedtls_internal_aes_decrypt \<lparr>aes_nr = aes_nr e, aes_buf = aes_buf d\<rparr>
      (mbedtls_internal_aes_encrypt \<lparr>aes_nr = aes_nr e, aes_buf = aes_buf e\<rparr> b) = b"
    using s assms(3) by (intro mirrored_decrypt) simp_all
  then show ?thesis by (cases e; cases d) (use s(4) in simp)
qed

text \<open>C29: Decryption of a block with the decryption schedule of a key gives back the block that the encryption
  schedule of the same key encrypted, for keys of 128, 192 and 256 bits; both schedules exist for exactly these.\<close>

theorem aes_roundtrip:
  assumes "length key = keybits div 8" "length block = 16"
  shows "if keybits \<in> {128, 192, 256}
    then \<exists>e d. mbedtls_aes_setkey_enc key keybits = Some e \<and> mbedtls_aes_setkey_dec key keybits = Some d \<and>
      mbedtls_aes_crypt_ecb False d (mbedtls_aes_crypt_ecb True e block) = block
    else mbedtls_aes_setkey_enc key keybits = None \<and> mbedtls_aes_setkey_dec key keybits = None"
proof (cases "keybits \<in> {128, 192, 256}")
  case True
  then obtain e where e: "mbedtls_aes_setkey_enc key keybits = Some e" by (auto simp: mbedtls_aes_setkey_enc_def)
  then obtain d where d: "mbedtls_aes_setkey_dec key keybits = Some d" by (auto simp: mbedtls_aes_setkey_dec_def Let_def)
  show ?thesis using True e d aes_decrypt_encrypt [OF e d assms(2)] by (auto simp: mbedtls_aes_crypt_ecb_def)
qed (simp add: mbedtls_aes_setkey_enc_def mbedtls_aes_setkey_dec_def)

theorem aes_roundtrip_witness:
  "\<exists>e d. mbedtls_aes_setkey_enc (replicate 16 7) 128 = Some e \<and> mbedtls_aes_setkey_dec (replicate 16 7) 128 = Some d \<and>
     mbedtls_aes_crypt_ecb False d (mbedtls_aes_crypt_ecb True e (replicate 16 3)) = replicate 16 3"
  using aes_roundtrip [of "replicate 16 7" 128 "replicate 16 3"] by simp

end
