(* ===== verification/Mbed_Kw.thy ===== *)
theory Mbed_Kw
  imports Mbed_Aes_Rounds Mbed_Sha1
begin

text \<open>
  The cipher layer as far as the block mode goes (\<^verbatim>\<open>cipher.twl.c\<close>, \<^verbatim>\<open>cipher_wrap.twl.c\<close>) and the key
  wrapping of NIST SP 800-38F above it (\<^verbatim>\<open>nist_kw.twl.c\<close>), both modes. The ciphers of the build are AES
  in ECB mode and the key wrapping modes. An operation on a buffer returns its status, the bytes that
  it has written from the start of the output on, and the length that it reports. The theory shows that
  unwrapping inverts wrapping, and that a failed unwrapping leaves nothing but zeros in the output.
\<close>

section \<open>The cipher layer\<close>

definition ERR_CIPHER_BAD_INPUT_DATA :: int where "ERR_CIPHER_BAD_INPUT_DATA = - 0x6100"
definition ERR_CIPHER_FEATURE_UNAVAILABLE :: int where "ERR_CIPHER_FEATURE_UNAVAILABLE = - 0x6080"
definition ERR_CIPHER_FULL_BLOCK_EXPECTED :: int where "ERR_CIPHER_FULL_BLOCK_EXPECTED = - 0x6280"
definition ERR_CIPHER_AUTH_FAILED :: int where "ERR_CIPHER_AUTH_FAILED = - 0x6300"
definition ERR_AES_INVALID_KEY_LENGTH :: int where "ERR_AES_INVALID_KEY_LENGTH = - 0x0020"

lemmas cipher_errors = ERR_CIPHER_BAD_INPUT_DATA_def ERR_CIPHER_FEATURE_UNAVAILABLE_def ERR_CIPHER_FULL_BLOCK_EXPECTED_def
  ERR_CIPHER_AUTH_FAILED_def ERR_AES_INVALID_KEY_LENGTH_def

datatype cipher_id = CIPHER_ID_NONE | CIPHER_ID_NULL | CIPHER_ID_AES | CIPHER_ID_DES | CIPHER_ID_3DES | CIPHER_ID_CAMELLIA
  | CIPHER_ID_ARIA | CIPHER_ID_CHACHA20

datatype cipher_mode = MODE_NONE | MODE_ECB | MODE_CBC | MODE_CFB | MODE_OFB | MODE_CTR | MODE_GCM | MODE_STREAM | MODE_CCM
  | MODE_CCM_STAR_NO_TAG | MODE_XTS | MODE_CHACHAPOLY | MODE_KW | MODE_KWP

datatype cipher_operation = OPERATION_NONE | DECRYPT | ENCRYPT

text \<open>The length of the key is stored in units of 64 bits, and every cipher of the build is based on AES.\<close>

record cipher_info =
  ci_block_size :: nat
  ci_key_bitlen :: nat
  ci_mode :: cipher_mode
  ci_base :: cipher_id

definition cipher_info_get_key_bitlen :: "cipher_info \<Rightarrow> nat" where
  "cipher_info_get_key_bitlen i = ci_key_bitlen i * 64"

definition aes_cipher :: "nat \<Rightarrow> cipher_mode \<Rightarrow> cipher_info" where
  "aes_cipher keybits m = \<lparr>ci_block_size = 16, ci_key_bitlen = keybits div 64, ci_mode = m, ci_base = CIPHER_ID_AES\<rparr>"

definition cipher_definitions :: "cipher_info list" where
  "cipher_definitions =
     [aes_cipher 128 MODE_ECB, aes_cipher 192 MODE_ECB, aes_cipher 256 MODE_ECB,
      aes_cipher 128 MODE_KW, aes_cipher 192 MODE_KW, aes_cipher 256 MODE_KW,
      aes_cipher 128 MODE_KWP, aes_cipher 192 MODE_KWP, aes_cipher 256 MODE_KWP]"

definition mbedtls_cipher_info_from_values :: "cipher_id \<Rightarrow> nat \<Rightarrow> cipher_mode \<Rightarrow> cipher_info option" where
  "mbedtls_cipher_info_from_values i keybits m =
     find (\<lambda>d. ci_base d = i \<and> cipher_info_get_key_bitlen d = keybits \<and> ci_mode d = m) cipher_definitions"

record cipher_context =
  cc_info :: "cipher_info option"
  cc_key_bitlen :: nat
  cc_operation :: cipher_operation
  cc_aes :: aes_context

definition mbedtls_aes_init :: aes_context where
  "mbedtls_aes_init = \<lparr>aes_nr = 0, aes_buf = replicate 68 0\<rparr>"

definition mbedtls_cipher_init :: cipher_context where
  "mbedtls_cipher_init = \<lparr>cc_info = None, cc_key_bitlen = 0, cc_operation = DECRYPT, cc_aes = mbedtls_aes_init\<rparr>"

definition mbedtls_cipher_setup :: "cipher_info \<Rightarrow> cipher_context" where
  "mbedtls_cipher_setup i = mbedtls_cipher_init\<lparr>cc_info := Some i\<rparr>"

text \<open>The schedule, or the error of a length that is none.\<close>

definition aes_setkey_status :: "aes_context option \<Rightarrow> cipher_context \<Rightarrow> int \<times> cipher_context" where
  "aes_setkey_status r ctx = (case r of None \<Rightarrow> (ERR_AES_INVALID_KEY_LENGTH, ctx) | Some a \<Rightarrow> (0, ctx\<lparr>cc_aes := a\<rparr>))"

definition mbedtls_cipher_setkey :: "u8 list \<Rightarrow> nat \<Rightarrow> cipher_operation \<Rightarrow> cipher_context \<Rightarrow> int \<times> cipher_context" where
  "mbedtls_cipher_setkey key keybits op ctx =
     (if op \<noteq> ENCRYPT \<and> op \<noteq> DECRYPT then (ERR_CIPHER_BAD_INPUT_DATA, ctx)
      else case cc_info ctx of
             None \<Rightarrow> (ERR_CIPHER_BAD_INPUT_DATA, ctx)
           | Some i \<Rightarrow>
               if cipher_info_get_key_bitlen i \<noteq> keybits then (ERR_CIPHER_BAD_INPUT_DATA, ctx)
               else let ctx = ctx\<lparr>cc_key_bitlen := keybits, cc_operation := op\<rparr>
                    in if op = ENCRYPT \<or> ci_mode i = MODE_CFB \<or> ci_mode i = MODE_OFB \<or> ci_mode i = MODE_CTR
                       then aes_setkey_status (mbedtls_aes_setkey_enc key keybits) ctx
                       else aes_setkey_status (mbedtls_aes_setkey_dec key keybits) ctx)"

text \<open>A block through the cipher. The contexts of this development are in block mode; for another mode,
  this build has no case but the last one of the function.\<close>

definition mbedtls_cipher_update :: "cipher_context \<Rightarrow> u8 list \<Rightarrow> int + u8 list" where
  "mbedtls_cipher_update ctx input =
     (case cc_info ctx of
        None \<Rightarrow> Inl ERR_CIPHER_BAD_INPUT_DATA
      | Some i \<Rightarrow>
          if ci_mode i = MODE_ECB then
            if length input \<noteq> ci_block_size i then Inl ERR_CIPHER_FULL_BLOCK_EXPECTED
            else Inr (mbedtls_aes_crypt_ecb (cc_operation ctx = ENCRYPT) (cc_aes ctx) input)
          else Inl ERR_CIPHER_FEATURE_UNAVAILABLE)"

section \<open>Key wrapping\<close>

datatype kw_mode = KW_MODE_KW | KW_MODE_KWP

definition KW_SEMIBLOCK_LENGTH :: nat where [simp]: "KW_SEMIBLOCK_LENGTH = 8"
definition MIN_SEMIBLOCKS_COUNT :: nat where [simp]: "MIN_SEMIBLOCKS_COUNT = 3"

definition NIST_KW_ICV1 :: "u8 list" where "NIST_KW_ICV1 = replicate 8 0xA6"
definition NIST_KW_ICV2 :: "u8 list" where "NIST_KW_ICV2 = [0xA6, 0x59, 0x59, 0xA6]"

definition mbedtls_nist_kw_setkey :: "cipher_id \<Rightarrow> u8 list \<Rightarrow> nat \<Rightarrow> bool \<Rightarrow> cipher_context \<Rightarrow> int \<times> cipher_context" where
  "mbedtls_nist_kw_setkey cipher key keybits is_wrap ctx =
     (case mbedtls_cipher_info_from_values cipher keybits MODE_ECB of
        None \<Rightarrow> (ERR_CIPHER_BAD_INPUT_DATA, ctx)
      | Some i \<Rightarrow>
          if ci_block_size i \<noteq> 16 then (ERR_CIPHER_BAD_INPUT_DATA, ctx)
          else if cipher \<noteq> CIPHER_ID_AES then (ERR_CIPHER_FEATURE_UNAVAILABLE, ctx)
          else mbedtls_cipher_setkey key keybits (if is_wrap then ENCRYPT else DECRYPT) (mbedtls_cipher_setup i))"

definition calc_a_xor_t :: "u8 list \<Rightarrow> 64 word \<Rightarrow> u8 list" where
  "calc_a_xor_t A t = map (\<lambda>i. A ! i XOR ucast (drop_bit ((7 - i) * 8) t AND 0xFF)) [0..<8]"

text \<open>The semiblocks behind the first one are a list; \<open>j\<close> is the position of the pointer into it.\<close>

definition semiblocks :: "u8 list \<Rightarrow> u8 list list" where
  "semiblocks bs = map (\<lambda>i. take 8 (drop (8 * i) bs)) [0..<length bs div 8]"

fun kw_wrap_loop :: "cipher_context \<Rightarrow> nat \<Rightarrow> nat \<Rightarrow> u8 list \<times> u8 list list \<times> nat \<Rightarrow> int + u8 list \<times> u8 list list" where
  "kw_wrap_loop ctx t 0 (A, R, j) = Inr (A, R)"
| "kw_wrap_loop ctx t (Suc n) (A, R, j) =
     (case mbedtls_cipher_update ctx (A @ R ! j) of
        Inl e \<Rightarrow> Inl e
      | Inr outbuff \<Rightarrow>
          kw_wrap_loop ctx (t + 1) n
            (calc_a_xor_t (take 8 outbuff) (of_nat t), R[j := drop 8 outbuff], if j + 1 \<ge> length R then 0 else j + 1))"

definition kw_padlen :: "kw_mode \<Rightarrow> nat \<Rightarrow> nat" where
  "kw_padlen m in_len = (if m = KW_MODE_KWP \<and> in_len mod 8 \<noteq> 0 then 8 - in_len mod 8 else 0)"

definition kw_header :: "kw_mode \<Rightarrow> nat \<Rightarrow> u8 list" where
  "kw_header m in_len = (if m = KW_MODE_KW then NIST_KW_ICV1 else NIST_KW_ICV2 @ put_uint32_be (of_nat in_len))"

text \<open>The work on the \<open>n\<close> semiblocks, of which the first one is \<open>A\<close>: a single block is encrypted as it is.\<close>

definition kw_wrap_semiblocks :: "cipher_context \<Rightarrow> bool \<Rightarrow> u8 list \<Rightarrow> u8 list list \<Rightarrow> nat \<Rightarrow> int + u8 list" where
  "kw_wrap_semiblocks ctx single A R n =
     (if single then mbedtls_cipher_update ctx (A @ R ! 0)
      else if n < MIN_SEMIBLOCKS_COUNT then Inl ERR_CIPHER_BAD_INPUT_DATA
      else case kw_wrap_loop ctx 1 (6 * (n - 1)) (A, R, 0) of Inl e \<Rightarrow> Inl e | Inr (A, R) \<Rightarrow> Inr (A @ concat R))"

definition mbedtls_nist_kw_wrap :: "cipher_context \<Rightarrow> kw_mode \<Rightarrow> u8 list \<Rightarrow> nat \<Rightarrow> int \<times> u8 list \<times> nat" where
  "mbedtls_nist_kw_wrap ctx m input out_size =
     (let in_len = length input; padlen = kw_padlen m in_len
      in if out_size < in_len + KW_SEMIBLOCK_LENGTH + padlen then (ERR_CIPHER_BAD_INPUT_DATA, [], 0)
         else if m = KW_MODE_KW \<and> (in_len < 16 \<or> in_len mod KW_SEMIBLOCK_LENGTH \<noteq> 0) then (ERR_CIPHER_BAD_INPUT_DATA, [], 0)
         else if m = KW_MODE_KWP \<and> in_len < 1 then (ERR_CIPHER_BAD_INPUT_DATA, [], 0)
         else
           let n = (in_len + padlen) div KW_SEMIBLOCK_LENGTH + 1
           in case kw_wrap_semiblocks ctx (m = KW_MODE_KWP \<and> in_len \<le> KW_SEMIBLOCK_LENGTH) (kw_header m in_len)
                     (semiblocks (input @ replicate padlen 0)) n of
                Inl e \<Rightarrow> (e, replicate (n * KW_SEMIBLOCK_LENGTH) 0, 0)
              | Inr output \<Rightarrow> (0, output, n * KW_SEMIBLOCK_LENGTH))"

fun kw_unwrap_loop :: "cipher_context \<Rightarrow> nat \<Rightarrow> u8 list \<times> u8 list list \<times> nat \<Rightarrow> int + u8 list \<times> u8 list list" where
  "kw_unwrap_loop ctx 0 (A, R, j) = Inr (A, R)"
| "kw_unwrap_loop ctx (Suc t) (A, R, j) =
     (case mbedtls_cipher_update ctx (calc_a_xor_t A (of_nat (Suc t)) @ R ! j) of
        Inl e \<Rightarrow> Inl e
      | Inr outbuff \<Rightarrow>
          kw_unwrap_loop ctx t (take 8 outbuff, R[j := drop 8 outbuff], if j = 0 then length R - 1 else j - 1))"

text \<open>The status with the first semiblock, or the error.\<close>

definition kw_unwrap_semiblocks :: "cipher_context \<Rightarrow> u8 list \<Rightarrow> nat \<Rightarrow> int + u8 list \<times> u8 list" where
  "kw_unwrap_semiblocks ctx input n =
     (if n < MIN_SEMIBLOCKS_COUNT then Inl ERR_CIPHER_BAD_INPUT_DATA
      else case kw_unwrap_loop ctx (6 * (n - 1)) (take 8 input, semiblocks (drop 8 input), n - 2) of
             Inl e \<Rightarrow> Inl e | Inr (A, R) \<Rightarrow> Inr (A, concat R))"

text \<open>The comparisons in constant time: any difference, and any difference behind the first \<open>skip_head\<close> bytes.\<close>

definition mbedtls_ct_memcmp :: "u8 list \<Rightarrow> u8 list \<Rightarrow> nat \<Rightarrow> u32" where
  "mbedtls_ct_memcmp a b n =
     (let diff = fold (\<lambda>i d. d OR ucast (a ! i XOR b ! i)) [0..<n] (0 :: u32) in (diff AND 0xFFFF) OR drop_bit 16 diff)"

definition mbedtls_ct_memcmp_partial :: "u8 list \<Rightarrow> u8 list \<Rightarrow> nat \<Rightarrow> nat \<Rightarrow> nat \<Rightarrow> u32" where
  "mbedtls_ct_memcmp_partial a b n skip_head skip_tail =
     fold (\<lambda>i d. d OR (if skip_head \<le> i \<and> i < n - skip_tail then ucast (a ! i XOR b ! i) else 0)) [0..<n] 0"

text \<open>The checks of an unwrapped key: the integrity value, and in the padded mode the length and the padding.
  The length of the padding wraps around when the length that the data names is too large.\<close>

definition kw_check :: "u8 list \<Rightarrow> int" where
  "kw_check A = (if mbedtls_ct_memcmp NIST_KW_ICV1 A 8 \<noteq> 0 then ERR_CIPHER_AUTH_FAILED else 0)"

definition kwp_padlen :: "nat \<Rightarrow> u8 list \<Rightarrow> u32" where
  "kwp_padlen in_len A = of_nat in_len - 8 - MBEDTLS_GET_UINT32_BE A 4"

definition kwp_check :: "nat \<Rightarrow> u8 list \<Rightarrow> u8 list \<Rightarrow> int" where
  "kwp_check in_len A output =
     (let ret = (if mbedtls_ct_memcmp NIST_KW_ICV2 A 4 \<noteq> 0 then ERR_CIPHER_AUTH_FAILED else 0);
          padlen = kwp_padlen in_len A;
          ret = (if padlen > 7 then ERR_CIPHER_AUTH_FAILED else ret);
          padlen = padlen AND 7
      in if mbedtls_ct_memcmp_partial (drop (length output - 8) output) (replicate 8 0) 8 (8 - unat padlen) 0 \<noteq> 0
         then ERR_CIPHER_AUTH_FAILED else ret)"

text \<open>The first semiblock and the rest of the data, or the error with what is written to the output.\<close>

definition kw_unwrap_data :: "cipher_context \<Rightarrow> bool \<Rightarrow> u8 list \<Rightarrow> int \<times> u8 list + u8 list \<times> u8 list" where
  "kw_unwrap_data ctx single input =
     (if single
      then (case mbedtls_cipher_update ctx input of Inl e \<Rightarrow> Inl (e, []) | Inr outbuff \<Rightarrow> Inr (take 8 outbuff, drop 8 outbuff))
      else case kw_unwrap_semiblocks ctx input (length input div KW_SEMIBLOCK_LENGTH) of
             Inl e \<Rightarrow> Inl (e, replicate (length input - 8) 0) | Inr (A, output) \<Rightarrow> Inr (A, output))"

definition mbedtls_nist_kw_unwrap :: "cipher_context \<Rightarrow> kw_mode \<Rightarrow> u8 list \<Rightarrow> u32 \<Rightarrow> int \<times> u8 list \<times> nat" where
  "mbedtls_nist_kw_unwrap ctx m input out_size =
     (let in_len = length input
      in if out_size < of_nat in_len - 8 then (ERR_CIPHER_BAD_INPUT_DATA, [], 0)
         else if in_len < (if m = KW_MODE_KW then 24 else 16) \<or> in_len mod KW_SEMIBLOCK_LENGTH \<noteq> 0
         then (ERR_CIPHER_BAD_INPUT_DATA, [], 0)
         else
           case kw_unwrap_data ctx (m = KW_MODE_KWP \<and> in_len = 16) input of
             Inl (e, output) \<Rightarrow> (e, output, 0)
           | Inr (A, output) \<Rightarrow>
               let ret = (if m = KW_MODE_KW then kw_check A else kwp_check in_len A output)
               in if ret \<noteq> 0 then (ret, replicate (length output) 0, 0)
                  else if m = KW_MODE_KW then (0, output, in_len - 8)
                  else let n = unat (MBEDTLS_GET_UINT32_BE A 4); padlen = unat (kwp_padlen in_len A AND 7)
                       in (0, take n output @ replicate padlen 0 @ drop (n + padlen) output, n))"

section \<open>Wrapping and unwrapping\<close>

text \<open>Two contexts with the schedules of one key.\<close>

definition kw_pair :: "cipher_context \<Rightarrow> cipher_context \<Rightarrow> bool" where
  "kw_pair e d \<longleftrightarrow>
     (\<forall>b. length b = 16 \<longrightarrow> (\<exists>c. length c = 16 \<and> mbedtls_cipher_update e b = Inr c \<and> mbedtls_cipher_update d c = Inr b))"

lemma length_encrypt: "length (mbedtls_internal_aes_encrypt e b) = 16"
  by (simp add: mbedtls_internal_aes_encrypt_def le32_def split_def)

lemma aes_cipher_info:
  assumes "keybits \<in> {128, 192, 256}"
  shows "mbedtls_cipher_info_from_values CIPHER_ID_AES keybits MODE_ECB = Some (aes_cipher keybits MODE_ECB)"
  using assms by (auto simp: mbedtls_cipher_info_from_values_def cipher_definitions_def aes_cipher_def cipher_info_get_key_bitlen_def)

lemma kw_setkey_pair:
  assumes "keybits \<in> {128, 192, 256}"
  shows "fst (mbedtls_nist_kw_setkey CIPHER_ID_AES key keybits w ctx) = 0"
    "kw_pair (snd (mbedtls_nist_kw_setkey CIPHER_ID_AES key keybits True ctx)) (snd (mbedtls_nist_kw_setkey CIPHER_ID_AES key keybits False ctx'))"
proof -
  obtain e where e: "mbedtls_aes_setkey_enc key keybits = Some e" using assms by (auto simp: mbedtls_aes_setkey_enc_def)
  then obtain d where d: "mbedtls_aes_setkey_dec key keybits = Some d" by (auto simp: mbedtls_aes_setkey_dec_def Let_def)
  have k: "cipher_info_get_key_bitlen (aes_cipher keybits MODE_ECB) = keybits" using assms
    by (auto simp: cipher_info_get_key_bitlen_def aes_cipher_def)
  show "fst (mbedtls_nist_kw_setkey CIPHER_ID_AES key keybits w ctx) = 0"
    using e d k by (simp add: mbedtls_nist_kw_setkey_def aes_cipher_info [OF assms] mbedtls_cipher_setkey_def mbedtls_cipher_setup_def)
      (simp add: aes_cipher_def aes_setkey_status_def)
  show "kw_pair (snd (mbedtls_nist_kw_setkey CIPHER_ID_AES key keybits True ctx)) (snd (mbedtls_nist_kw_setkey CIPHER_ID_AES key keybits False ctx'))"
    using e d k aes_decrypt_encrypt [OF e d]
    by (simp add: mbedtls_nist_kw_setkey_def aes_cipher_info [OF assms] mbedtls_cipher_setkey_def mbedtls_cipher_setup_def
      aes_setkey_status_def kw_pair_def mbedtls_cipher_update_def)
      (simp add: aes_cipher_def mbedtls_aes_crypt_ecb_def length_encrypt)
qed

text \<open>One step of each loop on the pair of the first semiblock and the others, at the position of the step.\<close>

lemma calc_a_xor_t:
  "length (calc_a_xor_t A t) = 8" "length A = 8 \<Longrightarrow> calc_a_xor_t (calc_a_xor_t A t) t = A"
proof -
  show "length (calc_a_xor_t A t) = 8" by (simp add: calc_a_xor_t_def)
  show "length A = 8 \<Longrightarrow> calc_a_xor_t (calc_a_xor_t A t) t = A"
    by (intro nth_equalityI) (simp_all add: calc_a_xor_t_def xor.assoc)
qed

fun kw_state :: "nat \<Rightarrow> u8 list \<times> u8 list list \<Rightarrow> bool" where
  "kw_state n (A, R) \<longleftrightarrow> length A = 8 \<and> length R = n \<and> (\<forall>r \<in> set R. length r = 8)"

lemma kw_state_update:
  assumes "kw_state n (A, R)" "length outbuff = 16" "length A' = 8"
  shows "kw_state n (A', R[j := drop 8 outbuff])"
  using assms by (auto dest: set_update_subset_insert [THEN subsetD])

text \<open>The unwrapping loop undoes the wrapping loop from its last step on.\<close>

lemma kw_loops:
  assumes "kw_pair e d" "0 < n" "kw_state n (A, R)"
  shows "\<exists>A' R'. kw_wrap_loop e (t + 1) m (A, R, t mod n) = Inr (A', R') \<and> kw_state n (A', R') \<and>
    kw_unwrap_loop d (t + m) (A', R', (t + m + n - 1) mod n) = kw_unwrap_loop d t (A, R, (t + n - 1) mod n)"
  using assms(3)
proof (induction m arbitrary: t A R)
  case (Suc m)
  have j: "t mod n < length R" using assms(2) Suc.prems by simp
  then have "length (A @ R ! (t mod n)) = 16" using Suc.prems by simp
  then obtain c where c: "length c = 16" "mbedtls_cipher_update e (A @ R ! (t mod n)) = Inr c"
      "mbedtls_cipher_update d c = Inr (A @ R ! (t mod n))"
    using assms(1) unfolding kw_pair_def by blast
  let ?A = "calc_a_xor_t (take 8 c) (of_nat (Suc t))" and ?R = "R[t mod n := drop 8 c]"
  have s: "kw_state n (?A, ?R)" using Suc.prems c(1) calc_a_xor_t(1) by (intro kw_state_update)
  have nx: "(if t mod n + 1 \<ge> length R then 0 else t mod n + 1) = (t + 1) mod n"
    using Suc.prems assms(2) j by (auto simp: mod_Suc)
  have pv: "(Suc t + n - 1) mod n = t mod n" "(if t mod n = 0 then length R - 1 else t mod n - 1) = (t + n - 1) mod n"
  proof -
    show "(Suc t + n - 1) mod n = t mod n" by simp
    show "(if t mod n = 0 then length R - 1 else t mod n - 1) = (t + n - 1) mod n"
    proof (cases "t mod n")
      case 0
      then have "n dvd t" by (simp add: dvd_eq_mod_eq_0)
      then obtain q where "t = n * q" by (rule dvdE)
      then have "(t + n - 1) mod n = (n - 1 + n * q) mod n" using assms(2) by (simp add: add.commute)
      also have "\<dots> = (n - 1) mod n" by (rule mod_mult_self2)
      finally show ?thesis using 0 assms(2) Suc.prems by simp
    next
      case (Suc k)
      then obtain q where q: "t = n * q + Suc k" "Suc k < n" using assms(2) by (metis mod_less_divisor mult_div_mod_eq)
      then have "(t + n - 1) mod n = (k + n * (q + 1)) mod n" by (simp add: algebra_simps)
      also have "\<dots> = k mod n" by (rule mod_mult_self2)
      finally show ?thesis using Suc q(2) by simp
    qed
  qed
  obtain A' R' where ih: "kw_wrap_loop e (Suc t + 1) m (?A, ?R, Suc t mod n) = Inr (A', R')" "kw_state n (A', R')"
      "kw_unwrap_loop d (Suc t + m) (A', R', (Suc t + m + n - 1) mod n) = kw_unwrap_loop d (Suc t) (?A, ?R, (Suc t + n - 1) mod n)"
    using Suc.IH [OF s, of "Suc t"] by blast
  have undo: "calc_a_xor_t ?A (of_nat (Suc t)) @ ?R ! (t mod n) = c" "?R[t mod n := drop 8 (A @ R ! (t mod n))] = R"
    using j c(1) Suc.prems by (simp_all add: calc_a_xor_t)
  have "kw_unwrap_loop d (Suc t) (?A, ?R, t mod n) = kw_unwrap_loop d t (A, R, (t + n - 1) mod n)"
    using Suc.prems by (simp only: kw_unwrap_loop.simps undo c(3) sum.case length_list_update pv(2)) simp
  moreover have "kw_wrap_loop e (t + 1) (Suc m) (A, R, t mod n) = Inr (A', R')"
    using ih(1) nx by (simp add: c(2))
  ultimately show ?case using ih by (simp add: pv(1))
qed auto

text \<open>Semiblocks and their concatenation.\<close>

lemma concat_semiblocks: "length bs = 8 * n \<Longrightarrow> concat (semiblocks bs) = bs"
proof (induction n arbitrary: bs)
  case (Suc n)
  have "semiblocks bs = take 8 bs # semiblocks (drop 8 bs)"
    using Suc.prems by (simp add: semiblocks_def upt_conv_Cons map_Suc_upt [symmetric] comp_def add.commute del: upt_Suc)
  then show ?case using Suc by simp
qed (simp add: semiblocks_def)

lemma semiblocks_concat: "\<forall>r \<in> set R. length r = 8 \<Longrightarrow> semiblocks (concat R) = R"
proof (induction R)
  case (Cons r R)
  have "length (concat R) = 8 * length R" using Cons.prems length_concat_const [of R "\<lambda>r. r" 8] by simp
  then have "semiblocks (r @ concat R) = r # semiblocks (concat R)"
    using Cons.prems by (simp add: semiblocks_def upt_conv_Cons map_Suc_upt [symmetric] comp_def add.commute del: upt_Suc)
  then show ?case using Cons by simp
qed (simp add: semiblocks_def)

lemma kw_state_semiblocks: "length A = 8 \<Longrightarrow> length bs = 8 * n \<Longrightarrow> kw_state n (A, semiblocks bs)"
  by (auto simp: semiblocks_def)

lemma kw_core:
  assumes "kw_pair e d" "2 \<le> n" "length A = 8" "length X = 8 * n"
  shows "\<exists>A' R'. kw_wrap_loop e 1 (6 * n) (A, semiblocks X, 0) = Inr (A', R') \<and> length (A' @ concat R') = 8 * (n + 1) \<and>
    kw_unwrap_semiblocks d (A' @ concat R') (n + 1) = Inr (A, X)"
proof -
  obtain A' R' where w: "kw_wrap_loop e 1 (6 * n) (A, semiblocks X, 0) = Inr (A', R')" "kw_state n (A', R')"
      "kw_unwrap_loop d (6 * n) (A', R', (6 * n + n - 1) mod n) = Inr (A, semiblocks X)"
    using kw_loops [OF assms(1) _ kw_state_semiblocks [OF assms(3,4)], of 0 "6 * n"] assms(2) by auto
  have "(6 * n + n - 1) mod n = (n - 1 + 6 * n) mod n" using assms(2) by (simp add: add.commute)
  then have j: "(6 * n + n - 1) mod n = n - 1" using assms(2) by (simp only: mod_mult_self3 mod_mult_self1 mod_mult_self2 mult.commute [of 6 n]) simp
  have l: "length (concat R') = 8 * n" using w(2) length_concat_const [of R' "\<lambda>r. r" 8] by simp
  have "kw_unwrap_semiblocks d (A' @ concat R') (n + 1) = Inr (A, X)"
    using w(2) w(3) [unfolded j] assms(2,4) by (simp add: kw_unwrap_semiblocks_def semiblocks_concat concat_semiblocks)
  then show ?thesis using w l by auto
qed

section \<open>The checks\<close>

lemma fold_or_eq_0: "fold (\<lambda>i d. d OR f i) is d = 0 \<longleftrightarrow> d = 0 \<and> (\<forall>i \<in> set is. f i = (0 :: u32))"
  by (induction "is" arbitrary: d) (auto simp: or_eq_0_iff)

lemma ucast_xor_0: "(ucast (a XOR b) :: u32) = 0 \<longleftrightarrow> a = (b :: u8)"
proof -
  have "(ucast x :: u32) = 0 \<longleftrightarrow> x = 0" for x :: u8
    by (auto simp: bit_eq_iff bit_ucast_iff) (use bit_imp_le_length [of x] in fastforce)
  then show ?thesis by (simp add: xor_0_iff)
qed

lemma ct_memcmp_0: "mbedtls_ct_memcmp a b n = 0 \<longleftrightarrow> (\<forall>i < n. a ! i = b ! i)"
proof -
  have split: "(d AND 0xFFFF) OR drop_bit 16 d = 0 \<longleftrightarrow> d = 0" for d :: u32
  proof
    assume z: "(d AND 0xFFFF) OR drop_bit 16 d = 0"
    have m: "d AND 0xFFFF = take_bit 16 d" by (simp add: take_bit_eq_mask mask_eq_exp_minus_1)
    have "d = push_bit 16 (drop_bit 16 d) + take_bit 16 d" by (simp add: bits_ident)
    then show "d = 0" using z unfolding m or_eq_0_iff by simp
  qed simp
  show ?thesis by (simp add: mbedtls_ct_memcmp_def Let_def split fold_or_eq_0 ucast_xor_0) auto
qed

lemma kw_check_0: "length A = 8 \<Longrightarrow> kw_check A = 0 \<longleftrightarrow> A = NIST_KW_ICV1"
  by (auto simp: kw_check_def ct_memcmp_0 cipher_errors NIST_KW_ICV1_def list_eq_iff_nth_eq)

lemma get_put_uint32_be: "MBEDTLS_GET_UINT32_BE (a # b # c # d # put_uint32_be w) 4 = w"
proof (rule bit_word_eqI)
  fix k assume "k < LENGTH(32)"
  then show "bit (MBEDTLS_GET_UINT32_BE (a # b # c # d # put_uint32_be w) 4) k = bit w k"
    unfolding MBEDTLS_GET_UINT32_BE_def put_uint32_be_def
    by (cases "k < 8"; cases "k < 16"; cases "k < 24") (auto simp: bit_or_iff bit_push_bit_iff bit_ucast_iff bit_drop_bit_eq)
qed

lemma kw_padded_length:
  assumes "if m = KW_MODE_KW then 16 \<le> len \<and> len mod 8 = 0 else 0 < len"
  obtains n where "len + kw_padlen m len = 8 * n" "1 \<le> n" "m = KW_MODE_KWP \<and> len \<le> 8 \<longleftrightarrow> n = 1"
proof
  define n where "n = len div 8 + (if m = KW_MODE_KWP \<and> len mod 8 \<noteq> 0 then 1 else 0)"
  have len: "len = 8 * (len div 8) + len mod 8" "len mod 8 < 8" by simp_all
  then show "len + kw_padlen m len = 8 * n"
    using assms by (cases m; cases "len mod 8"; simp add: n_def kw_padlen_def; linarith)
  show "1 \<le> n" "m = KW_MODE_KWP \<and> len \<le> 8 \<longleftrightarrow> n = 1"
    using assms len by (cases m; cases "len mod 8"; simp add: n_def; linarith)+
qed

lemma kwp_check_padded:
  assumes "0 < length P" "length P < 2 ^ 32 - 16" "p = kw_padlen KW_MODE_KWP (length P)" "A = kw_header KW_MODE_KWP (length P)"
  shows "kwp_check (length P + p + 8) A (P @ replicate p 0) = 0" "unat (kwp_padlen (length P + p + 8) A AND 7) = p"
    "unat (MBEDTLS_GET_UINT32_BE A 4) = length P"
proof -
  have g: "MBEDTLS_GET_UINT32_BE A 4 = of_nat (length P)" by (simp add: assms(4) kw_header_def NIST_KW_ICV2_def get_put_uint32_be)
  then show "unat (MBEDTLS_GET_UINT32_BE A 4) = length P" using assms(2) by (simp add: unat_of_nat take_bit_eq_mod)
  have p: "p < 8" by (simp add: assms(3) kw_padlen_def)
  have d: "kwp_padlen (length P + p + 8) A = of_nat p" by (simp add: kwp_padlen_def g)
  have u: "unat (of_nat p :: u32) = p" using p by (simp add: unat_of_nat take_bit_eq_mod)
  have "p \<in> {0, 1, 2, 3, 4, 5, 6, 7}" using p by auto
  then have m: "(of_nat p :: u32) AND 7 = of_nat p" by (elim insertE) simp_all
  show "unat (kwp_padlen (length P + p + 8) A AND 7) = p" by (simp add: d m u)
  have "\<not> (of_nat p :: u32) > 7" using p by (simp add: word_less_nat_alt u)
  moreover have "mbedtls_ct_memcmp NIST_KW_ICV2 A 4 = 0"
    by (auto simp: ct_memcmp_0 assms(4) kw_header_def nth_append NIST_KW_ICV2_def less_Suc_eq numeral_eq_Suc)
  moreover have "mbedtls_ct_memcmp_partial (drop (length (P @ replicate p 0) - 8) (P @ replicate p 0)) (replicate 8 0) 8 (8 - p) 0 = 0"
  proof -
    have "if KW_MODE_KWP = KW_MODE_KW then 16 \<le> length P \<and> length P mod 8 = 0 else 0 < length P" using assms(1) by simp
    then obtain n where "length P + p = 8 * n" "1 \<le> n" unfolding assms(3) by (rule kw_padded_length)
    then have "8 \<le> length P + p" by linarith
    then show ?thesis using p by (auto simp: mbedtls_ct_memcmp_partial_def fold_or_eq_0 nth_append)
  qed
  ultimately show "kwp_check (length P + p + 8) A (P @ replicate p 0) = 0"
    by (simp add: kwp_check_def Let_def d m u)
qed

section \<open>The properties\<close>

lemma kw_semiblocks_roundtrip:
  assumes "kw_pair e d" "length A = 8" "length X = 8 * n" "1 \<le> n" "single \<longleftrightarrow> n = 1"
  shows "\<exists>C. kw_wrap_semiblocks e single A (semiblocks X) (n + 1) = Inr C \<and> length C = 8 * (n + 1) \<and>
    kw_unwrap_data d single C = Inr (A, X)"
proof (cases "n = 1")
  case True
  then have "semiblocks X ! 0 = X" using assms(3) by (simp add: semiblocks_def)
  moreover obtain C where "length C = 16" "mbedtls_cipher_update e (A @ X) = Inr C" "mbedtls_cipher_update d C = Inr (A @ X)"
    using assms(1-3) True unfolding kw_pair_def by (metis length_append mult.right_neutral numeral_Bit0)
  ultimately show ?thesis using assms True by (simp add: kw_wrap_semiblocks_def kw_unwrap_data_def)
next
  case False
  then have n: "2 \<le> n" using assms(4) by simp
  obtain A' R' where "kw_wrap_loop e 1 (6 * n) (A, semiblocks X, 0) = Inr (A', R')" "length (A' @ concat R') = 8 * (n + 1)"
      "kw_unwrap_semiblocks d (A' @ concat R') (n + 1) = Inr (A, X)"
    using kw_core [OF assms(1) n assms(2,3)] by blast
  then show ?thesis using assms(5) n by (simp add: kw_wrap_semiblocks_def kw_unwrap_data_def)
qed

lemma kw_wrap_unwrap:
  assumes "kw_pair e d" "if m = KW_MODE_KW then 16 \<le> length P \<and> length P mod 8 = 0 else 0 < length P" "length P < 2 ^ 32 - 16"
    "p = kw_padlen m (length P)" "length P + p + 8 \<le> out_size" "length P + p \<le> unat out_size'"
  shows "\<exists>C. mbedtls_nist_kw_wrap e m P out_size = (0, C, length C) \<and> length C = length P + p + 8 \<and>
    mbedtls_nist_kw_unwrap d m C out_size' = (0, P @ replicate p 0, length P)"
proof -
  define A X where "A = kw_header m (length P)" "X = P @ replicate p 0"
  obtain n where n: "length P + p = 8 * n" "1 \<le> n" "m = KW_MODE_KWP \<and> length P \<le> 8 \<longleftrightarrow> n = 1"
    using kw_padded_length [OF assms(2), folded assms(4)] .
  have lA: "length A = 8" by (simp add: A_X_def kw_header_def NIST_KW_ICV1_def NIST_KW_ICV2_def)
  have lX: "length X = 8 * n" using n(1) by (simp add: A_X_def)
  obtain C where C: "kw_wrap_semiblocks e (n = 1) A (semiblocks X) (n + 1) = Inr C" "length C = 8 * (n + 1)" "kw_unwrap_data d (n = 1) C = Inr (A, X)"
    using kw_semiblocks_roundtrip [OF assms(1) lA lX n(2) refl] by blast
  have lC: "length C = length P + p + 8" using C(2) n(1) by simp
  have "mbedtls_nist_kw_wrap e m P out_size = (0, C, length C)"
    using assms(2,5) C n unfolding mbedtls_nist_kw_wrap_def Let_def KW_SEMIBLOCK_LENGTH_def n(3) assms(4) [symmetric]
      A_X_def [symmetric] by (auto split: if_splits)
  moreover have "mbedtls_nist_kw_unwrap d m C out_size' = (0, P @ replicate p 0, length P)"
  proof -
    have "(of_nat (length C) :: u32) - 8 = of_nat (length P + p)" by (simp add: lC)
    moreover have "unat (of_nat (length P + p) :: u32) \<le> length P + p"
      by (simp add: unat_of_nat take_bit_eq_mod del: of_nat_add)
    ultimately have sz: "\<not> out_size' < of_nat (length C) - 8" using assms(6) by (simp add: word_less_nat_alt)
    have single: "(m = KW_MODE_KWP \<and> length C = 16) = (n = 1)" using n C(2) by auto
    have lens: "\<not> (length C < (if m = KW_MODE_KW then 24 else 16) \<or> length C mod KW_SEMIBLOCK_LENGTH \<noteq> 0)"
      using assms(2) C(2) lC n by (auto split: if_splits)
    show ?thesis
    proof (cases m)
      case KW_MODE_KW
      then have "kw_check A = 0" "p = 0" using lA by (simp_all add: A_X_def kw_header_def assms(4) kw_padlen_def kw_check_0)
      then show ?thesis using KW_MODE_KW lC
        unfolding mbedtls_nist_kw_unwrap_def Let_def single if_not_P [OF sz] if_not_P [OF lens] C(3) by (simp add: A_X_def)
    next
      case KW_MODE_KWP
      then have "kwp_check (length C) A X = 0" "unat (kwp_padlen (length C) A AND 7) = p" "unat (MBEDTLS_GET_UINT32_BE A 4) = length P"
        using kwp_check_padded [of P p A] assms(2,3,4) lC by (simp_all add: A_X_def)
      then show ?thesis using KW_MODE_KWP
        unfolding mbedtls_nist_kw_unwrap_def Let_def single if_not_P [OF sz] if_not_P [OF lens] C(3) by (simp add: A_X_def)
    qed
  qed
  ultimately show ?thesis using lC by blast
qed

text \<open>C30: Unwrapping inverts wrapping, in both modes and for the three key lengths: for a key of at least two
  semiblocks, or in the padded mode of at least one byte, wrapping succeeds and reports its length, and
  unwrapping the result with the same key gives the input back with its length, followed by its padding.\<close>

theorem kw_roundtrip:
  assumes "keybits \<in> {128, 192, 256}" "length key = keybits div 8"
    "if m = KW_MODE_KW then 16 \<le> length P \<and> length P mod 8 = 0 else 0 < length P" "length P < 2 ^ 32 - 16"
    "length P + kw_padlen m (length P) + 8 \<le> out_size" "length P + kw_padlen m (length P) \<le> unat out_size'"
  shows "\<exists>C. mbedtls_nist_kw_wrap (snd (mbedtls_nist_kw_setkey CIPHER_ID_AES key keybits True ctx)) m P out_size = (0, C, length C) \<and>
    mbedtls_nist_kw_unwrap (snd (mbedtls_nist_kw_setkey CIPHER_ID_AES key keybits False ctx')) m C out_size' =
      (0, P @ replicate (kw_padlen m (length P)) 0, length P)"
  using kw_wrap_unwrap [OF kw_setkey_pair(2) [OF assms(1)] assms(3,4) refl assms(5,6)] by blast

theorem kw_roundtrip_witness:
  "\<exists>C. mbedtls_nist_kw_wrap (snd (mbedtls_nist_kw_setkey CIPHER_ID_AES (replicate 16 7) 128 True mbedtls_cipher_init)) KW_MODE_KW (replicate 16 5) 24
      = (0, C, length C) \<and>
    mbedtls_nist_kw_unwrap (snd (mbedtls_nist_kw_setkey CIPHER_ID_AES (replicate 16 7) 128 False mbedtls_cipher_init)) KW_MODE_KW C 512 =
      (0, replicate 16 5, 16)"
  using kw_roundtrip [of 128 "replicate 16 7" KW_MODE_KW "replicate 16 5" 24 512 mbedtls_cipher_init mbedtls_cipher_init]
  by (simp add: kw_padlen_def)

lemma length_cipher_update: "mbedtls_cipher_update ctx b = Inr c \<Longrightarrow> length c = 16"
  by (auto simp: mbedtls_cipher_update_def mbedtls_aes_crypt_ecb_def mbedtls_internal_aes_encrypt_def
      mbedtls_internal_aes_decrypt_def le32_def split_def split: option.splits if_splits)

lemma update_error: "mbedtls_cipher_update ctx b = Inl e \<Longrightarrow> e \<noteq> 0"
  by (auto simp: mbedtls_cipher_update_def cipher_errors split: option.splits if_splits)

lemma unwrap_loop_Suc:
  "kw_unwrap_loop ctx (Suc t) (A, R, j) = (case mbedtls_cipher_update ctx (calc_a_xor_t A (of_nat (Suc t)) @ R ! j) of
     Inl e \<Rightarrow> Inl e | Inr c \<Rightarrow> kw_unwrap_loop ctx t (take 8 c, R[j := drop 8 c], if j = 0 then length R - 1 else j - 1))"
  by simp

lemma length_unwrap_loop: "kw_unwrap_loop ctx t (A, R, j) = Inr (A', R') \<Longrightarrow> kw_state n (A, R) \<Longrightarrow> kw_state n (A', R')"
proof (induction t arbitrary: A R j)
  case (Suc t)
  show ?case
  proof (cases "mbedtls_cipher_update ctx (calc_a_xor_t A (of_nat (Suc t)) @ R ! j)")
    case (Inl e)
    then show ?thesis using Suc.prems(1) unfolding unwrap_loop_Suc by simp
  next
    case (Inr c)
    have s: "kw_state n (take 8 c, R[j := drop 8 c])"
      using Suc.prems(2) length_cipher_update [OF Inr] by (intro kw_state_update) auto
    show ?thesis by (rule Suc.IH [OF _ s]) (use Suc.prems(1) in \<open>simp only: unwrap_loop_Suc Inr sum.case\<close>)
  qed
qed simp

lemma unwrap_loop_error: "kw_unwrap_loop ctx t (A, R, j) = Inl e \<Longrightarrow> e \<noteq> 0"
proof (induction t arbitrary: A R j)
  case (Suc t)
  show ?case
  proof (cases "mbedtls_cipher_update ctx (calc_a_xor_t A (of_nat (Suc t)) @ R ! j)")
    case (Inl e)
    then show ?thesis using Suc.prems(1) update_error [OF Inl] unfolding unwrap_loop_Suc by simp
  next
    case (Inr c)
    show ?thesis by (rule Suc.IH) (use Suc.prems(1) in \<open>simp only: unwrap_loop_Suc Inr sum.case\<close>)
  qed
qed simp

lemma unwrap_semiblocks_error: "kw_unwrap_semiblocks ctx input n = Inl e \<Longrightarrow> e \<noteq> 0"
  by (auto simp: kw_unwrap_semiblocks_def cipher_errors split: if_splits sum.splits dest: unwrap_loop_error)

lemma length_unwrap_semiblocks:
  assumes "kw_unwrap_semiblocks ctx input (length input div 8) = Inr (A, output)" "length input mod 8 = 0"
  shows "length A = 8" "length output = length input - 8"
proof -
  define n where "n = length input div 8"
  have n: "length input = 8 * n" using assms(2) by (simp add: n_def) presburger
  have n3: "3 \<le> n" using assms(1) by (simp add: kw_unwrap_semiblocks_def n_def split: if_splits)
  obtain R' where r: "kw_unwrap_loop ctx (6 * (n - 1)) (take 8 input, semiblocks (drop 8 input), n - 2) = Inr (A, R')" "output = concat R'"
    using assms(1) n3 by (auto simp: kw_unwrap_semiblocks_def n_def split: sum.splits)
  have "kw_state (n - 1) (take 8 input, semiblocks (drop 8 input))"
    using n n3 by (intro kw_state_semiblocks) auto
  then have "kw_state (n - 1) (A, R')" by (rule length_unwrap_loop [OF r(1)])
  then show "length A = 8" "length output = length input - 8"
    using r(2) n length_concat_const [of R' "\<lambda>r. r" 8] by auto
qed

lemma kw_unwrap_failed:
  "mbedtls_nist_kw_unwrap ctx m input out_size = (ret, output, out_len) \<Longrightarrow> ret \<noteq> 0 \<Longrightarrow> set output \<subseteq> {0} \<and> out_len = 0"
  by (auto simp: mbedtls_nist_kw_unwrap_def Let_def kw_unwrap_data_def split: if_splits sum.splits)

text \<open>What a successful check in the padded mode has found. The length that the value announces is read in network
  byte order.\<close>

definition be_nat :: "u8 list \<Rightarrow> nat" where
  "be_nat bs = foldl (\<lambda>n b. 256 * n + unat b) 0 bs"

lemma unat_get_uint32_be:
  assumes "length A = 8"
  shows "unat (MBEDTLS_GET_UINT32_BE A 4) = be_nat (take 4 (drop 4 A))"
proof -
  let ?a = "A ! 4" and ?b = "A ! 5" and ?c = "A ! 6" and ?d = "A ! 7"
  define N where "N = 2 ^ 24 * unat ?a + 2 ^ 16 * unat ?b + 2 ^ 8 * unat ?c + unat ?d"
  have "drop 4 A = [?a, ?b, ?c, ?d]" using assms by (intro nth_equalityI) (auto simp: less_Suc_eq numeral_eq_Suc)
  then have r: "be_nat (take 4 (drop 4 A)) = N" by (simp add: be_nat_def N_def)
  have o: "push_bit 24 (ucast a :: u32) OR push_bit 16 (ucast b) OR push_bit 8 (ucast c) OR ucast d =
      push_bit 24 (ucast a) + push_bit 16 (ucast b) + push_bit 8 (ucast c) + ucast d" for a b c d :: u8
    by (subst disjunctive_add, simp add: bit_simps, fastforce dest: bit_imp_le_length)+ (simp add: ac_simps)
  have "unat a < 256" for a :: u8 using unsigned_less [of a, where ?'a = nat] by simp
  from this [of ?a] this [of ?b] this [of ?c] this [of ?d] have "N < 2 ^ 32" by (simp add: N_def)
  moreover have "MBEDTLS_GET_UINT32_BE A 4 = of_nat N"
    by (simp only: MBEDTLS_GET_UINT32_BE_def o) (simp add: N_def push_bit_eq_mult mult.commute)
  ultimately show ?thesis unfolding r by (simp add: unat_of_nat take_bit_eq_mod)
qed

lemma kwp_check_passed:
  assumes "kwp_check len A output = 0" "length A = 8" "length output = len - 8" "16 \<le> len" "len < 2 ^ 32"
  defines "n \<equiv> be_nat (take 4 (drop 4 A))"
  shows "take 4 A = [0xA6, 0x59, 0x59, 0xA6]" "n \<le> length output" "length output < n + 8" "set (drop n output) \<subseteq> {0}"
    "unat (kwp_padlen len A AND 7) = length output - n"
proof -
  let ?g = "MBEDTLS_GET_UINT32_BE A 4" and ?p = "kwp_padlen len A"
  have icv: "mbedtls_ct_memcmp NIST_KW_ICV2 A 4 = 0" and p7: "\<not> ?p > 7"
    and tail: "mbedtls_ct_memcmp_partial (drop (length output - 8) output) (replicate 8 0) 8 (8 - unat (?p AND 7)) 0 = 0"
    using assms(1) by (auto simp: kwp_check_def Let_def cipher_errors split: if_splits)
  show "take 4 A = [0xA6, 0x59, 0x59, 0xA6]"
    using icv assms(2) by (intro nth_equalityI) (auto simp: ct_memcmp_0 NIST_KW_ICV2_def)
  have u: "unat ?p \<le> 7" using p7 by (simp add: not_less word_le_nat_alt)
  have "?p = of_nat (len - 8) - ?g" using assms(4) by (simp add: kwp_padlen_def)
  then have "?g = of_nat (len - 8) - ?p" by simp
  moreover have "unat (of_nat (len - 8) :: u32) = len - 8"
    using assms(5) by (simp add: unat_of_nat take_bit_eq_mod del: of_nat_diff)
  ultimately have "unat ?g = len - 8 - unat ?p"
    using unat_sub [of ?p "of_nat (len - 8)"] u assms(4) by (simp add: word_le_nat_alt del: of_nat_diff)
  then have n: "n = len - 8 - unat ?p" by (simp add: n_def unat_get_uint32_be [OF assms(2), symmetric])
  then show b: "n \<le> length output" "length output < n + 8" using u assms(3,4) by simp_all
  have "?p AND 7 = take_bit 3 ?p" by (simp add: take_bit_eq_mask mask_eq_exp_minus_1)
  then have m: "?p AND 7 = ?p" using u by (simp add: take_bit_eq_mod word_unat_eq_iff unat_mod)
  have pad: "unat ?p = length output - n" using n u assms(3,4) by simp
  then show "unat (kwp_padlen len A AND 7) = length output - n" by (simp only: m)
  have l8: "8 \<le> length output" using assms(3,4) by simp
  have "drop (length output - 8) output ! i = 0" if "i < 8" "8 - unat ?p \<le> i" for i
  proof -
    have "\<forall>i \<in> {0..<8}. (if 8 - unat ?p \<le> i then ucast (drop (length output - 8) output ! i XOR replicate 8 0 ! i) else 0) = (0 :: u32)"
      using tail by (simp add: m mbedtls_ct_memcmp_partial_def fold_or_eq_0)
    then have "(ucast (drop (length output - 8) output ! i XOR 0) :: u32) = 0" using that by (auto dest: bspec [of _ _ i])
    then show ?thesis by (simp only: ucast_xor_0)
  qed
  note z = this
  have "output ! k = 0" if "n \<le> k" "k < length output" for k
    using z [of "k - (length output - 8)"] that pad u l8 by simp
  then show "set (drop n output) \<subseteq> {0}" by (auto simp: in_set_conv_nth)
qed

lemma length_unwrap_data:
  assumes "kw_unwrap_data ctx (length input = 16) input = Inr (A, output)" "length input mod 8 = 0"
  shows "length A = 8" "length output = length input - 8"
proof -
  have "length A = 8 \<and> length output = length input - 8"
  proof (cases "length input = 16")
    case True
    then obtain c where c: "mbedtls_cipher_update ctx input = Inr c" "A = take 8 c" "output = drop 8 c"
      using assms(1) by (simp add: kw_unwrap_data_def split: sum.splits)
    then show ?thesis using length_cipher_update [OF c(1)] True by simp
  next
    case False
    then have r: "kw_unwrap_semiblocks ctx input (length input div 8) = Inr (A, output)"
      using assms(1) by (simp add: kw_unwrap_data_def split: sum.splits)
    show ?thesis using length_unwrap_semiblocks [OF r assms(2)] by simp
  qed
  then show "length A = 8" "length output = length input - 8" by simp_all
qed

lemma unwrap_room:
  assumes "\<not> (out_size :: u32) < of_nat len - 8" "16 \<le> len" "len < 2 ^ 32"
  shows "len - 8 \<le> unat out_size"
proof -
  have "(of_nat len :: u32) - 8 = of_nat (len - 8)" using assms(2) by simp
  then show ?thesis using assms(1,3) by (simp add: word_less_nat_alt unat_of_nat take_bit_eq_mod del: of_nat_diff)
qed

lemma kw_unwrap_passed:
  assumes "length input < 2 ^ 32" "mbedtls_nist_kw_unwrap ctx KW_MODE_KW input out_size = (0, output, out_len)"
  shows "kw_unwrap_semiblocks ctx input (length input div 8) = Inr (replicate 8 0xA6, output) \<and>
    out_len = length output \<and> out_len \<le> unat out_size"
proof -
  have g: "\<not> out_size < of_nat (length input) - 8" "\<not> length input < 24" "length input mod 8 = 0"
    using assms(2) by (auto simp: mbedtls_nist_kw_unwrap_def Let_def cipher_errors split: if_splits)
  obtain A where A: "kw_unwrap_semiblocks ctx input (length input div 8) = Inr (A, output)" "kw_check A = 0" "out_len = length input - 8"
    using assms(2) g unwrap_semiblocks_error [of ctx input "length input div 8"]
    by (auto simp: mbedtls_nist_kw_unwrap_def Let_def kw_unwrap_data_def split: if_splits sum.splits)
  have "NIST_KW_ICV1 = replicate 8 0xA6" by (simp add: NIST_KW_ICV1_def eval_nat_numeral)
  then show ?thesis
    using A length_unwrap_semiblocks [OF A(1) g(3)] kw_check_0 unwrap_room [OF g(1) _ assms(1)] g(2) by simp
qed

lemma kw_unwrap_data_error: "kw_unwrap_data ctx single input = Inl (e, d) \<Longrightarrow> e \<noteq> 0"
  using update_error [of ctx input] unwrap_semiblocks_error [of ctx input]
  by (auto simp: kw_unwrap_data_def split: if_splits sum.splits)

lemma kwp_unwrap_passed:
  assumes "length input < 2 ^ 32" "mbedtls_nist_kw_unwrap ctx KW_MODE_KWP input out_size = (0, output, out_len)"
  shows "\<exists>A. kw_unwrap_data ctx (length input = 16) input = Inr (A, output) \<and>
    take 4 A = [0xA6, 0x59, 0x59, 0xA6] \<and> out_len = be_nat (take 4 (drop 4 A)) \<and> out_len \<le> length output \<and>
    length output < out_len + 8 \<and> set (drop out_len output) \<subseteq> {0} \<and> out_len \<le> unat out_size"
proof -
  let ?len = "length input"
  have g: "\<not> out_size < of_nat ?len - 8" "16 \<le> ?len" "?len mod 8 = 0"
    using assms(2) by (auto simp: mbedtls_nist_kw_unwrap_def Let_def cipher_errors split: if_splits)
  obtain A d where A: "kw_unwrap_data ctx (?len = 16) input = Inr (A, d)" "kwp_check ?len A d = 0"
      "out_len = unat (MBEDTLS_GET_UINT32_BE A 4)"
      "output = take out_len d @ replicate (unat (kwp_padlen ?len A AND 7)) 0 @ drop (out_len + unat (kwp_padlen ?len A AND 7)) d"
    using assms(2) g kw_unwrap_data_error [of ctx "?len = 16" input]
    by (auto simp: mbedtls_nist_kw_unwrap_def Let_def split: if_splits sum.splits)
  note l = length_unwrap_data [OF A(1) g(3)]
  note c = kwp_check_passed [OF A(2) l g(2) assms(1), folded unat_get_uint32_be [OF l(1)] A(3)]
  have "drop out_len d = replicate (length d - out_len) 0"
    using c(4) by (intro replicate_eqI) auto
  then have "output = d" using A(4) c(2,5) append_take_drop_id [of out_len d] by simp
  then show ?thesis using A c unwrap_room [OF g(1,2) assms(1)] l(2) unat_get_uint32_be [OF l(1)] by auto
qed

text \<open>C31: Unwrapping never leaves unauthenticated data in the output: when it fails, for whatever reason, all
  that it has written is zeros and the reported length is 0. When it succeeds in the mode without padding,
  the decrypted integrity value is the constant of the standard, the output is the rest of the decrypted
  data, and its length is reported. When it succeeds in the padded mode, the decrypted value starts with the
  constant of the standard, the reported length is the one it announces, the rest of the decrypted data is
  longer than that by less than a semiblock, all of it zeros, and is the output. The reported length always
  fits the size that the caller gave.\<close>

theorem kw_unwrap_authentic:
  assumes "length input < 2 ^ 32" "mbedtls_nist_kw_unwrap ctx m input out_size = (ret, output, out_len)"
  shows "if ret \<noteq> 0 then set output \<subseteq> {0} \<and> out_len = 0
    else (m = KW_MODE_KW \<longrightarrow> kw_unwrap_semiblocks ctx input (length input div 8) = Inr (replicate 8 0xA6, output) \<and>
        out_len = length output \<and> out_len \<le> unat out_size) \<and>
      (m = KW_MODE_KWP \<longrightarrow> (\<exists>A. kw_unwrap_data ctx (length input = 16) input = Inr (A, output) \<and>
        take 4 A = [0xA6, 0x59, 0x59, 0xA6] \<and> out_len = be_nat (take 4 (drop 4 A)) \<and> out_len \<le> length output \<and>
        length output < out_len + 8 \<and> set (drop out_len output) \<subseteq> {0} \<and> out_len \<le> unat out_size))"
  using kw_unwrap_failed [OF assms(2)] kw_unwrap_passed [OF assms(1), of ctx] kwp_unwrap_passed [OF assms(1), of ctx] assms(2)
  by (cases m) auto

definition kw_ex :: cipher_context where
  "kw_ex = snd (mbedtls_nist_kw_setkey CIPHER_ID_AES (replicate 16 7) 128 False mbedtls_cipher_init)"

theorem kw_unwrap_authentic_witness:
  "(\<exists>C. mbedtls_nist_kw_unwrap kw_ex KW_MODE_KW C 512 = (0, replicate 16 5, 16) \<and>
      kw_unwrap_semiblocks kw_ex C (length C div 8) = Inr (replicate 8 0xA6, replicate 16 5)) \<and>
    (\<exists>C A. mbedtls_nist_kw_unwrap kw_ex KW_MODE_KWP C 512 = (0, replicate 5 5 @ [0, 0, 0], 5) \<and>
      kw_unwrap_data kw_ex True C = Inr (A, replicate 5 5 @ [0, 0, 0]) \<and> be_nat (take 4 (drop 4 A)) = 5)"
proof -
  obtain C where C: "length C = 24" "mbedtls_nist_kw_unwrap kw_ex KW_MODE_KW C 512 = (0, replicate 16 5, 16)"
    using kw_wrap_unwrap [OF kw_setkey_pair(2) [of 128], of KW_MODE_KW "replicate 16 5" 0 24 512 "replicate 16 7" mbedtls_cipher_init mbedtls_cipher_init]
    by (auto simp: kw_padlen_def kw_ex_def)
  obtain D where D: "length D = 16" "mbedtls_nist_kw_unwrap kw_ex KW_MODE_KWP D 512 = (0, replicate 5 5 @ replicate 3 0, 5)"
    using kw_wrap_unwrap [OF kw_setkey_pair(2) [of 128], of KW_MODE_KWP "replicate 5 5" 3 16 512 "replicate 16 7" mbedtls_cipher_init mbedtls_cipher_init]
    by (auto simp: kw_padlen_def kw_ex_def)
  have "replicate 3 0 = [0, 0, 0 :: u8]" by (simp add: eval_nat_numeral)
  then show ?thesis using kw_unwrap_authentic [OF _ C(2)] kw_unwrap_authentic [OF _ D(2)] C D by auto
qed

end
