(* ===== verification/Twl_Wpa.thy ===== *)
theory Twl_Wpa
  imports Twl_Card Mbed_Md Mbed_Kw "HOL-Library.List_Lexorder"
begin

text \<open>
  The keys of WPA2 (\<^verbatim>\<open>arm7/twl/ieee/wpa.twl.c\<close>), on the models of the primitives of mbedTLS that it
  calls: HMAC-SHA-1, the password-based key derivation and the unwrapping of a key. The theory shows
  that the comparisons of the code are the lexicographic order, so that both ends of a connection
  derive the same pairwise key, that the key of a network is the one that the standard derives from
  its password, and that the group key which an access point wraps is the one that the driver finds.
\<close>

section \<open>Operations\<close>

definition sha1_hmac :: "u8 list \<Rightarrow> u8 list \<Rightarrow> u8 list" where
  "sha1_hmac key input = mbedtls_md_hmac key input"

definition PBKDF2_HMAC_SHA_1 :: "u8 list \<Rightarrow> u8 list \<Rightarrow> nat \<Rightarrow> nat \<Rightarrow> u8 list" where
  "PBKDF2_HMAC_SHA_1 pass_v salt iterations outputBytes = mbedtls_pkcs5_pbkdf2_hmac pass_v salt iterations outputBytes"

lemma length_sha1_hmac [simp]: "length (sha1_hmac k d) = 20"
  by (simp add: sha1_hmac_def)

text \<open>The comparison of two arrays: \<^verbatim>\<open>a_is_max\<close> of the code.\<close>

fun a_is_max :: "u8 list \<Rightarrow> u8 list \<Rightarrow> bool" where
  "a_is_max (x # xs) (y # ys) = (if x = y then a_is_max xs ys else x > y)"
| "a_is_max _ _ = False"

definition get_arr_min :: "u8 list \<Rightarrow> u8 list \<Rightarrow> nat \<Rightarrow> u8 list" where
  "get_arr_min a b len = take len (if a_is_max (take len a) (take len b) then b else a)"

definition get_arr_max :: "u8 list \<Rightarrow> u8 list \<Rightarrow> nat \<Rightarrow> u8 list" where
  "get_arr_max a b len = take len (if a_is_max (take len a) (take len b) then a else b)"

text \<open>The strings are read up to their terminator.\<close>

definition c_string :: "u8 list \<Rightarrow> u8 list" where
  "c_string bs = takeWhile (\<lambda>b. b \<noteq> 0) bs"

definition wpa_calc_pmk :: "u8 list \<Rightarrow> u8 list \<Rightarrow> u8 list" where
  "wpa_calc_pmk nm pass_v = PBKDF2_HMAC_SHA_1 (c_string pass_v) (c_string nm) 4096 32"

definition wpa_calc_mic :: "u8 list \<Rightarrow> u8 list \<Rightarrow> u8 list" where
  "wpa_calc_mic k pkt_data = take 16 (sha1_hmac (take 16 k) pkt_data)"

definition ptk_label :: "u8 list" where
  "ptk_label = map of_char ''Pairwise key expansion''"

definition ptk_data :: "u8 list \<Rightarrow> u8 list \<Rightarrow> u8 list \<Rightarrow> u8 list \<Rightarrow> u8 \<Rightarrow> u8 list" where
  "ptk_data dev_mac ap_mac dev_nonce ap_nonce i =
     ptk_label @ [0] @ get_arr_min dev_mac ap_mac 6 @ get_arr_max dev_mac ap_mac 6 @
     get_arr_min ap_nonce dev_nonce 32 @ get_arr_max ap_nonce dev_nonce 32 @ [i]"

definition ptk_of_bytes :: "u8 list \<Rightarrow> ptk_keyinfo" where
  "ptk_of_bytes bs = \<lparr>kck = take 16 bs, kek = take 16 (drop 16 bs), tk = take 16 (drop 32 bs),
     mic_tx = take 8 (drop 48 bs), mic_rx = take 8 (drop 56 bs)\<rparr>"

definition wpa_calc_ptk :: "u8 list \<Rightarrow> u8 list \<Rightarrow> u8 list \<Rightarrow> u8 list \<Rightarrow> u8 list \<Rightarrow> ptk_keyinfo" where
  "wpa_calc_ptk dev_mac ap_mac dev_nonce ap_nonce pmk_v =
     ptk_of_bytes (concat (map (\<lambda>i. sha1_hmac (take 32 pmk_v) (ptk_data dev_mac ap_mac dev_nonce ap_nonce i)) [0, 1, 2, 3]))"

text \<open>The decrypted key data is a list of elements; reads behind it are reads of the local array, which is
  not initialised. The result is a structure of 38 bytes.\<close>

definition gtk_expected_keytype :: "u8 list" where
  "gtk_expected_keytype = [0x00, 0x0F, 0xAC, 0x01]"

function gtk_entries :: "mem8 \<Rightarrow> nat \<Rightarrow> nat \<Rightarrow> u8 list \<Rightarrow> u8 list" where
  "gtk_entries gtk_dec decrypted_length i out =
     (if i < decrypted_length
      then let ent_type = gtk_dec i;
               ent_size = gtk_dec (i + 1);
               out = (if ent_type = 0xDD \<and> read_bytes gtk_dec (i + 2) 4 = gtk_expected_keytype \<and>
                         (ent_size = 0x16 \<or> ent_size = 0x26)
                      then read_bytes gtk_dec (i + 2) (unat ent_size) @ drop (unat ent_size) out
                      else out)
           in gtk_entries gtk_dec decrypted_length (i + 2 + unat ent_size) out
      else out)"
  by pat_completeness auto
termination by (relation "measure (\<lambda>(_, n, i, _). n - i)") auto

declare gtk_entries.simps [simp del]

definition gtk_of_bytes :: "u8 list \<Rightarrow> gtk_keyinfo" where
  "gtk_of_bytes bs = \<lparr>gtk_keytype = take 4 bs, gtk_keyidx = bs ! 4, gtk_unk = bs ! 5, gtk_key = take 32 (drop 6 bs)\<rparr>"

definition gtk_context :: "u8 list \<Rightarrow> cipher_context" where
  "gtk_context kek_v = snd (mbedtls_nist_kw_setkey CIPHER_ID_AES (take 16 kek_v) 128 False mbedtls_cipher_init)"

definition wpa_decrypt_gtk :: "mem8 \<Rightarrow> u8 list \<Rightarrow> u8 list \<Rightarrow> gtk_keyinfo" where
  "wpa_decrypt_gtk stack kek_v data =
     (let (_, gtk_dec, decrypted_length) = mbedtls_nist_kw_unwrap (gtk_context kek_v) KW_MODE_KW data 0x200
      in gtk_of_bytes (gtk_entries (write_bytes stack 0 gtk_dec) decrypted_length 0 (replicate 38 0)))"

section \<open>The comparisons are the lexicographic order\<close>

lemma a_is_max_less: "length a = length b \<Longrightarrow> a_is_max a b \<longleftrightarrow> b < a"
  by (induction a b rule: a_is_max.induct) auto

lemma arr_min_max:
  assumes "len \<le> length a" "len \<le> length b"
  shows "get_arr_min a b len = min (take len a) (take len b)" "get_arr_max a b len = max (take len a) (take len b)"
proof -
  have "a_is_max (take len a) (take len b) \<longleftrightarrow> take len b < take len a"
    using assms by (intro a_is_max_less) simp
  then show "get_arr_min a b len = min (take len a) (take len b)" "get_arr_max a b len = max (take len a) (take len b)"
    by (cases "take len b < take len a"; auto simp: get_arr_min_def get_arr_max_def min_def max_def not_less)+
qed

lemma arr_min_max_commute:
  assumes "len \<le> length a" "len \<le> length b"
  shows "get_arr_min a b len = get_arr_min b a len" "get_arr_max a b len = get_arr_max b a len"
  using assms by (simp_all add: arr_min_max min.commute max.commute)

lemma ptk_swap:
  assumes "length m1 = 6" "length m2 = 6" "length n1 = 32" "length n2 = 32"
  shows "wpa_calc_ptk m1 m2 n1 n2 k = wpa_calc_ptk m2 m1 n2 n1 k"
proof -
  have "ptk_data m1 m2 n1 n2 = ptk_data m2 m1 n2 n1"
    using assms arr_min_max_commute [of 6 m1 m2] arr_min_max_commute [of 32 n1 n2]
    by (intro ext) (simp add: ptk_data_def)
  then show ?thesis by (simp add: wpa_calc_ptk_def)
qed

text \<open>C34: The two hand-written comparisons choose the lexicographically smaller and larger of the two arrays,
  so the pairwise key does not depend on which end of the connection computes it: exchanging the two
  addresses and the two nonces gives the same key.\<close>

theorem pairwise_key_symmetric:
  assumes "length dev_mac = 6" "length ap_mac = 6" "length dev_nonce = 32" "length ap_nonce = 32"
  shows "get_arr_min dev_mac ap_mac 6 = min dev_mac ap_mac \<and> get_arr_max dev_mac ap_mac 6 = max dev_mac ap_mac \<and>
    get_arr_min ap_nonce dev_nonce 32 = min ap_nonce dev_nonce \<and> get_arr_max ap_nonce dev_nonce 32 = max ap_nonce dev_nonce \<and>
    wpa_calc_ptk dev_mac ap_mac dev_nonce ap_nonce k = wpa_calc_ptk ap_mac dev_mac ap_nonce dev_nonce k"
  using assms ptk_swap [OF assms] by (simp add: arr_min_max)

theorem pairwise_key_symmetric_witness:
  "get_arr_min [1, 2, 3, 4, 5, 6] [1, 2, 2, 9, 9, 9] 6 = [1, 2, 2, 9, 9, 9] \<and>
   (\<forall>k. wpa_calc_ptk [1, 2, 3, 4, 5, 6] [1, 2, 2, 9, 9, 9] (replicate 32 1) (replicate 32 2) k =
     wpa_calc_ptk [1, 2, 2, 9, 9, 9] [1, 2, 3, 4, 5, 6] (replicate 32 2) (replicate 32 1) k)"
  using pairwise_key_symmetric [of "[1, 2, 3, 4, 5, 6]" "[1, 2, 2, 9, 9, 9]" "replicate 32 1" "replicate 32 2"]
  by (simp add: min_def)

section \<open>The group key in the key data\<close>

text \<open>An element of the key data, the elements one after the other, and what the code does with one of them.\<close>

definition kde :: "u8 \<times> u8 list \<Rightarrow> u8 list" where
  "kde e = fst e # of_nat (length (snd e)) # snd e"

definition kdes :: "(u8 \<times> u8 list) list \<Rightarrow> u8 list" where
  "kdes es = concat (map kde es)"

definition is_gtk :: "u8 \<times> u8 list \<Rightarrow> bool" where
  "is_gtk e \<longleftrightarrow> fst e = 0xDD \<and> take 4 (snd e) = [0x00, 0x0F, 0xAC, 0x01] \<and> length (snd e) \<in> {0x16, 0x26}"

definition gtk_step :: "u8 list \<Rightarrow> u8 \<times> u8 list \<Rightarrow> u8 list" where
  "gtk_step out e = (if is_gtk e then snd e @ drop (length (snd e)) out else out)"

lemma read_bytes_append_conv:
  "read_bytes m i (length xs + length ys) = xs @ ys \<longleftrightarrow> read_bytes m i (length xs) = xs \<and> read_bytes m (i + length xs) (length ys) = ys"
  by (simp add: read_bytes_add append_eq_append_conv)

lemma gtk_entries_kdes:
  assumes "\<forall>e \<in> set es. length (snd e) < 256" "read_bytes m i (length (kdes es)) = kdes es" "n = i + length (kdes es)"
  shows "gtk_entries m n i out = foldl gtk_step out es"
  using assms
proof (induction es arbitrary: i out)
  case Nil
  then show ?case by (subst gtk_entries.simps) (simp add: kdes_def)
next
  case (Cons e es)
  let ?b = "snd e"
  have split: "kdes (e # es) = kde e @ kdes es" by (simp add: kdes_def)
  have lk: "length (kde e) = 2 + length ?b" by (simp add: kde_def)
  have r: "read_bytes m i (length (kde e)) = kde e" "read_bytes m (i + length (kde e)) (length (kdes es)) = kdes es"
    using Cons.prems(2) unfolding split length_append read_bytes_append_conv by blast+
  have m0: "m i = fst e" "m (i + 1) = of_nat (length ?b)"
    using arg_cong [OF r(1), of "\<lambda>xs. xs ! 0"] arg_cong [OF r(1), of "\<lambda>xs. xs ! 1"] by (simp_all add: lk kde_def)
  have "read_bytes m i (length [fst e, of_nat (length ?b)] + length ?b) = [fst e, of_nat (length ?b)] @ ?b"
    using r(1) by (simp add: kde_def)
  then have body: "read_bytes m (i + 2) (length ?b) = ?b" unfolding read_bytes_append_conv by simp
  have sz: "unat (of_nat (length ?b) :: u8) = length ?b" using Cons.prems(1) by (simp add: unat_of_nat)
  have four: "read_bytes m (i + 2) 4 = take 4 ?b" if "length ?b \<in> {0x16, 0x26}"
  proof -
    have "read_bytes m (i + 2) 4 = take 4 (read_bytes m (i + 2) (length ?b))"
      using that by (intro nth_equalityI) auto
    then show ?thesis by (simp only: body)
  qed
  have eq: "(of_nat (length ?b) :: u8) = 0x16 \<longleftrightarrow> length ?b = 0x16" "(of_nat (length ?b) :: u8) = 0x26 \<longleftrightarrow> length ?b = 0x26"
    using sz unfolding word_unat_eq_iff by simp_all
  have step: "(if m i = 0xDD \<and> read_bytes m (i + 2) 4 = gtk_expected_keytype \<and> (m (i + 1) = 0x16 \<or> m (i + 1) = 0x26)
        then read_bytes m (i + 2) (unat (m (i + 1))) @ drop (unat (m (i + 1))) out else out) = gtk_step out e"
    unfolding m0 sz eq body gtk_step_def is_gtk_def gtk_expected_keytype_def using four by (cases "length ?b \<in> {0x16, 0x26}") auto
  have "i < n" using Cons.prems(3) by (simp add: split lk)
  then have "gtk_entries m n i out = gtk_entries m n (i + 2 + length ?b) (gtk_step out e)"
    by (subst gtk_entries.simps) (simp only: step Let_def if_True, simp only: m0 sz)
  moreover have "gtk_entries m n (i + 2 + length ?b) (gtk_step out e) = foldl gtk_step (gtk_step out e) es"
    using r(2) Cons.prems(1,3) by (intro Cons.IH) (simp_all add: lk split add.assoc)
  ultimately show ?case by simp
qed

lemma decrypt_gtk_kdes:
  assumes "mbedtls_nist_kw_unwrap (gtk_context k) KW_MODE_KW data 0x200 = (ret, out, length (kdes es))"
    "out = kdes es \<or> es = []" "\<forall>e \<in> set es. length (snd e) < 256"
  shows "wpa_decrypt_gtk stack k data = gtk_of_bytes (foldl gtk_step (replicate 38 0) es)"
  using gtk_entries_kdes [OF assms(3), of "write_bytes stack 0 out" 0 "length (kdes es)"] assms(1,2)
  by (auto simp: wpa_decrypt_gtk_def Let_def kdes_def)

lemma gtk_step_other: "\<forall>e \<in> set es. \<not> is_gtk e \<Longrightarrow> foldl gtk_step out es = out"
  by (induction es) (auto simp: gtk_step_def)

lemma decrypt_gtk_failed:
  assumes "fst (mbedtls_nist_kw_unwrap (gtk_context k) KW_MODE_KW data 0x200) \<noteq> 0"
  shows "wpa_decrypt_gtk stack k data = gtk_of_bytes (replicate 38 0)"
proof -
  obtain ret out n where r: "mbedtls_nist_kw_unwrap (gtk_context k) KW_MODE_KW data 0x200 = (ret, out, n)" by (metis prod_cases3)
  then have "n = 0" using kw_unwrap_failed [OF r] assms by simp
  then show ?thesis using decrypt_gtk_kdes [of k data ret out "[]" stack] r by (simp add: kdes_def)
qed

lemma unwrap_wrapped:
  assumes "mbedtls_nist_kw_wrap (snd (mbedtls_nist_kw_setkey CIPHER_ID_AES (take 16 k) 128 True ctx)) KW_MODE_KW P n = (0, data, len)"
    "length P \<le> 0x200"
  shows "mbedtls_nist_kw_unwrap (gtk_context k) KW_MODE_KW data 0x200 = (0, P, length P)"
proof -
  have b: "16 \<le> length P" "length P mod 8 = 0" "length P + 8 \<le> n" "kw_padlen KW_MODE_KW (length P) = 0"
    using assms(1) by (auto simp: mbedtls_nist_kw_wrap_def Let_def cipher_errors kw_padlen_def split: if_splits)
  have "kw_pair (snd (mbedtls_nist_kw_setkey CIPHER_ID_AES (take 16 k) 128 True ctx)) (gtk_context k)"
    unfolding gtk_context_def by (rule kw_setkey_pair) simp
  from kw_wrap_unwrap [OF this, of KW_MODE_KW P 0 n "0x200"] show ?thesis using assms b by auto
qed

text \<open>C28: When an access point wraps key data with a group key under the key encryption key that both ends have
  derived, the driver finds that group key and its index: from well-formed elements with one group key of
  16 or 32 bytes among them, whatever the local array held before. When the unwrapping fails, the group
  key is all zeros and no error is reported.\<close>

theorem group_key_extracted:
  assumes "\<forall>e \<in> set (pre @ post). length (snd e) < 256 \<and> \<not> is_gtk e" "length key \<in> {16, 32}"
    "kd = kdes (pre @ (0xDD, [0x00, 0x0F, 0xAC, 0x01] @ [idx, unk] @ key) # post)" "length kd \<le> 0x200"
    "mbedtls_nist_kw_wrap (snd (mbedtls_nist_kw_setkey CIPHER_ID_AES (take 16 k) 128 True ctx)) KW_MODE_KW kd n = (0, data, len)"
    "fst (mbedtls_nist_kw_unwrap (gtk_context k') KW_MODE_KW data' 0x200) \<noteq> 0"
  shows "gtk_keyidx (wpa_decrypt_gtk stack k data) = idx \<and>
    gtk_key (wpa_decrypt_gtk stack k data) = key @ replicate (32 - length key) 0 \<and>
    gtk_keyidx (wpa_decrypt_gtk stack k' data') = 0 \<and> gtk_key (wpa_decrypt_gtk stack k' data') = replicate 32 0"
proof -
  let ?e = "(0xDD :: u8, [0x00, 0x0F, 0xAC, 0x01] @ [idx, unk] @ key)" and ?z = "replicate 38 0 :: u8 list"
  have l: "length (snd ?e) = 6 + length key" by simp
  have g: "is_gtk ?e" using assms(2) by (auto simp: is_gtk_def)
  have f: "foldl gtk_step ?z (pre @ ?e # post) = [0x00, 0x0F, 0xAC, 0x01] @ [idx, unk] @ key @ replicate (32 - length key) 0"
    using assms(1,2) g l by (auto simp: gtk_step_other gtk_step_def)
  have "wpa_decrypt_gtk stack k data = gtk_of_bytes (foldl gtk_step ?z (pre @ ?e # post))"
    using assms(1,2) l unwrap_wrapped [OF assms(5,4)] unfolding assms(3) by (intro decrypt_gtk_kdes) auto
  then show ?thesis
    using assms(2) unfolding f decrypt_gtk_failed [OF assms(6)] by (auto simp: gtk_of_bytes_def)
qed

definition gtk_data_ex :: "u8 list" where
  "gtk_data_ex = kdes ([(0x30, [1, 2, 3, 4, 5])] @ (0xDD, [0x00, 0x0F, 0xAC, 0x01] @ [1, 0] @ replicate 16 9) # [(0xDD, [0, 0, 0, 0, 0, 0, 0])])"

theorem group_key_extracted_witness:
  "\<exists>data. gtk_key (wpa_decrypt_gtk (\<lambda>_. 7) (replicate 16 3) data) = replicate 16 9 @ replicate 16 0 \<and>
    gtk_key (wpa_decrypt_gtk (\<lambda>_. 7) (replicate 16 3) []) = replicate 32 0"
proof -
  let ?e = "snd (mbedtls_nist_kw_setkey CIPHER_ID_AES (take 16 (replicate 16 3)) 128 True mbedtls_cipher_init)"
  have l: "length gtk_data_ex = 40" by (simp add: gtk_data_ex_def kdes_def kde_def)
  obtain C where C: "mbedtls_nist_kw_wrap ?e KW_MODE_KW gtk_data_ex 48 = (0, C, length C)"
    using kw_wrap_unwrap [OF kw_setkey_pair(2) [of 128], of KW_MODE_KW gtk_data_ex 0 48 512 "take 16 (replicate 16 3)" mbedtls_cipher_init mbedtls_cipher_init]
    by (auto simp: l kw_padlen_def)
  have f: "fst (mbedtls_nist_kw_unwrap (gtk_context (replicate 16 3)) KW_MODE_KW [] 0x200) \<noteq> 0"
    by (simp add: mbedtls_nist_kw_unwrap_def cipher_errors)
  from group_key_extracted [OF _ _ gtk_data_ex_def _ C f, of "\<lambda>_. 7"] show ?thesis
    by (auto simp: l is_gtk_def)
qed

text \<open>The key of a network.\<close>

lemma length_c_string: "length (c_string bs) \<le> length bs"
  by (simp add: c_string_def length_takeWhile_le)

lemma wpa_calc_pmk_rfc:
  assumes "length nm < 2 ^ 32" "length pass_v < 2 ^ 32"
  shows "wpa_calc_pmk nm pass_v = rfc8018_pbkdf2 (c_string pass_v) (c_string nm) 4096 32"
  using assms pbkdf2_rfc [of "c_string pass_v" "c_string nm"] length_c_string [of nm] length_c_string [of pass_v]
  by (simp add: wpa_calc_pmk_def PBKDF2_HMAC_SHA_1_def)

end
