(* ===== verification/Twl_Wmi.thy ===== *)
theory Twl_Wmi
  imports Arm7_Rx Twl_Wpa
begin

text \<open>
  The control protocol of the DSi card (\<^verbatim>\<open>arm7/twl/ath/wmi.twl.c\<close>, \<^verbatim>\<open>htc.twl.c\<close>) and the
  reception of its packets (\<^verbatim>\<open>wifi_card_mbox0_readpkt\<close> and \<^verbatim>\<open>data_handle_pkt\<close> of
  \<^verbatim>\<open>card.twl.c\<close>, \<^verbatim>\<open>twl/rx_queue.twl.c\<close>): the commands, scanning, connecting, the handshake of
  WPA2, and the handlers of the events. A pointer into a received packet is a function from
  offsets. The first argument of the reception bounds how deeply it is nested, as the handler of
  the ready message reads further packets.
\<close>

section \<open>Byte orders\<close>

type_synonym u64 = "64 word"

definition getle16 :: "mem8 \<Rightarrow> nat \<Rightarrow> u16" where
  "getle16 p i = hword (p i) (p (i + 1))"

definition getbe16 :: "mem8 \<Rightarrow> nat \<Rightarrow> u16" where
  "getbe16 p i = hword (p (i + 1)) (p i)"

definition getbe32 :: "mem8 \<Rightarrow> nat \<Rightarrow> u32" where
  "getbe32 p i = push_bit 24 (ucast (p i)) OR push_bit 16 (ucast (p (i + 1))) OR push_bit 8 (ucast (p (i + 2)))
     OR ucast (p (i + 3))"

definition getbe64 :: "mem8 \<Rightarrow> nat \<Rightarrow> u64" where
  "getbe64 p i =
     push_bit 56 (ucast (p i)) OR push_bit 48 (ucast (p (i + 1))) OR push_bit 40 (ucast (p (i + 2)))
     OR push_bit 32 (ucast (p (i + 3))) OR push_bit 24 (ucast (p (i + 4))) OR push_bit 16 (ucast (p (i + 5)))
     OR push_bit 8 (ucast (p (i + 6))) OR ucast (p (i + 7))"

definition putbe16 :: "u16 \<Rightarrow> u8 list" where
  "putbe16 n = [ucast (drop_bit 8 n), ucast n]"

definition putbe64 :: "u64 \<Rightarrow> u8 list" where
  "putbe64 n = [ucast (drop_bit 56 n), ucast (drop_bit 48 n), ucast (drop_bit 40 n), ucast (drop_bit 32 n),
     ucast (drop_bit 24 n), ucast (drop_bit 16 n), ucast (drop_bit 8 n), ucast n]"

section \<open>Commands\<close>

definition WMI_CONNECT_CMD :: u16 where [simp]: "WMI_CONNECT_CMD = 0x0001"
definition WMI_DISCONNECT_CMD :: u16 where [simp]: "WMI_DISCONNECT_CMD = 0x0003"
definition WMI_SYNCHRONIZE_CMD :: u16 where [simp]: "WMI_SYNCHRONIZE_CMD = 0x0004"
definition WMI_CREATE_PSTREAM_CMD :: u16 where [simp]: "WMI_CREATE_PSTREAM_CMD = 0x0005"
definition WMI_START_SCAN_CMD :: u16 where [simp]: "WMI_START_SCAN_CMD = 0x0007"
definition WMI_SET_SCAN_PARAMS_CMD :: u16 where [simp]: "WMI_SET_SCAN_PARAMS_CMD = 0x0008"
definition WMI_SET_BSS_FILTER_CMD :: u16 where [simp]: "WMI_SET_BSS_FILTER_CMD = 0x0009"
definition WMI_SET_PROBED_SSID_CMD :: u16 where [simp]: "WMI_SET_PROBED_SSID_CMD = 0x000A"
definition WMI_SET_DISCONNECT_TIMEOUT_CMD :: u16 where [simp]: "WMI_SET_DISCONNECT_TIMEOUT_CMD = 0x000D"
definition WMI_GET_CHANNEL_LIST_CMD :: u16 where [simp]: "WMI_GET_CHANNEL_LIST_CMD = 0x000E"
definition WMI_SET_CHANNEL_PARAMS_CMD :: u16 where [simp]: "WMI_SET_CHANNEL_PARAMS_CMD = 0x0011"
definition WMI_SET_POWER_MODE_CMD :: u16 where [simp]: "WMI_SET_POWER_MODE_CMD = 0x0012"
definition WMI_ADD_CIPHER_KEY_CMD :: u16 where [simp]: "WMI_ADD_CIPHER_KEY_CMD = 0x0016"
definition WMI_TARGET_ERROR_REPORT_BITMASK_CMD :: u16 where [simp]: "WMI_TARGET_ERROR_REPORT_BITMASK_CMD = 0x0022"
definition WMI_WMIX_CMD :: u16 where [simp]: "WMI_WMIX_CMD = 0x002E"
definition WMI_SET_KEEPALIVE_CMD :: u16 where [simp]: "WMI_SET_KEEPALIVE_CMD = 0x003D"
definition WMI_SET_WSC_STATUS_CMD :: u16 where [simp]: "WMI_SET_WSC_STATUS_CMD = 0x0041"
definition WMI_SET_HEARTBEAT_TIMEOUT_CMD :: u16 where [simp]: "WMI_SET_HEARTBEAT_TIMEOUT_CMD = 0x0047"
definition WMIX_DBGLOG_CFG_MODULE_CMD :: u32 where [simp]: "WMIX_DBGLOG_CFG_MODULE_CMD = 0x2009"
definition DEFAULT_WMI_CONNECT_CTRL_FLAGS :: u32 where [simp]: "DEFAULT_WMI_CONNECT_CTRL_FLAGS = 0x20"

definition WMI_GET_CHANNEL_LIST_RESP :: u16 where [simp]: "WMI_GET_CHANNEL_LIST_RESP = 0x000E"
definition WMI_READY_EVENT :: u16 where [simp]: "WMI_READY_EVENT = 0x1001"
definition WMI_CONNECT_EVENT :: u16 where [simp]: "WMI_CONNECT_EVENT = 0x1002"
definition WMI_DISCONNECT_EVENT :: u16 where [simp]: "WMI_DISCONNECT_EVENT = 0x1003"
definition WMI_BSS_INFO_EVENT :: u16 where [simp]: "WMI_BSS_INFO_EVENT = 0x1004"
definition WMI_CMD_ERROR_EVENT :: u16 where [simp]: "WMI_CMD_ERROR_EVENT = 0x1005"
definition WMI_REG_DOMAIN_EVENT :: u16 where [simp]: "WMI_REG_DOMAIN_EVENT = 0x1006"
definition WMI_SCAN_COMPLETE_EVENT :: u16 where [simp]: "WMI_SCAN_COMPLETE_EVENT = 0x100A"
definition WMI_TARGET_ERROR_REPORT_EVENT :: u16 where [simp]: "WMI_TARGET_ERROR_REPORT_EVENT = 0x100D"

definition HTC_MSG_READY :: u16 where [simp]: "HTC_MSG_READY = 1"
definition HTC_MSG_CONN_SVC :: u16 where [simp]: "HTC_MSG_CONN_SVC = 2"
definition HTC_MSG_SETUP_COMPLETE :: u16 where [simp]: "HTC_MSG_SETUP_COMPLETE = 4"

definition wmi_set_bss_filter :: "u8 \<Rightarrow> u32 \<Rightarrow> twl \<Rightarrow> twl" where
  "wmi_set_bss_filter filt ieMask = wmi_send_pkt WMI_SET_BSS_FILTER_CMD MBOXPKT_REQACK ([filt, 0] @ le16 0 @ le32 ieMask)"

definition wmi_set_channel_params :: "u16 \<Rightarrow> twl \<Rightarrow> twl" where
  "wmi_set_channel_params mhz = wmi_send_pkt WMI_SET_CHANNEL_PARAMS_CMD MBOXPKT_REQACK ([0, 0, 3, 1] @ le16 mhz)"

definition wmi_set_scan_params :: "u8 \<Rightarrow> u16 \<Rightarrow> u16 \<Rightarrow> u16 \<Rightarrow> twl \<Rightarrow> twl" where
  "wmi_set_scan_params scan_flags maxact_chdwell_time pas_chdwell_time minact_chdwell_time =
     wmi_send_pkt WMI_SET_SCAN_PARAMS_CMD MBOXPKT_REQACK
       (le16 0xFFFF @ le16 0xFFFF @ le16 0xFFFF @ le16 maxact_chdwell_time @ le16 pas_chdwell_time @ [3, scan_flags] @
        le16 minact_chdwell_time @ le16 0 @ le32 0)"

definition wmi_start_scan :: "twl \<Rightarrow> twl" where
  "wmi_start_scan t =
     wmi_send_pkt WMI_START_SCAN_CMD MBOXPKT_REQACK (le32 0 @ le32 0 @ le32 20 @ le32 0 @ [0, 0] @ le16 0)
       (t\<lparr>wmi_is_scanning := True\<rparr>)"

definition wmi_disconnect_cmd :: "twl \<Rightarrow> twl" where
  "wmi_disconnect_cmd t = wmi_send_pkt WMI_DISCONNECT_CMD MBOXPKT_REQACK [] (t\<lparr>ap_connecting := False\<rparr>)"

definition wmi_create_pstream :: "twl \<Rightarrow> twl" where
  "wmi_create_pstream =
     wmi_send_pkt WMI_CREATE_PSTREAM_CMD MBOXPKT_REQACK
       (le32 20 @ le32 20 @ le32 9999999 @ le32 (- 1) @ le32 0 @ le32 83200 @ le32 83200 @ le32 83200 @ le32 0 @
        le32 0 @ le32 6000000 @ le32 8192 @ le32 0 @ le16 0x80D0 @ le16 0x0D0 @ [0, 2, 0xFF, 1, 0, 5, 0])"

definition wmi_dbgoff :: "twl \<Rightarrow> twl" where
  "wmi_dbgoff = wmi_send_pkt WMI_WMIX_CMD MBOXPKT_REQACK (le32 WMIX_DBGLOG_CFG_MODULE_CMD @ le32 0xFFFFFFFF @ le32 0)"

definition error_report_bitmask :: "twl \<Rightarrow> twl" where
  "error_report_bitmask = wmi_send_pkt WMI_TARGET_ERROR_REPORT_BITMASK_CMD MBOXPKT_REQACK (le32 0x7F)"

definition wmi_scan_mode_start :: "twl \<Rightarrow> twl" where
  "wmi_scan_mode_start t =
     (let t = error_report_bitmask (t\<lparr>num_rounds_scanned := 0\<rparr>);
          t = wmi_send_pkt WMI_SET_HEARTBEAT_TIMEOUT_CMD MBOXPKT_REQACK (le32 0) t;
          t = wmi_send_pkt WMI_GET_CHANNEL_LIST_CMD MBOXPKT_REQACK [] t;
          t = wmi_set_bss_filter 0 0 t
      in wmi_send_pkt WMI_SET_PROBED_SSID_CMD MBOXPKT_REQACK ([0, 0, 0] @ replicate 32 0) t)"

definition twl_upd :: "(twl \<Rightarrow> twl) \<Rightarrow> arm7 \<Rightarrow> arm7" where
  "twl_upd f s = s\<lparr>twl := f (twl s)\<rparr>"

definition crypt_byte :: "Wifi_ApCryptType \<Rightarrow> u8" where
  "crypt_byte ct = (case ct of AP_CRYPT_NONE \<Rightarrow> 1 | AP_CRYPT_WEP \<Rightarrow> 2 | AP_CRYPT_TKIP \<Rightarrow> 3 | AP_CRYPT_AES \<Rightarrow> 4)"

definition wifi_channel_to_mhz :: "u8 \<Rightarrow> u32" where
  "wifi_channel_to_mhz chan = (if chan = 14 then 2484 else 2412 + (ucast chan - 1) * 5)"

definition wifi_mhz_to_channel :: "u32 \<Rightarrow> u32" where
  "wifi_mhz_to_channel mhz = (if mhz = 2484 then 14 else 1 + (mhz - 2412) div 5)"

text \<open>A key is copied to the command with the two halves of its second half exchanged when it is longer than
  16 bytes.\<close>

definition wmi_add_cipher_key :: "u8 \<Rightarrow> u8 \<Rightarrow> u8 list \<Rightarrow> u8 list option \<Rightarrow> arm7 \<Rightarrow> arm7" where
  "wmi_add_cipher_key idx usage key rsc s =
     (let crypt_type = (if usage = 1 then group_crypt_type (curAp (wd7 s)) else AP_CRYPT_AES);
          crypt_keylen = (if crypt_type = AP_CRYPT_TKIP then 0x20 else 0x10) :: u8;
          wep = (security_type (curAp (wd7 s)) = AP_SECURITY_WEP);
          crypt_type = (if wep then AP_CRYPT_WEP else crypt_type);
          crypt_keylen = (if wep then pass_len (curApSecurity (wd7 s)) else crypt_keylen);
          n = min (unat crypt_keylen) 0x10;
          lo = take n key @ replicate (0x10 - n) 0;
          hi = (if crypt_keylen > 0x10 then take 8 (drop 0x18 key) @ take 8 (drop 0x10 key) else replicate 0x10 0)
      in twl_upd (wmi_send_pkt WMI_ADD_CIPHER_KEY_CMD MBOXPKT_REQACK
           ([idx, crypt_byte crypt_type, usage, crypt_keylen] @
            (case rsc of None \<Rightarrow> replicate 8 0 | Some r \<Rightarrow> take 8 r) @ lo @ hi @ [3])) s)"

text \<open>The parameters of the connection: the name is copied with its terminator into a field of 32 bytes that
  the channel follows.\<close>

definition splice :: "nat \<Rightarrow> u8 list \<Rightarrow> u8 list \<Rightarrow> u8 list" where
  "splice off src bs = take off bs @ src @ drop (off + length src) bs"

definition connect_params :: "u8 list \<Rightarrow> Wifi_AccessPoint \<Rightarrow> u8 list" where
  "connect_params modes ap =
     (let params = modes @ [ssid_len ap] @ replicate 32 0 @ le16 (ucast (wifi_channel_to_mhz (channel ap))) @
                   replicate 6 0 @ le32 DEFAULT_WMI_CONNECT_CTRL_FLAGS;
          params = splice 8 (c_string (ssid ap) @ [0]) params
      in splice 42 (take 6 (bssid ap)) params)"

definition wmi_connect_cmd :: "arm7 \<Rightarrow> arm7" where
  "wmi_connect_cmd s =
     (let ap = curAp (wd7 s);
          send = (\<lambda>modes. twl_upd (wmi_send_pkt WMI_CONNECT_CMD MBOXPKT_REQACK (connect_params modes ap)))
      in case security_type ap of
           AP_SECURITY_OPEN \<Rightarrow> send [1, 1, 1, 1, 0, 1, 0] s
         | AP_SECURITY_WEP \<Rightarrow>
             let k = pass (curApSecurity (wd7 s));
                 s = wmi_add_cipher_key 0 3 k None s;
                 s = wmi_add_cipher_key 1 1 k None s;
                 s = wmi_add_cipher_key 2 1 k None s;
                 s = wmi_add_cipher_key 3 1 k None s
             in send [1, 2, 1, crypt_byte AP_CRYPT_WEP, 0, crypt_byte AP_CRYPT_WEP, 0] s
         | _ \<Rightarrow> send [1, 1, 5, crypt_byte (pair_crypt_type ap), 0, crypt_byte (group_crypt_type ap), 0] s)"

section \<open>Scanning\<close>

text \<open>The index may be that of the entry behind the list of channels, before it returns to 0.\<close>

definition wmi_scan_mode_tick :: "arm7 \<Rightarrow> arm7" where
  "wmi_scan_mode_tick s =
     (let t = twl s
      in if device_num_channels t = 0 \<or> wmi_is_scanning t then s
         else let s = wd7_upd Wifi_AccessPointTick s;
                  mhz = getle16 (channel_freqs t) (2 * unat (device_cur_channel_idx t));
                  idx = device_cur_channel_idx t + 1;
                  t = (if idx > device_num_channels t
                       then t\<lparr>device_cur_channel_idx := 0, num_rounds_scanned := num_rounds_scanned t + 1\<rparr>
                       else t\<lparr>device_cur_channel_idx := idx\<rparr>)
              in if mhz = 0 then s\<lparr>twl := t\<rparr>
                 else s\<lparr>twl := wmi_start_scan (wmi_set_bss_filter 1 0 (wmi_set_scan_params 1 20 50 0 (wmi_set_channel_params mhz t)))\<rparr>)"

section \<open>Connecting\<close>

definition wmi_handshake_done :: "arm7 \<Rightarrow> bool" where
  "wmi_handshake_done s = has_sent_hs4 (twl s)"

definition wmi_is_ap_connected :: "arm7 \<Rightarrow> bool" where
  "wmi_is_ap_connected s =
     (if security_type (curAp (wd7 s)) = AP_SECURITY_WPA2 then ap_connected (twl s) \<and> wmi_handshake_done s
      else ap_connected (twl s))"

definition wmi_is_ap_connecting :: "arm7 \<Rightarrow> bool" where
  "wmi_is_ap_connecting s =
     (if security_type (curAp (wd7 s)) = AP_SECURITY_WPA2
      then ap_connecting (twl s) \<or> ap_connected (twl s) \<and> \<not> wmi_handshake_done s
      else ap_connecting (twl s))"

text \<open>The password is read up to a terminator, beyond its array into the key behind it.\<close>

definition prepare_wpa :: "arm7 \<Rightarrow> arm7" where
  "prepare_wpa s =
     (let sec = curApSecurity (wd7 s);
          has_pmk = (\<exists>b \<in> set (pmk sec). b \<noteq> 0);
          s = (if has_pmk then s
               else wd7_upd (\<lambda>w. w\<lparr>curApSecurity := sec\<lparr>pmk := wpa_calc_pmk (ssid (curAp w)) (pass sec @ pmk sec)\<rparr>\<rparr>) s)
      in twl_upd (\<lambda>t. t\<lparr>has_sent_hs2 := False, has_sent_hs4 := False\<rparr>) s)"

definition wmi_byte_cmd :: "u16 \<Rightarrow> u8 \<Rightarrow> twl \<Rightarrow> twl" where
  "wmi_byte_cmd cmd tmp8 = wmi_send_pkt cmd MBOXPKT_REQACK [tmp8]"

text \<open>The commands that come before the one to connect.\<close>

definition connect_setup :: "u32 \<Rightarrow> twl \<Rightarrow> twl" where
  "connect_setup mhz t =
     (let t = wmi_set_bss_filter 4 0 t;
          t = wmi_set_scan_params 5 200 200 200 t;
          t = wmi_set_channel_params (ucast mhz) t;
          t = wmi_byte_cmd WMI_SYNCHRONIZE_CMD 0 (t\<lparr>wmi_idk := 0x2008\<rparr>);
          t = wmi_byte_cmd WMI_SET_POWER_MODE_CMD 2 (t\<lparr>wmi_idk := 0\<rparr>);
          t = wmi_byte_cmd WMI_SYNCHRONIZE_CMD 0 t;
          t = wmi_create_pstream t;
          t = wmi_byte_cmd WMI_SET_WSC_STATUS_CMD 0 t;
          t = wmi_byte_cmd WMI_SET_DISCONNECT_TIMEOUT_CMD 5 t
      in wmi_byte_cmd WMI_SET_KEEPALIVE_CMD 0 t)"

definition wmi_connect :: "arm7 \<Rightarrow> arm7" where
  "wmi_connect s =
     (if ap_connecting (twl s) then s
      else let s = twl_upd (\<lambda>t. t\<lparr>ap_connecting := True\<rparr>) s;
               s = (if security_type (curAp (wd7 s)) = AP_SECURITY_WPA2 then prepare_wpa s else s);
               s = twl_upd (connect_setup (wifi_channel_to_mhz (channel (curAp (wd7 s))))) s
           in wmi_connect_cmd s)"

text \<open>The keys are the temporal key, the group key and its receive sequence counter; without WPA2 they are not used.\<close>

definition wmi_post_handshake :: "(u8 list \<times> gtk_keyinfo \<times> u8 list) option \<Rightarrow> arm7 \<Rightarrow> arm7" where
  "wmi_post_handshake keys s =
     (let s = twl_upd (\<lambda>t. data_send_pkt (le16 0x0200) (data_send_pkt (le16 0x0200) (wmi_byte_cmd WMI_SYNCHRONIZE_CMD 1 t))) s;
          s = (case keys of
                 Some (tk_v, gtk, rsc) \<Rightarrow>
                   if security_type (curAp (wd7 s)) = AP_SECURITY_WPA2
                   then wmi_add_cipher_key (gtk_keyidx gtk) 1 (gtk_key gtk) (Some rsc) (wmi_add_cipher_key 0 0 tk_v None s)
                   else s
               | None \<Rightarrow> s)
      in twl_upd (wmi_byte_cmd WMI_SYNCHRONIZE_CMD 1) s)"

section \<open>The handshake of WPA2\<close>

text \<open>The frames that the code sends: an Ethernet-like header, the SNAP header of EAPOL, and the key message,
  whose integrity code is computed with its own field cleared.\<close>

definition snap_eapol :: "u8 list" where
  "snap_eapol = [0xAA, 0xAA, 0x03, 0, 0, 0, 0x88, 0x8E]"

definition key_message :: "u16 \<Rightarrow> u64 \<Rightarrow> u8 list \<Rightarrow> u8 list \<Rightarrow> u8 list \<Rightarrow> u8 list" where
  "key_message keyinfo replay_cnt wpa_nonce mic keydata =
     (let auth_len = 95 + length keydata
      in [1, 3] @ putbe16 (of_nat auth_len) @ [2] @ putbe16 keyinfo @ putbe16 0 @ putbe64 replay_cnt @ wpa_nonce @
         replicate 16 0 @ replicate 8 0 @ replicate 8 0 @ mic @ putbe16 (of_nat (length keydata)) @ keydata)"

definition key_frame :: "u8 list \<Rightarrow> mac \<Rightarrow> mac \<Rightarrow> u16 \<Rightarrow> u64 \<Rightarrow> u8 list \<Rightarrow> u8 list \<Rightarrow> u8 list" where
  "key_frame kck_v dst src keyinfo replay_cnt wpa_nonce keydata =
     (let mic = wpa_calc_mic kck_v (key_message keyinfo replay_cnt wpa_nonce (replicate 16 0) keydata)
      in [0x00, 0x1C] @ dst @ src @ putbe16 (of_nat (8 + 4 + 95 + length keydata)) @ snap_eapol @
         key_message keyinfo replay_cnt wpa_nonce mic keydata)"

fun random_bytes :: "nat \<Rightarrow> Wifi_MainStruct \<Rightarrow> u8 list \<times> Wifi_MainStruct" where
  "random_bytes 0 w = ([], w)"
| "random_bytes (Suc n) w =
     (let (r, w) = Wifi_Random7 w; (rs, w) = random_bytes n w in (ucast r # rs, w))"

definition wpa_rsn_element :: "Wifi_ApCryptType \<Rightarrow> u8 list" where
  "wpa_rsn_element group_crypt =
     [0x30, 0x14, 0x01, 0x00, 0x00, 0x0F, 0xAC, if group_crypt = AP_CRYPT_AES then 0x04 else 0x02, 0x01, 0x00, 0x00,
      0x0F, 0xAC, 0x04, 0x01, 0x00, 0x00, 0x0F, 0xAC, 0x02, 0x00, 0x00]"

definition data_send_wpa_handshake2 :: "mac \<Rightarrow> mac \<Rightarrow> u64 \<Rightarrow> arm7 \<Rightarrow> arm7" where
  "data_send_wpa_handshake2 dst_bssid src_bssid replay_cnt s =
     (let (nonce, w) = random_bytes 32 (wd7 s);
          s = s\<lparr>wd7 := w\<rparr>;
          ptk = wpa_calc_ptk src_bssid dst_bssid nonce (device_ap_nonce (twl s)) (pmk (curApSecurity (wd7 s)));
          frame = key_frame (kck ptk) dst_bssid src_bssid 0x010A replay_cnt nonce (wpa_rsn_element (group_crypt_type (curAp (wd7 s))))
      in twl_upd (\<lambda>t. (data_send_pkt frame (t\<lparr>device_nonce := nonce, device_ptk := ptk\<rparr>))\<lparr>has_sent_hs2 := True\<rparr>) s)"

definition data_send_wpa_ack :: "u16 \<Rightarrow> mac \<Rightarrow> mac \<Rightarrow> u64 \<Rightarrow> twl \<Rightarrow> twl" where
  "data_send_wpa_ack keyinfo dst_bssid src_bssid replay_cnt t =
     (data_send_pkt (key_frame (kck (device_ptk t)) dst_bssid src_bssid keyinfo replay_cnt (replicate 32 0) []) t)
       \<lparr>has_sent_hs4 := True\<rparr>"

definition data_send_wpa_handshake4 :: "mac \<Rightarrow> mac \<Rightarrow> u64 \<Rightarrow> twl \<Rightarrow> twl" where
  "data_send_wpa_handshake4 dst_bssid src_bssid replay_cnt t = data_send_wpa_ack 0x030A dst_bssid src_bssid replay_cnt t"

definition data_send_wpa_gtkrenew :: "mac \<Rightarrow> mac \<Rightarrow> u64 \<Rightarrow> twl \<Rightarrow> twl" where
  "data_send_wpa_gtkrenew dst_bssid src_bssid replay_cnt t = data_send_wpa_ack 0x0302 dst_bssid src_bssid replay_cnt t"

text \<open>The group key of the message is installed together with the temporal key.\<close>

definition install_keys :: "mem8 \<Rightarrow> arm7 \<Rightarrow> arm7" where
  "install_keys p s =
     (let keydata_len = unat (getbe16 p 97);
          gtk = wpa_decrypt_gtk (stack7 s) (kek (device_ptk (twl s))) (read_bytes p 99 keydata_len);
          s = twl_upd (\<lambda>t. t\<lparr>device_gtk_keyinfo := gtk\<rparr>) s
      in wmi_post_handshake (Some (tk (device_ptk (twl s)), gtk, read_bytes p 65 8)) s)"

definition data_handle_auth :: "mem8 \<Rightarrow> mac \<Rightarrow> mac \<Rightarrow> arm7 \<Rightarrow> arm7" where
  "data_handle_auth p dev_bssid ap_bssid s =
     (let keyinfo = getbe16 p 5; replay = getbe64 p 9
      in if keyinfo = 0x008A
         then data_send_wpa_handshake2 ap_bssid dev_bssid replay (twl_upd (\<lambda>t. t\<lparr>device_ap_nonce := read_bytes p 17 32\<rparr>) s)
         else if keyinfo = 0x13CA
         then install_keys p (twl_upd (\<lambda>t. data_send_wpa_handshake4 ap_bssid dev_bssid replay (t\<lparr>device_ap_mic := read_bytes p 81 16\<rparr>)) s)
         else if keyinfo = 0x1382
         then install_keys p (twl_upd (data_send_wpa_gtkrenew ap_bssid dev_bssid replay) s)
         else s)"

section \<open>Access points in range\<close>

definition IEEE_CRYPT_TKIP :: u32 where [simp]: "IEEE_CRYPT_TKIP = 0x000FAC02"
definition IEEE_CRYPT_AES_CCMP :: u32 where [simp]: "IEEE_CRYPT_AES_CCMP = 0x000FAC04"
definition IEEE_AUTH_PSK :: u32 where [simp]: "IEEE_AUTH_PSK = 0x000FAC02"

definition wmi_ieee_to_crypt :: "u32 \<Rightarrow> Wifi_ApCryptType" where
  "wmi_ieee_to_crypt ieee =
     (if ieee = IEEE_CRYPT_TKIP then AP_CRYPT_TKIP else if ieee = IEEE_CRYPT_AES_CCMP then AP_CRYPT_AES else AP_CRYPT_NONE)"

definition auth_of_byte :: "u8 \<Rightarrow> Wifi_ApAuthType" where
  "auth_of_byte b = (if b = 0 then AP_AUTH_NONE else if b = 1 then AP_AUTH_8021X else if b = 2 then AP_AUTH_PSK else AP_AUTH_OTHER b)"

text \<open>What the loop over the elements has found so far: the local variables of \<^verbatim>\<open>wmi_handle_bss_info\<close>.\<close>

record bss_info =
  bi_ssid :: "u8 list"
  bi_ssid_len :: nat
  bi_sec :: Wifi_ApSecurityType
  bi_group :: Wifi_ApCryptType
  bi_pair :: Wifi_ApCryptType
  bi_auth :: Wifi_ApAuthType

text \<open>The two loops over the suites of an RSN element; each stops at the preferred suite.\<close>

fun pair_loop :: "mem8 \<Rightarrow> nat \<Rightarrow> nat \<Rightarrow> Wifi_ApCryptType \<Rightarrow> Wifi_ApCryptType" where
  "pair_loop p i 0 pair = pair"
| "pair_loop p i (Suc n) pair =
     (let pair = wmi_ieee_to_crypt (getbe32 p i) in if pair = AP_CRYPT_AES then pair else pair_loop p (i + 4) n pair)"

fun auth_loop :: "mem8 \<Rightarrow> nat \<Rightarrow> nat \<Rightarrow> Wifi_ApAuthType \<Rightarrow> Wifi_ApAuthType" where
  "auth_loop p i 0 at = at"
| "auth_loop p i (Suc n) at =
     (let auth = getbe32 p i; at = auth_of_byte (ucast auth) in if auth = IEEE_AUTH_PSK then at else auth_loop p (i + 4) n at)"

definition bss_rsn :: "mem8 \<Rightarrow> nat \<Rightarrow> bss_info \<Rightarrow> bss_info" where
  "bss_rsn p r b =
     (let b = b\<lparr>bi_sec := AP_SECURITY_WPA2\<rparr>
      in if getle16 p r \<noteq> 1 then b
         else let num_pairwise = min (unat (getle16 p (r + 6))) 4;
                  pair = pair_loop p (r + 8) num_pairwise (bi_pair b);
                  a = r + 8 + 4 * num_pairwise;
                  num_authkey = min (unat (getle16 p a)) 4
              in b\<lparr>bi_group := wmi_ieee_to_crypt (getbe32 p (r + 2)), bi_pair := pair,
                   bi_auth := auth_loop p (a + 2) num_authkey (bi_auth b),
                   bi_sec := (if pair = AP_CRYPT_TKIP then AP_SECURITY_WPA else AP_SECURITY_WPA2)\<rparr>)"

definition bss_element :: "mem8 \<Rightarrow> u8 \<Rightarrow> nat \<Rightarrow> nat \<Rightarrow> bss_info \<Rightarrow> bss_info" where
  "bss_element p fie len r b =
     (if fie = MGT_FIE_ID_SSID
      then if p r > 0
           then let n = min len 32 in b\<lparr>bi_ssid_len := n, bi_ssid := read_bytes p r n @ drop n (bi_ssid b)\<rparr>
           else b
      else if fie = MGT_FIE_ID_RSN then bss_rsn p r b
      else b)"

function bss_elements :: "mem8 \<Rightarrow> nat \<Rightarrow> int \<Rightarrow> bss_info \<Rightarrow> bss_info" where
  "bss_elements p r data_left b =
     (if data_left > 0
      then let len = unat (p (r + 1))
           in bss_elements p (r + 2 + len) (data_left - 2 - int len) (bss_element p (p r) len (r + 2) b)
      else b)"
  by pat_completeness auto
termination
  by (relation "measure (\<lambda>(_, _, d, _). nat d)") (auto intro!: order.strict_trans2 [OF _ unsigned_greater_eq])

declare bss_elements.simps [simp del]

text \<open>The message is 16 bytes of its own, the 12 bytes at the beginning of a beacon, and the elements.\<close>

definition wmi_handle_bss_info :: "mem8 \<Rightarrow> u32 \<Rightarrow> Wifi_MainStruct \<Rightarrow> Wifi_MainStruct" where
  "wmi_handle_bss_info p len w =
     (if len \<le> 28 \<or> p 3 < 0x10 then w
      else let sec = (if getle16 p 26 AND CAPS_PRIVACY \<noteq> 0 then AP_SECURITY_WEP else AP_SECURITY_OPEN);
               b = bss_elements p 28 (sint (len - 28))
                     \<lparr>bi_ssid = replicate 33 0, bi_ssid_len = 0, bi_sec = sec, bi_group = AP_CRYPT_NONE,
                      bi_pair = AP_CRYPT_NONE, bi_auth = AP_AUTH_NONE\<rparr>
           in Wifi_AccessPointAdd (\<lambda>i. p (6 + i)) (read_bytes p 6 6) (Some ((!) (bi_ssid b), bi_ssid_len b))
                (wifi_mhz_to_channel (ucast (getle16 p 0))) (scast (getle16 p 4))
                (bi_sec b) (bi_group b) (bi_pair b) (bi_auth b) True None w)"

section \<open>Events\<close>

definition wmi_handle_get_channel_list :: "mem8 \<Rightarrow> twl \<Rightarrow> twl" where
  "wmi_handle_get_channel_list p t =
     (let num_entries = p 1
      in t\<lparr>device_num_channels := num_entries,
           channel_freqs := write_bytes (channel_freqs t) 0 (read_bytes p 2 (2 * min (unat num_entries) 32))\<rparr>)"

definition wmi_handle_scan_complete :: "twl \<Rightarrow> twl" where
  "wmi_handle_scan_complete t = t\<lparr>wmi_is_scanning := False\<rparr>"

definition wmi_handle_reg_domain :: "twl \<Rightarrow> twl" where
  "wmi_handle_reg_domain t =
     (let (idk_addr, t) = wifi_card_read_intern_word (wifi_card_host_interest_addr t) t;
          t = wifi_card_write_intern_word idk_addr 3 t;
          t = wmi_dbgoff (wmi_set_scan_params 0 20 50 0 t)
      in t\<lparr>wmi_bIsReady := True\<rparr>)"

definition wmi_handle_cmd_error :: "twl \<Rightarrow> twl" where
  "wmi_handle_cmd_error t =
     (let (v, t) = wifi_card_read_func1_u32 0x400 t in error_report_bitmask (wifi_card_write_func1_u32 0x400 v t))"

definition wmi_handle_connect :: "arm7 \<Rightarrow> arm7" where
  "wmi_handle_connect s =
     (let s = twl_upd (\<lambda>t. t\<lparr>ap_connected := True, ap_connecting := False\<rparr>) s
      in if security_type (curAp (wd7 s)) \<in> {AP_SECURITY_OPEN, AP_SECURITY_WEP} then wmi_post_handshake None s else s)"

text \<open>The messages that are only logged or ignored are the last case.\<close>

definition wmi_handle_pkt :: "u16 \<Rightarrow> mem8 \<Rightarrow> u32 \<Rightarrow> arm7 \<Rightarrow> arm7" where
  "wmi_handle_pkt pkt_cmd p len s =
     (if pkt_cmd = WMI_READY_EVENT then wd7_upd (\<lambda>w. w\<lparr>MacAddr := read_bytes p 0 6\<rparr>) s
      else if pkt_cmd = WMI_REG_DOMAIN_EVENT then twl_upd wmi_handle_reg_domain s
      else if pkt_cmd = WMI_GET_CHANNEL_LIST_RESP then twl_upd (wmi_handle_get_channel_list p) s
      else if pkt_cmd = WMI_CMD_ERROR_EVENT then twl_upd wmi_handle_cmd_error s
      else if pkt_cmd = WMI_SCAN_COMPLETE_EVENT then twl_upd wmi_handle_scan_complete s
      else if pkt_cmd = WMI_BSS_INFO_EVENT then wd7_upd (wmi_handle_bss_info p len) s
      else if pkt_cmd = WMI_CONNECT_EVENT then wmi_handle_connect s
      else if pkt_cmd = WMI_DISCONNECT_EVENT then twl_upd (\<lambda>t. t\<lparr>ap_connected := False, ap_connecting := False\<rparr>) s
      else if pkt_cmd = WMI_TARGET_ERROR_REPORT_EVENT
      then twl_upd (\<lambda>t. let t = error_report_bitmask t in if read_u32 p 0 = 8 then wmi_disconnect_cmd t else t) s
      else s)"

section \<open>Reception\<close>

definition Wifi_TWL_RxAddPacketToQueue :: "u8 list \<Rightarrow> arm7 \<Rightarrow> (bool \<times> arm7) option" where
  "Wifi_TWL_RxAddPacketToQueue src s =
     (let sz = of_nat (length src) :: u32
      in case BufferPut WIFI_RXBUFFER_SIZE sz (\<lambda>write_idx m. write_bytes m write_idx src) sz (rxbuf (wd7 s)) of
           None \<Rightarrow> None
         | Some (False, b) \<Rightarrow> Some (False, wd7_upd (\<lambda>w. stat_add WSTAT_RXQUEUEDLOST 1 (w\<lparr>rxbuf := b\<rparr>)) s)
         | Some (True, b) \<Rightarrow>
             Some (True, Wifi_CallSyncHandler7 (wd7_upd (\<lambda>w.
               stat_add WSTAT_RXQUEUEDBYTES sz (stat_add WSTAT_RXQUEUEDPACKETS 1 (w\<lparr>rxbuf := b\<rparr>))) s)))"

text \<open>A data packet at \<open>p\<close>: signal strength, destination, source, length, SNAP header. Key messages go to the
  handshake, everything else to the ARM9.\<close>

definition data_handle_pkt :: "mem8 \<Rightarrow> nat \<Rightarrow> arm7 \<Rightarrow> arm7 option" where
  "data_handle_pkt p len s =
     (if getbe16 p 22 = 0x888E
      then Some (data_handle_auth (\<lambda>i. p (24 + i)) (read_bytes p 2 6) (read_bytes p 8 6) s)
      else map_option snd (Wifi_TWL_RxAddPacketToQueue (read_bytes p 0 len) s))"

definition htc_exchange :: "(arm7 \<Rightarrow> (u16 \<times> arm7) option) \<Rightarrow> u8 list \<Rightarrow> arm7 \<Rightarrow> arm7 option" where
  "htc_exchange readpkt data s =
     map_option snd (readpkt (twl_upd (htc_send_pkt HTC_MSG_CONN_SVC MBOXPKT_NOACK data) s))"

definition htc_handle_pkt :: "(arm7 \<Rightarrow> (u16 \<times> arm7) option) \<Rightarrow> u16 \<Rightarrow> arm7 \<Rightarrow> arm7 option" where
  "htc_handle_pkt readpkt pkt_cmd s =
     (if pkt_cmd = HTC_MSG_READY
      then do { s \<leftarrow> htc_exchange readpkt [0, 1, 0, 0, 0, 0] s;
                s \<leftarrow> htc_exchange readpkt [1, 1, 5, 0, 0, 0] s;
                s \<leftarrow> htc_exchange readpkt [2, 1, 5, 0, 0, 0] s;
                s \<leftarrow> htc_exchange readpkt [3, 1, 5, 0, 0, 0] s;
                s \<leftarrow> htc_exchange readpkt [4, 1, 5, 0, 0, 0] s;
                Some (twl_upd (\<lambda>t.
                  let t = htc_send_pkt HTC_MSG_SETUP_COMPLETE MBOXPKT_NOACK [] t;
                      t = wifi_card_write_func1_u32 0x418 0x010300D1 t
                  in wifi_card_write_func0_u8 4 3 t) s) }
      else Some s)"

text \<open>\<^verbatim>\<open>while (timeout--)\<close>: the value of the counter when the loop is left, -1 after the last round.\<close>

fun mbox_wait :: "nat \<Rightarrow> twl \<Rightarrow> int \<times> twl" where
  "mbox_wait 0 t = (-1, t)"
| "mbox_wait (Suc timeout) t =
     (let (sts, t) = wifi_card_read_func1_u8 F1_HOST_INT_STATUS t
      in if sts AND 1 \<noteq> 0 then (int timeout, t) else mbox_wait timeout t)"

definition mbox_header :: "twl \<Rightarrow> u32 \<times> twl" where
  "mbox_header t =
     (if mbox_has_lookahead t then (mbox_lookahead t, t\<lparr>mbox_has_lookahead := False\<rparr>)
      else wifi_card_read_func1_u32 F1_RX_LOOKAHEAD0 t)"

fun mbox_discard :: "nat \<Rightarrow> twl \<Rightarrow> twl" where
  "mbox_discard 0 t = t"
| "mbox_discard (Suc n) t =
     (let (sts, t) = wifi_card_read_func1_u8 F1_HOST_INT_STATUS t
      in if sts AND 1 = 0 then t else mbox_discard n (snd (wifi_card_read_func1_u8 0xFF t)))"

text \<open>The items behind a packet; the first lookahead item gives the header of the next packet.\<close>

function ack_items :: "mem8 \<Rightarrow> nat \<Rightarrow> nat \<Rightarrow> u32 option \<Rightarrow> u32 option" where
  "ack_items ack_data ack_idx ack_len found =
     (if ack_idx < ack_len
      then let type = ack_data ack_idx; len = ack_data (ack_idx + 1); i = ack_idx + 2;
               found = (if type = 2 \<and> len = 6 \<and> found = None \<and> ack_data i = 0xAA \<and> ack_data (i + 5) = 0x55
                        then Some (read_u32 ack_data (i + 1)) else found)
           in ack_items ack_data (i + unat len) ack_len found
      else found)"
  by pat_completeness auto
termination by (relation "measure (\<lambda>(_, i, n, _). n - i)") auto

declare ack_items.simps [simp del]

definition parse_acks :: "nat \<Rightarrow> nat \<Rightarrow> twl \<Rightarrow> twl" where
  "parse_acks ack_off ack_len t =
     (case ack_items (\<lambda>i. mbox_buffer t (ack_off + i)) 0 ack_len None of
        None \<Rightarrow> t\<lparr>mbox_has_lookahead := False\<rparr>
      | Some h \<Rightarrow> t\<lparr>mbox_has_lookahead := True, mbox_lookahead := h\<rparr>)"

definition mbox_dispatch :: "(arm7 \<Rightarrow> (u16 \<times> arm7) option) \<Rightarrow> u8 \<Rightarrow> u16 \<Rightarrow> arm7 \<Rightarrow> arm7 option" where
  "mbox_dispatch readpkt pkt_type len_pkt s =
     (let buf = mbox_buffer (twl s);
          pkt_cmd = getle16 buf 6
      in if pkt_type = MBOXPKT_HTC then htc_handle_pkt readpkt pkt_cmd s
         else if pkt_type = MBOXPKT_WMI then Some (wmi_handle_pkt pkt_cmd (\<lambda>i. buf (8 + i)) (ucast len_pkt - 2) s)
         else if pkt_type \<in> {2, 3, 4, 5} then data_handle_pkt (\<lambda>i. buf (6 + i)) (unat len_pkt) s
         else Some s)"

text \<open>One packet. The transfer is longer than the buffer when the length field is above 1530, but only lengths
  above \<open>0x2000\<close> are rejected: \<open>None\<close> stands for the memory behind the buffer being overwritten.\<close>

definition readpkt_body :: "(arm7 \<Rightarrow> (u16 \<times> arm7) option) \<Rightarrow> arm7 \<Rightarrow> (u16 \<times> arm7) option" where
  "readpkt_body readpkt s =
     (let (header, t) = mbox_header (twl s);
          pkt_type = ucast header :: u8;
          ack_present = ucast (drop_bit 8 header) :: u8;
          len = ucast (drop_bit 16 header) :: u16;
          full_len = round_up_80 (unat len + 6)
      in if len > 0x2000 then Some (0, s\<lparr>twl := mbox_discard 4 t\<rparr>)
         else if full_len > MBOX_TMPBUF_SIZE then None
         else let (bs, t) = wifi_card_read_func1_block (of_nat (0x4000 - full_len)) full_len t;
                  t = t\<lparr>mbox_buffer := write_bytes (mbox_buffer t) 0 bs\<rparr>;
                  ack_len = (if ack_present = 0 then 0 else mbox_buffer t 4);
                  len_pkt = len - ucast ack_len
              in do { s \<leftarrow> mbox_dispatch readpkt pkt_type len_pkt (s\<lparr>twl := t\<rparr>);
                      Some (len, twl_upd (parse_acks (6 + unat len_pkt) (unat ack_len)) s) })"

definition readpkt_step :: "(arm7 \<Rightarrow> (u16 \<times> arm7) option) \<Rightarrow> arm7 \<Rightarrow> (u16 \<times> arm7) option" where
  "readpkt_step readpkt s =
     (let (timeout, t) = mbox_wait 100 (twl s)
      in if timeout = 0 then Some (0, s\<lparr>twl := t\<rparr>) else readpkt_body readpkt (s\<lparr>twl := t\<rparr>))"

primrec wifi_card_mbox0_readpkt :: "nat \<Rightarrow> arm7 \<Rightarrow> (u16 \<times> arm7) option" where
  "wifi_card_mbox0_readpkt 0 s = None"
| "wifi_card_mbox0_readpkt (Suc depth) s = readpkt_step (wifi_card_mbox0_readpkt depth) s"

definition wifi_card_process_pkts :: "nat \<Rightarrow> arm7 \<Rightarrow> arm7 option" where
  "wifi_card_process_pkts depth s =
     (let (int_sts, t) = wifi_card_read_func1_u32 F1_HOST_INT_STATUS (twl s)
      in map_option snd (wifi_card_mbox0_readpkt depth (s\<lparr>twl := wifi_card_write_func1_u32 F1_HOST_INT_STATUS int_sts t\<rparr>)))"

definition wifi_card_irq :: "nat \<Rightarrow> u32 \<Rightarrow> arm7 \<Rightarrow> arm7 option" where
  "wifi_card_irq depth vcount s = wifi_card_process_pkts depth (wd7_upd (Wifi_RandomAddEntropy vcount) s)"

end
