(* ===== verification/Twl_Link.thy ===== *)
theory Twl_Link
  imports Twl_Wmi
begin

text \<open>
  Properties of the link to the DSi card: the answer to the first message of the WPA2 handshake is one
  that an access point written after the standards accepts, a data packet in the mailbox reaches the ARM9, the two checks of the
  reception that do not do what they are meant to, and the parameters of the command to connect.
\<close>

section \<open>The answer to the first message of the handshake\<close>

lemma length_random_bytes: "length (fst (random_bytes n w)) = n"
  by (induction n arbitrary: w) (auto simp: case_prod_beta Let_def)

lemma random_bytes_security: "curApSecurity (snd (random_bytes n w)) = curApSecurity w"
  by (induction n arbitrary: w) (auto simp: case_prod_beta Let_def Wifi_Random7_def)

lemma bit_byte_lane:
  assumes "j < 8" "k < 8" "n < 8"
  shows "bit (push_bit (8 * j) (ucast (x :: u8)) :: u64) (8 * k + n) \<longleftrightarrow> j = k \<and> bit x n"
proof -
  have "bit (push_bit (8 * j) (ucast x) :: u64) (8 * k + n) \<longleftrightarrow> 8 * j \<le> 8 * k + n \<and> 8 * k + n - 8 * j < 8 \<and> bit x (8 * k + n - 8 * j)"
    using assms by (auto simp: bit_push_bit_iff bit_unsigned_iff dest: bit_imp_le_length)
  also have "\<dots> \<longleftrightarrow> j = k \<and> bit x n" using assms(3) by (cases "j = k") auto
  finally show ?thesis .
qed

lemma byte_of_getbe64: "putbe64 (getbe64 p i) = read_bytes p i 8"
proof -
  have b: "ucast (drop_bit (8 * k) (getbe64 p i)) = p (i + 7 - k)" if "k < 8" for k
  proof (rule bit_word_eqI)
    fix n assume "n < LENGTH(8)"
    then have n: "n < 8" by simp
    note lane = bit_byte_lane [OF _ that n]
    have lanes: "bit (getbe64 p i) (8 * k + n) \<longleftrightarrow>
        7 = k \<and> bit (p i) n \<or> 6 = k \<and> bit (p (i + 1)) n \<or> 5 = k \<and> bit (p (i + 2)) n \<or> 4 = k \<and> bit (p (i + 3)) n \<or>
        3 = k \<and> bit (p (i + 4)) n \<or> 2 = k \<and> bit (p (i + 5)) n \<or> 1 = k \<and> bit (p (i + 6)) n \<or> 0 = k \<and> bit (p (i + 7)) n"
      using lane [of 7 "p i"] lane [of 6 "p (i + 1)"] lane [of 5 "p (i + 2)"] lane [of 4 "p (i + 3)"]
        lane [of 3 "p (i + 4)"] lane [of 2 "p (i + 5)"] lane [of 1 "p (i + 6)"] lane [of 0 "p (i + 7)"]
      by (simp add: getbe64_def bit_or_iff)
    have "k = 0 \<or> k = 1 \<or> k = 2 \<or> k = 3 \<or> k = 4 \<or> k = 5 \<or> k = 6 \<or> k = 7" using that by linarith
    then have l: "bit (getbe64 p i) (8 * k + n) \<longleftrightarrow> bit (p (i + 7 - k)) n"
      unfolding lanes by (elim disjE) (simp_all add: add.commute)
    have "bit (ucast (drop_bit (8 * k) (getbe64 p i)) :: u8) n = bit (getbe64 p i) (8 * k + n)"
      using n by (simp add: bit_unsigned_iff bit_drop_bit_eq)
    then show "bit (ucast (drop_bit (8 * k) (getbe64 p i)) :: u8) n = bit (p (i + 7 - k)) n" by (simp only: l)
  qed
  have "[i..<i + 8] = [i, i + 1, i + 2, i + 3, i + 4, i + 5, i + 6, i + 7]"
    by (simp add: upt_rec numeral_eq_Suc)
  then show ?thesis
    using b [of 0] b [of 1] b [of 2] b [of 3] b [of 4] b [of 5] b [of 6] b [of 7]
    by (simp add: putbe64_def read_bytes_def add.commute)
qed

text \<open>
  What an access point does with the answer, in the terms of IEEE 802.11i alone: it derives 64 bytes of keys from
  the master key with HMAC-SHA-1 (RFC 2104), over a label, the smaller and the larger of the two addresses and of
  the two nonces and a counter; it checks the head of the message, takes the integrity code of the
  message with that field zeroed under the first 16 bytes, and compares the element with the chosen ciphers.
\<close>

definition eapol_of :: "u8 list \<Rightarrow> u8 list" where
  "eapol_of frame = drop 24 frame"

definition message_nonce :: "u8 list \<Rightarrow> u8 list" where
  "message_nonce msg = take 32 (drop 17 msg)"

definition message_mic :: "u8 list \<Rightarrow> u8 list" where
  "message_mic msg = take 16 (drop 81 msg)"

definition message_replay :: "u8 list \<Rightarrow> u8 list" where
  "message_replay msg = take 8 (drop 9 msg)"

definition ieee_ptk :: "u8 list \<Rightarrow> mac \<Rightarrow> mac \<Rightarrow> u8 list \<Rightarrow> u8 list \<Rightarrow> u8 list" where
  "ieee_ptk k a b n m = concat (map (\<lambda>i. rfc2104_hmac k
     (map of_char ''Pairwise key expansion'' @ [0] @ min a b @ max a b @ min n m @ max n m @ [i])) [0, 1, 2, 3])"

definition ieee_rsn :: "u8 \<Rightarrow> u8 list" where
  "ieee_rsn group_suite = [0x30, 20, 1, 0] @ [0x00, 0x0F, 0xAC, group_suite] @ [1, 0] @ [0x00, 0x0F, 0xAC, 4] @
     [1, 0] @ [0x00, 0x0F, 0xAC, 2] @ [0, 0]"

definition ap_accepts :: "u8 list \<Rightarrow> mac \<Rightarrow> mac \<Rightarrow> u8 list \<Rightarrow> u8 list \<Rightarrow> bool" where
  "ap_accepts k ap_mac dev_mac ap_nonce msg \<longleftrightarrow>
     take 9 msg = [1, 3, 0, 117, 2, 0x01, 0x0A, 0, 0] \<and>
     message_mic msg = take 16 (rfc2104_hmac (take 16 (ieee_ptk k ap_mac dev_mac ap_nonce (message_nonce msg)))
       (take 81 msg @ replicate 16 0 @ drop 97 msg)) \<and>
     take 2 (drop 97 msg) = [0, 22] \<and> drop 99 msg \<in> ieee_rsn ` {2, 4}"

text \<open>The packet around it: the header of the card, both addresses, the length and the LLC/SNAP header of EAPOL.\<close>

definition eapol_packet :: "mac \<Rightarrow> mac \<Rightarrow> u8 list \<Rightarrow> bool" where
  "eapol_packet dst src frame \<longleftrightarrow>
     take 24 frame = [0x00, 0x1C] @ dst @ src @ [0, 129] @ [0xAA, 0xAA, 0x03, 0, 0, 0, 0x88, 0x8E] \<and> length frame = 145"

lemma length_ieee_ptk [simp]: "length (ieee_ptk k a b n m) = 80"
  by (simp add: ieee_ptk_def)

lemma calc_mic_rfc: "length d < 2 ^ 32 \<Longrightarrow> wpa_calc_mic k d = take 16 (rfc2104_hmac (take 16 k) d)"
  by (simp add: wpa_calc_mic_def sha1_hmac_def mbedtls_md_hmac_rfc)

lemma calc_ptk_ieee:
  assumes "length dev = 6" "length ap = 6" "length dev_nonce = 32" "length ap_nonce = 32"
  shows "wpa_calc_ptk dev ap dev_nonce ap_nonce k = ptk_of_bytes (ieee_ptk (take 32 k) ap dev ap_nonce dev_nonce)"
proof -
  have d: "ptk_data dev ap dev_nonce ap_nonce i =
      map of_char ''Pairwise key expansion'' @ [0] @ min ap dev @ max ap dev @ min ap_nonce dev_nonce @ max ap_nonce dev_nonce @ [i]" for i
    using assms by (simp only: ptk_data_def ptk_label_def arr_min_max) (simp add: min.commute [of dev] max.commute [of dev])
  have "length (ptk_data dev ap dev_nonce ap_nonce i) < 2 ^ 32" for i
    using assms by (simp add: d min_def max_def)
  then show ?thesis by (simp add: wpa_calc_ptk_def ieee_ptk_def sha1_hmac_def mbedtls_md_hmac_rfc d)
qed

lemma key_message_fields:
  assumes "length nonce = 32" "length mic = 16"
  shows "message_nonce (key_message ki rc nonce mic kd) = nonce" "message_mic (key_message ki rc nonce mic kd) = mic"
    "message_replay (key_message ki rc nonce mic kd) = putbe64 rc"
    "splice 81 (replicate 16 0) (key_message ki rc nonce mic kd) = key_message ki rc nonce (replicate 16 0) kd"
    "length (key_message ki rc nonce mic kd) = 99 + length kd"
  using assms
  by (simp_all add: key_message_def message_nonce_def message_mic_def message_replay_def splice_def putbe16_def putbe64_def Let_def)

lemma eapol_of_key_frame:
  assumes "length dst = 6" "length src = 6"
  shows "eapol_of (key_frame k dst src ki rc nonce kd) =
    key_message ki rc nonce (wpa_calc_mic k (key_message ki rc nonce (replicate 16 0) kd)) kd"
  using assms by (simp add: eapol_of_def key_frame_def snap_eapol_def putbe16_def Let_def)

lemma length_calc_mic: "length (wpa_calc_mic k d) = 16"
  by (simp add: wpa_calc_mic_def sha1_hmac_def)

lemma length_key_frame:
  assumes "length dst = 6" "length src = 6" "length nonce = 32"
  shows "length (key_frame k dst src ki rc nonce kd) = 123 + length kd"
  using assms length_calc_mic
  by (simp add: key_frame_def snap_eapol_def putbe16_def key_message_fields(5) Let_def)

lemma data_send_pkt_sent:
  assumes "length data \<le> 1530"
  shows "\<exists>b. sent_blocks (ops (data_send_pkt data t)) = sent_blocks (ops t) @ [b] \<and> sent_as MBOXPKT_DATA 0 0 data b"
  using send_packet_sent [of data 2 0 0 t] assms by (simp add: data_send_pkt_def)


lemma key_frame_packet:
  assumes "length dst = 6" "length src = 6" "length nonce = 32" "length kd = 22"
  shows "eapol_packet dst src (key_frame k dst src ki rc nonce kd)"
  using assms length_key_frame [OF assms(1-3), of k ki rc kd]
  by (simp add: eapol_packet_def key_frame_def snap_eapol_def putbe16_def Let_def)

lemma answer_accepted:
  fixes g :: Wifi_ApCryptType and k :: "u8 list" and rc :: u64
  assumes "length ap = 6" "length dev = 6" "length nonce = 32" "length ap_nonce = 32"
  defines "kd \<equiv> wpa_rsn_element g" and "mic_key \<equiv> kck (wpa_calc_ptk dev ap nonce ap_nonce k)"
  shows "ap_accepts (take 32 k) ap dev ap_nonce
    (key_message 0x010A rc nonce (wpa_calc_mic mic_key (key_message 0x010A rc nonce (replicate 16 0) kd)) kd)"
proof -
  define blank where "blank = key_message 0x010A rc nonce (replicate 16 0) kd"
  define mic where "mic = wpa_calc_mic mic_key blank"
  define msg where "msg = key_message 0x010A rc nonce mic kd"
  have l: "length kd = 22" "length mic = 16" by (simp_all add: kd_def wpa_rsn_element_def mic_def length_calc_mic)
  note f = key_message_fields [OF assms(3) l(2), of "0x010A" rc kd, folded msg_def]
  have "take 81 msg @ replicate 16 0 @ drop 97 msg = blank" using f(4) by (simp add: splice_def blank_def)
  moreover have "length blank < 2 ^ 32" using key_message_fields(5) [OF assms(3), of "replicate 16 0"] l(1) by (simp add: blank_def)
  then have "mic = take 16 (rfc2104_hmac (take 16 mic_key) blank)" by (simp add: mic_def calc_mic_rfc)
  moreover have "mic_key = take 16 (ieee_ptk (take 32 k) ap dev ap_nonce nonce)"
    using assms(1-4) by (simp add: mic_key_def calc_ptk_ieee ptk_of_bytes_def)
  moreover have "take 9 msg = [1, 3, 0, 117, 2, 0x01, 0x0A, 0, 0]" "take 2 (drop 97 msg) = [0, 22]" "drop 99 msg = kd"
    using l assms(3) by (simp_all add: msg_def key_message_def putbe16_def putbe64_def Let_def)
  moreover have "kd \<in> ieee_rsn ` {2, 4}" by (simp add: kd_def wpa_rsn_element_def ieee_rsn_def)
  ultimately have "ap_accepts (take 32 k) ap dev ap_nonce msg" using f by (simp add: ap_accepts_def)
  then show ?thesis by (simp only: msg_def mic_def blank_def)
qed

text \<open>C12: The answer to the first message of a WPA2 handshake is one data packet that carries a key message to the
  access point, and an access point that holds the same master key accepts it: it derives the pairwise key
  of the standard from its own nonce and the nonce in the answer and finds, in a well-formed message, the
  integrity code that the standard defines and an element that chooses CCMP with a pre-shared key. The
  answer repeats the replay counter of the message, and the keys that the driver keeps are those of the
  access point.\<close>

theorem handshake_answer_accepted:
  fixes s :: arm7
  assumes "getbe16 p 5 = 0x008A" "length dev = 6" "length ap = 6"
  defines "k \<equiv> take 32 (pmk (curApSecurity (wd7 s)))" and "ap_nonce \<equiv> read_bytes p 17 32" and "t \<equiv> twl (data_handle_auth p dev ap s)"
  shows "\<exists>frame b. sent_blocks (ops t) = sent_blocks (ops (twl s)) @ [b] \<and> sent_as MBOXPKT_DATA 0 0 frame b \<and>
    eapol_packet ap dev frame \<and> ap_accepts k ap dev ap_nonce (eapol_of frame) \<and>
    message_replay (eapol_of frame) = read_bytes p 9 8 \<and>
    device_nonce t = message_nonce (eapol_of frame) \<and>
    kck (device_ptk t) @ kek (device_ptk t) @ tk (device_ptk t) =
      take 48 (ieee_ptk k ap dev ap_nonce (message_nonce (eapol_of frame))) \<and> has_sent_hs2 t"
proof -
  define w where "w = snd (random_bytes 32 (wd7 s))"
  define nonce where "nonce = fst (random_bytes 32 (wd7 s))"
  define master where "master = pmk (curApSecurity (wd7 s))"
  define ptk where "ptk = wpa_calc_ptk dev ap nonce ap_nonce master"
  define kd where "kd = wpa_rsn_element (group_crypt_type (curAp w))"
  define frame where "frame = key_frame (kck ptk) ap dev 0x010A (getbe64 p 9) nonce kd"
  define t0 where "t0 = (twl s)\<lparr>device_ap_nonce := ap_nonce, device_nonce := nonce, device_ptk := ptk\<rparr>"
  have n: "length nonce = 32" "length ap_nonce = 32" "length kd = 22"
    by (simp_all add: nonce_def ap_nonce_def length_random_bytes kd_def wpa_rsn_element_def)
  have k: "pmk (curApSecurity w) = master" "k = take 32 master" by (simp_all add: w_def master_def k_def random_bytes_security)
  have t: "t = (data_send_pkt frame t0)\<lparr>has_sent_hs2 := True\<rparr>"
    using assms(1) k(1) by (simp add: t_def data_handle_auth_def data_send_wpa_handshake2_def twl_upd_def case_prod_beta
        Let_def frame_def t0_def ptk_def nonce_def w_def ap_nonce_def kd_def)
  have c0: "core (data_send_pkt frame t0) = core t0" by (rule core_send)
  have kept: "device_nonce t = nonce" "device_ptk t = ptk"
    using arg_cong [OF c0, of device_nonce] arg_cong [OF c0, of device_ptk] by (simp_all add: t t0_def core_def)
  have e: "eapol_of frame = key_message 0x010A (getbe64 p 9) nonce
      (wpa_calc_mic (kck ptk) (key_message 0x010A (getbe64 p 9) nonce (replicate 16 0) kd)) kd"
    unfolding frame_def using assms(3,2) by (rule eapol_of_key_frame)
  have m: "length (wpa_calc_mic (kck ptk) d) = 16" for d by (rule length_calc_mic)
  have "ap_accepts k ap dev ap_nonce (eapol_of frame)"
    unfolding e k(2) ptk_def kd_def using assms(3,2) n(1,2) by (rule answer_accepted)
  moreover have "message_replay (eapol_of frame) = read_bytes p 9 8" and f: "message_nonce (eapol_of frame) = nonce"
    by (simp_all only: e key_message_fields [OF n(1) m] byte_of_getbe64)
  moreover have "kck ptk @ kek ptk @ tk ptk = take 48 (ieee_ptk k ap dev ap_nonce nonce)"
    using take_add [of 16 32 "ieee_ptk k ap dev ap_nonce nonce"] take_add [of 16 16 "drop 16 (ieee_ptk k ap dev ap_nonce nonce)"]
    by (simp add: ptk_def k(2) calc_ptk_ieee [OF assms(2,3) n(1,2)] ptk_of_bytes_def)
  moreover have p: "eapol_packet ap dev frame" unfolding frame_def using assms(3,2) n(1,3) by (rule key_frame_packet)
  then have "length frame \<le> 1530" by (simp add: eapol_packet_def)
  then obtain b where "sent_blocks (ops (data_send_pkt frame t0)) = sent_blocks (ops t0) @ [b]" "sent_as MBOXPKT_DATA 0 0 frame b"
    using data_send_pkt_sent by blast
  ultimately show ?thesis using kept p by (intro exI [of _ frame] exI [of _ b]) (simp add: t t0_def)
qed

definition eapol_ex :: mem8 where
  "eapol_ex i = (if i = 6 then 0x8A else of_nat i)"

theorem handshake_answer_accepted_witness:
  "\<exists>frame. ap_accepts (replicate 32 0) [1, 2, 3, 4, 5, 6] [6, 5, 4, 3, 2, 1] (read_bytes (eapol_ex(5 := 0)) 17 32) (eapol_of frame) \<and>
    eapol_packet [1, 2, 3, 4, 5, 6] [6, 5, 4, 3, 2, 1] frame"
proof -
  have "getbe16 (eapol_ex(5 := 0)) 5 = 0x008A" by (simp add: getbe16_def eapol_ex_def hword_def)
  from handshake_answer_accepted [OF this, of "[6, 5, 4, 3, 2, 1]" "[1, 2, 3, 4, 5, 6]" arm7_zero]
  show ?thesis by (auto simp: arm7_zero_def zero_main_def zero_security_def)
qed

section \<open>Data packets reach the ARM9\<close>

lemma read_u32_parts:
  "ucast (read_u32 m i) = m i" "ucast (drop_bit 8 (read_u32 m i)) = m (i + 1)"
  "ucast (drop_bit 16 (read_u32 m i)) = hword (m (i + 2)) (m (i + 3))"
  by (rule bit_word_eqI; auto simp: read_u32_def hword_def bit_simps dest: bit_imp_le_length)+

lemma rx_put_spec:
  assumes inv: "rx_inv b ps" and len: "0 < length f" "length f < 0x10000"
    and fill: "fits_between fill (align4 (length f))" and bytes: "\<And>a m. read_bytes (fill a m) a (length f) = f"
  shows "\<exists>b'. BufferPut WIFI_RXBUFFER_SIZE (of_nat (length f)) fill (of_nat (length f)) b = Some (has_room 12288 b (length f), b') \<and>
    (if has_room 12288 b (length f) then rx_inv b' (ps @ [(of_nat (length f), f)]) else b' = b)"
proof -
  let ?n = "of_nat (length f) :: u32"
  have n: "unat ?n = length f" using len by (simp add: unat_of_nat take_bit_nat_eq_self)
  have ok: "size_ok ?n" "?n \<noteq> 0" "?n \<noteq> WIFI_SIZE_WRAP" using n len by (auto simp: size_ok_def)
  have "(\<exists>b'. BufferPut WIFI_RXBUFFER_SIZE ?n fill ?n b = Some (True, b')) \<longleftrightarrow> has_room 12288 b (length f)"
    using put_accepts_iff [of WIFI_RXBUFFER_SIZE unat b ps ?n fill ?n] inv ok fill n by (simp add: rx_inv_def)
  moreover have "BufferPut WIFI_RXBUFFER_SIZE ?n fill ?n b = Some (False, b) \<or>
      (\<exists>b'. BufferPut WIFI_RXBUFFER_SIZE ?n fill ?n b = Some (True, b') \<and> rx_inv b' (ps @ [(?n, f)]))"
    using put_refines_append [of WIFI_RXBUFFER_SIZE unat b ps ?n fill ?n] inv ok fill
    unfolding n bytes by (auto simp: rx_inv_def)
  ultimately show ?thesis by (cases "has_room 12288 b (length f)") auto
qed

lemma TWL_RxAddPacketToQueue_spec:
  assumes inv: "rx_inv (rxbuf (wd7 s)) ps" and len: "0 < length f" "length f < 0x10000"
  shows "\<exists>s'. Wifi_TWL_RxAddPacketToQueue f s = Some (has_room 12288 (rxbuf (wd7 s)) (length f), s') \<and>
    (if has_room 12288 (rxbuf (wd7 s)) (length f)
     then rx_inv (rxbuf (wd7 s')) (ps @ [(of_nat (length f), f)]) \<and> sync_sent7 s' = sync_sent7 s + 1
     else rx_inv (rxbuf (wd7 s')) ps \<and> stats (wd7 s') WSTAT_RXQUEUEDLOST = stats (wd7 s) WSTAT_RXQUEUEDLOST + 1) \<and>
    apart_from_rx (wd7 s') = apart_from_rx (wd7 s)"
proof -
  let ?fill = "\<lambda>a m. write_bytes m a f"
  have "fits_between ?fill (align4 (length f))"
    using align4_bounds(1) [of "length f"] by (auto simp: fits_between_def intro!: agree_outside_write_bytes)
  then obtain b' where b': "BufferPut WIFI_RXBUFFER_SIZE (of_nat (length f)) ?fill (of_nat (length f)) (rxbuf (wd7 s)) =
        Some (has_room 12288 (rxbuf (wd7 s)) (length f), b')"
      "if has_room 12288 (rxbuf (wd7 s)) (length f) then rx_inv b' (ps @ [(of_nat (length f), f)]) else b' = rxbuf (wd7 s)"
    using rx_put_spec [OF inv len, of ?fill] by auto
  show ?thesis
  proof (cases "has_room 12288 (rxbuf (wd7 s)) (length f)")
    case True
    then show ?thesis using b' by (simp add: Wifi_TWL_RxAddPacketToQueue_def Wifi_CallSyncHandler7_def stat_add_def wd7_upd_def apart_from_rx_def)
  next
    case False
    then show ?thesis using b' inv by (simp add: Wifi_TWL_RxAddPacketToQueue_def stat_add_def wd7_upd_def apart_from_rx_def)
  qed
qed

lemma lookahead_update_wd7: "wd7 (twl_upd f s) = wd7 s" "sync_sent7 (twl_upd f s) = sync_sent7 s"
  by (simp_all add: twl_upd_def)

lemma twl_upd_id: "twl (s\<lparr>twl := t\<rparr>) = t"
  by simp

text \<open>C26: A data packet of at most 1530 bytes in the mailbox of the DSi card that is not a key message is
  appended, complete, to the packets that wait for the ARM9, and the ARM9 is notified; when the buffer
  has no room for it, the packet is dropped and counted as lost.\<close>

theorem twl_data_packet_received:
  assumes wait: "mbox_wait 100 (twl s) = (n, t1)" "n \<noteq> 0"
    and header: "mbox_header t1 = (read_u32 ((!) blk) 0, t2)"
    and block: "wifi_card_read_func1_block (of_nat (0x4000 - length blk)) (length blk) t2 = (blk, t3)"
      "sent_as ty 0 idk pkt blk" "ty \<in> {2, 3, 4, 5}"
      "unat (hword (blk ! 2) (blk ! 3)) = length pkt" "length blk = round_up_80 (length pkt + 6)"
    and pkt: "24 \<le> length pkt" "hword (pkt ! 23) (pkt ! 22) \<noteq> 0x888E"
    and inv: "rx_inv (rxbuf (wd7 s)) ps"
  shows "\<exists>s'. wifi_card_mbox0_readpkt (Suc depth) s = Some (of_nat (length pkt), s') \<and>
    (if has_room 12288 (rxbuf (wd7 s)) (length pkt)
     then rx_inv (rxbuf (wd7 s')) (ps @ [(of_nat (length pkt), pkt)]) \<and> sync_sent7 s' = sync_sent7 s + 1
     else rx_inv (rxbuf (wd7 s')) ps \<and> stats (wd7 s') WSTAT_RXQUEUEDLOST = stats (wd7 s) WSTAT_RXQUEUEDLOST + 1)"
proof -
  let ?buf = "write_bytes (mbox_buffer t3) 0 blk" and ?len = "hword (blk ! 2) (blk ! 3)"
  define s1 where "s1 = s\<lparr>twl := t3\<lparr>mbox_buffer := ?buf\<rparr>\<rparr>"
  have p: "blk ! 0 = ty" "blk ! 1 = 0" "pkt = take (length pkt) (drop 6 blk)" and l600: "length blk \<le> 0x600"
    using block(2,4) by (auto simp: sent_as_def mbox_packet_def)
  have lp: "length pkt + 6 \<le> length blk" using round_up_80_bounds(1) [of "length pkt + 6"] block(5) by simp
  then have small: "length pkt < 0x10000" "length pkt \<le> 0x2000" using l600 by auto
  have h: "ucast (read_u32 ((!) blk) 0) = ty" "ucast (drop_bit 8 (read_u32 ((!) blk) 0)) = (0 :: u8)"
    "ucast (drop_bit 16 (read_u32 ((!) blk) 0)) = ?len"
    using p(1,2) by (simp_all add: read_u32_parts numeral_2_eq_2)
  have nl: "\<not> ?len > 0x2000" using small(2) by (simp add: word_less_nat_alt block(4))
  have bufb: "read_bytes ?buf 6 (length pkt) = pkt"
  proof (rule nth_equalityI)
    fix k assume "k < length (read_bytes ?buf 6 (length pkt))"
    then have k: "k < length pkt" by simp
    have "pkt ! k = blk ! (6 + k)" using k lp by (subst p(3)) simp
    then show "read_bytes ?buf 6 (length pkt) ! k = pkt ! k" using k lp by (simp add: write_bytes_def)
  qed simp
  have at: "?buf (6 + k) = pkt ! k" if "k < length pkt" for k
    using arg_cong [OF bufb, of "\<lambda>xs. xs ! k"] that by simp
  have shifted: "read_bytes (\<lambda>i. ?buf (6 + i)) 0 (length pkt) = pkt"
    by (rule nth_equalityI) (simp_all add: at)
  have ne: "getbe16 (\<lambda>i. ?buf (6 + i)) 22 \<noteq> 0x888E"
    using pkt at [of 22] at [of 23] by (simp add: getbe16_def)
  have same: "wd7 s1 = wd7 s" "sync_sent7 s1 = sync_sent7 s" by (simp_all add: s1_def)
  have pos: "0 < length pkt" using pkt(1) by linarith
  obtain s2 where s2: "Wifi_TWL_RxAddPacketToQueue pkt s1 = Some (has_room 12288 (rxbuf (wd7 s)) (length pkt), s2)"
      "if has_room 12288 (rxbuf (wd7 s)) (length pkt)
       then rx_inv (rxbuf (wd7 s2)) (ps @ [(of_nat (length pkt), pkt)]) \<and> sync_sent7 s2 = sync_sent7 s + 1
       else rx_inv (rxbuf (wd7 s2)) ps \<and> stats (wd7 s2) WSTAT_RXQUEUEDLOST = stats (wd7 s) WSTAT_RXQUEUEDLOST + 1"
    using TWL_RxAddPacketToQueue_spec [of s1 ps pkt] inv small(1) pos unfolding same by blast
  have d: "mbox_dispatch rp ty ?len s1 = Some s2" for rp
    using block(3) s2(1) ne by (auto simp: mbox_dispatch_def data_handle_pkt_def s1_def block(4) shifted Let_def)
  have lenw: "?len = of_nat (length pkt)" by (simp only: block(4) [symmetric] of_nat_unat ucast_id)
  have full: "\<not> MBOX_TMPBUF_SIZE < round_up_80 (unat ?len + 6)" using l600 block(5) by (simp add: block(4))
  have "readpkt_step rp s = Some (?len, twl_upd (parse_acks (6 + length pkt) 0) s2)" for rp
    unfolding readpkt_step_def readpkt_body_def Let_def wait(1) split_conv if_not_P [OF wait(2)] twl_upd_id header split_conv h
      if_not_P [OF nl] if_not_P [OF full]
    using d [of rp] block(1,5) by (simp add: s1_def block(4))
  then show ?thesis using s2(2) by (cases "has_room 12288 (rxbuf (wd7 s)) (length pkt)") (auto simp: lookahead_update_wd7 lenw)
qed


text \<open>What is not touched when talking to the card.\<close>

lemma core_same:
  assumes "core t = core u"
  shows "sdio_card t = sdio_card u"
    "mbox_has_lookahead t = mbox_has_lookahead u"
    "mbox_lookahead t = mbox_lookahead u"
    "mbox_buffer t = mbox_buffer u"
    "wifi_card_bInitted t = wifi_card_bInitted u"
    "wmi_bIsReady t = wmi_bIsReady u"
    "wmi_is_scanning t = wmi_is_scanning u"
    "ap_connected t = ap_connected u"
    "ap_connecting t = ap_connecting u"
    "has_sent_hs2 t = has_sent_hs2 u"
    "has_sent_hs4 t = has_sent_hs4 u"
    "device_nonce t = device_nonce u"
    "device_ptk t = device_ptk u"
    "device_num_channels t = device_num_channels u"
    "device_cur_channel_idx t = device_cur_channel_idx u"
    "channel_freqs t = channel_freqs u"
    "num_rounds_scanned t = num_rounds_scanned u"
    "wmi_idk t = wmi_idk u"
    "twl_timer_on t = twl_timer_on u"
    "card_irq_on t = card_irq_on u"
    "device_ap_nonce t = device_ap_nonce u"
    "device_host_interest_addr t = device_host_interest_addr u"
  using arg_cong [OF assms, of sdio_card]
    arg_cong [OF assms, of mbox_has_lookahead]
    arg_cong [OF assms, of mbox_lookahead]
    arg_cong [OF assms, of mbox_buffer]
    arg_cong [OF assms, of wifi_card_bInitted]
    arg_cong [OF assms, of wmi_bIsReady]
    arg_cong [OF assms, of wmi_is_scanning]
    arg_cong [OF assms, of ap_connected]
    arg_cong [OF assms, of ap_connecting]
    arg_cong [OF assms, of has_sent_hs2]
    arg_cong [OF assms, of has_sent_hs4]
    arg_cong [OF assms, of device_nonce]
    arg_cong [OF assms, of device_ptk]
    arg_cong [OF assms, of device_num_channels]
    arg_cong [OF assms, of device_cur_channel_idx]
    arg_cong [OF assms, of channel_freqs]
    arg_cong [OF assms, of num_rounds_scanned]
    arg_cong [OF assms, of wmi_idk]
    arg_cong [OF assms, of twl_timer_on]
    arg_cong [OF assms, of card_irq_on]
    arg_cong [OF assms, of device_ap_nonce]
    arg_cong [OF assms, of device_host_interest_addr]
  by (simp_all add: core_def)

text \<open>A card whose mailbox holds one block: the status, the header of the block, and the block.\<close>

definition card_reg_ex :: "u8 list \<Rightarrow> u32 \<Rightarrow> u8" where
  "card_reg_ex blk args =
     (if args = 0x10080000 then 1 else if args = 0x10081000 then blk ! 0 else if args = 0x10081200 then blk ! 1
      else if args = 0x10081400 then blk ! 2 else if args = 0x10081600 then blk ! 3 else 0)"

definition card_with :: "u8 list \<Rightarrow> card_op list \<Rightarrow> card_answer" where
  "card_with blk h =
     \<lparr>ans_status = 1, ans_resp = (case last h of SdioCommand cmd args \<Rightarrow> ucast (card_reg_ex blk args) | _ \<Rightarrow> 0), ans_data = blk\<rparr>"

lemma card_with_read:
  assumes "sdio_card t = card_with blk"
  shows "fst (wifi_card_read_func1_u8 a t) = card_reg_ex blk (push_bit 28 1 OR push_bit 9 (a AND 0x1FFFF))"
    "sdio_card (snd (wifi_card_read_func1_u8 a t)) = card_with blk"
  using assms
  by (simp_all add: wifi_card_read_func1_u8_def wifi_card_read_func_byte_def wifi_card_send_command_def card_reply_def
      issue_def failed_def card_with_def Let_def ucast_ucast_b)

lemma card_with_header:
  assumes "sdio_card t = card_with blk" "\<not> mbox_has_lookahead t"
  shows "\<exists>n t1 t2 t3. mbox_wait 100 t = (n, t1) \<and> n \<noteq> 0 \<and> mbox_header t1 = (read_u32 ((!) blk) 0, t2) \<and>
    wifi_card_read_func1_block (of_nat (0x4000 - length blk)) (length blk) t2 = (blk, t3)"
proof -
  let ?r = wifi_card_read_func1_u8
  define t1 where "t1 = snd (?r 0x400 t)"
  have s1: "sdio_card t1 = card_with blk" by (simp only: t1_def card_with_read(2) [OF assms(1)])
  have "mbox_wait (Suc 99) t = (99, t1)"
    using card_with_read(1) [OF assms(1), of "0x400"] by (simp only: mbox_wait.simps) (simp add: t1_def case_prod_beta card_reg_ex_def)
  moreover have "Suc 99 = 100" by simp
  ultimately have w: "mbox_wait 100 t = (99, t1)" by (simp only:)
  have c: "core t1 = core t" by (simp only: t1_def card_simps)
  then have "\<not> mbox_has_lookahead t1" using assms(2) core_same(2) [OF c] by simp
  then have h: "mbox_header t1 = wifi_card_read_func1_u32 0x408 t1" by (simp add: mbox_header_def)
  define u1 where "u1 = snd (?r 0x408 t1)"
  define u2 where "u2 = snd (?r 0x409 u1)"
  define u3 where "u3 = snd (?r 0x40A u2)"
  have cs: "sdio_card u1 = card_with blk" "sdio_card u2 = card_with blk" "sdio_card u3 = card_with blk"
    by (simp_all only: u1_def u2_def u3_def card_with_read(2) s1)
  have v: "fst (?r 0x408 t1) = blk ! 0" "fst (?r 0x409 u1) = blk ! 1" "fst (?r 0x40A u2) = blk ! 2" "fst (?r 0x40B u3) = blk ! 3"
    by (simp_all add: card_with_read(1) s1 cs card_reg_ex_def)
  define t2 where "t2 = snd (?r 0x40B u3)"
  have r: "wifi_card_read_func1_u32 0x408 t1 = (word32 (hword (blk ! 0) (blk ! 1)) (hword (blk ! 2) (blk ! 3)), t2)"
    using v by (simp add: wifi_card_read_func1_u32_def wifi_card_read_func1_u16_def case_prod_beta Let_def
        u1_def u2_def u3_def t2_def)
  have e: "word32 (hword (blk ! 0) (blk ! 1)) (hword (blk ! 2) (blk ! 3)) = read_u32 ((!) blk) 0"
    by (rule bit_word_eqI) (auto simp: word32_def hword_def read_u32_def bit_simps numeral_2_eq_2 numeral_3_eq_3 dest: bit_imp_le_length)
  have s2: "sdio_card t2 = card_with blk" by (simp only: t2_def card_with_read(2) cs)
  have b: "fst (wifi_card_read_func1_block a (length blk) t2) = blk" for a
    using s2 by (simp add: wifi_card_read_func1_block_def card_reply_def card_with_def Let_def)
  show ?thesis
    by (rule exI [of _ 99], rule exI [of _ t1], rule exI [of _ t2],
        rule exI [of _ "snd (wifi_card_read_func1_block (of_nat (0x4000 - length blk)) (length blk) t2)"])
      (simp only: w h r e b prod_eq_iff fst_conv snd_conv, simp)
qed

definition data_packet_ex :: "u8 list" where
  "data_packet_ex = replicate 40 7"

definition data_block_ex :: "u8 list" where
  "data_block_ex = [2, 0, 40, 0, 0, 0] @ data_packet_ex @ replicate 82 0"

theorem twl_data_packet_received_witness:
  "\<exists>s'. wifi_card_mbox0_readpkt 1 (arm7_zero\<lparr>twl := twl_zero\<lparr>sdio_card := card_with data_block_ex\<rparr>\<rparr>) = Some (40, s') \<and>
    rx_inv (rxbuf (wd7 s')) [(40, data_packet_ex)]"
proof -
  let ?t = "twl_zero\<lparr>sdio_card := card_with data_block_ex\<rparr>" and ?s = "arm7_zero\<lparr>twl := twl_zero\<lparr>sdio_card := card_with data_block_ex\<rparr>\<rparr>"
  have a: "sdio_card ?t = card_with data_block_ex" "\<not> mbox_has_lookahead ?t" by (simp_all add: twl_zero_def)
  obtain n t1 t2 t3 where h: "mbox_wait 100 (twl ?s) = (n, t1)" "n \<noteq> 0" "mbox_header t1 = (read_u32 ((!) data_block_ex) 0, t2)"
      "wifi_card_read_func1_block (of_nat (0x4000 - length data_block_ex)) (length data_block_ex) t2 = (data_block_ex, t3)"
    using card_with_header [OF a] by auto
  have b: "sent_as 2 0 0 data_packet_ex data_block_ex" "unat (hword (data_block_ex ! 2) (data_block_ex ! 3)) = length data_packet_ex"
      "length data_block_ex = round_up_80 (length data_packet_ex + 6)"
    by (simp_all add: sent_as_def mbox_packet_def data_block_ex_def data_packet_ex_def hword_def round_up_80_def)
  have p: "24 \<le> length data_packet_ex" "hword (data_packet_ex ! 23) (data_packet_ex ! 22) \<noteq> 0x888E"
    by (simp_all add: data_packet_ex_def hword_def)
  have i: "rx_inv (rxbuf (wd7 ?s)) []"
    by (simp add: rx_inv_def ring_inv_def arm7_zero_def zero_main_def zero_buf_def read_u32_def)
  have r: "has_room 12288 (rxbuf (wd7 ?s)) (length data_packet_ex)"
    by (simp add: has_room_def arm7_zero_def zero_main_def zero_buf_def data_packet_ex_def align4_def)
  have "\<exists>s'. wifi_card_mbox0_readpkt (Suc 0) ?s = Some (of_nat (length data_packet_ex), s') \<and>
      rx_inv (rxbuf (wd7 s')) [(of_nat (length data_packet_ex), data_packet_ex)]"
    using twl_data_packet_received [OF h(1,2,3,4) b(1) _ b(2,3) p i, of 0] r by auto
  then show ?thesis by (simp add: data_packet_ex_def)
qed

section \<open>Waiting for a packet\<close>

text \<open>Whether the status that is read after \<open>k\<close> readings says that the mailbox holds data.\<close>

definition data_ready :: "nat \<Rightarrow> twl \<Rightarrow> bool" where
  "data_ready k t \<longleftrightarrow>
     fst (wifi_card_read_func1_u8 F1_HOST_INT_STATUS (rereads (wifi_card_read_func1_u8 F1_HOST_INT_STATUS) k t)) AND 1 \<noteq> 0"

lemma data_ready_Suc: "data_ready (Suc k) t = data_ready k (snd (wifi_card_read_func1_u8 F1_HOST_INT_STATUS t))"
  by (simp only: data_ready_def rereads.simps)

lemma mbox_wait_Suc:
  "fst (mbox_wait (Suc n) t) =
     (if data_ready 0 t then int n else fst (mbox_wait n (snd (wifi_card_read_func1_u8 F1_HOST_INT_STATUS t))))"
  by (simp add: data_ready_def case_prod_beta)

lemma mbox_wait_never: "\<forall>k < n. \<not> data_ready k t \<Longrightarrow> fst (mbox_wait n t) = - 1"
proof (induction n arbitrary: t)
  case (Suc n)
  have "\<forall>k < n. \<not> data_ready k (snd (wifi_card_read_func1_u8 F1_HOST_INT_STATUS t))"
    unfolding data_ready_Suc [symmetric] using Suc.prems by simp
  from Suc.IH [OF this] show ?case using Suc.prems by (simp only: mbox_wait_Suc, simp)
qed simp

lemma mbox_wait_last: "\<lbrakk>\<forall>k < n. \<not> data_ready k t; data_ready n t\<rbrakk> \<Longrightarrow> fst (mbox_wait (Suc n) t) = 0"
proof (induction n arbitrary: t)
  case (Suc n)
  have "\<forall>k < n. \<not> data_ready k (snd (wifi_card_read_func1_u8 F1_HOST_INT_STATUS t))"
    "data_ready n (snd (wifi_card_read_func1_u8 F1_HOST_INT_STATUS t))"
    unfolding data_ready_Suc [symmetric] using Suc.prems by simp_all
  from Suc.IH [OF this] show ?case using Suc.prems(1) by (simp only: mbox_wait_Suc [of "Suc n"], simp)
qed (simp add: mbox_wait_Suc del: mbox_wait.simps)

text \<open>C39: The test for a time-out when a packet is awaited is inverted at its limit: when the mailbox has data
  only at the hundredth and last reading, the packet is left unread, and when it has none at all, the
  code goes on as if there were a packet.\<close>

theorem mailbox_timeout_inverted:
  assumes "\<forall>k < 99. \<not> data_ready k (twl s)"
  shows "wifi_card_mbox0_readpkt (Suc depth) s =
    (if data_ready 99 (twl s) then Some (0, s\<lparr>twl := snd (mbox_wait 100 (twl s))\<rparr>)
     else readpkt_body (wifi_card_mbox0_readpkt depth) (s\<lparr>twl := snd (mbox_wait 100 (twl s))\<rparr>))"
proof -
  have "Suc 99 = 100" by simp
  then have "fst (mbox_wait 100 (twl s)) = 0" if "data_ready 99 (twl s)"
    using mbox_wait_last [OF assms that] by (simp only:)
  moreover have "fst (mbox_wait 100 (twl s)) = - 1" if "\<not> data_ready 99 (twl s)"
  proof (rule mbox_wait_never, intro allI impI)
    fix k :: nat assume "k < 100"
    then have "k < 99 \<or> k = 99" by linarith
    then show "\<not> data_ready k (twl s)" using assms that by blast
  qed
  ultimately show ?thesis by (simp add: readpkt_step_def case_prod_beta)
qed

lemma data_ready_zero: "\<not> data_ready k twl_zero"
proof -
  let ?rd = "wifi_card_read_func1_u8 F1_HOST_INT_STATUS"
  have "sdio_card (rereads ?rd k t) = sdio_card t" for t
    by (induction k arbitrary: t) (simp_all add: core_same(1) [OF read_func1_simps(2)])
  then have "sdio_card (rereads ?rd k twl_zero) = sdio_card twl_zero" .
  then show ?thesis
    by (simp add: data_ready_def wifi_card_read_func1_u8_def wifi_card_read_func_byte_def wifi_card_send_command_def
        card_reply_def issue_def failed_def Let_def) (simp add: twl_zero_def)
qed

theorem mailbox_timeout_inverted_witness:
  "wifi_card_mbox0_readpkt 1 arm7_zero =
     readpkt_body (wifi_card_mbox0_readpkt 0) (arm7_zero\<lparr>twl := snd (mbox_wait 100 twl_zero)\<rparr>)"
proof -
  have z: "twl arm7_zero = twl_zero" by (simp add: arm7_zero_def)
  have "\<forall>k < 99. \<not> data_ready k (twl arm7_zero)" by (simp only: z data_ready_zero not_False_eq_True simp_thms)
  from mailbox_timeout_inverted [OF this, of 0] show ?thesis by (simp only: z data_ready_zero if_False One_nat_def)
qed

text \<open>The check of the length of a received packet does not protect the buffer: a header that announces more
  than 1530 but at most 8192 bytes makes the transfer run past the end of the buffer of 1536 bytes,
  while a shorter packet always fits.\<close>

theorem mailbox_length_check:
  assumes "mbox_header (twl s) = (header, t)"
  defines "len \<equiv> unat (ucast (drop_bit 16 header) :: u16)"
  shows "(1530 < len \<and> len \<le> 8192 \<longrightarrow> readpkt_body rp s = None) \<and>
    (len \<le> 1530 \<longrightarrow> round_up_80 (len + 6) \<le> MBOX_TMPBUF_SIZE) \<and>
    (8192 < len \<longrightarrow> readpkt_body rp s = Some (0, s\<lparr>twl := mbox_discard 4 t\<rparr>))"
proof -
  have gt: "(ucast (drop_bit 16 header) :: u16) > 0x2000 \<longleftrightarrow> 8192 < len" by (simp add: len_def word_less_nat_alt)
  have big: "round_up_80 (len + 6) > 0x600" if "1530 < len" using round_up_80_bounds(1) [of "len + 6"] that by linarith
  have "readpkt_body rp s = None" if "1530 < len" "len \<le> 8192"
    unfolding readpkt_body_def assms(1) Let_def split_conv using that gt big by (simp add: len_def)
  moreover have "readpkt_body rp s = Some (0, s\<lparr>twl := mbox_discard 4 t\<rparr>)" if "8192 < len"
    unfolding readpkt_body_def assms(1) Let_def split_conv using that gt by simp
  moreover have "round_up_80 (len + 6) \<le> MBOX_TMPBUF_SIZE" if "len \<le> 1530"
    using round_up_80_bounds(3) [of "len + 6"] that by simp
  ultimately show ?thesis by blast
qed

theorem mailbox_length_check_witness:
  "readpkt_body (\<lambda>_. None) (arm7_zero\<lparr>twl := twl_zero\<lparr>mbox_has_lookahead := True, mbox_lookahead := 0x06000002\<rparr>\<rparr>) = None"
proof -
  have "mbox_header (twl (arm7_zero\<lparr>twl := twl_zero\<lparr>mbox_has_lookahead := True, mbox_lookahead := 0x06000002\<rparr>\<rparr>)) =
      (0x06000002, twl_zero\<lparr>mbox_has_lookahead := False, mbox_lookahead := 0x06000002\<rparr>)"
    by (simp add: mbox_header_def twl_zero_def)
  from mailbox_length_check [OF this, of "\<lambda>_. None"] show ?thesis by simp
qed

section \<open>The parameters of a connection\<close>

lemma splice_bytes:
  assumes "k < length bs" "off + length src \<le> length bs"
  shows "splice off src bs ! k = (if off \<le> k \<and> k < off + length src then src ! (k - off) else bs ! k)"
    "length (splice off src bs) = length bs"
  using assms by (auto simp: splice_def nth_append)

lemma strcpy_at:
  assumes "length bs = 52" "length nm \<le> 32"
  defines "q \<equiv> splice 8 (nm @ [0]) bs"
  shows "length q = 52" "take (length nm) (drop 8 q) = nm" "q ! 41 = bs ! 41"
    "q ! 40 = (if length nm \<le> 31 then bs ! 40 else 0)"
proof -
  have l: "8 + length (nm @ [0]) \<le> length bs" using assms(1,2) by simp
  note at = splice_bytes [OF _ l]
  show len: "length q = 52" using at(2) [of 0] assms(1) by (simp add: q_def)
  show "take (length nm) (drop 8 q) = nm"
    using assms(1,2) len by (intro nth_equalityI) (simp_all add: q_def at(1) nth_append)
  show "q ! 41 = bs ! 41" "q ! 40 = (if length nm \<le> 31 then bs ! 40 else 0)"
    using assms(1,2) by (auto simp: q_def at(1) nth_append)
qed

text \<open>The command to connect has 52 bytes with the name of the network at its place. For a name of at most 31
  bytes it asks for the channel of the access point; for a name of 32 bytes, the longest there is, the
  terminator of the copied string clears the low byte of the frequency.\<close>

theorem connect_command_channel:
  assumes "length modes = 7" "length (bssid ap) = 6" "length (c_string (ssid ap)) \<le> 32"
  shows "length (connect_params modes ap) = 52 \<and>
    take (length (c_string (ssid ap))) (drop 8 (connect_params modes ap)) = c_string (ssid ap) \<and>
    take 6 (drop 42 (connect_params modes ap)) = bssid ap \<and>
    hword (connect_params modes ap ! 40) (connect_params modes ap ! 41) =
      (if length (c_string (ssid ap)) \<le> 31 then ucast (wifi_channel_to_mhz (channel ap))
       else ucast (wifi_channel_to_mhz (channel ap)) AND 0xFF00)"
proof -
  let ?nm = "c_string (ssid ap)" and ?mhz = "ucast (wifi_channel_to_mhz (channel ap)) :: u16"
  define bs where "bs = modes @ [ssid_len ap] @ replicate 32 0 @ le16 ?mhz @ replicate 6 0 @ le32 DEFAULT_WMI_CONNECT_CTRL_FLAGS"
  define q where "q = splice 8 (?nm @ [0]) bs"
  have b: "length bs = 52" "bs ! 40 = ucast ?mhz" "bs ! 41 = ucast (drop_bit 8 ?mhz)"
    using assms(1) by (simp_all add: bs_def le16_def le32_def nth_append)
  note q = strcpy_at [OF b(1) assms(3), folded q_def]
  have c: "connect_params modes ap = splice 42 (bssid ap) q"
    using assms(2) by (simp add: connect_params_def Let_def bs_def q_def)
  have l: "42 + length (bssid ap) \<le> length q" using assms(2) q(1) by simp
  note at = splice_bytes [OF _ l]
  have len: "length (connect_params modes ap) = 52" using at(2) [of 0] q(1) by (simp add: c)
  have low: "connect_params modes ap ! k = q ! k" if "k < 42" for k using at(1) [of k] that q(1) by (simp add: c)
  have "take (length ?nm) (drop 8 (connect_params modes ap)) = take (length ?nm) (drop 8 q)"
    using len q(1) assms(3) low by (intro nth_equalityI) simp_all
  moreover have "take 6 (drop 42 (connect_params modes ap)) = bssid ap"
    using len q(1) assms(2) at(1) by (intro nth_equalityI) (simp_all add: c)
  moreover have "hword (ucast ?mhz) (ucast (drop_bit 8 ?mhz)) = ?mhz" using hword_le16_nth [of ?mhz] by (simp add: le16_def)
  moreover have "hword 0 (ucast (drop_bit 8 ?mhz)) = ?mhz AND 0xFF00"
  proof (rule bit_word_eqI)
    fix n assume "n < LENGTH(16)"
    have m: "(0xFF00 :: u16) = push_bit 8 (mask 8)" by (simp add: mask_eq_exp_minus_1)
    show "bit (hword 0 (ucast (drop_bit 8 ?mhz))) n = bit (?mhz AND 0xFF00) n"
      unfolding m by (auto simp: hword_def bit_simps dest: bit_imp_le_length)
  qed
  ultimately show ?thesis using len q(2,3,4) b low by simp
qed

theorem connect_command_channel_witness:
  "\<exists>ap. channel ap = 1 \<and> length (c_string (ssid ap)) = 32 \<and> length (connect_params [1, 1, 1, 1, 0, 1, 0] ap) = 52 \<and>
    hword (connect_params [1, 1, 1, 1, 0, 1, 0] ap ! 40) (connect_params [1, 1, 1, 1, 0, 1, 0] ap ! 41) = 0x0900"
proof -
  let ?ap = "zero_ap\<lparr>ssid := replicate 32 0x41 @ [0], channel := 1\<rparr>"
  have l: "length (c_string (ssid ?ap)) = 32" by (simp add: c_string_def takeWhile_append)
  have a: "length [1, 1, 1, 1, 0, 1, 0 :: u8] = 7" "length (bssid ?ap) = 6" "length (c_string (ssid ?ap)) \<le> 32"
    by (simp_all only: l) (simp_all add: zero_ap_def)
  show ?thesis using connect_command_channel [OF a] l
    by (intro exI [of _ ?ap]) (simp add: wifi_channel_to_mhz_def)
qed

end
