(* ===== verification/Arm7_Control.thy ===== *)
theory Arm7_Control
  imports Arm7_Rx
begin

text \<open>
  What reception and transmission leave alone. The mode of the driver, the requests of the ARM9, the
  channel and the interrupt registers are changed only by the update of \<^verbatim>\<open>ntr/update.c\<close>, and
  the table of clients only by the functions of \<^verbatim>\<open>ntr/multiplayer.c\<close>, which keep its
  invariant. The frame relation \<open>keeps\<close> says so; it is shown for every handler of a received frame,
  for the two queues, and for the handlers of the interrupts, from which it follows that the loop of
  the interrupt handler ends.
\<close>

section \<open>Frame relations\<close>

text \<open>A relation between the state before and after an operation that operations can be composed in.\<close>

locale frame_relation =
  fixes K :: "'s \<Rightarrow> 's \<Rightarrow> bool"
  assumes keep_refl: "K s s"
    and keep_trans: "K s t \<Longrightarrow> K t u \<Longrightarrow> K s u"
begin

lemma keep_bind:
  assumes "Option.bind (f s) g = Some u" "\<And>x. f s = Some x \<Longrightarrow> K s (st x)" "\<And>x. g x = Some u \<Longrightarrow> K (st x) u"
  shows "K s u"
  using assms keep_trans by (auto simp: Option.bind_eq_Some_conv)

lemma keep_map:
  assumes "map_option f x = Some u" "\<And>y. x = Some y \<Longrightarrow> K s (f y)"
  shows "K s u"
  using assms by auto

lemma keep_if:
  assumes "(if b then x else y) = Some u" "b \<Longrightarrow> x = Some u \<Longrightarrow> K s u" "\<not> b \<Longrightarrow> y = Some u \<Longrightarrow> K s u"
  shows "K s u"
  using assms by (simp split: if_splits)

lemma keep_fold: "(\<And>x s. K s (f x s)) \<Longrightarrow> K s (fold f xs s)"
  by (induction xs arbitrary: s) (auto intro: keep_refl keep_trans)

end

text \<open>The fields that only the update changes, and with them the table of clients without the own identifier.\<close>

definition ctl7 where
  "ctl7 s =
     ((curMode (wd7 s), reqMode (wd7 s), curLibraryMode (wd7 s), reqLibraryMode (wd7 s), reqFlags (wd7 s), flags7 (wd7 s),
       curChannel (wd7 s), reqChannel (wd7 s), counter7 (wd7 s), curMaxClients (wd7 s)),
      (regs s W_IE, regs s W_IF, regs s W_US_COUNT1, wifi_scan_index s))"

definition view7 where
  "view7 s = (ctl7 s, (clients (wd7 s))\<lparr>curClientAID := 0\<rparr>)"

definition keeps :: "arm7 \<Rightarrow> arm7 \<Rightarrow> bool" where
  "keeps s s' \<longleftrightarrow> ctl7 s' = ctl7 s \<and> (mp_inv s \<longrightarrow> mp_inv s')"

interpretation kp: frame_relation keeps
  by unfold_locales (auto simp: keeps_def)

lemma mp_ok_own_aid: "mp_ok (c\<lparr>curClientAID := a\<rparr>) m = mp_ok c m"
  by (simp add: mp_ok_def)

lemma keeps_view:
  assumes "view7 s' = view7 s"
  shows "keeps s s'"
proof -
  have c: "(clients (wd7 s'))\<lparr>curClientAID := 0\<rparr> = (clients (wd7 s))\<lparr>curClientAID := 0\<rparr>"
      "curMaxClients (wd7 s') = curMaxClients (wd7 s)" "ctl7 s' = ctl7 s"
    using assms by (simp_all add: view7_def ctl7_def)
  have "mp_ok (clients (wd7 s')) m = mp_ok (clients (wd7 s)) m" for m
    using c(1) mp_ok_own_aid by metis
  moreover have "clients_spinlock (clients (wd7 s')) = clients_spinlock (clients (wd7 s))"
    using arg_cong [OF c(1), of clients_spinlock] by simp
  ultimately show ?thesis using c by (simp add: keeps_def mp_inv_at_def)
qed

lemma keeps_trans_view: "keeps s t \<Longrightarrow> view7 u = view7 t \<Longrightarrow> keeps s u"
  by (rule kp.keep_trans [OF _ keeps_view])

lemma keeps_view_trans: "view7 t = view7 s \<Longrightarrow> keeps t u \<Longrightarrow> keeps s u"
  by (rule kp.keep_trans [OF keeps_view])

section \<open>Primitive changes\<close>

named_theorems view_simps "operations that do not change the view"

lemma view7_set_reg [view_simps]: "r \<noteq> W_IE \<Longrightarrow> r \<noteq> W_IF \<Longrightarrow> r \<noteq> W_US_COUNT1 \<Longrightarrow> view7 (set_reg r v s) = view7 s"
  by (simp add: view7_def ctl7_def set_reg_def)

lemma view7_set_mac [view_simps]: "view7 (set_mac a v s) = view7 s"
  by (simp add: view7_def ctl7_def set_mac_def)

lemma view7_MACWrite [view_simps]: "view7 (Wifi_MACWrite src b n s) = view7 s"
  by (simp add: view7_def ctl7_def Wifi_MACWrite_def set_reg_def Let_def)

lemma view7_MacWriteByte [view_simps]: "view7 (Wifi_MacWriteByte a v s) = view7 s"
  by (simp add: view7_def ctl7_def Wifi_MacWriteByte_def set_mac_def Let_def)

lemma view7_KeepaliveCountReset [view_simps]: "view7 (Wifi_NTR_KeepaliveCountReset s) = view7 s"
  by (simp add: view7_def ctl7_def Wifi_NTR_KeepaliveCountReset_def)

lemma view7_CallSyncHandler [view_simps]: "view7 (Wifi_CallSyncHandler7 s) = view7 s"
  by (simp add: view7_def ctl7_def Wifi_CallSyncHandler7_def)

lemma view7_set_tx_read [view_simps]: "view7 (set_tx_read i s) = view7 s"
  by (simp add: view7_def ctl7_def set_tx_read_def wd7_upd_def)

lemma view7_stats [view_simps]: "view7 (wd7_upd (\<lambda>w. stat_add k n (f w)) s) = view7 (wd7_upd f s)"
  "view7 (wd7_upd (stat_add k n) s) = view7 s"
  by (simp_all add: view7_def ctl7_def stat_add_def wd7_upd_def)

lemma view7_wd7_upd [view_simps]:
  "view7 (wd7_upd (\<lambda>w. w) s) = view7 s" "view7 (wd7_upd (\<lambda>w. w\<lparr>rxbuf := b\<rparr>) s) = view7 s"
  "view7 (wd7_upd (\<lambda>w. w\<lparr>authlevel := al, authctr := ac\<rparr>) s) = view7 s"
  "view7 (wd7_upd (\<lambda>w. w\<lparr>realRates := rr, authlevel := al\<rparr>) s) = view7 s"
  "view7 (wd7_upd (maxrate7_update f) s) = view7 s"
  "view7 (wd7_upd (\<lambda>w. w\<lparr>stats := g w\<rparr>) s) = view7 s"
  by (simp_all add: view7_def ctl7_def wd7_upd_def)

lemma view7_set_authlevel [view_simps]: "view7 (set_authlevel l s) = view7 s"
  by (simp add: view7_def ctl7_def set_authlevel_def wd7_upd_def)

lemma view7_SetAssociationID [view_simps]: "view7 (Wifi_NTR_SetAssociationID a s) = view7 s"
  by (simp add: view7_def ctl7_def Wifi_NTR_SetAssociationID_def set_reg_def wd7_upd_def)

lemma view7_set_reg_mac [view_simps]: "W_IE < r \<Longrightarrow> r + 4 < W_US_COUNT1 \<Longrightarrow> view7 (set_reg_mac r m s) = view7 s"
  by (simp add: view7_def ctl7_def set_reg_mac_def set_reg_def)

lemma view7_SetupTransferOptions [view_simps]: "view7 (Wifi_NTR_SetupTransferOptions r p s) = view7 s"
  by (simp add: view7_def ctl7_def Wifi_NTR_SetupTransferOptions_def set_reg_def wd7_upd_def Let_def)

lemma view7_MACRead [view_simps]: "view7 (snd (Wifi_MACRead b a n s)) = view7 s"
  by (simp add: Wifi_MACRead_def Let_def view_simps)

lemma view7_mgt_frame_read [view_simps]: "view7 (snd (mgt_frame_read b n s)) = view7 s"
  using view7_MACRead [of b HDR_RX_SIZE "2 * ((n + 1) div 2)" s]
  by (auto simp: mgt_frame_read_def Let_def split: prod.splits)

lemma view7_sent7: "sent7 s s' \<Longrightarrow> view7 s' = view7 s"
  by (simp add: sent7_def kept_regs_def view7_def ctl7_def)

section \<open>Sending\<close>

lemma view7_ignore_result:
  assumes "ignore_result x = Some u" "\<exists>ok t. x = Some (ok, t) \<and> sent7 s t"
  shows "view7 u = view7 s"
  using assms view7_sent7 by auto

lemma SendAssocPacket_view:
  assumes "ignore_result (Wifi_SendAssocPacket s) = Some u"
  shows "view7 u = view7 s"
proof -
  obtain hdr t where h: "Wifi_GenMgtHeader TYPE_ASSOC_REQUEST s = (hdr, t)" by (cases "Wifi_GenMgtHeader TYPE_ASSOC_REQUEST s")
  then have "sent7 s t" using GenMgtHeader_ok(2) [of s TYPE_ASSOC_REQUEST] by simp
  let ?frame = "mgt_frame hdr (assoc_body t) 4"
  have "length ?frame \<le> 96" "ignore_result (send_frame ?frame t) = Some u"
    using assms unfolding Wifi_SendAssocPacket_def h by (auto simp: Let_def split: if_splits)
  then have "view7 u = view7 t" using send_frame_ok [of ?frame t] by (auto intro: view7_sent7)
  then show ?thesis using view7_sent7 [OF \<open>sent7 s t\<close>] by simp
qed

lemma SendNullFrame_ok: "\<exists>ok s'. Wifi_SendNullFrame s = Some (ok, s') \<and> sent7 s s'"
  unfolding Wifi_SendNullFrame_def
  by (rule send_frame_ok) (simp add: IEEE_DataFrameHeader_bytes_def Wifi_CopyMacAddr_def le16_def)

lemma mphost_view:
  "Wifi_MPHost_SendOpenSystemAuthPacket m st s = Some (ok, u) \<Longrightarrow> view7 u = view7 s"
  "Wifi_MPHost_SendDeauthentication m rc s = Some (ok, u) \<Longrightarrow> view7 u = view7 s"
  "Wifi_MPHost_SendAssocResponsePacket m st aid s = Some (ok, u) \<Longrightarrow> view7 u = view7 s"
  using mphost_senders_ok(1) [of m st s] mphost_senders_ok(2) [of m rc s] mphost_senders_ok(3) [of m st aid s]
  by (auto intro: view7_sent7)

section \<open>Received frames\<close>

lemma mgt_frame_read_obtain:
  obtains d t where "mgt_frame_read b n s = (d, t)" "view7 t = view7 s"
  using view7_mgt_frame_read [of b n s] by (cases "mgt_frame_read b n s") simp

lemma ProcessBeacon_view:
  assumes "Wifi_ProcessBeaconOrProbeResponse h b s = Some u"
  shows "view7 u = view7 s"
proof -
  obtain d t where r: "mgt_frame_read b (min 512 (unat (byteLength h))) s = (d, t)" "view7 t = view7 s"
    by (rule mgt_frame_read_obtain)
  obtain bp where "beacon_add h d bp t = Some u"
    using assms by (auto simp: Wifi_ProcessBeaconOrProbeResponse_def r(1) Let_def split: bind_splits)
  moreover have "view7 (wd7_upd (Wifi_AccessPointAdd p1 p2 p3 p4 p5 p6 p7 p8 p9 p10 p11) t) = view7 t"
    for p1 p2 p3 p4 p5 p6 p7 p8 p9 p10 p11
    by (auto simp: Wifi_AccessPointAdd_def view7_def ctl7_def Let_def wd7_upd_def Wifi_RandomAddEntropy_def split: prod.splits spinlock_result.splits)
  ultimately show ?thesis using r(2) by (auto simp: beacon_add_def Let_def split: if_splits bind_splits)
qed

lemma authenticated_view: "authenticated s = Some u \<Longrightarrow> view7 u = view7 s"
  by (auto simp: authenticated_def view_simps simp del: map_option_eq_Some dest!: SendAssocPacket_view split: if_splits)

lemma open_auth_view:
  assumes "open_auth seq status s = Some u"
  shows "view7 u = view7 s"
  using assms view7_ignore_result [OF _ station_senders_ok(2) [of s], of u] authenticated_view [of s u]
  by (auto simp: open_auth_def view_simps simp del: map_option_eq_Some split: if_splits)

lemma shared_key_auth_view:
  assumes "shared_key_auth d seq status s = Some u"
  shows "view7 u = view7 s"
  using assms view7_ignore_result [OF _ SendSharedKeyAuthPacket2_ok, of _ _ s u] authenticated_view [of s u]
  by (auto simp: shared_key_auth_def Let_def view_simps simp del: map_option_eq_Some split: if_splits)

lemma ProcessAuthentication_view:
  assumes "Wifi_ProcessAuthentication h b s = Some u"
  shows "view7 u = view7 s"
proof -
  obtain d t where r: "mgt_frame_read b (min 384 (unat (byteLength h))) s = (d, t)" "view7 t = view7 s"
    by (rule mgt_frame_read_obtain)
  have "t = u \<or> (\<exists>x y. open_auth x y t = Some u) \<or> (\<exists>x y. shared_key_auth d x y t = Some u)"
    using assms unfolding Wifi_ProcessAuthentication_def r by (auto simp: Let_def split: if_splits)
  then show ?thesis using open_auth_view [of _ _ t u] shared_key_auth_view [of d _ _ t u] r(2) by auto
qed

lemma ProcessDeauthentication_view:
  assumes "Wifi_ProcessDeauthentication h b s = Some u"
  shows "view7 u = view7 s"
proof -
  obtain d t where r: "mgt_frame_read b sizeof_IeeeDeauthenticationFrame s = (d, t)" "view7 t = view7 s"
    by (rule mgt_frame_read_obtain)
  let ?t = "set_authlevel WIFI_AUTHLEVEL_DISCONNECTED t"
  have send: "view7 v = view7 t" if "ignore_result (Wifi_SendOpenSystemAuthPacket ?t) = Some v" for v
    using view7_ignore_result [OF that station_senders_ok(1)] by (simp add: view_simps)
  have "u = s \<or> u = t \<or> (\<exists>v. u = Wifi_NTR_SetAssociationID 0 v \<and> (v = set_reg_mac W_BSSID [0, 0, 0, 0, 0, 0] (set_authlevel WIFI_AUTHLEVEL_ERROR t) \<or>
      ignore_result (Wifi_SendOpenSystemAuthPacket ?t) = Some v))"
    using assms unfolding Wifi_ProcessDeauthentication_def r Let_def
    by (auto simp: Let_def split: if_splits)
  then show ?thesis using send r(2) by (auto simp: view_simps simp del: map_option_eq_Some)
qed

lemma ProcessAssocResponse_view:
  assumes "Wifi_ProcessAssocResponse h b s = Some u"
  shows "view7 u = view7 s"
proof -
  obtain d t where r: "mgt_frame_read b (min 64 (unat (byteLength h))) s = (d, t)" "view7 t = view7 s"
    by (rule mgt_frame_read_obtain)
  show ?thesis
    using assms r(2) view7_ignore_result [OF _ station_senders_ok(1) [of "wd7_upd (\<lambda>w. w\<lparr>realRates := False, authlevel := WIFI_AUTHLEVEL_DISCONNECTED\<rparr>) t"], of u]
    by (auto simp: Wifi_ProcessAssocResponse_def r(1) Let_def view_simps simp del: map_option_eq_Some split: if_splits bind_splits)
qed

lemma ctl7_clients [view_simps]:
  "ctl7 (clients_upd7 f s) = ctl7 s" "ctl7 (unlock_clients7 s) = ctl7 s" "ctl7 (set_client7 i g s) = ctl7 s"
  "ctl7 (aid_mask_clear a s) = ctl7 s"
  by (simp_all add: ctl7_def unlock_clients7_def set_client7_def aid_mask_clear_def clients_upd7_def wd7_upd_def)

lemma ctl7_view: "view7 s' = view7 s \<Longrightarrow> ctl7 s' = ctl7 s"
  by (simp add: view7_def)

lemma ctl7_players_changed [view_simps]: "ctl7 (players_changed s) = ctl7 s"
  by (rule ctl7_view) (simp add: players_changed_def Wifi_SetBeaconCurrentPlayers_def view_simps)

lemma ctl7_lock: "lock_clients7 s = Some t \<Longrightarrow> ctl7 t = ctl7 s"
  by (auto simp: lock_clients7_def view_simps)

lemma ClientAuthenticate_keeps:
  assumes "Wifi_MPHost_ClientAuthenticate m s = Some (r, u)" "length m = 6"
  shows "keeps s u"
proof -
  have "ctl7 u = ctl7 s" using assms(1)
    by (auto simp: Wifi_MPHost_ClientAuthenticate_def Let_def view_simps dest!: ctl7_lock split: if_splits bind_splits option.splits)
  then show ?thesis using assms ClientAuthenticate_spec [of s m] by (auto simp: keeps_def)
qed

lemma ClientAssociate_keeps:
  assumes "Wifi_MPHost_ClientAssociate m s = Some (r, u)" "length m = 6"
  shows "keeps s u"
proof -
  have "ctl7 u = ctl7 s" using assms(1)
    by (auto simp: Wifi_MPHost_ClientAssociate_def Let_def view_simps dest!: ctl7_lock split: if_splits bind_splits option.splits)
  then show ?thesis using assms ClientAssociate_spec [of s m] by (auto simp: keeps_def)
qed

lemma ClientDisconnect_keeps:
  assumes "Wifi_MPHost_ClientDisconnect m s = Some (r, u)" "length m = 6"
  shows "keeps s u"
proof -
  have "ctl7 u = ctl7 s" using assms(1)
    by (auto simp: Wifi_MPHost_ClientDisconnect_def Let_def view_simps dest!: ctl7_lock split: if_splits bind_splits option.splits)
  then show ?thesis using assms ClientDisconnect_spec [of s m] by (auto simp: keeps_def)
qed

lemma mp_open_auth_keeps:
  assumes "mp_open_auth m seq status s = Some u" "length m = 6"
  shows "keeps s u"
  using assms kp.keep_trans [OF ClientAuthenticate_keeps keeps_view [OF mphost_view(1)]]
  by (auto simp: mp_open_auth_def intro: keeps_view [OF mphost_view(1)] split: if_splits bind_splits)

lemma MPHost_ProcessAuthentication_keeps:
  assumes "Wifi_MPHost_ProcessAuthentication h b s = Some u"
  shows "keeps s u"
proof -
  obtain d t where r: "mgt_frame_read b sizeof_IeeeAuthenticationFrame s = (d, t)" "view7 t = view7 s"
    by (rule mgt_frame_read_obtain)
  let ?m = "read_bytes d HDR_MGT_SA 6"
  have "u = s \<or> u = t \<or> (\<exists>x y. mp_open_auth ?m x y t = Some u) \<or>
      (\<exists>st ok. Wifi_MPHost_SendOpenSystemAuthPacket ?m st t = Some (ok, u))"
    using assms unfolding Wifi_MPHost_ProcessAuthentication_def r by (auto simp: Let_def split: if_splits)
  then have "u = s \<or> keeps t u"
    using mp_open_auth_keeps [of ?m _ _ t u] by (auto intro: keeps_view [OF mphost_view(1)] kp.keep_refl)
  then show ?thesis using keeps_view_trans [OF r(2)] kp.keep_refl by auto
qed

lemma MPHost_ProcessDeauthentication_keeps:
  assumes "Wifi_MPHost_ProcessDeauthentication h b s = Some u"
  shows "keeps s u"
proof -
  obtain d t where r: "mgt_frame_read b sizeof_IeeeDeauthenticationFrame s = (d, t)" "view7 t = view7 s"
    by (rule mgt_frame_read_obtain)
  let ?m = "read_bytes d HDR_MGT_SA 6"
  have "u = s \<or> u = t \<or> (\<exists>ok v. Wifi_MPHost_ClientDisconnect ?m t = Some (ok, v) \<and> u = Wifi_NTR_SetAssociationID 0 v)"
    using assms unfolding Wifi_MPHost_ProcessDeauthentication_def r by (auto simp: Let_def split: if_splits bind_splits)
  then have "u = s \<or> keeps t u"
    using ClientDisconnect_keeps [of ?m t] keeps_trans_view by (auto simp: view_simps intro: kp.keep_refl)
  then show ?thesis using keeps_view_trans [OF r(2)] kp.keep_refl by auto
qed

lemma MPHost_ProcessAssocRequest_keeps:
  assumes "Wifi_MPHost_ProcessAssocRequest h b s = Some u"
  shows "keeps s u"
proof -
  obtain d t where r: "mgt_frame_read b (min 128 (unat (byteLength h))) s = (d, t)" "view7 t = view7 s"
    by (rule mgt_frame_read_obtain)
  let ?m = "read_bytes d HDR_MGT_SA 6"
  let ?send = "\<lambda>t v. \<exists>st aid ok. Wifi_MPHost_SendAssocResponsePacket ?m st aid t = Some (ok, v)"
  have send: "view7 v = view7 t" if "?send t v" for t v
    using that mphost_view(3) by blast
  have assoc: "keeps t v" if "mp_associate ?m t = Some v" for t v
    using that kp.keep_trans [OF ClientAssociate_keeps keeps_view [OF mphost_view(3)]]
    by (auto simp: mp_associate_def split: bind_splits option.splits)
  let ?respond = "\<lambda>st. Wifi_MPHost_SendAssocResponsePacket ?m st 0"
  let ?rest = "\<lambda>v. if read_u16 d HDR_MGT_MAC_SIZE AND 0x00FF \<noteq> CAPS_ESS OR CAPS_SHORT_PREAMBLE
           then ignore_result (?respond STATUS_UNSUPPORTED_CAPABILITIES v)
           else do { ok \<leftarrow> request_elements d (min 128 (unat (byteLength h))) (HDR_TX_SIZE + HDR_MGT_MAC_SIZE + 4);
                     if \<not> ok then ignore_result (?respond STATUS_ASSOC_BAD_RATES v) else mp_associate ?m v }"
  let ?first = "if Wifi_MPHost_ClientGetByMacAddr ?m t = None then ignore_result (?respond STATUS_ASSOC_DENIED t) else Some t"
  have rest: "?send v u \<or> mp_associate ?m v = Some u" if "?rest v = Some u" for v
    using that by (auto simp: Option.bind_eq_Some_conv split: if_splits)
  have "u = t \<or> Option.bind ?first ?rest = Some u"
    using assms unfolding Wifi_MPHost_ProcessAssocRequest_def r Let_def prod.case
    by (cases "Wifi_CmpMacAddr (read_bytes d HDR_MGT_DA 6) (MacAddr (wd7 t))")
      (simp_all only: not_True_eq_False not_False_eq_True if_False if_True option.inject simp_thms)
  then have "u = t \<or> (\<exists>v. (v = t \<or> ?send t v) \<and> (?send v u \<or> mp_associate ?m v = Some u))"
  proof
    assume "Option.bind ?first ?rest = Some u"
    then obtain v where v: "?first = Some v" "?rest v = Some u" unfolding Option.bind_eq_Some_conv by blast
    have "v = t \<or> ?send t v" using v(1) by (auto split: if_splits)
    then show ?thesis using rest [OF v(2)] by blast
  qed simp
  then have "keeps t u"
    using send assoc keeps_view_trans keeps_view kp.keep_refl by metis
  then show ?thesis using keeps_view_trans [OF r(2)] by simp
qed

lemma ProcessReceivedFrame_keeps:
  assumes "Wifi_ProcessReceivedFrame b s = Some (k, u)"
  shows "keeps s u"
proof -
  obtain hs t where r: "Wifi_MACRead b 0 HDR_RX_SIZE s = (hs, t)" by (cases "Wifi_MACRead b 0 HDR_RX_SIZE s")
  then have t: "view7 t = view7 s" using view7_MACRead [of b 0 HDR_RX_SIZE s] by simp
  let ?h = "rx_header hs"
  have "u = t \<or> Wifi_ProcessBeaconOrProbeResponse ?h b t = Some u \<or> Wifi_ProcessAssocResponse ?h b t = Some u \<or>
      Wifi_ProcessAuthentication ?h b t = Some u \<or> Wifi_ProcessDeauthentication ?h b t = Some u \<or>
      Wifi_MPHost_ProcessAssocRequest ?h b t = Some u \<or> Wifi_MPHost_ProcessAuthentication ?h b t = Some u \<or>
      Wifi_MPHost_ProcessDeauthentication ?h b t = Some u"
    using assms unfolding Wifi_ProcessReceivedFrame_def r by (simp add: Let_def split: if_splits)
  then have "keeps t u"
    using ProcessBeacon_view ProcessAssocResponse_view ProcessAuthentication_view ProcessDeauthentication_view
      MPHost_ProcessAssocRequest_keeps MPHost_ProcessAuthentication_keeps MPHost_ProcessDeauthentication_keeps
      keeps_view kp.keep_refl by metis
  then show ?thesis using keeps_view_trans [OF t] by simp
qed

section \<open>Queues\<close>

lemma view7_RxArm9QueueAdd:
  assumes "Wifi_RxArm9QueueAdd b n s = Some (ok, u)"
  shows "view7 u = view7 s"
proof -
  obtain hs t where r: "Wifi_MACRead b 0 (unat n) s = (hs, t)" by (cases "Wifi_MACRead b 0 (unat n) s")
  then have t: "view7 t = view7 s" using view7_MACRead [of b 0 "unat n" s] by simp
  have "\<exists>v c d. (v = s \<or> v = t) \<and> (u = wd7_upd (\<lambda>w. stat_add WSTAT_RXQUEUEDLOST 1 (w\<lparr>rxbuf := c\<rparr>)) s \<or>
      u = Wifi_CallSyncHandler7 (wd7_upd (\<lambda>w. stat_add WSTAT_RXQUEUEDBYTES n (stat_add WSTAT_RXQUEUEDPACKETS 1 (w\<lparr>rxbuf := c\<rparr>))) t))"
    using assms unfolding Wifi_RxArm9QueueAdd_def r by (auto simp: Let_def split: option.splits bool.splits)
  then show ?thesis using t by (auto simp: view_simps)
qed

lemma rx_one_keeps:
  assumes "rx_one s = Some u"
  shows "keeps s u"
proof -
  define len where "len = of_nat HDR_RX_SIZE + round_up_32 (ucast (Wifi_MACReadHWord (2 * unat (regs s W_RXBUF_READCSR)) HDR_RX_IEEE_FRAME_SIZE s) :: u32)"
  have s: "view7 (rx_stats len s) = view7 s" by (simp add: rx_stats_def view_simps)
  obtain k t n b x a where t: "Wifi_ProcessReceivedFrame b (rx_stats len s) = Some (k, t)"
      "rx_forward k b n t = Some x" "u = set_reg W_RXBUF_READCSR a x"
    using assms unfolding rx_one_def Let_def len_def [symmetric] by (auto simp: Option.bind_eq_Some_conv)
  have "view7 x = view7 t"
    using t(2) view7_RxArm9QueueAdd by (fastforce simp: rx_forward_def view_simps split: if_splits)
  then have "keeps t u" using t(3) by (intro keeps_view) (simp add: view_simps)
  then show ?thesis using keeps_view_trans [OF s] kp.keep_trans [OF ProcessReceivedFrame_keeps [OF t(1)]] by blast
qed

lemma rx_flush_loop_keeps: "rx_flush_loop n s = Some u \<Longrightarrow> keeps s u"
  by (induction n s rule: rx_flush_loop.induct)
    (auto simp: Option.bind_eq_Some_conv intro: kp.keep_refl kp.keep_trans [OF rx_one_keeps] split: if_splits)

lemma RxQueueFlush_keeps: "Wifi_RxQueueFlush s = Some u \<Longrightarrow> keeps s u"
  unfolding Wifi_RxQueueFlush_def by (rule rx_flush_loop_keeps)

lemma beacon_element_view: "beacon_element d i k n s = Some u \<Longrightarrow> view7 u = view7 s"
  by (auto simp: beacon_element_def Let_def view_simps Option.bind_eq_Some_conv split: if_splits)
    (simp_all add: view7_def ctl7_def)

lemma beacon_elements_view: "beacon_elements d n i s = Some u \<Longrightarrow> view7 u = view7 s"
proof (induction d n i s rule: beacon_elements.induct)
  case (1 d n i s)
  show ?case
  proof (cases "i < n")
    case True
    then obtain k l t where t: "local_at sizeof_beacon_data d i = Some k" "local_at sizeof_beacon_data d (i + 1) = Some l"
        "beacon_element d (i + 2) k (unat l) s = Some t" "beacon_elements d n (i + 2 + unat l) t = Some u"
      using 1(2) by (subst (asm) beacon_elements.simps) (auto simp: Option.bind_eq_Some_conv)
    then have "view7 u = view7 t" using 1(1) True by blast
    then show ?thesis using beacon_element_view [OF t(3)] by simp
  next
    case False
    then show ?thesis using 1(2) by (subst (asm) beacon_elements.simps) simp
  qed
qed

lemma view7_BeaconSetup:
  assumes "Wifi_BeaconSetup s = Some u"
  shows "view7 u = view7 s"
proof -
  let ?len = "HDR_TX_SIZE + unat (Wifi_MACReadHWord MAC_BEACON_START_OFFSET HDR_TX_IEEE_FRAME_SIZE s) - 4"
  obtain hs t where r: "Wifi_MACRead MAC_BEACON_START_OFFSET 0 ?len s = (hs, t)"
    by (cases "Wifi_MACRead MAC_BEACON_START_OFFSET 0 ?len s")
  then have t: "view7 t = view7 s" using view7_MACRead [of MAC_BEACON_START_OFFSET 0 ?len s] by simp
  have "u = Wifi_BeaconStop s \<or> (\<exists>d i v x y c. beacon_elements d ?len i t = Some v \<and>
      u = Wifi_SetBeaconChannel c (set_reg W_BEACONINT x (set_reg W_TXBUF_BEACON y v)))"
    using assms unfolding Wifi_BeaconSetup_def Let_def r
    by (auto simp: Option.bind_eq_Some_conv simp del: W_BEACONINT_def W_TXBUF_BEACON_def split: if_splits) blast
  then show ?thesis using t
    by (auto simp: Wifi_BeaconStop_def Wifi_SetBeaconChannel_def view_simps dest!: beacon_elements_view)
qed

lemma view7_CopyFirstData:
  assumes "Wifi_TxArm9QueueCopyFirstData b e s = Some (n, u)"
  shows "view7 u = view7 s"
  using assms by (auto simp: Wifi_TxArm9QueueCopyFirstData_def Let_def view_simps split: if_splits)

lemma view7_start_loc3 [view_simps]: "view7 (start_loc3 s) = view7 s"
  by (simp add: start_loc3_def Let_def view_simps)

lemma view7_FlushByLoc3 [view_simps]: "view7 (Wifi_TxArm9QueueFlushByLoc3 s) = view7 s"
  unfolding Wifi_TxArm9QueueFlushByLoc3_def Let_def
  by (auto simp: Wifi_Random7_def view7_def ctl7_def set_mac_def set_reg_def start_loc3_def Let_def split: prod.splits)

lemma view7_FlushByCmd [view_simps]: "view7 (Wifi_TxArm9QueueFlushByCmd s) = view7 s"
  by (simp add: Wifi_TxArm9QueueFlushByCmd_def Let_def view_simps)

lemma view7_FlushByReply: "Wifi_TxArm9QueueFlushByReply s = Some (ok, u) \<Longrightarrow> view7 u = view7 s"
  by (auto simp: Wifi_TxArm9QueueFlushByReply_def Let_def view_simps Option.bind_eq_Some_conv
    dest!: view7_CopyFirstData split: if_splits)

lemma view7_flush_beacon: "flush_beacon s = Some (ok, u) \<Longrightarrow> view7 u = view7 s"
  by (auto simp: flush_beacon_def Option.bind_eq_Some_conv dest!: view7_CopyFirstData view7_BeaconSetup split: if_splits)

lemma view7_flush_txbuf: "flush_txbuf st s = Some (ok, u) \<Longrightarrow> view7 u = view7 s"
  by (auto simp: flush_txbuf_def Let_def view_simps Option.bind_eq_Some_conv dest!: view7_CopyFirstData split: if_splits)

lemma view7_TxArm9QueueFlush: "Wifi_TxArm9QueueFlush s = Some (ok, u) \<Longrightarrow> view7 u = view7 s"
  by (auto simp: Wifi_TxArm9QueueFlush_def flush_packet_def Let_def view_simps
    dest!: view7_FlushByReply view7_flush_beacon view7_flush_txbuf split: if_splits)

lemma view7_TxArm7QueueFlush [view_simps]: "view7 (Wifi_TxArm7QueueFlush s) = view7 s"
  by (rule view7_sent7) simp

lemma TxAllQueueFlush_view: "Wifi_TxAllQueueFlush s = Some u \<Longrightarrow> view7 u = view7 s"
  by (auto simp: Wifi_TxAllQueueFlush_def Let_def view_simps dest!: view7_TxArm9QueueFlush split: if_splits)

section \<open>Interrupts\<close>

lemma view7_count_stats [view_simps]: "view7 (count_stats k xs s) = view7 s"
  by (induction k xs s rule: count_stats.induct) (simp_all add: Let_def view_simps)

lemma view7_CntOverflow [view_simps]: "view7 (Wifi_Intr_CntOverflow s) = view7 s"
  by (simp add: Wifi_Intr_CntOverflow_def view_simps)

lemma view7_MultiplayCmdDone [view_simps]: "view7 (Wifi_Intr_MultiplayCmdDone s) = view7 s"
  by (simp add: Wifi_Intr_MultiplayCmdDone_def Let_def view_simps)

text \<open>A step of a pass over the interrupts: it acknowledges the interrupt \<open>i\<close> and keeps everything else.\<close>

definition acks :: "u16 \<Rightarrow> arm7 \<Rightarrow> arm7 \<Rightarrow> bool" where
  "acks i s s' \<longleftrightarrow> regs s' W_IE = regs s W_IE \<and> regs s' W_IF = regs s W_IF AND NOT i \<and> (mp_inv s \<longrightarrow> mp_inv s')"

lemma ack_acks: "acks i s (ack_W_IF i s)"
  by (simp add: acks_def ack_W_IF_def mp_inv_at_def)

lemma acks_keeps: "acks i s t \<Longrightarrow> keeps t u \<Longrightarrow> acks i s u" "keeps s t \<Longrightarrow> acks i t u \<Longrightarrow> acks i s u"
  by (auto simp: acks_def keeps_def ctl7_def)

lemma acks_compose: "acks i s t \<Longrightarrow> acks j t u \<Longrightarrow> acks (i OR j) s u"
  by (auto simp: acks_def ac_simps bit.de_Morgan_disj)

lemma on_irq_acks:
  assumes "on_irq wIF i f s = Some u" "\<And>t. f s = Some t \<Longrightarrow> acks i s t"
  shows "acks (if wIF AND i \<noteq> 0 then i else 0) s u"
  using assms by (auto simp: on_irq_def acks_def split: if_splits)

lemma on_irq_ack:
  assumes "view7 (g s) = view7 s" "on_irq wIF i (\<lambda>s. ack i (g s)) s = Some u"
  shows "acks (if wIF AND i \<noteq> 0 then i else 0) s u"
  using assms(2)
proof (rule on_irq_acks)
  show "acks i s t" if "ack i (g s) = Some t" for t
    using that ack_acks [of i "g s"] acks_keeps(2) [OF keeps_view [OF assms(1)]] by (auto simp: ack_def)
qed

lemma on_irq_handler:
  assumes "\<And>t v. h t = Some v \<Longrightarrow> keeps t v" "on_irq wIF i (\<lambda>s. h (ack_W_IF i s)) s = Some u"
  shows "acks (if wIF AND i \<noteq> 0 then i else 0) s u"
  using assms(2) by (rule on_irq_acks) (rule acks_keeps(1) [OF ack_acks assms(1)])

definition irq_order :: "u16 list" where
  "irq_order = [IRQ_MULTIPLAY_CMD_DONE, IRQ_RX_COMPLETE, IRQ_TX_COMPLETE, IRQ_RX_EVENT_INCREMENT, IRQ_TX_EVENT_INCREMENT,
     IRQ_RX_EVENT_HALF_OVERFLOW, IRQ_TX_ERROR_HALF_OVERFLOW, IRQ_RX_START, IRQ_TX_START, IRQ_TXBUF_COUNT_END,
     IRQ_RXBUF_COUNT_END, IRQ_UNUSED, IRQ_RF_WAKEUP, IRQ_POST_BEACON_TIMESLOT, IRQ_BEACON_TIMESLOT, IRQ_PRE_BEACON_TIMESLOT]"

definition if_pending :: "u16 \<Rightarrow> u16 \<Rightarrow> u16" where
  "if_pending wIF i = (if wIF AND i \<noteq> 0 then i else 0)"

lemma if_pending_power: "if_pending w (2 ^ n) = w AND 2 ^ n"
proof (cases "bit w n")
  case True
  then have "w AND 2 ^ n = 2 ^ n" by (intro bit_word_eqI) (auto simp: bit_simps)
  then show ?thesis by (simp add: if_pending_def)
next
  case False
  then have "w AND 2 ^ n = 0" by (intro bit_word_eqI) (auto simp: bit_simps)
  then show ?thesis by (simp add: if_pending_def)
qed

lemma all_pending: "foldr (OR) (map (if_pending w) irq_order) 0 = w"
proof -
  have order: "irq_order = map (\<lambda>n. 2 ^ n) [12, 0, 1, 2, 3, 4, 5, 6, 7, 8, 9, 10, 11, 13, 14, 15]"
    by (simp add: irq_order_def)
  have "foldr (OR) (map (\<lambda>i. w AND i) xs) 0 = w AND foldr (OR) xs 0" for xs :: "u16 list"
    by (induction xs) (simp_all add: bit.conj_disj_distrib)
  moreover have "map (if_pending w) irq_order = map (\<lambda>i. w AND i) irq_order"
    unfolding order by (simp only: map_map comp_def if_pending_power)
  moreover have "w AND foldr (OR) irq_order 0 = w"
  proof -
    have "foldr (OR) irq_order 0 = (0xFFFF :: u16)" by (simp add: irq_order_def)
    also have "\<dots> = - 1" by (rule word_uint_eqI) (simp add: unsigned_minus_1_eq_mask mask_eq_exp_minus_1)
    finally show ?thesis by simp
  qed
  ultimately show ?thesis by (simp only:)
qed

lemma acks_bind:
  assumes "Option.bind (on_irq w i f s) g = Some u" "\<And>t. on_irq w i f s = Some t \<Longrightarrow> acks a s t"
    "\<And>t. g t = Some u \<Longrightarrow> acks b t u"
  shows "acks (a OR b) s u"
  using assms acks_compose by (auto simp: Option.bind_eq_Some_conv)

lemmas on_irq_step = on_irq_ack [folded if_pending_def, rotated] on_irq_handler [folded if_pending_def, rotated]

lemma interrupt_pass_acks:
  assumes "interrupt_pass wIF s = Some u"
  shows "acks wIF s u"
proof -
  note handlers = RxQueueFlush_keeps [folded Wifi_Intr_RxEnd_def] keeps_view [OF TxAllQueueFlush_view [folded Wifi_Intr_TxEnd_def]]
  have last: "acks (i OR 0) s t" if "acks i s t" for i s t using that by simp
  have "acks (foldr (OR) (map (if_pending wIF) irq_order) 0) s u"
    using assms unfolding interrupt_pass_def irq_order_def list.map foldr.simps comp_def id_def
    apply -
    apply (erule acks_bind, erule on_irq_step(1), simp add: view_simps)
    apply (erule acks_bind, erule on_irq_step(2), erule handlers)
    apply (erule acks_bind, erule on_irq_step(2), erule handlers)
    apply (erule acks_bind, erule on_irq_step(1), simp add: view_simps)+
    apply (rule last, erule on_irq_step(1), simp)
    done
  then show ?thesis by (simp only: all_pending)
qed

lemma keeps_entropy: "view7 (wd7_upd (Wifi_RandomAddEntropy v) s) = view7 s"
  by (simp add: view7_def ctl7_def Wifi_RandomAddEntropy_def Let_def wd7_upd_def)

text \<open>C37: The interrupt handler ends: while it runs, one pass over the pending interrupts, if its handlers return,
  acknowledges every pending interrupt that is enabled and no other, so that the loop ends after it, whatever
  bound of at least two passes is taken; the invariant of the table of clients is kept.\<close>

theorem interrupt_handler_ends:
  assumes "WifiData_set7 s" "flags7 (wd7 s) AND WFLAG_ARM7_RUNNING \<noteq> 0"
    and "interrupt_pass (regs s W_IE AND regs s W_IF) (wd7_upd (Wifi_RandomAddEntropy (ucast (regs s W_RANDOM))) s) = Some s'"
    and "2 \<le> fuel"
  shows "Wifi_Interrupt fuel s = Some s' \<and> regs s' W_IE AND regs s' W_IF = 0 \<and>
    regs s' W_IF = regs s W_IF AND NOT (regs s W_IE) \<and> (mp_inv s \<longrightarrow> mp_inv s')"
proof -
  let ?t = "wd7_upd (Wifi_RandomAddEntropy (ucast (regs s W_RANDOM))) s"
  let ?p = "regs s W_IE AND regs s W_IF"
  have a: "acks ?p s s'"
    using interrupt_pass_acks [OF assms(3)] by (rule acks_keeps(2) [OF keeps_view [OF keeps_entropy]])
  have m: "x AND NOT (y AND x) = x AND NOT y" "y AND (x AND NOT y) = 0" for x y :: u16
    by (rule bit_word_eqI, auto simp: bit_simps)+
  have r: "regs s' W_IE = regs s W_IE" "regs s' W_IF = regs s W_IF AND NOT (regs s W_IE)" "mp_inv s \<longrightarrow> mp_inv s'"
    using a unfolding acks_def m by blast+
  obtain k where k: "fuel = Suc (Suc k)" using assms(4) by (metis Suc_le_D numeral_2_eq_2 Suc_le_mono)
  have e: "interrupt_loop (Suc k) s' = Some s'" using r m(2) by (simp add: Let_def)
  have "interrupt_loop (Suc (Suc k)) ?t = Some s'"
  proof (cases "?p = 0")
    case True
    have "s' = ?t" using assms(3) unfolding True interrupt_pass_def on_irq_def by simp
    then show ?thesis using True by (simp add: Let_def)
  next
    case False
    then show ?thesis using assms(3) e by (subst interrupt_loop.simps) (simp add: Let_def)
  qed
  then show ?thesis using assms(1,2) r m(2) unfolding Wifi_Interrupt_def k by simp
qed

definition irq_ex :: arm7 where
  "irq_ex = set_reg W_IE 0x40B3 (set_reg W_IF 0x40C0
     (wd7_upd (\<lambda>w. w\<lparr>flags7 := WFLAG_ARM7_RUNNING\<rparr>) (arm7_zero\<lparr>WifiData_set7 := True\<rparr>)))"

theorem interrupt_handler_ends_witness:
  "\<exists>s'. Wifi_Interrupt 2 irq_ex = Some s' \<and> regs s' W_IF = 0x0040"
proof -
  have p: "\<exists>s'. interrupt_pass (regs irq_ex W_IE AND regs irq_ex W_IF) (wd7_upd (Wifi_RandomAddEntropy (ucast (regs irq_ex W_RANDOM))) irq_ex) = Some s'"
    by (simp add: irq_ex_def interrupt_pass_def on_irq_def ack_def)
  then obtain s' where s': "interrupt_pass (regs irq_ex W_IE AND regs irq_ex W_IF)
      (wd7_upd (Wifi_RandomAddEntropy (ucast (regs irq_ex W_RANDOM))) irq_ex) = Some s'" by blast
  have "WifiData_set7 irq_ex" "flags7 (wd7 irq_ex) AND WFLAG_ARM7_RUNNING \<noteq> 0"
      "regs irq_ex W_IF AND NOT (regs irq_ex W_IE) = 0x0040"
    by (simp_all add: irq_ex_def set_reg_def wd7_upd_def)
  then show ?thesis using interrupt_handler_ends [OF _ _ s', of 2] by auto
qed

end
