(* ===== verification/Ntr_Update.thy ===== *)
theory Ntr_Update
  imports Arm7_Control
begin

text \<open>
  The state machine of the DS driver (\<^verbatim>\<open>arm7/ntr/update.c\<close>), which the ARM7 runs once per frame:
  the light, the association with an access point and its retries, and one definition for each
  mode of the big switch of \<^verbatim>\<open>Wifi_NTR_Update\<close>. A call to \<^verbatim>\<open>libndsCrash\<close> gives
  \<open>None\<close>. The timer register is read several times by the code and taken to be the same during one
  update. The numbers of the blink modes belong to libnds and are the argument \<open>leds\<close>.
\<close>

section \<open>Light and association\<close>

datatype led_mode = LED_ALWAYS_ON | LED_BLINK_SLOW | LED_BLINK_FAST

type_synonym led_codes = "led_mode \<Rightarrow> nat"

definition WIFI_MAX_ASSOC_RETRY :: u8 where [simp]: "WIFI_MAX_ASSOC_RETRY = 5"
definition WIFI_KEEPALIVE_COUNT :: nat where [simp]: "WIFI_KEEPALIVE_COUNT = 60 * 60 * 2"

definition Wifi_SetLedState :: "nat \<Rightarrow> arm7 \<Rightarrow> arm7" where
  "Wifi_SetLedState state s =
     (if reqFlags (wd7 s) AND WFLAG_REQ_USELED \<noteq> 0 then
        if wifi_led_state s \<noteq> state then s\<lparr>wifi_led_state := state, led_blinks := led_blinks s @ [state]\<rparr> else s
      else s)"

definition Wifi_AssociationStart :: "arm7 \<Rightarrow> arm7 option" where
  "Wifi_AssociationStart s =
     ignore_result (Wifi_SendOpenSystemAuthPacket
       (wd7_upd (\<lambda>w. w\<lparr>authctr := 0, authlevel := WIFI_AUTHLEVEL_DISCONNECTED\<rparr>) s))"

definition Wifi_AssociationIsSuccess :: "arm7 \<Rightarrow> bool" where
  "Wifi_AssociationIsSuccess s \<longleftrightarrow> authlevel (wd7 s) = WIFI_AUTHLEVEL_ASSOCIATED"

definition Wifi_AssociationIsFailure :: "arm7 \<Rightarrow> bool" where
  "Wifi_AssociationIsFailure s \<longleftrightarrow> authlevel (wd7 s) = WIFI_AUTHLEVEL_ERROR"

definition Wifi_AssociationUpdate :: "arm7 \<Rightarrow> arm7 option" where
  "Wifi_AssociationUpdate s =
     (let s = wd7_upd (\<lambda>w. w\<lparr>authctr := authctr w + 1\<rparr>) s
      in if authctr (wd7 s) > WIFI_MAX_ASSOC_RETRY then Some (set_authlevel WIFI_AUTHLEVEL_ERROR s)
         else case authlevel (wd7 s) of
           WIFI_AUTHLEVEL_DEASSOCIATED \<Rightarrow>
             ignore_result (Wifi_SendOpenSystemAuthPacket
               (wd7_upd (\<lambda>w. w\<lparr>realRates := True, authlevel := WIFI_AUTHLEVEL_DISCONNECTED\<rparr>) s))
         | WIFI_AUTHLEVEL_AUTHENTICATED \<Rightarrow>
             ignore_result (Wifi_SendOpenSystemAuthPacket
               (wd7_upd (\<lambda>w. w\<lparr>realRates := True, authlevel := WIFI_AUTHLEVEL_DISCONNECTED\<rparr>) s))
         | WIFI_AUTHLEVEL_DISCONNECTED \<Rightarrow> ignore_result (Wifi_SendOpenSystemAuthPacket s)
         | WIFI_AUTHLEVEL_ASSOCIATED \<Rightarrow> Some s
         | WIFI_AUTHLEVEL_ERROR \<Rightarrow> Some s)"

section \<open>Modes\<close>

definition set_mode :: "WIFI_MODE \<Rightarrow> arm7 \<Rightarrow> arm7" where
  "set_mode m = wd7_upd (\<lambda>w. w\<lparr>curMode := m\<rparr>)"

definition timer7 :: "arm7 \<Rightarrow> u32" where
  "timer7 s = ucast (regs s W_US_COUNT1)"

definition elapsed7 :: "arm7 \<Rightarrow> u32" where
  "elapsed7 s = timer7 s - counter7 (wd7 s)"

definition library_changed :: "arm7 \<Rightarrow> bool" where
  "library_changed s \<longleftrightarrow> curLibraryMode (wd7 s) \<noteq> reqLibraryMode (wd7 s)"

definition go_idle :: "arm7 \<Rightarrow> arm7" where
  "go_idle s = set_mode WIFIMODE_NORMAL (Wifi_SetupFilterMode WIFI_FILTERMODE_IDLE s)"

definition update_disabled :: "led_codes \<Rightarrow> arm7 \<Rightarrow> arm7" where
  "update_disabled leds s =
     (let s = Wifi_SetLedState (leds LED_ALWAYS_ON) s
      in if reqMode (wd7 s) \<noteq> WIFIMODE_DISABLED then set_mode WIFIMODE_NORMAL (Wifi_NTR_Start s) else s)"

definition start_host :: "arm7 \<Rightarrow> arm7 option" where
  "start_host s =
     (let s = Wifi_NTR_SetAssociationID 0 s;
          s = set_reg W_TXSTATCNT (regs s W_TXSTATCNT OR TXSTATCNT_IRQ_MP_ACK) s;
          s = set_reg W_IE (regs s W_IE OR IRQ_MULTIPLAY_CMD_DONE) s;
          s = Wifi_NTR_SetupTransferOptions WIFI_TRANSFER_RATE_2MBPS True s;
          s = set_reg_mac W_BSSID (MacAddr (wd7 s)) s
      in do { s \<leftarrow> Wifi_MPHost_ResetClients s;
              let s = wd7_upd (\<lambda>w. w\<lparr>curMaxClients := reqMaxClients w, curCmdDataSize := reqCmdDataSize w,
                                     curReplyDataSize := reqReplyDataSize w\<rparr>) s;
                  s = Wifi_SetupFilterMode WIFI_FILTERMODE_MULTIPLAYER_HOST s
              in Some (set_mode WIFIMODE_ACCESSPOINT s) })"

definition start_scan :: "arm7 \<Rightarrow> arm7 option" where
  "start_scan s =
     do { w \<leftarrow> Wifi_AccessPointClearAll ((wd7 s)\<lparr>curApScanFlags := reqApScanFlags (wd7 s)\<rparr>);
          let s = s\<lparr>wd7 := w\<lparr>counter7 := timer7 s, curMode := WIFIMODE_SCAN\<rparr>\<rparr>;
              s = Wifi_SetupFilterMode WIFI_FILTERMODE_SCAN s
          in Some (s\<lparr>wifi_scan_index := 0\<rparr>) }"

text \<open>The settings stored by the console for the access point; \<open>None\<close> if there are none.\<close>

definition load_wfc_key :: "arm7 \<Rightarrow> arm7 option" where
  "load_wfc_key s =
     (if reqFlags (wd7 s) AND WFLAG_REQ_LOAD_WFC_KEY \<noteq> 0
      then map_option (\<lambda>index. wd7_upd (\<lambda>w. w\<lparr>curApSecurity := wfc_security (wfc w ! index)\<rparr>) s)
             (Wifi_GetWfcAccessPointIndex (ssid (curAp (wd7 s))) (unat (ssid_len (curAp (wd7 s)))) (wd7 s))
      else Some s)"

definition start_connection :: "arm7 \<Rightarrow> arm7 option" where
  "start_connection s =
     (let s = set_reg_mac W_BSSID (bssid (curAp (wd7 s))) s;
          wepmode = Wifi_WepModeFromKeySize (unat (pass_len (curApSecurity (wd7 s))));
          s = Wifi_NTR_SetWepKey (pass (curApSecurity (wd7 s))) wepmode s;
          s = Wifi_NTR_SetWepMode wepmode s;
          s = (if curLibraryMode (wd7 s) = DSWIFI_MULTIPLAYER_CLIENT
               then Wifi_SetupFilterMode WIFI_FILTERMODE_MULTIPLAYER_CLIENT
                      (wd7_upd (\<lambda>w. w\<lparr>curReplyDataSize := reqReplyDataSize w\<rparr>) s)
               else if curLibraryMode (wd7 s) = DSWIFI_INTERNET
               then Wifi_SetupFilterMode WIFI_FILTERMODE_INTERNET s
               else s);
          s = wd7_upd (\<lambda>w. w\<lparr>realRates := True, reqChannel := channel (curAp w)\<rparr>) s;
          s = Wifi_SetChannel7 (unat (channel (curAp (wd7 s)))) s;
          s = wd7_upd (\<lambda>w. w\<lparr>counter7 := timer7 s, curMode := WIFIMODE_CONNECTING\<rparr>) s
      in Wifi_AssociationStart s)"

definition update_normal :: "led_codes \<Rightarrow> arm7 \<Rightarrow> arm7 option" where
  "update_normal leds s =
     (let s = Wifi_SetLedState (leds LED_BLINK_SLOW) s;
          s = set_reg_mac W_BSSID [0, 0, 0, 0, 0, 0] s;
          s = wd7_upd (\<lambda>w. w\<lparr>curLibraryMode := reqLibraryMode w\<rparr>) s
      in if reqMode (wd7 s) = WIFIMODE_DISABLED then Some (set_mode WIFIMODE_DISABLED (Wifi_NTR_Stop s))
         else if reqMode (wd7 s) = WIFIMODE_ACCESSPOINT then start_host s
         else if reqMode (wd7 s) = WIFIMODE_SCAN then start_scan s
         else if reqMode (wd7 s) = WIFIMODE_CONNECTED then
           (case load_wfc_key s of
              None \<Rightarrow> Some (set_mode WIFIMODE_CANNOTCONNECT s)
            | Some s \<Rightarrow> start_connection s)
         else Some s)"

definition scanlist :: "nat list" where
  "scanlist = [1, 6, 11, 7, 13, 2, 3, 4, 5, 8, 9, 10, 12]"

text \<open>The static index is below the length of the list in every reachable state; reading past it is \<open>None\<close>.\<close>

definition scan_next :: "arm7 \<Rightarrow> arm7 option" where
  "scan_next s =
     (if wifi_scan_index s < length scanlist then
        let chan = scanlist ! wifi_scan_index s;
            s = wd7_upd (\<lambda>w. w\<lparr>counter7 := timer7 s, reqChannel := of_nat chan\<rparr>) s;
            s = Wifi_SetChannel7 (unat (reqChannel (wd7 s))) s;
            s = wd7_upd Wifi_AccessPointTick s;
            i = wifi_scan_index s + 1
        in Some (s\<lparr>wifi_scan_index := if i = length scanlist then 0 else i\<rparr>)
      else None)"

definition update_scan :: "led_codes \<Rightarrow> arm7 \<Rightarrow> arm7 option" where
  "update_scan leds s =
     (let s = Wifi_SetLedState (leds LED_BLINK_SLOW) s
      in if reqMode (wd7 s) \<noteq> WIFIMODE_SCAN \<or> library_changed s then Some (go_idle s)
         else if elapsed7 s > 1 then scan_next s
         else Some s)"

definition update_connecting :: "led_codes \<Rightarrow> arm7 \<Rightarrow> arm7 option" where
  "update_connecting leds s =
     (let s = Wifi_SetLedState (leds LED_BLINK_SLOW) s
      in if library_changed s then Some (go_idle s)
         else if reqMode (wd7 s) \<noteq> WIFIMODE_CONNECTED then Some (go_idle s)
         else if Wifi_AssociationIsSuccess s then Some (set_mode WIFIMODE_CONNECTED s)
         else if Wifi_AssociationIsFailure s then Some (set_mode WIFIMODE_CANNOTCONNECT s)
         else if elapsed7 s > 20 then Wifi_AssociationUpdate (wd7_upd (\<lambda>w. w\<lparr>counter7 := timer7 s\<rparr>) s)
         else Some s)"

definition keepalive :: "arm7 \<Rightarrow> arm7 option" where
  "keepalive s =
     (let s = s\<lparr>wifi_keepalive_time := wifi_keepalive_time s + 1\<rparr>
      in if wifi_keepalive_time s > WIFI_KEEPALIVE_COUNT
         then ignore_result (Wifi_SendNullFrame (Wifi_NTR_KeepaliveCountReset s))
         else Some s)"

definition update_connected :: "led_codes \<Rightarrow> arm7 \<Rightarrow> arm7 option" where
  "update_connected leds s =
     (let s = Wifi_SetLedState (leds LED_BLINK_FAST) s
      in if library_changed s then Some (go_idle s)
         else do {
           s \<leftarrow> keepalive s;
           if reqMode (wd7 s) \<noteq> WIFIMODE_CONNECTED then
             do { s \<leftarrow> ignore_result (Wifi_SendDeauthentication REASON_THIS_STATION_LEFT_DEAUTH s);
                  Some (go_idle (Wifi_NTR_SetAssociationID 0 s)) }
           else if Wifi_AssociationIsFailure s then Some (set_mode WIFIMODE_CANNOTCONNECT s)
           else Some s })"

definition update_cannotconnect :: "led_codes \<Rightarrow> arm7 \<Rightarrow> arm7" where
  "update_cannotconnect leds s =
     (let s = Wifi_SetLedState (leds LED_BLINK_SLOW) s
      in if library_changed s then go_idle s
         else if reqMode (wd7 s) \<noteq> WIFIMODE_CONNECTED then go_idle s
         else s)"

definition stop_host :: "arm7 \<Rightarrow> arm7 option" where
  "stop_host s =
     do { s \<leftarrow> Wifi_MPHost_ClientKickAll s;
          let s = Wifi_BeaconStop s;
              s = Wifi_NTR_SetupTransferOptions WIFI_TRANSFER_RATE_1MBPS False s;
              s = Wifi_SetupFilterMode WIFI_FILTERMODE_IDLE s;
              s = set_reg W_TXSTATCNT (regs s W_TXSTATCNT AND NOT TXSTATCNT_IRQ_MP_ACK) s;
              s = set_reg W_IE (regs s W_IE AND NOT IRQ_MULTIPLAY_CMD_DONE) s
          in Some (set_mode WIFIMODE_NORMAL s) }"

fun kick_aids :: "u16 \<Rightarrow> nat list \<Rightarrow> arm7 \<Rightarrow> arm7 option" where
  "kick_aids aids [] s = Some s"
| "kick_aids aids (aid # rest) s =
     do { s \<leftarrow> (if aids AND BIT aid \<noteq> 0 then Wifi_MPHost_KickByAID aid s else Some s);
          kick_aids aids rest s }"

definition kick_requested :: "arm7 \<Rightarrow> arm7 option" where
  "kick_requested s =
     (let aids = ucast (reqKickClientAIDMask (clients (wd7 s))) :: u16
      in if aids \<noteq> 0
         then kick_aids aids [1..<16] (clients_upd7 (\<lambda>c. c\<lparr>reqKickClientAIDMask := 0\<rparr>) s)
         else Some s)"

definition update_allow :: "arm7 \<Rightarrow> arm7 option" where
  "update_allow s =
     (let cur_allow = (Wifi_GetBeaconAllowsConnections s \<noteq> 0);
          req_allow = (reqFlags (wd7 s) AND WFLAG_REQ_ALLOWCLIENTS \<noteq> 0)
      in if cur_allow \<noteq> req_allow then
           if req_allow then Some (Wifi_SetBeaconAllowsConnections 1 s)
           else Wifi_MPHost_KickNotAssociatedClients (Wifi_SetBeaconAllowsConnections 0 s)
         else Some s)"

definition update_accesspoint :: "led_codes \<Rightarrow> arm7 \<Rightarrow> arm7 option" where
  "update_accesspoint leds s =
     (let s = Wifi_SetLedState (leds LED_BLINK_FAST) s
      in if reqMode (wd7 s) \<noteq> WIFIMODE_ACCESSPOINT \<or> library_changed s then stop_host s
         else do { s \<leftarrow> kick_requested s; update_allow s })"

definition update_mode :: "led_codes \<Rightarrow> arm7 \<Rightarrow> arm7 option" where
  "update_mode leds s =
     (case curMode (wd7 s) of
        WIFIMODE_DISABLED \<Rightarrow> Some (update_disabled leds s)
      | WIFIMODE_NORMAL \<Rightarrow> update_normal leds s
      | WIFIMODE_SCAN \<Rightarrow> update_scan leds s
      | WIFIMODE_CONNECTING \<Rightarrow> update_connecting leds s
      | WIFIMODE_CONNECTED \<Rightarrow> update_connected leds s
      | WIFIMODE_CANNOTCONNECT \<Rightarrow> Some (update_cannotconnect leds s)
      | WIFIMODE_ACCESSPOINT \<Rightarrow> update_accesspoint leds s
      | WIFIMODE_DISCONNECTING \<Rightarrow> None
      | WIFIMODE_INITIALIZING \<Rightarrow> None)"

definition update_channel :: "arm7 \<Rightarrow> arm7" where
  "update_channel s =
     (if curMode (wd7 s) \<noteq> WIFIMODE_SCAN \<and> curChannel (wd7 s) \<noteq> reqChannel (wd7 s)
      then Wifi_SetChannel7 (unat (reqChannel (wd7 s))) s else s)"

definition Wifi_NTR_Update :: "led_codes \<Rightarrow> arm7 \<Rightarrow> arm7 option" where
  "Wifi_NTR_Update leds s =
     (if \<not> WifiData_set7 s then Some s
      else if flags7 (wd7 s) AND WFLAG_ARM7_ACTIVE = 0 then Some s
      else
        let s = wd7_upd (\<lambda>w. stat_add WSTAT_ARM7_UPDATES 1 (Wifi_RandomAddEntropy (ucast (regs s W_RANDOM)) w)) s
        in do { s \<leftarrow> update_mode leds s;
                s \<leftarrow> Wifi_RxQueueFlush (update_channel s);
                Wifi_TxAllQueueFlush s })"

section \<open>What the helpers leave alone\<close>

text \<open>The frame relation of the senders also describes the hardware configuration: such a step changes neither the
  shared structure, as far as the state machine uses it, nor the cursors of the RX ring.\<close>

interpretation sent: frame_relation sent7
  by unfold_locales (auto intro: sent7_trans)

named_theorems sent7_intros "steps that the frame relation of the senders allows"

lemma sent7_set_reg [sent7_intros]: "sent7 s t \<Longrightarrow> r \<notin> set kept_regs \<Longrightarrow> sent7 s (set_reg r v t)"
  by (simp add: sent7_def kept_regs_def set_reg_def)

lemma sent7_set_mac [sent7_intros]: "sent7 s t \<Longrightarrow> sent7 s (set_mac a v t)"
  by (simp add: sent7_def set_mac_def)

lemma sent7_MacWriteByte [sent7_intros]: "sent7 s t \<Longrightarrow> sent7 s (Wifi_MacWriteByte a v t)"
  by (simp add: sent7_def Wifi_MacWriteByte_def set_mac_def Let_def)

lemma sent7_fold [sent7_intros]: "sent7 s t \<Longrightarrow> (\<And>x u. sent7 u (f x u)) \<Longrightarrow> sent7 s (fold f xs t)"
  by (erule sent7_trans) (rule sent.keep_fold)

lemma kept_regs_not [simp]:
  "W_BB_CNT \<notin> set kept_regs" "W_BB_WRITE \<notin> set kept_regs" "W_RF_DATA1 \<notin> set kept_regs" "W_RF_DATA2 \<notin> set kept_regs"
  "W_BSSID \<notin> set kept_regs" "W_RXFILTER \<notin> set kept_regs" "W_RXFILTER2 \<notin> set kept_regs"
  by (simp_all add: kept_regs_def)

lemma sent7_RFWrite [sent7_intros]: "sent7 s t \<Longrightarrow> sent7 s (Wifi_RFWrite v t)"
  by (simp add: sent7_def kept_regs_def set_reg_def Wifi_RFWrite_def)

lemma sent7_BBWrite [sent7_intros]: "sent7 s t \<Longrightarrow> sent7 s (Wifi_BBWrite a v t)"
  by (simp add: sent7_def kept_regs_def set_reg_def Wifi_BBWrite_def)

lemma sent7_bb_channel [sent7_intros]: "sent7 s t \<Longrightarrow> sent7 s (bb_channel n c a t)"
  by (induction n c a t rule: bb_channel.induct) (auto intro: sent7_intros)

lemma sent7_rf_channel [sent7_intros]: "sent7 s t \<Longrightarrow> sent7 s (rf_channel n c a t)"
  by (induction n c a t rule: rf_channel.induct) (auto simp: Wifi_RFWriteType3_def intro: sent7_intros)

lemma sent7_set_channel_type [sent7_intros]:
  "sent7 s t \<Longrightarrow> sent7 s (set_channel_type2 c t)" "sent7 s t \<Longrightarrow> sent7 s (set_channel_type3 c t)"
  by (auto simp: set_channel_type2_def set_channel_type3_def Let_def Wifi_RFWriteType2_def Wifi_RFWriteType3_def
    intro!: sent7_intros)

lemma sent7_SetupFilterMode [sent7_intros]: "sent7 s t \<Longrightarrow> sent7 s (Wifi_SetupFilterMode m t)"
  by (auto simp: Wifi_SetupFilterMode_def Wifi_TWL_SetupFilterMode_def Wifi_NTR_SetupFilterMode_def kept_regs_def
    intro!: sent7_set_reg split: Wifi_FilterMode.splits)

lemma sent7_set_BSSID [sent7_intros]: "sent7 s t \<Longrightarrow> sent7 s (set_reg_mac W_BSSID m t)"
  by (auto simp: set_reg_mac_def kept_regs_def intro!: sent7_set_reg)

lemma sent7_SetWepKey [sent7_intros]: "sent7 s t \<Longrightarrow> sent7 s (Wifi_NTR_SetWepKey k m t)"
  by (auto simp: Wifi_NTR_SetWepKey_def Let_def wep_store_def intro!: sent7_fold sent7_set_mac)

lemma sent7_SetWepMode [sent7_intros]: "sent7 s t \<Longrightarrow> sent7 s (Wifi_NTR_SetWepMode m t)"
  by (auto simp: Wifi_NTR_SetWepMode_def Let_def kept_regs_def intro!: sent7_set_reg)

lemma sent7_SetupTransferOptions [sent7_intros]: "sent7 s t \<Longrightarrow> sent7 s (Wifi_NTR_SetupTransferOptions r p t)"
  by (simp add: sent7_def kept_regs_def Wifi_NTR_SetupTransferOptions_def Let_def set_reg_def wd7_upd_def)

lemma sent7_BeaconStop [sent7_intros]: "sent7 s t \<Longrightarrow> sent7 s (Wifi_BeaconStop t)"
  by (auto simp: Wifi_BeaconStop_def kept_regs_def intro!: sent7_set_reg)

lemma sent7_beacon_bytes [sent7_intros]:
  "sent7 s t \<Longrightarrow> sent7 s (Wifi_SetBeaconChannel c t)" "sent7 s t \<Longrightarrow> sent7 s (Wifi_SetBeaconAllowsConnections a t)"
  by (auto simp: Wifi_SetBeaconChannel_def Wifi_SetBeaconAllowsConnections_def intro: sent7_intros)

lemma sent7_SetLedState [sent7_intros]: "sent7 s t \<Longrightarrow> sent7 s (Wifi_SetLedState l t)"
  by (simp add: sent7_def Wifi_SetLedState_def)

lemma sent7_wd7_upd [sent7_intros]:
  "sent7 s t \<Longrightarrow> sent7 s (wd7_upd (\<lambda>w. stat_add k n (Wifi_RandomAddEntropy v w)) t)"
  "sent7 s t \<Longrightarrow> sent7 s (wd7_upd (\<lambda>w. w\<lparr>curReplyDataSize := f w\<rparr>) t)"
  by (simp_all add: sent7_def wd7_upd_def stat_add_def Wifi_RandomAddEntropy_def Let_def)

lemma sent7_SetChannel:
  "sent7 (if 1 \<le> c \<and> c \<le> 13 then wd7_upd (curChannel_update (\<lambda>_. of_nat c)) s else s) (Wifi_SetChannel7 c s)"
proof (cases "1 \<le> c \<and> c \<le> 13")
  case True
  define t where "t = (let s = Wifi_SetBeaconChannel (of_nat c) s; chip = Wifi_FlashReadByte F_RF_CHIP_TYPE s
    in if chip = 2 \<or> chip = 5 then set_channel_type2 c s else if chip = 3 then set_channel_type3 c s else s)"
  have "sent7 s t"
    unfolding t_def Let_def
    by (auto intro!: sent7_set_channel_type sent7_beacon_bytes)
  then have "sent7 (wd7_upd (curChannel_update (\<lambda>_. of_nat c)) s) (wd7_upd (curChannel_update (\<lambda>_. of_nat c)) t)"
    by (simp add: sent7_def wd7_upd_def)
  then show ?thesis using True by (simp add: Wifi_SetChannel7_def t_def Let_def)
qed (auto simp: Wifi_SetChannel7_def)

text \<open>Changes of single fields commute with such steps.\<close>

lemma sent7_set_mode: "sent7 s t \<Longrightarrow> sent7 (set_mode m s) (set_mode m t)"
  by (simp add: sent7_def set_mode_def wd7_upd_def)

lemma sent7_go_idle: "sent7 (set_mode WIFIMODE_NORMAL s) (go_idle s)"
  unfolding go_idle_def by (intro sent7_set_mode sent7_SetupFilterMode sent7_refl)

lemma sent7_senders:
  "ignore_result (Wifi_SendOpenSystemAuthPacket s) \<noteq> None" "ignore_result (Wifi_SendDeauthentication rc s) \<noteq> None"
  "ignore_result (Wifi_SendOpenSystemAuthPacket s) = Some u \<Longrightarrow> sent7 s u"
  "ignore_result (Wifi_SendDeauthentication rc s) = Some u \<Longrightarrow> sent7 s u"
  using station_senders_ok(1) [of s] station_senders_ok(3) [of rc s] by auto

end
