(* ===== verification/Ntr_Modes.thy ===== *)
theory Ntr_Modes
  imports Ntr_Update
begin

text \<open>
  The properties of the state machine of the DS driver. The abstract view is the table of modes
  \<open>next_mode\<close>; while nothing is received and nothing waits to be sent, an update refines it and never
  fails. From it follow the behaviour of sequences of updates: a requested mode is reached, a
  connection without answers is given up, and a scan visits every channel. With traffic, the table of
  clients of a host keeps its invariant.
\<close>

section \<open>Modes follow the requests\<close>

text \<open>The mode after an update, from the mode before it and the requests.\<close>

definition next_mode :: "arm7 \<Rightarrow> WIFI_MODE" where
  "next_mode s =
     (let req = reqMode (wd7 s) in
      case curMode (wd7 s) of
        WIFIMODE_DISABLED \<Rightarrow> if req = WIFIMODE_DISABLED then WIFIMODE_DISABLED else WIFIMODE_NORMAL
      | WIFIMODE_NORMAL \<Rightarrow>
          if req = WIFIMODE_CONNECTED then if load_wfc_key s = None then WIFIMODE_CANNOTCONNECT else WIFIMODE_CONNECTING
          else if req \<in> {WIFIMODE_DISABLED, WIFIMODE_ACCESSPOINT, WIFIMODE_SCAN} then req
          else WIFIMODE_NORMAL
      | WIFIMODE_CONNECTING \<Rightarrow>
          if req \<noteq> WIFIMODE_CONNECTED \<or> library_changed s then WIFIMODE_NORMAL
          else if Wifi_AssociationIsSuccess s then WIFIMODE_CONNECTED
          else if Wifi_AssociationIsFailure s then WIFIMODE_CANNOTCONNECT
          else WIFIMODE_CONNECTING
      | WIFIMODE_CONNECTED \<Rightarrow>
          if req \<noteq> WIFIMODE_CONNECTED \<or> library_changed s then WIFIMODE_NORMAL
          else if Wifi_AssociationIsFailure s then WIFIMODE_CANNOTCONNECT
          else WIFIMODE_CONNECTED
      | WIFIMODE_CANNOTCONNECT \<Rightarrow>
          if req \<noteq> WIFIMODE_CONNECTED \<or> library_changed s then WIFIMODE_NORMAL else WIFIMODE_CANNOTCONNECT
      | mode \<Rightarrow> if req \<noteq> mode \<or> library_changed s then WIFIMODE_NORMAL else mode)"

text \<open>The library mode is taken over only in the idle mode.\<close>

definition next_library :: "arm7 \<Rightarrow> DSWifi_Mode" where
  "next_library s = (if curMode (wd7 s) = WIFIMODE_NORMAL then reqLibraryMode (wd7 s) else curLibraryMode (wd7 s))"

text \<open>Nothing is waiting in the RX ring and in the TX buffer, and no lock is held.\<close>

definition quiet :: "arm7 \<Rightarrow> bool" where
  "quiet s \<longleftrightarrow> WifiData_set7 s \<and> flags7 (wd7 s) AND WFLAG_ARM7_ACTIVE \<noteq> 0 \<and>
     regs s W_RXBUF_WRCSR = regs s W_RXBUF_READCSR \<and> read_u32 (tx_data7 s) (unat (bufRead (txbuf (wd7 s)))) = 0 \<and>
     curMode (wd7 s) \<notin> {WIFIMODE_INITIALIZING, WIFIMODE_DISCONNECTING} \<and>
     unat (reqMaxClients (wd7 s)) \<le> WIFI_MAX_MULTIPLAYER_CLIENTS \<and> wifi_scan_index s < length scanlist \<and>
     (\<forall>ap \<in> set (aplist (wd7 s)). ap_spinlock ap = 0) \<and> clients_spinlock (clients (wd7 s)) = 0 \<and>
     (curMode (wd7 s) = WIFIMODE_ACCESSPOINT \<longrightarrow> mp_inv s)"

definition same_requests :: "arm7 \<Rightarrow> arm7 \<Rightarrow> bool" where
  "same_requests s t \<longleftrightarrow> reqMode (wd7 t) = reqMode (wd7 s) \<and> reqLibraryMode (wd7 t) = reqLibraryMode (wd7 s) \<and>
     reqFlags (wd7 t) = reqFlags (wd7 s) \<and> reqMaxClients (wd7 t) = reqMaxClients (wd7 s)"

interpretation req: frame_relation same_requests
  by unfold_locales (auto simp: same_requests_def)

lemma sent7_same_requests: "sent7 s t \<Longrightarrow> same_requests s t"
  by (simp add: sent7_def same_requests_def)

lemma quiet_sent7:
  assumes "sent7 s t"
  shows "quiet t = quiet s"
proof -
  have "mp_inv t = mp_inv s" using assms by (simp add: sent7_def mp_inv_at_def)
  then show ?thesis using assms by (simp add: sent7_def quiet_def kept_regs_def tx_data7_def)
qed

lemma next_mode_sent7:
  assumes "sent7 s t"
  shows "next_mode t = next_mode s" "library_changed t = library_changed s"
    "Wifi_AssociationIsSuccess t = Wifi_AssociationIsSuccess s" "Wifi_AssociationIsFailure t = Wifi_AssociationIsFailure s"
    "elapsed7 t = elapsed7 s" "curMode (wd7 t) = curMode (wd7 s)" "next_library t = next_library s"
    "curLibraryMode (wd7 t) = curLibraryMode (wd7 s)"
proof -
  have w: "load_wfc_key t = None \<longleftrightarrow> load_wfc_key s = None"
    using assms by (simp add: load_wfc_key_def Wifi_GetWfcAccessPointIndex_def sent7_def)
  show l: "library_changed t = library_changed s" "Wifi_AssociationIsSuccess t = Wifi_AssociationIsSuccess s"
      "Wifi_AssociationIsFailure t = Wifi_AssociationIsFailure s" "curMode (wd7 t) = curMode (wd7 s)" "elapsed7 t = elapsed7 s"
    using assms by (simp_all add: library_changed_def Wifi_AssociationIsSuccess_def Wifi_AssociationIsFailure_def sent7_def
      elapsed7_def timer7_def kept_regs_def)
  have r: "reqMode (wd7 t) = reqMode (wd7 s)" using assms by (simp add: sent7_def)
  show "next_mode t = next_mode s" unfolding next_mode_def r w l ..
  show "next_library t = next_library s" "curLibraryMode (wd7 t) = curLibraryMode (wd7 s)"
    using assms by (simp_all add: next_library_def sent7_def)
qed

text \<open>An update without traffic: the step of the mode, and nothing else that matters.\<close>

definition quiet_step :: "arm7 \<Rightarrow> arm7 \<Rightarrow> bool" where
  "quiet_step s t \<longleftrightarrow> quiet t \<and> same_requests s t \<and> curMode (wd7 t) = next_mode s \<and> curLibraryMode (wd7 t) = next_library s"

lemma quiet_step_sent7: "sent7 s s' \<Longrightarrow> quiet_step s' t \<Longrightarrow> sent7 t t' \<Longrightarrow> quiet_step s t'"
  using next_mode_sent7(1,7) [of s s'] quiet_sent7 [of t t'] next_mode_sent7(6,8) [of t t']
    sent7_same_requests [of s s'] sent7_same_requests [of t t'] req.keep_trans
  unfolding quiet_step_def by metis

lemma quiet_set_mode:
  "quiet s \<Longrightarrow> m \<notin> {WIFIMODE_INITIALIZING, WIFIMODE_DISCONNECTING, WIFIMODE_ACCESSPOINT} \<Longrightarrow> quiet (set_mode m s)"
  "same_requests s (set_mode m s)" "curMode (wd7 (set_mode m s)) = m" "curLibraryMode (wd7 (set_mode m s)) = curLibraryMode (wd7 s)"
  by (simp_all add: quiet_def same_requests_def set_mode_def wd7_upd_def tx_data7_def)

lemma quiet_go_idle:
  assumes "quiet s" "next_mode s = WIFIMODE_NORMAL" "curMode (wd7 s) \<noteq> WIFIMODE_NORMAL"
  shows "quiet_step s (go_idle s)"
proof (rule quiet_step_sent7 [OF sent7_refl _ sent7_go_idle])
  show "quiet_step s (set_mode WIFIMODE_NORMAL s)" using assms quiet_set_mode by (simp add: quiet_step_def next_library_def)
qed

lemma quiet_step_mode:
  assumes "quiet s" "next_mode s = m" "m \<notin> {WIFIMODE_INITIALIZING, WIFIMODE_DISCONNECTING, WIFIMODE_ACCESSPOINT}"
    "curLibraryMode (wd7 s) = next_library s"
  shows "quiet_step s (set_mode m s)"
  using assms quiet_set_mode by (simp add: quiet_step_def)

lemma RxSetup_cursors: "regs (Wifi_NTR_RxSetup s) W_RXBUF_READCSR = regs (Wifi_NTR_RxSetup s) W_RXBUF_WRCSR"
  using RxSetup_simps [of s] by simp

lemma statics_simps [simp]:
  "wifi_scan_index (set_reg r v s) = wifi_scan_index s" "WifiData_set7 (set_reg r v s) = WifiData_set7 s"
  "wifi_scan_index (wd7_upd f s) = wifi_scan_index s" "WifiData_set7 (wd7_upd f s) = WifiData_set7 s"
  by (simp_all add: set_reg_def wd7_upd_def)

lemma NTR_Start_effect:
  "regs (Wifi_NTR_Start s) W_RXBUF_WRCSR = regs (Wifi_NTR_Start s) W_RXBUF_READCSR"
  "wd7 (Wifi_NTR_Start s) = (wd7 s)\<lparr>flags7 := flags7 (wd7 (Wifi_NTR_Start s)),
     clients := (clients (wd7 s))\<lparr>curClientAID := 0\<rparr>\<rparr>"
  "flags7 (wd7 (Wifi_NTR_Start s)) AND WFLAG_ARM7_ACTIVE = flags7 (wd7 s) AND WFLAG_ARM7_ACTIVE"
  "wifi_scan_index (Wifi_NTR_Start s) = wifi_scan_index s" "WifiData_set7 (Wifi_NTR_Start s) = WifiData_set7 s"
proof -
  note defs = Wifi_NTR_Start_def Wifi_Stop7_def Wifi_NTR_Stop_def Wifi_TWL_Stop_def Wifi_NTR_SetAssociationID_def
    set_reg_mac_def Wifi_NTR_TxSetup_def ack_W_IF_def Wifi_SetupFilterMode_def
    Wifi_NTR_SetupFilterMode_def Wifi_NTR_DisableTempPowerSave_def Wifi_TWL_SetupFilterMode_def
    Wifi_NTR_RxSetup_def set_W_RXCNT_def
  show "regs (Wifi_NTR_Start s) W_RXBUF_WRCSR = regs (Wifi_NTR_Start s) W_RXBUF_READCSR"
    by (simp add: defs Let_def)
  show "wd7 (Wifi_NTR_Start s) = (wd7 s)\<lparr>flags7 := flags7 (wd7 (Wifi_NTR_Start s)),
     clients := (clients (wd7 s))\<lparr>curClientAID := 0\<rparr>\<rparr>"
    by (simp add: defs Let_def)
  have "((x AND - 3) OR 2) AND 1 = x AND (1 :: u32)" "(x OR 2) AND 1 = x AND (1 :: u32)" for x
    by (simp_all only: bit.conj_disj_distrib2 and.assoc) simp_all
  then show "flags7 (wd7 (Wifi_NTR_Start s)) AND WFLAG_ARM7_ACTIVE = flags7 (wd7 s) AND WFLAG_ARM7_ACTIVE"
    by (simp add: defs Let_def)
  show "wifi_scan_index (Wifi_NTR_Start s) = wifi_scan_index s" "WifiData_set7 (Wifi_NTR_Start s) = WifiData_set7 s"
    by (simp_all add: defs Let_def)
qed

lemma quiet_disabled:
  assumes "quiet s" "curMode (wd7 s) = WIFIMODE_DISABLED"
  shows "quiet_step s (update_disabled leds s)"
proof -
  let ?s = "Wifi_SetLedState (leds LED_ALWAYS_ON) s"
  have led: "sent7 s ?s" by (intro sent7_intros sent7_refl)
  have q: "quiet ?s" "curMode (wd7 ?s) = WIFIMODE_DISABLED" "reqMode (wd7 ?s) = reqMode (wd7 s)"
    using assms quiet_sent7 [OF led] led by (simp_all add: sent7_def)
  show ?thesis
  proof (cases "reqMode (wd7 s) = WIFIMODE_DISABLED")
    case True
    then have "quiet_step ?s ?s" using q by (simp add: quiet_step_def req.keep_refl next_mode_def next_library_def)
    then show ?thesis using True q quiet_step_sent7 [OF led _ sent7_refl] by (simp add: update_disabled_def Let_def)
  next
    case False
    let ?t = "set_mode WIFIMODE_NORMAL (Wifi_NTR_Start ?s)"
    note e = NTR_Start_effect [of ?s]
    have w: "wd7 ?t = (wd7 ?s)\<lparr>flags7 := flags7 (wd7 (Wifi_NTR_Start ?s)), clients := (clients (wd7 ?s))\<lparr>curClientAID := 0\<rparr>,
        curMode := WIFIMODE_NORMAL\<rparr>"
      using e(2) by (simp add: set_mode_def wd7_upd_def)
    have "quiet ?t" using q e(1,3-5) w unfolding quiet_def tx_data7_def
      by (simp add: set_mode_def)
    moreover have "same_requests ?s ?t" "curMode (wd7 ?t) = next_mode ?s" "curLibraryMode (wd7 ?t) = next_library ?s"
      using w q False by (simp_all add: same_requests_def next_mode_def next_library_def)
    ultimately have "quiet_step ?s ?t" by (simp add: quiet_step_def)
    then show ?thesis using False q quiet_step_sent7 [OF led _ sent7_refl] by (simp add: update_disabled_def Let_def)
  qed
qed

lemma ResetClients_effect:
  assumes "clients_spinlock (clients (wd7 s)) = 0"
  shows "\<exists>t. Wifi_MPHost_ResetClients s = Some t \<and> regs t = regs s \<and> wifi_scan_index t = wifi_scan_index s \<and>
    WifiData_set7 t = WifiData_set7 s \<and>
    wd7 t = (wd7 s)\<lparr>clients := (clients (wd7 s))\<lparr>client_list := replicate 15 zero_client, num_connected := 0, aid_mask := BIT 0\<rparr>\<rparr>"
proof -
  have "regs (players_changed u) = regs u \<and> wifi_scan_index (players_changed u) = wifi_scan_index u \<and>
      WifiData_set7 (players_changed u) = WifiData_set7 u \<and> wd7 (players_changed u) = wd7 u" for u
    by (simp add: players_changed_def Wifi_SetBeaconCurrentPlayers_def Wifi_MacWriteByte_def set_mac_def Let_def)
  then show ?thesis using assms
    by (simp add: Wifi_MPHost_ResetClients_def lock_clients7_def unlock_clients7_def clients_upd7_def Let_def)
qed

lemma mp_ok_empty:
  assumes "mx \<le> 15"
  shows "mp_ok (c\<lparr>client_list := replicate 15 zero_client, num_connected := 0, aid_mask := BIT 0\<rparr>) mx"
proof -
  have "entry_ok mx (BIT 0) i zero_client" for i
    by (simp add: entry_ok_def connected7_def zero_client_def bit_BIT)
  then show ?thesis using assms by (simp add: mp_ok_def connected7_def zero_client_def)
qed

lemma quiet_start_host:
  assumes "quiet s" "next_mode s = WIFIMODE_ACCESSPOINT" "curLibraryMode (wd7 s) = next_library s"
  shows "\<exists>t. start_host s = Some t \<and> quiet_step s t \<and> mp_inv t \<and> num_connected (clients (wd7 t)) = 0"
proof -
  define a where "a = set_reg_mac W_BSSID (MacAddr (wd7 s)) (Wifi_NTR_SetupTransferOptions WIFI_TRANSFER_RATE_2MBPS True
    (set_reg W_IE (regs s W_IE OR IRQ_MULTIPLAY_CMD_DONE) (set_reg W_TXSTATCNT (regs s W_TXSTATCNT OR TXSTATCNT_IRQ_MP_ACK)
      (Wifi_NTR_SetAssociationID 0 s))))"
  obtain mr where mr: "wd7 a = (wd7 s)\<lparr>clients := (clients (wd7 s))\<lparr>curClientAID := 0\<rparr>, maxrate7 := mr\<rparr>"
    by (simp add: a_def set_reg_mac_def Wifi_NTR_SetupTransferOptions_def Wifi_NTR_SetAssociationID_def Let_def)
  have a: "wd7 a = (wd7 s)\<lparr>clients := (clients (wd7 s))\<lparr>curClientAID := 0\<rparr>, maxrate7 := mr\<rparr>"
      "wifi_scan_index a = wifi_scan_index s" "WifiData_set7 a = WifiData_set7 s"
      "regs a W_RXBUF_WRCSR = regs s W_RXBUF_WRCSR" "regs a W_RXBUF_READCSR = regs s W_RXBUF_READCSR"
    using mr by (simp_all add: a_def set_reg_mac_def Wifi_NTR_SetupTransferOptions_def Wifi_NTR_SetAssociationID_def Let_def)
  have "clients_spinlock (clients (wd7 a)) = 0" using assms(1) a(1) by (simp add: quiet_def)
  from ResetClients_effect [OF this] obtain b where b: "Wifi_MPHost_ResetClients a = Some b" "regs b = regs a"
      "wifi_scan_index b = wifi_scan_index a" "WifiData_set7 b = WifiData_set7 a"
      "wd7 b = (wd7 a)\<lparr>clients := (clients (wd7 a))\<lparr>client_list := replicate 15 zero_client, num_connected := 0, aid_mask := BIT 0\<rparr>\<rparr>"
    by blast
  define c where "c = wd7_upd (\<lambda>w. w\<lparr>curMaxClients := reqMaxClients w, curCmdDataSize := reqCmdDataSize w,
    curReplyDataSize := reqReplyDataSize w\<rparr>) b"
  let ?t = "set_mode WIFIMODE_ACCESSPOINT (Wifi_SetupFilterMode WIFI_FILTERMODE_MULTIPLAYER_HOST c)"
  have t: "start_host s = Some ?t"
    using b(1) unfolding start_host_def Let_def a_def c_def by (simp add: Wifi_NTR_SetupTransferOptions_def
      Wifi_NTR_SetAssociationID_def Let_def set_reg_mac_def)
  have ct: "sent7 (set_mode WIFIMODE_ACCESSPOINT c) ?t" by (intro sent7_set_mode sent7_SetupFilterMode sent7_refl)
  have cl: "mp_ok (clients (wd7 c)) (unat (curMaxClients (wd7 c)))" "clients_spinlock (clients (wd7 c)) = 0"
    using b(5) a(1) assms(1) mp_ok_empty [of "unat (reqMaxClients (wd7 s))"] by (simp_all add: c_def quiet_def)
  have q: "quiet_step s (set_mode WIFIMODE_ACCESSPOINT c)"
    using assms a b cl by (simp add: quiet_step_def quiet_def same_requests_def set_mode_def c_def tx_data7_def mp_inv_at_def)
  have "num_connected (clients (wd7 c)) = 0" using b(5) by (simp add: c_def)
  then have "mp_inv ?t \<and> num_connected (clients (wd7 ?t)) = 0"
    using ct cl by (simp add: sent7_def mp_inv_at_def set_mode_def)
  then show ?thesis using t quiet_step_sent7 [OF sent7_refl q ct] by blast
qed

lemma ap_clear_list_free:
  "\<forall>ap \<in> set aps. ap_spinlock ap = 0 \<Longrightarrow> \<exists>aps'. ap_clear_list aps = Some aps' \<and> (\<forall>ap \<in> set aps'. ap_spinlock ap = 0)"
proof (induction aps)
  case (Cons ap aps)
  then obtain aps' where "ap_clear_list aps = Some aps'" "\<forall>ap \<in> set aps'. ap_spinlock ap = 0" by auto
  then show ?case using Cons.prems by (auto simp: ap_clear_def)
qed simp

lemma quiet_start_scan:
  assumes "quiet s" "next_mode s = WIFIMODE_SCAN" "curLibraryMode (wd7 s) = next_library s"
  shows "\<exists>t. start_scan s = Some t \<and> quiet_step s t"
proof -
  obtain aps where aps: "ap_clear_list (aplist (wd7 s)) = Some aps" "\<forall>ap \<in> set aps. ap_spinlock ap = 0"
    using ap_clear_list_free [of "aplist (wd7 s)"] assms(1) by (auto simp: quiet_def)
  define a where "a = s\<lparr>wd7 := (wd7 s)\<lparr>curApScanFlags := reqApScanFlags (wd7 s), aplist := aps, counter7 := timer7 s, curMode := WIFIMODE_SCAN\<rparr>\<rparr>"
  have ab: "sent7 a (Wifi_SetupFilterMode WIFI_FILTERMODE_SCAN a)" by (intro sent7_SetupFilterMode sent7_refl)
  let ?t = "(Wifi_SetupFilterMode WIFI_FILTERMODE_SCAN a)\<lparr>wifi_scan_index := 0\<rparr>"
  have t: "start_scan s = Some ?t" using aps(1) by (simp add: start_scan_def Wifi_AccessPointClearAll_def a_def)
  have "sent7 (a\<lparr>wifi_scan_index := 0\<rparr>) ?t" using ab by (simp add: sent7_def)
  moreover have "quiet_step s (a\<lparr>wifi_scan_index := 0\<rparr>)"
    using assms aps(2) by (simp add: quiet_step_def quiet_def same_requests_def a_def tx_data7_def scanlist_def)
  ultimately show ?thesis using t quiet_step_sent7 [OF sent7_refl] by blast
qed

lemma AssociationStart_effect:
  "\<exists>t. Wifi_AssociationStart s = Some t \<and>
     sent7 (wd7_upd (\<lambda>w. w\<lparr>authctr := 0, authlevel := WIFI_AUTHLEVEL_DISCONNECTED\<rparr>) s) t"
  unfolding Wifi_AssociationStart_def using sent7_senders(1,3) by fastforce

text \<open>Steps that neither change the mode nor disturb the quiet.\<close>

definition calm :: "arm7 \<Rightarrow> arm7 \<Rightarrow> bool" where
  "calm s t \<longleftrightarrow> (quiet s \<longrightarrow> quiet t) \<and> same_requests s t \<and> curMode (wd7 t) = curMode (wd7 s) \<and>
     curLibraryMode (wd7 t) = curLibraryMode (wd7 s)"

interpretation cm: frame_relation calm
  by unfold_locales (auto simp: calm_def intro: req.keep_refl req.keep_trans)

lemma calm_sent7: "sent7 s t \<Longrightarrow> calm s t"
  using quiet_sent7 [of s t] sent7_same_requests [of s t] next_mode_sent7(6,8) [of s t] by (simp add: calm_def)

lemma calm_wd7_upd:
  assumes "\<And>w. flags7 (f w) = flags7 w \<and> txbuf (f w) = txbuf w \<and> aplist (f w) = aplist w \<and> clients (f w) = clients w"
    "\<And>w. reqMaxClients (f w) = reqMaxClients w \<and> curMaxClients (f w) = curMaxClients w \<and> curMode (f w) = curMode w"
    "\<And>w. reqMode (f w) = reqMode w \<and> reqLibraryMode (f w) = reqLibraryMode w \<and> reqFlags (f w) = reqFlags w"
    "\<And>w. curLibraryMode (f w) = curLibraryMode w"
  shows "calm s (wd7_upd f s)"
  using assms by (simp add: calm_def quiet_def same_requests_def tx_data7_def mp_inv_at_def)

lemma calm_SetChannel: "calm s (Wifi_SetChannel7 c s)"
proof (cases "1 \<le> c \<and> c \<le> 13")
  case True
  have "calm s (wd7_upd (curChannel_update (\<lambda>_. of_nat c)) s)" by (rule calm_wd7_upd) simp_all
  moreover have "sent7 (wd7_upd (curChannel_update (\<lambda>_. of_nat c)) s) (Wifi_SetChannel7 c s)"
    using sent7_SetChannel [of c s] unfolding if_P [OF True] .
  ultimately show ?thesis by (rule cm.keep_trans [OF _ calm_sent7])
next
  case False
  show ?thesis using sent7_SetChannel [of c s] unfolding if_not_P [OF False] by (rule calm_sent7)
qed

lemma calm_mode_step:
  assumes "quiet s" "calm s t" "next_mode s = m" "calm (set_mode m t) u"
    "m \<notin> {WIFIMODE_INITIALIZING, WIFIMODE_DISCONNECTING, WIFIMODE_ACCESSPOINT}" "curLibraryMode (wd7 s) = next_library s"
  shows "quiet_step s u"
proof -
  have "quiet (set_mode m t)" "same_requests s (set_mode m t)"
    using assms(1,2,5) quiet_set_mode(1) req.keep_trans [OF _ quiet_set_mode(2)] by (auto simp: calm_def)
  then show ?thesis using assms(2,3,4,6) quiet_set_mode(3,4) [of m t] req.keep_trans by (auto simp: calm_def quiet_step_def)
qed

lemma quiet_start_connection:
  assumes "quiet s" "next_mode s = WIFIMODE_CONNECTING" "curLibraryMode (wd7 s) = next_library s"
  shows "\<exists>t. start_connection s = Some t \<and> quiet_step s t"
proof -
  define a where "a = (let s = set_reg_mac W_BSSID (bssid (curAp (wd7 s))) s;
          wepmode = Wifi_WepModeFromKeySize (unat (pass_len (curApSecurity (wd7 s))));
          s = Wifi_NTR_SetWepKey (pass (curApSecurity (wd7 s))) wepmode s;
          s = Wifi_NTR_SetWepMode wepmode s
      in if curLibraryMode (wd7 s) = DSWIFI_MULTIPLAYER_CLIENT
               then Wifi_SetupFilterMode WIFI_FILTERMODE_MULTIPLAYER_CLIENT
                      (wd7_upd (\<lambda>w. w\<lparr>curReplyDataSize := reqReplyDataSize w\<rparr>) s)
               else if curLibraryMode (wd7 s) = DSWIFI_INTERNET
               then Wifi_SetupFilterMode WIFI_FILTERMODE_INTERNET s
               else s)"
  have sa: "sent7 s a"
    unfolding a_def Let_def by (auto intro!: sent7_SetupFilterMode sent7_wd7_upd sent7_SetWepMode sent7_SetWepKey sent7_set_BSSID sent7_refl
      simp del: W_BSSID_def)
  define b where "b = wd7_upd (\<lambda>w. w\<lparr>realRates := True, reqChannel := channel (curAp w)\<rparr>) a"
  define c where "c = Wifi_SetChannel7 (unat (channel (curAp (wd7 b)))) b"
  define d where "d = wd7_upd (\<lambda>w. w\<lparr>counter7 := timer7 c, curMode := WIFIMODE_CONNECTING\<rparr>) c"
  obtain t where t: "start_connection s = Some t"
      "sent7 (wd7_upd (\<lambda>w. w\<lparr>authctr := 0, authlevel := WIFI_AUTHLEVEL_DISCONNECTED\<rparr>) d) t"
    using AssociationStart_effect [of d] unfolding start_connection_def Let_def d_def c_def b_def a_def by blast
  have "calm a b" unfolding b_def by (rule calm_wd7_upd) simp_all
  then have "calm s c" unfolding c_def using cm.keep_trans [OF calm_sent7 [OF sa]] cm.keep_trans calm_SetChannel by blast
  moreover have "calm (set_mode WIFIMODE_CONNECTING c) d"
    unfolding d_def set_mode_def by (simp add: calm_def quiet_def same_requests_def tx_data7_def)
  moreover have "calm d (wd7_upd (\<lambda>w. w\<lparr>authctr := 0, authlevel := WIFI_AUTHLEVEL_DISCONNECTED\<rparr>) d)"
    by (rule calm_wd7_upd) simp_all
  ultimately have "quiet_step s t"
    using calm_mode_step [OF assms(1) _ assms(2) _ _ assms(3)] t(2) calm_sent7 cm.keep_trans by blast
  then show ?thesis using t(1) by blast
qed

lemma quiet_step_calm: "quiet_step s t \<Longrightarrow> calm t u \<Longrightarrow> quiet_step s u"
  using req.keep_trans by (auto simp: quiet_step_def calm_def)

lemma quiet_step_from:
  "same_requests s s' \<Longrightarrow> next_mode s' = next_mode s \<Longrightarrow> next_library s' = next_library s \<Longrightarrow> quiet_step s' t \<Longrightarrow> quiet_step s t"
  using req.keep_trans by (auto simp: quiet_step_def)

lemma NTR_Stop_effect:
  assumes "quiet s" "next_mode s = WIFIMODE_DISABLED" "curLibraryMode (wd7 s) = next_library s"
  shows "quiet_step s (set_mode WIFIMODE_DISABLED (Wifi_NTR_Stop s))"
proof -
  have "x AND - 3 AND 1 = x AND (1 :: u32)" "(x AND - 3) AND 1 = x AND (1 :: u32)" for x
    by (simp_all only: and.assoc) simp_all
  then show ?thesis using assms
    by (simp add: quiet_step_def quiet_def same_requests_def set_mode_def tx_data7_def Wifi_NTR_Stop_def Let_def)
qed

lemma quiet_normal:
  assumes "quiet s" "curMode (wd7 s) = WIFIMODE_NORMAL"
  shows "\<exists>t. update_normal leds s = Some t \<and> quiet_step s t"
proof -
  define a where "a = set_reg_mac W_BSSID [0, 0, 0, 0, 0, 0] (Wifi_SetLedState (leds LED_BLINK_SLOW) s)"
  have sa: "sent7 s a" unfolding a_def by (intro sent7_intros sent7_refl)
  define b where "b = wd7_upd (\<lambda>w. w\<lparr>curLibraryMode := reqLibraryMode w\<rparr>) a"
  have ab: "quiet a \<longrightarrow> quiet b" "same_requests a b"
    by (simp_all add: b_def quiet_def same_requests_def tx_data7_def mp_inv_at_def)
  have w: "load_wfc_key b = None \<longleftrightarrow> load_wfc_key a = None"
    by (simp add: b_def load_wfc_key_def Wifi_GetWfcAccessPointIndex_def)
  have nb: "next_mode b = next_mode a" "curMode (wd7 b) = WIFIMODE_NORMAL" "next_library b = next_library a"
      "curLibraryMode (wd7 b) = next_library b"
    using assms(2) next_mode_sent7(6) [OF sa] unfolding next_mode_def next_library_def w by (simp_all add: b_def)
  have q: "quiet b" using assms(1) quiet_sent7 [OF sa] ab(1) by simp
  have "\<exists>t. update_normal leds s = Some t \<and> quiet_step b t"
  proof (cases "load_wfc_key b")
    case None
    then show ?thesis
      using quiet_start_host [OF q] quiet_start_scan [OF q] NTR_Stop_effect [OF q] quiet_step_mode [OF q, of WIFIMODE_CANNOTCONNECT] nb(2,4) q
      unfolding update_normal_def Let_def a_def [symmetric] b_def [symmetric]
      by (auto simp: next_mode_def quiet_step_def req.keep_refl)
  next
    case (Some c)
    have "calm b c" using Some
      by (auto simp: load_wfc_key_def intro: cm.keep_refl calm_wd7_upd split: if_splits)
    moreover have "next_mode c = WIFIMODE_CONNECTING" if "next_mode b = WIFIMODE_CONNECTING"
      using that \<open>calm b c\<close> Some nb(2)
      by (auto simp: next_mode_def calm_def same_requests_def load_wfc_key_def Wifi_GetWfcAccessPointIndex_def split: if_splits)
    ultimately have "\<exists>t. start_connection c = Some t \<and> quiet_step b t" if "next_mode b = WIFIMODE_CONNECTING"
      using that quiet_start_connection [of c] quiet_step_from [of b c] q nb(2,4) by (auto simp: calm_def next_library_def same_requests_def)
    then show ?thesis
      using Some quiet_start_host [OF q] quiet_start_scan [OF q] NTR_Stop_effect [OF q] nb(2,4) q
      unfolding update_normal_def Let_def a_def [symmetric] b_def [symmetric]
      by (auto simp: next_mode_def quiet_step_def req.keep_refl)
  qed
  then show ?thesis
    using quiet_step_from [OF req.keep_trans [OF sent7_same_requests [OF sa] ab(2)]] nb(1,3) next_mode_sent7(1,7) [OF sa] by auto
qed

lemma AssociationUpdate_effect:
  "\<exists>t l r. Wifi_AssociationUpdate s = Some t \<and>
     sent7 (wd7_upd (\<lambda>w. w\<lparr>authctr := authctr w + 1, authlevel := l, realRates := r\<rparr>) s) t \<and>
     (if authctr (wd7 s) + 1 > WIFI_MAX_ASSOC_RETRY then l = WIFI_AUTHLEVEL_ERROR
      else l = (if authlevel (wd7 s) \<in> {WIFI_AUTHLEVEL_ASSOCIATED, WIFI_AUTHLEVEL_ERROR} then authlevel (wd7 s)
                else WIFI_AUTHLEVEL_DISCONNECTED))"
proof -
  let ?a = "wd7_upd (\<lambda>w. w\<lparr>authctr := authctr w + 1\<rparr>) s"
  let ?res = "\<lambda>l r. wd7_upd (\<lambda>w. w\<lparr>authctr := authctr w + 1, authlevel := l, realRates := r\<rparr>) s"
  have send: "\<exists>t. ignore_result (Wifi_SendOpenSystemAuthPacket x) = Some t \<and> sent7 x t" for x
    using sent7_senders(1,3) [of x] by auto
  have res: "set_authlevel WIFI_AUTHLEVEL_ERROR ?a = ?res WIFI_AUTHLEVEL_ERROR (realRates (wd7 s))"
      "?a = ?res (authlevel (wd7 s)) (realRates (wd7 s))"
      "wd7_upd (\<lambda>w. w\<lparr>realRates := True, authlevel := WIFI_AUTHLEVEL_DISCONNECTED\<rparr>) ?a = ?res WIFI_AUTHLEVEL_DISCONNECTED True"
    by (simp_all add: set_authlevel_def wd7_upd_def)
  show ?thesis
  proof (cases "authctr (wd7 s) + 1 > WIFI_MAX_ASSOC_RETRY")
    case True
    then have "Wifi_AssociationUpdate s = Some (?res WIFI_AUTHLEVEL_ERROR (realRates (wd7 s)))"
      unfolding Wifi_AssociationUpdate_def Let_def res(1) [symmetric] by simp
    then show ?thesis
      using True by (intro exI [of _ "?res WIFI_AUTHLEVEL_ERROR (realRates (wd7 s))"] exI [of _ WIFI_AUTHLEVEL_ERROR] exI [of _ "realRates (wd7 s)"]) simp
  next
    case False
    show ?thesis
    proof (cases "authlevel (wd7 s) \<in> {WIFI_AUTHLEVEL_ASSOCIATED, WIFI_AUTHLEVEL_ERROR}")
      case True
      then have "Wifi_AssociationUpdate s = Some ?a" using False by (auto simp: Wifi_AssociationUpdate_def Let_def)
      then show ?thesis using True False res(2)
        by (intro exI [of _ ?a] exI [of _ "authlevel (wd7 s)"] exI [of _ "realRates (wd7 s)"]) simp
    next
      case level: False
      then obtain r where "Wifi_AssociationUpdate s = ignore_result (Wifi_SendOpenSystemAuthPacket (?res WIFI_AUTHLEVEL_DISCONNECTED r))"
        using False res(2,3) by (cases "authlevel (wd7 s)") (auto simp: Wifi_AssociationUpdate_def Let_def)
      moreover obtain t where "ignore_result (Wifi_SendOpenSystemAuthPacket (?res WIFI_AUTHLEVEL_DISCONNECTED r)) = Some t"
          "sent7 (?res WIFI_AUTHLEVEL_DISCONNECTED r) t" using send by blast
      ultimately show ?thesis using False level by (intro exI [of _ t] exI [of _ WIFI_AUTHLEVEL_DISCONNECTED] exI [of _ r]) simp
    qed
  qed
qed

lemma connecting_waits:
  assumes "quiet s" "curMode (wd7 s) = WIFIMODE_CONNECTING" "next_mode s = WIFIMODE_CONNECTING"
  shows "\<exists>t. update_connecting leds s = Some t \<and> quiet_step s t \<and> library_changed t = library_changed s \<and>
    (if elapsed7 s > 20 then counter7 (wd7 t) = timer7 s \<and> authctr (wd7 t) = authctr (wd7 s) + 1 \<and>
       authlevel (wd7 t) = (if authctr (wd7 s) + 1 > WIFI_MAX_ASSOC_RETRY then WIFI_AUTHLEVEL_ERROR else WIFI_AUTHLEVEL_DISCONNECTED)
     else sent7 s t)"
proof -
  let ?a = "Wifi_SetLedState (leds LED_BLINK_SLOW) s"
  have a: "sent7 s ?a" by (intro sent7_intros sent7_refl)
  have n: "\<not> library_changed ?a" "reqMode (wd7 ?a) = WIFIMODE_CONNECTED" "\<not> Wifi_AssociationIsSuccess ?a" "\<not> Wifi_AssociationIsFailure ?a"
    using assms(2,3) next_mode_sent7 [OF a] a unfolding next_mode_def sent7_def by (auto split: if_splits)
  show ?thesis
  proof (cases "elapsed7 s > 20")
    case True
    define b where "b = wd7_upd (\<lambda>w. w\<lparr>counter7 := timer7 ?a\<rparr>) ?a"
    obtain t l r where t: "Wifi_AssociationUpdate b = Some t"
        "sent7 (wd7_upd (\<lambda>w. w\<lparr>authctr := authctr w + 1, authlevel := l, realRates := r\<rparr>) b) t" (is "sent7 ?c t")
        "if authctr (wd7 b) + 1 > WIFI_MAX_ASSOC_RETRY then l = WIFI_AUTHLEVEL_ERROR
         else l = (if authlevel (wd7 b) \<in> {WIFI_AUTHLEVEL_ASSOCIATED, WIFI_AUTHLEVEL_ERROR} then authlevel (wd7 b)
                else WIFI_AUTHLEVEL_DISCONNECTED)"
      using AssociationUpdate_effect by blast
    have "calm ?a b" unfolding b_def by (rule calm_wd7_upd) simp_all
    moreover have "calm b ?c" by (rule calm_wd7_upd) simp_all
    ultimately have "calm s t" using t(2) a calm_sent7 cm.keep_trans by blast
    then have q: "quiet_step s t" using assms by (simp add: next_library_def quiet_step_def calm_def)
    have u: "update_connecting leds s = Some t"
      using n True t(1) next_mode_sent7(5) [OF a] by (simp add: update_connecting_def b_def Let_def)
    have b: "authctr (wd7 b) = authctr (wd7 s)" "authlevel (wd7 b) = authlevel (wd7 s)" "timer7 ?a = timer7 s"
      using a by (simp_all add: b_def sent7_def timer7_def kept_regs_def)
    have "authlevel (wd7 s) \<notin> {WIFI_AUTHLEVEL_ASSOCIATED, WIFI_AUTHLEVEL_ERROR}"
      using n a by (auto simp: Wifi_AssociationIsSuccess_def Wifi_AssociationIsFailure_def sent7_def)
    then have l: "l = (if authctr (wd7 s) + 1 > WIFI_MAX_ASSOC_RETRY then WIFI_AUTHLEVEL_ERROR else WIFI_AUTHLEVEL_DISCONNECTED)"
      using t(3) b by simp
    have "counter7 (wd7 t) = timer7 s" "authctr (wd7 t) = authctr (wd7 s) + 1" "authlevel (wd7 t) = l"
        "library_changed t = library_changed s"
      using t(2) b a by (simp_all add: sent7_def b_def library_changed_def)
    then show ?thesis using True u q l by auto
  next
    case False
    then have "update_connecting leds s = Some ?a" using n next_mode_sent7(5) [OF a] by (simp add: update_connecting_def Let_def)
    moreover have "quiet_step s ?a" using assms calm_sent7 [OF a] by (simp add: next_library_def quiet_step_def calm_def)
    ultimately show ?thesis using False a next_mode_sent7(2) [OF a] by auto
  qed
qed

lemma quiet_connecting:
  assumes "quiet s" "curMode (wd7 s) = WIFIMODE_CONNECTING"
  shows "\<exists>t. update_connecting leds s = Some t \<and> quiet_step s t"
proof (cases "next_mode s = WIFIMODE_CONNECTING")
  case True
  then show ?thesis using connecting_waits [OF assms] by blast
next
  case False
  let ?a = "Wifi_SetLedState (leds LED_BLINK_SLOW) s"
  have a: "sent7 s ?a" by (intro sent7_intros sent7_refl)
  have q: "quiet ?a" using quiet_sent7 [OF a] assms(1) by simp
  have "\<exists>t. update_connecting leds s = Some t \<and> quiet_step ?a t"
    using False assms(2) next_mode_sent7 [OF a] quiet_go_idle [OF q] quiet_step_mode [OF q]
    unfolding update_connecting_def Let_def next_mode_def by (auto simp: next_library_def split: if_splits)
  then show ?thesis using quiet_step_sent7 [OF a _ sent7_refl] by blast
qed

lemma scanlist_channels: "distinct scanlist" "set scanlist = {1..13}" "length scanlist = 13"
proof -
  show "distinct scanlist" "length scanlist = 13" by (simp_all add: scanlist_def)
  then have "card (set scanlist) = card {1..13 :: nat}" by (simp add: distinct_card)
  moreover have "set scanlist \<subseteq> {1..13}" by (simp add: scanlist_def)
  ultimately show "set scanlist = {1..13}" by (intro card_subset_eq) simp_all
qed

lemma scan_next_effect:
  assumes "quiet s"
  shows "\<exists>t. scan_next s = Some t \<and> calm s t \<and> counter7 (wd7 t) = timer7 s \<and>
    curChannel (wd7 t) = of_nat (scanlist ! wifi_scan_index s) \<and>
    wifi_scan_index t = (wifi_scan_index s + 1) mod length scanlist \<and> library_changed t = library_changed s"
proof -
  have i: "wifi_scan_index s < length scanlist" using assms by (simp add: quiet_def)
  let ?c = "scanlist ! wifi_scan_index s"
  have c: "1 \<le> ?c" "?c \<le> 13" using nth_mem [OF i] scanlist_channels(2) by auto
  define a where "a = wd7_upd (\<lambda>w. w\<lparr>counter7 := timer7 s, reqChannel := of_nat ?c\<rparr>) s"
  have r: "unat (reqChannel (wd7 a)) = ?c" using c by (simp add: a_def unat_of_nat take_bit_nat_eq_self)
  define b where "b = Wifi_SetChannel7 ?c a"
  have ab: "sent7 (wd7_upd (curChannel_update (\<lambda>_. of_nat ?c)) a) b"
    using sent7_SetChannel [of ?c a] c by (simp add: b_def)
  define d where "d = wd7_upd Wifi_AccessPointTick b"
  let ?i = "wifi_scan_index d + 1"
  define t where "t = d\<lparr>wifi_scan_index := if ?i = length scanlist then 0 else ?i\<rparr>"
  have "scan_next s = Some t"
    unfolding scan_next_def Let_def a_def [symmetric] r b_def [symmetric] d_def [symmetric] t_def using i by simp
  moreover have "calm s a" unfolding a_def by (rule calm_wd7_upd) simp_all
  then have sb: "calm s b" using calm_SetChannel cm.keep_trans unfolding b_def by blast
  have "\<exists>x. Wifi_AccessPointTick (wd7 b) = (wd7 b)\<lparr>aplist := map (ap_tick x) (aplist (wd7 b))\<rparr>"
    unfolding Wifi_AccessPointTick_def Let_def by blast
  then obtain x where x: "wd7 d = (wd7 b)\<lparr>aplist := map (ap_tick x) (aplist (wd7 b))\<rparr>" by (auto simp: d_def)
  then have "calm b d"
    by (simp add: calm_def quiet_def same_requests_def tx_data7_def mp_inv_at_def) (simp add: d_def)
  then have "calm s d" using sb cm.keep_trans by blast
  then have "calm s t" using assms by (auto simp: t_def calm_def quiet_def same_requests_def tx_data7_def mp_inv_at_def)
  moreover have "counter7 (wd7 t) = timer7 s" "curChannel (wd7 t) = of_nat ?c" "wifi_scan_index d = wifi_scan_index s"
      "library_changed t = library_changed s"
    using ab by (simp_all add: t_def d_def a_def sent7_def Wifi_AccessPointTick_def Let_def library_changed_def)
  moreover from this(3) have "wifi_scan_index t = (wifi_scan_index s + 1) mod length scanlist"
    using i by (simp add: t_def)
  ultimately show ?thesis by blast
qed

lemma scan_continues:
  assumes "quiet s" "curMode (wd7 s) = WIFIMODE_SCAN" "next_mode s = WIFIMODE_SCAN"
  shows "\<exists>t. update_scan leds s = Some t \<and> quiet_step s t \<and> library_changed t = library_changed s \<and>
    (elapsed7 s > 1 \<longrightarrow> counter7 (wd7 t) = timer7 s \<and> curChannel (wd7 t) = of_nat (scanlist ! wifi_scan_index s) \<and>
       wifi_scan_index t = (wifi_scan_index s + 1) mod length scanlist)"
proof -
  let ?a = "Wifi_SetLedState (leds LED_BLINK_SLOW) s"
  have a: "sent7 s ?a" by (intro sent7_intros sent7_refl)
  have q: "quiet ?a" using quiet_sent7 [OF a] assms(1) by simp
  have n: "\<not> library_changed ?a" "reqMode (wd7 ?a) = WIFIMODE_SCAN" "elapsed7 ?a = elapsed7 s" "library_changed ?a = library_changed s"
      "timer7 ?a = timer7 s" "wifi_scan_index ?a = wifi_scan_index s"
    using assms(2,3) next_mode_sent7 [OF a] a unfolding next_mode_def sent7_def timer7_def kept_regs_def by (auto split: if_splits)
  have calm: "quiet_step s t" if "calm ?a t" for t
    using assms that calm_sent7 [OF a] req.keep_trans by (auto simp: next_library_def quiet_step_def calm_def)
  show ?thesis
    using scan_next_effect [OF q] calm cm.keep_refl [of ?a] n unfolding update_scan_def Let_def by (cases "elapsed7 s > 1") auto
qed

lemma quiet_scan:
  assumes "quiet s" "curMode (wd7 s) = WIFIMODE_SCAN"
  shows "\<exists>t. update_scan leds s = Some t \<and> quiet_step s t"
proof (cases "next_mode s = WIFIMODE_SCAN")
  case True
  then show ?thesis using scan_continues [OF assms] by blast
next
  case False
  let ?a = "Wifi_SetLedState (leds LED_BLINK_SLOW) s"
  have a: "sent7 s ?a" by (intro sent7_intros sent7_refl)
  have q: "quiet ?a" using quiet_sent7 [OF a] assms(1) by simp
  have "\<exists>t. update_scan leds s = Some t \<and> quiet_step ?a t"
    using False assms(2) next_mode_sent7 [OF a] quiet_go_idle [OF q]
    unfolding update_scan_def Let_def next_mode_def by (auto split: if_splits)
  then show ?thesis using quiet_step_sent7 [OF a _ sent7_refl] by blast
qed

lemma keepalive_sent7: "\<exists>t. keepalive s = Some t \<and> sent7 s t"
proof -
  let ?a = "s\<lparr>wifi_keepalive_time := wifi_keepalive_time s + 1\<rparr>"
  obtain ok t where t: "Wifi_SendNullFrame (Wifi_NTR_KeepaliveCountReset ?a) = Some (ok, t)"
      "sent7 (Wifi_NTR_KeepaliveCountReset ?a) t"
    using SendNullFrame_ok by blast
  have "sent7 s ?a" "sent7 s (Wifi_NTR_KeepaliveCountReset ?a)"
    by (simp_all add: sent7_def Wifi_NTR_KeepaliveCountReset_def)
  then show ?thesis using t sent7_trans by (auto simp: keepalive_def Let_def)
qed

lemma quiet_connected:
  assumes "quiet s" "curMode (wd7 s) = WIFIMODE_CONNECTED"
  shows "\<exists>t. update_connected leds s = Some t \<and> quiet_step s t"
proof -
  let ?a = "Wifi_SetLedState (leds LED_BLINK_FAST) s"
  have a: "sent7 s ?a" by (intro sent7_intros sent7_refl)
  obtain b where b: "keepalive ?a = Some b" "sent7 ?a b" using keepalive_sent7 by blast
  have sb: "sent7 s b" using a b(2) by (rule sent7_trans)
  have q: "quiet ?a" "quiet b" using quiet_sent7 [OF a] quiet_sent7 [OF sb] assms(1) by simp_all
  obtain c where c: "ignore_result (Wifi_SendDeauthentication REASON_THIS_STATION_LEFT_DEAUTH b) = Some c" "sent7 b c"
    using sent7_senders(2) [of REASON_THIS_STATION_LEFT_DEAUTH b] sent7_senders(4) [of REASON_THIS_STATION_LEFT_DEAUTH b] by blast
  have "calm c (Wifi_NTR_SetAssociationID 0 c)"
    by (simp add: calm_def quiet_def same_requests_def Wifi_NTR_SetAssociationID_def tx_data7_def mp_inv_at_def mp_ok_own_aid)
  then have bd: "calm b (Wifi_NTR_SetAssociationID 0 c)" using calm_sent7 [OF c(2)] cm.keep_trans by blast
  have idle: "calm (set_mode WIFIMODE_NORMAL x) (go_idle x)" for x by (rule calm_sent7 [OF sent7_go_idle])
  have leave: "quiet_step b (go_idle (Wifi_NTR_SetAssociationID 0 c))" if "next_mode b = WIFIMODE_NORMAL"
    by (rule calm_mode_step [OF q(2) bd that idle]) (use assms(2) next_mode_sent7(6) [OF sb] in \<open>simp_all add: next_library_def\<close>)
  have r: "reqMode (wd7 b) = reqMode (wd7 s)" using sb by (simp add: sent7_def)
  note na = next_mode_sent7 [OF a] and nb = next_mode_sent7 [OF sb]
  have lib: "curLibraryMode (wd7 b) = next_library b" "curMode (wd7 ?a) \<noteq> WIFIMODE_NORMAL"
    using assms(2) na(6) nb(6) by (simp_all add: next_library_def)
  consider "library_changed s" | "\<not> library_changed s" "reqMode (wd7 s) \<noteq> WIFIMODE_CONNECTED"
    | "\<not> library_changed s" "reqMode (wd7 s) = WIFIMODE_CONNECTED" by blast
  then show ?thesis
  proof cases
    case 1
    then have "update_connected leds s = Some (go_idle ?a)" "next_mode ?a = WIFIMODE_NORMAL"
      using assms(2) na by (simp_all add: update_connected_def next_mode_def)
    then show ?thesis using quiet_go_idle [OF q(1) _ lib(2)] quiet_step_sent7 [OF a _ sent7_refl] by blast
  next
    case 2
    then have "update_connected leds s = Some (go_idle (Wifi_NTR_SetAssociationID 0 c))" "next_mode b = WIFIMODE_NORMAL"
      using assms(2) na nb r b(1) c(1) by (simp_all add: update_connected_def next_mode_def del: map_option_eq_Some)
    then show ?thesis using leave quiet_step_sent7 [OF sb _ sent7_refl] by blast
  next
    case 3
    let ?t = "if Wifi_AssociationIsFailure s then set_mode WIFIMODE_CANNOTCONNECT b else b"
    have "update_connected leds s = Some ?t"
      using 3 na nb r b(1) by (simp add: update_connected_def)
    moreover have "next_mode b = (if Wifi_AssociationIsFailure s then WIFIMODE_CANNOTCONNECT else WIFIMODE_CONNECTED)"
      using 3 assms(2) nb r by (simp add: next_mode_def)
    then have "quiet_step b ?t" using quiet_step_mode [OF q(2), of WIFIMODE_CANNOTCONNECT] q(2) lib(1) assms(2) nb(6)
      by (cases "Wifi_AssociationIsFailure s") (simp_all add: quiet_step_def req.keep_refl)
    ultimately show ?thesis using quiet_step_sent7 [OF sb _ sent7_refl] by blast
  qed
qed

lemma quiet_cannotconnect:
  assumes "quiet s" "curMode (wd7 s) = WIFIMODE_CANNOTCONNECT"
  shows "quiet_step s (update_cannotconnect leds s)"
proof -
  let ?a = "Wifi_SetLedState (leds LED_BLINK_SLOW) s"
  have a: "sent7 s ?a" by (intro sent7_intros sent7_refl)
  have q: "quiet ?a" using quiet_sent7 [OF a] assms(1) by simp
  have "reqMode (wd7 ?a) = reqMode (wd7 s)" using a by (simp add: sent7_def)
  then have "quiet_step ?a (update_cannotconnect leds s)"
    using assms(2) next_mode_sent7 [OF a] quiet_go_idle [OF q] q
    unfolding update_cannotconnect_def Let_def next_mode_def by (auto simp: next_library_def quiet_step_def req.keep_refl next_mode_def)
  then show ?thesis using quiet_step_sent7 [OF a _ sent7_refl] by blast
qed

text \<open>Steps of a host, which may also change the table of clients.\<close>

definition host_step :: "arm7 \<Rightarrow> arm7 \<Rightarrow> bool" where
  "host_step s t \<longleftrightarrow> sent7 (clients_upd7 (\<lambda>_. clients (wd7 t)) s) t"

interpretation hs: frame_relation host_step
  by unfold_locales (auto simp: host_step_def sent7_def clients_upd7_def wd7_upd_def)

lemma host_step_sent7: "sent7 s t \<Longrightarrow> host_step s t"
  by (simp add: host_step_def sent7_def clients_upd7_def wd7_upd_def)

lemma host_step_clients: "host_step s (clients_upd7 f s)"
  by (simp add: host_step_def sent7_def clients_upd7_def wd7_upd_def)

lemma host_step_table:
  "host_step s (unlock_clients7 s)" "host_step s (set_client7 i f s)" "host_step s (aid_mask_clear a s)"
  "lock_clients7 s = Some t \<Longrightarrow> host_step s t"
  by (auto simp: unlock_clients7_def set_client7_def aid_mask_clear_def lock_clients7_def host_step_clients)

lemma host_step_players_changed: "host_step s (players_changed s)"
  unfolding players_changed_def Wifi_SetBeaconCurrentPlayers_def
  by (intro host_step_sent7) (auto intro: sent7_MacWriteByte)

lemma host_step_deauthentication: "Wifi_MPHost_SendDeauthentication m rc s = Some (ok, t) \<Longrightarrow> host_step s t"
  using mphost_senders_ok(2) [of m rc s] by (auto intro: host_step_sent7)

lemma calm_host_step:
  assumes "quiet s" "host_step s t" "mp_inv t"
  shows "calm s t"
  using assms by (simp add: calm_def quiet_def same_requests_def host_step_def sent7_def clients_upd7_def kept_regs_def tx_data7_def mp_inv_at_def)

lemma host_step_leave: "host_step s (clients_upd7 f (aid_mask_clear k (set_client7 i g s)))"
  by (rule hs.keep_trans [OF hs.keep_trans [OF host_step_table(2) host_step_table(3)] host_step_clients])

lemma KickByAID_host_step: "Wifi_MPHost_KickByAID aid s = Some t \<Longrightarrow> host_step s t"
  unfolding Wifi_MPHost_KickByAID_def Let_def
  by (auto simp: Option.bind_eq_Some_conv split: if_splits
    intro: hs.keep_refl hs.keep_trans [OF host_step_deauthentication hs.keep_trans [OF host_step_leave host_step_players_changed]])

lemma kick_not_associated_host_step: "kick_not_associated is s = Some t \<Longrightarrow> host_step s t"
proof (induction "is" s rule: kick_not_associated.induct)
  case (2 i "is" s)
  show ?case
  proof (cases "client_state (client7 s i) = WIFI_CLIENT_AUTHENTICATED")
    case True
    then obtain ok a where a: "Wifi_MPHost_SendDeauthentication (macaddr (client7 s i)) REASON_CANT_HANDLE_ALL_STATIONS s = Some (ok, a)"
      using 2(3) by (auto simp: Option.bind_eq_Some_conv)
    let ?b = "clients_upd7 (\<lambda>c. c\<lparr>num_connected := num_connected c - 1\<rparr>) (aid_mask_clear (i + 1)
      (set_client7 i (client_state_update (\<lambda>_. WIFI_CLIENT_DISCONNECTED)) a))"
    have "host_step ?b t" using 2 True a by (simp add: Let_def)
    then show ?thesis by (rule hs.keep_trans [OF hs.keep_trans [OF host_step_deauthentication [OF a] host_step_leave]])
  next
    case False
    then show ?thesis using 2 by simp
  qed
qed (simp add: hs.keep_refl)

lemma KickNotAssociatedClients_host_step: "Wifi_MPHost_KickNotAssociatedClients s = Some t \<Longrightarrow> host_step s t"
  unfolding Wifi_MPHost_KickNotAssociatedClients_def
  by (auto simp: Option.bind_eq_Some_conv dest!: kick_not_associated_host_step host_step_table(4)
    intro: hs.keep_trans [OF hs.keep_trans [OF _ hs.keep_trans [OF host_step_players_changed host_step_table(1)]]]
      hs.keep_trans [OF _ hs.keep_trans [OF host_step_players_changed host_step_table(1)]] hs.keep_trans)

lemma kick_aids_calm: "quiet s \<Longrightarrow> mp_inv s \<Longrightarrow> \<exists>t. kick_aids aids is s = Some t \<and> calm s t \<and> mp_inv t"
proof (induction "is" arbitrary: s)
  case Nil
  then show ?case using cm.keep_refl by simp
next
  case (Cons aid "is")
  obtain a where a: "(if aids AND BIT aid \<noteq> 0 then Wifi_MPHost_KickByAID aid s else Some s) = Some a" "mp_inv a" "host_step s a"
    using KickByAID_spec [OF Cons.prems(2), of aid] KickByAID_host_step [of aid s] Cons.prems(2) hs.keep_refl by (cases "aids AND BIT aid = 0") auto
  then have sa: "calm s a" using calm_host_step Cons.prems(1) by blast
  then have "quiet a" using Cons.prems(1) by (simp add: calm_def)
  from Cons.IH [OF this a(2)] show ?case using a(1) sa cm.keep_trans by (auto simp del: split_paired_Ex)
qed

lemma mp_inv_sent7_0: "sent7 s t \<Longrightarrow> mp_inv t = mp_inv s"
  by (simp add: sent7_def mp_inv_at_def)

lemma update_allow_calm:
  assumes "quiet s" "mp_inv s"
  shows "\<exists>t. update_allow s = Some t \<and> calm s t \<and> mp_inv t"
proof -
  have a: "sent7 s (Wifi_SetBeaconAllowsConnections x s)" for x by (intro sent7_beacon_bytes sent7_refl)
  let ?b = "Wifi_SetBeaconAllowsConnections 0 s"
  have b: "quiet ?b" "mp_inv ?b" "calm s ?b" using assms quiet_sent7 [OF a] mp_inv_sent7_0 [OF a] calm_sent7 [OF a] by simp_all
  obtain c where "Wifi_MPHost_KickNotAssociatedClients ?b = Some c" "mp_inv c"
    using KickNotAssociatedClients_spec [OF b(2)] by blast
  moreover from this have "calm ?b c" using KickNotAssociatedClients_host_step calm_host_step b(1) by blast
  ultimately show ?thesis
    using assms cm.keep_refl calm_sent7 [OF a] mp_inv_sent7_0 [OF a] cm.keep_trans [OF b(3)] by (auto simp: update_allow_def Let_def)
qed

lemma kick_requested_calm:
  assumes "quiet s" "mp_inv s"
  shows "\<exists>t. kick_requested s = Some t \<and> calm s t \<and> mp_inv t"
proof -
  let ?a = "clients_upd7 (\<lambda>c. c\<lparr>reqKickClientAIDMask := 0\<rparr>) s"
  have m: "mp_inv ?a" using assms(2) by (simp add: mp_inv_at_def mp_ok_def)
  have "calm s ?a" by (rule calm_host_step [OF assms(1) host_step_clients m])
  moreover from this have "quiet ?a" using assms(1) by (simp add: calm_def)
  from kick_aids_calm [OF this m] obtain t where
    "kick_aids (ucast (reqKickClientAIDMask (clients (wd7 s)))) [1..<16] ?a = Some t" "calm ?a t" "mp_inv t" by blast
  ultimately show ?thesis using assms cm.keep_refl cm.keep_trans by (auto simp: kick_requested_def Let_def)
qed

lemma calm_set_reg: "r \<notin> {W_RXBUF_WRCSR, W_RXBUF_READCSR} \<Longrightarrow> calm s (set_reg r v s)"
  by (simp add: calm_def quiet_def same_requests_def tx_data7_def mp_inv_at_def)

lemma stop_host_quiet:
  assumes "quiet s" "mp_inv s" "next_mode s = WIFIMODE_NORMAL" "curMode (wd7 s) = WIFIMODE_ACCESSPOINT"
  shows "\<exists>t. stop_host s = Some t \<and> quiet_step s t"
proof -
  have lock: "clients_spinlock (clients (wd7 s)) = 0" "unat (curMaxClients (wd7 s)) \<le> 15"
    using assms(2) by (auto simp: mp_inv_at_def mp_ok_def)
  obtain a where a: "Wifi_MPHost_ResetClients s = Some a" "mp_inv a" using ResetClients_inv [OF lock] by blast
  have "host_step s a" using a(1) unfolding Wifi_MPHost_ResetClients_def Let_def
    by (auto simp: Option.bind_eq_Some_conv intro: hs.keep_trans [OF host_step_table(4)]
      hs.keep_trans [OF hs.keep_trans [OF host_step_clients host_step_players_changed] host_step_table(1)])
  then have sa: "calm s a" using calm_host_step assms(1) a(2) by blast
  obtain ok b where b: "Wifi_MPHost_SendDeauthentication wifi_broadcast_addr REASON_THIS_STATION_LEFT_DEAUTH a = Some (ok, b)" "sent7 a b"
    using mphost_senders_ok(2) by blast
  define c where "c = Wifi_SetupFilterMode WIFI_FILTERMODE_IDLE (Wifi_NTR_SetupTransferOptions WIFI_TRANSFER_RATE_1MBPS False (Wifi_BeaconStop b))"
  have "sent7 a c" unfolding c_def by (intro sent7_SetupFilterMode sent7_SetupTransferOptions sent7_BeaconStop b(2))
  then have sc: "calm s c" using sa calm_sent7 cm.keep_trans by blast
  define d where "d = set_reg W_TXSTATCNT (regs c W_TXSTATCNT AND NOT TXSTATCNT_IRQ_MP_ACK) c"
  define e where "e = set_reg W_IE (regs d W_IE AND NOT IRQ_MULTIPLAY_CMD_DONE) d"
  have "calm c d" "calm d e" unfolding d_def e_def by (rule calm_set_reg, simp)+
  then have se: "calm s e" using sc cm.keep_trans by blast
  have "stop_host s = Some (set_mode WIFIMODE_NORMAL e)"
    using a(1) b(1) unfolding stop_host_def Wifi_MPHost_ClientKickAll_def Let_def c_def d_def e_def
    by (simp del: W_TXSTATCNT_def W_IE_def)
  then show ?thesis using calm_mode_step [OF assms(1) se assms(3) cm.keep_refl] assms(4) by (auto simp: next_library_def)
qed

lemma quiet_accesspoint:
  assumes "quiet s" "curMode (wd7 s) = WIFIMODE_ACCESSPOINT"
  shows "\<exists>t. update_accesspoint leds s = Some t \<and> quiet_step s t"
proof -
  let ?a = "Wifi_SetLedState (leds LED_BLINK_FAST) s"
  have a: "sent7 s ?a" by (intro sent7_intros sent7_refl)
  have q: "quiet ?a" "mp_inv ?a" using quiet_sent7 [OF a] mp_inv_sent7_0 [OF a] assms by (simp_all add: quiet_def)
  obtain b where b: "kick_requested ?a = Some b" "calm ?a b" "mp_inv b" using kick_requested_calm [OF q] by blast
  then have "quiet b" using q(1) by (simp add: calm_def)
  from update_allow_calm [OF this b(3)] obtain c where c: "update_allow b = Some c" "calm b c" by blast
  have ac: "calm ?a c" using b(2) c(2) by (rule cm.keep_trans)
  have r: "reqMode (wd7 ?a) = reqMode (wd7 s)" using a by (simp add: sent7_def)
  have "\<exists>t. update_accesspoint leds s = Some t \<and> quiet_step ?a t"
    using assms(2) next_mode_sent7 [OF a] r b(1) c(1) ac q stop_host_quiet [OF q]
    unfolding update_accesspoint_def Let_def next_mode_def by (auto simp: quiet_step_def calm_def next_mode_def next_library_def)
  then show ?thesis using quiet_step_sent7 [OF a _ sent7_refl] by blast
qed

lemma update_mode_quiet:
  assumes "quiet s"
  shows "\<exists>t. update_mode leds s = Some t \<and> quiet_step s t"
  using assms quiet_disabled [OF assms] quiet_normal [OF assms] quiet_scan [OF assms] quiet_connecting [OF assms]
    quiet_connected [OF assms] quiet_cannotconnect [OF assms] quiet_accesspoint [OF assms]
  by (cases "curMode (wd7 s)") (auto simp: update_mode_def quiet_def)

section \<open>Updates without traffic\<close>

lemma RxQueueFlush_empty: "regs s W_RXBUF_WRCSR = regs s W_RXBUF_READCSR \<Longrightarrow> Wifi_RxQueueFlush s = Some s"
proof -
  have "rx_flush_loop (Suc n) s = Some s" if "regs s W_RXBUF_WRCSR = regs s W_RXBUF_READCSR" for n
    using that by simp
  moreover have "WIFI_RX_PACKETS_PER_INTERRUPT + 2 = Suc 6" by simp
  ultimately show "regs s W_RXBUF_WRCSR = regs s W_RXBUF_READCSR \<Longrightarrow> Wifi_RxQueueFlush s = Some s"
    unfolding Wifi_RxQueueFlush_def by metis
qed

lemma TxAllQueueFlush_quiet:
  assumes "quiet s"
  shows "\<exists>t. Wifi_TxAllQueueFlush s = Some t \<and> sent7 s t"
proof -
  define a where "a = wd7_upd (\<lambda>w. w\<lparr>stats := (stats w)(WSTAT_DEBUG :=
    ucast ((regs s W_TXBUF_LOC3 AND TXBUF_LOCN_ENABLE) OR (regs s W_TXBUSY AND 0x7FFF)))\<rparr>) s"
  have a: "sent7 s a" by (simp add: a_def sent7_def wd7_upd_def)
  have "sent7 s (Wifi_NTR_KeepaliveCountReset (Wifi_TxArm7QueueFlush a))"
    using sent7_trans [OF a TxArm7QueueFlush_sent7 [of a]] by (simp add: sent7_def Wifi_NTR_KeepaliveCountReset_def)
  moreover have "Wifi_TxArm9QueueFlush a = Some (False, a)"
    using assms quiet_sent7 [OF a] by (simp add: quiet_def Wifi_TxArm9QueueFlush_def Let_def)
  ultimately show ?thesis using a unfolding Wifi_TxAllQueueFlush_def Let_def a_def [symmetric] by simp
qed

text \<open>What an update does when there is nothing to receive or to send: the step of the mode, a change of the channel,
  and nothing else.\<close>

lemma update_quiet:
  assumes "quiet s"
  shows "\<exists>a b t. sent7 s a \<and> update_mode leds a = Some b \<and> quiet_step s b \<and> Wifi_NTR_Update leds s = Some t \<and>
    sent7 (update_channel b) t"
proof -
  define a where "a = wd7_upd (\<lambda>w. stat_add WSTAT_ARM7_UPDATES 1 (Wifi_RandomAddEntropy (ucast (regs s W_RANDOM)) w)) s"
  have a: "sent7 s a" unfolding a_def by (intro sent7_wd7_upd sent7_refl)
  obtain b where b: "update_mode leds a = Some b" "quiet_step a b"
    using update_mode_quiet quiet_sent7 [OF a] assms by blast
  have "calm b (update_channel b)" unfolding update_channel_def by (auto intro: calm_SetChannel cm.keep_refl)
  then have q: "quiet (update_channel b)" using b(2) by (simp add: quiet_step_def calm_def)
  obtain t where t: "Wifi_TxAllQueueFlush (update_channel b) = Some t" "sent7 (update_channel b) t"
    using TxAllQueueFlush_quiet [OF q] by blast
  have "Wifi_RxQueueFlush (update_channel b) = Some (update_channel b)"
    by (rule RxQueueFlush_empty) (use q in \<open>simp add: quiet_def\<close>)
  then have "Wifi_NTR_Update leds s = Some t"
    using b(1) t(1) assms unfolding Wifi_NTR_Update_def Let_def a_def [symmetric] by (simp add: quiet_def)
  then show ?thesis using a b t(2) quiet_step_sent7 [OF a b(2) sent7_refl] by blast
qed

lemma update_channel_calm: "calm s (update_channel s)"
  unfolding update_channel_def by (auto intro: calm_SetChannel cm.keep_refl)

lemma update_quiet_step:
  assumes "quiet s"
  shows "\<exists>t. Wifi_NTR_Update leds s = Some t \<and> quiet_step s t"
proof -
  obtain b t where "quiet_step s b" "Wifi_NTR_Update leds s = Some t" "sent7 (update_channel b) t"
    using update_quiet [OF assms] by blast
  then show ?thesis
    using quiet_step_calm [OF _ cm.keep_trans [OF update_channel_calm calm_sent7]] by blast
qed

text \<open>C10: Without traffic, the update of the ARM7 always returns, stays without traffic, and takes the driver to
  the mode that the table of modes gives for the current mode and the requests of the ARM9.\<close>

theorem update_follows_modes:
  assumes "quiet s"
  shows "\<exists>t. Wifi_NTR_Update leds s = Some t \<and> quiet t \<and> same_requests s t \<and> curMode (wd7 t) = next_mode s"
  using update_quiet_step [OF assms] unfolding quiet_step_def by blast

text \<open>A sequence of updates; the hardware timer has the given values.\<close>

fun updates :: "led_codes \<Rightarrow> u16 list \<Rightarrow> arm7 \<Rightarrow> arm7 option" where
  "updates leds [] s = Some s"
| "updates leds (t # ts) s = do { s \<leftarrow> Wifi_NTR_Update leds (set_reg W_US_COUNT1 t s); updates leds ts s }"

text \<open>Each timer value is more than \<open>d\<close> ticks after the one before.\<close>

fun spaced :: "u32 \<Rightarrow> u32 \<Rightarrow> u16 list \<Rightarrow> bool" where
  "spaced d c [] = True"
| "spaced d c (t # ts) \<longleftrightarrow> ucast t - c > d \<and> spaced d (ucast t) ts"

lemma step_set_reg [simp]:
  "r \<notin> {W_RXBUF_WRCSR, W_RXBUF_READCSR} \<Longrightarrow> quiet (set_reg r v s) = quiet s" "library_changed (set_reg r v s) = library_changed s"
  "next_mode (set_reg r v s) = next_mode s" "next_library (set_reg r v s) = next_library s"
  "same_requests (set_reg r v s) u = same_requests s u"
proof -
  show "r \<notin> {W_RXBUF_WRCSR, W_RXBUF_READCSR} \<Longrightarrow> quiet (set_reg r v s) = quiet s"
    by (simp add: quiet_def tx_data7_def mp_inv_at_def)
  show l: "library_changed (set_reg r v s) = library_changed s" by (simp add: library_changed_def)
  have w: "load_wfc_key (set_reg r v s) = None \<longleftrightarrow> load_wfc_key s = None"
      "Wifi_AssociationIsSuccess (set_reg r v s) = Wifi_AssociationIsSuccess s"
      "Wifi_AssociationIsFailure (set_reg r v s) = Wifi_AssociationIsFailure s"
    by (simp_all add: load_wfc_key_def Wifi_AssociationIsSuccess_def Wifi_AssociationIsFailure_def)
  show "next_mode (set_reg r v s) = next_mode s" unfolding next_mode_def l w set_reg_simps ..
  show "next_library (set_reg r v s) = next_library s" "same_requests (set_reg r v s) u = same_requests s u"
    by (simp_all add: next_library_def same_requests_def)
qed

lemma updates_Cons:
  assumes "quiet s"
  shows "\<exists>u. updates leds (t # ts) s = updates leds ts u \<and> quiet_step s u"
  using update_quiet_step [of "set_reg W_US_COUNT1 t s" leds] assms by (auto simp: quiet_step_def)

text \<open>A mode that the driver keeps once it is requested and reached.\<close>

definition settled :: "WIFI_MODE \<Rightarrow> arm7 \<Rightarrow> bool" where
  "settled m s \<longleftrightarrow> curMode (wd7 s) = m \<and> reqMode (wd7 s) = m \<and> (m \<in> {WIFIMODE_DISABLED, WIFIMODE_NORMAL} \<or> \<not> library_changed s)"

lemma settled_stays:
  assumes "settled m s" "m \<in> {WIFIMODE_DISABLED, WIFIMODE_NORMAL, WIFIMODE_SCAN, WIFIMODE_ACCESSPOINT}" "quiet_step s t"
  shows "settled m t"
  using assms by (auto simp: settled_def quiet_step_def next_mode_def next_library_def same_requests_def library_changed_def)

lemma quiet_stepD:
  "quiet_step s t \<Longrightarrow> curMode (wd7 t) = next_mode s" "quiet_step s t \<Longrightarrow> curLibraryMode (wd7 t) = next_library s"
  "quiet_step s t \<Longrightarrow> reqMode (wd7 t) = reqMode (wd7 s)" "quiet_step s t \<Longrightarrow> reqLibraryMode (wd7 t) = reqLibraryMode (wd7 s)"
  "quiet_step s t \<Longrightarrow> quiet t"
  by (simp_all add: quiet_step_def same_requests_def)

lemma idle_settles:
  assumes "reqMode (wd7 s) = m" "m \<in> {WIFIMODE_DISABLED, WIFIMODE_NORMAL, WIFIMODE_SCAN, WIFIMODE_ACCESSPOINT}"
    and "curMode (wd7 s) = WIFIMODE_NORMAL" "quiet_step s t"
  shows "settled m t"
proof -
  have "next_mode s = m" using assms(1-3) by (auto simp: next_mode_def)
  moreover have "next_library s = reqLibraryMode (wd7 s)" using assms(3) by (simp add: next_library_def)
  ultimately show ?thesis using quiet_stepD [OF assms(4)] assms(1) by (simp add: settled_def library_changed_def)
qed

lemma settled_or_idle:
  assumes "quiet s" "reqMode (wd7 s) = m" "m \<in> {WIFIMODE_DISABLED, WIFIMODE_NORMAL, WIFIMODE_SCAN, WIFIMODE_ACCESSPOINT}"
    and "quiet_step s t"
  shows "settled m t \<or> curMode (wd7 t) = WIFIMODE_NORMAL"
proof (cases "curMode (wd7 s) = WIFIMODE_NORMAL")
  case True
  then show ?thesis using idle_settles [OF assms(2,3) _ assms(4)] by blast
next
  case False
  then have l: "library_changed t = library_changed s"
    using quiet_stepD [OF assms(4)] by (simp add: library_changed_def next_library_def)
  have "curMode (wd7 s) \<notin> {WIFIMODE_INITIALIZING, WIFIMODE_DISCONNECTING}" using assms(1) by (simp add: quiet_def)
  then have "next_mode s = WIFIMODE_NORMAL \<or> next_mode s = m \<and> (m = WIFIMODE_DISABLED \<or> \<not> library_changed s)"
    using False assms(2,3) by (cases "curMode (wd7 s)") (auto simp: next_mode_def)
  then show ?thesis using quiet_stepD [OF assms(4)] assms(2) l by (auto simp: settled_def)
qed

lemma updates_settled:
  "quiet s \<Longrightarrow> settled m s \<Longrightarrow> m \<in> {WIFIMODE_DISABLED, WIFIMODE_NORMAL, WIFIMODE_SCAN, WIFIMODE_ACCESSPOINT} \<Longrightarrow>
     \<exists>u. updates leds ts s = Some u \<and> quiet u \<and> settled m u"
proof (induction ts arbitrary: s)
  case (Cons t ts)
  obtain u where u: "updates leds (t # ts) s = updates leds ts u" "quiet_step s u" using updates_Cons [OF Cons.prems(1)] by blast
  then have "quiet u" "settled m u" using settled_stays [OF Cons.prems(2,3)] by (auto simp: quiet_step_def)
  then show ?case using Cons.IH Cons.prems(3) u(1) by auto
qed simp

text \<open>From every mode, without traffic, two updates after the ARM9 has requested the disabled, idle, scan or access
  point mode the driver is in that mode, and it stays there as long as the request does not change.\<close>

theorem request_reached:
  assumes "quiet s" "reqMode (wd7 s) = m" "m \<in> {WIFIMODE_DISABLED, WIFIMODE_NORMAL, WIFIMODE_SCAN, WIFIMODE_ACCESSPOINT}"
    and "2 \<le> length ts"
  shows "\<exists>u. updates leds ts s = Some u \<and> quiet u \<and> curMode (wd7 u) = m"
proof -
  obtain t1 t2 rest where ts: "ts = t1 # t2 # rest" using assms(4) by (cases ts rule: remdups_adj.cases) auto
  obtain a where a: "updates leds (t1 # t2 # rest) s = updates leds (t2 # rest) a" "quiet_step s a" using updates_Cons [OF assms(1)] by blast
  then have qa: "quiet a" by (simp add: quiet_step_def)
  obtain b where b: "updates leds (t2 # rest) a = updates leds rest b" "quiet_step a b" using updates_Cons [OF qa] by blast
  then have qb: "quiet b" by (simp add: quiet_step_def)
  have r: "reqMode (wd7 a) = m" using a(2) assms(2) by (simp add: quiet_step_def same_requests_def)
  have "settled m b"
    using settled_or_idle [OF assms(1,2,3) a(2)] settled_stays [OF _ assms(3) b(2)] idle_settles [OF r assms(3) _ b(2)] by blast
  then show ?thesis using updates_settled [OF qb _ assms(3)] a(1) b(1) unfolding ts settled_def by auto
qed

lemma update_channel_fields:
  "authctr (wd7 (update_channel s)) = authctr (wd7 s)" "authlevel (wd7 (update_channel s)) = authlevel (wd7 s)"
  "counter7 (wd7 (update_channel s)) = counter7 (wd7 s)" "library_changed (update_channel s) = library_changed s"
  "wifi_scan_index (update_channel s) = wifi_scan_index s" "clients (wd7 (update_channel s)) = clients (wd7 s)"
  "curMaxClients (wd7 (update_channel s)) = curMaxClients (wd7 s)"
  using sent7_SetChannel [of "unat (reqChannel (wd7 s))" s]
  by (auto simp: update_channel_def sent7_def library_changed_def split: if_splits)

lemma connecting_update:
  assumes "quiet s" "curMode (wd7 s) = WIFIMODE_CONNECTING" "next_mode s = WIFIMODE_CONNECTING" "elapsed7 s > 20"
  shows "\<exists>t. Wifi_NTR_Update leds s = Some t \<and> quiet_step s t \<and> counter7 (wd7 t) = timer7 s \<and> library_changed t = library_changed s \<and>
    authctr (wd7 t) = authctr (wd7 s) + 1 \<and>
    authlevel (wd7 t) = (if authctr (wd7 s) + 1 > WIFI_MAX_ASSOC_RETRY then WIFI_AUTHLEVEL_ERROR else WIFI_AUTHLEVEL_DISCONNECTED)"
proof -
  obtain a b t where t: "sent7 s a" "update_mode leds a = Some b" "quiet_step s b" "Wifi_NTR_Update leds s = Some t" "sent7 (update_channel b) t"
    using update_quiet [OF assms(1)] by blast
  note n = next_mode_sent7 [OF t(1)]
  have q: "quiet a" "curMode (wd7 a) = WIFIMODE_CONNECTING" "next_mode a = WIFIMODE_CONNECTING" "elapsed7 a > 20"
    using quiet_sent7 [OF t(1)] n assms by simp_all
  have "update_connecting leds a = Some b" using t(2) q(2) by (simp add: update_mode_def)
  then have b: "counter7 (wd7 b) = timer7 a" "authctr (wd7 b) = authctr (wd7 a) + 1" "library_changed b = library_changed a"
      "authlevel (wd7 b) = (if authctr (wd7 a) + 1 > WIFI_MAX_ASSOC_RETRY then WIFI_AUTHLEVEL_ERROR else WIFI_AUTHLEVEL_DISCONNECTED)"
    using connecting_waits [OF q(1-3), of leds] q(4) by auto
  have a: "authctr (wd7 a) = authctr (wd7 s)" "timer7 a = timer7 s" using t(1) by (simp_all add: sent7_def timer7_def kept_regs_def)
  have "quiet_step s t" using quiet_step_calm [OF t(3) cm.keep_trans [OF update_channel_calm calm_sent7 [OF t(5)]]] .
  moreover have "authctr (wd7 t) = authctr (wd7 b)" "authlevel (wd7 t) = authlevel (wd7 b)" "counter7 (wd7 t) = counter7 (wd7 b)"
      "library_changed t = library_changed b"
    using t(5) update_channel_fields [of b] next_mode_sent7(2) [OF t(5)] by (simp_all add: sent7_def)
  ultimately show ?thesis using t(4) b a n(2) by auto
qed

text \<open>A connection with \<open>k\<close> retries left before the driver sees that it has failed.\<close>

definition retrying :: "nat \<Rightarrow> arm7 \<Rightarrow> bool" where
  "retrying k s \<longleftrightarrow> quiet s \<and> curMode (wd7 s) = WIFIMODE_CONNECTING \<and> reqMode (wd7 s) = WIFIMODE_CONNECTED \<and> \<not> library_changed s \<and>
     (if k = 0 then authlevel (wd7 s) = WIFI_AUTHLEVEL_ERROR
      else authlevel (wd7 s) \<notin> {WIFI_AUTHLEVEL_ASSOCIATED, WIFI_AUTHLEVEL_ERROR} \<and> unat (authctr (wd7 s)) + k = 6)"

definition given_up :: "arm7 \<Rightarrow> bool" where
  "given_up s \<longleftrightarrow> quiet s \<and> curMode (wd7 s) = WIFIMODE_CANNOTCONNECT \<and> reqMode (wd7 s) = WIFIMODE_CONNECTED \<and> \<not> library_changed s"

lemma quiet_step_library:
  "quiet_step s t \<Longrightarrow> curMode (wd7 s) \<noteq> WIFIMODE_NORMAL \<Longrightarrow> library_changed t = library_changed s"
  using quiet_stepD [of s t] by (simp add: library_changed_def next_library_def)

lemma updates_given_up: "given_up s \<Longrightarrow> \<exists>u. updates leds ts s = Some u \<and> given_up u"
proof (induction ts arbitrary: s)
  case (Cons t ts)
  obtain u where u: "updates leds (t # ts) s = updates leds ts u" "quiet_step s u"
    using updates_Cons [of s leds t ts] Cons.prems unfolding given_up_def by blast
  have "next_mode s = WIFIMODE_CANNOTCONNECT" using Cons.prems by (simp add: given_up_def next_mode_def)
  then have "given_up u" using quiet_stepD [OF u(2)] quiet_step_library [OF u(2)] Cons.prems by (auto simp: given_up_def)
  then show ?case using Cons.IH u(1) by auto
qed auto

lemma retrying_update:
  assumes "retrying (Suc k) s" "ucast t - counter7 (wd7 s) > (20 :: u32)"
  shows "\<exists>u. updates leds (t # ts) s = updates leds ts u \<and> retrying k u \<and> counter7 (wd7 u) = ucast t"
proof -
  let ?s = "set_reg W_US_COUNT1 t s"
  have r: "quiet s" "curMode (wd7 s) = WIFIMODE_CONNECTING" "reqMode (wd7 s) = WIFIMODE_CONNECTED" "\<not> library_changed s"
      "authlevel (wd7 s) \<notin> {WIFI_AUTHLEVEL_ASSOCIATED, WIFI_AUTHLEVEL_ERROR}" "unat (authctr (wd7 s)) + Suc k = 6"
    using assms(1) by (auto simp: retrying_def)
  have n: "next_mode ?s = WIFIMODE_CONNECTING"
    using r by (simp add: next_mode_def Wifi_AssociationIsSuccess_def Wifi_AssociationIsFailure_def)
  have e: "elapsed7 ?s > 20" "timer7 ?s = ucast t" using assms(2) by (simp_all add: elapsed7_def timer7_def)
  obtain u where u: "Wifi_NTR_Update leds ?s = Some u" "quiet_step ?s u" "counter7 (wd7 u) = timer7 ?s" "library_changed u = library_changed ?s"
      "authctr (wd7 u) = authctr (wd7 ?s) + 1"
      "authlevel (wd7 u) = (if authctr (wd7 ?s) + 1 > WIFI_MAX_ASSOC_RETRY then WIFI_AUTHLEVEL_ERROR else WIFI_AUTHLEVEL_DISCONNECTED)"
    using connecting_update [of ?s, OF _ _ n e(1)] r(1,2) by auto
  have c: "unat (authctr (wd7 s) + 1) = unat (authctr (wd7 s)) + 1" using r(6) by (simp add: unat_word_ariths)
  have "authctr (wd7 s) + 1 > WIFI_MAX_ASSOC_RETRY \<longleftrightarrow> k = 0" using c r(6) by (simp add: word_less_nat_alt) linarith
  then have "retrying k u" using quiet_stepD [OF u(2)] u(4-6) n r c by (auto simp: retrying_def)
  then show ?thesis using u(1,3) e(2) by auto
qed

lemma failed_update:
  assumes "retrying 0 s"
  shows "\<exists>u. updates leds (t # ts) s = updates leds ts u \<and> given_up u"
proof -
  obtain u where u: "updates leds (t # ts) s = updates leds ts u" "quiet_step s u"
    using updates_Cons [of s leds t ts] assms unfolding retrying_def by blast
  have "next_mode s = WIFIMODE_CANNOTCONNECT"
    using assms by (simp add: retrying_def next_mode_def Wifi_AssociationIsFailure_def Wifi_AssociationIsSuccess_def)
  then have "given_up u" using quiet_stepD [OF u(2)] quiet_step_library [OF u(2)] assms by (auto simp: retrying_def given_up_def)
  then show ?thesis using u(1) by auto
qed

lemma retrying_gives_up:
  "retrying k s \<Longrightarrow> spaced 20 (counter7 (wd7 s)) ts \<Longrightarrow> k < length ts \<Longrightarrow> \<exists>u. updates leds ts s = Some u \<and> given_up u"
proof (induction ts arbitrary: k s)
  case (Cons t ts)
  show ?case
  proof (cases k)
    case 0
    then obtain u where "updates leds (t # ts) s = updates leds ts u" "given_up u" using failed_update Cons.prems(1) by blast
    then show ?thesis using updates_given_up by metis
  next
    case (Suc j)
    then obtain u where u: "updates leds (t # ts) s = updates leds ts u" "retrying j u" "counter7 (wd7 u) = ucast t"
      using retrying_update [of j s t leds ts] Cons.prems(1,2) by auto
    then show ?thesis using Cons.IH [of j u] Cons.prems(2,3) Suc by auto
  qed
qed simp

text \<open>When an access point never answers, the driver gives up: it repeats the authentication request at most
  five times, and seven updates, each more than a second after the one before, take it to the mode that tells the
  ARM9 that the connection is impossible, where it stays until the ARM9 takes the request back.\<close>

theorem connecting_gives_up:
  assumes "quiet s" "curMode (wd7 s) = WIFIMODE_CONNECTING" "reqMode (wd7 s) = WIFIMODE_CONNECTED" "\<not> library_changed s"
    and "authlevel (wd7 s) \<notin> {WIFI_AUTHLEVEL_ASSOCIATED, WIFI_AUTHLEVEL_ERROR}" "authctr (wd7 s) \<le> WIFI_MAX_ASSOC_RETRY"
    and "spaced 20 (counter7 (wd7 s)) ts" "7 \<le> length ts"
  shows "\<exists>u. updates leds ts s = Some u \<and> curMode (wd7 u) = WIFIMODE_CANNOTCONNECT"
proof -
  have "unat (authctr (wd7 s)) \<le> 5" using assms(6) by (simp add: word_le_nat_alt)
  then have "retrying (6 - unat (authctr (wd7 s))) s" using assms(1-5) by (auto simp: retrying_def)
  moreover have "6 - unat (authctr (wd7 s)) < length ts" using assms(8) by linarith
  ultimately show ?thesis using retrying_gives_up [OF _ assms(7)] by (auto simp: given_up_def)
qed

section \<open>Scanning\<close>

lemma scan_update:
  assumes "quiet s" "curMode (wd7 s) = WIFIMODE_SCAN" "next_mode s = WIFIMODE_SCAN" "elapsed7 s > 1"
  shows "\<exists>t. Wifi_NTR_Update leds s = Some t \<and> quiet_step s t \<and> counter7 (wd7 t) = timer7 s \<and> library_changed t = library_changed s \<and>
    curChannel (wd7 t) = of_nat (scanlist ! wifi_scan_index s) \<and> wifi_scan_index t = (wifi_scan_index s + 1) mod length scanlist"
proof -
  obtain a b t where t: "sent7 s a" "update_mode leds a = Some b" "quiet_step s b" "Wifi_NTR_Update leds s = Some t" "sent7 (update_channel b) t"
    using update_quiet [OF assms(1)] by blast
  note n = next_mode_sent7 [OF t(1)]
  have q: "quiet a" "curMode (wd7 a) = WIFIMODE_SCAN" "next_mode a = WIFIMODE_SCAN" "elapsed7 a > 1"
    using quiet_sent7 [OF t(1)] n assms by simp_all
  have a: "wifi_scan_index a = wifi_scan_index s" "timer7 a = timer7 s" using t(1) by (simp_all add: sent7_def timer7_def kept_regs_def)
  have "update_scan leds a = Some b" using t(2) q(2) by (simp add: update_mode_def)
  then have b: "counter7 (wd7 b) = timer7 s" "curChannel (wd7 b) = of_nat (scanlist ! wifi_scan_index s)"
      "wifi_scan_index b = (wifi_scan_index s + 1) mod length scanlist" "library_changed b = library_changed s"
    using scan_continues [OF q(1-3), of leds] q(4) a n(2) by auto
  have "curMode (wd7 b) = WIFIMODE_SCAN" using quiet_stepD(1) [OF t(3)] assms(3) by simp
  then have c: "update_channel b = b" by (simp add: update_channel_def)
  have "quiet_step s t" using quiet_step_calm [OF t(3) calm_sent7] t(5) c by simp
  moreover have "counter7 (wd7 t) = counter7 (wd7 b)" "curChannel (wd7 t) = curChannel (wd7 b)" "wifi_scan_index t = wifi_scan_index b"
      "library_changed t = library_changed b"
    using t(5) next_mode_sent7(2) [OF t(5)] unfolding c by (simp_all add: sent7_def)
  ultimately show ?thesis using t(4) b by auto
qed

text \<open>The channels that the radio is tuned to after each update of a sequence.\<close>

fun tuned :: "led_codes \<Rightarrow> u16 list \<Rightarrow> arm7 \<Rightarrow> u8 list option" where
  "tuned leds [] s = Some []"
| "tuned leds (t # ts) s =
     do { s \<leftarrow> Wifi_NTR_Update leds (set_reg W_US_COUNT1 t s); cs \<leftarrow> tuned leds ts s; Some (curChannel (wd7 s) # cs) }"

definition scanning :: "arm7 \<Rightarrow> bool" where
  "scanning s \<longleftrightarrow> quiet s \<and> curMode (wd7 s) = WIFIMODE_SCAN \<and> reqMode (wd7 s) = WIFIMODE_SCAN \<and> \<not> library_changed s"

lemma tuned_channels:
  "scanning s \<Longrightarrow> spaced 1 (counter7 (wd7 s)) ts \<Longrightarrow>
     tuned leds ts s = Some (map (\<lambda>k. of_nat (scanlist ! ((wifi_scan_index s + k) mod length scanlist))) [0..<length ts])"
proof (induction ts arbitrary: s)
  case (Cons t ts)
  let ?s = "set_reg W_US_COUNT1 t s" and ?n = "length scanlist" and ?i = "wifi_scan_index s"
  have n: "next_mode ?s = WIFIMODE_SCAN" "quiet ?s" "curMode (wd7 ?s) = WIFIMODE_SCAN" "\<not> library_changed ?s"
    using Cons.prems(1) by (simp_all add: scanning_def next_mode_def)
  have e: "elapsed7 ?s > 1" "timer7 ?s = ucast t" using Cons.prems(2) by (simp_all add: elapsed7_def timer7_def)
  obtain u where u: "Wifi_NTR_Update leds ?s = Some u" "quiet_step ?s u" "counter7 (wd7 u) = ucast t" "library_changed u = library_changed ?s"
      "curChannel (wd7 u) = of_nat (scanlist ! ?i)" "wifi_scan_index u = (?i + 1) mod ?n"
    using scan_update [OF n(2,3,1) e(1)] e(2) by auto
  have "scanning u" using quiet_stepD [OF u(2)] n u(4) Cons.prems(1) by (simp add: scanning_def)
  moreover have "spaced 1 (counter7 (wd7 u)) ts" using Cons.prems(2) u(3) by simp
  ultimately have "tuned leds ts u = Some (map (\<lambda>k. of_nat (scanlist ! ((wifi_scan_index u + k) mod ?n))) [0..<length ts])" by (rule Cons.IH)
  moreover have "?i < ?n" using Cons.prems(1) by (simp add: scanning_def quiet_def)
  ultimately show ?case
    using u(1,5,6) by (simp add: mod_add_left_eq upt_conv_Cons map_Suc_upt [symmetric] del: upt_Suc)
qed simp

text \<open>A scan without traffic tunes the radio to each of the thirteen channels exactly once in every thirteen
  updates that are far enough apart, wherever in the list of channels it stands.\<close>

theorem scan_covers_channels:
  assumes "scanning s" "spaced 1 (counter7 (wd7 s)) ts" "length ts = 13"
  shows "\<exists>cs. tuned leds ts s = Some cs \<and> distinct cs \<and> set cs = of_nat ` {1..13}"
proof -
  let ?r = "rotate (wifi_scan_index s) scanlist"
  have "map (\<lambda>k. of_nat (scanlist ! ((wifi_scan_index s + k) mod length scanlist))) [0..<length ts] = map of_nat ?r"
    by (rule nth_equalityI) (simp_all add: assms(3) scanlist_channels(3) nth_rotate)
  then have t: "tuned leds ts s = Some (map of_nat ?r)" using tuned_channels [OF assms(1,2)] by simp
  have "inj_on (of_nat :: nat \<Rightarrow> u8) {1..13}"
    by (rule inj_onI) (auto dest!: arg_cong [of _ _ unat] simp: unat_of_nat take_bit_nat_eq_self)
  then have "distinct (map (of_nat :: nat \<Rightarrow> u8) ?r)" using scanlist_channels by (simp add: distinct_map)
  then show ?thesis using t scanlist_channels(2) by simp
qed

definition quiet_ex :: "WIFI_MODE \<Rightarrow> WIFI_MODE \<Rightarrow> arm7" where
  "quiet_ex cur req = wd7_upd (\<lambda>w. w\<lparr>curMode := cur, reqMode := req, flags7 := WFLAG_ARM7_ACTIVE\<rparr>) (arm7_zero\<lparr>WifiData_set7 := True\<rparr>)"

lemma quiet_quiet_ex:
  assumes "cur \<notin> {WIFIMODE_INITIALIZING, WIFIMODE_DISCONNECTING, WIFIMODE_ACCESSPOINT}"
  shows "quiet (quiet_ex cur req)" "curMode (wd7 (quiet_ex cur req)) = cur" "reqMode (wd7 (quiet_ex cur req)) = req"
    "\<not> library_changed (quiet_ex cur req)" "authlevel (wd7 (quiet_ex cur req)) = WIFI_AUTHLEVEL_DISCONNECTED"
    "authctr (wd7 (quiet_ex cur req)) = 0" "counter7 (wd7 (quiet_ex cur req)) = 0"
  using assms
  by (simp_all add: quiet_ex_def quiet_def arm7_zero_def zero_main_def zero_ap_def zero_buf_def zero_clients_def tx_data7_def
    read_u32_def scanlist_def library_changed_def)

theorem update_follows_modes_witness:
  "\<exists>t. Wifi_NTR_Update (\<lambda>_. 0) (quiet_ex WIFIMODE_CONNECTED WIFIMODE_SCAN) = Some t \<and> curMode (wd7 t) = WIFIMODE_NORMAL"
proof -
  have q: "quiet (quiet_ex WIFIMODE_CONNECTED WIFIMODE_SCAN)" by (rule quiet_quiet_ex) simp
  have "next_mode (quiet_ex WIFIMODE_CONNECTED WIFIMODE_SCAN) = WIFIMODE_NORMAL" by (simp add: next_mode_def quiet_ex_def)
  then show ?thesis using update_follows_modes [OF q, of "\<lambda>_. 0"] by auto
qed

theorem request_reached_witness:
  "\<exists>u. updates (\<lambda>_. 0) [0, 0] (quiet_ex WIFIMODE_CONNECTING WIFIMODE_SCAN) = Some u \<and> curMode (wd7 u) = WIFIMODE_SCAN"
proof -
  have q: "quiet (quiet_ex WIFIMODE_CONNECTING WIFIMODE_SCAN)" by (rule quiet_quiet_ex) simp
  have "reqMode (wd7 (quiet_ex WIFIMODE_CONNECTING WIFIMODE_SCAN)) = WIFIMODE_SCAN" by (rule quiet_quiet_ex) simp
  then show ?thesis using request_reached [OF q, of WIFIMODE_SCAN "[0, 0]" "\<lambda>_. 0"] by (auto simp del: updates.simps)
qed

theorem connecting_gives_up_witness:
  "\<exists>u. updates (\<lambda>_. 0) [30, 60, 90, 120, 150, 180, 210] (quiet_ex WIFIMODE_CONNECTING WIFIMODE_CONNECTED) = Some u \<and>
     curMode (wd7 u) = WIFIMODE_CANNOTCONNECT"
proof -
  let ?s = "quiet_ex WIFIMODE_CONNECTING WIFIMODE_CONNECTED"
  have q: "quiet ?s" "curMode (wd7 ?s) = WIFIMODE_CONNECTING" "reqMode (wd7 ?s) = WIFIMODE_CONNECTED" "\<not> library_changed ?s"
      "authlevel (wd7 ?s) = WIFI_AUTHLEVEL_DISCONNECTED" "authctr (wd7 ?s) = 0" "counter7 (wd7 ?s) = 0"
    by (rule quiet_quiet_ex, simp)+
  show ?thesis
    by (rule connecting_gives_up [OF q(1-4)]) (simp_all add: q)
qed

theorem scan_covers_channels_witness:
  "\<exists>cs. tuned (\<lambda>_. 0) [2, 4, 6, 8, 10, 12, 14, 16, 18, 20, 22, 24, 26] (quiet_ex WIFIMODE_SCAN WIFIMODE_SCAN) = Some cs \<and>
     distinct cs \<and> set cs = of_nat ` {1..13}"
proof -
  let ?s = "quiet_ex WIFIMODE_SCAN WIFIMODE_SCAN"
  have q: "quiet ?s" "curMode (wd7 ?s) = WIFIMODE_SCAN" "reqMode (wd7 ?s) = WIFIMODE_SCAN" "\<not> library_changed ?s" "counter7 (wd7 ?s) = 0"
    by (rule quiet_quiet_ex, simp)+
  show ?thesis by (rule scan_covers_channels) (simp_all add: q scanning_def)
qed

section \<open>The table of clients of a host\<close>

lemma start_host_inv:
  assumes "start_host s = Some t" "clients_spinlock (clients (wd7 s)) = 0" "unat (reqMaxClients (wd7 s)) \<le> 15"
  shows "mp_inv t"
proof -
  define a where "a = set_reg_mac W_BSSID (MacAddr (wd7 s)) (Wifi_NTR_SetupTransferOptions WIFI_TRANSFER_RATE_2MBPS True
    (set_reg W_IE (regs s W_IE OR IRQ_MULTIPLAY_CMD_DONE) (set_reg W_TXSTATCNT (regs s W_TXSTATCNT OR TXSTATCNT_IRQ_MP_ACK)
      (Wifi_NTR_SetAssociationID 0 s))))"
  have a: "clients_spinlock (clients (wd7 a)) = 0" "reqMaxClients (wd7 a) = reqMaxClients (wd7 s)"
    using assms(2) by (simp_all add: a_def set_reg_mac_def Wifi_NTR_SetupTransferOptions_def Wifi_NTR_SetAssociationID_def Let_def)
  obtain b where b: "Wifi_MPHost_ResetClients a = Some b"
      "wd7 b = (wd7 a)\<lparr>clients := (clients (wd7 a))\<lparr>client_list := replicate 15 zero_client, num_connected := 0, aid_mask := BIT 0\<rparr>\<rparr>"
    using ResetClients_effect [OF a(1)] by blast
  define c where "c = wd7_upd (\<lambda>w. w\<lparr>curMaxClients := reqMaxClients w, curCmdDataSize := reqCmdDataSize w,
    curReplyDataSize := reqReplyDataSize w\<rparr>) b"
  have c: "mp_inv c"
    using mp_ok_empty [of "unat (reqMaxClients (wd7 s))"] assms(3) a b(2) by (simp add: c_def mp_inv_at_def)
  have "t = set_mode WIFIMODE_ACCESSPOINT (Wifi_SetupFilterMode WIFI_FILTERMODE_MULTIPLAYER_HOST c)"
    using assms(1) b(1) unfolding start_host_def Let_def a_def c_def
    by (simp add: Wifi_NTR_SetupTransferOptions_def Wifi_NTR_SetAssociationID_def Let_def set_reg_mac_def)
  moreover have "sent7 c (Wifi_SetupFilterMode WIFI_FILTERMODE_MULTIPLAYER_HOST c)" by (intro sent7_SetupFilterMode sent7_refl)
  ultimately show ?thesis using c mp_inv_sent7_0 by (simp add: set_mode_def mp_inv_at_def)
qed

lemma AssociationUpdate_mode: "Wifi_AssociationUpdate s = Some t \<Longrightarrow> curMode (wd7 t) = curMode (wd7 s)"
  using AssociationUpdate_effect [of s] by (auto simp: sent7_def)

lemma SetChannel_mode [simp]: "curMode (wd7 (Wifi_SetChannel7 c s)) = curMode (wd7 s)"
  using calm_SetChannel [of s c] by (simp add: calm_def)

lemma led_mode [simp]: "curMode (wd7 (Wifi_SetLedState l s)) = curMode (wd7 s)" "clients (wd7 (Wifi_SetLedState l s)) = clients (wd7 s)"
  "reqMaxClients (wd7 (Wifi_SetLedState l s)) = reqMaxClients (wd7 s)"
  by (simp_all add: Wifi_SetLedState_def)

lemma set_mode_mode [simp]: "curMode (wd7 (set_mode m s)) = m" "curMode (wd7 (go_idle s)) = WIFIMODE_NORMAL"
  by (simp_all add: set_mode_def go_idle_def)

lemma scan_next_mode: "scan_next s = Some t \<Longrightarrow> curMode (wd7 t) = curMode (wd7 s)"
  by (auto simp: scan_next_def Let_def Wifi_AccessPointTick_def split: if_splits)

lemma start_scan_mode: "start_scan s = Some t \<Longrightarrow> curMode (wd7 t) = WIFIMODE_SCAN"
  by (auto simp: start_scan_def Let_def Option.bind_eq_Some_conv Wifi_SetupFilterMode_def Wifi_TWL_SetupFilterMode_def
    Wifi_NTR_SetupFilterMode_def)

lemma start_connection_mode:
  assumes "start_connection s = Some t"
  shows "curMode (wd7 t) = WIFIMODE_CONNECTING"
proof -
  obtain c where "Wifi_AssociationStart (wd7_upd (\<lambda>w. w\<lparr>counter7 := timer7 c, curMode := WIFIMODE_CONNECTING\<rparr>) c) = Some t"
    using assms unfolding start_connection_def Let_def by (rule that)
  then show ?thesis
    using AssociationStart_effect [of "wd7_upd (\<lambda>w. w\<lparr>counter7 := timer7 c, curMode := WIFIMODE_CONNECTING\<rparr>) c"] by (auto simp: sent7_def)
qed

lemma update_normal_host:
  assumes "update_normal leds s = Some t" "clients_spinlock (clients (wd7 s)) = 0" "unat (reqMaxClients (wd7 s)) \<le> 15"
    "curMode (wd7 s) = WIFIMODE_NORMAL" "curMode (wd7 t) = WIFIMODE_ACCESSPOINT"
  shows "mp_inv t"
proof -
  define b where "b = wd7_upd (\<lambda>w. w\<lparr>curLibraryMode := reqLibraryMode w\<rparr>)
    (set_reg_mac W_BSSID [0, 0, 0, 0, 0, 0] (Wifi_SetLedState (leds LED_BLINK_SLOW) s))"
  have b: "clients_spinlock (clients (wd7 b)) = 0" "unat (reqMaxClients (wd7 b)) \<le> 15" "curMode (wd7 b) = WIFIMODE_NORMAL"
    using assms by (simp_all add: b_def set_reg_mac_def)
  have "start_host b = Some t \<or> curMode (wd7 t) \<noteq> WIFIMODE_ACCESSPOINT"
    using assms(1) b(3) start_scan_mode [of b t] start_connection_mode [of _ t]
    unfolding update_normal_def Let_def b_def [symmetric] by (auto split: if_splits option.splits)
  then show ?thesis using start_host_inv b assms(5) by blast
qed

lemma connected_mode: "update_connected leds s = Some t \<Longrightarrow> curMode (wd7 t) \<in> {curMode (wd7 s), WIFIMODE_NORMAL, WIFIMODE_CANNOTCONNECT}"
  using keepalive_sent7 [of "Wifi_SetLedState (leds LED_BLINK_FAST) s"]
  by (auto simp: update_connected_def Let_def Option.bind_eq_Some_conv sent7_def split: if_splits)

lemma update_accesspoint_host:
  assumes "update_accesspoint leds s = Some t" "mp_inv s" "curMode (wd7 t) = WIFIMODE_ACCESSPOINT"
  shows "mp_inv t"
proof -
  let ?a = "Wifi_SetLedState (leds LED_BLINK_FAST) s"
  have a: "mp_inv ?a" using assms(2) mp_inv_sent7_0 [OF sent7_SetLedState [OF sent7_refl]] by blast
  have "stop_host ?a = Some t \<Longrightarrow> curMode (wd7 t) = WIFIMODE_NORMAL"
    by (auto simp: stop_host_def Let_def Option.bind_eq_Some_conv)
  then obtain b where b: "kick_requested ?a = Some b" "update_allow b = Some t"
    using assms(1,3) by (auto simp: update_accesspoint_def Let_def Option.bind_eq_Some_conv split: if_splits)
  have kicks: "kick_aids aids is x = Some y \<Longrightarrow> mp_inv x \<Longrightarrow> mp_inv y" for aids "is" x y
  proof (induction "is" arbitrary: x)
    case (Cons i "is")
    then show ?case using KickByAID_spec [of x i] by (auto simp: Option.bind_eq_Some_conv split: if_splits)
  qed simp
  have "mp_inv (clients_upd7 (\<lambda>c. c\<lparr>reqKickClientAIDMask := 0\<rparr>) ?a)" using a by (simp add: mp_inv_at_def mp_ok_def)
  then have "mp_inv b" using b(1) kicks a by (auto simp: kick_requested_def Let_def split: if_splits)
  moreover have s: "mp_inv (Wifi_SetBeaconAllowsConnections x b) = mp_inv b" for x
    by (rule mp_inv_sent7_0) (intro sent7_beacon_bytes sent7_refl)
  ultimately show ?thesis
    using b(2) KickNotAssociatedClients_spec [of "Wifi_SetBeaconAllowsConnections 0 b"]
    by (auto simp: update_allow_def Let_def split: if_splits)
qed

lemma update_mode_host:
  assumes "update_mode leds s = Some t" "clients_spinlock (clients (wd7 s)) = 0" "unat (reqMaxClients (wd7 s)) \<le> 15"
    "curMode (wd7 s) = WIFIMODE_ACCESSPOINT \<longrightarrow> mp_inv s" "curMode (wd7 t) = WIFIMODE_ACCESSPOINT"
  shows "mp_inv t"
proof (cases "curMode (wd7 s)")
  case WIFIMODE_NORMAL
  then show ?thesis using update_normal_host assms by (auto simp: update_mode_def)
next
  case WIFIMODE_ACCESSPOINT
  then show ?thesis using update_accesspoint_host assms by (auto simp: update_mode_def)
next
  case WIFIMODE_CONNECTED
  then show ?thesis using connected_mode [of leds s t] assms by (auto simp: update_mode_def)
qed (use assms in \<open>auto simp: update_mode_def update_disabled_def update_scan_def update_connecting_def
  update_cannotconnect_def Let_def dest!: scan_next_mode AssociationUpdate_mode split: if_splits\<close>)

text \<open>C17: The table of clients of a host is always consistent: an update that enters the access point mode, and every
  update in that mode, with whatever frames it receives, kicks, sends and stores meanwhile, ends with a table that
  fulfils the invariant.\<close>

theorem host_table_consistent:
  assumes "Wifi_NTR_Update leds s = Some t" "clients_spinlock (clients (wd7 s)) = 0"
    "unat (reqMaxClients (wd7 s)) \<le> WIFI_MAX_MULTIPLAYER_CLIENTS" "curMode (wd7 s) = WIFIMODE_ACCESSPOINT \<longrightarrow> mp_inv s"
  shows "curMode (wd7 t) = WIFIMODE_ACCESSPOINT \<longrightarrow> mp_inv t"
proof (cases "WifiData_set7 s \<and> flags7 (wd7 s) AND WFLAG_ARM7_ACTIVE \<noteq> 0")
  case True
  define a where "a = wd7_upd (\<lambda>w. stat_add WSTAT_ARM7_UPDATES 1 (Wifi_RandomAddEntropy (ucast (regs s W_RANDOM)) w)) s"
  obtain b c where bc: "update_mode leds a = Some b" "Wifi_RxQueueFlush (update_channel b) = Some c" "Wifi_TxAllQueueFlush c = Some t"
    using assms(1) True unfolding Wifi_NTR_Update_def Let_def a_def [symmetric] by (auto simp: Option.bind_eq_Some_conv)
  have sa: "sent7 s a" unfolding a_def by (intro sent7_wd7_upd sent7_refl)
  have ab: "curMode (wd7 b) = WIFIMODE_ACCESSPOINT \<longrightarrow> mp_inv b"
    using update_mode_host [OF bc(1)] assms(2-4) sa mp_inv_sent7_0 [OF sa] by (auto simp: sent7_def)
  have m: "curMode (wd7 (update_channel b)) = curMode (wd7 b)" using update_channel_calm [of b] by (simp add: calm_def)
  have i: "mp_inv (update_channel b) = mp_inv b"
    unfolding mp_inv_at_def update_channel_fields ..
  have "keeps (update_channel b) t" using RxQueueFlush_keeps [OF bc(2)] keeps_trans_view [OF _ TxAllQueueFlush_view [OF bc(3)]] by blast
  then show ?thesis using ab m i by (simp add: keeps_def ctl7_def)
next
  case False
  then have "Wifi_NTR_Update leds s = Some s" unfolding Wifi_NTR_Update_def by simp
  then have "t = s" using assms(1) by simp
  then show ?thesis using assms(4) by simp
qed

theorem host_table_consistent_witness:
  "\<exists>t. Wifi_NTR_Update (\<lambda>_. 0) (quiet_ex WIFIMODE_NORMAL WIFIMODE_ACCESSPOINT) = Some t \<and>
     curMode (wd7 t) = WIFIMODE_ACCESSPOINT \<and> mp_inv t"
proof -
  let ?s = "quiet_ex WIFIMODE_NORMAL WIFIMODE_ACCESSPOINT"
  have q: "quiet ?s" "curMode (wd7 ?s) = WIFIMODE_NORMAL" "reqMode (wd7 ?s) = WIFIMODE_ACCESSPOINT" by (rule quiet_quiet_ex, simp)+
  have "next_mode ?s = WIFIMODE_ACCESSPOINT" using q by (simp add: next_mode_def)
  then obtain t where t: "Wifi_NTR_Update (\<lambda>_. 0) ?s = Some t" "curMode (wd7 t) = WIFIMODE_ACCESSPOINT"
    using update_quiet_step [OF q(1), of "\<lambda>_. 0"] quiet_stepD(1) by auto
  have "mp_inv t" using host_table_consistent [OF t(1)] t(2) q(1,2) by (simp add: quiet_def)
  then show ?thesis using t by blast
qed

end
