(* ===== verification/Twl_Update.thy ===== *)
theory Twl_Update
  imports Twl_Link Ntr_Modes
begin

text \<open>
  The state machine of the DSi driver (\<^verbatim>\<open>arm7/twl/update.twl.c\<close>) with its transmission queue
  (\<^verbatim>\<open>twl/tx_queue.twl.c\<close>), and the entry points of the ARM7 that choose between the two
  drivers: initialisation (\<^verbatim>\<open>arm7/setup.c\<close>, \<^verbatim>\<open>Wifi_NTR_Init\<close>, \<^verbatim>\<open>Wifi_TWL_Init\<close>), update
  (\<^verbatim>\<open>arm7/update.c\<close>) and the handlers of the messages of the ARM9 (\<^verbatim>\<open>arm7/ipc.c\<close>). The contents
  of the firmware memory, whether the console is a DSi, and the time are parameters.
\<close>

section \<open>The transmission queue\<close>

text \<open>The loop ends at the stop marker. The local read index is the one in the shared structure whenever the
  loop is at its beginning.\<close>

definition twl_tx_packet :: "u32 \<Rightarrow> u32 \<Rightarrow> arm7 \<Rightarrow> arm7 option" where
  "twl_tx_packet idx sz s =
     (let b = txbuf (wd7 s);
          s = twl_upd (data_send_pkt_idk (read_bytes (bufData b) (unat (idx + 4)) (unat sz))) s
      in map_option (\<lambda>b. wd7_upd (\<lambda>w.
             stat_add WSTAT_TXDATABYTES sz (stat_add WSTAT_TXBYTES sz (stat_add WSTAT_TXPACKETS 1 (w\<lparr>txbuf := b\<rparr>)))) s)
           (BufferAdvance WIFI_TXBUFFER_SIZE idx sz b))"

partial_function (option) twl_tx_loop :: "arm7 \<Rightarrow> arm7 option" where
  "twl_tx_loop s =
     (case BufferNext (txbuf (wd7 s)) of
        None \<Rightarrow> Some s
      | Some (idx, sz) \<Rightarrow> Option.bind (twl_tx_packet idx sz s) twl_tx_loop)"

definition Wifi_TWL_TxArm9QueueFlush :: "arm7 \<Rightarrow> arm7 option" where
  "Wifi_TWL_TxArm9QueueFlush s = (if bufRead (txbuf (wd7 s)) AND 3 \<noteq> 0 then None else twl_tx_loop s)"

section \<open>The state machine\<close>

definition twl_disabled :: "arm7 \<Rightarrow> arm7 option" where
  "twl_disabled s =
     (if reqMode (wd7 s) \<noteq> WIFIMODE_DISABLED then map_option (set_mode WIFIMODE_INITIALIZING) (Wifi_TWL_Start s)
      else Some s)"

definition twl_normal :: "arm7 \<Rightarrow> arm7 option" where
  "twl_normal s =
     (if reqMode (wd7 s) = WIFIMODE_DISABLED then Some (set_mode WIFIMODE_DISABLED (Wifi_TWL_Stop s))
      else if reqMode (wd7 s) = WIFIMODE_SCAN
      then map_option (\<lambda>w. set_mode WIFIMODE_SCAN (twl_upd wmi_scan_mode_start (s\<lparr>wd7 := w\<rparr>))) (Wifi_AccessPointClearAll (wd7 s))
      else if reqMode (wd7 s) = WIFIMODE_CONNECTED
      then (case load_wfc_key s of
              None \<Rightarrow> Some (set_mode WIFIMODE_CANNOTCONNECT s)
            | Some s \<Rightarrow> Some (set_mode WIFIMODE_CONNECTING (wmi_connect s)))
      else Some s)"

definition twl_scan :: "arm7 \<Rightarrow> arm7" where
  "twl_scan s = (if reqMode (wd7 s) \<noteq> WIFIMODE_SCAN then set_mode WIFIMODE_NORMAL s else wmi_scan_mode_tick s)"

definition twl_give_up :: "WIFI_MODE \<Rightarrow> arm7 \<Rightarrow> arm7" where
  "twl_give_up m s = set_mode m (twl_upd wmi_disconnect_cmd s)"

definition twl_connecting :: "arm7 \<Rightarrow> arm7" where
  "twl_connecting s =
     (if wmi_is_ap_connected s then set_mode WIFIMODE_CONNECTED s
      else if \<not> wmi_is_ap_connecting s then twl_give_up WIFIMODE_CANNOTCONNECT s
      else if reqMode (wd7 s) \<noteq> WIFIMODE_CONNECTED then twl_give_up WIFIMODE_DISCONNECTING s
      else s)"

definition twl_connected :: "arm7 \<Rightarrow> arm7" where
  "twl_connected s =
     (if reqMode (wd7 s) = WIFIMODE_CONNECTED
      then if \<not> wmi_is_ap_connected s then twl_give_up WIFIMODE_CANNOTCONNECT s else s
      else twl_give_up WIFIMODE_DISCONNECTING s)"

text \<open>The mode of an access point is not supported and stops the program.\<close>

definition twl_update_mode :: "arm7 \<Rightarrow> arm7 option" where
  "twl_update_mode s =
     (case curMode (wd7 s) of
        WIFIMODE_DISABLED \<Rightarrow> twl_disabled s
      | WIFIMODE_INITIALIZING \<Rightarrow> Some (if wifi_card_initted (twl s) then set_mode WIFIMODE_NORMAL s else s)
      | WIFIMODE_NORMAL \<Rightarrow> twl_normal s
      | WIFIMODE_SCAN \<Rightarrow> Some (twl_scan s)
      | WIFIMODE_CONNECTING \<Rightarrow> Some (twl_connecting s)
      | WIFIMODE_CONNECTED \<Rightarrow> Some (twl_connected s)
      | WIFIMODE_DISCONNECTING \<Rightarrow> Some (if \<not> wmi_is_ap_connected s then set_mode WIFIMODE_NORMAL s else s)
      | WIFIMODE_CANNOTCONNECT \<Rightarrow>
          Some (if reqMode (wd7 s) \<noteq> WIFIMODE_CONNECTED then set_mode WIFIMODE_NORMAL s else s)
      | WIFIMODE_ACCESSPOINT \<Rightarrow> None)"

definition Wifi_TWL_Update :: "arm7 \<Rightarrow> arm7 option" where
  "Wifi_TWL_Update s =
     (if \<not> WifiData_set7 s then Some s
      else if flags7 (wd7 s) AND WFLAG_ARM7_ACTIVE = 0 then Some s
      else do { s \<leftarrow> twl_update_mode s; Wifi_TWL_TxArm9QueueFlush s })"

definition Wifi_Update7 :: "led_codes \<Rightarrow> arm7 \<Rightarrow> arm7 option" where
  "Wifi_Update7 leds s =
     (if \<not> WifiData_set7 s then Some s
      else if dsi_mode7 s then Wifi_TWL_Update s else Wifi_NTR_Update leds s)"

section \<open>Initialisation\<close>

definition load_wfc :: "(Wifi_MainStruct \<Rightarrow> Wifi_MainStruct option) \<Rightarrow> arm7 \<Rightarrow> arm7 option" where
  "load_wfc f s = map_option (\<lambda>w. s\<lparr>wd7 := w\<rparr>) (f (wd7 s))"

text \<open>Switching the wireless hardware on and the timing of its bus are left out.\<close>

definition ntr_init_reset :: "(nat \<Rightarrow> u8) \<Rightarrow> arm7 \<Rightarrow> arm7" where
  "ntr_init_reset firmware s =
     (let s = Wifi_FlashInitData firmware s;
          s = set_reg W_MODE_RST 0xFFFF s;
          s = Wifi_NTR_Shutdown (Wifi_NTR_Stop s);
          s = wd7_upd (\<lambda>w. w\<lparr>curChannel := 1, reqChannel := 1, curMode := WIFIMODE_DISABLED,
                maxrate7 := ucast WIFI_TRANSFER_RATE_1MBPS\<rparr>) s
      in s\<lparr>macmem := \<lambda>a. if a < 0x2000 \<and> even a then 0 else macmem s a\<rparr>)"

definition ntr_init_hardware :: "arm7 \<Rightarrow> arm7 option" where
  "ntr_init_hardware s =
     (let s = wd7_upd (\<lambda>w. w\<lparr>MacAddr := le16 (Wifi_FlashReadHWord F_MAC_ADDRESS s) @
                le16 (Wifi_FlashReadHWord (F_MAC_ADDRESS + 2) s) @ le16 (Wifi_FlashReadHWord (F_MAC_ADDRESS + 4) s)\<rparr>) s
      in do { s \<leftarrow> Wifi_NTR_WakeUp (set_reg W_IE 0 s);
              let s = Wifi_BBInit (Wifi_MacInit s);
              let s = set_reg_mac W_MACADDR (MacAddr (wd7 s)) s;
              let s = set_reg W_TX_RETRYLIMIT 7 s;
              let s = Wifi_NTR_SetSleepMode (unat MODE_WEP_SLEEP_OFF) s;
              let s = Wifi_NTR_SetWepMode 0 s;
              let s = Wifi_SetChannel7 1 s;
              let s = Wifi_BBWrite REG_MM3218_CCA 0 s;
              let s = Wifi_BBWrite REG_MM3218_ENERGY_DETECTION_THRESHOLD 0x1F s;
              let s = wd7_upd (Wifi_RandomAddEntropy (ucast (regs s W_RANDOM))) s;
              Some (s\<lparr>wifi_irq_enabled := True\<rparr>) })"

definition Wifi_NTR_Init :: "(nat \<Rightarrow> u8) \<Rightarrow> bool \<Rightarrow> arm7 \<Rightarrow> arm7 option" where
  "Wifi_NTR_Init firmware isDSiMode s =
     do { s \<leftarrow> load_wfc (Wifi_NTR_GetWfcSettings firmware) (ntr_init_reset firmware s);
          s \<leftarrow> (if isDSiMode then load_wfc (Wifi_TWL_GetWfcSettings firmware False) s else Some s);
          ntr_init_hardware s }"

definition Wifi_TWL_Init :: "(nat \<Rightarrow> u8) \<Rightarrow> arm7 \<Rightarrow> arm7 option" where
  "Wifi_TWL_Init firmware s =
     do { s \<leftarrow> load_wfc (Wifi_NTR_GetWfcSettings firmware) s; load_wfc (Wifi_TWL_GetWfcSettings firmware True) s }"

definition Wifi_Init7 :: "(nat \<Rightarrow> u8) \<Rightarrow> bool \<Rightarrow> u32 \<Rightarrow> Wifi_MainStruct \<Rightarrow> arm7 \<Rightarrow> arm7 option" where
  "Wifi_Init7 firmware isDSiMode now wifidata s =
     do { let s = s\<lparr>WifiData_set7 := True, wd7 := Wifi_RandomAddEntropy now wifidata\<rparr>;
          s \<leftarrow> (if dsi_mode7 s then Wifi_TWL_Init firmware s else Wifi_NTR_Init firmware isDSiMode s);
          Some (wd7_upd (\<lambda>w. w\<lparr>flags7 := flags7 w OR WFLAG_ARM7_ACTIVE\<rparr>) s) }"

section \<open>Messages of the ARM9\<close>

definition wifiAddressHandler :: "(nat \<Rightarrow> u8) \<Rightarrow> bool \<Rightarrow> u32 \<Rightarrow> Wifi_MainStruct \<Rightarrow> arm7 \<Rightarrow> arm7 option" where
  "wifiAddressHandler firmware isDSiMode now address s = Wifi_Init7 firmware isDSiMode now address s"

definition wifiValue32Handler :: "led_codes \<Rightarrow> fifo_msg \<Rightarrow> arm7 \<Rightarrow> arm7 option" where
  "wifiValue32Handler leds val s =
     (case val of
        WIFI_SYNC \<Rightarrow> Wifi_Update7 leds s
      | WIFI_DEINIT \<Rightarrow> Some (Wifi_Deinit7 s)
      | _ \<Rightarrow> Some s)"


section \<open>The queue is sent to the card\<close>

abbreviation twl_tx_inv :: "circbuf \<Rightarrow> packet list \<Rightarrow> bool" where
  "twl_tx_inv \<equiv> ring_inv (unat WIFI_TXBUFFER_SIZE) unat"

lemma twl_tx_packet_sent:
  assumes "next_packet (unat WIFI_TXBUFFER_SIZE) unat (txbuf (wd7 s)) idx p ps"
  shows "\<exists>s' b. twl_tx_packet idx (fst p) s = Some s' \<and> twl_tx_inv (txbuf (wd7 s')) ps \<and>
    sent_blocks (ops (twl s')) = sent_blocks (ops (twl s)) @ [b] \<and> sent_as 2 0 0x2008 (take 1530 (snd p)) b \<and>
    core (twl s') = core (twl s) \<and>
    (\<exists>ri. wd7 s' = stat_add WSTAT_TXDATABYTES (fst p) (stat_add WSTAT_TXBYTES (fst p) (stat_add WSTAT_TXPACKETS 1
       ((wd7 s)\<lparr>txbuf := (txbuf (wd7 s))\<lparr>bufRead := ri\<rparr>\<rparr>)))) \<and> WifiData_set7 s' = WifiData_set7 s"
proof -
  let ?b = "txbuf (wd7 s)" and ?data = "snd p"
  have n: "unat idx mod 4 = 0" "length ?data = unat (fst p)" "unat idx + 8 + align4 (length ?data) \<le> 24576"
      "read_bytes (bufData ?b) (unat idx + 4) (length ?data) = ?data"
    and pop: "\<And>b'. bufData b' = bufData ?b \<Longrightarrow> bufWrite b' = bufWrite ?b \<Longrightarrow>
        unat (bufRead b') = unat idx + 4 + align4 (length ?data) \<Longrightarrow> twl_tx_inv b' ps"
    using assms by (auto simp: next_packet_def)
  have i: "unat (idx + 4) = unat idx + 4" using n(3) by (simp add: unat_word_ariths)
  obtain ri where ri: "BufferAdvance WIFI_TXBUFFER_SIZE idx (fst p) ?b = Some (?b\<lparr>bufRead := ri\<rparr>)"
      "unat ri = unat idx + 4 + align4 (length ?data)"
    using advance_ok [of idx "fst p" WIFI_TXBUFFER_SIZE ?b] n by auto
  have "length ?data < 0x10000" using n(3) align4_bounds(1) [of "length ?data"] by simp
  from send_packet_sent [OF this, of 2 0 "0x2008" "twl s"] obtain b
    where b: "sent_blocks (ops (data_send_pkt_idk ?data (twl s))) = sent_blocks (ops (twl s)) @ [b]"
      "sent_as 2 0 0x2008 (take 1530 ?data) b"
    by (auto simp: data_send_pkt_idk_def)
  have "twl_tx_packet idx (fst p) s = Some (wd7_upd (\<lambda>w. stat_add WSTAT_TXDATABYTES (fst p) (stat_add WSTAT_TXBYTES (fst p)
      (stat_add WSTAT_TXPACKETS 1 (w\<lparr>txbuf := ?b\<lparr>bufRead := ri\<rparr>\<rparr>)))) (twl_upd (data_send_pkt_idk ?data) s))"
    using n ri(1) i unfolding twl_tx_packet_def Let_def by (simp add: twl_upd_def)
  moreover have "twl_tx_inv (?b\<lparr>bufRead := ri\<rparr>) ps" using pop ri(2) by simp
  ultimately show ?thesis using b core_send(4) [of ?data "twl s"]
    by (intro exI [of _ "wd7_upd _ _"] exI [of _ b]) (auto simp: wd7_upd_def twl_upd_def stat_add_def)
qed

lemma twl_tx_loop_run:
  "twl_tx_inv (txbuf (wd7 s)) ps \<Longrightarrow>
    \<exists>s' bs. twl_tx_loop s = Some s' \<and> twl_tx_inv (txbuf (wd7 s')) [] \<and>
      sent_blocks (ops (twl s')) = sent_blocks (ops (twl s)) @ bs \<and>
      list_all2 (\<lambda>p. sent_as 2 0 0x2008 (take 1530 (snd p))) ps bs \<and>
      stats (wd7 s') WSTAT_TXPACKETS = stats (wd7 s) WSTAT_TXPACKETS + of_nat (length ps) \<and>
      core (twl s') = core (twl s) \<and> WifiData_set7 s' = WifiData_set7 s \<and>
      (\<exists>b st. wd7 s' = (wd7 s)\<lparr>txbuf := b, stats := st\<rparr>)"
proof (induction ps arbitrary: s)
  case Nil
  then have "twl_tx_loop s = Some s" using ring_next_Nil by (subst twl_tx_loop.simps) force
  then show ?case using Nil by (intro exI [of _ s] exI [of _ "[]"]) (auto intro!: exI [of _ "txbuf (wd7 s)"] exI [of _ "stats (wd7 s)"])
next
  case (Cons p ps)
  obtain tag bs where p: "p = (tag, bs)" by (cases p)
  obtain idx where idx: "next_packet (unat WIFI_TXBUFFER_SIZE) unat (txbuf (wd7 s)) idx p ps"
    using ring_next_Cons [OF Cons.prems [unfolded p]] p by blast
  then have nx: "BufferNext (txbuf (wd7 s)) = Some (idx, fst p)" by (simp add: next_packet_def)
  from twl_tx_packet_sent [OF idx] obtain s1 b ri where s1: "twl_tx_packet idx (fst p) s = Some s1" "twl_tx_inv (txbuf (wd7 s1)) ps"
      "sent_blocks (ops (twl s1)) = sent_blocks (ops (twl s)) @ [b]" "sent_as 2 0 0x2008 (take 1530 (snd p)) b"
      "core (twl s1) = core (twl s)" "WifiData_set7 s1 = WifiData_set7 s"
      "wd7 s1 = stat_add WSTAT_TXDATABYTES (fst p) (stat_add WSTAT_TXBYTES (fst p) (stat_add WSTAT_TXPACKETS 1
       ((wd7 s)\<lparr>txbuf := (txbuf (wd7 s))\<lparr>bufRead := ri\<rparr>\<rparr>)))" by blast
  from Cons.IH [OF s1(2)] obtain s' bs' b' st where s': "twl_tx_loop s1 = Some s'" "twl_tx_inv (txbuf (wd7 s')) []"
      "sent_blocks (ops (twl s')) = sent_blocks (ops (twl s1)) @ bs'"
      "list_all2 (\<lambda>p. sent_as 2 0 0x2008 (take 1530 (snd p))) ps bs'"
      "stats (wd7 s') WSTAT_TXPACKETS = stats (wd7 s1) WSTAT_TXPACKETS + of_nat (length ps)"
      "core (twl s') = core (twl s1)" "WifiData_set7 s' = WifiData_set7 s1" "wd7 s' = (wd7 s1)\<lparr>txbuf := b', stats := st\<rparr>"
    by blast
  have "twl_tx_loop s = Some s'" using nx s1(1) s'(1) by (subst twl_tx_loop.simps) simp
  moreover have "stats (wd7 s1) WSTAT_TXPACKETS = stats (wd7 s) WSTAT_TXPACKETS + 1" by (simp add: s1(7) stat_add_def)
  moreover have "wd7 s' = (wd7 s)\<lparr>txbuf := b', stats := st\<rparr>" by (simp add: s'(8) s1(7) stat_add_def)
  ultimately show ?case using s1 s' by (intro exI [of _ s'] exI [of _ "b # bs'"]) auto
qed

lemma twl_flush_run:
  assumes "twl_tx_inv (txbuf (wd7 s)) ps"
  shows "Wifi_TWL_TxArm9QueueFlush s = twl_tx_loop s"
  using assms by (simp add: Wifi_TWL_TxArm9QueueFlush_def word_and_3_eq_0 ring_inv_def Let_def)

text \<open>C27: One pass over the transmission queue of the DSi sends every packet that waits in the TX buffer to the
  card, in order, each as one block of at most 1536 bytes with the first 1530 bytes of the packet; it
  always ends, leaves the buffer empty and counts the packets.\<close>

theorem twl_tx_flush_sends_all:
  assumes "twl_tx_inv (txbuf (wd7 s)) ps"
  shows "\<exists>s' bs. Wifi_TWL_TxArm9QueueFlush s = Some s' \<and> twl_tx_inv (txbuf (wd7 s')) [] \<and>
    sent_blocks (ops (twl s')) = sent_blocks (ops (twl s)) @ bs \<and>
    list_all2 (\<lambda>p. sent_as 2 0 0x2008 (take 1530 (snd p))) ps bs \<and>
    stats (wd7 s') WSTAT_TXPACKETS = stats (wd7 s) WSTAT_TXPACKETS + of_nat (length ps)"
  using twl_tx_loop_run [OF assms] unfolding twl_flush_run [OF assms] by blast

section \<open>The modes\<close>

text \<open>What an update looks at and changes: the mode, and the state of the connection as the driver knows it.\<close>

record twl_link =
  link_mode :: WIFI_MODE
  link_ready :: bool
  link_pending :: bool
  link_joined :: bool
  link_keyed :: bool

definition link_of :: "arm7 \<Rightarrow> twl_link" where
  "link_of s = \<lparr>link_mode = curMode (wd7 s), link_ready = wifi_card_initted (twl s), link_pending = ap_connecting (twl s),
     link_joined = ap_connected (twl s), link_keyed = ap_connected (twl s) \<and> has_sent_hs4 (twl s)\<rparr>"

definition is_wpa2 :: "arm7 \<Rightarrow> bool" where
  "is_wpa2 s \<longleftrightarrow> security_type (curAp (wd7 s)) = AP_SECURITY_WPA2"

definition link_up :: "bool \<Rightarrow> twl_link \<Rightarrow> bool" where
  "link_up wpa2 l \<longleftrightarrow> link_joined l \<and> (wpa2 \<longrightarrow> link_keyed l)"

definition link_coming :: "bool \<Rightarrow> twl_link \<Rightarrow> bool" where
  "link_coming wpa2 l \<longleftrightarrow> link_pending l \<or> wpa2 \<and> link_joined l \<and> \<not> link_keyed l"

text \<open>The table of modes of the DSi: one update for a request, given whether the network uses WPA2 and whether
  the key of a saved network that is asked for exists.\<close>

definition next_link :: "bool \<Rightarrow> bool \<Rightarrow> WIFI_MODE \<Rightarrow> twl_link \<Rightarrow> twl_link" where
  "next_link wpa2 has_key req l =
     (case link_mode l of
        WIFIMODE_DISABLED \<Rightarrow>
          if req = WIFIMODE_DISABLED then l
          else \<lparr>link_mode = WIFIMODE_INITIALIZING, link_ready = False, link_pending = False, link_joined = False, link_keyed = False\<rparr>
      | WIFIMODE_INITIALIZING \<Rightarrow> if link_ready l then l\<lparr>link_mode := WIFIMODE_NORMAL\<rparr> else l
      | WIFIMODE_NORMAL \<Rightarrow>
          if req = WIFIMODE_DISABLED then l\<lparr>link_mode := WIFIMODE_DISABLED, link_ready := False\<rparr>
          else if req = WIFIMODE_SCAN then l\<lparr>link_mode := WIFIMODE_SCAN\<rparr>
          else if req = WIFIMODE_CONNECTED
          then if \<not> has_key then l\<lparr>link_mode := WIFIMODE_CANNOTCONNECT\<rparr>
               else if link_pending l then l\<lparr>link_mode := WIFIMODE_CONNECTING\<rparr>
               else l\<lparr>link_mode := WIFIMODE_CONNECTING, link_pending := True, link_keyed := (\<not> wpa2 \<and> link_keyed l)\<rparr>
          else l
      | WIFIMODE_SCAN \<Rightarrow> if req = WIFIMODE_SCAN then l else l\<lparr>link_mode := WIFIMODE_NORMAL\<rparr>
      | WIFIMODE_CONNECTING \<Rightarrow>
          if link_up wpa2 l then l\<lparr>link_mode := WIFIMODE_CONNECTED\<rparr>
          else if \<not> link_coming wpa2 l then l\<lparr>link_mode := WIFIMODE_CANNOTCONNECT, link_pending := False\<rparr>
          else if req = WIFIMODE_CONNECTED then l
          else l\<lparr>link_mode := WIFIMODE_DISCONNECTING, link_pending := False\<rparr>
      | WIFIMODE_CONNECTED \<Rightarrow>
          if req \<noteq> WIFIMODE_CONNECTED then l\<lparr>link_mode := WIFIMODE_DISCONNECTING, link_pending := False\<rparr>
          else if link_up wpa2 l then l
          else l\<lparr>link_mode := WIFIMODE_CANNOTCONNECT, link_pending := False\<rparr>
      | WIFIMODE_DISCONNECTING \<Rightarrow> if link_up wpa2 l then l else l\<lparr>link_mode := WIFIMODE_NORMAL\<rparr>
      | WIFIMODE_CANNOTCONNECT \<Rightarrow> if req = WIFIMODE_CONNECTED then l else l\<lparr>link_mode := WIFIMODE_NORMAL\<rparr>
      | WIFIMODE_ACCESSPOINT \<Rightarrow> l)"

lemma send_link:
  "ap_connecting (wmi_send_pkt cmd a d t) = ap_connecting t" "ap_connected (wmi_send_pkt cmd a d t) = ap_connected t"
  "has_sent_hs4 (wmi_send_pkt cmd a d t) = has_sent_hs4 t" "wifi_card_initted (wmi_send_pkt cmd a d t) = wifi_card_initted t"
  using core_same [OF core_send(2) [of cmd a d t]] by (simp_all add: wifi_card_initted_def wmi_is_ready_def)

lemmas command_defs = error_report_bitmask_def wmi_set_bss_filter_def wmi_set_scan_params_def wmi_set_channel_params_def
  wmi_byte_cmd_def wmi_create_pstream_def wmi_start_scan_def wmi_disconnect_cmd_def wmi_scan_mode_start_def

definition same_link :: "twl \<Rightarrow> twl \<Rightarrow> bool" where
  "same_link t u \<longleftrightarrow> wifi_card_initted u = wifi_card_initted t \<and> ap_connecting u = ap_connecting t \<and>
     ap_connected u = ap_connected t \<and> has_sent_hs4 u = has_sent_hs4 t"

lemma ready_fields [simp]:
  "wifi_card_initted (t\<lparr>ap_connecting := x\<rparr>) = wifi_card_initted t" "wifi_card_initted (t\<lparr>wmi_idk := i\<rparr>) = wifi_card_initted t"
  "wifi_card_initted (t\<lparr>num_rounds_scanned := n\<rparr>) = wifi_card_initted t"
  "wifi_card_initted (t\<lparr>device_cur_channel_idx := j\<rparr>) = wifi_card_initted t"
  "wifi_card_initted (t\<lparr>has_sent_hs2 := y, has_sent_hs4 := z\<rparr>) = wifi_card_initted t"
  "wifi_card_initted (t\<lparr>wmi_is_scanning := b\<rparr>) = wifi_card_initted t"
  by (simp_all add: wifi_card_initted_def wmi_is_ready_def)

lemma scan_link:
  "same_link t (wmi_scan_mode_start t)" "same_link (twl s) (twl (wmi_scan_mode_tick s))"
  by (simp_all add: same_link_def wmi_scan_mode_tick_def command_defs send_link Let_def wd7_upd_def)

lemma twl_upd_fields [simp]:
  "twl (twl_upd f s) = f (twl s)" "wd7 (twl_upd f s) = wd7 s" "WifiData_set7 (twl_upd f s) = WifiData_set7 s"
  by (simp_all add: twl_upd_def)

lemma add_key_link:
  "same_link (twl s) (twl (wmi_add_cipher_key idx usage k rsc s))" "wd7 (wmi_add_cipher_key idx usage k rsc s) = wd7 s"
  "WifiData_set7 (wmi_add_cipher_key idx usage k rsc s) = WifiData_set7 s"
  unfolding wmi_add_cipher_key_def Let_def twl_upd_fields same_link_def send_link by (rule refl conjI)+

lemma same_link_trans: "same_link t u \<Longrightarrow> same_link u v \<Longrightarrow> same_link t v"
  by (simp add: same_link_def)

lemma send_same_link: "same_link t (wmi_send_pkt cmd a d t)"
  by (simp add: same_link_def send_link)

lemma connect_link:
  "same_link (twl s) (twl (wmi_connect_cmd s))" "wd7 (wmi_connect_cmd s) = wd7 s" "WifiData_set7 (wmi_connect_cmd s) = WifiData_set7 s"
proof -
  show "same_link (twl s) (twl (wmi_connect_cmd s))"
    unfolding wmi_connect_cmd_def Let_def
    by (cases "security_type (curAp (wd7 s))")
      (simp_all only: Wifi_ApSecurityType.simps twl_upd_fields send_same_link same_link_trans [OF _ send_same_link]
        same_link_trans [OF _ add_key_link(1)] add_key_link)
  show "wd7 (wmi_connect_cmd s) = wd7 s" "WifiData_set7 (wmi_connect_cmd s) = WifiData_set7 s"
    unfolding wmi_connect_cmd_def Let_def
    by (cases "security_type (curAp (wd7 s))"; simp only: Wifi_ApSecurityType.simps twl_upd_fields add_key_link(2,3))+
qed

lemma prepare_cases:
  "prepare_wpa s = twl_upd (\<lambda>t. t\<lparr>has_sent_hs2 := False, has_sent_hs4 := False\<rparr>) s \<or>
   (\<exists>sec. prepare_wpa s = twl_upd (\<lambda>t. t\<lparr>has_sent_hs2 := False, has_sent_hs4 := False\<rparr>) (s\<lparr>wd7 := (wd7 s)\<lparr>curApSecurity := sec\<rparr>\<rparr>))"
proof (cases "\<exists>b \<in> set (pmk (curApSecurity (wd7 s))). b \<noteq> 0")
  case True
  then show ?thesis unfolding prepare_wpa_def Let_def if_P [OF True] by (intro disjI1) (rule refl)
next
  case False
  show ?thesis unfolding prepare_wpa_def Let_def if_not_P [OF False] wd7_upd_def by (intro disjI2 exI) (rule refl)
qed

lemma prepare_link:
  "twl (prepare_wpa s) = (twl s)\<lparr>has_sent_hs2 := False, has_sent_hs4 := False\<rparr>"
  "\<exists>sec. wd7 (prepare_wpa s) = (wd7 s)\<lparr>curApSecurity := sec\<rparr>" "WifiData_set7 (prepare_wpa s) = WifiData_set7 s"
proof -
  have same: "\<exists>sec. wd7 s = (wd7 s)\<lparr>curApSecurity := sec\<rparr>" by (rule exI [of _ "curApSecurity (wd7 s)"]) simp
  show "twl (prepare_wpa s) = (twl s)\<lparr>has_sent_hs2 := False, has_sent_hs4 := False\<rparr>"
    "\<exists>sec. wd7 (prepare_wpa s) = (wd7 s)\<lparr>curApSecurity := sec\<rparr>" "WifiData_set7 (prepare_wpa s) = WifiData_set7 s"
    by (rule disjE [OF prepare_cases [of s]], simp_all add: same del: Wifi_MainStruct.surjective, auto)+
qed

lemma idk_fields:
  "ap_connecting (t\<lparr>wmi_idk := i\<rparr>) = ap_connecting t" "ap_connected (t\<lparr>wmi_idk := i\<rparr>) = ap_connected t"
  "has_sent_hs4 (t\<lparr>wmi_idk := i\<rparr>) = has_sent_hs4 t"
  by simp_all

lemma connect_setup_link: "same_link t (connect_setup mhz t)"
  unfolding same_link_def connect_setup_def Let_def command_defs by (simp only: send_link ready_fields idk_fields simp_thms)

text \<open>The state in which the command to connect is sent.\<close>

definition connect_ready :: "arm7 \<Rightarrow> arm7" where
  "connect_ready s =
     (if is_wpa2 s then prepare_wpa (twl_upd (ap_connecting_update (\<lambda>_. True)) s)
      else twl_upd (ap_connecting_update (\<lambda>_. True)) s)"

lemma wmi_connect_setup:
  "wmi_connect s =
     (if ap_connecting (twl s) then s
      else wmi_connect_cmd (twl_upd (connect_setup (wifi_channel_to_mhz (channel (curAp (wd7 (connect_ready s)))))) (connect_ready s)))"
  unfolding wmi_connect_def connect_ready_def Let_def is_wpa2_def twl_upd_fields by (rule refl)

lemma connect_ready_link:
  "wifi_card_initted (twl (connect_ready s)) = wifi_card_initted (twl s)" "ap_connecting (twl (connect_ready s))"
  "ap_connected (twl (connect_ready s)) = ap_connected (twl s)"
  "has_sent_hs4 (twl (connect_ready s)) = (has_sent_hs4 (twl s) \<and> \<not> is_wpa2 s)"
  "\<exists>sec. wd7 (connect_ready s) = (wd7 s)\<lparr>curApSecurity := sec\<rparr>" "WifiData_set7 (connect_ready s) = WifiData_set7 s"
proof -
  let ?s = "twl_upd (ap_connecting_update (\<lambda>_. True)) s"
  have same: "\<exists>sec. wd7 s = (wd7 s)\<lparr>curApSecurity := sec\<rparr>" by (rule exI [of _ "curApSecurity (wd7 s)"]) simp
  show "wifi_card_initted (twl (connect_ready s)) = wifi_card_initted (twl s)" "ap_connecting (twl (connect_ready s))"
    "ap_connected (twl (connect_ready s)) = ap_connected (twl s)"
    "has_sent_hs4 (twl (connect_ready s)) = (has_sent_hs4 (twl s) \<and> \<not> is_wpa2 s)" "WifiData_set7 (connect_ready s) = WifiData_set7 s"
    by (simp_all add: connect_ready_def prepare_link(1,3))
  show "\<exists>sec. wd7 (connect_ready s) = (wd7 s)\<lparr>curApSecurity := sec\<rparr>"
    using same prepare_link(2) [of ?s] by (cases "is_wpa2 s") (simp_all only: connect_ready_def twl_upd_fields if_True if_False)
qed

lemma wmi_connect_link:
  "wifi_card_initted (twl (wmi_connect s)) = wifi_card_initted (twl s)"
  "ap_connecting (twl (wmi_connect s))" "ap_connected (twl (wmi_connect s)) = ap_connected (twl s)"
  "has_sent_hs4 (twl (wmi_connect s)) = (has_sent_hs4 (twl s) \<and> (ap_connecting (twl s) \<or> \<not> is_wpa2 s))"
  "\<exists>sec. wd7 (wmi_connect s) = (wd7 s)\<lparr>curApSecurity := sec\<rparr>" "WifiData_set7 (wmi_connect s) = WifiData_set7 s"
proof -
  let ?r = "connect_ready s"
  let ?m = "connect_setup (wifi_channel_to_mhz (channel (curAp (wd7 ?r))))"
  have same: "\<exists>sec. wd7 s = (wd7 s)\<lparr>curApSecurity := sec\<rparr>" by (rule exI [of _ "curApSecurity (wd7 s)"]) simp
  have "same_link (twl ?r) (twl (wmi_connect_cmd (twl_upd ?m ?r)))"
    using same_link_trans [OF connect_setup_link connect_link(1) [of "twl_upd ?m ?r", unfolded twl_upd_fields]] .
  note link = this [unfolded same_link_def] connect_ready_link [of s]
  show "wifi_card_initted (twl (wmi_connect s)) = wifi_card_initted (twl s)" "ap_connecting (twl (wmi_connect s))"
    "ap_connected (twl (wmi_connect s)) = ap_connected (twl s)"
    "has_sent_hs4 (twl (wmi_connect s)) = (has_sent_hs4 (twl s) \<and> (ap_connecting (twl s) \<or> \<not> is_wpa2 s))"
    using link by (simp_all add: wmi_connect_setup)
  show "\<exists>sec. wd7 (wmi_connect s) = (wd7 s)\<lparr>curApSecurity := sec\<rparr>"
    using same connect_ready_link(5) [of s]
    by (cases "ap_connecting (twl s)") (simp_all only: wmi_connect_setup connect_link(2) twl_upd_fields if_True if_False)
  show "WifiData_set7 (wmi_connect s) = WifiData_set7 s"
    by (simp add: wmi_connect_setup connect_link(3) connect_ready_link(6))
qed

lemma card_init_link:
  assumes "wifi_card_init t = Some u"
  shows "\<not> wifi_card_initted u" "\<not> ap_connecting u" "\<not> ap_connected u"
  using assms by (auto simp: wifi_card_init_def wmi_init_def wifi_card_initted_def wmi_is_ready_def)

lemma card_deinit_link:
  "\<not> wifi_card_initted (wifi_card_deinit t)" "ap_connecting (wifi_card_deinit t) = ap_connecting t"
  "ap_connected (wifi_card_deinit t) = ap_connected t" "has_sent_hs4 (wifi_card_deinit t) = has_sent_hs4 t"
proof -
  show "\<not> wifi_card_initted (wifi_card_deinit t)" by (simp add: wifi_card_deinit_def Let_def wifi_card_initted_def)
  let ?t = "t\<lparr>card_irq_on := False, twl_timer_on := False\<rparr>"
  have "core (wifi_card_write_func0_u8 4 0 (wifi_card_write_func1_u32 F1_INT_STATUS_ENABLE 0 ?t)) = core ?t" by (simp add: card_simps)
  from core_same [OF this] show "ap_connecting (wifi_card_deinit t) = ap_connecting t"
    "ap_connected (wifi_card_deinit t) = ap_connected t" "has_sent_hs4 (wifi_card_deinit t) = has_sent_hs4 t"
    by (simp_all add: wifi_card_deinit_def Let_def)
qed

lemma load_wfc_key_wd7:
  "load_wfc_key s = Some s' \<Longrightarrow> twl s' = twl s \<and> WifiData_set7 s' = WifiData_set7 s \<and> (\<exists>sec. wd7 s' = (wd7 s)\<lparr>curApSecurity := sec\<rparr>)"
  by (auto simp: load_wfc_key_def wd7_upd_def split: if_splits intro: exI [of _ "curApSecurity (wd7 s)"])

lemma twl_fields:
  "twl (set_mode m s) = twl s" "wd7 (set_mode m s) = (wd7 s)\<lparr>curMode := m\<rparr>" "WifiData_set7 (set_mode m s) = WifiData_set7 s"
  by (simp_all add: set_mode_def wd7_upd_def)

text \<open>The driver is active, holds no lock, is not asked to be an access point by itself, and the TX buffer is
  consistent.\<close>

definition twl_settled :: "arm7 \<Rightarrow> bool" where
  "twl_settled s \<longleftrightarrow> WifiData_set7 s \<and> flags7 (wd7 s) AND WFLAG_ARM7_ACTIVE \<noteq> 0 \<and>
     (\<forall>ap \<in> set (aplist (wd7 s)). ap_spinlock ap = 0) \<and> (\<exists>ps. twl_tx_inv (txbuf (wd7 s)) ps)"

definition twl_step :: "arm7 \<Rightarrow> twl_link \<Rightarrow> arm7 \<Rightarrow> bool" where
  "twl_step s l t \<longleftrightarrow> twl_settled t \<and> link_of t = l \<and> is_wpa2 t = is_wpa2 s \<and> reqMode (wd7 t) = reqMode (wd7 s)"

lemma stepI:
  assumes "twl_settled s" "WifiData_set7 t = WifiData_set7 s" "link_of t = l"
    "flags7 (wd7 t) = flags7 (wd7 s)" "\<forall>ap \<in> set (aplist (wd7 t)). ap_spinlock ap = 0" "txbuf (wd7 t) = txbuf (wd7 s)"
    "curAp (wd7 t) = curAp (wd7 s)" "reqMode (wd7 t) = reqMode (wd7 s)"
  shows "twl_step s l t"
  using assms by (simp add: twl_step_def twl_settled_def is_wpa2_def)

lemma step_disabled:
  assumes "twl_settled s" "curMode (wd7 s) = WIFIMODE_DISABLED" "reqMode (wd7 s) \<noteq> WIFIMODE_DISABLED \<longrightarrow> wifi_card_init (twl s) \<noteq> None"
  shows "\<exists>t. twl_disabled s = Some t \<and> twl_step s (next_link w k (reqMode (wd7 s)) (link_of s)) t"
proof (cases "reqMode (wd7 s) = WIFIMODE_DISABLED")
  case True
  then show ?thesis using assms(1,2) by (simp add: twl_disabled_def twl_step_def next_link_def link_of_def)
next
  case False
  then obtain u where u: "wifi_card_init (twl s) = Some u" using assms(3) by auto
  have "link_of (set_mode WIFIMODE_INITIALIZING (s\<lparr>twl := u\<rparr>)) = next_link w k (reqMode (wd7 s)) (link_of s)"
    using card_init_link [OF u] False assms(2) by (simp add: link_of_def next_link_def twl_fields)
  then have "twl_step s (next_link w k (reqMode (wd7 s)) (link_of s)) (set_mode WIFIMODE_INITIALIZING (s\<lparr>twl := u\<rparr>))"
    using assms(1) by (intro stepI) (simp_all add: twl_fields twl_settled_def)
  then show ?thesis using False u by (simp add: twl_disabled_def Wifi_TWL_Start_def)
qed

lemma step_normal:
  assumes "twl_settled s" "curMode (wd7 s) = WIFIMODE_NORMAL"
  shows "\<exists>t. twl_normal s = Some t \<and> twl_step s (next_link (is_wpa2 s) (load_wfc_key s \<noteq> None) (reqMode (wd7 s)) (link_of s)) t"
proof -
  let ?l = "next_link (is_wpa2 s) (load_wfc_key s \<noteq> None) (reqMode (wd7 s)) (link_of s)"
  consider (off) "reqMode (wd7 s) = WIFIMODE_DISABLED" | (scan) "reqMode (wd7 s) = WIFIMODE_SCAN"
    | (conn) "reqMode (wd7 s) = WIFIMODE_CONNECTED" | (stay) "reqMode (wd7 s) \<notin> {WIFIMODE_DISABLED, WIFIMODE_SCAN, WIFIMODE_CONNECTED}"
    by auto
  then show ?thesis
  proof cases
    case off
    have "twl_step s ?l (set_mode WIFIMODE_DISABLED (Wifi_TWL_Stop s))"
      using assms off by (intro stepI) (simp_all add: twl_fields Wifi_TWL_Stop_def link_of_def next_link_def card_deinit_link twl_settled_def)
    then show ?thesis using off by (simp add: twl_normal_def)
  next
    case scan
    obtain aps where aps: "ap_clear_list (aplist (wd7 s)) = Some aps" "\<forall>ap \<in> set aps. ap_spinlock ap = 0"
      using ap_clear_list_free [of "aplist (wd7 s)"] assms(1) by (auto simp: twl_settled_def)
    have "twl_step s ?l (set_mode WIFIMODE_SCAN (twl_upd wmi_scan_mode_start (s\<lparr>wd7 := (wd7 s)\<lparr>aplist := aps\<rparr>\<rparr>)))"
      using assms scan aps(2) scan_link(1) [unfolded same_link_def] by (intro stepI) (simp_all add: twl_fields link_of_def next_link_def)
    then show ?thesis using scan aps(1) by (simp add: twl_normal_def Wifi_AccessPointClearAll_def)
  next
    case conn
    show ?thesis
    proof (cases "load_wfc_key s")
      case None
      have "twl_step s ?l (set_mode WIFIMODE_CANNOTCONNECT s)"
        using assms conn None by (intro stepI) (simp_all add: twl_fields link_of_def next_link_def twl_settled_def)
      then show ?thesis using conn None by (simp add: twl_normal_def)
    next
      case (Some a)
      obtain sec where a: "twl a = twl s" "WifiData_set7 a = WifiData_set7 s" "wd7 a = (wd7 s)\<lparr>curApSecurity := sec\<rparr>"
        using load_wfc_key_wd7 [OF Some] by blast
      obtain sec' where b: "wd7 (wmi_connect a) = (wd7 s)\<lparr>curApSecurity := sec'\<rparr>"
        using wmi_connect_link(5) [of a] by (auto simp: a(3))
      have w: "is_wpa2 a = is_wpa2 s" by (simp add: is_wpa2_def a(3))
      have "twl_step s ?l (set_mode WIFIMODE_CONNECTING (wmi_connect a))"
        using assms conn Some b a(1,2) w wmi_connect_link(1-4,6) [of a]
        by (intro stepI) (auto simp: twl_fields link_of_def next_link_def twl_settled_def)
      then show ?thesis using conn Some by (simp add: twl_normal_def)
    qed
  next
    case stay
    then show ?thesis using assms by (simp add: twl_normal_def twl_step_def next_link_def link_of_def)
  qed
qed

lemma step_connection:
  assumes "twl_settled s"
  defines "l \<equiv> next_link (is_wpa2 s) (load_wfc_key s \<noteq> None) (reqMode (wd7 s)) (link_of s)"
  shows "curMode (wd7 s) = WIFIMODE_SCAN \<Longrightarrow> twl_step s l (twl_scan s)"
    "curMode (wd7 s) = WIFIMODE_CONNECTING \<Longrightarrow> twl_step s l (twl_connecting s)"
    "curMode (wd7 s) = WIFIMODE_CONNECTED \<Longrightarrow> twl_step s l (twl_connected s)"
proof -
  have up: "wmi_is_ap_connected s = link_up (is_wpa2 s) (link_of s)" "wmi_is_ap_connecting s = link_coming (is_wpa2 s) (link_of s)"
    by (auto simp: wmi_is_ap_connected_def wmi_is_ap_connecting_def link_up_def link_coming_def link_of_def is_wpa2_def wmi_handshake_done_def)
  have give_up: "twl_step s ((link_of s)\<lparr>link_mode := m, link_pending := False\<rparr>) (twl_give_up m s)" for m
    using assms(1) by (intro stepI) (simp_all add: twl_give_up_def twl_fields link_of_def command_defs send_link twl_settled_def)
  have go: "twl_step s ((link_of s)\<lparr>link_mode := m\<rparr>) (set_mode m s)" for m
    using assms(1) by (intro stepI) (simp_all add: twl_fields link_of_def twl_settled_def)
  have stay: "twl_step s (link_of s) s" using assms(1) by (simp add: twl_step_def)
  have m: "link_mode (link_of s) = curMode (wd7 s)" by (simp add: link_of_def)
  show "twl_step s l (twl_connecting s)" if "curMode (wd7 s) = WIFIMODE_CONNECTING"
    using that m go give_up stay by (simp add: l_def next_link_def twl_connecting_def up)
  show "twl_step s l (twl_connected s)" if "curMode (wd7 s) = WIFIMODE_CONNECTED"
    using that m go give_up stay by (simp add: l_def next_link_def twl_connected_def up)
  have "twl_step s (link_of s) (wmi_scan_mode_tick s)"
    using assms(1) scan_link(2) [of s, unfolded same_link_def]
    by (intro stepI) (auto simp: link_of_def wmi_scan_mode_tick_def Let_def wd7_upd_def twl_settled_def Wifi_AccessPointTick_def)
  then show "twl_step s l (twl_scan s)" if "curMode (wd7 s) = WIFIMODE_SCAN"
    using that m go by (simp add: l_def next_link_def twl_scan_def)
qed

lemma update_mode_step:
  assumes "twl_settled s" "curMode (wd7 s) \<noteq> WIFIMODE_ACCESSPOINT"
    "curMode (wd7 s) = WIFIMODE_DISABLED \<and> reqMode (wd7 s) \<noteq> WIFIMODE_DISABLED \<longrightarrow> wifi_card_init (twl s) \<noteq> None"
  shows "\<exists>t. twl_update_mode s = Some t \<and>
    twl_step s (next_link (is_wpa2 s) (load_wfc_key s \<noteq> None) (reqMode (wd7 s)) (link_of s)) t"
proof -
  have up: "wmi_is_ap_connected s = link_up (is_wpa2 s) (link_of s)"
    by (auto simp: wmi_is_ap_connected_def link_up_def link_of_def is_wpa2_def wmi_handshake_done_def)
  have go: "twl_step s ((link_of s)\<lparr>link_mode := m\<rparr>) (set_mode m s)" for m
    using assms(1) by (intro stepI) (simp_all add: twl_fields link_of_def twl_settled_def)
  have stay: "twl_step s (link_of s) s" using assms(1) by (simp add: twl_step_def)
  have m: "link_mode (link_of s) = curMode (wd7 s)" "link_ready (link_of s) = wifi_card_initted (twl s)" by (simp_all add: link_of_def)
  show ?thesis
  proof (cases "curMode (wd7 s)")
    case WIFIMODE_DISABLED
    then show ?thesis using step_disabled [OF assms(1)] assms(3) by (simp add: twl_update_mode_def)
  next
    case WIFIMODE_NORMAL
    then show ?thesis using step_normal [OF assms(1)] by (simp add: twl_update_mode_def)
  next
    case WIFIMODE_ACCESSPOINT
    then show ?thesis using assms(2) by simp
  qed (use m go stay step_connection [OF assms(1)] up in \<open>simp_all add: twl_update_mode_def next_link_def\<close>)
qed

lemma flush_step:
  assumes "twl_step s l b"
  shows "\<exists>t. Wifi_TWL_TxArm9QueueFlush b = Some t \<and> twl_tx_inv (txbuf (wd7 t)) [] \<and> twl_step s l t \<and> core (twl t) = core (twl b)"
proof -
  obtain ps where ps: "twl_tx_inv (txbuf (wd7 b)) ps" using assms by (auto simp: twl_step_def twl_settled_def)
  obtain t b' st where t: "twl_tx_loop b = Some t" "twl_tx_inv (txbuf (wd7 t)) []" "core (twl t) = core (twl b)"
      "WifiData_set7 t = WifiData_set7 b" "wd7 t = (wd7 b)\<lparr>txbuf := b', stats := st\<rparr>"
    using twl_tx_loop_run [OF ps] by blast
  have "link_of t = link_of b"
    using core_same [OF t(3)] by (simp add: link_of_def t(5) wifi_card_initted_def wmi_is_ready_def)
  then have "twl_step s l t"
    using assms t(2,4,5) by (auto simp: twl_step_def twl_settled_def is_wpa2_def)
  then show ?thesis using t twl_flush_run [OF ps] by simp
qed

lemma update_step:
  assumes "twl_settled s" "curMode (wd7 s) \<noteq> WIFIMODE_ACCESSPOINT"
    "curMode (wd7 s) = WIFIMODE_DISABLED \<and> reqMode (wd7 s) \<noteq> WIFIMODE_DISABLED \<longrightarrow> wifi_card_init (twl s) \<noteq> None"
  shows "\<exists>b t. twl_update_mode s = Some b \<and> Wifi_TWL_Update s = Some t \<and> core (twl t) = core (twl b) \<and> twl_tx_inv (txbuf (wd7 t)) [] \<and>
    twl_step s (next_link (is_wpa2 s) (load_wfc_key s \<noteq> None) (reqMode (wd7 s)) (link_of s)) t"
proof -
  let ?l = "next_link (is_wpa2 s) (load_wfc_key s \<noteq> None) (reqMode (wd7 s)) (link_of s)"
  obtain b where b: "twl_update_mode s = Some b" "twl_step s ?l b" using update_mode_step [OF assms] by blast
  obtain t where "Wifi_TWL_TxArm9QueueFlush b = Some t" "twl_tx_inv (txbuf (wd7 t)) []" "twl_step s ?l t" "core (twl t) = core (twl b)"
    using flush_step [OF b(2)] by blast
  moreover have "Wifi_TWL_Update s = Wifi_TWL_TxArm9QueueFlush b"
    using assms(1) b(1) by (simp add: Wifi_TWL_Update_def twl_settled_def)
  ultimately show ?thesis using b(1) by (intro exI [of _ b] exI [of _ t]) simp
qed

text \<open>C11: While the TX buffer is consistent and no lock is held, an update of the DSi driver returns (unless the
  card is started and never answers) and moves the mode and the state of the connection exactly as the
  table of modes says; the transmission that follows leaves them alone and empties the TX buffer. A
  network with WPA2 is reported as connected only when the handshake is complete.\<close>

theorem twl_update_follows_modes:
  assumes "twl_settled s" "curMode (wd7 s) \<noteq> WIFIMODE_ACCESSPOINT"
    "curMode (wd7 s) = WIFIMODE_DISABLED \<and> reqMode (wd7 s) \<noteq> WIFIMODE_DISABLED \<longrightarrow> wifi_card_init (twl s) \<noteq> None"
  shows "\<exists>t. Wifi_TWL_Update s = Some t \<and> twl_tx_inv (txbuf (wd7 t)) [] \<and>
    twl_step s (next_link (is_wpa2 s) (load_wfc_key s \<noteq> None) (reqMode (wd7 s)) (link_of s)) t"
  using update_step [OF assms] by blast


section \<open>The end of the handshake\<close>

definition sent_more :: "twl \<Rightarrow> twl \<Rightarrow> bool" where
  "sent_more t u \<longleftrightarrow> (\<exists>bs. sent_blocks (ops u) = sent_blocks (ops t) @ bs)"

lemma sent_more_trans: "sent_more t u \<Longrightarrow> sent_more u v \<Longrightarrow> sent_more t v"
  by (auto simp: sent_more_def)

lemma sent_more_data:
  assumes "length data < 0x10000"
  shows "sent_more t (data_send_pkt data t)"
  using send_packet_sent [OF assms, of 2 MBOXPKT_NOACK 0 t] by (auto simp: sent_more_def data_send_pkt_def)

lemma sent_more_wmi:
  assumes "length data < 0xFFFE"
  shows "sent_more t (wmi_send_pkt cmd a data t)"
  using wmi_send_sent [OF assms, of cmd a t] by (auto simp: sent_more_def)

lemma sent_more_key: "sent_more (twl s) (twl (wmi_add_cipher_key idx usage k rsc s))"
proof -
  define n :: nat where "n = min (unat (if security_type (curAp (wd7 s)) = AP_SECURITY_WEP then pass_len (curApSecurity (wd7 s))
    else if (if usage = 1 then group_crypt_type (curAp (wd7 s)) else AP_CRYPT_AES) = AP_CRYPT_TKIP then 0x20 else 0x10)) 0x10"
  have "n \<le> 16" by (simp add: n_def)
  then show ?thesis unfolding wmi_add_cipher_key_def Let_def twl_upd_fields n_def [symmetric]
    by (intro sent_more_wmi) (auto split: option.split)
qed

lemma ap_connected_data: "ap_connected (data_send_pkt data t) = ap_connected t" "has_sent_hs4 (data_send_pkt data t) = has_sent_hs4 t"
  "device_ptk (data_send_pkt data t) = device_ptk t" "wifi_card_initted (data_send_pkt data t) = wifi_card_initted t"
  using core_same [OF core_send(3) [of data t]] by (simp_all add: wifi_card_initted_def wmi_is_ready_def)

lemma device_ptk_wmi: "device_ptk (wmi_send_pkt cmd a d t) = device_ptk t"
  using core_same [OF core_send(2) [of cmd a d t]] by simp

text \<open>The command that hands the temporal key of a WPA2 connection to the card.\<close>

definition pairwise_key_cmd :: "u8 list \<Rightarrow> u8 list" where
  "pairwise_key_cmd k = [0, crypt_byte AP_CRYPT_AES, 0, 16] @ replicate 8 0 @ k @ replicate 16 0 @ [3]"

lemma pairwise_key_sent:
  assumes "length k = 16" "is_wpa2 s"
  shows "\<exists>b. sent_blocks (ops (twl (wmi_add_cipher_key 0 0 k None s))) = sent_blocks (ops (twl s)) @ [b] \<and>
    sent_as MBOXPKT_WMI MBOXPKT_REQACK (wmi_idk (twl s)) (le16 WMI_ADD_CIPHER_KEY_CMD @ pairwise_key_cmd k) b"
proof -
  have "twl (wmi_add_cipher_key 0 0 k None s) = wmi_send_pkt WMI_ADD_CIPHER_KEY_CMD MBOXPKT_REQACK (pairwise_key_cmd k) (twl s)"
    using assms by (simp add: wmi_add_cipher_key_def pairwise_key_cmd_def is_wpa2_def Let_def)
  moreover have "length (pairwise_key_cmd k) = 45" using assms(1) by (simp add: pairwise_key_cmd_def)
  ultimately show ?thesis
    using wmi_send_sent [of "pairwise_key_cmd k" WMI_ADD_CIPHER_KEY_CMD MBOXPKT_REQACK "twl s"] by simp
qed

text \<open>What installing the keys does: the temporal key is sent to the card between other blocks.\<close>

lemma install_keys_sent:
  fixes s :: arm7 and p :: mem8
  assumes "is_wpa2 s" "length (tk (device_ptk (twl s))) = 16"
  defines "t \<equiv> twl (install_keys p s)"
  shows "\<exists>u b. sent_more (twl s) u \<and> sent_as MBOXPKT_WMI MBOXPKT_REQACK (wmi_idk (twl s)) (le16 WMI_ADD_CIPHER_KEY_CMD @
      pairwise_key_cmd (tk (device_ptk (twl s)))) b \<and> (\<exists>bs. sent_blocks (ops t) = sent_blocks (ops u) @ b # bs)"
    "ap_connected t = ap_connected (twl s)" "has_sent_hs4 t = has_sent_hs4 (twl s)" "wifi_card_initted t = wifi_card_initted (twl s)"
    "wd7 (install_keys p s) = wd7 s" "WifiData_set7 (install_keys p s) = WifiData_set7 s"
proof -
  define gtk where "gtk = wpa_decrypt_gtk (stack7 s) (kek (device_ptk (twl s))) (read_bytes p 99 (unat (getbe16 p 97)))"
  define v where "v = data_send_pkt (le16 0x0200) (data_send_pkt (le16 0x0200) (wmi_byte_cmd WMI_SYNCHRONIZE_CMD 1
    ((twl s)\<lparr>device_gtk_keyinfo := gtk\<rparr>)))"
  define s1 where "s1 = s\<lparr>twl := v\<rparr>"
  define s2 where "s2 = wmi_add_cipher_key 0 0 (tk (device_ptk (twl s))) None s1"
  define s3 where "s3 = wmi_add_cipher_key (gtk_keyidx gtk) 1 (gtk_key gtk) (Some (read_bytes p 65 8)) s2"
  have w: "security_type (curAp (wd7 s)) = AP_SECURITY_WPA2" using assms(1) by (simp add: is_wpa2_def)
  have i: "install_keys p s = twl_upd (wmi_byte_cmd WMI_SYNCHRONIZE_CMD 1) s3"
    using w by (simp add: install_keys_def wmi_post_handshake_def s3_def s2_def s1_def v_def gtk_def twl_upd_def Let_def)
  have v: "sent_more (twl s) v"
  proof -
    have l: "length (le16 0x0200) < 0x10000" by (simp add: le16_def)
    have "sent_more ((twl s)\<lparr>device_gtk_keyinfo := gtk\<rparr>) v"
      unfolding v_def wmi_byte_cmd_def by (rule sent_more_trans [OF sent_more_trans [OF sent_more_wmi sent_more_data [OF l]] sent_more_data [OF l]]) simp
    then show ?thesis by (simp add: sent_more_def)
  qed
  have idk: "wmi_idk v = wmi_idk (twl s)"
    unfolding v_def wmi_byte_cmd_def using core_same(18) [OF core_send(3)] core_same(18) [OF core_send(2)] by simp
  have "is_wpa2 s1" using assms(1) by (simp add: is_wpa2_def s1_def)
  from pairwise_key_sent [OF assms(2) this] obtain b where b: "sent_blocks (ops (twl s2)) = sent_blocks (ops v) @ [b]"
      "sent_as MBOXPKT_WMI MBOXPKT_REQACK (wmi_idk (twl s)) (le16 WMI_ADD_CIPHER_KEY_CMD @ pairwise_key_cmd (tk (device_ptk (twl s)))) b"
    by (auto simp: s2_def s1_def idk)
  have t: "t = wmi_byte_cmd WMI_SYNCHRONIZE_CMD 1 (twl s3)" by (simp add: t_def i)
  have "sent_more (twl s2) (twl s3)" unfolding s3_def by (rule sent_more_key)
  moreover have "sent_more (twl s3) t" unfolding t wmi_byte_cmd_def by (rule sent_more_wmi) simp
  ultimately have "\<exists>bs. sent_blocks (ops t) = sent_blocks (ops v) @ b # bs"
    using b(1) sent_more_trans by (fastforce simp: sent_more_def)
  then show "\<exists>u b. sent_more (twl s) u \<and> sent_as MBOXPKT_WMI MBOXPKT_REQACK (wmi_idk (twl s)) (le16 WMI_ADD_CIPHER_KEY_CMD @
      pairwise_key_cmd (tk (device_ptk (twl s)))) b \<and> (\<exists>bs. sent_blocks (ops t) = sent_blocks (ops u) @ b # bs)"
    using v b(2) by blast
  have "same_link (twl s1) (twl s3)"
    unfolding s3_def s2_def by (rule same_link_trans [OF add_key_link(1) add_key_link(1)])
  then have l: "same_link v (twl s3)" by (simp add: s1_def)
  show "ap_connected t = ap_connected (twl s)" "has_sent_hs4 t = has_sent_hs4 (twl s)" "wifi_card_initted t = wifi_card_initted (twl s)"
    using l by (simp_all add: t wmi_byte_cmd_def send_link same_link_def v_def ap_connected_data) (simp add: wifi_card_initted_def wmi_is_ready_def)
  show "wd7 (install_keys p s) = wd7 s" "WifiData_set7 (install_keys p s) = WifiData_set7 s"
    by (simp_all add: i s3_def s2_def s1_def add_key_link(2,3))
qed

lemma step_mode: "twl_step s l t \<Longrightarrow> curMode (wd7 t) = link_mode l"
  by (auto simp: twl_step_def link_of_def)

text \<open>A connection to a WPA2 network that waits for the end of the handshake.\<close>

definition handshake_pending :: "arm7 \<Rightarrow> bool" where
  "handshake_pending s \<longleftrightarrow> twl_settled s \<and> curMode (wd7 s) = WIFIMODE_CONNECTING \<and> is_wpa2 s \<and>
     ap_connected (twl s) \<and> reqMode (wd7 s) = WIFIMODE_CONNECTED"

text \<open>Key messages from the access point (\<open>Some p\<close>) and updates of the ARM7 (\<open>None\<close>), in any order.\<close>

fun key_events :: "mac \<Rightarrow> mac \<Rightarrow> mem8 option list \<Rightarrow> arm7 \<Rightarrow> arm7 option" where
  "key_events dev ap [] s = Some s"
| "key_events dev ap (None # es) s = do { s \<leftarrow> Wifi_TWL_Update s; key_events dev ap es s }"
| "key_events dev ap (Some p # es) s = key_events dev ap es (data_handle_auth p dev ap s)"

text \<open>The third message and a group message are acknowledged, and the keys are installed.\<close>

lemma auth_installs:
  fixes s :: arm7
  assumes "getbe16 p 5 \<in> {0x13CA, 0x1382}" "length dev = 6" "length ap = 6"
  shows "\<exists>s1. data_handle_auth p dev ap s = install_keys p s1 \<and> sent_more (twl s) (twl s1) \<and> has_sent_hs4 (twl s1) \<and>
    device_ptk (twl s1) = device_ptk (twl s) \<and> wmi_idk (twl s1) = wmi_idk (twl s) \<and> ap_connected (twl s1) = ap_connected (twl s) \<and>
    wd7 s1 = wd7 s \<and> WifiData_set7 s1 = WifiData_set7 s"
proof -
  define ki :: u16 where "ki = (if getbe16 p 5 = 0x13CA then 0x030A else 0x0302)"
  define t0 where "t0 = (if getbe16 p 5 = 0x13CA then (twl s)\<lparr>device_ap_mic := read_bytes p 81 16\<rparr> else twl s)"
  define frame where "frame = key_frame (kck (device_ptk (twl s))) ap dev ki (getbe64 p 9) (replicate 32 0) []"
  define s1 where "s1 = s\<lparr>twl := (data_send_pkt frame t0)\<lparr>has_sent_hs4 := True\<rparr>\<rparr>"
  have t0: "ops t0 = ops (twl s)" "device_ptk t0 = device_ptk (twl s)" "wmi_idk t0 = wmi_idk (twl s)" "ap_connected t0 = ap_connected (twl s)"
    by (simp_all add: t0_def)
  have "data_handle_auth p dev ap s = install_keys p s1"
    using assms(1) by (auto simp: data_handle_auth_def data_send_wpa_handshake4_def data_send_wpa_gtkrenew_def
        data_send_wpa_ack_def twl_upd_def s1_def t0_def frame_def ki_def Let_def)
  moreover have "length frame = 123" unfolding frame_def using length_key_frame [OF assms(3,2), of "replicate 32 0"] by simp
  then have "sent_more (twl s) (twl s1)"
    using sent_more_data [of frame t0] by (simp add: s1_def sent_more_def t0(1))
  ultimately show ?thesis
    using core_same(18) [OF core_send(3) [of frame t0]] by (intro exI [of _ s1]) (simp add: s1_def ap_connected_data t0)
qed

lemma auth_connects:
  assumes "handshake_pending s" "getbe16 p 5 \<in> {0x13CA, 0x1382}" "length (tk (device_ptk (twl s))) = 16" "length dev = 6" "length ap = 6"
  shows "(\<exists>u b. sent_more (twl s) u \<and>
      sent_as MBOXPKT_WMI MBOXPKT_REQACK (wmi_idk (twl s)) (le16 WMI_ADD_CIPHER_KEY_CMD @ pairwise_key_cmd (tk (device_ptk (twl s)))) b \<and>
      (\<exists>bs. sent_blocks (ops (twl (data_handle_auth p dev ap s))) = sent_blocks (ops u) @ b # bs)) \<and>
    (\<exists>t. Wifi_TWL_Update (data_handle_auth p dev ap s) = Some t \<and> curMode (wd7 t) = WIFIMODE_CONNECTED)"
proof -
  obtain s1 where s1: "data_handle_auth p dev ap s = install_keys p s1" "sent_more (twl s) (twl s1)" "has_sent_hs4 (twl s1)"
      "device_ptk (twl s1) = device_ptk (twl s)" "wmi_idk (twl s1) = wmi_idk (twl s)" "ap_connected (twl s1) = ap_connected (twl s)"
      "wd7 s1 = wd7 s" "WifiData_set7 s1 = WifiData_set7 s"
    using auth_installs [OF assms(2,4,5), of s] by blast
  have w: "is_wpa2 s1" using assms(1) by (simp add: is_wpa2_def handshake_pending_def s1(7))
  have tk: "length (tk (device_ptk (twl s1))) = 16" using assms(3) s1(4) by simp
  note i = install_keys_sent [OF w tk, of p]
  have sent: "\<exists>u b. sent_more (twl s) u \<and>
      sent_as MBOXPKT_WMI MBOXPKT_REQACK (wmi_idk (twl s)) (le16 WMI_ADD_CIPHER_KEY_CMD @ pairwise_key_cmd (tk (device_ptk (twl s)))) b \<and>
      (\<exists>bs. sent_blocks (ops (twl (data_handle_auth p dev ap s))) = sent_blocks (ops u) @ b # bs)"
    using i(1) sent_more_trans [OF s1(2)] by (simp only: s1(1,4,5)) blast
  let ?s2 = "install_keys p s1"
  have s2: "twl_settled ?s2" "curMode (wd7 ?s2) = WIFIMODE_CONNECTING" "is_wpa2 ?s2"
    using assms(1) by (simp_all add: handshake_pending_def twl_settled_def is_wpa2_def i(5,6) s1(7,8))
  have "link_mode (link_of ?s2) = WIFIMODE_CONNECTING" "link_up True (link_of ?s2)"
    using assms(1) s2(2) i(2,3) s1(3,6) by (simp_all add: link_of_def link_up_def handshake_pending_def)
  then have "link_mode (next_link True x y (link_of ?s2)) = WIFIMODE_CONNECTED" for x y by (simp add: next_link_def)
  moreover obtain t where "Wifi_TWL_Update ?s2 = Some t" "twl_step ?s2 (next_link True (load_wfc_key ?s2 \<noteq> None) (reqMode (wd7 ?s2)) (link_of ?s2)) t"
    using update_step [OF s2(1)] s2(2,3) by auto
  ultimately have "\<exists>t. Wifi_TWL_Update ?s2 = Some t \<and> curMode (wd7 t) = WIFIMODE_CONNECTED"
    using step_mode by metis
  then show ?thesis using sent by (simp only: s1(1))
qed

text \<open>Neither an update nor any other key message ends the wait.\<close>

lemma pending_update:
  assumes "handshake_pending s" "\<not> has_sent_hs4 (twl s)"
  obtains t where "Wifi_TWL_Update s = Some t" "handshake_pending t" "\<not> has_sent_hs4 (twl t)"
proof -
  have s: "twl_settled s" "curMode (wd7 s) = WIFIMODE_CONNECTING" "is_wpa2 s" "ap_connected (twl s)" "reqMode (wd7 s) = WIFIMODE_CONNECTED"
    using assms(1) by (simp_all add: handshake_pending_def)
  have "link_mode (link_of s) = WIFIMODE_CONNECTING" "\<not> link_up True (link_of s)" "link_coming True (link_of s)"
    using s(2,4) assms(2) by (simp_all add: link_of_def link_up_def link_coming_def)
  then have l: "next_link True x WIFIMODE_CONNECTED (link_of s) = link_of s" for x by (simp add: next_link_def)
  obtain t where t: "Wifi_TWL_Update s = Some t" "twl_step s (link_of s) t"
    using update_step [OF s(1)] s(2,3,5) by (auto simp: l)
  have "handshake_pending t" "\<not> has_sent_hs4 (twl t)"
    using t(2) s assms(2) by (simp_all add: handshake_pending_def twl_step_def link_of_def)
  then show ?thesis using that t(1) by blast
qed

lemma random_bytes_state: "\<exists>r. snd (random_bytes n w) = w\<lparr>random7 := r\<rparr>"
proof (induction n arbitrary: w)
  case 0
  show ?case by (intro exI [of _ "random7 w"]) simp
next
  case (Suc n)
  obtain r where "snd (random_bytes n (snd (Wifi_Random7 w))) = (snd (Wifi_Random7 w))\<lparr>random7 := r\<rparr>" using Suc.IH by blast
  then show ?case by (intro exI [of _ r]) (simp add: case_prod_beta Let_def Wifi_Random7_def)
qed

lemma pending_message:
  assumes "handshake_pending s" "\<not> has_sent_hs4 (twl s)" "getbe16 p 5 \<notin> {0x13CA, 0x1382}"
  shows "handshake_pending (data_handle_auth p dev ap s) \<and> \<not> has_sent_hs4 (twl (data_handle_auth p dev ap s))"
proof (cases "getbe16 p 5 = 0x008A")
  case True
  obtain r where r: "snd (random_bytes 32 (wd7 s)) = (wd7 s)\<lparr>random7 := r\<rparr>" using random_bytes_state by blast
  have "wd7 (data_handle_auth p dev ap s) = (wd7 s)\<lparr>random7 := r\<rparr>" "WifiData_set7 (data_handle_auth p dev ap s) = WifiData_set7 s"
    "ap_connected (twl (data_handle_auth p dev ap s)) = ap_connected (twl s)"
    "has_sent_hs4 (twl (data_handle_auth p dev ap s)) = has_sent_hs4 (twl s)"
    using True by (simp_all add: data_handle_auth_def data_send_wpa_handshake2_def twl_upd_def case_prod_beta r Let_def ap_connected_data)
  then show ?thesis using assms(1,2) by (simp add: handshake_pending_def twl_settled_def is_wpa2_def)
next
  case False
  then show ?thesis using assms by (simp add: data_handle_auth_def)
qed

lemma pending_events:
  assumes "handshake_pending s" "\<not> has_sent_hs4 (twl s)" "\<forall>q. Some q \<in> set es \<longrightarrow> getbe16 q 5 \<notin> {0x13CA, 0x1382}"
  shows "\<exists>t. key_events dev ap es s = Some t \<and> curMode (wd7 t) = WIFIMODE_CONNECTING"
  using assms
proof (induction dev ap es s rule: key_events.induct)
  case (2 dev ap es s)
  obtain t where t: "Wifi_TWL_Update s = Some t" "handshake_pending t" "\<not> has_sent_hs4 (twl t)"
    using pending_update [OF 2(2,3)] .
  then show ?case using 2(1) [OF t] 2(4) by simp
next
  case (3 dev ap p es s)
  then show ?case using pending_message [of s p dev ap] by simp
qed (simp add: handshake_pending_def)

text \<open>C13: When the third message of the WPA2 handshake arrives while a connection is pending, the driver hands the
  temporal key to the card, and the next update reports the connection. While no such message has been
  answered, no sequence of updates and other key messages, however long, ends the wait, with one exception:
  a group key message, which comes after the handshake, also counts as its end, and the next update
  reports the connection although the third message has never arrived.\<close>

theorem handshake_completes_connection:
  assumes "handshake_pending s" "getbe16 p 5 = 0x13CA" "length (tk (device_ptk (twl s))) = 16" "length dev = 6" "length ap = 6"
  shows "(\<exists>u b. sent_more (twl s) u \<and>
      sent_as MBOXPKT_WMI MBOXPKT_REQACK (wmi_idk (twl s)) (le16 WMI_ADD_CIPHER_KEY_CMD @ pairwise_key_cmd (tk (device_ptk (twl s)))) b \<and>
      (\<exists>bs. sent_blocks (ops (twl (data_handle_auth p dev ap s))) = sent_blocks (ops u) @ b # bs)) \<and>
    (\<exists>t. Wifi_TWL_Update (data_handle_auth p dev ap s) = Some t \<and> curMode (wd7 t) = WIFIMODE_CONNECTED) \<and>
    (\<not> has_sent_hs4 (twl s) \<longrightarrow> (\<forall>es. (\<forall>q. Some q \<in> set es \<longrightarrow> getbe16 q 5 \<notin> {0x13CA, 0x1382}) \<longrightarrow>
      (\<exists>t. key_events dev ap es s = Some t \<and> curMode (wd7 t) = WIFIMODE_CONNECTING))) \<and>
    (\<forall>q. getbe16 q 5 = 0x1382 \<longrightarrow>
      (\<exists>t. Wifi_TWL_Update (data_handle_auth q dev ap s) = Some t \<and> curMode (wd7 t) = WIFIMODE_CONNECTED))"
  using auth_connects [OF assms(1) _ assms(3-5)] pending_events [OF assms(1)] assms(2) by simp

section \<open>A card that does not start\<close>

text \<open>Updates, each with the mode that the ARM9 requests at that time.\<close>

definition request_mode :: "WIFI_MODE \<Rightarrow> arm7 \<Rightarrow> arm7" where
  "request_mode m = wd7_upd (\<lambda>w. w\<lparr>reqMode := m\<rparr>)"

fun twl_updates :: "WIFI_MODE list \<Rightarrow> arm7 \<Rightarrow> arm7 option" where
  "twl_updates [] s = Some s"
| "twl_updates (m # ms) s = do { s \<leftarrow> Wifi_TWL_Update (request_mode m s); twl_updates ms s }"

lemma request_fields:
  "twl_settled (request_mode m s) = twl_settled s" "link_of (request_mode m s) = link_of s" "reqMode (wd7 (request_mode m s)) = m"
  "curMode (wd7 (request_mode m s)) = curMode (wd7 s)" "twl (request_mode m s) = twl s"
  by (simp_all add: request_mode_def wd7_upd_def twl_settled_def link_of_def)

definition card_fails :: "twl \<Rightarrow> bool" where
  "card_fails t \<longleftrightarrow> (\<forall>h. ans_status (sdio_card t h) AND 4 \<noteq> 0)"

lemma fails_command:
  assumes "card_fails t"
  shows "failed (wifi_card_send_command cmd args t)" "card_fails (wifi_card_send_command cmd args t)"
  using assms by (simp_all add: card_fails_def failed_def wifi_card_send_command_def card_reply_def issue_def Let_def)

lemma same_card:
  assumes "core t = core u"
  shows "card_fails t = card_fails u" "card_irq_on t = card_irq_on u" "twl_timer_on t = twl_timer_on u"
  using core_same [OF assms] by (simp_all add: card_fails_def)

lemma failed_sdio_reset:
  assumes "card_fails t"
  shows "\<exists>u. sdio_reset t = Some (False, u) \<and> core u = core t"
proof -
  let ?u = "wifi_card_send_command 5 0 t"
  have "op_cond 0 t = Some (False, ?u)"
    using fails_command(1) [OF assms] by (subst op_cond.simps, subst io_send_op_cond.simps) (simp add: Let_def)
  moreover have c: "core (wifi_card_write_func0_u8 2 2 (wifi_card_write_func0_u8 2 0 ?u)) = core t" by (simp add: card_simps)
  then have "card_fails (wifi_card_write_func0_u8 2 2 (wifi_card_write_func0_u8 2 0 ?u))" using same_card(1) assms by blast
  then have "setup_bus ?u = (False, wifi_card_send_command 52 (push_bit 9 7) (wifi_card_write_func0_u8 2 2 (wifi_card_write_func0_u8 2 0 ?u)))"
    using fails_command(1) unfolding setup_bus_def Let_def by simp
  ultimately show ?thesis using c by (simp add: sdio_reset_def card_simps)
qed

lemma power_up_card:
  "card_fails (power_up t) = card_fails t" "card_irq_on (power_up t) = card_irq_on t" "twl_timer_on (power_up t) = twl_timer_on t"
proof -
  have d: "sdio_card (wifi_card_switch_device u) = sdio_card u" "card_irq_on (wifi_card_switch_device u) = card_irq_on u"
    "twl_timer_on (wifi_card_switch_device u) = twl_timer_on u" for u
    by (simp_all add: wifi_card_switch_device_def device_def)
  note r = core_same [OF read_func1_simps(1)]
  show "card_fails (power_up t) = card_fails t" "card_irq_on (power_up t) = card_irq_on t" "twl_timer_on (power_up t) = twl_timer_on t"
    by (simp_all add: power_up_def Let_def case_prod_beta card_fails_def d r) (simp_all add: device_def)
qed

lemma failed_card_init:
  assumes "card_fails t"
  shows "\<exists>u. wifi_card_init t = Some u \<and> card_irq_on u = card_irq_on t \<and> twl_timer_on u = twl_timer_on t"
proof -
  let ?t = "power_up (t\<lparr>tmio_status := 0, tmio_resp := 0, tmio_address := 0, tmio_bus_width := 1, tmio_block_size := 0\<rparr>)"
  have "card_fails ?t" using assms by (simp add: power_up_card) (simp add: card_fails_def)
  then obtain u where u: "sdio_reset ?t = Some (False, u)" "core u = core ?t" using failed_sdio_reset by blast
  have "card_irq_on u = card_irq_on t" "twl_timer_on u = twl_timer_on t"
    using same_card [OF u(2)] by (simp_all add: power_up_card)
  then show ?thesis using u(1) by (simp add: wifi_card_init_def wifi_card_device_init_def wifi_card_wlan_init_def wmi_init_def)
qed

text \<open>Waiting for a card that cannot say anything: its interrupt and the timer of the driver are off.\<close>

definition waits_in_vain :: "arm7 \<Rightarrow> bool" where
  "waits_in_vain s \<longleftrightarrow> twl_settled s \<and> curMode (wd7 s) = WIFIMODE_INITIALIZING \<and> \<not> wifi_card_initted (twl s) \<and>
     \<not> card_irq_on (twl s) \<and> \<not> twl_timer_on (twl s)"

lemma waits_on: "waits_in_vain s \<Longrightarrow> \<exists>t. twl_updates ms s = Some t \<and> waits_in_vain t"
proof (induction ms arbitrary: s)
  case (Cons m ms)
  let ?s = "request_mode m s"
  have s: "twl_settled ?s" "curMode (wd7 ?s) = WIFIMODE_INITIALIZING" "twl ?s = twl s" "\<not> wifi_card_initted (twl s)"
      "\<not> card_irq_on (twl s)" "\<not> twl_timer_on (twl s)"
    using Cons.prems by (simp_all add: waits_in_vain_def request_fields)
  obtain b t where t: "twl_update_mode ?s = Some b" "Wifi_TWL_Update ?s = Some t" "core (twl t) = core (twl b)"
      "twl_step ?s (next_link (is_wpa2 ?s) (load_wfc_key ?s \<noteq> None) m (link_of ?s)) t"
    using update_step [OF s(1)] s(2) by (auto simp: request_fields)
  have "b = ?s" using t(1) s by (simp add: twl_update_mode_def)
  then have c: "core (twl t) = core (twl s)" using t(3) s(3) by simp
  have "link_mode (link_of ?s) = WIFIMODE_INITIALIZING" "\<not> link_ready (link_of ?s)" using s by (simp_all add: link_of_def)
  then have l: "link_of t = link_of ?s" "twl_settled t" using t(4) by (simp_all add: twl_step_def next_link_def)
  then have "waits_in_vain t" using s same_card [OF c] arg_cong [OF l(1), of link_mode] arg_cong [OF l(1), of link_ready]
    by (simp add: waits_in_vain_def link_of_def)
  then show ?case using Cons.IH t(2) by simp
qed simp

text \<open>C40: A DSi card that answers every command with an error leaves the driver for ever in the state of
  initialisation: the result of its start is not looked at, no interrupt or timer is switched on, and
  whatever mode the ARM9 asks for afterwards, switching the radio off included, no update leaves it.\<close>

theorem failed_card_never_leaves_init:
  assumes "twl_settled s" "curMode (wd7 s) = WIFIMODE_DISABLED" "\<not> card_irq_on (twl s)" "\<not> twl_timer_on (twl s)"
    "card_fails (twl s)" "m \<noteq> WIFIMODE_DISABLED"
  shows "\<exists>t. twl_updates (m # ms) s = Some t \<and> curMode (wd7 t) = WIFIMODE_INITIALIZING \<and>
    \<not> wifi_card_initted (twl t) \<and> \<not> card_irq_on (twl t) \<and> \<not> twl_timer_on (twl t)"
proof -
  let ?s = "request_mode m s"
  obtain u where u: "wifi_card_init (twl s) = Some u" "card_irq_on u = card_irq_on (twl s)" "twl_timer_on u = twl_timer_on (twl s)"
    using failed_card_init [OF assms(5)] by blast
  have s: "twl_settled ?s" "curMode (wd7 ?s) = WIFIMODE_DISABLED" "reqMode (wd7 ?s) = m" "wifi_card_init (twl ?s) \<noteq> None"
    using assms u(1) by (simp_all add: request_fields)
  obtain b t where t: "twl_update_mode ?s = Some b" "Wifi_TWL_Update ?s = Some t" "core (twl t) = core (twl b)"
      "twl_step ?s (next_link (is_wpa2 ?s) (load_wfc_key ?s \<noteq> None) m (link_of ?s)) t"
    using update_step [OF s(1)] s(2-4) by (auto simp del: not_None_eq)
  have "twl b = u" using t(1) s(2,3) assms(6) u(1) by (auto simp: twl_update_mode_def twl_disabled_def Wifi_TWL_Start_def request_fields twl_fields)
  then have on: "card_irq_on (twl t) = card_irq_on (twl s)" "twl_timer_on (twl t) = twl_timer_on (twl s)"
    using same_card(2,3) [OF t(3)] u(2,3) by simp_all
  have "link_mode (link_of ?s) = WIFIMODE_DISABLED" using s(2) by (simp add: link_of_def)
  then have l: "link_mode (link_of t) = WIFIMODE_INITIALIZING" "\<not> link_ready (link_of t)" "twl_settled t"
    using t(4) assms(6) by (simp_all add: twl_step_def next_link_def)
  then have "waits_in_vain t" using on assms(3,4) by (simp add: waits_in_vain_def link_of_def)
  then show ?thesis using waits_on [of t ms] t(2) by (auto simp: waits_in_vain_def)
qed

section \<open>Examples\<close>

definition twl_state_ex :: "WIFI_MODE \<Rightarrow> twl \<Rightarrow> arm7" where
  "twl_state_ex m t =
     wd7_upd (\<lambda>w. w\<lparr>curMode := m, reqMode := WIFIMODE_CONNECTED, flags7 := WFLAG_ARM7_ACTIVE\<rparr>)
       (arm7_zero\<lparr>WifiData_set7 := True, twl := t\<rparr>)"

lemma twl_state_ex_settled:
  "twl_settled (twl_state_ex m t)" "curMode (wd7 (twl_state_ex m t)) = m" "reqMode (wd7 (twl_state_ex m t)) = WIFIMODE_CONNECTED"
  "twl (twl_state_ex m t) = t" "\<not> is_wpa2 (twl_state_ex m t)"
proof -
  have "twl_tx_inv zero_buf []" by (simp add: ring_inv_def zero_buf_def read_u32_def)
  then show "twl_settled (twl_state_ex m t)"
    by (auto simp: twl_settled_def twl_state_ex_def wd7_upd_def arm7_zero_def zero_main_def zero_ap_def intro!: exI [of _ "[]"])
qed (simp_all add: twl_state_ex_def wd7_upd_def is_wpa2_def arm7_zero_def zero_main_def zero_ap_def)

theorem twl_tx_flush_sends_all_witness:
  "\<exists>b s' blk. twl_tx_inv b [(4, [1, 2, 3, 4])] \<and> Wifi_TWL_TxArm9QueueFlush (arm7_zero\<lparr>wd7 := zero_main\<lparr>txbuf := b\<rparr>\<rparr>) = Some s' \<and>
    sent_blocks (ops (twl s')) = [blk] \<and> sent_as 2 0 0x2008 [1, 2, 3, 4] blk"
proof -
  define b where "b = zero_buf\<lparr>bufData := (\<lambda>i. if i = 0 then 4 else if i \<in> {4, 5, 6, 7} then of_nat i - 3 else 0), bufWrite := 8\<rparr>"
  have b: "twl_tx_inv b [(4, [1, 2, 3, 4])]"
    by (simp add: b_def zero_buf_def ring_inv_def read_u32_def align4_def read_bytes_def upt_rec)
  let ?s = "arm7_zero\<lparr>wd7 := zero_main\<lparr>txbuf := b\<rparr>\<rparr>"
  have "twl_tx_inv (txbuf (wd7 ?s)) [(4, [1, 2, 3, 4])]" using b by simp
  from twl_tx_flush_sends_all [OF this] obtain s' bs where s': "Wifi_TWL_TxArm9QueueFlush ?s = Some s'"
      "sent_blocks (ops (twl s')) = sent_blocks (ops (twl ?s)) @ bs"
      "list_all2 (\<lambda>p. sent_as 2 0 0x2008 (take 1530 (snd p))) [(4 :: u32, [1, 2, 3, 4])] bs" by blast
  have "sent_blocks (ops (twl ?s)) = []" by (simp add: arm7_zero_def twl_zero_def)
  then show ?thesis using b s' by (auto simp: list_all2_Cons1)
qed

theorem twl_update_follows_modes_witness:
  "\<exists>t. Wifi_TWL_Update (twl_state_ex WIFIMODE_CONNECTED twl_zero) = Some t \<and> curMode (wd7 t) = WIFIMODE_CANNOTCONNECT"
proof -
  have "curMode (wd7 (twl_state_ex WIFIMODE_CONNECTED twl_zero)) \<noteq> WIFIMODE_ACCESSPOINT"
    "curMode (wd7 (twl_state_ex WIFIMODE_CONNECTED twl_zero)) = WIFIMODE_DISABLED \<and>
      reqMode (wd7 (twl_state_ex WIFIMODE_CONNECTED twl_zero)) \<noteq> WIFIMODE_DISABLED \<longrightarrow>
      wifi_card_init (twl (twl_state_ex WIFIMODE_CONNECTED twl_zero)) \<noteq> None"
    by (simp_all add: twl_state_ex_settled)
  from twl_update_follows_modes [OF twl_state_ex_settled(1) this] obtain t
    where t: "Wifi_TWL_Update (twl_state_ex WIFIMODE_CONNECTED twl_zero) = Some t"
      "link_of t = next_link False (load_wfc_key (twl_state_ex WIFIMODE_CONNECTED twl_zero) \<noteq> None) WIFIMODE_CONNECTED
         (link_of (twl_state_ex WIFIMODE_CONNECTED twl_zero))"
    by (auto simp: twl_step_def twl_state_ex_settled)
  have "link_mode (link_of t) = WIFIMODE_CANNOTCONNECT"
    unfolding t(2) by (simp add: link_of_def next_link_def twl_state_ex_settled link_up_def) (simp add: twl_zero_def)
  then show ?thesis using t(1) by (simp add: link_of_def)
qed

theorem failed_card_never_leaves_init_witness:
  "\<exists>t. twl_updates [WIFIMODE_SCAN, WIFIMODE_DISABLED, WIFIMODE_NORMAL]
      (twl_state_ex WIFIMODE_DISABLED (twl_zero\<lparr>sdio_card := \<lambda>_. \<lparr>ans_status = 4, ans_resp = 0, ans_data = []\<rparr>\<rparr>)) = Some t \<and>
    curMode (wd7 t) = WIFIMODE_INITIALIZING"
proof -
  let ?t = "twl_zero\<lparr>sdio_card := \<lambda>_. \<lparr>ans_status = 4, ans_resp = 0, ans_data = []\<rparr>\<rparr>"
  let ?s = "twl_state_ex WIFIMODE_DISABLED ?t"
  have "\<not> card_irq_on (twl ?s)" "\<not> twl_timer_on (twl ?s)" "card_fails (twl ?s)"
    by (simp_all only: twl_state_ex_settled(4)) (simp_all add: twl_zero_def card_fails_def)
  from failed_card_never_leaves_init [OF twl_state_ex_settled(1,2) this, of WIFIMODE_SCAN "[WIFIMODE_DISABLED, WIFIMODE_NORMAL]"]
  show ?thesis by auto
qed

definition joining_ex :: arm7 where
  "joining_ex = wd7_upd (\<lambda>w. w\<lparr>curAp := (curAp w)\<lparr>security_type := AP_SECURITY_WPA2\<rparr>\<rparr>)
     (twl_state_ex WIFIMODE_CONNECTING (twl_zero\<lparr>ap_connected := True\<rparr>))"

definition message3_ex :: mem8 where
  "message3_ex i = (if i = 5 then 0x13 else if i = 6 then 0xCA else 0)"

theorem handshake_completes_connection_witness:
  "\<exists>t. Wifi_TWL_Update (data_handle_auth message3_ex [6, 5, 4, 3, 2, 1] [1, 2, 3, 4, 5, 6] joining_ex) = Some t \<and>
    curMode (wd7 t) = WIFIMODE_CONNECTED"
proof -
  let ?s = "twl_state_ex WIFIMODE_CONNECTING (twl_zero\<lparr>ap_connected := True\<rparr>)"
  have s: "twl_settled joining_ex" "curMode (wd7 joining_ex) = WIFIMODE_CONNECTING" "reqMode (wd7 joining_ex) = WIFIMODE_CONNECTED"
    "twl joining_ex = twl_zero\<lparr>ap_connected := True\<rparr>"
    using twl_state_ex_settled(1-4) [of WIFIMODE_CONNECTING "twl_zero\<lparr>ap_connected := True\<rparr>"]
    by (simp_all add: joining_ex_def wd7_upd_def twl_settled_def)
  have w: "is_wpa2 joining_ex" by (simp add: joining_ex_def wd7_upd_def is_wpa2_def)
  have t: "ap_connected (twl joining_ex)" "length (tk (device_ptk (twl joining_ex))) = 16"
    by (simp_all add: s(4)) (simp add: twl_zero_def)
  have p: "getbe16 message3_ex 5 = 0x13CA" by (simp add: getbe16_def message3_ex_def hword_def)
  have "handshake_pending joining_ex" using s(1-3) w t(1) by (simp add: handshake_pending_def)
  from handshake_completes_connection [OF this p t(2), of "[6, 5, 4, 3, 2, 1]" "[1, 2, 3, 4, 5, 6]"]
  show ?thesis by auto
qed

end
