(* ===== verification/Dsi_Init.thy ===== *)
theory Dsi_Init
  imports Twl_Update
begin

text \<open>
  The types that the C declarations give to the arrays of the shared structure, and the state that the
  initialisation of a DSi ends in: the arrays keep their lengths whatever the firmware memory holds, and
  the driver is in the state from which the table of modes of \<^verbatim>\<open>Twl_Update\<close> describes it.
\<close>

section \<open>Lengths of arrays\<close>

definition security_typed :: "Wifi_ApSecurity \<Rightarrow> bool" where
  "security_typed sec \<longleftrightarrow> length (pass sec) = 64 \<and> length (pmk sec) = 32"

definition wfc_typed :: "wfc_entry \<Rightarrow> bool" where
  "wfc_typed e \<longleftrightarrow> length (wfc_ssid e) = 33 \<and> security_typed (wfc_security e)"

definition ap_typed :: "Wifi_AccessPoint \<Rightarrow> bool" where
  "ap_typed ap \<longleftrightarrow> length (ssid ap) = 33 \<and> length (bssid ap) = 6 \<and> length (name (nintendo ap)) = 10"

definition clients_typed :: "Wifi_ClientsInfoIpc \<Rightarrow> bool" where
  "clients_typed cs \<longleftrightarrow> length (client_list cs) = 15 \<and> (\<forall>cl \<in> set (client_list cs). length (macaddr cl) = 6)"

definition main_typed :: "Wifi_MainStruct \<Rightarrow> bool" where
  "main_typed w \<longleftrightarrow> length (MacAddr w) = 6 \<and> ap_typed (curAp w) \<and> security_typed (curApSecurity w) \<and>
     length (aplist w) = 32 \<and> (\<forall>ap \<in> set (aplist w). ap_typed ap) \<and>
     length (wfc w) = 6 \<and> (\<forall>e \<in> set (wfc w). wfc_typed e) \<and> clients_typed (clients w) \<and> length (hostPlayerName w) = 10"

lemma zero_main_typed: "main_typed zero_main"
  by (simp add: main_typed_def zero_main_def ap_typed_def zero_ap_def zero_vendor_def security_typed_def zero_security_def
      wfc_typed_def zero_wfc_def clients_typed_def zero_clients_def zero_client_def)

section \<open>The saved access points\<close>

lemma set_key_typed:
  assumes "security_typed sec" "k \<le> length key" "k \<le> 64"
  shows "security_typed (set_key k key sec)"
  using assms by (simp add: security_typed_def set_key_def)

lemma wfc_common_typed:
  assumes "wfc_typed e" "wfc_common d e = Some e'"
  shows "wfc_typed e'"
  using assms by (auto simp: wfc_common_def wfc_typed_def)

lemma entry_typed:
  assumes "wfc_typed e"
  shows "ntr_entry d e = Some e' \<Longrightarrow> wfc_typed e'" "twl_entry d e = Some e' \<Longrightarrow> wfc_typed e'"
proof -
  have k: "Wifi_WepKeySizeFromMode m \<le> length (read_bytes d a 16)" "Wifi_WepKeySizeFromMode m \<le> 64" for m a
    using wep_key_size_le_16 [of m] by simp_all
  have s: "security_typed (wfc_security e)" using assms by (simp add: wfc_typed_def)
  have t: "wfc_typed (e\<lparr>wfc_security := sec\<rparr>)" if "security_typed sec" for sec using that assms by (simp add: wfc_typed_def)
  show "wfc_typed e'" if "ntr_entry d e = Some e'"
    using that unfolding ntr_entry_def Let_def by (rule wfc_common_typed [OF t [OF set_key_typed [OF s k]]])
  have p: "security_typed (sec\<lparr>pmk := read_bytes d a 32\<rparr>)" if "security_typed sec" for sec a
    using that by (simp add: security_typed_def)
  have l: "(64 :: nat) \<le> length (read_bytes d a 64)" for a by simp
  show "wfc_typed e'" if "twl_entry d e = Some e'"
    using that unfolding twl_entry_def Let_def
    by (elim wfc_common_typed [rotated]) (auto intro!: t p set_key_typed s k l simp: assms)
qed

definition copy_typed :: "(mem8 \<Rightarrow> wfc_entry \<Rightarrow> wfc_entry option) \<Rightarrow> bool" where
  "copy_typed copy \<longleftrightarrow> (\<forall>d e e'. wfc_typed e \<longrightarrow> copy d e = Some e' \<longrightarrow> wfc_typed e')"

lemma copies_typed: "copy_typed ntr_entry" "copy_typed twl_entry"
  using entry_typed unfolding copy_typed_def by blast+

lemma wfc_load_typed:
  assumes "copy_typed copy"
  shows "wfc_load valid copy ds c w = Some (n, w') \<Longrightarrow> \<forall>e \<in> set (wfc w). wfc_typed e \<Longrightarrow>
    (\<forall>e \<in> set (wfc w'). wfc_typed e) \<and> length (wfc w') = length (wfc w) \<and> (\<exists>es. w' = w\<lparr>wfc := es\<rparr>)"
proof (induction ds arbitrary: c w)
  case Nil
  then show ?case by (auto intro: exI [of _ "wfc w"])
next
  case (Cons d ds)
  show ?case
  proof (cases "valid d")
    case True
    then obtain e where e: "c < length (wfc w)" "copy d (wfc w ! c) = Some e"
        "wfc_load valid copy ds (c + 1) (w\<lparr>wfc := (wfc w)[c := e]\<rparr>) = Some (n, w')"
      using Cons.prems(1) by (auto split: if_splits bind_splits)
    have "wfc_typed (wfc w ! c)" using e(1) Cons.prems(2) by simp
    then have "wfc_typed e" using e(2) assms unfolding copy_typed_def by blast
    then have "\<forall>e \<in> set (wfc (w\<lparr>wfc := (wfc w)[c := e]\<rparr>)). wfc_typed e"
      using Cons.prems(2) by (auto dest: subsetD [OF set_update_subset_insert])
    from Cons.IH [OF e(3) this] show ?thesis by auto
  next
    case False
    then show ?thesis using Cons by simp
  qed
qed

text \<open>Loading both formats: the same entries in each reading, the lengths kept.\<close>

lemma wfc_loads:
  assumes "main_typed w" "\<forall>d \<in> set (wfc_slots firmware 0x400 sizeof_nvram_cfg_ntr @ wfc_slots firmware 0xA00 sizeof_nvram_cfg_twl). d cfg_subnet_mask \<le> 32"
  shows "\<exists>w1 w2. Wifi_NTR_GetWfcSettings firmware w = Some w1 \<and> Wifi_TWL_GetWfcSettings firmware allow_wpa w1 = Some w2 \<and>
    main_typed w2 \<and> unat (wfc_number_of_configs w2) \<le> 6 \<and> (\<exists>n es. w2 = w\<lparr>wfc := es, wfc_number_of_configs := n\<rparr>)"
proof -
  let ?ds = "wfc_slots firmware 0x400 sizeof_nvram_cfg_ntr" and ?ds' = "wfc_slots firmware 0xA00 sizeof_nvram_cfg_twl"
  let ?n = "length (filter ntr_valid ?ds)" and ?m = "length (filter (twl_valid allow_wpa) ?ds')"
  have n: "?n \<le> 3" "?m \<le> 3"
    using length_filter_le [of ntr_valid ?ds] length_filter_le [of "twl_valid allow_wpa" ?ds'] by (simp_all add: wfc_slots_def)
  have w: "length (wfc w) = 6" "\<forall>e \<in> set (wfc w). wfc_typed e" using assms(1) by (simp_all add: main_typed_def)
  obtain w' where w': "wfc_load ntr_valid ntr_entry ?ds 0 w = Some (?n, w')"
    using wfc_load_spec [of 0 ntr_valid ?ds w ntr_entry] wfc_copies(1) assms(2) n w(1) by auto
  obtain es where e: "\<forall>e \<in> set (wfc w'). wfc_typed e" "length (wfc w') = 6" "w' = w\<lparr>wfc := es\<rparr>"
    using wfc_load_typed [OF copies_typed(1) w' w(2)] w(1) by auto
  let ?w1 = "w'\<lparr>wfc_number_of_configs := of_nat ?n\<rparr>"
  have small: "unat (of_nat k :: u8) = k" if "k \<le> 6" for k using that by (simp add: unat_of_nat)
  have c: "unat (of_nat ?n :: u8) = ?n" "unat (of_nat (?n + ?m) :: u8) = ?n + ?m" by (rule small, use n in linarith)+
  have cfg: "unat (wfc_number_of_configs ?w1) = ?n" using n(1) by (simp add: unat_of_nat)
  obtain w2 where w2: "wfc_load (twl_valid allow_wpa) twl_entry ?ds' ?n ?w1 = Some (?n + ?m, w2)"
    using wfc_load_spec [of ?n "twl_valid allow_wpa" ?ds' ?w1 twl_entry] wfc_copies(2) assms(2) n e(2) by auto
  have t1: "\<forall>e \<in> set (wfc ?w1). wfc_typed e" using e(1) by simp
  obtain es' where e': "\<forall>e \<in> set (wfc w2). wfc_typed e" "length (wfc w2) = 6" "w2 = ?w1\<lparr>wfc := es'\<rparr>"
    using wfc_load_typed [OF copies_typed(2) w2 t1] e(2) by auto
  let ?w2 = "w2\<lparr>wfc_number_of_configs := of_nat (?n + ?m)\<rparr>"
  have w2_eq: "?w2 = w\<lparr>wfc := es', wfc_number_of_configs := of_nat (?n + ?m)\<rparr>" by (simp add: e(3) e'(3))
  have "main_typed ?w2" using assms(1) e'(1,2) unfolding w2_eq by (simp add: main_typed_def e'(3))
  moreover have "Wifi_NTR_GetWfcSettings firmware w = Some ?w1" unfolding Wifi_NTR_GetWfcSettings_def w' by simp
  moreover have "Wifi_TWL_GetWfcSettings firmware allow_wpa ?w1 = Some ?w2"
    unfolding Wifi_TWL_GetWfcSettings_def cfg w2 by simp
  moreover have "unat (wfc_number_of_configs ?w2) \<le> 6"
    using small [of "?n + ?m"] n by (simp add: unat_of_nat)
  ultimately show ?thesis using w2_eq by blast
qed

section \<open>Initialisation\<close>

lemma entropy_fields:
  "main_typed (Wifi_RandomAddEntropy v w) = main_typed w" "aplist (Wifi_RandomAddEntropy v w) = aplist w"
  "txbuf (Wifi_RandomAddEntropy v w) = txbuf w" "rxbuf (Wifi_RandomAddEntropy v w) = rxbuf w"
  "curMode (Wifi_RandomAddEntropy v w) = curMode w" "flags7 (Wifi_RandomAddEntropy v w) = flags7 w"
  "reqFlags (Wifi_RandomAddEntropy v w) = reqFlags w"
  by (simp_all add: Wifi_RandomAddEntropy_def Let_def main_typed_def)

lemma active_flag: "(f OR WFLAG_ARM7_ACTIVE) AND WFLAG_ARM7_ACTIVE \<noteq> 0"
  by (simp add: bit.conj_disj_distrib2 or_eq_0_iff)

text \<open>C35: On a DSi, the initialisation for a message with the shared structure as the ARM9 has cleared it always
  returns when the saved networks have masks of at most 32 bits. Every array of the structure then has
  the length of its declaration, the driver is active but switched off, the buffers are empty, and no
  lock is held, which is the state that the table of modes starts from.\<close>

theorem dsi_initialised:
  assumes "main_typed w" "reqFlags w AND WFLAG_REQ_DSI_MODE \<noteq> 0" "\<forall>ap \<in> set (aplist w). ap_spinlock ap = 0"
    "twl_tx_inv (txbuf w) []" "rx_inv (rxbuf w) []" "curMode w = WIFIMODE_DISABLED"
    "\<forall>d \<in> set (wfc_slots firmware 0x400 sizeof_nvram_cfg_ntr @ wfc_slots firmware 0xA00 sizeof_nvram_cfg_twl). d cfg_subnet_mask \<le> 32"
  shows "\<exists>t. wifiAddressHandler firmware isDSi now w s = Some t \<and> main_typed (wd7 t) \<and> twl_settled t \<and>
    curMode (wd7 t) = WIFIMODE_DISABLED \<and> rx_inv (rxbuf (wd7 t)) [] \<and> twl_tx_inv (txbuf (wd7 t)) [] \<and>
    unat (wfc_number_of_configs (wd7 t)) \<le> 6"
proof -
  let ?w = "Wifi_RandomAddEntropy now w"
  let ?s = "s\<lparr>WifiData_set7 := True, wd7 := ?w\<rparr>"
  have t: "main_typed ?w" using assms(1) by (simp add: entropy_fields)
  obtain w1 w2 n es where w2: "Wifi_NTR_GetWfcSettings firmware ?w = Some w1" "Wifi_TWL_GetWfcSettings firmware True w1 = Some w2"
      "main_typed w2" "unat (wfc_number_of_configs w2) \<le> 6" "w2 = ?w\<lparr>wfc := es, wfc_number_of_configs := n\<rparr>"
    using wfc_loads [OF t assms(7), of True] by blast
  define u where "u = s\<lparr>WifiData_set7 := True, wd7 := w2\<lparr>flags7 := flags7 w2 OR WFLAG_ARM7_ACTIVE\<rparr>\<rparr>"
  have "dsi_mode7 ?s" using assms(2) by (simp add: dsi_mode7_def entropy_fields)
  then have "wifiAddressHandler firmware isDSi now w s = Some u"
    using w2(1,2) by (simp add: wifiAddressHandler_def Wifi_Init7_def Wifi_TWL_Init_def load_wfc_def u_def wd7_upd_def Let_def)
  moreover have "main_typed (wd7 u)" "unat (wfc_number_of_configs (wd7 u)) \<le> 6" using w2(3,4) by (simp_all add: u_def main_typed_def)
  moreover have "twl_settled u" using assms(3,4) active_flag [of "flags7 w2"]
    by (auto simp: twl_settled_def u_def w2(5) entropy_fields simp del: WFLAG_ARM7_ACTIVE_def)
  moreover have "curMode (wd7 u) = WIFIMODE_DISABLED" "rx_inv (rxbuf (wd7 u)) []" "twl_tx_inv (txbuf (wd7 u)) []"
    using assms(4-6) by (simp_all add: u_def w2(5) entropy_fields)
  ultimately show ?thesis by blast
qed

theorem dsi_initialised_witness:
  "\<exists>t. wifiAddressHandler wfc_fw_ex True 5 (zero_main\<lparr>reqFlags := WFLAG_REQ_DSI_MODE\<rparr>) arm7_zero = Some t \<and> main_typed (wd7 t)"
proof -
  let ?w = "zero_main\<lparr>reqFlags := WFLAG_REQ_DSI_MODE\<rparr>"
  have t: "main_typed ?w" using zero_main_typed by (simp add: main_typed_def)
  have f: "reqFlags ?w AND WFLAG_REQ_DSI_MODE \<noteq> 0" "\<forall>ap \<in> set (aplist ?w). ap_spinlock ap = 0" "curMode ?w = WIFIMODE_DISABLED"
    by (simp_all add: zero_main_def zero_ap_def)
  have b: "twl_tx_inv (txbuf ?w) []" "rx_inv (rxbuf ?w) []"
    by (simp_all add: zero_main_def zero_buf_def ring_inv_def rx_inv_def read_u32_def)
  have m: "\<forall>d \<in> set (wfc_slots wfc_fw_ex 0x400 sizeof_nvram_cfg_ntr @ wfc_slots wfc_fw_ex 0xA00 sizeof_nvram_cfg_twl). d cfg_subnet_mask \<le> 32"
    by (rule wfc_fw_ex_masks)
  show ?thesis using dsi_initialised [OF t f(1,2) b f(3) m, of True 5 arm7_zero] by blast
qed

end
