(* ===== verification/Arm9_Assoc.thy ===== *)
theory Arm9_Assoc
  imports Arm9_Ipc
begin

text \<open>
  \<^verbatim>\<open>arm9/access_point.c\<close>: the list of access points as the application sees it, the
  search for a requested access point, and the state machine behind
  \<open>Wifi_AssocStatus\<close> that drives a connection from the ARM9; and, from
  \<^verbatim>\<open>arm9/ipc.c\<close>, \<open>Wifi_InitDefault\<close>, which polls it. \<open>None\<close> again is a call that does
  not return, here one that waits for the lock of an access point.
\<close>

section \<open>The access point list\<close>

datatype wifi_return = WIFI_RETURN_OK | WIFI_RETURN_LOCKFAILED | WIFI_RETURN_ERROR | WIFI_RETURN_PARAMERROR

datatype assoc_status =
    ASSOCSTATUS_DISCONNECTED | ASSOCSTATUS_SEARCHING | ASSOCSTATUS_AUTHENTICATING
  | ASSOCSTATUS_ASSOCIATING | ASSOCSTATUS_ACQUIRINGDHCP | ASSOCSTATUS_ASSOCIATED
  | ASSOCSTATUS_CANNOTCONNECT

definition ap_active :: "Wifi_AccessPoint \<Rightarrow> bool" where
  "ap_active ap \<longleftrightarrow> ap_flags ap AND WFLAG_APDATA_ACTIVE \<noteq> 0"

definition Wifi_GetNumAP :: "arm9 \<Rightarrow> nat" where
  "Wifi_GetNumAP s = length (filter ap_active (aplist (wd9 s)))"

fun find_active :: "int \<Rightarrow> int \<Rightarrow> nat \<Rightarrow> Wifi_AccessPoint list \<Rightarrow> nat option" where
  "find_active apnum count i [] = None"
| "find_active apnum count i (ap # aps) =
     (if \<not> ap_active ap then find_active apnum count (i + 1) aps
      else if count = apnum then Some i
      else find_active apnum (count + 1) (i + 1) aps)"

text \<open>The structure is copied while it is locked, so the copy carries the lock of the ARM9.\<close>

definition Wifi_GetAPData :: "int \<Rightarrow> arm9 \<Rightarrow> (wifi_return \<times> Wifi_AccessPoint option) option" where
  "Wifi_GetAPData apnum s =
     (if apnum < 0 then Some (WIFI_RETURN_PARAMERROR, None)
      else case find_active apnum 0 0 (aplist (wd9 s)) of
        None \<Rightarrow> Some (WIFI_RETURN_ERROR, Some zero_ap)
      | Some found_index \<Rightarrow>
          let ap = aplist (wd9 s) ! found_index in
          (case spin_acquire SPINLOCK_OWNER_ARM9 (ap_spinlock ap) of
             None \<Rightarrow> None
           | Some l \<Rightarrow> Some (WIFI_RETURN_OK, Some (ap\<lparr>ap_spinlock := l\<rparr>))))"

definition ap_matches :: "Wifi_AccessPoint \<Rightarrow> Wifi_AccessPoint \<Rightarrow> bool" where
  "ap_matches wanted ap \<longleftrightarrow>
     (if \<not> Wifi_CmpMacAddr (bssid wanted) (replicate 6 0) then Wifi_CmpMacAddr (bssid wanted) (bssid ap)
      else ssid_len wanted \<noteq> 0 \<and> ssid_len wanted \<le> 32 \<and> ssid_len wanted = ssid_len ap \<and>
           take (unat (ssid_len ap)) (ssid wanted) = take (unat (ssid_len ap)) (ssid ap))"

fun match_index :: "('a \<Rightarrow> bool) \<Rightarrow> nat \<Rightarrow> 'a list \<Rightarrow> nat option" where
  "match_index P j [] = None"
| "match_index P j (x # xs) = (if P x then Some j else match_index P (j + 1) xs)"

text \<open>The outer loop over the visible access points; \<open>P ap\<close> is the inner loop for one of them.\<close>

fun scan_aps :: "(Wifi_AccessPoint \<Rightarrow> nat option) \<Rightarrow> int list \<Rightarrow> arm9 \<Rightarrow> (nat \<times> Wifi_AccessPoint) option option" where
  "scan_aps inner [] s = Some None"
| "scan_aps inner (i # is) s =
     (case Wifi_GetAPData i s of
        None \<Rightarrow> None
      | Some (_, apdata) \<Rightarrow>
          let ap = (case apdata of None \<Rightarrow> zero_ap | Some ap \<Rightarrow> ap) in
          (case inner ap of Some j \<Rightarrow> Some (Some (j, ap)) | None \<Rightarrow> scan_aps inner is s))"

definition Wifi_FindMatchingAP :: "Wifi_AccessPoint list option \<Rightarrow> arm9 \<Rightarrow> (nat \<times> Wifi_AccessPoint) option option" where
  "Wifi_FindMatchingAP apdata s =
     (case apdata of
        None \<Rightarrow> Some None
      | Some wanted \<Rightarrow>
          scan_aps (\<lambda>ap. match_index (\<lambda>x. ap_matches x ap) 0 wanted) (map int [0..<Wifi_GetNumAP s]) s)"

definition wfc_matches :: "Wifi_AccessPoint \<Rightarrow> wfc_entry \<Rightarrow> bool" where
  "wfc_matches ap c \<longleftrightarrow> ssid_len ap = wfc_ssid_len c \<and>
     take (unat (wfc_ssid_len c)) (ssid ap) = take (unat (wfc_ssid_len c)) (wfc_ssid c)"

definition Wifi_FindMatchingAPFromWFC :: "arm9 \<Rightarrow> (nat \<times> Wifi_AccessPoint) option option" where
  "Wifi_FindMatchingAPFromWFC s =
     scan_aps (\<lambda>ap. if ssid_len ap = 0 then None
                    else match_index (wfc_matches ap) 0 (take (unat (wfc_number_of_configs (wd9 s))) (wfc (wd9 s))))
       (map int [0..<Wifi_GetNumAP s]) s"

section \<open>Requests to connect\<close>

definition Wifi_DisconnectAP :: "arm9 \<Rightarrow> int \<times> arm9" where
  "Wifi_DisconnectAP s =
     (0, (wd9_upd (\<lambda>w. w\<lparr>reqMode := WIFIMODE_NORMAL\<rparr>) s)\<lparr>wifi_connect_state := WIFI_CONNECT_ERROR\<rparr>)"

definition start_search :: "Wifi_AccessPoint \<Rightarrow> (Wifi_MainStruct \<Rightarrow> Wifi_MainStruct) \<Rightarrow> arm9 \<Rightarrow> arm9" where
  "start_search apdata set_key s =
     (let s1 = snd (Wifi_DisconnectAP s);
          s2 = wd9_upd set_key (s1\<lparr>wifi_connect_state := WIFI_CONNECT_SEARCHING\<rparr>)
      in Wifi_ScanMode (s2\<lparr>wifi_connect_point := apdata\<rparr>))"

text \<open>\<open>key\<close> is \<open>None\<close> for a null pointer; the copy reads \<open>key_len\<close> bytes from it.\<close>

definition Wifi_ConnectSecureAP ::
  "Wifi_AccessPoint option \<Rightarrow> mem8 option \<Rightarrow> u32 \<Rightarrow> arm9 \<Rightarrow> int \<times> arm9" where
  "Wifi_ConnectSecureAP apdata key key_len s =
     (let s = s\<lparr>wifi_connect_state := WIFI_CONNECT_ERROR\<rparr> in
      case apdata of
        None \<Rightarrow> (-1, s)
      | Some ap \<Rightarrow>
          if ssid_len ap > 32 then (-1, s)
          else if key = None \<and> key_len > 0 then (-1, s)
          else if key_len > 64 then (-1, s)
          else (0, start_search ap
            (\<lambda>w. w\<lparr>curApSecurity :=
                    (if key_len > 0 then
                       zero_security\<lparr>pass_len := ucast key_len,
                         pass := read_bytes (the key) 0 (unat key_len) @ replicate (64 - unat key_len) 0\<rparr>
                     else zero_security),
                  reqFlags := reqFlags w AND NOT WFLAG_REQ_LOAD_WFC_KEY\<rparr>) s))"

definition Wifi_ConnectWfcAP :: "Wifi_AccessPoint option \<Rightarrow> arm9 \<Rightarrow> int \<times> arm9" where
  "Wifi_ConnectWfcAP apdata s =
     (let s = s\<lparr>wifi_connect_state := WIFI_CONNECT_ERROR\<rparr> in
      case apdata of
        None \<Rightarrow> (-1, s)
      | Some ap \<Rightarrow>
          if ssid_len ap > 32 then (-1, s)
          else (0, start_search ap
            (\<lambda>w. w\<lparr>curApSecurity := zero_security, reqFlags := reqFlags w OR WFLAG_REQ_LOAD_WFC_KEY\<rparr>) s))"

definition Wifi_ConnectAP :: "Wifi_AccessPoint option \<Rightarrow> int \<Rightarrow> mem8 option \<Rightarrow> arm9 \<Rightarrow> int \<times> arm9" where
  "Wifi_ConnectAP apdata wepmode wepkey s =
     (let s = s\<lparr>wifi_connect_state := WIFI_CONNECT_ERROR\<rparr> in
      if wepmode < int WEPMODE_NONE \<or> wepmode > int WEPMODE_128BIT then (-1, s)
      else Wifi_ConnectSecureAP apdata wepkey (of_nat (Wifi_WepKeySizeFromMode (nat wepmode))) s)"

definition Wifi_ConnectOpenAP :: "Wifi_AccessPoint option \<Rightarrow> arm9 \<Rightarrow> int \<times> arm9" where
  "Wifi_ConnectOpenAP apdata s = Wifi_ConnectSecureAP apdata None 0 s"

definition Wifi_AutoConnect :: "arm9 \<Rightarrow> arm9" where
  "Wifi_AutoConnect s =
     (let s = Wifi_InternetMode s in
      if wfc_number_of_configs (wd9 s) = 0 then s\<lparr>wifi_connect_state := WIFI_CONNECT_ERROR\<rparr>
      else Wifi_ScanMode (s\<lparr>wifi_connect_state := WIFI_CONNECT_SEARCHING_WFC\<rparr>))"

section \<open>The connection state machine\<close>

definition assoc_searching :: "arm9 \<Rightarrow> (assoc_status \<times> arm9) option" where
  "assoc_searching s =
     (case Wifi_FindMatchingAP (Some [wifi_connect_point s]) s of
        None \<Rightarrow> None
      | Some None \<Rightarrow> Some (ASSOCSTATUS_SEARCHING, s)
      | Some (Some (_, found)) \<Rightarrow>
          Some (ASSOCSTATUS_SEARCHING,
            (wd9_upd (\<lambda>w. w\<lparr>curAp := found, reqMode := WIFIMODE_CONNECTED\<rparr>) s)
              \<lparr>wifi_connect_state := WIFI_CONNECT_ASSOCIATING\<rparr>))"

definition assoc_associating :: "arm9 \<Rightarrow> assoc_status \<times> arm9" where
  "assoc_associating s =
     (case curMode (wd9 s) of
        WIFIMODE_DISABLED \<Rightarrow> (ASSOCSTATUS_DISCONNECTED, s)
      | WIFIMODE_NORMAL \<Rightarrow> (ASSOCSTATUS_DISCONNECTED, s)
      | WIFIMODE_SCAN \<Rightarrow> (ASSOCSTATUS_DISCONNECTED, s)
      | WIFIMODE_CONNECTING \<Rightarrow> (ASSOCSTATUS_ASSOCIATING, s)
      | WIFIMODE_CONNECTED \<Rightarrow>
          let s1 = (if wifi_lwip_enabled s \<and> curLibraryMode (wd9 s) = DSWIFI_INTERNET
                    then wifi_netif_set_up s else s) in
          if wifi_lwip_enabled s \<and> curLibraryMode (wd9 s) = DSWIFI_INTERNET \<and> dswifi_use_dhcp s1
          then (ASSOCSTATUS_ACQUIRINGDHCP, s1\<lparr>wifi_connect_state := WIFI_CONNECT_DHCPING\<rparr>)
          else (ASSOCSTATUS_ASSOCIATED, s1\<lparr>wifi_connect_state := WIFI_CONNECT_DONE\<rparr>)
      | WIFIMODE_CANNOTCONNECT \<Rightarrow>
          (ASSOCSTATUS_CANNOTCONNECT, s\<lparr>wifi_connect_state := WIFI_CONNECT_ERROR\<rparr>)
      | _ \<Rightarrow> (ASSOCSTATUS_DISCONNECTED, s))"

definition assoc_dhcping :: "arm9 \<Rightarrow> assoc_status \<times> arm9" where
  "assoc_dhcping s =
     (if wifi_lwip_enabled s then
        (let ipv4_ready = (wifi_get_ip s \<noteq> 0 \<and> wifi_get_dns 0 s \<noteq> 0);
             ipv6_ready = wifi_get_ip6 s in
         if ipv4_ready \<or> ipv6_ready
         then (ASSOCSTATUS_ASSOCIATED, s\<lparr>wifi_connect_state := WIFI_CONNECT_DONE\<rparr>)
         else (ASSOCSTATUS_ACQUIRINGDHCP, s))
      else (ASSOCSTATUS_CANNOTCONNECT, (snd (Wifi_DisconnectAP s))\<lparr>wifi_connect_state := WIFI_CONNECT_ERROR\<rparr>))"

definition assoc_searching_wfc :: "arm9 \<Rightarrow> (assoc_status \<times> arm9) option" where
  "assoc_searching_wfc s =
     (case Wifi_FindMatchingAPFromWFC s of
        None \<Rightarrow> None
      | Some None \<Rightarrow> Some (ASSOCSTATUS_SEARCHING, s)
      | Some (Some (n, found)) \<Rightarrow>
          let c = wfc (wd9 s) ! n;
              s1 = (if wifi_lwip_enabled s then
                      Wifi_SetIP (wfc_ip c) (wfc_gateway c) (wfc_subnet_mask c) (wfc_dns_primary c)
                        (wfc_dns_secondary c) s
                    else s)
          in Some (ASSOCSTATUS_SEARCHING,
               (wd9_upd (\<lambda>w. w\<lparr>curAp := found, curApSecurity := wfc_security (wfc w ! n),
                               reqMode := WIFIMODE_CONNECTED\<rparr>) s1)
                 \<lparr>wifi_connect_state := WIFI_CONNECT_ASSOCIATING\<rparr>))"

definition Wifi_AssocStatus :: "arm9 \<Rightarrow> (assoc_status \<times> arm9) option" where
  "Wifi_AssocStatus s =
     (case wifi_connect_state s of
        WIFI_CONNECT_ERROR \<Rightarrow> Some (ASSOCSTATUS_CANNOTCONNECT, s)
      | WIFI_CONNECT_SEARCHING \<Rightarrow> assoc_searching s
      | WIFI_CONNECT_ASSOCIATING \<Rightarrow> Some (assoc_associating s)
      | WIFI_CONNECT_DHCPING \<Rightarrow> Some (assoc_dhcping s)
      | WIFI_CONNECT_DONE \<Rightarrow> Some (ASSOCSTATUS_ASSOCIATED, s)
      | WIFI_CONNECT_SEARCHING_WFC \<Rightarrow> assoc_searching_wfc s)"

text \<open>The wait for the association in \<open>Wifi_InitDefault\<close>; \<open>env\<close> is one frame of the rest of the system.\<close>

fun wait_assoc :: "nat \<Rightarrow> (arm9 \<Rightarrow> arm9) \<Rightarrow> arm9 \<Rightarrow> (bool \<times> arm9) option" where
  "wait_assoc 0 env s = None"
| "wait_assoc (Suc fuel) env s =
     (case Wifi_AssocStatus s of
        None \<Rightarrow> None
      | Some (st, s1) \<Rightarrow>
          if st = ASSOCSTATUS_ASSOCIATED then Some (True, s1)
          else if st = ASSOCSTATUS_CANNOTCONNECT then Some (False, s1)
          else wait_assoc fuel env (env s1))"

definition Wifi_InitDefault ::
  "nat \<Rightarrow> (Wifi_MainStruct \<Rightarrow> Wifi_MainStruct) \<Rightarrow> (arm9 \<Rightarrow> arm9) \<Rightarrow> bool \<Rightarrow> bool \<Rightarrow> bool \<Rightarrow> u8 \<Rightarrow> u16 list
    \<Rightarrow> u32 \<Rightarrow> arm9 \<Rightarrow> (bool \<times> arm9) option" where
  "Wifi_InitDefault fuel env7 env alloc_ok netif_add_ok isDSiMode personal_len personal_name flags s =
     (if flags AND WIFI_LOCAL_ONLY \<noteq> 0 \<and> flags AND WFC_CONNECT \<noteq> 0 then Some (False, s)
      else if flags AND WIFI_ATTEMPT_DSI_MODE \<noteq> 0 \<and> flags AND WIFI_LOCAL_ONLY \<noteq> 0 then Some (False, s)
      else case Wifi_InitIPC fuel env7 alloc_ok isDSiMode personal_len personal_name flags s of
        None \<Rightarrow> None
      | Some (False, s1) \<Rightarrow> Some (False, s1)
      | Some (True, s1) \<Rightarrow>
          let (r, s2) = (if flags AND WIFI_LOCAL_ONLY \<noteq> 0 then (0, s1) else wifi_lwip_init netif_add_ok s1) in
          if r \<noteq> 0 then Some (False, s2)
          else let s3 = s2\<lparr>value32_handler9 := True\<rparr> in
            if flags AND WFC_CONNECT = 0 then Some (True, s3)
            else wait_assoc fuel env (Wifi_AutoConnect s3))"

section \<open>Searching\<close>

lemma find_active_nth:
  "k < length (filter ap_active aps) \<Longrightarrow>
   \<exists>j. find_active (c + int k) c i aps = Some (i + j) \<and> j < length aps \<and> aps ! j = filter ap_active aps ! k"
proof (induction aps arbitrary: c i k)
  case (Cons ap aps)
  show ?case
  proof (cases "ap_active ap")
    case False
    then obtain j where "find_active (c + int k) c (i + 1) aps = Some (i + 1 + j)" "j < length aps"
        "aps ! j = filter ap_active aps ! k"
      using Cons.IH [of k c "i + 1"] Cons.prems by auto
    with False show ?thesis by (intro exI [of _ "Suc j"]) simp
  next
    case True
    show ?thesis
    proof (cases k)
      case 0
      with True show ?thesis by (intro exI [of _ 0]) simp
    next
      case (Suc k')
      then obtain j where "find_active (c + 1 + int k') (c + 1) (i + 1) aps = Some (i + 1 + j)" "j < length aps"
          "aps ! j = filter ap_active aps ! k'"
        using Cons.IH [of k' "c + 1" "i + 1"] Cons.prems True by auto
      with True Suc show ?thesis by (intro exI [of _ "Suc j"]) (simp add: algebra_simps)
    qed
  qed
qed simp

definition aps_unlocked :: "arm9 \<Rightarrow> bool" where
  "aps_unlocked s \<longleftrightarrow> (\<forall>ap \<in> set (aplist (wd9 s)). ap_spinlock ap = 0)"

text \<open>The \<open>k\<close>-th visible access point, as \<open>Wifi_GetAPData\<close> returns it.\<close>

definition visible_ap :: "arm9 \<Rightarrow> nat \<Rightarrow> Wifi_AccessPoint" where
  "visible_ap s k = (filter ap_active (aplist (wd9 s)) ! k)\<lparr>ap_spinlock := SPINLOCK_OWNER_ARM9\<rparr>"

lemma get_ap_data:
  assumes "aps_unlocked s" "k < Wifi_GetNumAP s"
  shows "Wifi_GetAPData (int k) s = Some (WIFI_RETURN_OK, Some (visible_ap s k))"
proof -
  obtain j where j: "find_active (int k) 0 0 (aplist (wd9 s)) = Some j" "j < length (aplist (wd9 s))"
      "aplist (wd9 s) ! j = filter ap_active (aplist (wd9 s)) ! k"
    using find_active_nth [of k "aplist (wd9 s)" 0 0] assms(2) by (auto simp: Wifi_GetNumAP_def)
  have "aplist (wd9 s) ! j \<in> set (aplist (wd9 s))" using j(2) by (rule nth_mem)
  then have "ap_spinlock (filter ap_active (aplist (wd9 s)) ! k) = 0"
    using assms(1) j(3) by (simp add: aps_unlocked_def)
  then show ?thesis using j by (simp add: Wifi_GetAPData_def visible_ap_def)
qed

lemma scan_aps_result:
  assumes "aps_unlocked s" "\<forall>k \<in> set ks. k < Wifi_GetNumAP s"
  shows "scan_aps inner (map int ks) s =
    Some (case filter (\<lambda>k. inner (visible_ap s k) \<noteq> None) ks of
            [] \<Rightarrow> None | k # _ \<Rightarrow> Some (the (inner (visible_ap s k)), visible_ap s k))"
  using assms(2)
proof (induction ks)
  case (Cons k ks)
  then show ?case
    using get_ap_data [OF assms(1), of k] by (auto split: option.splits)
qed simp

lemma match_index_Some: "match_index P i xs = Some j \<Longrightarrow> i \<le> j \<and> j < i + length xs \<and> P (xs ! (j - i))"
proof (induction xs arbitrary: i)
  case (Cons x xs)
  show ?case
  proof (cases "P x")
    case False
    then have "Suc i \<le> j \<and> j < Suc i + length xs \<and> P (xs ! (j - Suc i))"
      using Cons.IH [of "Suc i"] Cons.prems by simp
    then show ?thesis by (auto simp: nth_Cons' Suc_le_eq)
  qed (use Cons.prems in simp)
qed simp

lemma match_index_None: "match_index P i xs = None \<longleftrightarrow> (\<forall>x \<in> set xs. \<not> P x)"
  by (induction xs arbitrary: i) auto

text \<open>C16: the search for one of the access points the application names always ends when no access
  point is locked; what it finds is a visible access point that matches the entry whose index it
  returns, by address when the entry has one and by name otherwise; and it finds nothing only
  when no visible access point matches any entry.\<close>

theorem find_matching_ap_correct:
  assumes "aps_unlocked s"
  shows "(\<exists>j k. Wifi_FindMatchingAP (Some wanted) s = Some (Some (j, visible_ap s k)) \<and>
           k < Wifi_GetNumAP s \<and> j < length wanted \<and> ap_matches (wanted ! j) (visible_ap s k)) \<or>
         (Wifi_FindMatchingAP (Some wanted) s = Some None \<and>
           (\<forall>k < Wifi_GetNumAP s. \<forall>x \<in> set wanted. \<not> ap_matches x (visible_ap s k)))"
proof -
  let ?inner = "\<lambda>ap. match_index (\<lambda>x. ap_matches x ap) 0 wanted"
  let ?hits = "filter (\<lambda>k. ?inner (visible_ap s k) \<noteq> None) [0..<Wifi_GetNumAP s]"
  have eq: "Wifi_FindMatchingAP (Some wanted) s =
      Some (case ?hits of [] \<Rightarrow> None | k # _ \<Rightarrow> Some (the (?inner (visible_ap s k)), visible_ap s k))"
    using scan_aps_result [OF assms, of "[0..<Wifi_GetNumAP s]" ?inner] by (simp add: Wifi_FindMatchingAP_def)
  show ?thesis
  proof (cases ?hits)
    case Nil
    then have "\<forall>k < Wifi_GetNumAP s. ?inner (visible_ap s k) = None" by (auto simp: filter_empty_conv)
    then show ?thesis using eq Nil by (simp add: match_index_None)
  next
    case (Cons k ks)
    then have "k \<in> set ?hits" by simp
    then have k: "k < Wifi_GetNumAP s" "?inner (visible_ap s k) \<noteq> None" by auto
    then obtain j where j: "?inner (visible_ap s k) = Some j" by auto
    from match_index_Some [OF j] have "j < length wanted" "ap_matches (wanted ! j) (visible_ap s k)" by auto
    then show ?thesis using eq Cons j k by auto
  qed
qed

text \<open>A console that sees one network, named in the witnesses.\<close>

definition ap_ex :: Wifi_AccessPoint where
  "ap_ex = zero_ap\<lparr>bssid := [1, 2, 3, 4, 5, 6], ap_flags := WFLAG_APDATA_ACTIVE\<rparr>"

definition net_ex :: arm9 where
  "net_ex = arm9_boot\<lparr>wd9 := zero_main\<lparr>aplist := [ap_ex]\<rparr>, wifi_connect_point := ap_ex\<rparr>"

lemma net_ex_simps:
  "aps_unlocked net_ex" "Wifi_GetNumAP net_ex = 1" "visible_ap net_ex 0 = ap_ex\<lparr>ap_spinlock := 2\<rparr>"
  by (simp_all add: aps_unlocked_def net_ex_def ap_ex_def zero_ap_def Wifi_GetNumAP_def visible_ap_def ap_active_def)

theorem find_matching_ap_correct_witness:
  "\<exists>j k. Wifi_FindMatchingAP (Some [ap_ex]) net_ex = Some (Some (j, visible_ap net_ex k)) \<and>
     ap_matches ([ap_ex] ! j) (visible_ap net_ex k)"
proof -
  have "ap_matches ap_ex (visible_ap net_ex 0)"
    by (simp add: net_ex_simps ap_matches_def ap_ex_def Wifi_CmpMacAddr_def numeral_eq_Suc)
  then show ?thesis
    using find_matching_ap_correct [OF net_ex_simps(1), of "[ap_ex]"] net_ex_simps(2) by auto
qed

section \<open>Connecting\<close>

text \<open>
  A sequence of polls: the state before a poll, the status it answers and the state it leaves. Between two
  polls the ARM7, lwIP and the application may change everything but the state of the connection and the
  requested access point, which only the functions of this file write; and the address of the interface stays
  an IPv4 address, as \<^verbatim>\<open>wifi_lwip_init\<close> makes it.
\<close>

type_synonym poll = "arm9 \<times> assoc_status \<times> arm9"

fun poll_run :: "arm9 \<Rightarrow> poll list \<Rightarrow> bool" where
  "poll_run s [] \<longleftrightarrow> True"
| "poll_run s ((x, st, y) # ps) \<longleftrightarrow>
     wifi_connect_state x = wifi_connect_state s \<and> wifi_connect_point x = wifi_connect_point s \<and>
     netif_ip4 x \<noteq> None \<and> Wifi_AssocStatus x = Some (st, y) \<and> poll_run y ps"

text \<open>What a poll can have found: the requested access point among the visible ones, whose data it then
  stored with the request to connect; an ARM7 that is connected; and an address for lwIP, that is an
  IPv4 address with a name server or an IPv6 address.\<close>

fun found_network :: "Wifi_AccessPoint \<Rightarrow> poll \<Rightarrow> bool" where
  "found_network wanted (x, st, y) \<longleftrightarrow>
     (\<exists>ap \<in> set (aplist (wd9 x)). ap_active ap \<and> ap_matches wanted ap \<and>
       curAp (wd9 y) = ap\<lparr>ap_spinlock := SPINLOCK_OWNER_ARM9\<rparr> \<and> reqMode (wd9 y) = WIFIMODE_CONNECTED)"

fun found_connected :: "poll \<Rightarrow> bool" where
  "found_connected (x, st, y) \<longleftrightarrow> curMode (wd9 x) = WIFIMODE_CONNECTED"

fun needs_address :: "poll \<Rightarrow> bool" where
  "needs_address (x, st, y) \<longleftrightarrow>
     wifi_lwip_enabled x \<and> curLibraryMode (wd9 x) = DSWIFI_INTERNET \<and> dswifi_use_dhcp x"

fun found_address :: "poll \<Rightarrow> bool" where
  "found_address (x, st, y) \<longleftrightarrow> wifi_lwip_enabled x \<and>
     ((\<exists>a. netif_ip4 x = Some a \<and> a \<noteq> 0) \<and> dns_server x 0 \<noteq> Some 0 \<or> netif_ip6_valid x)"

text \<open>The reasons that the polls so far have given for the state of the connection.\<close>

definition network_before :: "Wifi_AccessPoint \<Rightarrow> poll list \<Rightarrow> nat \<Rightarrow> bool" where
  "network_before wanted ps j \<longleftrightarrow> (\<exists>i < j. found_network wanted (ps ! i))"

definition connected_before :: "Wifi_AccessPoint \<Rightarrow> poll list \<Rightarrow> nat \<Rightarrow> bool" where
  "connected_before wanted ps l \<longleftrightarrow> (\<exists>j < l. found_connected (ps ! j) \<and> network_before wanted ps j)"

definition associated_before :: "Wifi_AccessPoint \<Rightarrow> poll list \<Rightarrow> nat \<Rightarrow> bool" where
  "associated_before wanted ps n \<longleftrightarrow>
     (\<exists>j < n. found_connected (ps ! j) \<and> \<not> needs_address (ps ! j) \<and> network_before wanted ps j) \<or>
     (\<exists>l < n. found_address (ps ! l) \<and> connected_before wanted ps l)"

fun reasons :: "Wifi_AccessPoint \<Rightarrow> poll list \<Rightarrow> WIFI_CONNECT_STATE \<Rightarrow> bool" where
  "reasons wanted ps WIFI_CONNECT_ERROR \<longleftrightarrow> True"
| "reasons wanted ps WIFI_CONNECT_SEARCHING \<longleftrightarrow> True"
| "reasons wanted ps WIFI_CONNECT_ASSOCIATING \<longleftrightarrow> network_before wanted ps (length ps)"
| "reasons wanted ps WIFI_CONNECT_DHCPING \<longleftrightarrow> connected_before wanted ps (length ps)"
| "reasons wanted ps WIFI_CONNECT_DONE \<longleftrightarrow> associated_before wanted ps (length ps)"
| "reasons wanted ps WIFI_CONNECT_SEARCHING_WFC \<longleftrightarrow> False"

lemma ex_below_cong: "(\<And>j. j < n \<Longrightarrow> P j = Q j) \<Longrightarrow> (\<exists>j < n. P j) = (\<exists>j < (n :: nat). Q j)"
  by blast

lemma network_before_append:
  assumes "n \<le> length ps"
  shows "network_before wanted (ps @ qs) n = network_before wanted ps n"
  unfolding network_before_def using assms by (intro ex_below_cong) (simp add: nth_append)

lemma connected_before_append:
  assumes "n \<le> length ps"
  shows "connected_before wanted (ps @ qs) n = connected_before wanted ps n"
  unfolding connected_before_def using assms by (intro ex_below_cong) (simp add: nth_append network_before_append)

lemma associated_before_append:
  assumes "n \<le> length ps"
  shows "associated_before wanted (ps @ qs) n = associated_before wanted ps n"
  unfolding associated_before_def using assms
  by (intro arg_cong2 [where f = "(\<or>)"] ex_below_cong) (simp_all add: nth_append network_before_append connected_before_append)

lemmas before_append = network_before_append connected_before_append associated_before_append

lemma before_Suc:
  "network_before wanted ps n \<Longrightarrow> network_before wanted ps (Suc n)"
  "connected_before wanted ps n \<Longrightarrow> connected_before wanted ps (Suc n)"
  "associated_before wanted ps n \<Longrightarrow> associated_before wanted ps (Suc n)"
  by (auto simp: network_before_def connected_before_def associated_before_def less_Suc_eq)

lemma connect_point_wd9 [simp]: "wifi_connect_point (wd9_upd f s) = wifi_connect_point s"
  by (simp add: wd9_upd_def)

lemma get_ap_data_result:
  assumes "k < Wifi_GetNumAP s" "Wifi_GetAPData (int k) s = Some (r, d)"
  shows "d = Some (visible_ap s k)"
proof -
  obtain j where j: "find_active (int k) 0 0 (aplist (wd9 s)) = Some j"
      "aplist (wd9 s) ! j = filter ap_active (aplist (wd9 s)) ! k"
    using find_active_nth [of k "aplist (wd9 s)" 0 0] assms(1) by (auto simp: Wifi_GetNumAP_def)
  show ?thesis
    using assms(2) j
    by (cases "ap_spinlock (filter ap_active (aplist (wd9 s)) ! k) = 0") (simp_all add: Wifi_GetAPData_def visible_ap_def)
qed

lemma scan_aps_found:
  assumes "scan_aps inner (map int ks) s = Some (Some (j, ap))" "\<forall>k \<in> set ks. k < Wifi_GetNumAP s"
  shows "\<exists>k < Wifi_GetNumAP s. inner (visible_ap s k) = Some j \<and> ap = visible_ap s k"
  using assms
proof (induction ks)
  case (Cons k ks)
  then obtain r d where d: "Wifi_GetAPData (int k) s = Some (r, d)" by (auto split: option.splits)
  with Cons.prems(2) have "d = Some (visible_ap s k)" by (intro get_ap_data_result) auto
  with Cons d show ?case by (auto simp: Let_def split: option.splits)
qed simp

lemma ap_matches_lock [simp]: "ap_matches wanted (ap\<lparr>ap_spinlock := l\<rparr>) = ap_matches wanted ap"
  by (simp add: ap_matches_def)

lemma searching_found:
  assumes "assoc_searching s = Some (st, s')"
  shows "st = ASSOCSTATUS_SEARCHING \<and> wifi_connect_point s' = wifi_connect_point s \<and>
    (s' = s \<or> wifi_connect_state s' = WIFI_CONNECT_ASSOCIATING \<and> found_network (wifi_connect_point s) (s, st, s'))"
proof -
  consider "Wifi_FindMatchingAP (Some [wifi_connect_point s]) s = Some None" "st = ASSOCSTATUS_SEARCHING" "s' = s"
    | j ap where "Wifi_FindMatchingAP (Some [wifi_connect_point s]) s = Some (Some (j, ap))" "st = ASSOCSTATUS_SEARCHING"
      "s' = (wd9_upd (\<lambda>w. w\<lparr>curAp := ap, reqMode := WIFIMODE_CONNECTED\<rparr>) s)\<lparr>wifi_connect_state := WIFI_CONNECT_ASSOCIATING\<rparr>"
    using assms by (auto simp: assoc_searching_def split: option.splits)
  then show ?thesis
  proof cases
    case 2
    obtain k where k: "k < Wifi_GetNumAP s" "match_index (\<lambda>x. ap_matches x (visible_ap s k)) 0 [wifi_connect_point s] = Some j"
        "ap = visible_ap s k"
      using scan_aps_found [of "\<lambda>ap. match_index (\<lambda>x. ap_matches x ap) 0 [wifi_connect_point s]" "[0..<Wifi_GetNumAP s]" s j ap] 2(1)
      by (auto simp: Wifi_FindMatchingAP_def)
    let ?ap = "filter ap_active (aplist (wd9 s)) ! k"
    have "?ap \<in> set (filter ap_active (aplist (wd9 s)))" using k(1) by (intro nth_mem) (simp add: Wifi_GetNumAP_def)
    moreover have "ap_matches (wifi_connect_point s) ?ap"
      using k(2) by (simp add: visible_ap_def split: if_splits)
    ultimately have "found_network (wifi_connect_point s) (s, st, s')"
      using 2(3) k(3) by (auto simp: visible_ap_def)
    then show ?thesis using 2 by simp
  qed simp
qed

lemma associating_found:
  assumes "assoc_associating s = (st, s')" "wifi_connect_state s = WIFI_CONNECT_ASSOCIATING"
  shows "wifi_connect_point s' = wifi_connect_point s \<and>
    (st = ASSOCSTATUS_ASSOCIATED \<longleftrightarrow> wifi_connect_state s' = WIFI_CONNECT_DONE) \<and>
    wifi_connect_state s' \<in> {WIFI_CONNECT_ASSOCIATING, WIFI_CONNECT_ERROR, WIFI_CONNECT_DHCPING, WIFI_CONNECT_DONE} \<and>
    (wifi_connect_state s' = WIFI_CONNECT_DHCPING \<longrightarrow> found_connected (s, st, s')) \<and>
    (wifi_connect_state s' = WIFI_CONNECT_DONE \<longrightarrow> found_connected (s, st, s') \<and> \<not> needs_address (s, st, s'))"
  using assms by (auto simp: assoc_associating_def Let_def wifi_netif_set_up_def split: WIFI_MODE.splits if_splits)

lemma dhcping_found:
  assumes "assoc_dhcping s = (st, s')" "wifi_connect_state s = WIFI_CONNECT_DHCPING" "netif_ip4 s \<noteq> None"
  shows "wifi_connect_point s' = wifi_connect_point s \<and>
    (st = ASSOCSTATUS_ASSOCIATED \<longleftrightarrow> wifi_connect_state s' = WIFI_CONNECT_DONE) \<and>
    wifi_connect_state s' \<in> {WIFI_CONNECT_DHCPING, WIFI_CONNECT_ERROR, WIFI_CONNECT_DONE} \<and>
    (wifi_connect_state s' = WIFI_CONNECT_DONE \<longrightarrow> found_address (s, st, s'))"
  using assms by (auto simp: assoc_dhcping_def Let_def Wifi_DisconnectAP_def wifi_get_ip_def wifi_get_dns_def
      wifi_get_ip6_def split: if_splits)

lemma poll_reasons:
  assumes "reasons wanted ps (wifi_connect_state x)" "Wifi_AssocStatus x = Some (st, y)" "wifi_connect_point x = wanted"
    "netif_ip4 x \<noteq> None"
  shows "reasons wanted (ps @ [(x, st, y)]) (wifi_connect_state y) \<and> wifi_connect_point y = wanted \<and>
    (st = ASSOCSTATUS_ASSOCIATED \<longleftrightarrow> wifi_connect_state y = WIFI_CONNECT_DONE)"
proof -
  let ?ps = "ps @ [(x, st, y)]"
  have l: "?ps ! length ps = (x, st, y)" "length ?ps = Suc (length ps)" by simp_all
  show ?thesis
  proof (cases "wifi_connect_state x")
    case WIFI_CONNECT_SEARCHING
    then have "assoc_searching x = Some (st, y)" using assms(2) by (simp add: Wifi_AssocStatus_def)
    note f = searching_found [OF this]
    have "network_before wanted ?ps (length ?ps)" if "found_network wanted (x, st, y)"
      using that unfolding network_before_def l(2) by (intro exI [of _ "length ps"]) (simp only: l(1) lessI simp_thms)
    then show ?thesis using f WIFI_CONNECT_SEARCHING assms(3) by (auto simp del: found_network.simps)
  next
    case WIFI_CONNECT_ASSOCIATING
    then have n: "network_before wanted ?ps (length ps)" using assms(1) by (simp add: before_append)
    have "assoc_associating x = (st, y)" using WIFI_CONNECT_ASSOCIATING assms(2) by (simp add: Wifi_AssocStatus_def)
    note f = associating_found [OF this WIFI_CONNECT_ASSOCIATING]
    have "connected_before wanted ?ps (length ?ps)" if "found_connected (x, st, y)"
      using n that unfolding connected_before_def l(2) by (intro exI [of _ "length ps"]) (simp only: l(1) lessI simp_thms)
    moreover have "associated_before wanted ?ps (length ?ps)" if "found_connected (x, st, y)" "\<not> needs_address (x, st, y)"
      using n that unfolding associated_before_def l(2)
      by (intro disjI1 exI [of _ "length ps"]) (simp only: l(1) lessI simp_thms)
    ultimately show ?thesis using f assms(3) before_Suc(1) [OF n, folded l(2)]
      by (auto simp del: found_connected.simps needs_address.simps found_address.simps length_append)
  next
    case WIFI_CONNECT_DHCPING
    then have c: "connected_before wanted ?ps (length ps)" using assms(1) by (simp add: before_append)
    have "assoc_dhcping x = (st, y)" using WIFI_CONNECT_DHCPING assms(2) by (simp add: Wifi_AssocStatus_def)
    note f = dhcping_found [OF this WIFI_CONNECT_DHCPING assms(4)]
    have "associated_before wanted ?ps (length ?ps)" if "found_address (x, st, y)"
      using c that unfolding associated_before_def l(2)
      by (intro disjI2 exI [of _ "length ps"]) (simp only: l(1) lessI simp_thms)
    then show ?thesis using f assms(3) before_Suc(2) [OF c, folded l(2)]
      by (auto simp del: found_connected.simps needs_address.simps found_address.simps length_append)
  next
    case WIFI_CONNECT_DONE
    then have "associated_before wanted ?ps (length ps)" using assms(1) by (simp add: before_append)
    then show ?thesis using WIFI_CONNECT_DONE assms(2,3) before_Suc(3) by (auto simp: Wifi_AssocStatus_def)
  qed (use assms in \<open>simp_all add: Wifi_AssocStatus_def\<close>)
qed

lemma done_stays: "poll_run s ps \<Longrightarrow> wifi_connect_state s = WIFI_CONNECT_DONE \<Longrightarrow> p \<in> set ps \<Longrightarrow> fst (snd p) = ASSOCSTATUS_ASSOCIATED"
  by (induction s ps rule: poll_run.induct) (fastforce simp: Wifi_AssocStatus_def)+

lemma run_reasons:
  assumes "poll_run s ps" "reasons wanted qs (wifi_connect_state s)" "wifi_connect_point s = wanted"
    "n < length ps" "fst (snd (ps ! n)) = ASSOCSTATUS_ASSOCIATED"
  shows "associated_before wanted (qs @ ps) (length qs + Suc n) \<and> (\<forall>m. n \<le> m \<and> m < length ps \<longrightarrow> fst (snd (ps ! m)) = ASSOCSTATUS_ASSOCIATED)"
  using assms
proof (induction s ps arbitrary: qs n rule: poll_run.induct)
  case (2 s x st y ps)
  then have x: "wifi_connect_state x = wifi_connect_state s" "wifi_connect_point x = wanted" "netif_ip4 x \<noteq> None"
    "Wifi_AssocStatus x = Some (st, y)" "poll_run y ps" by auto
  have r: "reasons wanted (qs @ [(x, st, y)]) (wifi_connect_state y)" "wifi_connect_point y = wanted"
      "st = ASSOCSTATUS_ASSOCIATED \<longleftrightarrow> wifi_connect_state y = WIFI_CONNECT_DONE"
    using poll_reasons [of wanted qs x st y] 2(3) x by simp_all
  show ?case
  proof (cases n)
    case 0
    then have d: "wifi_connect_state y = WIFI_CONNECT_DONE" using 2(6) r(3) by simp
    then have "associated_before wanted (qs @ [(x, st, y)]) (length qs + Suc 0)" using r(1) by simp
    then have "associated_before wanted ((qs @ [(x, st, y)]) @ ps) (length qs + Suc 0)" by (subst before_append) simp_all
    moreover have "fst (snd (((x, st, y) # ps) ! m)) = ASSOCSTATUS_ASSOCIATED" if "m < length ((x, st, y) # ps)" for m
      using that done_stays [OF x(5) d] 2(6) 0 by (cases m) auto
    ultimately show ?thesis using 0 by simp
  next
    case (Suc k)
    then have "k < length ps" "fst (snd (ps ! k)) = ASSOCSTATUS_ASSOCIATED" using 2(5,6) by simp_all
    from 2(1) [OF x(5) r(1,2) this] show ?thesis using Suc by (auto simp: nth_Cons split: nat.splits)
  qed
qed simp

text \<open>C18: An association is reported only for a reason, and in this order. When a poll after a request to
  connect answers that the console is associated, an earlier poll found the requested network among the
  visible ones and asked the ARM7 to connect to it, and after that a poll saw the ARM7 connected; if lwIP
  needed an address from DHCP then, a poll after that saw that it has a name server and an address other than
  0.0.0.0, or an IPv6 address. From then on every poll gives the same answer.\<close>

theorem association_has_reasons:
  assumes "Wifi_ConnectSecureAP (Some wanted) key key_len s = (0, s0)" "poll_run s0 ps" "n < length ps"
    "fst (snd (ps ! n)) = ASSOCSTATUS_ASSOCIATED"
  shows "(\<exists>i j. i < j \<and> j \<le> n \<and> found_network wanted (ps ! i) \<and> found_connected (ps ! j) \<and>
      (\<not> needs_address (ps ! j) \<or> (\<exists>l. j < l \<and> l \<le> n \<and> found_address (ps ! l)))) \<and>
    (\<forall>m. n \<le> m \<and> m < length ps \<longrightarrow> fst (snd (ps ! m)) = ASSOCSTATUS_ASSOCIATED)"
proof -
  have "wifi_connect_state s0 = WIFI_CONNECT_SEARCHING" "wifi_connect_point s0 = wanted"
    using assms(1) by (auto simp: Wifi_ConnectSecureAP_def start_search_def Wifi_ScanMode_def Wifi_ScanModeFilter_def
        wd9_upd_def Let_def split: if_splits)
  then have r: "associated_before wanted ps (Suc n)" "\<forall>m. n \<le> m \<and> m < length ps \<longrightarrow> fst (snd (ps ! m)) = ASSOCSTATUS_ASSOCIATED"
    using run_reasons [OF assms(2), of wanted "[]" n] assms(3,4) by simp_all
  from r(1) show ?thesis
    unfolding associated_before_def connected_before_def network_before_def less_Suc_eq_le
  proof (elim disjE exE conjE)
    fix j i assume "j \<le> n" "found_connected (ps ! j)" "\<not> needs_address (ps ! j)" "i < j" "found_network wanted (ps ! i)"
    then show ?thesis using r(2) by blast
  next
    fix l j i assume "l \<le> n" "found_address (ps ! l)" "j < l" "found_connected (ps ! j)" "i < j" "found_network wanted (ps ! i)"
    moreover from this have "j \<le> n" by simp
    ultimately show ?thesis using r(2) by blast
  qed
qed

text \<open>The request and two polls of a console that sees the network, without lwIP.\<close>

definition request_ex :: arm9 where
  "request_ex = snd (Wifi_ConnectSecureAP (Some ap_ex) None 0 net_ex)"

theorem association_has_reasons_witness:
  "\<exists>x1 y1 x2 y2. poll_run request_ex [(x1, ASSOCSTATUS_SEARCHING, y1), (x2, ASSOCSTATUS_ASSOCIATED, y2)] \<and>
    found_network ap_ex (x1, ASSOCSTATUS_SEARCHING, y1) \<and> curMode (wd9 x2) = WIFIMODE_CONNECTED \<and> \<not> wifi_lwip_enabled x2"
proof -
  let ?y1 = "(wd9_upd (\<lambda>w. w\<lparr>curAp := visible_ap request_ex 0, reqMode := WIFIMODE_CONNECTED\<rparr>) request_ex)
    \<lparr>wifi_connect_state := WIFI_CONNECT_ASSOCIATING\<rparr>"
  let ?x2 = "wd9_upd (\<lambda>w. w\<lparr>curMode := WIFIMODE_CONNECTED\<rparr>) ?y1"
  let ?y2 = "?x2\<lparr>wifi_connect_state := WIFI_CONNECT_DONE\<rparr>"
  let ?ps = "[(request_ex, ASSOCSTATUS_SEARCHING, ?y1), (?x2, ASSOCSTATUS_ASSOCIATED, ?y2)]"
  have ok: "Wifi_ConnectSecureAP (Some ap_ex) None 0 net_ex = (0, request_ex)"
    by (simp add: request_ex_def Wifi_ConnectSecureAP_def ap_ex_def zero_ap_def Let_def)
  have r: "wifi_connect_state request_ex = WIFI_CONNECT_SEARCHING" "wifi_connect_point request_ex = ap_ex"
    "aplist (wd9 request_ex) = [ap_ex]" "netif_ip4 request_ex = Some 0" "\<not> wifi_lwip_enabled request_ex"
    by (simp_all add: request_ex_def Wifi_ConnectSecureAP_def start_search_def Wifi_DisconnectAP_def Wifi_ScanMode_def
      Wifi_ScanModeFilter_def ap_ex_def zero_ap_def net_ex_def arm9_boot_def wd9_upd_def Let_def)
  have n: "aps_unlocked request_ex" "Wifi_GetNumAP request_ex = 1" "visible_ap request_ex 0 = ap_ex\<lparr>ap_spinlock := 2\<rparr>"
    by (simp_all add: aps_unlocked_def r ap_ex_def zero_ap_def Wifi_GetNumAP_def visible_ap_def ap_active_def)
  have m: "ap_matches ap_ex ap_ex" by (simp add: ap_matches_def ap_ex_def Wifi_CmpMacAddr_def numeral_eq_Suc)
  have "Wifi_FindMatchingAP (Some [ap_ex]) request_ex = Some (Some (0, visible_ap request_ex 0))"
    using scan_aps_result [OF n(1), of "[0]" "\<lambda>ap. match_index (\<lambda>x. ap_matches x ap) 0 [ap_ex]"] n(2,3) m
    by (simp add: Wifi_FindMatchingAP_def)
  then have "Wifi_AssocStatus request_ex = Some (ASSOCSTATUS_SEARCHING, ?y1)"
    by (simp add: Wifi_AssocStatus_def assoc_searching_def r)
  moreover have "Wifi_AssocStatus ?x2 = Some (ASSOCSTATUS_ASSOCIATED, ?y2)"
    by (simp add: Wifi_AssocStatus_def assoc_associating_def wd9_upd_def r)
  ultimately have run: "poll_run request_ex ?ps" by (simp add: wd9_upd_def r)
  have "\<exists>i j. i < j \<and> j \<le> 1 \<and> found_network ap_ex (?ps ! i)"
    using association_has_reasons [OF ok run, of 1] by (auto simp del: found_network.simps)
  then have "found_network ap_ex (request_ex, ASSOCSTATUS_SEARCHING, ?y1)" by (auto simp: le_Suc_eq simp del: found_network.simps)
  moreover have "curMode (wd9 ?x2) = WIFIMODE_CONNECTED" "\<not> wifi_lwip_enabled ?x2" by (simp_all add: wd9_upd_def r)
  ultimately show ?thesis using run by blast
qed

text \<open>What one poll does while the requested network is visible, and after the ARM7 has connected.\<close>

lemma poll_found:
  assumes "wifi_connect_state s = WIFI_CONNECT_SEARCHING" "aps_unlocked s" "k < Wifi_GetNumAP s"
    "ap_matches (wifi_connect_point s) (visible_ap s k)"
  shows "\<exists>k' s'. Wifi_AssocStatus s = Some (ASSOCSTATUS_SEARCHING, s') \<and> k' < Wifi_GetNumAP s \<and>
    ap_matches (wifi_connect_point s) (visible_ap s k') \<and> curAp (wd9 s') = visible_ap s k' \<and>
    reqMode (wd9 s') = WIFIMODE_CONNECTED \<and> wifi_connect_state s' = WIFI_CONNECT_ASSOCIATING \<and>
    wifi_lwip_enabled s' = wifi_lwip_enabled s \<and> curLibraryMode (wd9 s') = curLibraryMode (wd9 s)"
proof -
  let ?inner = "\<lambda>ap. match_index (\<lambda>x. ap_matches x ap) 0 [wifi_connect_point s]"
  let ?hits = "filter (\<lambda>k. ?inner (visible_ap s k) \<noteq> None) [0..<Wifi_GetNumAP s]"
  have "k \<in> set ?hits" using assms(3,4) by simp
  then obtain k' ks where h: "?hits = k' # ks" by (metis list.set_cases)
  then have "k' \<in> set ?hits" by simp
  then have k': "k' < Wifi_GetNumAP s" "ap_matches (wifi_connect_point s) (visible_ap s k')"
    by (auto split: if_splits)
  have "Wifi_FindMatchingAP (Some [wifi_connect_point s]) s = Some (Some (0, visible_ap s k'))"
    using scan_aps_result [OF assms(2), of "[0..<Wifi_GetNumAP s]" ?inner] h k'
    by (simp add: Wifi_FindMatchingAP_def)
  then show ?thesis using assms(1) k' by (auto simp: Wifi_AssocStatus_def assoc_searching_def)
qed

text \<open>C19: connecting makes progress. When the requested network is visible, the next poll stores what
  the scan knows about it and asks the ARM7 to connect; once the ARM7 reports that it is
  connected, the poll after that answers that the console is associated, or that it is acquiring
  an address when the library is in Internet mode and uses DHCP.\<close>

theorem connect_progress:
  assumes "wifi_connect_state s = WIFI_CONNECT_SEARCHING" "aps_unlocked s" "k < Wifi_GetNumAP s"
    "ap_matches (wifi_connect_point s) (visible_ap s k)"
  shows "\<exists>k' s1. Wifi_AssocStatus s = Some (ASSOCSTATUS_SEARCHING, s1) \<and>
    ap_matches (wifi_connect_point s) (visible_ap s k') \<and> curAp (wd9 s1) = visible_ap s k' \<and>
    reqMode (wd9 s1) = WIFIMODE_CONNECTED \<and>
    (\<exists>st s2. Wifi_AssocStatus (wd9_upd (\<lambda>w. w\<lparr>curMode := WIFIMODE_CONNECTED\<rparr>) s1) = Some (st, s2) \<and>
      (if st = ASSOCSTATUS_ACQUIRINGDHCP
       then wifi_connect_state s2 = WIFI_CONNECT_DHCPING \<and> dswifi_link_is_up s2 \<and> wifi_lwip_enabled s2
       else st = ASSOCSTATUS_ASSOCIATED \<and> wifi_connect_state s2 = WIFI_CONNECT_DONE))"
proof -
  obtain k' s1 where s1: "Wifi_AssocStatus s = Some (ASSOCSTATUS_SEARCHING, s1)"
      "ap_matches (wifi_connect_point s) (visible_ap s k')" "curAp (wd9 s1) = visible_ap s k'"
      "reqMode (wd9 s1) = WIFIMODE_CONNECTED" "wifi_connect_state s1 = WIFI_CONNECT_ASSOCIATING"
    using poll_found [OF assms] by blast
  let ?c = "wd9_upd (\<lambda>w. w\<lparr>curMode := WIFIMODE_CONNECTED\<rparr>) s1"
  have "\<exists>st s2. assoc_associating ?c = (st, s2) \<and>
      (if st = ASSOCSTATUS_ACQUIRINGDHCP
       then wifi_connect_state s2 = WIFI_CONNECT_DHCPING \<and> dswifi_link_is_up s2 \<and> wifi_lwip_enabled s2
       else st = ASSOCSTATUS_ASSOCIATED \<and> wifi_connect_state s2 = WIFI_CONNECT_DONE)"
    by (simp add: assoc_associating_def Let_def wifi_netif_set_up_def)
  with s1 show ?thesis by (auto simp: Wifi_AssocStatus_def)
qed

theorem connect_progress_witness:
  "\<exists>s1. Wifi_AssocStatus net_ex = Some (ASSOCSTATUS_SEARCHING, s1) \<and> reqMode (wd9 s1) = WIFIMODE_CONNECTED"
proof -
  have "ap_matches (wifi_connect_point net_ex) (visible_ap net_ex 0)"
    by (simp add: net_ex_simps, simp add: ap_matches_def ap_ex_def Wifi_CmpMacAddr_def net_ex_def numeral_eq_Suc)
  moreover have "wifi_connect_state net_ex = WIFI_CONNECT_SEARCHING" by (simp add: net_ex_def arm9_boot_def)
  ultimately show ?thesis using connect_progress [of net_ex 0] net_ex_simps by auto
qed

end
