(* ===== verification/Data_Paths.thy ===== *)
theory Data_Paths
  imports Dsi_Init Arm9_Assoc
begin

text \<open>
  The two halves of the paths that the data of the network takes through the shared structure, prepared for
  the properties in the root theory: what the ARM9 of a DSi does with the packets in the RX buffer, what
  it puts into the TX buffer, and reception on the ARM7 of both consoles in a form that can be composed.
\<close>

section \<open>Reception by the ARM9 of a DSi\<close>

text \<open>The Ethernet frame that a packet of the card becomes: both addresses, type and data.\<close>

definition twl_ethernet :: "u8 list \<Rightarrow> u8 list" where
  "twl_ethernet bs = take 6 (drop 2 bs) @ take 6 (drop 8 bs) @ take 2 (drop 22 bs) @ drop 24 bs"

definition dsi9 :: "arm9 \<Rightarrow> bool" where
  "dsi9 s \<longleftrightarrow> wifi_lwip_enabled s \<and> curLibraryMode (wd9 s) = DSWIFI_INTERNET \<and> dswifi_link_is_up s \<and>
     reqFlags (wd9 s) AND WFLAG_REQ_DSI_MODE \<noteq> 0"

lemma read_twl_buffer:
  fixes m :: mem8 and p :: nat
  defines "h \<equiv> read_bytes m (p + 2) 6 @ read_bytes m (p + 8) 6 @ read_bytes m (p + 22) 2"
  shows "read_bytes (write_bytes m (p + 10) h) (p + 10) (14 + k) = twl_ethernet (read_bytes m p (24 + k))"
proof -
  let ?m' = "write_bytes m (p + 10) h"
  have l: "length h = 14" by (simp add: h_def)
  then have "read_bytes ?m' (p + 10) 14 = h" using read_write_bytes [of m "p + 10" h] by simp
  moreover have "read_bytes ?m' (p + 24) k = read_bytes m (p + 24) k"
    by (rule read_bytes_cong) (simp add: write_bytes_def l)
  moreover have "read_bytes ?m' (p + 10) (14 + k) = read_bytes ?m' (p + 10) 14 @ read_bytes ?m' (p + 24) k"
    using read_bytes_add [of ?m' "p + 10" 14 k] by (simp add: add.commute)
  moreover have "twl_ethernet (read_bytes m p (24 + k)) = h @ read_bytes m (p + 24) k"
    using take_drop_read [of 2 6 "24 + k" m p] take_drop_read [of 8 6 "24 + k" m p] take_drop_read [of 22 2 "24 + k" m p]
      drop_read_bytes [of 24 "24 + k" m p] by (simp only: twl_ethernet_def h_def append_assoc) simp
  ultimately show ?thesis by simp
qed

lemma harmless_twl:
  "harmless (\<lambda>packet sz s. Some (to_lwip packet sz s)) dsi9 (\<lambda>bs. 24 \<le> length bs) (\<lambda>bs. [LwipInput (twl_ethernet bs)])"
  unfolding harmless_def
proof (intro allI impI)
  fix s packet and sz :: u32
  assume P: "dsi9 s" and "24 \<le> length (read_bytes (rx_mem s) packet (unat sz))"
  then have n: "24 \<le> unat sz" by simp
  then obtain k where k: "unat sz = 24 + k" by (auto simp: le_iff_add)
  let ?m = "rx_mem s" and ?s' = "Wifi_TWL_SendPacketToLwip packet sz s"
  let ?h = "read_bytes ?m (packet + 2) 6 @ read_bytes ?m (packet + 8) 6 @ read_bytes ?m (packet + 22) 2"
  let ?m' = "write_bytes ?m (packet + 10) ?h"
  have e: "unat (sz - 24 + 14) = 14 + k" "packet + 24 - 14 = packet + 10"
    using n k unsigned_less [of sz, where ?'a = nat] by (simp_all add: unat_sub word_le_nat_alt unat_word_ariths)
  have body: "?s' = log_event (LwipInput (twl_ethernet (read_bytes ?m packet (unat sz)))) (rx_mem_upd ?m' s)"
    by (simp only: Wifi_TWL_SendPacketToLwip_def Let_def e k read_twl_buffer)
  then have ev: "rx_events ?s' = rx_events s @ [LwipInput (twl_ethernet (read_bytes ?m packet (unat sz)))]"
    by (simp add: log_event_def rx_mem_upd_def)
  have d: "to_lwip packet sz s = ?s'"
    using P by (simp add: dsi9_def to_lwip_def wifi_netif_is_up_def Wifi_SendPacketToLwip_def)
  have "rxbuf (wd9 ?s') = (rxbuf (wd9 s))\<lparr>bufData := ?m'\<rparr>"
    by (simp only: body) (simp add: log_event_def rx_mem_upd_def wd9_upd_def)
  moreover have "agree_outside packet (packet + unat sz) ?m ?m'"
    using n by (simp add: agree_outside_write_bytes)
  moreover have "\<forall>b. dsi9 (rx_consumed sz (wd9_upd (\<lambda>w. w\<lparr>rxbuf := b\<rparr>) ?s'))"
    using P by (simp only: body) (simp add: dsi9_def rx_consumed_def wd9_upd_def stat_add_def log_event_def rx_mem_upd_def)
  ultimately show "\<exists>s' m'. Some (to_lwip packet sz s) = Some s' \<and> rxbuf (wd9 s') = (rxbuf (wd9 s))\<lparr>bufData := m'\<rparr> \<and>
      agree_outside packet (packet + unat sz) ?m m' \<and>
      rx_events s' = rx_events s @ [LwipInput (twl_ethernet (read_bytes ?m packet (unat sz)))] \<and>
      (\<forall>b. dsi9 (rx_consumed sz (wd9_upd (\<lambda>w. w\<lparr>rxbuf := b\<rparr>) s')))"
    using d ev by blast
qed

lemma dsi_update_run:
  assumes "rx_inv (rxbuf (wd9 s)) ps" "dsi9 s" "WifiData_set s" "\<forall>p \<in> set ps. 24 \<le> length (snd p)"
  shows "\<exists>s'. Wifi_Update9 s = Some s' \<and> rx_inv (rxbuf (wd9 s')) (drop 22 ps) \<and>
    rx_events s' = rx_events s @ map (\<lambda>p. LwipInput (twl_ethernet (snd p))) (take 22 ps)"
proof -
  have "bufRead (rxbuf (wd9 s)) AND 3 = 0"
    using assms(1) by (simp only: rx_inv_def ring_inv_def Let_def word_and_3_eq_0)
  then have "Wifi_Update9 s = rx_loop (\<lambda>packet sz s. Some (to_lwip packet sz s)) 22 s"
    using assms(2,3) by (simp add: Wifi_Update9_def Wifi_TWL_Update9_def dsi9_def)
  moreover have "concat (map (\<lambda>p. [f p]) xs) = map f xs" for f :: "packet \<Rightarrow> rx_event" and xs by (induction xs) simp_all
  ultimately show ?thesis using rx_loop_run [OF harmless_twl assms(1,2,4), of 22] by auto
qed

section \<open>Transmission by the ARM9 of a DSi\<close>

lemma length_mbox_tx_header [simp]: "length (mbox_tx_header src n) = 24"
  by (simp add: mbox_tx_header_def eth_dest_def eth_src_def eth_type_def le16_def Let_def)

text \<open>
  The packet for the card that an Ethernet frame becomes, as a function of the bytes of the frame: two bytes of
  zeros, destination and source, the length in network byte order of what follows it (LLC/SNAP header of
  six bytes, type and data, that is the frame without its addresses plus six), the LLC/SNAP header, the
  type and the data.
\<close>

definition twl_link_packet :: "u8 list \<Rightarrow> u8 list" where
  "twl_link_packet f = [0, 0] @ take 6 f @ take 6 (drop 6 f) @
     [of_nat ((length f - 6) div 256), of_nat ((length f - 6) mod 256)] @
     [0xAA, 0xAA, 0x03, 0, 0, 0] @ take 2 (drop 12 f) @ drop 14 f"

lemma be16_bytes:
  assumes "unat (n :: u32) < 0x10000"
  shows "le16 (ucast (drop_bit 8 n OR push_bit 8 (n AND 0xFF))) = [of_nat (unat n div 256), of_nat (unat n mod 256)]"
proof -
  have hi: "\<not> bit n k" if "16 \<le> k" for k
  proof -
    have "take_bit 16 n = n" using assms by (simp add: take_bit_eq_mod word_unat_eq_iff unat_mod)
    then have "bit n k \<Longrightarrow> k < 16" using bit_take_bit_iff [of 16 n k] by simp
    then show ?thesis using that by auto
  qed
  have m: "(0xFF :: u32) = mask 8" by (simp add: mask_eq_exp_minus_1)
  have "ucast (ucast (drop_bit 8 n OR push_bit 8 (n AND 0xFF)) :: u16) = (ucast (drop_bit 8 n) :: u8)"
    unfolding m by (rule bit_word_eqI) (auto simp: bit_simps dest: bit_imp_le_length)
  moreover have "ucast (drop_bit 8 (ucast (drop_bit 8 n OR push_bit 8 (n AND 0xFF)) :: u16)) = (ucast n :: u8)"
    unfolding m by (rule bit_word_eqI) (auto simp: bit_simps hi dest: bit_imp_le_length)
  moreover have "ucast (drop_bit 8 n) = (of_nat (unat n div 256) :: u8)" "ucast n = (of_nat (unat n mod 256) :: u8)"
    by (simp_all add: word_unat_eq_iff unat_of_nat unsigned_ucast_eq unat_drop_bit_eq drop_bit_eq_div take_bit_eq_mod unat_div)
  ultimately show ?thesis by (simp only: le16_def)
qed

lemma twl_link_packet_built:
  assumes "14 \<le> sz" "unat sz < 0x10000"
  shows "mbox_tx_header src (sz - 14) @ read_bytes src 14 (unat sz - 14) = twl_link_packet (read_bytes src 0 (unat sz))"
proof -
  have u: "14 \<le> unat sz" using assms(1) by (simp add: word_le_nat_alt)
  have "6 \<le> sz" using u by (simp add: word_le_nat_alt)
  then have n: "unat (sz - 14 + 6 + 2) = unat sz - 6" using unat_sub [of 6 sz] by simp
  then have b: "unat (sz - 14 + 6 + 2) < 0x10000" using assms(2) by linarith
  have l: "le16 0xAAAA @ le16 0x0003 @ le16 0 = [0xAA, 0xAA, 0x03, 0, 0, 0]" by (simp add: le16_def)
  have t: "take 6 (read_bytes src 0 (unat sz)) = eth_dest src" "take 6 (drop 6 (read_bytes src 0 (unat sz))) = eth_src src"
      "take 2 (drop 12 (read_bytes src 0 (unat sz))) = eth_type src"
      "drop 14 (read_bytes src 0 (unat sz)) = read_bytes src 14 (unat sz - 14)"
    using u take_drop_read [of 0 6 "unat sz" src 0] take_drop_read [of 6 6 "unat sz" src 0] take_drop_read [of 12 2 "unat sz" src 0]
      drop_read_bytes [of 14 "unat sz" src 0] by (simp_all add: eth_dest_def eth_src_def eth_type_def)
  show ?thesis
    unfolding mbox_tx_header_def twl_link_packet_def Let_def be16_bytes [OF b] n t by (simp add: le16_def)
qed

lemma twl_link_sent:
  assumes inv: "twl_tx_inv (txbuf (wd9 s)) ps" and mode: "reqFlags (wd9 s) AND WFLAG_REQ_DSI_MODE \<noteq> 0"
    and sz: "14 \<le> sz" "unat sz < 0x10000"
  shows "Wifi_TransmitFunctionLink src sz s = Some (-1, tx_rejected s) \<or>
    (\<exists>s'. Wifi_TransmitFunctionLink src sz s = Some (0, s') \<and>
      twl_tx_inv (txbuf (wd9 s')) (ps @ [(10 + sz, twl_link_packet (read_bytes src 0 (unat sz)))]))"
proof -
  let ?n = "sz - 14" and ?fs = "24 + (sz - 14) :: u32"
  let ?fill = "fill_frame (mbox_tx_header src ?n) (read_bytes src 14 (unat ?n))"
  have u: "unat ?n = unat sz - 14" using sz(1) by (simp add: unat_sub)
  have fs: "unat ?fs = 10 + unat sz" "?fs = 10 + sz"
    using sz u by (simp_all add: unat_word_ariths word_le_nat_alt)
  have ok: "size_ok ?fs" "?fs \<noteq> 0" "?fs \<noteq> WIFI_SIZE_WRAP"
    using fs(1) sz(2) by (auto simp: size_ok_def dest: arg_cong [of _ _ unat])
  have len: "24 + unat ?n = unat ?fs" using fs(1) u sz(1) by (simp add: word_le_nat_alt)
  have fill: "fits_between ?fill (align4 (unat ?fs))"
    using align4_bounds(1) [of "unat ?fs"] len by (intro fits_between_fill_frame) simp
  have bytes: "read_bytes (?fill a m) a (unat ?fs) = twl_link_packet (read_bytes src 0 (unat sz))" for a m
    using read_fill_frame [of "mbox_tx_header src ?n" "read_bytes src 14 (unat ?n)" a m] len twl_link_packet_built [OF sz, of src] by (simp add: u)
  have tx_small: "unat WIFI_TXBUFFER_SIZE < 2 ^ 31" by simp
  have put: "BufferPut WIFI_TXBUFFER_SIZE ?fs ?fill ?fs (txbuf (wd9 s)) = Some (False, txbuf (wd9 s)) \<or>
      (\<exists>b'. BufferPut WIFI_TXBUFFER_SIZE ?fs ?fill ?fs (txbuf (wd9 s)) = Some (True, b') \<and>
        twl_tx_inv b' (ps @ [(?fs, twl_link_packet (read_bytes src 0 (unat sz)))]))"
    using put_refines_append [OF inv _ ok(1) fill ok(2,3) refl] unfolding bytes by (simp only: tx_small) blast
  have l: "Wifi_TransmitFunctionLink src sz s = TxEnqueue ?fs ?fill 0 sz s"
    unfolding Wifi_TransmitFunctionLink_def Wifi_TWL_TransmitFunctionLink_def Let_def if_P [OF mode] ..
  have same: "wd9_upd (\<lambda>w. w\<lparr>txbuf := txbuf (wd9 s)\<rparr>) s = s" by (simp add: wd9_upd_def)
  from put show ?thesis
  proof
    assume "BufferPut WIFI_TXBUFFER_SIZE ?fs ?fill ?fs (txbuf (wd9 s)) = Some (False, txbuf (wd9 s))"
    then show ?thesis using same by (simp add: l TxEnqueue_def del: WIFI_TXBUFFER_SIZE_def)
  next
    assume "\<exists>b'. BufferPut WIFI_TXBUFFER_SIZE ?fs ?fill ?fs (txbuf (wd9 s)) = Some (True, b') \<and>
        twl_tx_inv b' (ps @ [(?fs, twl_link_packet (read_bytes src 0 (unat sz)))])"
    then obtain b' where b': "BufferPut WIFI_TXBUFFER_SIZE ?fs ?fill ?fs (txbuf (wd9 s)) = Some (True, b')"
        "twl_tx_inv b' (ps @ [(10 + sz, twl_link_packet (read_bytes src 0 (unat sz)))])" by (auto simp: fs(2))
    have "Wifi_TransmitFunctionLink src sz s = Some (0, tx_queued sz (wd9_upd (\<lambda>w. w\<lparr>txbuf := b'\<rparr>) s))"
      using b'(1) by (simp add: l TxEnqueue_def del: WIFI_TXBUFFER_SIZE_def)
    moreover have "txbuf (wd9 (tx_queued sz (wd9_upd (\<lambda>w. w\<lparr>txbuf := b'\<rparr>) s))) = b'"
      by (simp add: tx_queued_def Wifi_CallSyncHandler9_def wd9_upd_def stat_add_def)
    ultimately show ?thesis using b'(2) by auto
  qed
qed

text \<open>A frame of sixty bytes is accepted by an empty buffer.\<close>

lemma dsi_link_accepted:
  assumes "txbuf (wd9 s) = zero_buf" "reqFlags (wd9 s) AND WFLAG_REQ_DSI_MODE \<noteq> 0"
  shows "\<exists>s'. Wifi_TransmitFunctionLink src 60 s = Some (0, s')"
proof -
  let ?fill = "fill_frame (mbox_tx_header src 46) (read_bytes src 14 46)"
  have z: "twl_tx_inv zero_buf []" by (simp add: zero_buf_def ring_inv_def read_u32_def)
  have f: "fits_between ?fill (align4 (unat (70 :: u32)))" by (intro fits_between_fill_frame) (simp add: align4_def)
  have r: "has_room (unat WIFI_TXBUFFER_SIZE) zero_buf (unat (70 :: u32))" by (simp add: has_room_def zero_buf_def align4_def)
  have "\<exists>b'. BufferPut WIFI_TXBUFFER_SIZE 70 ?fill 70 zero_buf = Some (True, b')"
    using put_accepts_iff [of WIFI_TXBUFFER_SIZE unat zero_buf "[]" 70 ?fill 70] z f r by (simp add: size_ok_def)
  then obtain b' where b': "BufferPut WIFI_TXBUFFER_SIZE 70 ?fill 70 zero_buf = Some (True, b')" ..
  have "Wifi_TransmitFunctionLink src 60 s = TxEnqueue 70 ?fill 0 60 s"
    unfolding Wifi_TransmitFunctionLink_def Wifi_TWL_TransmitFunctionLink_def Let_def if_P [OF assms(2)] by simp
  then show ?thesis using b' assms(1) by (simp add: TxEnqueue_def del: WIFI_TXBUFFER_SIZE_def)
qed

text \<open>What reception leaves alone decides how the ARM9 handles a packet.\<close>

lemma apart_from_rx_fields:
  assumes "apart_from_rx w = apart_from_rx w'"
  shows "curLibraryMode w = curLibraryMode w'" "reqFlags w = reqFlags w'" "MacAddr w = MacAddr w'"
  using arg_cong [OF assms, of curLibraryMode] arg_cong [OF assms, of reqFlags] arg_cong [OF assms, of MacAddr]
  by (simp_all add: apart_from_rx_def)

end
