(* ===== verification/Spec2Isabelle.thy ===== *)
theory Spec2Isabelle
  imports Data_Paths
begin

text \<open>
  Verification of DSWifi, the library for the wireless hardware of the Nintendo DS and DSi.

  The program. The library runs on two processors. On the ARM9, which runs the application
  (\<^verbatim>\<open>source/arm9\<close>), it offers requests (scan, connect, host a room), sends frames and hands the received
  ones to lwIP or to the handlers of the application. On the ARM7 (\<^verbatim>\<open>source/arm7\<close>) it drives the hardware: the
  radio of the DS (\<^verbatim>\<open>ntr\<close>), or the SDIO card of the DSi (\<^verbatim>\<open>twl\<close>), chosen at start. Both share one structure,
  \<^verbatim>\<open>Wifi_MainStruct\<close> (\<^verbatim>\<open>source/common/wifi_shared.h\<close>): the requested and the current mode, the tables of access
  points and of clients, and a circular buffer of packets for each direction. The ARM9 writes the
  requests and the TX buffer, the ARM7 the rest; the table of clients is protected by a spinlock, and short
  messages through the FIFO of libnds tell the other processor to look.

  The model. The shared structure is the record \<open>Wifi_MainStruct\<close>; \<open>arm9\<close> (Arm9_Ipc) and \<open>arm7\<close> (Arm7_Hw) hold it
  together with the static variables of each side, and \<open>twl\<close> (Twl_Card) holds those of the DSi driver.
  An operation is a function on these states with the name of its C function (a suffix 7 or 9 where both
  sides have one), \<open>None\<close> where an assertion fails, where C leaves the behaviour undefined, or where a loop does
  not end. Integers are words of their C width, so that arithmetic wraps around; memory with
  addresses is a function from addresses to bytes or halfwords; structures in frames are written
  byte by byte in the order of the headers.

  The theories, from the bottom.
  \<^item> Wifi_Prelude: words, byte memories and their accessors, options; the collections \<open>mem_simps\<close>,
    \<open>reg_simps\<close>, \<open>const_defs\<close>. Wifi_Shared: \<^verbatim>\<open>wifi_shared.h\<close> and the public structures. Ieee_Defs: the frame layout of
    \<^verbatim>\<open>common/ieee_defs.h\<close>. Wifi_Rng: \<^verbatim>\<open>common/random.c\<close>.
  \<^item> Spinlock: \<^verbatim>\<open>common/spinlock.s\<close>, one memory access at a time on both processors, as a step relation with
    reachability. Mutual exclusion is an invariant by rule induction.
  \<^item> Circ_Buffer: the packet buffers, from \<^verbatim>\<open>arm9/ipc.c\<close>, \<^verbatim>\<open>arm7/ipc.c\<close> and the loops that read them. The
    locale \<open>packet_fifo\<close> states what a queue of packets promises; it is interpreted for both directions.
  \<^item> Arm9_Ipc, Arm9_Mp, Arm9_Tx, Arm9_Rx, Arm9_Assoc: \<^verbatim>\<open>arm9/ipc.c\<close>, \<^verbatim>\<open>arm9/ntr\<close>, \<^verbatim>\<open>arm9/lwip/rx_tx.c\<close>,
    \<^verbatim>\<open>wifi_arm9.c\<close>, \<^verbatim>\<open>access_point.c\<close> and the state of \<^verbatim>\<open>lwip/netif.c\<close>.
  \<^item> Wfc and Ap_List: the access points saved in the firmware (\<^verbatim>\<open>arm7/wfc.c\<close>) and those in range.
  \<^item> Arm7_Hw, Arm7_Setup, Arm7_Tx, Arm7_Frames, Arm7_Mp: registers, flash and chips of the DS, its setup, its
    transmission queues, the frames that the ARM7 builds and the table of clients of a host.
    Ieee_Beacon, Ieee_Process, Arm7_Rx: beacons, management frames, and the RX ring with the
    interrupt handler (\<^verbatim>\<open>arm7/ntr/ieee_802_11\<close>, \<^verbatim>\<open>rx_queue.c\<close>, \<^verbatim>\<open>interrupts.c\<close>).
  \<^item> Arm7_Control: what each part of the DS driver leaves alone. The locale \<open>frame_relation\<close> (reflexive and
    composable relations between the states before and after) is interpreted for this, and in
    Ntr_Update and Ntr_Modes for the senders, the requests, the traffic and the table of clients.
  \<^item> Ntr_Update: \<^verbatim>\<open>arm7/ntr/update.c\<close>. Ntr_Modes: its refinement of the table of modes \<open>next_mode\<close>.
  \<^item> Twl_Card, Twl_Wmi, Twl_Link, Twl_Update, Dsi_Init: the DSi card up to its mailbox (\<^verbatim>\<open>twl/card.twl.c\<close>), its
    control protocol and the WPA2 handshake (\<^verbatim>\<open>twl/ath\<close>), properties of the link, the state machine
    (\<^verbatim>\<open>twl/update.twl.c\<close>) with its refinement of \<open>next_link\<close>, and the state after the initialisation.
  \<^item> Mbed_Sha1, Mbed_Md, Mbed_Aes, Mbed_Aes_Rounds, Mbed_Kw, Twl_Wpa: the primitives of \<^verbatim>\<open>mbedtls/library\<close> that WPA2
    uses, and the keys of \<^verbatim>\<open>twl/ieee/wpa.twl.c\<close> on top of them. SHA-1, HMAC and PBKDF2 are equal to the
    definitions of FIPS 180-4, RFC 2104 and RFC 8018; AES decryption inverts encryption, from the
    generation of the tables in the field of 256 elements on; unwrapping a key inverts wrapping it.
  \<^item> Data_Paths and this theory: the paths of network data through both processors.

  What the lemmas show. The buffers refine queues, and no sequence of writes and reads of packets fails an assertion.
  A frame that lwIP or the application sends reaches the hardware of either console complete, and one
  that the hardware receives reaches lwIP; frames between a host and its clients arrive at the handlers
  with exactly their data. The updates of both drivers always return and move the mode as their tables
  say. The table of clients of a host stays consistent whatever frames arrive; a beacon and an association
  answer built by one console are understood by the other. A poll of the application reports an association
  only after the steps that lead to it. The answer to the first message of the WPA2 handshake is
  accepted by an access point that holds the same key, and the group key that it wraps is the one that
  the driver finds. Several theorems state where the code does not do what it means to: a lock
  that stays held, a time-out test that is inverted, a failed card that keeps the driver waiting, a group
  key message that counts as the end of a handshake.

  What a frame, a key or an entry has to be is written down on its bytes, after IEEE 802.11, IEEE 802.2 and the
  RFCs, without the operations of the program: \<open>lwip_deliver\<close>, \<open>twl_ethernet\<close>, \<open>twl_link_packet\<close>, \<open>ap_accepts\<close> with
  \<open>ieee_ptk\<close>, \<open>saved_ntr\<close> and \<open>saved_twl\<close>, and \<open>found_network\<close> and its companions for the polls.

  Bounds. The RX ring is read for at most 7 frames per interrupt and the RX buffer for at most 22 packets
  per update, as in the loops of the code. The interrupt handler takes the number of its passes as an
  argument; two are enough when nothing arrives in between, as Arm7_Control shows. A message of the
  card that is answered by reading the next one makes \<open>wifi_card_mbox0_readpkt\<close> call itself, at most
  \<open>depth\<close> deep; for every other packet a depth of one is enough, which the theorems about data packets
  state. The loops that poll the card (\<open>poll\<close>, \<open>op_cond\<close>, \<open>io_send_op_cond\<close>) and \<open>twl_tx_loop\<close> are partial functions
  whose value is \<open>None\<close> when they do not end; that the transmission loop ends is proved.

  Not modelled.
  \<^item> The SDIO controller and the NDMA (\<^verbatim>\<open>twl/sdio.twl.c\<close>, \<^verbatim>\<open>ndma.twl.c\<close>): they poll registers. The card is
    a function from the history of commands to the status and data that it answers. In the same way the
    radio chips of the DS answer at once, the flash of the firmware (\<^verbatim>\<open>readFirmware\<close> of libnds) is a function
    from addresses to bytes, and registers that the hardware changes are inputs of the operations.
  \<^item> Interrupts that arrive while a handler runs, and the two processors in the middle of an operation, except
    in Spinlock. The caches of the ARM9.
  \<^item> lwIP itself, its port (\<^verbatim>\<open>arm9/lwip/sys.c\<close>) and the wrappers of its sockets (\<^verbatim>\<open>posix.c\<close>): frames
    that are handed to it are recorded as events, and its calls of the link output are the operations.
  \<^item> Registration of handlers with libnds and of memory with its allocators, timers, and the texts of the
    debugging output, with the reads of registers inside them.
  \<^item> Functions that nothing calls: 16 and 32-bit writes to function 0 of the card, fixed rates and power in
    \<^verbatim>\<open>wmi.twl.c\<close>, and \<^verbatim>\<open>Wifi_SendPSPollFrame\<close>, which is disabled.
  \<^item> Of mbedTLS, what the configuration in \<^verbatim>\<open>twl/crypto/mbedtls\<close> does not compile, and the memory pool:
    its allocations are assumed to succeed. The comparisons in constant time are modelled by their values.
\<close>

section \<open>Data paths of a DSi\<close>

text \<open>C3: What lwIP sends on a DSi reaches the card: when the ARM9 accepts an Ethernet frame of at most 1520
  bytes, the next pass of the ARM7 over the TX buffer sends everything that waited before and then a block
  with exactly the frame: destination, source, the length in network byte order, an LLC/SNAP header, the type
  and the data, each at its place in the packet of the card.\<close>

theorem dsi_transmit_path:
  assumes "twl_tx_inv (txbuf (wd9 s9)) ps" "reqFlags (wd9 s9) AND WFLAG_REQ_DSI_MODE \<noteq> 0" "14 \<le> sz" "sz \<le> 1520"
    "Wifi_TransmitFunctionLink src sz s9 = Some (0, s9')" "wd7 s7 = wd9 s9'"
  shows "\<exists>s7' bs b. Wifi_TWL_TxArm9QueueFlush s7 = Some s7' \<and> twl_tx_inv (txbuf (wd7 s7')) [] \<and>
    sent_blocks (ops (twl s7')) = sent_blocks (ops (twl s7)) @ bs @ [b] \<and> length bs = length ps \<and>
    sent_as 2 0 0x2008 (twl_link_packet (read_bytes src 0 (unat sz))) b"
proof -
  have sz: "unat sz \<le> 1520" "unat sz < 0x10000" "14 \<le> unat sz" using assms(3,4) by (simp_all add: word_le_nat_alt)
  have "twl_tx_inv (txbuf (wd7 s7)) (ps @ [(10 + sz, twl_link_packet (read_bytes src 0 (unat sz)))])"
    using twl_link_sent [OF assms(1-3) sz(2), of src] assms(5,6) by auto
  then obtain s7' bs where s7': "twl_tx_loop s7 = Some s7'" "twl_tx_inv (txbuf (wd7 s7')) []"
      "sent_blocks (ops (twl s7')) = sent_blocks (ops (twl s7)) @ bs"
      "list_all2 (\<lambda>p. sent_as 2 0 0x2008 (take 1530 (snd p))) (ps @ [(10 + sz, twl_link_packet (read_bytes src 0 (unat sz)))]) bs"
    and f: "Wifi_TWL_TxArm9QueueFlush s7 = twl_tx_loop s7"
    using twl_tx_loop_run twl_flush_run by blast
  obtain bs' b where b: "bs = bs' @ [b]" "length bs' = length ps" "sent_as 2 0 0x2008 (take 1530 (twl_link_packet (read_bytes src 0 (unat sz)))) b"
    using s7'(4) by (auto simp: list_all2_append1 list_all2_Cons1 dest: list_all2_lengthD)
  have "length (twl_link_packet (read_bytes src 0 (unat sz))) \<le> 1530" using sz by (simp add: twl_link_packet_def)
  then show ?thesis using s7' f b by (intro exI [of _ s7'] exI [of _ bs'] exI [of _ b]) simp
qed

definition dsi_main_ex :: Wifi_MainStruct where
  "dsi_main_ex = zero_main\<lparr>reqFlags := WFLAG_REQ_DSI_MODE\<rparr>"

lemma dsi_main_ex_bufs: "twl_tx_inv (txbuf dsi_main_ex) []" "rx_inv (rxbuf dsi_main_ex) []"
  "reqFlags dsi_main_ex AND WFLAG_REQ_DSI_MODE \<noteq> 0"
  by (simp_all add: dsi_main_ex_def zero_main_def zero_buf_def ring_inv_def rx_inv_def read_u32_def)

theorem dsi_transmit_path_witness:
  "\<exists>s9' s7' b. Wifi_TransmitFunctionLink of_nat 60 (arm9_boot\<lparr>wd9 := dsi_main_ex\<rparr>) = Some (0, s9') \<and>
    Wifi_TWL_TxArm9QueueFlush (arm7_zero\<lparr>wd7 := wd9 s9'\<rparr>) = Some s7' \<and> sent_blocks (ops (twl s7')) = [b] \<and>
    sent_as 2 0 0x2008 ([0, 0] @ map of_nat [0..<12] @ [0, 54] @ [0xAA, 0xAA, 0x03, 0, 0, 0] @ map of_nat [12..<60]) b"
proof -
  let ?s9 = "arm9_boot\<lparr>wd9 := dsi_main_ex\<rparr>"
  have m: "twl_tx_inv (txbuf (wd9 ?s9)) []" "reqFlags (wd9 ?s9) AND WFLAG_REQ_DSI_MODE \<noteq> 0"
    using dsi_main_ex_bufs by simp_all
  obtain s9' where s9': "Wifi_TransmitFunctionLink of_nat 60 ?s9 = Some (0, s9')"
    using dsi_link_accepted [of ?s9 of_nat] m(2) by (auto simp: dsi_main_ex_def zero_main_def)
  have "read_bytes of_nat 0 (unat (60 :: u32)) = map of_nat [0..<60]" by (simp add: read_bytes_def)
  moreover have "[12..<14] @ [14..<60] = [12..<60 :: nat]" using upt_add_eq_append [of 12 14 46] by simp
  then have "map of_nat [12..<14] @ map of_nat [14..<60] = (map of_nat [12..<60] :: u8 list)" by (simp only: flip: map_append)
  moreover have "[0..<6] @ [6..<12] = [0..<12 :: nat]" using upt_add_eq_append [of 0 6 6] by simp
  then have "map of_nat [0..<6] @ map of_nat [6..<12] @ bs = (map of_nat [0..<12] @ bs :: u8 list)" for bs
    by (simp only: append_assoc [symmetric]) (simp only: flip: map_append)
  ultimately have p: "twl_link_packet (read_bytes of_nat 0 (unat (60 :: u32))) =
      [0, 0] @ map of_nat [0..<12] @ [0, 54] @ [0xAA, 0xAA, 0x03, 0, 0, 0] @ map of_nat [12..<60]"
    by (simp add: twl_link_packet_def take_map drop_map take_upt del: upt_Suc)
  from dsi_transmit_path [OF m _ _ s9', of "arm7_zero\<lparr>wd7 := wd9 s9'\<rparr>"] obtain s7' bs b
    where "Wifi_TWL_TxArm9QueueFlush (arm7_zero\<lparr>wd7 := wd9 s9'\<rparr>) = Some s7'" "bs = []"
      "sent_blocks (ops (twl s7')) = sent_blocks (ops (twl (arm7_zero\<lparr>wd7 := wd9 s9'\<rparr>))) @ bs @ [b]"
      "sent_as 2 0 0x2008 (twl_link_packet (read_bytes of_nat 0 (unat (60 :: u32)))) b" by auto
  then show ?thesis unfolding p using s9' by (intro exI [of _ s9'] exI [of _ s7'] exI [of _ b]) (simp add: arm7_zero_def twl_zero_def)
qed

text \<open>C4: A data packet that the card of a DSi delivers reaches lwIP: when the RX buffer has room for it and fewer
  than 22 packets wait, the next update of the ARM9 hands lwIP the Ethernet frames of the packets that
  waited before, in order, and then that of this packet, and leaves the buffer empty.\<close>

theorem dsi_receive_path:
  assumes "rx_inv (rxbuf (wd7 s7)) ps" "\<forall>p \<in> set ps. 24 \<le> length (snd p)" "length ps < 22"
    "24 \<le> n" "n < 0x10000" "getbe16 p 22 \<noteq> 0x888E" "has_room 12288 (rxbuf (wd7 s7)) n"
    "dsi9 (s9\<lparr>wd9 := wd7 s7\<rparr>)" "WifiData_set s9"
  shows "\<exists>s7' s9'. data_handle_pkt p n s7 = Some s7' \<and> Wifi_Update9 (s9\<lparr>wd9 := wd7 s7'\<rparr>) = Some s9' \<and>
    rx_inv (rxbuf (wd9 s9')) [] \<and>
    rx_events s9' = rx_events s9 @ map (\<lambda>p. LwipInput (twl_ethernet (snd p))) ps @ [LwipInput (twl_ethernet (read_bytes p 0 n))]"
proof -
  let ?f = "read_bytes p 0 n"
  have l: "0 < length ?f" "length ?f < 0x10000" using assms(4,5) by simp_all
  obtain s7' where s7': "Wifi_TWL_RxAddPacketToQueue ?f s7 = Some (True, s7')" "rx_inv (rxbuf (wd7 s7')) (ps @ [(of_nat n, ?f)])"
      "apart_from_rx (wd7 s7') = apart_from_rx (wd7 s7)"
    using TWL_RxAddPacketToQueue_spec [OF assms(1) l] assms(7) by auto
  have "data_handle_pkt p n s7 = Some s7'" using assms(6) s7'(1) by (simp add: data_handle_pkt_def)
  moreover have "dsi9 (s9\<lparr>wd9 := wd7 s7'\<rparr>)"
    using assms(8) apart_from_rx_fields [OF s7'(3)] by (simp add: dsi9_def)
  ultimately show ?thesis
    using dsi_update_run [of "s9\<lparr>wd9 := wd7 s7'\<rparr>" "ps @ [(of_nat n, ?f)]"] s7'(2) assms(2-4,9) by auto
qed

definition online9 :: arm9 where
  "online9 = arm9_boot\<lparr>WifiData_set := True, wifi_lwip_enabled := True, dswifi_link_is_up := True\<rparr>"

theorem dsi_receive_path_witness:
  "\<exists>s9 s9'. Wifi_Update9 s9 = Some s9' \<and> rx_events s9' = [LwipInput (twl_ethernet (replicate 60 7))]"
proof -
  let ?s7 = "arm7_zero\<lparr>wd7 := dsi_main_ex\<rparr>" and ?p = "\<lambda>_. 7 :: u8"
  have i: "rx_inv (rxbuf (wd7 ?s7)) []" "\<forall>p \<in> set []. 24 \<le> length (snd (p :: packet))" "length [] < (22 :: nat)"
    using dsi_main_ex_bufs(2) by simp_all
  have g: "getbe16 ?p 22 \<noteq> 0x888E" by (simp add: getbe16_def hword_def)
  have r: "has_room 12288 (rxbuf (wd7 ?s7)) 60"
    by (simp add: dsi_main_ex_def has_room_def zero_main_def zero_buf_def align4_def)
  have d: "dsi9 (online9\<lparr>wd9 := wd7 ?s7\<rparr>)" "WifiData_set online9"
    by (simp_all add: dsi9_def online9_def dsi_main_ex_def zero_main_def)
  have b: "read_bytes ?p 0 60 = replicate 60 7" by (rule nth_equalityI) simp_all
  have "rx_events online9 = []" by (simp add: online9_def arm9_boot_def)
  then show ?thesis using dsi_receive_path [OF i _ _ g r d] by (auto simp: b)
qed

section \<open>The reception path of a DS\<close>

text \<open>C5: A frame that the radio of a DS receives reaches lwIP: a data frame in the RX ring of the MAC is moved to
  the RX buffer, and the next update of the ARM9 hands lwIP the Ethernet frame with its destination, its source
  (address 3 or 2, as the bit for the distribution system says), type and payload when it is addressed to
  the console or to a group, does not go to a distribution system and carries an LLC/SNAP header; any other
  frame is taken from the buffer and dropped.\<close>

theorem ds_receive_path:
  assumes "base = 2 * unat (regs s7 W_RXBUF_READCSR)" "in_ring f base s7" "data_frame f" "32 \<le> length f"
    "unat (Wifi_MACReadHWord base HDR_RX_IEEE_FRAME_SIZE s7) = length f"
    "regs s7 W_RXBUF_WRCSR = of_nat (rx_wrap s7 (base + 12 + align4 (length f)) div 2)"
    "regs s7 W_RXBUF_WRCSR \<noteq> regs s7 W_RXBUF_READCSR" "rx_inv (rxbuf (wd7 s7)) []" "has_room 12288 (rxbuf (wd7 s7)) (length f)"
    "internet9 own_mac (s9\<lparr>wd9 := wd7 s7\<rparr>)" "WifiData_set s9"
  shows "\<exists>s7' s9'. Wifi_RxQueueFlush s7 = Some s7' \<and> Wifi_Update9 (s9\<lparr>wd9 := wd7 s7'\<rparr>) = Some s9' \<and>
    rx_inv (rxbuf (wd9 s9')) [] \<and> rx_events s9' = rx_events s9 @ lwip_deliver own_mac f"
proof -
  obtain s7' where s7': "Wifi_RxQueueFlush s7 = Some s7'" "rx_inv (rxbuf (wd7 s7')) [(of_nat (length f), f)]"
      "apart_from_rx (wd7 s7') = apart_from_rx (wd7 s7)"
    using rx_data_frame_run [OF assms(1,2,3,5,6,7,8)] assms(9) by auto
  have "internet9 own_mac (s9\<lparr>wd9 := wd7 s7'\<rparr>)"
    using assms(10) apart_from_rx_fields [OF s7'(3)] by (simp add: internet9_def)
  then show ?thesis
    using internet_update_run [of "s9\<lparr>wd9 := wd7 s7'\<rparr>" "[(of_nat (length f), f)]" own_mac] s7'(1,2) assms(4,11) by auto
qed

theorem ds_receive_path_witness:
  "\<exists>s7' s9'. Wifi_RxQueueFlush rx_ring_state_ex = Some s7' \<and> Wifi_Update9 (online9\<lparr>wd9 := wd7 s7'\<rparr>) = Some s9' \<and>
    rx_events s9' = [LwipInput (wifi_broadcast_addr @ replicate 6 2 @ [8, 0])]"
proof -
  note ex = rx_ring_example
  have inv: "rx_inv (rxbuf (wd7 rx_ring_state_ex)) []" "has_room 12288 (rxbuf (wd7 rx_ring_state_ex)) (length frame_ex)"
    using ex(1,8-10) by simp_all
  have i: "internet9 (replicate 6 0) (online9\<lparr>wd9 := wd7 rx_ring_state_ex\<rparr>)" "WifiData_set online9" "rx_events online9 = []"
    by (simp_all add: ex(8) internet9_def online9_def zero_main_def arm9_boot_def)
  show ?thesis using ds_receive_path [OF _ ex(4,5) _ _ _ _ inv i(1,2)] ex i(3) frame_ex_delivered by auto
qed

end
